(* ===== verification/Prelude.thy ===== *)
theory Prelude
  imports Main "HOL-Library.Word" "HOL-Library.Monad_Syntax"
begin

text \<open>
  Shared ground of the development: machine integer types, byte slices with Rust's
  bounds checks, little- and big-endian readers, ASCII helpers, the outcome of a loop
  that may not end, and the interface of a 512-byte sector source that both boot
  loaders' directory scanners rely on.

  Conventions. All crates are built with \<open>--release\<close>, so unsigned arithmetic on
  \<open>u8\<close> .. \<open>u64\<close> wraps: those values are words. A \<open>usize\<close> that is
  an index or a length below 2^40 is a \<open>nat\<close>. Every slice or index expression that
  panics in Rust when out of range is an \<open>option\<close> here, with \<open>None\<close> the panic.
\<close>

type_synonym u8 = "8 word"
type_synonym u16 = "16 word"
type_synonym u32 = "32 word"
type_synonym u64 = "64 word"
type_synonym bytes = "u8 list"

named_theorems bounds_simps "rules that discharge Rust's index checks"
named_theorems len_simps "lengths of encoded records and buffers"

unbundle bit_operations_syntax

section \<open>Slices with bounds checks\<close>

definition idx :: "'a list \<Rightarrow> nat \<Rightarrow> 'a option" where
  "idx xs i = (if i < length xs then Some (xs ! i) else None)"

definition slice :: "'a list \<Rightarrow> nat \<Rightarrow> nat \<Rightarrow> 'a list option" where
  "slice xs a b = (if a \<le> b \<and> b \<le> length xs then Some (take (b - a) (drop a xs)) else None)"

text \<open>\<open>dst[off..off+src.len()].copy_from_slice(src)\<close>.\<close>

definition blit :: "'a list \<Rightarrow> nat \<Rightarrow> 'a list \<Rightarrow> 'a list option" where
  "blit dst off src =
     (if off + length src \<le> length dst
      then Some (take off dst @ src @ drop (off + length src) dst) else None)"

text \<open>\<open>dst[i] = v\<close>.\<close>

definition put :: "'a list \<Rightarrow> nat \<Rightarrow> 'a \<Rightarrow> 'a list option" where
  "put xs i v = (if i < length xs then Some (xs[i := v]) else None)"

lemma idx_Some [bounds_simps]: "i < length xs \<Longrightarrow> idx xs i = Some (xs ! i)"
  by (simp add: idx_def)

lemma slice_Some [bounds_simps]:
  "a \<le> b \<Longrightarrow> b \<le> length xs \<Longrightarrow> slice xs a b = Some (take (b - a) (drop a xs))"
  by (simp add: slice_def)

lemma blit_Some [bounds_simps]:
  "off + length src \<le> length dst \<Longrightarrow>
     blit dst off src = Some (take off dst @ src @ drop (off + length src) dst)"
  by (simp add: blit_def)

lemma put_Some [bounds_simps]: "i < length xs \<Longrightarrow> put xs i v = Some (xs[i := v])"
  by (simp add: put_def)

lemma blit_length [len_simps]: "blit dst off src = Some d \<Longrightarrow> length d = length dst"
  by (auto simp: blit_def split: if_splits)

lemma put_length [len_simps]: "put xs i v = Some ys \<Longrightarrow> length ys = length xs"
  by (auto simp: put_def split: if_splits)

lemma slice_length [len_simps]: "slice xs a b = Some ys \<Longrightarrow> length ys = b - a"
  by (auto simp: slice_def split: if_splits)

lemma blit_nth:
  assumes "blit dst off src = Some d" and "i < length dst"
  shows "d ! i = (if off \<le> i \<and> i < off + length src then src ! (i - off) else dst ! i)"
  using assms by (auto simp: blit_def nth_append min_def split: if_splits)

text \<open>
  A copy into a fixed-size array at constant bounds, which the source's types keep in
  range; it never panics.
\<close>

definition paste :: "'a list \<Rightarrow> nat \<Rightarrow> 'a list \<Rightarrow> 'a list" where
  "paste dst off src = take off dst @ src @ drop (off + length src) dst"

lemma paste_length [len_simps]: "off + length src \<le> length dst \<Longrightarrow> length (paste dst off src) = length dst"
  by (simp add: paste_def)

lemma paste_nth:
  "off + length src \<le> length dst \<Longrightarrow> i < length dst \<Longrightarrow>
     paste dst off src ! i = (if off \<le> i \<and> i < off + length src then src ! (i - off) else dst ! i)"
  by (auto simp: paste_def nth_append min_def)

lemma paste_slice_before:
  "b \<le> off \<Longrightarrow> off + length src \<le> length dst \<Longrightarrow> take n (drop a (paste dst off src)) = take n (drop a dst)"
  if "a + n \<le> b" for a n b
  using that by (auto simp: paste_def drop_take min_def intro!: nth_equalityI)

lemma paste_slice_after:
  "off + length src \<le> a \<Longrightarrow> off + length src \<le> length dst \<Longrightarrow> drop a (paste dst off src) = drop a dst"
  by (auto simp: paste_def)

lemma paste_slice_same:
  "off \<le> length dst \<Longrightarrow> take (length src) (drop off (paste dst off src)) = src"
  by (simp add: paste_def)

section \<open>Little-endian and big-endian integers\<close>

fun le_nat :: "bytes \<Rightarrow> nat" where
  "le_nat [] = 0"
| "le_nat (b # bs) = unat b + 256 * le_nat bs"

fun nat_le :: "nat \<Rightarrow> nat \<Rightarrow> bytes" where
  "nat_le 0 v = []"
| "nat_le (Suc n) v = word_of_nat (v mod 256) # nat_le n (v div 256)"

definition from_le :: "bytes \<Rightarrow> 'a::len word" where
  "from_le bs = word_of_nat (le_nat bs)"

definition to_le :: "nat \<Rightarrow> 'a::len word \<Rightarrow> bytes" where
  "to_le n w = nat_le n (unat w)"

definition to_be :: "nat \<Rightarrow> 'a::len word \<Rightarrow> bytes" where
  "to_be n w = rev (to_le n w)"

definition u16_at :: "bytes \<Rightarrow> nat \<Rightarrow> u16 option" where
  "u16_at xs off = map_option from_le (slice xs off (off + 2))"

definition u32_at :: "bytes \<Rightarrow> nat \<Rightarrow> u32 option" where
  "u32_at xs off = map_option from_le (slice xs off (off + 4))"

definition u64_at :: "bytes \<Rightarrow> nat \<Rightarrow> u64 option" where
  "u64_at xs off = map_option from_le (slice xs off (off + 8))"

lemma nat_le_length [simp, len_simps]: "length (nat_le n v) = n"
  by (induction n arbitrary: v) auto

lemma to_le_length [simp, len_simps]: "length (to_le n w) = n"
  by (simp add: to_le_def)

lemma to_be_length [simp, len_simps]: "length (to_be n w) = n"
  by (simp add: to_be_def)

lemma unat_byte_mod [simp]: "unat (word_of_nat (v mod 256) :: u8) = v mod 256"
  by (simp add: unat_of_nat)

lemma le_nat_nat_le: "le_nat (nat_le n v) = v mod 256 ^ n"
proof (induction n arbitrary: v)
  case 0
  then show ?case by simp
next
  case (Suc n)
  have "v mod 256 ^ Suc n = 256 * (v div 256 mod 256 ^ n) + v mod 256"
    by (simp add: mod_mult2_eq)
  then show ?case using Suc by simp
qed

lemma le_nat_bound: "le_nat bs < 256 ^ length bs"
proof (induction bs)
  case Nil
  then show ?case by simp
next
  case (Cons b bs)
  have "unat b < 256" using unsigned_less [of b] by simp
  then have "unat b + 256 * le_nat bs < 256 * (le_nat bs + 1)" by simp
  also have "\<dots> \<le> 256 * 256 ^ length bs"
    using Cons by (intro mult_le_mono2) simp
  finally show ?case by simp
qed

lemma from_le_to_le:
  assumes "LENGTH('a::len) \<le> 8 * n"
  shows "(from_le (to_le n (w :: 'a word)) :: 'a word) = w"
proof -
  have "unat w < 2 ^ LENGTH('a)" by (rule unsigned_less)
  also have "(2::nat) ^ LENGTH('a) \<le> 2 ^ (8 * n)" using assms by simp
  also have "(2::nat) ^ (8 * n) = 256 ^ n" by (simp add: power_mult)
  finally show ?thesis by (simp add: from_le_def to_le_def le_nat_nat_le)
qed

lemma from_le_to_le_sizes [simp]:
  "(from_le (to_le 2 x) :: u16) = x" "(from_le (to_le 4 y) :: u32) = y"
  "(from_le (to_le 8 z) :: u64) = z"
  by (simp_all add: from_le_to_le)

lemma nat_le_le_nat: "length bs = n \<Longrightarrow> nat_le n (le_nat bs) = bs"
proof (induction bs arbitrary: n)
  case Nil
  then show ?case by simp
next
  case (Cons b bs)
  have "unat b < 256" using unsigned_less [of b] by simp
  then show ?case using Cons by (auto simp: mod_less)
qed

lemma to_le_from_le:
  assumes "8 * length bs = LENGTH('a::len)"
  shows "to_le (length bs) (from_le bs :: 'a word) = bs"
proof -
  have "(256::nat) ^ length bs = 2 ^ (8 * length bs)" by (simp add: power_mult)
  then have "le_nat bs < 2 ^ LENGTH('a)" using le_nat_bound [of bs] assms by simp
  then show ?thesis
    by (simp add: to_le_def from_le_def unsigned_of_nat take_bit_nat_eq_self nat_le_le_nat)
qed

lemma u16_at_Some [bounds_simps]:
  "off + 2 \<le> length xs \<Longrightarrow> u16_at xs off = Some (from_le (take 2 (drop off xs)))"
  by (simp add: u16_at_def slice_def)

lemma u32_at_Some [bounds_simps]:
  "off + 4 \<le> length xs \<Longrightarrow> u32_at xs off = Some (from_le (take 4 (drop off xs)))"
  by (simp add: u32_at_def slice_def)

lemma u64_at_Some [bounds_simps]:
  "off + 8 \<le> length xs \<Longrightarrow> u64_at xs off = Some (from_le (take 8 (drop off xs)))"
  by (simp add: u64_at_def slice_def)

lemma unat_mult_no_wrap:
  "unat (a :: 'a::len word) * unat b < 2 ^ LENGTH('a) \<Longrightarrow> unat (a * b) = unat a * unat b"
  by (simp add: unat_word_ariths)

lemma unat_add_no_wrap:
  "unat (a :: 'a::len word) + unat b < 2 ^ LENGTH('a) \<Longrightarrow> unat (a + b) = unat a + unat b"
  by (simp add: unat_word_ariths)

lemma unat_sub_no_wrap:
  "unat b \<le> unat a \<Longrightarrow> unat (a - b :: 'a::len word) = unat a - unat b"
  by (simp add: unat_sub word_le_nat_alt)

lemma unat_of_nat_small: "n < 2 ^ LENGTH('a) \<Longrightarrow> unat (word_of_nat n :: 'a::len word) = n"
  by (simp add: unsigned_of_nat take_bit_nat_eq_self)

lemma ucast_sub_u32: "(ucast (a - b :: u64) :: u32) = ucast a - ucast b"
proof (transfer, goal_cases)
  case (1 a b)
  show ?case
    using take_bit_diff [of 32 a b] take_bit_diff [of 32 "take_bit 64 a" "take_bit 64 b"]
    by (simp add: take_bit_take_bit)
qed

section \<open>ASCII\<close>

definition bstr :: "string \<Rightarrow> bytes" where
  "bstr s = map of_char s"

definition to_ascii_lowercase :: "u8 \<Rightarrow> u8" where
  "to_ascii_lowercase c = (if 65 \<le> c \<and> c \<le> 90 then c + 32 else c)"

definition to_ascii_uppercase :: "u8 \<Rightarrow> u8" where
  "to_ascii_uppercase c = (if 97 \<le> c \<and> c \<le> 122 then c - 32 else c)"

definition eq_ignore_ascii_case :: "bytes \<Rightarrow> bytes \<Rightarrow> bool" where
  "eq_ignore_ascii_case a b = (map to_ascii_lowercase a = map to_ascii_lowercase b)"

lemma bstr_length [simp, len_simps]: "length (bstr s) = length s"
  by (simp add: bstr_def)

section \<open>Loops that may not end\<close>

text \<open>
  \<open>Done r\<close>: the loop returned; \<open>Panic\<close>: a bounds check failed and the code
  panicked; \<open>Spin\<close>: the fuel ran out, the loop is still running.
\<close>

datatype 'a outcome = Done 'a | Panic | Spin

fun obind :: "'a outcome \<Rightarrow> ('a \<Rightarrow> 'b outcome) \<Rightarrow> 'b outcome" where
  "obind (Done x) f = f x"
| "obind Panic f = Panic"
| "obind Spin f = Spin"

definition of_opt :: "'a option \<Rightarrow> 'a outcome" where
  "of_opt x = (case x of None \<Rightarrow> Panic | Some y \<Rightarrow> Done y)"

lemma of_opt_simps [simp]: "of_opt None = Panic" "of_opt (Some x) = Done x"
  by (simp_all add: of_opt_def)

lemma obind_Done_iff: "obind m f = Done y \<longleftrightarrow> (\<exists>x. m = Done x \<and> f x = Done y)"
  by (cases m) auto

lemma obind_Panic_iff: "obind m f = Panic \<longleftrightarrow> m = Panic \<or> (\<exists>x. m = Done x \<and> f x = Panic)"
  by (cases m) auto

lemma of_opt_Done_iff [simp]: "of_opt m = Done x \<longleftrightarrow> m = Some x"
  by (cases m) auto

lemma of_opt_not_Spin [simp]: "of_opt m \<noteq> Spin"
  by (cases m) auto

section \<open>The interface of a sector source\<close>

text \<open>
  What the scanners ask of a disk: reading one logical sector either fails or fills the
  caller's 512-byte buffer. The providers are the ATA driver of the BIOS kernel and the
  Block I/O wrapper of the UEFI loader.
\<close>

locale sector_source =
  fixes rd :: "u64 \<Rightarrow> bytes option"
  assumes rd_length: "rd lba = Some s \<Longrightarrow> length s = 512"

end
