(* ===== verification/DiskLayout.thy ===== *)
theory DiskLayout
  imports Prelude
begin

text \<open>
  The on-disk structures of \<open>src/disk_layout.rs\<close> and the constants and errors they use
  (\<open>src/constants.rs\<close>, \<open>src/error.rs\<close>): the MBR with its four partition entries,
  the GPT header, the 128 GPT entries, their packed byte layouts, and reading and writing
  a whole GPT on a disk. A packed \<open>repr(C)\<close> struct is a record with an encoder and a
  decoder; a raw-pointer copy of the code is one of these two. The checksum crate is the
  parameter \<open>crc\<close>.
\<close>

section \<open>Constants and errors\<close>

definition SECTOR_SIZE :: u64 where "SECTOR_SIZE = 512"
definition SIZE_1KB :: u64 where "SIZE_1KB = 1024"
definition SIZE_1MB :: u64 where "SIZE_1MB = 1024 * SIZE_1KB"
definition SIZE_1GB :: u64 where "SIZE_1GB = SIZE_1MB * SIZE_1KB"
definition SIZE_1TB :: u64 where "SIZE_1TB = SIZE_1GB * SIZE_1KB"
definition CHOOSABLE_EFI_PART_SIZE :: u64 where "CHOOSABLE_EFI_PART_SIZE = 32 * SIZE_1MB"
definition CHOOSABLE_PART1_START_SECTOR :: u64 where "CHOOSABLE_PART1_START_SECTOR = 2048"
definition CHOOSABLE_PART_SIZE_MB :: u64 where "CHOOSABLE_PART_SIZE_MB = 33"
definition PART_TYPE_GPT_PROTECTIVE :: u8 where "PART_TYPE_GPT_PROTECTIVE = 0xEE"
definition PART_TYPE_EFI_SYSTEM :: u8 where "PART_TYPE_EFI_SYSTEM = 0xEF"
definition PART_ACTIVE :: u8 where "PART_ACTIVE = 0x80"
definition PART_INACTIVE :: u8 where "PART_INACTIVE = 0"
definition GPT_ATTR_CZBLEFI :: u64 where "GPT_ATTR_CZBLEFI = 1"
definition GPT_SIGNATURE :: bytes where "GPT_SIGNATURE = bstr ''EFI PART''"

definition CZBLEFI_NAME :: "u16 list" where
  "CZBLEFI_NAME = [67, 90, 66, 76, 69, 70, 73]"

definition GPT_PART1_NAME :: "u16 list" where
  "GPT_PART1_NAME = [67, 90, 66, 76, 69, 70, 73] @ replicate 36 0"

definition GPT_TYPE_EFI_SYSTEM :: bytes where
  "GPT_TYPE_EFI_SYSTEM =
     [0x28, 0x73, 0x2A, 0xC1, 0x1F, 0xF8, 0xD2, 0x11, 0xBA, 0x4B, 0x00, 0xA0, 0xC9, 0x3E, 0xC9, 0x3B]"

definition GPT_TYPE_BASIC_DATA :: bytes where
  "GPT_TYPE_BASIC_DATA =
     [0xA2, 0xA0, 0xD0, 0xEB, 0xE5, 0xB9, 0x33, 0x44, 0x87, 0xC0, 0x68, 0xB6, 0xB7, 0x26, 0x99, 0xC7]"

definition make_cz_name :: "u16 list \<Rightarrow> u16 list" where
  "make_cz_name name = take 36 name @ replicate (36 - length name) 0"

lemmas const_defs = SECTOR_SIZE_def SIZE_1KB_def SIZE_1MB_def SIZE_1GB_def SIZE_1TB_def
  CHOOSABLE_EFI_PART_SIZE_def CHOOSABLE_PART1_START_SECTOR_def CHOOSABLE_PART_SIZE_MB_def
  PART_TYPE_GPT_PROTECTIVE_def PART_TYPE_EFI_SYSTEM_def PART_ACTIVE_def PART_INACTIVE_def
  GPT_ATTR_CZBLEFI_def

datatype choosable_error =
    Io
  | DiskNotFound string
  | IsPartition string
  | AlreadyInstalled string
  | NotChoosableDisk
  | DiskTooSmall u64 u64
  | FourKNativeSector
  | MbrOverflow
  | MbrReadError string
  | InvalidMbrSignature u8 u8
  | InvalidGptSignature
  | PartitionLayoutError string
  | FormatFailed
  | WriteError u64
  | ReadError u64
  | UnsupportedFilesystem string
  | ToolNotFound string
  | Generic string

text \<open>The \<open>?\<close> operator on \<open>Result\<close>.\<close>

fun rbind :: "'e + 'a \<Rightarrow> ('a \<Rightarrow> 'e + 'b) \<Rightarrow> 'e + 'b" where
  "rbind (Inl e) f = Inl e"
| "rbind (Inr x) f = f x"

lemma rbind_Inr_iff: "rbind m f = Inr y \<longleftrightarrow> (\<exists>x. m = Inr x \<and> f x = Inr y)"
  by (cases m) auto

section \<open>A block device seen as a file\<close>

text \<open>
  \<open>std::fs::File\<close> on a block device: a seek never fails, \<open>read_exact\<close> and
  \<open>write_all\<close> fail when they would run past the end of the device.
\<close>

record vdisk =
  dsize :: nat
  dbytes :: "nat \<Rightarrow> u8"

definition disk_read :: "vdisk \<Rightarrow> nat \<Rightarrow> nat \<Rightarrow> choosable_error + bytes" where
  "disk_read d off n =
     (if off + n \<le> dsize d then Inr (map (dbytes d) [off..<off + n]) else Inl Io)"

definition disk_write :: "vdisk \<Rightarrow> nat \<Rightarrow> bytes \<Rightarrow> choosable_error + vdisk" where
  "disk_write d off bs =
     (if off + length bs \<le> dsize d
      then Inr (d\<lparr>dbytes := (\<lambda>i. if off \<le> i \<and> i < off + length bs then bs ! (i - off) else dbytes d i)\<rparr>)
      else Inl Io)"

text \<open>What every client of the device relies on: reads see the last write.\<close>

locale byte_store =
  fixes read :: "'d \<Rightarrow> nat \<Rightarrow> nat \<Rightarrow> 'e + bytes"
    and wr :: "'d \<Rightarrow> nat \<Rightarrow> bytes \<Rightarrow> 'e + 'd"
  assumes read_same: "wr d off bs = Inr d' \<Longrightarrow> read d' off (length bs) = Inr bs"
    and read_other: "wr d off bs = Inr d' \<Longrightarrow> a + n \<le> off \<or> off + length bs \<le> a \<Longrightarrow>
      read d' a n = read d a n"
    and read_sub: "read d off n = Inr bs \<Longrightarrow> k + m \<le> n \<Longrightarrow> read d (off + k) m = Inr (take m (drop k bs))"
    and read_len: "read d off n = Inr bs \<Longrightarrow> length bs = n"
begin

lemma read_inside:
  assumes "wr d off bs = Inr d'" and "k + m \<le> length bs"
  shows "read d' (off + k) m = Inr (take m (drop k bs))"
  using read_sub [OF read_same [OF assms(1)] assms(2)] .

lemma read_before:
  "wr d off bs = Inr d' \<Longrightarrow> a + n \<le> off \<Longrightarrow> read d' a n = read d a n"
  by (rule read_other) auto

lemma read_after:
  "wr d off bs = Inr d' \<Longrightarrow> off + length bs \<le> a \<Longrightarrow> read d' a n = read d a n"
  by (rule read_other) auto

end

lemma disk_write_size: "disk_write d off bs = Inr d' \<Longrightarrow> dsize d' = dsize d"
  by (auto simp: disk_write_def split: if_splits)

interpretation disk: byte_store disk_read disk_write
proof (unfold_locales, goal_cases)
  case (1 d off bs d')
  then show ?case
    by (auto simp: disk_read_def disk_write_def intro!: nth_equalityI split: if_splits)
next
  case (2 d off bs d' a n)
  then show ?case
    by (auto simp: disk_read_def disk_write_def split: if_splits)
next
  case (3 d off n bs k m)
  then show ?case
    by (auto simp: disk_read_def add.assoc intro!: nth_equalityI split: if_splits)
next
  case (4 d off n bs)
  then show ?case by (auto simp: disk_read_def split: if_splits)
qed

section \<open>Fixed-width codecs\<close>

text \<open>
  A packed struct of \<open>w\<close> bytes: what the decoder makes of an encoding. From it, the
  array \<open>[T; n]\<close> is read back element by element.
\<close>

fun chunks :: "nat \<Rightarrow> nat \<Rightarrow> bytes \<Rightarrow> bytes list" where
  "chunks w 0 bs = []"
| "chunks w (Suc n) bs = take w bs # chunks w n (drop w bs)"

lemma chunks_take: "chunks w n bs = chunks w n (take (w * n) bs)"
proof (induction n arbitrary: bs)
  case 0
  then show ?case by simp
next
  case (Suc n)
  have "chunks w n (drop w bs) = chunks w n (take (w * n) (drop w bs))" by (rule Suc.IH)
  also have "take (w * n) (drop w bs) = drop w (take (w * Suc n) bs)" by (simp add: take_drop add.commute)
  finally show ?case by (simp add: min_def)
qed

locale packed_codec =
  fixes w :: nat and enc :: "'a \<Rightarrow> bytes" and dec :: "bytes \<Rightarrow> 'a" and wf :: "'a \<Rightarrow> bool"
  assumes enc_length: "wf x \<Longrightarrow> length (enc x) = w"
    and dec_enc: "wf x \<Longrightarrow> dec (enc x) = x"
begin

lemma array_length: "\<forall>x\<in>set xs. wf x \<Longrightarrow> length (concat (map enc xs)) = w * length xs"
  by (induction xs) (auto simp: enc_length)

lemma array_roundtrip:
  "\<forall>x\<in>set xs. wf x \<Longrightarrow> map dec (chunks w (length xs) (concat (map enc xs) @ rest)) = xs"
  by (induction xs) (auto simp: enc_length dec_enc)

lemma array_slice:
  "\<forall>x\<in>set xs. wf x \<Longrightarrow> i < length xs \<Longrightarrow>
     take w (drop (i * w) (concat (map enc xs))) = enc (xs ! i)"
proof (induction xs arbitrary: i)
  case Nil
  then show ?case by simp
next
  case (Cons x xs)
  then show ?case by (cases i) (auto simp: enc_length)
qed

end

section \<open>MBR\<close>

record partition_table_entry =
  pte_active :: u8
  pte_start_head :: u8
  pte_start_sector_cylinder :: u16
  pte_fs_flag :: u8
  pte_end_head :: u8
  pte_end_sector_cylinder :: u16
  pte_start_lba :: u32
  pte_sector_count :: u32

definition pte_empty :: partition_table_entry where
  "pte_empty = \<lparr>pte_active = 0, pte_start_head = 0, pte_start_sector_cylinder = 0, pte_fs_flag = 0,
     pte_end_head = 0, pte_end_sector_cylinder = 0, pte_start_lba = 0, pte_sector_count = 0\<rparr>"

definition pte_bytes :: "partition_table_entry \<Rightarrow> bytes" where
  "pte_bytes e = [pte_active e, pte_start_head e] @ to_le 2 (pte_start_sector_cylinder e)
     @ [pte_fs_flag e, pte_end_head e] @ to_le 2 (pte_end_sector_cylinder e)
     @ to_le 4 (pte_start_lba e) @ to_le 4 (pte_sector_count e)"

definition pte_of_bytes :: "bytes \<Rightarrow> partition_table_entry" where
  "pte_of_bytes b = \<lparr>pte_active = b ! 0, pte_start_head = b ! 1,
     pte_start_sector_cylinder = from_le (take 2 (drop 2 b)), pte_fs_flag = b ! 4,
     pte_end_head = b ! 5, pte_end_sector_cylinder = from_le (take 2 (drop 6 b)),
     pte_start_lba = from_le (take 4 (drop 8 b)), pte_sector_count = from_le (take 4 (drop 12 b))\<rparr>"

record mbr =
  boot_code :: bytes
  partitions :: "partition_table_entry list"
  signature_55 :: u8
  signature_aa :: u8

definition mbr_wf :: "mbr \<Rightarrow> bool" where
  "mbr_wf m \<longleftrightarrow> length (boot_code m) = 446 \<and> length (partitions m) = 4"

definition mbr_bytes :: "mbr \<Rightarrow> bytes" where
  "mbr_bytes m = boot_code m @ concat (map pte_bytes (partitions m)) @ [signature_55 m, signature_aa m]"

definition mbr_of_bytes :: "bytes \<Rightarrow> mbr" where
  "mbr_of_bytes b = \<lparr>boot_code = take 446 b,
     partitions = map pte_of_bytes (chunks 16 4 (drop 446 b)),
     signature_55 = b ! 510, signature_aa = b ! 511\<rparr>"

text \<open>\<open>Mbr::read\<close> at byte \<open>off\<close> of the disk, and \<open>Mbr::write\<close>.\<close>

definition mbr_read :: "vdisk \<Rightarrow> nat \<Rightarrow> choosable_error + mbr" where
  "mbr_read d off = rbind (disk_read d off 512) (\<lambda>buf.
     if buf ! 510 \<noteq> 0x55 \<or> buf ! 511 \<noteq> 0xAA
     then Inl (InvalidMbrSignature (buf ! 510) (buf ! 511))
     else Inr (mbr_of_bytes buf))"

definition mbr_write :: "mbr \<Rightarrow> vdisk \<Rightarrow> nat \<Rightarrow> choosable_error + vdisk" where
  "mbr_write m d off = disk_write d off (mbr_bytes m)"

definition is_gpt_protective :: "mbr \<Rightarrow> bool" where
  "is_gpt_protective m = (pte_fs_flag (partitions m ! 0) = PART_TYPE_GPT_PROTECTIVE)"

definition partition_style :: "mbr \<Rightarrow> u32" where
  "partition_style m = (if is_gpt_protective m then 1 else 0)"

definition part1_start_lba :: "mbr \<Rightarrow> u32" where
  "part1_start_lba m = pte_start_lba (partitions m ! 0)"

definition part1_sector_count :: "mbr \<Rightarrow> u32" where
  "part1_sector_count m = pte_sector_count (partitions m ! 0)"

definition part2_start_lba :: "mbr \<Rightarrow> u32" where
  "part2_start_lba m = pte_start_lba (partitions m ! 1)"

definition part2_sector_count :: "mbr \<Rightarrow> u32" where
  "part2_sector_count m = pte_sector_count (partitions m ! 1)"

definition part1_active :: "mbr \<Rightarrow> u8" where
  "part1_active m = pte_active (partitions m ! 0)"

definition part2_active :: "mbr \<Rightarrow> u8" where
  "part2_active m = pte_active (partitions m ! 1)"

definition mbr_new_empty :: mbr where
  "mbr_new_empty = \<lparr>boot_code = replicate 446 0, partitions = replicate 4 pte_empty,
     signature_55 = 0x55, signature_aa = 0xAA\<rparr>"

lemma pte_bytes_length [len_simps, simp]: "length (pte_bytes e) = 16"
  by (simp add: pte_bytes_def)

interpretation pte: packed_codec 16 pte_bytes pte_of_bytes "\<lambda>_. True"
  by unfold_locales (simp_all add: pte_bytes_def pte_of_bytes_def nth_append)

lemma mbr_bytes_length [len_simps]: "mbr_wf m \<Longrightarrow> length (mbr_bytes m) = 512"
  using pte.array_length [of "partitions m"] by (simp add: mbr_bytes_def mbr_wf_def)

lemma mbr_bytes_sig:
  assumes "mbr_wf m"
  shows "mbr_bytes m ! 510 = signature_55 m" "mbr_bytes m ! 511 = signature_aa m"
  using assms pte.array_length [of "partitions m"]
  by (simp_all add: mbr_bytes_def mbr_wf_def nth_append)

lemma mbr_decode_encode: "mbr_wf m \<Longrightarrow> mbr_of_bytes (mbr_bytes m) = m"
  using pte.array_roundtrip [of "partitions m"] mbr_bytes_sig [of m]
  by (simp add: mbr_of_bytes_def mbr_wf_def) (simp add: mbr_bytes_def)

section \<open>GPT\<close>

record gpt_header =
  hdr_signature :: bytes
  hdr_revision :: bytes
  hdr_header_size :: u32
  hdr_header_crc32 :: u32
  hdr_reserved1 :: bytes
  hdr_efi_start_lba :: u64
  hdr_efi_backup_lba :: u64
  hdr_part_area_start_lba :: u64
  hdr_part_area_end_lba :: u64
  hdr_disk_guid :: bytes
  hdr_part_table_start_lba :: u64
  hdr_part_table_num_entries :: u32
  hdr_part_table_entry_size :: u32
  hdr_part_table_crc32 :: u32
  hdr_reserved2 :: bytes

definition hdr_wf :: "gpt_header \<Rightarrow> bool" where
  "hdr_wf h \<longleftrightarrow> length (hdr_signature h) = 8 \<and> length (hdr_revision h) = 4 \<and>
     length (hdr_reserved1 h) = 4 \<and> length (hdr_disk_guid h) = 16 \<and> length (hdr_reserved2 h) = 420"

definition hdr_bytes :: "gpt_header \<Rightarrow> bytes" where
  "hdr_bytes h = hdr_signature h @ hdr_revision h @ to_le 4 (hdr_header_size h)
     @ to_le 4 (hdr_header_crc32 h) @ hdr_reserved1 h @ to_le 8 (hdr_efi_start_lba h)
     @ to_le 8 (hdr_efi_backup_lba h) @ to_le 8 (hdr_part_area_start_lba h)
     @ to_le 8 (hdr_part_area_end_lba h) @ hdr_disk_guid h @ to_le 8 (hdr_part_table_start_lba h)
     @ to_le 4 (hdr_part_table_num_entries h) @ to_le 4 (hdr_part_table_entry_size h)
     @ to_le 4 (hdr_part_table_crc32 h) @ hdr_reserved2 h"

definition hdr_of_bytes :: "bytes \<Rightarrow> gpt_header" where
  "hdr_of_bytes b = \<lparr>hdr_signature = take 8 b, hdr_revision = take 4 (drop 8 b),
     hdr_header_size = from_le (take 4 (drop 12 b)), hdr_header_crc32 = from_le (take 4 (drop 16 b)),
     hdr_reserved1 = take 4 (drop 20 b), hdr_efi_start_lba = from_le (take 8 (drop 24 b)),
     hdr_efi_backup_lba = from_le (take 8 (drop 32 b)),
     hdr_part_area_start_lba = from_le (take 8 (drop 40 b)),
     hdr_part_area_end_lba = from_le (take 8 (drop 48 b)), hdr_disk_guid = take 16 (drop 56 b),
     hdr_part_table_start_lba = from_le (take 8 (drop 72 b)),
     hdr_part_table_num_entries = from_le (take 4 (drop 80 b)),
     hdr_part_table_entry_size = from_le (take 4 (drop 84 b)),
     hdr_part_table_crc32 = from_le (take 4 (drop 88 b)), hdr_reserved2 = take 420 (drop 92 b)\<rparr>"

definition hdr_read :: "vdisk \<Rightarrow> nat \<Rightarrow> choosable_error + gpt_header" where
  "hdr_read d off = rbind (disk_read d off 512) (\<lambda>buf.
     let header = hdr_of_bytes buf
     in if hdr_signature header \<noteq> GPT_SIGNATURE then Inl InvalidGptSignature else Inr header)"

definition hdr_write :: "gpt_header \<Rightarrow> vdisk \<Rightarrow> nat \<Rightarrow> choosable_error + vdisk" where
  "hdr_write h d off = disk_write d off (hdr_bytes h)"

definition hdr_new :: "u64 \<Rightarrow> bytes \<Rightarrow> gpt_header" where
  "hdr_new disk_size_bytes disk_guid =
     (let total_sectors = disk_size_bytes div SECTOR_SIZE
      in \<lparr>hdr_signature = GPT_SIGNATURE, hdr_revision = [0, 0, 1, 0], hdr_header_size = 92,
          hdr_header_crc32 = 0, hdr_reserved1 = replicate 4 0, hdr_efi_start_lba = 1,
          hdr_efi_backup_lba = total_sectors - 1,
          hdr_part_area_start_lba = CHOOSABLE_PART1_START_SECTOR,
          hdr_part_area_end_lba = total_sectors - 34, hdr_disk_guid = disk_guid,
          hdr_part_table_start_lba = 2, hdr_part_table_num_entries = 128,
          hdr_part_table_entry_size = 128, hdr_part_table_crc32 = 0,
          hdr_reserved2 = replicate 420 0\<rparr>)"

record gpt_partition_entry =
  gpe_part_type_guid :: bytes
  gpe_unique_part_guid :: bytes
  gpe_start_lba :: u64
  gpe_end_lba :: u64
  gpe_attributes :: u64
  gpe_name :: "u16 list"

definition gpe_wf :: "gpt_partition_entry \<Rightarrow> bool" where
  "gpe_wf e \<longleftrightarrow> length (gpe_part_type_guid e) = 16 \<and> length (gpe_unique_part_guid e) = 16 \<and>
     length (gpe_name e) = 36"

definition gpe_empty :: gpt_partition_entry where
  "gpe_empty = \<lparr>gpe_part_type_guid = replicate 16 0, gpe_unique_part_guid = replicate 16 0,
     gpe_start_lba = 0, gpe_end_lba = 0, gpe_attributes = 0, gpe_name = replicate 36 0\<rparr>"

definition gpe_bytes :: "gpt_partition_entry \<Rightarrow> bytes" where
  "gpe_bytes e = gpe_part_type_guid e @ gpe_unique_part_guid e @ to_le 8 (gpe_start_lba e)
     @ to_le 8 (gpe_end_lba e) @ to_le 8 (gpe_attributes e) @ concat (map (to_le 2) (gpe_name e))"

definition gpe_of_bytes :: "bytes \<Rightarrow> gpt_partition_entry" where
  "gpe_of_bytes b = \<lparr>gpe_part_type_guid = take 16 b, gpe_unique_part_guid = take 16 (drop 16 b),
     gpe_start_lba = from_le (take 8 (drop 32 b)), gpe_end_lba = from_le (take 8 (drop 40 b)),
     gpe_attributes = from_le (take 8 (drop 48 b)),
     gpe_name = map from_le (chunks 2 36 (drop 56 b))\<rparr>"

interpretation utf16: packed_codec 2 "to_le 2 :: u16 \<Rightarrow> bytes" from_le "\<lambda>_. True"
  by unfold_locales simp_all

lemma gpe_name_length: "length (gpe_name e) = 36 \<Longrightarrow> length (concat (map (to_le 2) (gpe_name e))) = 72"
  using utf16.array_length [of "gpe_name e"] by simp

interpretation gpe: packed_codec 128 gpe_bytes gpe_of_bytes gpe_wf
proof (unfold_locales, goal_cases)
  case (1 e)
  then show ?case by (simp add: gpe_wf_def gpe_bytes_def gpe_name_length)
next
  case (2 e)
  then show ?case
    using utf16.array_roundtrip [of "gpe_name e" "[]"]
    by (simp add: gpe_wf_def gpe_bytes_def gpe_of_bytes_def gpe_name_length)
qed

interpretation hdr: packed_codec 512 hdr_bytes hdr_of_bytes hdr_wf
  by unfold_locales (simp_all add: hdr_wf_def hdr_bytes_def hdr_of_bytes_def)

record gpt_info =
  protective_mbr :: mbr
  header :: gpt_header
  gpt_partitions :: "gpt_partition_entry list"

definition gpt_wf :: "gpt_info \<Rightarrow> bool" where
  "gpt_wf g \<longleftrightarrow> mbr_wf (protective_mbr g) \<and> hdr_wf (header g) \<and>
     length (gpt_partitions g) = 128 \<and> (\<forall>e\<in>set (gpt_partitions g). gpe_wf e)"

definition gpt_table_bytes :: "gpt_info \<Rightarrow> bytes" where
  "gpt_table_bytes g = concat (map gpe_bytes (gpt_partitions g))"

lemma gpt_table_length [len_simps]: "gpt_wf g \<Longrightarrow> length (gpt_table_bytes g) = 16384"
  by (simp add: gpt_table_bytes_def gpt_wf_def gpe.array_length)

fun gpt_read_entries :: "vdisk \<Rightarrow> u64 \<Rightarrow> u64 \<Rightarrow> nat \<Rightarrow> nat \<Rightarrow> choosable_error + gpt_partition_entry list" where
  "gpt_read_entries d part_start entry_size i 0 = Inr []"
| "gpt_read_entries d part_start entry_size i (Suc n) =
     rbind (disk_read d (unat (part_start + word_of_nat i * entry_size)) 128) (\<lambda>buf.
     rbind (gpt_read_entries d part_start entry_size (Suc i) n) (\<lambda>es.
       Inr (gpe_of_bytes buf # es)))"

definition gpt_read_from_disk :: "vdisk \<Rightarrow> choosable_error + gpt_info" where
  "gpt_read_from_disk d =
     rbind (mbr_read d 0) (\<lambda>protective.
     rbind (hdr_read d (unat SECTOR_SIZE)) (\<lambda>h.
     let part_start = hdr_part_table_start_lba h * SECTOR_SIZE;
         entry_size = ucast (hdr_part_table_entry_size h)
     in rbind (gpt_read_entries d part_start entry_size 0 128) (\<lambda>es.
       Inr \<lparr>protective_mbr = protective, header = h, gpt_partitions = es\<rparr>)))"

text \<open>The backup header: LBAs swapped, table before it, checksum of its first 92 bytes.\<close>

definition backup_header :: "(bytes \<Rightarrow> u32) \<Rightarrow> gpt_header \<Rightarrow> gpt_header" where
  "backup_header crc h =
     (let b = h\<lparr>hdr_efi_start_lba := hdr_efi_backup_lba h, hdr_efi_backup_lba := hdr_efi_start_lba h,
               hdr_part_table_start_lba := hdr_efi_backup_lba h - 32, hdr_header_crc32 := 0\<rparr>
      in b\<lparr>hdr_header_crc32 := crc (take 92 (hdr_bytes b))\<rparr>)"

definition gpt_write_to_disk :: "(bytes \<Rightarrow> u32) \<Rightarrow> gpt_info \<Rightarrow> vdisk \<Rightarrow> choosable_error + vdisk" where
  "gpt_write_to_disk crc g d =
     rbind (mbr_write (protective_mbr g) d 0) (\<lambda>d1.
     rbind (hdr_write (header g) d1 (unat SECTOR_SIZE)) (\<lambda>d2.
     rbind (disk_write d2 (unat (hdr_part_table_start_lba (header g) * SECTOR_SIZE)) (gpt_table_bytes g)) (\<lambda>d3.
     rbind (hdr_write (backup_header crc (header g)) d3 (unat (hdr_efi_backup_lba (header g) * SECTOR_SIZE))) (\<lambda>d4.
       disk_write d4 (unat ((hdr_efi_backup_lba (header g) - 32) * SECTOR_SIZE)) (gpt_table_bytes g)))))"

text \<open>
  \<open>generate_guid\<close>: 16 bytes of \<open>/dev/urandom\<close> when it can be read, else the clock
  mixed with a sequence counter; both get the version and variant bits of an RFC 4122
  version-4 GUID.
\<close>

definition guid_fix :: "bytes \<Rightarrow> bytes" where
  "guid_fix g = g[8 := (g ! 8 AND 0x3F) OR 0x80, 6 := (g ! 6 AND 0x0F) OR 0x40]"

definition generate_guid :: "bytes option \<Rightarrow> 128 word \<Rightarrow> u32 \<Rightarrow> bytes" where
  "generate_guid urandom nanos seq =
     (case urandom of
        Some g \<Rightarrow> guid_fix g
      | None \<Rightarrow>
          let guid = to_le 16 nanos; sb = to_le 4 seq
          in guid_fix (guid[0 := guid ! 0 XOR sb ! 0, 1 := guid ! 1 XOR sb ! 1,
               2 := guid ! 2 XOR sb ! 2, 3 := guid ! 3 XOR sb ! 3]))"

definition gpt_new_choosable :: "u64 \<Rightarrow> bytes \<Rightarrow> bytes \<Rightarrow> bytes \<Rightarrow> gpt_info" where
  "gpt_new_choosable disk_size_bytes disk_guid guid1 guid2 =
     (let protective = mbr_new_empty\<lparr>partitions := (replicate 4 pte_empty)[0 := pte_empty
              \<lparr>pte_fs_flag := PART_TYPE_GPT_PROTECTIVE, pte_start_lba := 1, pte_sector_count := 0xFFFFFFFF\<rparr>]\<rparr>;
          efi_part_size_sectors = CHOOSABLE_EFI_PART_SIZE div SECTOR_SIZE;
          part1_end = disk_size_bytes div SECTOR_SIZE - efi_part_size_sectors - 34;
          p0 = \<lparr>gpe_part_type_guid = GPT_TYPE_BASIC_DATA, gpe_unique_part_guid = guid1,
                gpe_start_lba = CHOOSABLE_PART1_START_SECTOR, gpe_end_lba = part1_end - 1,
                gpe_attributes = 0, gpe_name = make_cz_name GPT_PART1_NAME\<rparr>;
          p1 = \<lparr>gpe_part_type_guid = GPT_TYPE_EFI_SYSTEM, gpe_unique_part_guid = guid2,
                gpe_start_lba = part1_end, gpe_end_lba = part1_end + efi_part_size_sectors - 1,
                gpe_attributes = GPT_ATTR_CZBLEFI, gpe_name = make_cz_name CZBLEFI_NAME\<rparr>
      in \<lparr>protective_mbr = protective, header = hdr_new disk_size_bytes disk_guid,
          gpt_partitions = (replicate 128 gpe_empty)[0 := p0, 1 := p1]\<rparr>)"

section \<open>Reading back what was written\<close>

lemma mbr_read_from_bytes:
  "disk_read d off 512 = Inr (mbr_bytes m) \<Longrightarrow> mbr_wf m \<Longrightarrow> signature_55 m = 0x55 \<Longrightarrow>
     signature_aa m = 0xAA \<Longrightarrow> mbr_read d off = Inr m"
  by (simp add: mbr_read_def mbr_bytes_sig mbr_decode_encode)

lemma hdr_read_from_bytes:
  "disk_read d off 512 = Inr (hdr_bytes h) \<Longrightarrow> hdr_wf h \<Longrightarrow> hdr_signature h = GPT_SIGNATURE \<Longrightarrow>
     hdr_read d off = Inr h"
  by (simp add: hdr_read_def hdr.dec_enc)

lemma gpt_entry_offset:
  assumes "i < 128"
  shows "unat (1024 + word_of_nat i * 128 :: u64) = 1024 + i * 128"
proof -
  have "1024 + word_of_nat i * 128 = (word_of_nat (1024 + i * 128) :: u64)" by simp
  also have "unat \<dots> = 1024 + i * 128"
    by (rule unat_of_nat_small) (use assms in simp)
  finally show ?thesis .
qed

lemma gpt_read_entries_table:
  assumes tab: "disk_read d 1024 16384 = Inr (concat (map gpe_bytes ps))"
    and wf: "\<forall>e\<in>set ps. gpe_wf e" and len: "length ps = 128"
  shows "i + n = 128 \<Longrightarrow> gpt_read_entries d 1024 128 i n = Inr (drop i ps)"
proof (induction n arbitrary: i)
  case 0
  then show ?case by (simp add: len)
next
  case (Suc n)
  then have i: "i < 128" by simp
  have "disk_read d (1024 + i * 128) 128 = Inr (take 128 (drop (i * 128) (concat (map gpe_bytes ps))))"
    using disk.read_sub [OF tab, of "i * 128" 128] i by simp
  also have "take 128 (drop (i * 128) (concat (map gpe_bytes ps))) = gpe_bytes (ps ! i)"
    using gpe.array_slice [OF wf] i len by simp
  finally have rd: "disk_read d (1024 + i * 128) 128 = Inr (gpe_bytes (ps ! i))" .
  have "gpe_wf (ps ! i)" using wf i len by simp
  moreover have "drop i ps = ps ! i # drop (Suc i) ps"
    using i len by (simp add: Cons_nth_drop_Suc)
  ultimately show ?case
    using Suc rd gpt_entry_offset [OF i] by (simp add: gpe.dec_enc)
qed

lemma unat_SECTOR_SIZE: "unat SECTOR_SIZE = 512" "unat (2 * SECTOR_SIZE) = 1024"
  by (simp_all add: SECTOR_SIZE_def)

text \<open>A GPT whose regions lie where Choosable puts them, on a disk they fit on.\<close>

definition gpt_placed :: "gpt_info \<Rightarrow> bool" where
  "gpt_placed g \<longleftrightarrow> gpt_wf g \<and> signature_55 (protective_mbr g) = 0x55 \<and>
     signature_aa (protective_mbr g) = 0xAA \<and> hdr_signature (header g) = GPT_SIGNATURE \<and>
     hdr_part_table_start_lba (header g) = 2 \<and> hdr_part_table_entry_size (header g) = 128 \<and>
     66 \<le> hdr_efi_backup_lba (header g) \<and> hdr_efi_backup_lba (header g) < 2 ^ 55"

lemma gpt_placed_offsets:
  assumes "gpt_placed g"
  shows "unat (hdr_efi_backup_lba (header g) * SECTOR_SIZE) = unat (hdr_efi_backup_lba (header g)) * 512"
    and "unat ((hdr_efi_backup_lba (header g) - 32) * SECTOR_SIZE) =
           (unat (hdr_efi_backup_lba (header g)) - 32) * 512"
    and "66 \<le> unat (hdr_efi_backup_lba (header g))"
proof -
  let ?b = "hdr_efi_backup_lba (header g)"
  from assms show b: "66 \<le> unat ?b" by (simp add: gpt_placed_def word_le_nat_alt)
  from assms have u: "unat ?b < 2 ^ 55" by (simp add: gpt_placed_def word_less_nat_alt)
  then show "unat (?b * SECTOR_SIZE) = unat ?b * 512"
    by (subst unat_mult_no_wrap) (simp_all add: SECTOR_SIZE_def)
  have s: "unat (?b - 32) = unat ?b - 32"
    by (subst unat_sub_no_wrap) (use b in simp_all)
  then show "unat ((?b - 32) * SECTOR_SIZE) = (unat ?b - 32) * 512"
    by (subst unat_mult_no_wrap) (use u b in \<open>simp_all add: SECTOR_SIZE_def\<close>)
qed

lemma backup_header_wf: "hdr_wf h \<Longrightarrow> hdr_wf (backup_header crc h)"
  by (simp add: backup_header_def hdr_wf_def Let_def)

text \<open>The regions of the disk after a successful \<open>gpt_write_to_disk\<close>.\<close>

lemma gpt_write_regions:
  assumes pl: "gpt_placed g" and wr: "gpt_write_to_disk crc g d = Inr d'"
  defines "b \<equiv> unat (hdr_efi_backup_lba (header g))"
  shows "disk_read d' 0 512 = Inr (mbr_bytes (protective_mbr g))"
    and "disk_read d' 512 512 = Inr (hdr_bytes (header g))"
    and "disk_read d' 1024 16384 = Inr (gpt_table_bytes g)"
    and "disk_read d' (b * 512) 512 = Inr (hdr_bytes (backup_header crc (header g)))"
    and "disk_read d' ((b - 32) * 512) 16384 = Inr (gpt_table_bytes g)"
    and "dsize d' = dsize d"
    and "17408 \<le> a \<Longrightarrow> a + n \<le> (b - 32) * 512 \<Longrightarrow> disk_read d' a n = disk_read d a n"
proof -
  have offs: "unat (hdr_efi_backup_lba (header g) * SECTOR_SIZE) = b * 512"
    "unat ((hdr_efi_backup_lba (header g) - 32) * SECTOR_SIZE) = (b - 32) * 512" and b: "66 \<le> b"
    using gpt_placed_offsets [OF pl] by (simp_all add: b_def)
  have wf: "gpt_wf g" and ts: "hdr_part_table_start_lba (header g) = 2" using pl by (simp_all add: gpt_placed_def)
  have l0: "length (mbr_bytes (protective_mbr g)) = 512" and hw: "hdr_wf (header g)"
    using wf by (simp_all add: gpt_wf_def mbr_bytes_length)
  note l1 = hdr.enc_length [OF hw] and l2 = gpt_table_length [OF wf]
    and l3 = hdr.enc_length [OF backup_header_wf [OF hw], of crc]
  from wr obtain d1 d2 d3 d4 where
    w1: "disk_write d 0 (mbr_bytes (protective_mbr g)) = Inr d1" and
    w2: "disk_write d1 512 (hdr_bytes (header g)) = Inr d2" and
    w3: "disk_write d2 1024 (gpt_table_bytes g) = Inr d3" and
    w4: "disk_write d3 (b * 512) (hdr_bytes (backup_header crc (header g))) = Inr d4" and
    w5: "disk_write d4 ((b - 32) * 512) (gpt_table_bytes g) = Inr d'"
    by (auto simp: gpt_write_to_disk_def mbr_write_def hdr_write_def rbind_Inr_iff offs ts unat_SECTOR_SIZE)
  note rb1 = disk.read_before [OF w1] and ra1 = disk.read_after [OF w1]
    and rb2 = disk.read_before [OF w2] and ra2 = disk.read_after [OF w2]
    and rb3 = disk.read_before [OF w3] and ra3 = disk.read_after [OF w3]
    and rb4 = disk.read_before [OF w4] and ra4 = disk.read_after [OF w4]
    and rb5 = disk.read_before [OF w5] and ra5 = disk.read_after [OF w5]
  show "disk_read d' 0 512 = Inr (mbr_bytes (protective_mbr g))"
    using disk.read_same [OF w1] rb2 [of 0 512] rb3 [of 0 512] rb4 [of 0 512] rb5 [of 0 512] b l0 by simp
  show "disk_read d' 512 512 = Inr (hdr_bytes (header g))"
    using disk.read_same [OF w2] rb3 [of 512 512] rb4 [of 512 512] rb5 [of 512 512] b l1 by simp
  show "disk_read d' 1024 16384 = Inr (gpt_table_bytes g)"
    using disk.read_same [OF w3] rb4 [of 1024 16384] rb5 [of 1024 16384] b l2 by simp
  show "disk_read d' (b * 512) 512 = Inr (hdr_bytes (backup_header crc (header g)))"
    using disk.read_same [OF w4] ra5 [of "b * 512" 512] b l2 l3 by simp
  show "disk_read d' ((b - 32) * 512) 16384 = Inr (gpt_table_bytes g)"
    using disk.read_same [OF w5] l2 by simp
  show "dsize d' = dsize d"
    using w1 w2 w3 w4 w5 by (simp add: disk_write_size)
  show "disk_read d' a n = disk_read d a n" if "17408 \<le> a" "a + n \<le> (b - 32) * 512"
    using ra1 [of a n] ra2 [of a n] ra3 [of a n] rb4 [of a n] rb5 [of a n] that l0 l1 l2 b by simp
qed

lemma gpt_read_from_regions:
  assumes m: "mbr_read d 0 = Inr m" and hb: "disk_read d 512 512 = Inr (hdr_bytes (header g))"
    and tb: "disk_read d 1024 16384 = Inr (gpt_table_bytes g)" and pl: "gpt_placed g"
  shows "gpt_read_from_disk d = Inr (g\<lparr>protective_mbr := m\<rparr>)"
proof -
  have wf: "hdr_wf (header g)" "\<forall>e\<in>set (gpt_partitions g). gpe_wf e"
    "length (gpt_partitions g) = 128" using pl by (simp_all add: gpt_placed_def gpt_wf_def)
  have h: "hdr_read d 512 = Inr (header g)"
    by (rule hdr_read_from_bytes [OF hb wf(1)]) (use pl in \<open>simp add: gpt_placed_def\<close>)
  have e: "gpt_read_entries d 1024 128 0 128 = Inr (gpt_partitions g)"
    using gpt_read_entries_table [of d "gpt_partitions g" 0 128] tb wf by (simp add: gpt_table_bytes_def)
  show ?thesis
    using m h e pl by (simp add: gpt_read_from_disk_def gpt_placed_def SECTOR_SIZE_def Let_def del: gpt_read_entries.simps)
qed

lemma gpt_read_write:
  assumes pl: "gpt_placed g" and wr: "gpt_write_to_disk crc g d = Inr d'"
  shows "gpt_read_from_disk d' = Inr g"
proof -
  note reg = gpt_write_regions [OF pl wr]
  have "mbr_wf (protective_mbr g)" using pl by (simp add: gpt_placed_def gpt_wf_def)
  then have m: "mbr_read d' 0 = Inr (protective_mbr g)"
    by (rule mbr_read_from_bytes [OF reg(1)]) (use pl in \<open>simp_all add: gpt_placed_def\<close>)
  show ?thesis using gpt_read_from_regions [OF m reg(2,3) pl] by simp
qed

end
