(* ===== verification/Installer.thy ===== *)
theory Installer
  imports DiskLayout
begin

text \<open>
  The raw-sector work of \<open>src/installer.rs\<close> and the recogniser of \<open>src/disk.rs\<close>:
  CHS packing, partition layout, writing the MBR or GPT with boot code, stage 2 and disk
  GUID, adding the EFI partition to a disk that is in use, repairing the GPT attributes,
  updating the boot code, and \<open>detect_choosable\<close>. A disk is a \<open>vdisk\<close>; what comes
  from other crates or from the system (checksum, boot images, GUIDs, the version string
  read through \<open>fatfs\<close>, the answers of checks and tools) is a parameter.
\<close>

section \<open>Filesystem names\<close>

datatype filesystem_type = ExFat | Ntfs | Fat32

text \<open>
  \<open>to_lowercase\<close> on the ASCII letters decides the match: no other character of
  Unicode has a lower case among the letters of the three names.
\<close>

definition fs_from_str :: "string \<Rightarrow> choosable_error + filesystem_type" where
  "fs_from_str s =
     (let l = map to_ascii_lowercase (bstr s)
      in if l = bstr ''exfat'' then Inr ExFat
         else if l = bstr ''ntfs'' then Inr Ntfs
         else if l = bstr ''fat32'' then Inr Fat32
         else Inl (Generic (''Unsupported filesystem: '' @ s @ ''. Supported: exfat, ntfs, fat32'')))"

fun fs_as_str :: "filesystem_type \<Rightarrow> string" where
  "fs_as_str ExFat = ''exfat''"
| "fs_as_str Ntfs = ''ntfs''"
| "fs_as_str Fat32 = ''fat32''"

section \<open>GPT checksums\<close>

text \<open>
  \<open>finalize_gpt_crcs\<close> hashes \<open>header_size\<close> bytes from the start of the header, a
  value that \<open>update_gpt_partition_table_f\<close> and \<open>fix_gpt_attributes\<close> read from the disk.
  \<open>None\<close>: the slice would run past the 512-byte struct, which is undefined behaviour.
\<close>

definition finalize_gpt_crcs :: "(bytes \<Rightarrow> u32) \<Rightarrow> gpt_info \<Rightarrow> gpt_info option" where
  "finalize_gpt_crcs crc g =
     (let h1 = (header g)\<lparr>hdr_part_table_crc32 := crc (gpt_table_bytes g), hdr_header_crc32 := 0\<rparr>
      in map_option (\<lambda>hb. g\<lparr>header := h1\<lparr>hdr_header_crc32 := crc hb\<rparr>\<rparr>)
           (slice (hdr_bytes h1) 0 (unat (hdr_header_size h1))))"

definition make_backup_gpt_header :: "(bytes \<Rightarrow> u32) \<Rightarrow> gpt_info \<Rightarrow> gpt_header" where
  "make_backup_gpt_header crc primary =
     (let h = header primary;
          backup = h\<lparr>hdr_efi_start_lba := hdr_efi_backup_lba h, hdr_efi_backup_lba := hdr_efi_start_lba h,
                     hdr_part_table_start_lba := hdr_efi_backup_lba h - 32, hdr_header_crc32 := 0\<rparr>
      in backup\<lparr>hdr_header_crc32 := crc (take 92 (hdr_bytes backup))\<rparr>)"

section \<open>Partition geometry\<close>

definition align_to_4k :: "u64 \<Rightarrow> u64" where
  "align_to_4k sector = (let m = sector mod 8 in if m > 0 then sector + (8 - m) else sector)"

text \<open>Cylinder, head and sector of an LBA, and the packed 16-bit field.\<close>

definition chs_of_lba :: "u32 \<Rightarrow> u32 \<times> u32 \<times> u32" where
  "chs_of_lba lba =
     (if lba \<ge> 16450560 then (1023, 254, 63)
      else (lba div 255 div 63, (lba div 63) mod 255, (lba mod 63) + 1))"

definition pack_sector_cylinder :: "u32 \<Rightarrow> u32 \<Rightarrow> u16" where
  "pack_sector_cylinder cylinder sector =
     push_bit 8 (ucast (cylinder AND 0xFF)) OR ucast (drop_bit 2 (cylinder AND 0x300))
       OR ucast (sector AND 0x3F)"

definition saturating_sub :: "'a::len word \<Rightarrow> 'a word \<Rightarrow> 'a word" where
  "saturating_sub a b = (if a < b then 0 else a - b)"

definition fill_mbr_chs_entry :: "partition_table_entry \<Rightarrow> u32 \<Rightarrow> u32 \<Rightarrow> partition_table_entry" where
  "fill_mbr_chs_entry entry start_sector sector_count =
     (let (cylinder, head, sector) = chs_of_lba start_sector;
          end_lba = start_sector + saturating_sub sector_count 1;
          (ecylinder, ehead, esector) = chs_of_lba end_lba
      in entry\<lparr>pte_start_lba := start_sector, pte_sector_count := sector_count,
           pte_start_head := ucast head,
           pte_start_sector_cylinder := pack_sector_cylinder cylinder sector,
           pte_end_head := ucast ehead,
           pte_end_sector_cylinder := pack_sector_cylinder ecylinder esector\<rparr>)"

section \<open>Partition layout of a fresh install\<close>

definition efi_sectors :: u64 where
  "efi_sectors = CHOOSABLE_EFI_PART_SIZE div SECTOR_SIZE"

definition mbr_part2_start :: "u64 \<Rightarrow> u64 \<Rightarrow> u64" where
  "mbr_part2_start disk_size_bytes reserve_space_mb =
     (let total_sectors = disk_size_bytes div SECTOR_SIZE;
          part2_start = (if reserve_space_mb > 0
            then total_sectors - efi_sectors - reserve_space_mb * 2048
            else total_sectors - efi_sectors)
      in part2_start - part2_start mod 8)"

definition gpt_part2_start :: "u64 \<Rightarrow> u64 \<Rightarrow> u64" where
  "gpt_part2_start disk_size_bytes reserve_space_mb =
     (let part2_end = disk_size_bytes div SECTOR_SIZE - 34;
          part2_start = (if reserve_space_mb > 0
            then part2_end - efi_sectors - reserve_space_mb * 2048
            else part2_end - efi_sectors)
      in part2_start - part2_start mod 8)"

section \<open>Boot code\<close>

text \<open>\<open>for i in 0..n: if bytes[i..i+4] == needle, overwrite the four bytes after it and stop\<close>.\<close>

definition lba_needle :: bytes where
  "lba_needle = [0xC7, 0x06, 0xC8, 0x07]"

fun patch_lba_from :: "nat \<Rightarrow> nat \<Rightarrow> bytes \<Rightarrow> bytes" where
  "patch_lba_from i 0 bs = bs"
| "patch_lba_from i (Suc n) bs =
     (if take 4 (drop i bs) = lba_needle then paste bs (i + 4) (to_le 4 (34 :: u32))
      else patch_lba_from (Suc i) n bs)"

definition patch_lba :: "nat \<Rightarrow> bytes \<Rightarrow> bytes" where
  "patch_lba boot_code_len bs = patch_lba_from 0 (boot_code_len - 8) bs"

definition boot_code_of :: "bytes \<Rightarrow> bytes" where
  "boot_code_of boot_img = take (min (length boot_img) 440) boot_img"

definition with_signature :: "bytes \<Rightarrow> bytes" where
  "with_signature bs = bs[510 := 0x55, 511 := 0xAA]"

section \<open>Writing a fresh MBR or GPT\<close>

definition mbr_install_entries :: "u64 \<Rightarrow> partition_table_entry list" where
  "mbr_install_entries part2_start =
     (let part1_start = CHOOSABLE_PART1_START_SECTOR;
          part1_sectors = part2_start - part1_start;
          part0 = (fill_mbr_chs_entry pte_empty (ucast part1_start) (ucast part1_sectors))
                    \<lparr>pte_active := PART_ACTIVE, pte_fs_flag := 0x07\<rparr>;
          part1 = (fill_mbr_chs_entry pte_empty (ucast part2_start) (ucast efi_sectors))
                    \<lparr>pte_fs_flag := PART_TYPE_EFI_SYSTEM\<rparr>
      in [part0, part1, pte_empty, pte_empty])"

definition mbr_install_sector :: "bytes \<Rightarrow> bytes \<Rightarrow> u64 \<Rightarrow> bytes" where
  "mbr_install_sector boot_img guid part2_start =
     (let b1 = paste (replicate 512 0) 0 (boot_code_of boot_img);
          b2 = paste b1 384 guid;
          b3 = paste b2 440 (take 4 (drop 12 guid));
          b4 = with_signature b3
      in paste b4 446 (concat (map pte_bytes (mbr_install_entries part2_start))))"

text \<open>Returns the new disk and the byte offset of partition 2.\<close>

definition write_mbr_f ::
  "bytes \<Rightarrow> bytes \<Rightarrow> bytes \<Rightarrow> vdisk \<Rightarrow> u64 \<Rightarrow> u64 \<Rightarrow> choosable_error + vdisk \<times> u64" where
  "write_mbr_f boot_img stage2 guid d disk_size_bytes reserve_space_mb =
     (let part2_start = mbr_part2_start disk_size_bytes reserve_space_mb
      in rbind (disk_write d 0 (mbr_install_sector boot_img guid part2_start)) (\<lambda>d1.
         rbind (disk_write d1 (unat SECTOR_SIZE) (take (min (length stage2) (2047 * 512)) stage2)) (\<lambda>d2.
           Inr (d2, part2_start * SECTOR_SIZE))))"

definition gpt_install_info :: "u64 \<Rightarrow> u64 \<Rightarrow> bytes \<Rightarrow> bytes \<Rightarrow> bytes \<Rightarrow> gpt_info" where
  "gpt_install_info disk_size_bytes reserve_space_mb disk_guid guid1 guid2 =
     (let part2_start = gpt_part2_start disk_size_bytes reserve_space_mb;
          part1_end = part2_start - 1;
          g = gpt_new_choosable disk_size_bytes disk_guid guid1 guid2;
          p0 = (gpt_partitions g ! 0)\<lparr>gpe_start_lba := CHOOSABLE_PART1_START_SECTOR,
                 gpe_end_lba := part1_end, gpe_attributes := 0\<rparr>;
          p1 = (gpt_partitions g ! 1)\<lparr>gpe_start_lba := part2_start,
                 gpe_end_lba := part2_start + efi_sectors - 1, gpe_attributes := GPT_ATTR_CZBLEFI\<rparr>
      in g\<lparr>gpt_partitions := (gpt_partitions g)[0 := p0, 1 := p1]\<rparr>)"

definition gpt_boot_sector :: "bytes \<Rightarrow> bytes \<Rightarrow> bytes \<Rightarrow> bytes" where
  "gpt_boot_sector boot_img disk_guid mbr_sector =
     (let code = boot_code_of boot_img;
          b1 = paste mbr_sector 0 code;
          b2 = paste b1 384 disk_guid;
          b3 = paste b2 440 (take 4 (drop 12 disk_guid))
      in patch_lba (length code) (with_signature b3))"

text \<open>
  \<open>finalize_gpt_crcs\<close> hashes the 92 bytes of a header that \<open>GptHeader::new\<close> has
  just built, so the \<open>None\<close> branch is never taken here.
\<close>

definition write_gpt_f ::
  "(bytes \<Rightarrow> u32) \<Rightarrow> bytes \<Rightarrow> bytes \<Rightarrow> bytes \<Rightarrow> bytes \<Rightarrow> bytes \<Rightarrow> vdisk \<Rightarrow> u64 \<Rightarrow> u64 \<Rightarrow>
     (choosable_error + vdisk \<times> u64) option" where
  "write_gpt_f crc boot_img stage2 disk_guid guid1 guid2 d disk_size_bytes reserve_space_mb =
     (let part2_start = gpt_part2_start disk_size_bytes reserve_space_mb
      in map_option (\<lambda>g.
         rbind (disk_write d (unat (34 * SECTOR_SIZE)) (take (min (length stage2) (2014 * 512)) stage2)) (\<lambda>d1.
         rbind (gpt_write_to_disk crc g d1) (\<lambda>d2.
         rbind (disk_read d2 0 512) (\<lambda>mbr_sector.
         rbind (disk_write d2 0 (gpt_boot_sector boot_img disk_guid mbr_sector)) (\<lambda>d3.
           Inr (d3, part2_start * SECTOR_SIZE))))))
         (finalize_gpt_crcs crc (gpt_install_info disk_size_bytes reserve_space_mb disk_guid guid1 guid2)))"

section \<open>Boot images on an existing layout\<close>

text \<open>\<open>write_boot_images\<close> of the non-destructive install.\<close>

definition write_boot_images :: "bytes \<Rightarrow> bytes \<Rightarrow> vdisk \<Rightarrow> bool \<Rightarrow> choosable_error + vdisk" where
  "write_boot_images boot_img stage2 d is_gpt =
     (if is_gpt then
        rbind (disk_write d (34 * 512) (take (min (length stage2) (2014 * 512)) stage2)) (\<lambda>d1.
        rbind (disk_read d1 0 512) (\<lambda>mbr_sector.
        let code = boot_code_of boot_img
        in disk_write d1 0 (patch_lba (length code) (with_signature (paste mbr_sector 0 code)))))
      else
        rbind (disk_write d 0 (boot_code_of boot_img)) (\<lambda>d1.
        disk_write d1 (1 * 512) (take (min (length stage2) (2047 * 512)) stage2)))"

section \<open>Repairing the attributes of the EFI partition\<close>

definition is_czblefi :: "gpt_partition_entry \<Rightarrow> bool" where
  "is_czblefi e \<longleftrightarrow> gpe_name e ! 0 = 67 \<and> gpe_name e ! 1 = 90 \<and> gpe_name e ! 2 = 66 \<and> gpe_name e ! 3 = 76"

definition attributes_need_rewrite :: "gpt_info \<Rightarrow> bool" where
  "attributes_need_rewrite g =
     (let entry = gpt_partitions g ! 1; mbr_entry = partitions (protective_mbr g) ! 0
      in if is_czblefi entry \<and> gpe_attributes entry \<noteq> GPT_ATTR_CZBLEFI then True
         else if is_czblefi entry
              then pte_fs_flag mbr_entry \<noteq> PART_TYPE_GPT_PROTECTIVE \<or> pte_sector_count mbr_entry = 0
              else False)"

definition repaired_gpt :: "gpt_info \<Rightarrow> gpt_info" where
  "repaired_gpt g =
     (let entry = gpt_partitions g ! 1;
          g1 = (if is_czblefi entry \<and> gpe_attributes entry \<noteq> GPT_ATTR_CZBLEFI
                then g\<lparr>gpt_partitions := (gpt_partitions g)[1 := entry\<lparr>gpe_attributes := GPT_ATTR_CZBLEFI\<rparr>]\<rparr>
                else g);
          m = protective_mbr g1
      in g1\<lparr>protective_mbr := m\<lparr>partitions := (partitions m)[0 := (partitions m ! 0)
             \<lparr>pte_fs_flag := PART_TYPE_GPT_PROTECTIVE, pte_start_lba := 1, pte_sector_count := 0xFFFFFFFF\<rparr>]\<rparr>\<rparr>)"

definition fix_gpt_attributes :: "(bytes \<Rightarrow> u32) \<Rightarrow> vdisk \<Rightarrow> (choosable_error + vdisk) option" where
  "fix_gpt_attributes crc d =
     (case gpt_read_from_disk d of
        Inl e \<Rightarrow> Some (Inl e)
      | Inr gpt \<Rightarrow>
          if attributes_need_rewrite gpt then
            (case disk_read d 0 446 of
               Inl e \<Rightarrow> Some (Inl e)
             | Inr saved_boot_code \<Rightarrow>
                 map_option (\<lambda>g. rbind (gpt_write_to_disk crc g d) (\<lambda>d1. disk_write d1 0 saved_boot_code))
                   (finalize_gpt_crcs crc (repaired_gpt gpt)))
          else Some (Inr d))"

section \<open>Adding the EFI partition to a disk in use\<close>

text \<open>The first free slot from index 1: \<open>for i in 1..n\<close>.\<close>

fun first_free :: "('a \<Rightarrow> bool) \<Rightarrow> 'a list \<Rightarrow> nat \<Rightarrow> nat \<Rightarrow> nat option" where
  "first_free free ps i 0 = None"
| "first_free free ps i (Suc n) = (if free (ps ! i) then Some i else first_free free ps (Suc i) n)"

definition mbr_free_slot :: "mbr \<Rightarrow> nat option" where
  "mbr_free_slot m = first_free (\<lambda>e. pte_sector_count e = 0) (partitions m) 1 3"

definition gpt_free_slot :: "gpt_info \<Rightarrow> nat option" where
  "gpt_free_slot g = first_free (\<lambda>e. gpe_unique_part_guid e = replicate 16 0) (gpt_partitions g) 1 127"

definition mbr_with_efi :: "mbr \<Rightarrow> nat \<Rightarrow> u64 \<Rightarrow> mbr" where
  "mbr_with_efi m slot part2_start_sector =
     (let part1_count = ucast part2_start_sector - ucast CHOOSABLE_PART1_START_SECTOR;
          ps0 = partitions m;
          ps1 = ps0[0 := (fill_mbr_chs_entry (ps0 ! 0) (ucast CHOOSABLE_PART1_START_SECTOR) part1_count)
                   \<lparr>pte_active := PART_ACTIVE, pte_fs_flag := 0x07\<rparr>];
          ps2 = ps1[slot := (fill_mbr_chs_entry (ps1 ! slot) (ucast part2_start_sector) (ucast efi_sectors))
                   \<lparr>pte_active := PART_INACTIVE, pte_fs_flag := PART_TYPE_EFI_SYSTEM\<rparr>]
      in m\<lparr>partitions := ps2\<rparr>)"

definition update_mbr_partition_table_f :: "vdisk \<Rightarrow> mbr \<Rightarrow> u64 \<Rightarrow> choosable_error + vdisk" where
  "update_mbr_partition_table_f d m part2_start_sector =
     (case mbr_free_slot m of
        None \<Rightarrow> Inl (Generic ''No free partition slot available in MBR'')
      | Some slot \<Rightarrow> mbr_write (mbr_with_efi m slot part2_start_sector) d 0)"

definition gpt_with_efi :: "gpt_info \<Rightarrow> nat \<Rightarrow> u64 \<Rightarrow> bytes \<Rightarrow> gpt_info" where
  "gpt_with_efi g slot part2_start_sector guid =
     (let ps1 = (gpt_partitions g)[0 := (gpt_partitions g ! 0)\<lparr>gpe_end_lba := part2_start_sector - 1\<rparr>]
      in g\<lparr>gpt_partitions := ps1[slot := \<lparr>gpe_part_type_guid = GPT_TYPE_EFI_SYSTEM,
            gpe_unique_part_guid = guid, gpe_start_lba = part2_start_sector,
            gpe_end_lba = part2_start_sector + efi_sectors - 1, gpe_attributes = GPT_ATTR_CZBLEFI,
            gpe_name = make_cz_name CZBLEFI_NAME\<rparr>]\<rparr>)"

definition update_gpt_partition_table_f ::
  "(bytes \<Rightarrow> u32) \<Rightarrow> bytes \<Rightarrow> vdisk \<Rightarrow> u64 \<Rightarrow> (choosable_error + vdisk) option" where
  "update_gpt_partition_table_f crc guid d part2_start_sector =
     (case gpt_read_from_disk d of
        Inl e \<Rightarrow> Some (Inl e)
      | Inr gpt \<Rightarrow>
          (case gpt_free_slot gpt of
             None \<Rightarrow> Some (Inl (Generic ''No free partition slot available in GPT''))
           | Some slot \<Rightarrow>
               map_option (\<lambda>g. gpt_write_to_disk crc g d)
                 (finalize_gpt_crcs crc (gpt_with_efi gpt slot part2_start_sector guid))))"

text \<open>Start of the partition after partition 1, in bytes.\<close>

fun next_gpt_start :: "gpt_partition_entry list \<Rightarrow> u64 \<Rightarrow> u64" where
  "next_gpt_start [] nxt = nxt"
| "next_gpt_start (e # es) nxt =
     next_gpt_start es (if gpe_unique_part_guid e \<noteq> replicate 16 0 \<and> gpe_start_lba e < nxt
                        then gpe_start_lba e else nxt)"

fun next_mbr_start :: "partition_table_entry list \<Rightarrow> u64 \<Rightarrow> u64" where
  "next_mbr_start [] nxt = nxt"
| "next_mbr_start (e # es) nxt =
     next_mbr_start es (if pte_sector_count e > 0 \<and> ucast (pte_start_lba e) * SECTOR_SIZE < nxt
                        then ucast (pte_start_lba e) * SECTOR_SIZE else nxt)"

definition find_next_partition_start :: "vdisk \<Rightarrow> mbr \<Rightarrow> bool \<Rightarrow> u64 \<Rightarrow> choosable_error + u64" where
  "find_next_partition_start d m is_gpt disk_size_bytes =
     (if is_gpt then
        rbind (gpt_read_from_disk d) (\<lambda>gpt.
          Inr (next_gpt_start (drop 1 (gpt_partitions gpt)) (hdr_part_area_end_lba (header gpt) + 1) * SECTOR_SIZE))
      else Inr (next_mbr_start (drop 1 (partitions m)) disk_size_bytes))"

section \<open>Recognising a Choosable disk\<close>

text \<open>
  \<open>detect_choosable\<close> of \<open>src/disk.rs\<close>: whether the disk is a Choosable disk, its
  version, the byte offset and the attributes of partition 2, and the MBR.
  \<open>read_choosable_version\<close> goes through the \<open>fatfs\<close> crate and is the parameter \<open>ver\<close>.
\<close>

definition gpt_recognised :: "gpt_info \<Rightarrow> bool" where
  "gpt_recognised gpt =
     (let p0 = gpt_partitions gpt ! 0; p1 = gpt_partitions gpt ! 1
      in gpe_start_lba p0 = CHOOSABLE_PART1_START_SECTOR \<and>
         gpe_start_lba p1 = gpe_end_lba p0 + 1 \<and>
         gpe_end_lba p1 + 1 - gpe_start_lba p1 = efi_sectors \<and>
         take (length CZBLEFI_NAME) (gpe_name p1) = CZBLEFI_NAME)"

definition mbr_recognised :: "mbr \<Rightarrow> bool" where
  "mbr_recognised m =
     (let p0 = partitions m ! 0; p1 = partitions m ! 1
      in pte_start_lba p0 = ucast CHOOSABLE_PART1_START_SECTOR \<and>
         pte_start_lba p1 = pte_start_lba p0 + pte_sector_count p0 \<and>
         pte_sector_count p1 = ucast efi_sectors)"

definition detect_choosable ::
  "(vdisk \<Rightarrow> u64 \<Rightarrow> choosable_error + string option) \<Rightarrow> vdisk \<Rightarrow>
     choosable_error + bool \<times> string option \<times> u64 option \<times> u64 option \<times> mbr" where
  "detect_choosable ver d =
     (case mbr_read d 0 of
        Inl (InvalidMbrSignature a b) \<Rightarrow> Inr (False, None, None, None, mbr_new_empty)
      | Inl e \<Rightarrow> Inl e
      | Inr m \<Rightarrow>
          if is_gpt_protective m then
            rbind (gpt_read_from_disk d) (\<lambda>gpt.
              if \<not> gpt_recognised gpt then Inr (False, None, None, None, m)
              else let part2_start = gpe_start_lba (gpt_partitions gpt ! 1) * SECTOR_SIZE
                   in rbind (ver d part2_start) (\<lambda>v.
                        Inr (True, v, Some part2_start, Some (gpe_attributes (gpt_partitions gpt ! 1)), m)))
          else
            if \<not> mbr_recognised m then Inr (False, None, None, None, m)
            else let part2_start = ucast (pte_start_lba (partitions m ! 1)) * SECTOR_SIZE
                 in rbind (ver d part2_start) (\<lambda>v. Inr (True, v, Some part2_start, None, m)))"

section \<open>The install, update and non-destructive handlers\<close>

text \<open>
  What a handler learns from the system: sysfs, the checks of \<open>src/checks.rs\<close>, the
  user's confirmations, the boot images and GUIDs, and the results of the tools it runs
  (\<open>partx\<close>, \<open>mkfs\<close>, \<open>fatfs\<close>). Results of tools whose status the code
  drops (\<open>sync\<close>, \<open>udevadm\<close>) do not appear.
\<close>

record install_env =
  env_whole_disk :: bool
  env_size :: "choosable_error + u64"
  env_4k_native :: bool
  env_umount :: "choosable_error + unit"
  env_swap :: "choosable_error + unit"
  env_tools :: "choosable_error + unit"
  env_version :: "vdisk \<Rightarrow> u64 \<Rightarrow> choosable_error + string option"
  env_confirm1 :: bool
  env_confirm2 :: bool
  env_open :: "choosable_error + unit"
  env_crc :: "bytes \<Rightarrow> u32"
  env_boot_img :: bytes
  env_stage2 :: bytes
  env_guid :: bytes
  env_guid1 :: bytes
  env_guid2 :: bytes
  env_wait_partitions :: "choosable_error + unit"
  env_part1_exists :: bool
  env_part1_sectors :: "choosable_error + u64"
  env_part1_start :: "choosable_error + u64"
  env_part1_fs :: "choosable_error + string"
  env_has_secure_boot :: bool

text \<open>What the handlers do to the partitions through external tools, in order.\<close>

datatype tool_call =
    NtfsFix | NtfsResize u64 | E2fsck | Resize2fs u64
  | FormatPartition nat | FormatEfi nat | WriteEfiBootloader nat | SecureBootEsp nat

text \<open>The size checks of \<open>install_choosable\<close>, in the order of the source.\<close>

definition size_guards :: "bool \<Rightarrow> u64 \<Rightarrow> u64 \<Rightarrow> choosable_error + unit" where
  "size_guards use_gpt size_bytes reserve_space_mb =
     (let required_sectors = CHOOSABLE_PART1_START_SECTOR + CHOOSABLE_PART_SIZE_MB * 2048;
          reserve_sectors = (reserve_space_mb + CHOOSABLE_PART_SIZE_MB) * 2048
      in if \<not> use_gpt \<and> size_bytes > 2 * SIZE_1TB then Inl MbrOverflow
         else if size_bytes < required_sectors * SECTOR_SIZE
              then Inl (DiskTooSmall (required_sectors * SECTOR_SIZE) size_bytes)
         else if reserve_space_mb > 0 \<and> size_bytes div SECTOR_SIZE \<le> reserve_sectors
              then Inl (Generic ''Cannot reserve MiB on disk'')
         else Inr ())"

text \<open>
  The tools of the last phase: each may fail; the first failure is the handler's result.
  \<open>tools c\<close> is the result of running \<open>c\<close>.
\<close>

fun run_tools :: "(tool_call \<Rightarrow> choosable_error + unit) \<Rightarrow> tool_call list \<Rightarrow> choosable_error + unit" where
  "run_tools tools [] = Inr ()"
| "run_tools tools (c # cs) = rbind (tools c) (\<lambda>_. run_tools tools cs)"

text \<open>
  \<open>install_choosable\<close>. \<open>Inr (d, None)\<close>: the user declined and \<open>d\<close> is the disk as it
  was; \<open>Inr (d, Some p)\<close>: installed, with partition 2 at byte \<open>p\<close>.
\<close>

definition install_choosable ::
  "install_env \<Rightarrow> (tool_call \<Rightarrow> choosable_error + unit) \<Rightarrow> bool \<Rightarrow> bool \<Rightarrow> u64 \<Rightarrow> bool \<Rightarrow> bool \<Rightarrow> vdisk \<Rightarrow>
     choosable_error + vdisk \<times> u64 option" where
  "install_choosable env tools use_gpt secure_boot reserve_space_mb force yes d =
     (if \<not> env_whole_disk env then Inl (IsPartition []) else
      rbind (env_size env) (\<lambda>size_bytes.
      if env_4k_native env then Inl FourKNativeSector else
      rbind (size_guards use_gpt size_bytes reserve_space_mb) (\<lambda>_.
      rbind (env_umount env) (\<lambda>_. rbind (env_swap env) (\<lambda>_. rbind (env_tools env) (\<lambda>_.
      rbind (detect_choosable (env_version env) d) (\<lambda>(is_choosable, version, _, _, _).
      if is_choosable \<and> \<not> force
      then Inl (AlreadyInstalled (case version of Some v \<Rightarrow> v | None \<Rightarrow> ''?'')) else
      if \<not> yes \<and> \<not> (env_confirm1 env \<and> env_confirm2 env) then Inr (d, None) else
      rbind (env_open env) (\<lambda>_.
      rbind (disk_write d 0 (replicate (64 * 512) 0)) (\<lambda>d0.
      rbind (if use_gpt
             then (case write_gpt_f (env_crc env) (env_boot_img env) (env_stage2 env) (env_guid env)
                          (env_guid1 env) (env_guid2 env) d0 size_bytes reserve_space_mb of
                     None \<Rightarrow> Inl Io | Some r \<Rightarrow> r)
             else write_mbr_f (env_boot_img env) (env_stage2 env) (env_guid env) d0 size_bytes reserve_space_mb)
        (\<lambda>(d1, part2_start).
      rbind (env_wait_partitions env) (\<lambda>_.
      rbind (run_tools tools ([FormatPartition 1, FormatEfi 2, WriteEfiBootloader 2]
               @ (if secure_boot then [] else [SecureBootEsp 2]))) (\<lambda>_.
        Inr (d1, Some part2_start)))))))))))))"

text \<open>
  The placement decision of \<open>non_destructive_install\<close>: the first sector of the new EFI
  partition and the tools that shrink partition 1 first, when it must shrink.
\<close>

definition nd_placement ::
  "install_env \<Rightarrow> u64 \<Rightarrow> u64 \<Rightarrow> mbr \<Rightarrow> vdisk \<Rightarrow> choosable_error + u64 \<times> tool_call list" where
  "nd_placement env size_bytes part1_sectors m d =
     (let is_gpt = is_gpt_protective m;
          part1_mb = (part1_sectors * SECTOR_SIZE) div SIZE_1MB;
          min_required = CHOOSABLE_PART1_START_SECTOR + efi_sectors
      in if size_bytes div SECTOR_SIZE \<le> min_required
         then Inl (DiskTooSmall (min_required * SECTOR_SIZE) size_bytes)
         else
      rbind (env_part1_start env) (\<lambda>part1_start.
      if part1_start \<noteq> CHOOSABLE_PART1_START_SECTOR
      then Inl (Generic ''Partition 1 does not start at 1 MiB'') else
      let part1_end = part1_start + part1_sectors
      in rbind (find_next_partition_start d m is_gpt size_bytes) (\<lambda>next_part_start.
         let free_space = saturating_sub next_part_start (part1_end * SECTOR_SIZE)
         in if free_space \<ge> CHOOSABLE_EFI_PART_SIZE then Inr (align_to_4k part1_end, [])
            else
              let efi_part_size_mb = CHOOSABLE_EFI_PART_SIZE div SIZE_1MB
              in if part1_mb \<le> efi_part_size_mb
                 then Inl (Generic ''Partition 1 is too small to be shrunk'')
                 else
                   let new_part1_mb = part1_mb - efi_part_size_mb;
                       start = align_to_4k (part1_end - efi_sectors)
                   in rbind (env_part1_fs env) (\<lambda>fs.
                        if fs = ''ntfs'' then Inr (start, [NtfsFix, NtfsResize new_part1_mb])
                        else if fs = ''ext4'' \<or> fs = ''ext3'' \<or> fs = ''ext2''
                        then Inr (start, [E2fsck, Resize2fs new_part1_mb])
                        else Inl (UnsupportedFilesystem fs)))))"

text \<open>The disk GUID at byte 384 and its last four bytes at 440.\<close>

definition write_disk_guid :: "bytes \<Rightarrow> vdisk \<Rightarrow> choosable_error + vdisk" where
  "write_disk_guid guid d =
     rbind (disk_write d 384 guid) (\<lambda>d1. disk_write d1 440 (take 4 (drop 12 guid)))"

text \<open>
  \<open>non_destructive_install\<close>; the outer \<open>None\<close> is the out-of-bounds hash of
  \<open>finalize_gpt_crcs\<close>. The result carries the tools run, in order.
\<close>

definition non_destructive_install ::
  "install_env \<Rightarrow> (tool_call \<Rightarrow> choosable_error + unit) \<Rightarrow> bool \<Rightarrow> bool \<Rightarrow> vdisk \<Rightarrow>
     (choosable_error + vdisk \<times> tool_call list) option" where
  "non_destructive_install env tools secure_boot yes d =
     (if \<not> env_whole_disk env then Some (Inl (IsPartition [])) else
      case rbind (env_size env) (\<lambda>size_bytes. rbind (env_umount env) (\<lambda>_. rbind (env_swap env) (\<lambda>_.
             rbind (detect_choosable (env_version env) d) (\<lambda>(is_choosable, _).
               Inr (size_bytes, is_choosable))))) of
        Inl e \<Rightarrow> Some (Inl e)
      | Inr (size_bytes, is_choosable) \<Rightarrow>
      if is_choosable then Some (Inr (d, []))
      else if \<not> env_part1_exists env then Some (Inl (Generic ''Partition 1 not found on disk'')) else
      case rbind (env_part1_sectors env) (\<lambda>n. rbind (mbr_read d 0) (\<lambda>m. Inr (n, m))) of
        Inl e \<Rightarrow> Some (Inl e)
      | Inr (part1_sectors, m) \<Rightarrow>
      if \<not> yes \<and> \<not> env_confirm1 env then Some (Inr (d, [])) else
      case rbind (nd_placement env size_bytes part1_sectors m d) (\<lambda>(start, shrink).
             rbind (run_tools tools shrink) (\<lambda>_. rbind (env_open env) (\<lambda>_. Inr (start, shrink)))) of
        Inl e \<Rightarrow> Some (Inl e)
      | Inr (start, shrink) \<Rightarrow>
      case (if is_gpt_protective m then update_gpt_partition_table_f (env_crc env) (env_guid1 env) d start
            else Some (update_mbr_partition_table_f d m start)) of
        None \<Rightarrow> None
      | Some (Inl e) \<Rightarrow> Some (Inl e)
      | Some (Inr d1) \<Rightarrow>
      case rbind (write_boot_images (env_boot_img env) (env_stage2 env) d1 (is_gpt_protective m)) (\<lambda>d2.
             rbind (write_disk_guid (env_guid env) d2) (\<lambda>d3.
             rbind (env_wait_partitions env) (\<lambda>_. Inr d3))) of
        Inl e \<Rightarrow> Some (Inl e)
      | Inr d3 \<Rightarrow>
      case (if is_gpt_protective m then fix_gpt_attributes (env_crc env) d3 else Some (Inr d3)) of
        None \<Rightarrow> None
      | Some (Inl e) \<Rightarrow> Some (Inl e)
      | Some (Inr d4) \<Rightarrow>
          let calls = [FormatEfi 2, WriteEfiBootloader 2] @ (if secure_boot then [] else [SecureBootEsp 2])
          in Some (rbind (run_tools tools calls) (\<lambda>_. Inr (d4, shrink @ calls))))"

text \<open>
  The raw-sector phase of \<open>update_choosable\<close>: stage 2, the attribute repair, then the
  boot code with the disk GUID kept and sectors 2040 to 2047 read and written back.
\<close>

definition update_stage2 :: "bytes \<Rightarrow> vdisk \<Rightarrow> mbr \<Rightarrow> choosable_error + vdisk" where
  "update_stage2 stage2 d m =
     (if is_gpt_protective m
      then disk_write d (34 * 512) (take (min (length stage2) (2014 * 512)) stage2)
      else rbind (if part1_active m = 0x00 \<and> part2_active m = 0x80
                  then rbind (disk_write d 446 [PART_ACTIVE]) (\<lambda>d1. disk_write d1 462 [PART_INACTIVE])
                  else Inr d) (\<lambda>d2.
             disk_write d2 (1 * 512) (take (min (length stage2) (2047 * 512)) stage2)))"

definition update_boot_code :: "bytes \<Rightarrow> vdisk \<Rightarrow> bool \<Rightarrow> choosable_error + vdisk" where
  "update_boot_code boot_img d is_gpt =
     rbind (disk_read d 384 16) (\<lambda>diskuuid.
     rbind (disk_read d (2040 * 512) (8 * 512)) (\<lambda>rsv_data.
     rbind (if is_gpt then
              rbind (disk_read d 0 512) (\<lambda>mbr_sector. disk_write d 0 (gpt_boot_sector boot_img diskuuid mbr_sector))
            else
              rbind (disk_write d 0 (boot_code_of boot_img)) (\<lambda>d1. disk_write d1 384 diskuuid)) (\<lambda>d2.
       disk_write d2 (2040 * 512) rsv_data)))"

definition update_raw ::
  "(bytes \<Rightarrow> u32) \<Rightarrow> bytes \<Rightarrow> bytes \<Rightarrow> vdisk \<Rightarrow> mbr \<Rightarrow> (choosable_error + vdisk) option" where
  "update_raw crc boot_img stage2 d m =
     (case update_stage2 stage2 d m of
        Inl e \<Rightarrow> Some (Inl e)
      | Inr d1 \<Rightarrow>
          map_option (\<lambda>r. rbind r (\<lambda>d2. update_boot_code boot_img d2 (is_gpt_protective m)))
            (if is_gpt_protective m then fix_gpt_attributes crc d1 else Some (Inr d1)))"

definition update_choosable ::
  "install_env \<Rightarrow> (tool_call \<Rightarrow> choosable_error + unit) \<Rightarrow> bool option \<Rightarrow> bool \<Rightarrow> vdisk \<Rightarrow>
     (choosable_error + vdisk \<times> bool) option" where
  "update_choosable env tools secure_boot yes d =
     (if \<not> env_whole_disk env then Some (Inl (IsPartition [])) else
      case rbind (env_umount env) (\<lambda>_. rbind (env_size env) (\<lambda>_. detect_choosable (env_version env) d)) of
        Inl e \<Rightarrow> Some (Inl e)
      | Inr (is_choosable, _, part2_start, _, m) \<Rightarrow>
      if \<not> is_choosable then Some (Inl NotChoosableDisk)
      else
        let use_secure_boot = (case secure_boot of Some sb \<Rightarrow> sb
              | None \<Rightarrow> (case part2_start of Some p2 \<Rightarrow> env_has_secure_boot env | None \<Rightarrow> True))
        in if \<not> yes \<and> \<not> env_confirm1 env then Some (Inr (d, False)) else
      case env_open env of
        Inl e \<Rightarrow> Some (Inl e)
      | Inr _ \<Rightarrow>
      map_option (\<lambda>r. rbind r (\<lambda>d1.
        rbind (run_tools tools ([WriteEfiBootloader 2] @ (if use_secure_boot then [] else [SecureBootEsp 2])))
          (\<lambda>_. Inr (d1, True))))
        (update_raw (env_crc env) (env_boot_img env) (env_stage2 env) d m))"

end
