(* ===== verification/InstallerCorrect.thy ===== *)
theory InstallerCorrect
  imports Installer
begin

text \<open>
  What the raw-sector work of the installer guarantees: what it writes is recognised by
  \<open>detect_choosable\<close>, partitions lie where they must, CHS fields decode to their LBA, and
  rewriting boot code leaves the partition table and the data partition alone.
\<close>

section \<open>Boot code and the partition table share sector 0\<close>

lemma boot_code_of_length: "length (boot_code_of b) \<le> 440"
  by (simp add: boot_code_of_def)

lemma patch_lba_from_length:
  "i + n + 7 \<le> length bs \<Longrightarrow> length (patch_lba_from i n bs) = length bs"
  by (induction i n bs rule: patch_lba_from.induct) (auto simp: paste_def)

lemma patch_lba_from_nth:
  "i + n + 7 \<le> length bs \<Longrightarrow> i + n + 7 \<le> k \<Longrightarrow> k < length bs \<Longrightarrow>
     patch_lba_from i n bs ! k = bs ! k"
  by (induction i n bs rule: patch_lba_from.induct) (auto simp: paste_nth)

lemma patch_lba_length [len_simps]:
  "n \<le> 440 \<Longrightarrow> length bs = 512 \<Longrightarrow> length (patch_lba n bs) = 512"
  by (simp add: patch_lba_def patch_lba_from_length)

lemma patch_lba_nth: "n \<le> 440 \<Longrightarrow> length bs = 512 \<Longrightarrow> 440 \<le> k \<Longrightarrow> k < 512 \<Longrightarrow> patch_lba n bs ! k = bs ! k"
  by (simp add: patch_lba_def patch_lba_from_nth)

lemma with_signature_simps [simp]:
  "length (with_signature bs) = length bs"
  "length bs = 512 \<Longrightarrow> with_signature bs ! 510 = 0x55"
  "length bs = 512 \<Longrightarrow> with_signature bs ! 511 = 0xAA"
  "k < 510 \<Longrightarrow> with_signature bs ! k = bs ! k"
  by (simp_all add: with_signature_def)

text \<open>Two sectors with the same bytes from 446 on hold the same partition table.\<close>

lemma mbr_of_bytes_table:
  assumes "length a = 512" and "length b = 512"
    and "\<And>k. 446 \<le> k \<Longrightarrow> k < 510 \<Longrightarrow> a ! k = b ! k"
  shows "partitions (mbr_of_bytes a) = partitions (mbr_of_bytes b)"
proof -
  have "take 64 (drop 446 a) = take 64 (drop 446 b)"
    using assms by (intro nth_equalityI) auto
  then have "chunks 16 4 (drop 446 a) = chunks 16 4 (drop 446 b)"
    using chunks_take [of 16 4 "drop 446 a"] chunks_take [of 16 4 "drop 446 b"] by simp
  then show ?thesis by (simp add: mbr_of_bytes_def)
qed

lemma mbr_install_sector_length: "length guid = 16 \<Longrightarrow> length (mbr_install_sector boot guid p2) = 512"
  using boot_code_of_length [of boot] pte.array_length [of "mbr_install_entries p2"]
  by (simp add: mbr_install_sector_def Let_def paste_def mbr_install_entries_def)

lemma mbr_install_sector_read:
  assumes "length guid = 16"
  shows "mbr_install_sector boot guid p2 ! 510 = 0x55" "mbr_install_sector boot guid p2 ! 511 = 0xAA"
    "partitions (mbr_of_bytes (mbr_install_sector boot guid p2)) = mbr_install_entries p2"
proof -
  let ?es = "mbr_install_entries p2"
  define b4 where "b4 = with_signature (paste (paste (paste (replicate 512 0) 0 (boot_code_of boot)) 384 guid)
      440 (take 4 (drop 12 guid)))"
  have s: "mbr_install_sector boot guid p2 = paste b4 446 (concat (map pte_bytes ?es))"
    by (simp add: mbr_install_sector_def b4_def Let_def)
  have l4: "length b4 = 512" using boot_code_of_length [of boot] assms by (simp add: b4_def paste_def)
  have sig: "b4 ! 510 = 0x55" "b4 ! 511 = 0xAA"
    unfolding b4_def using boot_code_of_length [of boot] assms by (simp_all add: paste_def)
  have le: "length ?es = 4" by (simp add: mbr_install_entries_def Let_def)
  then have lp: "length (concat (map pte_bytes ?es)) = 64" using pte.array_length [of ?es] by simp
  show "mbr_install_sector boot guid p2 ! 510 = 0x55" "mbr_install_sector boot guid p2 ! 511 = 0xAA"
    using sig l4 lp by (simp_all add: s paste_nth)
  have "drop 446 (paste b4 446 (concat (map pte_bytes ?es))) = concat (map pte_bytes ?es) @ drop 510 b4"
    using l4 lp by (simp add: paste_def)
  then show "partitions (mbr_of_bytes (mbr_install_sector boot guid p2)) = ?es"
    using pte.array_roundtrip [of ?es "drop 510 b4"] le by (simp add: mbr_of_bytes_def s)
qed

lemma efi_sectors_val: "efi_sectors = 65536"
  by (simp add: efi_sectors_def const_defs)

lemma ucast_u32_u64: "x < 2 ^ 32 \<Longrightarrow> ucast (ucast (x :: u64) :: u32) = x"
proof -
  assume "x < 2 ^ 32"
  then have "unat x < 2 ^ 32" by (simp add: word_less_nat_alt)
  then have "unat (ucast (ucast x :: u32) :: u64) = unat x"
    by (simp add: unsigned_ucast_eq unsigned_take_bit_eq take_bit_nat_eq_self)
  then show ?thesis by (rule word_unat_eq_iff [THEN iffD2])
qed

lemma fill_mbr_chs_entry_fields [simp]:
  "pte_start_lba (fill_mbr_chs_entry e s c) = s" "pte_sector_count (fill_mbr_chs_entry e s c) = c"
  "pte_active (fill_mbr_chs_entry e s c) = pte_active e" "pte_fs_flag (fill_mbr_chs_entry e s c) = pte_fs_flag e"
  by (simp_all add: fill_mbr_chs_entry_def Let_def split: prod.splits)

lemma mbr_install_recognised:
  "partitions m = mbr_install_entries p2 \<Longrightarrow> mbr_recognised m \<and> \<not> is_gpt_protective m"
  by (simp add: mbr_recognised_def is_gpt_protective_def mbr_install_entries_def Let_def
      PART_TYPE_GPT_PROTECTIVE_def ucast_sub_u32 efi_sectors_val)

section \<open>A fresh MBR install is recognised\<close>

lemma mbr_install_detected:
  assumes wr: "write_mbr_f boot stage2 guid d sz reserve = Inr (d', p2)"
    and guid: "length guid = 16" and fits: "mbr_part2_start sz reserve < 2 ^ 32"
  shows "\<exists>m. mbr_read d' 0 = Inr m \<and> partitions m = mbr_install_entries (mbr_part2_start sz reserve) \<and>
     detect_choosable ver d' = rbind (ver d' p2) (\<lambda>v. Inr (True, v, Some p2, None, m))"
proof -
  let ?p = "mbr_part2_start sz reserve"
  let ?s = "mbr_install_sector boot guid ?p"
  from wr obtain d1 where w1: "disk_write d 0 ?s = Inr d1"
    and w2: "disk_write d1 512 (take (min (length stage2) (2047 * 512)) stage2) = Inr d'"
    and p2: "p2 = ?p * SECTOR_SIZE"
    by (auto simp: write_mbr_f_def Let_def rbind_Inr_iff unat_SECTOR_SIZE)
  have len: "length ?s = 512" by (rule mbr_install_sector_length [OF guid])
  have rd: "disk_read d' 0 512 = Inr ?s"
    using disk.read_same [OF w1] disk.read_before [OF w2, of 0 512] len by simp
  note sec = mbr_install_sector_read [OF guid, of boot ?p]
  have m: "mbr_read d' 0 = Inr (mbr_of_bytes ?s)"
    using rd sec(1,2) by (simp add: mbr_read_def)
  have rec: "mbr_recognised (mbr_of_bytes ?s)" "\<not> is_gpt_protective (mbr_of_bytes ?s)"
    using mbr_install_recognised [OF sec(3)] by simp_all
  have "pte_start_lba (partitions (mbr_of_bytes ?s) ! 1) = ucast ?p"
    by (simp add: sec(3) mbr_install_entries_def Let_def)
  then have "ucast (pte_start_lba (partitions (mbr_of_bytes ?s) ! 1)) * SECTOR_SIZE = p2"
    using ucast_u32_u64 [OF fits] p2 by simp
  with m rec have "detect_choosable ver d' =
      rbind (ver d' p2) (\<lambda>v. Inr (True, v, Some p2, None, mbr_of_bytes ?s))"
    by (simp add: detect_choosable_def Let_def)
  with m sec(3) show ?thesis by blast
qed

section \<open>A fresh GPT install is recognised\<close>

lemma cz_name_length [simp]: "length (make_cz_name n) = 36"
  by (simp add: make_cz_name_def min_def)

lemma gpt_install_placed:
  assumes "length dg = 16" "length g1 = 16" "length g2 = 16" and sz: "67 * 512 \<le> sz"
  shows "gpt_placed (gpt_install_info sz reserve dg g1 g2)"
proof -
  have e: "gpe_wf gpe_empty" by (simp add: gpe_wf_def gpe_empty_def)
  have n: "67 * 512 \<le> unat sz" using sz by (simp add: word_le_nat_alt)
  then have t: "67 \<le> unat (sz div 512)" by (simp add: unat_div)
  have u: "unat (sz div 512) < 2 ^ 55"
    using unsigned_less [of sz, where ?'a = nat] by (simp add: unat_div)
  have b: "66 \<le> sz div 512 - 1" "sz div 512 - 1 < 2 ^ 55"
    using t u by (simp_all add: word_le_nat_alt word_less_nat_alt unat_sub_no_wrap)
  show ?thesis
    using assms b e
    by (auto simp: gpt_placed_def gpt_install_info_def gpt_new_choosable_def Let_def gpt_wf_def
        mbr_wf_def mbr_new_empty_def hdr_wf_def hdr_new_def gpe_wf_def GPT_SIGNATURE_def
        GPT_TYPE_BASIC_DATA_def GPT_TYPE_EFI_SYSTEM_def SECTOR_SIZE_def
        dest!: set_update_subset_insert [THEN subsetD])
qed

lemma finalize_placed:
  assumes "finalize_gpt_crcs crc g = Some g'" and "gpt_placed g"
  shows "gpt_placed g'" "gpt_partitions g' = gpt_partitions g" "protective_mbr g' = protective_mbr g"
  using assms by (auto simp: finalize_gpt_crcs_def gpt_placed_def gpt_wf_def hdr_wf_def Let_def)

lemma gpt_boot_sector_read:
  assumes "length s = 512" and "length dg = 16"
  shows "length (gpt_boot_sector boot dg s) = 512"
    and "gpt_boot_sector boot dg s ! 510 = 0x55" "gpt_boot_sector boot dg s ! 511 = 0xAA"
    and "partitions (mbr_of_bytes (gpt_boot_sector boot dg s)) = partitions (mbr_of_bytes s)"
proof -
  define b3 where "b3 = paste (paste (paste s 0 (boot_code_of boot)) 384 dg) 440 (take 4 (drop 12 dg))"
  have l: "length b3 = 512" using assms boot_code_of_length [of boot] by (simp add: b3_def paste_def)
  have g: "gpt_boot_sector boot dg s = patch_lba (length (boot_code_of boot)) (with_signature b3)"
    by (simp add: gpt_boot_sector_def b3_def Let_def)
  note c = boot_code_of_length [of boot]
  show len: "length (gpt_boot_sector boot dg s) = 512" using l c by (simp add: g patch_lba_length)
  show "gpt_boot_sector boot dg s ! 510 = 0x55" "gpt_boot_sector boot dg s ! 511 = 0xAA"
    using l c by (simp_all add: g patch_lba_nth)
  show "partitions (mbr_of_bytes (gpt_boot_sector boot dg s)) = partitions (mbr_of_bytes s)"
  proof (rule mbr_of_bytes_table [OF len assms(1)])
    fix k :: nat assume k: "446 \<le> k" "k < 510"
    then have "gpt_boot_sector boot dg s ! k = b3 ! k" using l c by (simp add: g patch_lba_nth)
    also have "b3 ! k = s ! k" using k assms c by (simp add: b3_def paste_nth paste_length)
    finally show "gpt_boot_sector boot dg s ! k = s ! k" .
  qed
qed

lemma gpt_install_recognised:
  assumes "gpt_partitions g = gpt_partitions (gpt_install_info sz reserve dg g1 g2)"
  shows "gpt_recognised g" "gpe_start_lba (gpt_partitions g ! 1) = gpt_part2_start sz reserve"
    "gpe_attributes (gpt_partitions g ! 1) = GPT_ATTR_CZBLEFI"
  using assms by (simp_all add: gpt_recognised_def gpt_install_info_def gpt_new_choosable_def Let_def
      make_cz_name_def CZBLEFI_NAME_def)

lemma gpt_install_detected:
  assumes wr: "write_gpt_f crc boot stage2 dg g1 g2 d sz reserve = Some (Inr (d', p2))"
    and guids: "length dg = 16" "length g1 = 16" "length g2 = 16" and sz: "67 * 512 \<le> sz"
  shows "\<exists>m. mbr_read d' 0 = Inr m \<and> is_gpt_protective m \<and> p2 = gpt_part2_start sz reserve * SECTOR_SIZE \<and>
     detect_choosable ver d' =
       rbind (ver d' p2) (\<lambda>v. Inr (True, v, Some p2, Some GPT_ATTR_CZBLEFI, m))"
proof -
  let ?i = "gpt_install_info sz reserve dg g1 g2"
  from wr obtain g d1 d2 s where fin: "finalize_gpt_crcs crc ?i = Some g"
    and w2: "gpt_write_to_disk crc g d1 = Inr d2" and rs: "disk_read d2 0 512 = Inr s"
    and w3: "disk_write d2 0 (gpt_boot_sector boot dg s) = Inr d'"
    and p2: "p2 = gpt_part2_start sz reserve * SECTOR_SIZE"
    by (auto simp: write_gpt_f_def Let_def rbind_Inr_iff)
  note pl0 = gpt_install_placed [OF guids sz, of reserve]
  note fp = finalize_placed [OF fin pl0]
  note reg = gpt_write_regions [OF fp(1) w2]
  have s: "s = mbr_bytes (protective_mbr ?i)" using rs reg(1) fp(3) by simp
  have wfm: "mbr_wf (protective_mbr ?i)" using pl0 by (simp add: gpt_placed_def gpt_wf_def)
  have ls: "length s = 512" using s mbr_bytes_length [OF wfm] by simp
  note bs = gpt_boot_sector_read [OF ls guids(1), of boot]
  let ?m = "mbr_of_bytes (gpt_boot_sector boot dg s)"
  have m: "mbr_read d' 0 = Inr ?m"
    using disk.read_same [OF w3] bs(1,2,3) by (simp add: mbr_read_def)
  have "partitions ?m = partitions (protective_mbr ?i)"
    using bs(4) s mbr_decode_encode [OF wfm] by simp
  then have prot: "is_gpt_protective ?m"
    by (simp add: is_gpt_protective_def gpt_install_info_def gpt_new_choosable_def Let_def)
  have rd: "gpt_read_from_disk d' = Inr (g\<lparr>protective_mbr := ?m\<rparr>)"
    by (rule gpt_read_from_regions [OF m _ _ fp(1)])
       (use disk.read_after [OF w3] reg(2,3) bs(1) in auto)
  note rec = gpt_install_recognised [of "g\<lparr>protective_mbr := ?m\<rparr>" sz reserve dg g1 g2]
  show ?thesis
    using m prot rd rec fp(2) p2 by (auto simp: detect_choosable_def Let_def)
qed

end
