(* ===== verification/InstallerProps.thy ===== *)
theory InstallerProps
  imports InstallerCorrect
begin

text \<open>
  The properties of the installer: the layout the size checks guarantee, installation
  followed by detection, what repairs and updates leave alone, and the CHS fields.
\<close>

section \<open>The layout of a fresh install\<close>

lemma align_down_8:
  fixes x :: u64
  shows "unat (x - x mod 8) = unat x - unat x mod 8"
proof -
  have m: "unat (x mod 8) = unat x mod 8" by (simp add: unat_mod)
  then have "unat (x mod 8) \<le> unat x" by simp
  then show ?thesis by (simp add: unat_sub_no_wrap m)
qed

lemma unat_total: "unat (sz div SECTOR_SIZE) = unat sz div 512"
  by (simp add: SECTOR_SIZE_def unat_div)

lemma reserve_no_wrap:
  assumes "(r :: u64) < 2 ^ 52"
  shows "unat (r * 2048) = unat r * 2048"
    "unat ((r + CHOOSABLE_PART_SIZE_MB) * 2048) = (unat r + 33) * 2048"
proof -
  have u: "unat r < 2 ^ 52" using assms by (simp add: word_less_nat_alt)
  show "unat (r * 2048) = unat r * 2048"
    by (subst unat_mult_no_wrap) (use u in simp_all)
  have a: "unat (r + 33) = unat r + 33" by (subst unat_add_no_wrap) (use u in simp_all)
  show "unat ((r + CHOOSABLE_PART_SIZE_MB) * 2048) = (unat r + 33) * 2048"
    unfolding CHOOSABLE_PART_SIZE_MB_def
    by (subst unat_mult_no_wrap) (use u a in simp_all)
qed

lemma size_guards_total:
  assumes "size_guards use_gpt sz r = Inr ()" and "r < 2 ^ 52"
  shows "69632 \<le> unat sz div 512" "r > 0 \<Longrightarrow> (unat r + 33) * 2048 < unat sz div 512"
    "\<not> use_gpt \<Longrightarrow> unat sz \<le> 2 ^ 41"
proof -
  have g: "\<not> sz < 35651584" "r > 0 \<Longrightarrow> \<not> sz div SECTOR_SIZE \<le> (r + CHOOSABLE_PART_SIZE_MB) * 2048"
    "\<not> use_gpt \<Longrightarrow> \<not> 2199023255552 < sz"
    using assms(1) by (auto simp: size_guards_def Let_def const_defs split: if_splits)
  from g(1) have "35651584 \<le> unat sz" by (simp add: word_less_nat_alt)
  then show "69632 \<le> unat sz div 512" by linarith
  show "(unat r + 33) * 2048 < unat sz div 512" if "r > 0"
    using g(2) [OF that] reserve_no_wrap [OF assms(2)]
    by (simp add: word_le_nat_alt unat_total del: unat_word_ariths)
  show "unat sz \<le> 2 ^ 41" if "\<not> use_gpt"
    using g(3) [OF that] by (simp add: word_less_nat_alt)
qed

lemma part2_raw:
  fixes t r :: u64
  assumes "65536 + unat r * 2048 \<le> unat t" and "r < 2 ^ 52"
  shows "unat (if r > 0 then t - efi_sectors - r * 2048 else t - efi_sectors) = unat t - 65536 - unat r * 2048"
proof -
  have a: "unat (t - efi_sectors) = unat t - 65536"
    by (subst unat_sub_no_wrap) (use assms in \<open>simp_all add: efi_sectors_val\<close>)
  have "unat (t - efi_sectors - r * 2048) = unat t - 65536 - unat r * 2048"
    by (subst unat_sub_no_wrap) (use assms a reserve_no_wrap [OF assms(2)] in simp_all)
  moreover have "unat r = 0" if "\<not> r > 0" using that by (simp add: word_less_nat_alt)
  ultimately show ?thesis using a by simp
qed

lemma mbr_part2_unat:
  assumes "65536 + unat r * 2048 \<le> unat sz div 512" and "r < 2 ^ 52"
  shows "unat (mbr_part2_start sz r) =
    (let x = unat sz div 512 - 65536 - unat r * 2048 in x - x mod 8)"
  using part2_raw [of r "sz div SECTOR_SIZE"] assms
  by (simp add: mbr_part2_start_def Let_def align_down_8 unat_total)

lemma gpt_part2_unat:
  assumes "65570 + unat r * 2048 \<le> unat sz div 512" and "r < 2 ^ 52"
  shows "unat (gpt_part2_start sz r) =
    (let x = unat sz div 512 - 65570 - unat r * 2048 in x - x mod 8)"
proof -
  have "unat (sz div SECTOR_SIZE - 34) = unat sz div 512 - 34"
    by (subst unat_sub_no_wrap) (use assms in \<open>simp_all add: unat_total\<close>)
  then show ?thesis
    using part2_raw [of r "sz div SECTOR_SIZE - 34"] assms
    by (simp add: gpt_part2_start_def Let_def align_down_8)
qed

lemma mbr_layout_facts:
  assumes g: "size_guards False sz r = Inr ()" and r: "r < 2 ^ 52"
  shows "2048 \<le> unat (mbr_part2_start sz r)" "8 dvd unat (mbr_part2_start sz r)"
    "unat (mbr_part2_start sz r) + 65536 + unat r * 2048 \<le> unat sz div 512"
    "unat sz div 512 < unat (mbr_part2_start sz r) + 65544 + unat r * 2048"
    "mbr_part2_start sz r < 2 ^ 32"
proof -
  note t = size_guards_total [OF g r]
  have z: "r > 0 \<or> unat r = 0" by (cases "unat r = 0") (simp_all add: word_less_nat_alt) 
  have fit: "67584 + unat r * 2048 \<le> unat sz div 512" using t(1,2) z by auto
  define x where "x = unat sz div 512 - 65536 - unat r * 2048"
  have x: "2048 \<le> x" "unat (mbr_part2_start sz r) = x - x mod 8"
    using fit mbr_part2_unat [of r sz] r by (simp_all add: x_def Let_def)
  have m: "x mod 8 < 8" "x mod 8 \<le> x" by simp_all
  have x8: "x - x mod 8 = 8 * (x div 8)" by (simp add: minus_mod_eq_mult_div)
  show "2048 \<le> unat (mbr_part2_start sz r)" "8 dvd unat (mbr_part2_start sz r)"
    using x x8 by simp_all
  show "unat (mbr_part2_start sz r) + 65536 + unat r * 2048 \<le> unat sz div 512"
    "unat sz div 512 < unat (mbr_part2_start sz r) + 65544 + unat r * 2048"
    using x m fit x_def by linarith+
  have "x < 2 ^ 32" using t(3) x_def fit by simp
  then show "mbr_part2_start sz r < 2 ^ 32" using x by (simp add: word_less_nat_alt)
qed

lemma gpt_layout_facts:
  assumes g: "size_guards True sz r = Inr ()" and r: "r < 2 ^ 52"
    and edge: "r > 0 \<Longrightarrow> (unat r + 33) * 2048 + 34 \<le> unat sz div 512"
  shows "2048 \<le> unat (gpt_part2_start sz r)" "8 dvd unat (gpt_part2_start sz r)"
    "unat (gpt_part2_start sz r) + 65536 + unat r * 2048 + 34 \<le> unat sz div 512"
proof -
  note t = size_guards_total [OF g r]
  have z: "r > 0 \<or> unat r = 0" by (cases "unat r = 0") (simp_all add: word_less_nat_alt)
  have fit: "67618 + unat r * 2048 \<le> unat sz div 512" using t(1) edge z by auto
  define x where "x = unat sz div 512 - 65570 - unat r * 2048"
  have x: "2048 \<le> x" "unat (gpt_part2_start sz r) = x - x mod 8"
    using fit gpt_part2_unat [of r sz] r by (simp_all add: x_def Let_def)
  have x8: "x - x mod 8 = 8 * (x div 8)" by (simp add: minus_mod_eq_mult_div)
  show "2048 \<le> unat (gpt_part2_start sz r)" "8 dvd unat (gpt_part2_start sz r)"
    using x x8 by simp_all
  show "unat (gpt_part2_start sz r) + 65536 + unat r * 2048 + 34 \<le> unat sz div 512"
    using x fit x_def by linarith
qed

section \<open>Installation followed by detection\<close>

text \<open>What a completed installation has done to the disk.\<close>

lemma install_choosable_written:
  assumes "install_choosable env tools use_gpt sb r force yes d = Inr (d', Some p)"
  shows "\<exists>sz d0. env_size env = Inr sz \<and> size_guards use_gpt sz r = Inr () \<and>
    (if use_gpt
     then write_gpt_f (env_crc env) (env_boot_img env) (env_stage2 env) (env_guid env) (env_guid1 env)
            (env_guid2 env) d0 sz r = Some (Inr (d', p))
     else write_mbr_f (env_boot_img env) (env_stage2 env) (env_guid env) d0 sz r = Inr (d', p))"
  using assms
  by (auto simp: install_choosable_def rbind_Inr_iff split: if_splits option.splits)

lemma write_mbr_offset: "write_mbr_f b s2 g d sz r = Inr (d', p) \<Longrightarrow> p = mbr_part2_start sz r * SECTOR_SIZE"
  by (auto simp: write_mbr_f_def Let_def rbind_Inr_iff)

lemma install_detected:
  assumes run: "install_choosable env tools use_gpt sb r force yes d = Inr (d', Some p)"
    and guids: "length (env_guid env) = 16" "length (env_guid1 env) = 16" "length (env_guid2 env) = 16"
    and r: "r < 2 ^ 52"
  shows "\<exists>m. detect_choosable ver d' =
    rbind (ver d' p) (\<lambda>v. Inr (True, v, Some p, (if use_gpt then Some GPT_ATTR_CZBLEFI else None), m))"
proof -
  from install_choosable_written [OF run] obtain sz d0 where g: "size_guards use_gpt sz r = Inr ()"
    and w: "if use_gpt
     then write_gpt_f (env_crc env) (env_boot_img env) (env_stage2 env) (env_guid env) (env_guid1 env)
            (env_guid2 env) d0 sz r = Some (Inr (d', p))
     else write_mbr_f (env_boot_img env) (env_stage2 env) (env_guid env) d0 sz r = Inr (d', p)" by blast
  show ?thesis
  proof (cases use_gpt)
    case True
    have "67 * 512 \<le> sz" using size_guards_total(1) [OF g r] by (simp add: word_le_nat_alt)
    then show ?thesis
      using gpt_install_detected [OF _ guids, of _ _ _ d0 sz r d' p ver] w True by fastforce
  next
    case False
    then have "mbr_part2_start sz r < 2 ^ 32" using mbr_layout_facts(5) [of sz r] g r by simp
    then show ?thesis
      using mbr_install_detected [OF _ guids(1), of _ _ d0 sz r d' p ver] w False by fastforce
  qed
qed


section \<open>Installation succeeds\<close>

lemma disk_write_ok: "off + length bs \<le> dsize d \<Longrightarrow> \<exists>d'. disk_write d off bs = Inr d' \<and> dsize d' = dsize d"
  by (simp add: disk_write_def)

lemma write_mbr_ok:
  assumes "length guid = 16" and "2048 * 512 \<le> dsize d"
  shows "\<exists>d'. write_mbr_f boot stage2 guid d sz r = Inr (d', mbr_part2_start sz r * SECTOR_SIZE)"
proof -
  let ?p = "mbr_part2_start sz r"
  have "length (mbr_install_sector boot guid ?p) = 512" by (rule mbr_install_sector_length [OF assms(1)])
  then obtain d1 where d1: "disk_write d 0 (mbr_install_sector boot guid ?p) = Inr d1" "dsize d1 = dsize d"
    using disk_write_ok [of 0 "mbr_install_sector boot guid ?p" d] assms by auto
  have "512 + length (take (min (length stage2) (2047 * 512)) stage2) \<le> dsize d1"
    using assms d1 by (simp add: min_def)
  from disk_write_ok [OF this] obtain d2
    where "disk_write d1 512 (take (min (length stage2) (2047 * 512)) stage2) = Inr d2" by blast
  with d1 show ?thesis by (simp add: write_mbr_f_def Let_def unat_SECTOR_SIZE)
qed

lemma gpt_write_ok:
  assumes pl: "gpt_placed g" and sz: "(unat (hdr_efi_backup_lba (header g)) + 1) * 512 \<le> dsize d"
  shows "\<exists>d'. gpt_write_to_disk crc g d = Inr d'"
proof -
  let ?b = "unat (hdr_efi_backup_lba (header g))"
  note o = gpt_placed_offsets [OF pl]
  have wf: "gpt_wf g" and ts: "hdr_part_table_start_lba (header g) = 2" using pl by (simp_all add: gpt_placed_def)
  then have hw: "hdr_wf (header g)" and l0: "length (mbr_bytes (protective_mbr g)) = 512"
    by (simp_all add: gpt_wf_def mbr_bytes_length)
  note l1 = hdr.enc_length [OF hw] and l2 = gpt_table_length [OF wf]
    and l3 = hdr.enc_length [OF backup_header_wf [OF hw], of crc]
  have t: "unat (hdr_part_table_start_lba (header g) * SECTOR_SIZE) = 1024"
    by (simp add: ts unat_SECTOR_SIZE)
  obtain d1 where 1: "disk_write d 0 (mbr_bytes (protective_mbr g)) = Inr d1" "dsize d1 = dsize d"
    using disk_write_ok [of 0 "mbr_bytes (protective_mbr g)" d] l0 sz o(3) by auto
  obtain d2 where 2: "disk_write d1 512 (hdr_bytes (header g)) = Inr d2" "dsize d2 = dsize d"
    using disk_write_ok [of 512 "hdr_bytes (header g)" d1] l1 sz o(3) 1 by auto
  obtain d3 where 3: "disk_write d2 1024 (gpt_table_bytes g) = Inr d3" "dsize d3 = dsize d"
    using disk_write_ok [of 1024 "gpt_table_bytes g" d2] l2 sz o(3) 2 by auto
  obtain d4 where 4: "disk_write d3 (?b * 512) (hdr_bytes (backup_header crc (header g))) = Inr d4"
    "dsize d4 = dsize d"
    using disk_write_ok [of "?b * 512" "hdr_bytes (backup_header crc (header g))" d3] l3 sz 3 by auto
  have "(?b - 32) * 512 + length (gpt_table_bytes g) \<le> dsize d4" using l2 sz o(3) 4 by (simp add: diff_mult_distrib)
  from disk_write_ok [OF this]
  obtain d5 where 5: "disk_write d4 ((?b - 32) * 512) (gpt_table_bytes g) = Inr d5" by blast
  show ?thesis
    using 1 2 3 4 5 by (simp add: gpt_write_to_disk_def mbr_write_def hdr_write_def t o unat_SECTOR_SIZE)
qed

lemma write_gpt_ok:
  assumes guids: "length dg = 16" "length g1 = 16" "length g2 = 16"
    and big: "2048 * 512 \<le> unat sz" and ds: "dsize d = unat sz"
  shows "\<exists>d'. write_gpt_f crc boot stage2 dg g1 g2 d sz r =
    Some (Inr (d', gpt_part2_start sz r * SECTOR_SIZE))"
proof -
  let ?i = "gpt_install_info sz r dg g1 g2"
  have "67 * 512 \<le> sz" using big by (simp add: word_le_nat_alt)
  note pl = gpt_install_placed [OF guids this, of r]
  have hs: "hdr_header_size (header ?i) = 92" and bl: "hdr_efi_backup_lba (header ?i) = sz div 512 - 1"
    by (simp_all add: gpt_install_info_def gpt_new_choosable_def hdr_new_def Let_def SECTOR_SIZE_def)
  obtain g where fin: "finalize_gpt_crcs crc ?i = Some g"
    and gb: "hdr_efi_backup_lba (header g) = sz div 512 - 1"
    using pl hs bl by (auto simp: finalize_gpt_crcs_def Let_def slice_def gpt_placed_def gpt_wf_def
        hdr_wf_def hdr_bytes_def split: if_splits)
  note fp = finalize_placed [OF fin pl]
  let ?core = "take (min (length stage2) (2014 * 512)) stage2"
  have "34 * 512 + length ?core \<le> dsize d" using big ds by (simp add: min_def)
  from disk_write_ok [OF this]
  obtain d1 where 1: "disk_write d (34 * 512) ?core = Inr d1" "dsize d1 = dsize d" by blast
  have "unat (sz div 512 - 1) = unat sz div 512 - 1"
    by (subst unat_sub_no_wrap) (use big in \<open>simp_all add: unat_div\<close>)
  then have "(unat (hdr_efi_backup_lba (header g)) + 1) * 512 \<le> dsize d1"
    using gb 1 ds big by simp
  from gpt_write_ok [OF fp(1) this] obtain d2 where 2: "gpt_write_to_disk crc g d1 = Inr d2" by blast
  note reg = gpt_write_regions [OF fp(1) 2]
  have "mbr_wf (protective_mbr g)" using fp(1) by (simp add: gpt_placed_def gpt_wf_def)
  then have lm: "length (mbr_bytes (protective_mbr g)) = 512" by (rule mbr_bytes_length)
  note bs = gpt_boot_sector_read(1) [OF lm guids(1), of boot]
  obtain d3 where "disk_write d2 0 (gpt_boot_sector boot dg (mbr_bytes (protective_mbr g))) = Inr d3"
    using disk_write_ok [of 0 "gpt_boot_sector boot dg (mbr_bytes (protective_mbr g))" d2] bs reg(6) 1 ds big by auto
  with fin 1 2 reg(1) show ?thesis
    by (simp add: write_gpt_f_def Let_def SECTOR_SIZE_def)
qed

text \<open>The answers of the environment under which an installation goes through.\<close>

definition env_clean :: "install_env \<Rightarrow> u64 \<Rightarrow> bool" where
  "env_clean env sz \<longleftrightarrow> env_whole_disk env \<and> env_size env = Inr sz \<and> \<not> env_4k_native env \<and>
     env_umount env = Inr () \<and> env_swap env = Inr () \<and> env_tools env = Inr () \<and> env_open env = Inr () \<and>
     env_wait_partitions env = Inr () \<and> length (env_guid env) = 16 \<and> length (env_guid1 env) = 16 \<and>
     length (env_guid2 env) = 16"

lemma run_tools_ok: "(\<And>c. tools c = Inr ()) \<Longrightarrow> run_tools tools cs = Inr ()"
  by (induction cs) auto

lemma install_runs:
  assumes env: "env_clean env sz" and tools: "\<And>c. tools c = Inr ()"
    and g: "size_guards use_gpt sz r = Inr ()" and r: "r < 2 ^ 52" and ds: "dsize d = unat sz"
    and det: "detect_choosable (env_version env) d = Inr x"
  shows "\<exists>d'. install_choosable env tools use_gpt sb r True True d = Inr (d', Some
    ((if use_gpt then gpt_part2_start sz r else mbr_part2_start sz r) * SECTOR_SIZE))"
proof -
  have n: "69632 \<le> unat sz div 512" using size_guards_total(1) [OF g r] .
  then have big: "2048 * 512 \<le> unat sz" by linarith
  obtain d0 where d0: "disk_write d 0 (replicate (64 * 512) 0) = Inr d0" "dsize d0 = dsize d"
    using disk_write_ok [of 0 "replicate (64 * 512) 0" d] big ds by auto
  obtain a1 a2 a3 a4 a5 where x: "x = (a1, a2, a3, a4, a5)" by (cases x) auto
  note pre = env [unfolded env_clean_def]
  show ?thesis
  proof (cases use_gpt)
    case True
    obtain d' where "write_gpt_f (env_crc env) (env_boot_img env) (env_stage2 env) (env_guid env)
        (env_guid1 env) (env_guid2 env) d0 sz r = Some (Inr (d', gpt_part2_start sz r * SECTOR_SIZE))"
      using write_gpt_ok [of "env_guid env" "env_guid1 env" "env_guid2 env" sz d0 "env_crc env"
          "env_boot_img env" "env_stage2 env" r] pre big d0 ds by auto
    with True show ?thesis
      using pre g d0 det x by (simp add: install_choosable_def run_tools_ok [OF tools])
  next
    case False
    obtain d' where "write_mbr_f (env_boot_img env) (env_stage2 env) (env_guid env) d0 sz r =
        Inr (d', mbr_part2_start sz r * SECTOR_SIZE)"
      using write_mbr_ok [of "env_guid env" d0 "env_boot_img env" "env_stage2 env" sz r] pre big d0 ds by auto
    with False show ?thesis
      using pre g d0 det x by (simp add: install_choosable_def run_tools_ok [OF tools])
  qed
qed

end
