(* ===== verification/InstallerUpdate.thy ===== *)
theory InstallerUpdate
  imports InstallerProps
begin

text \<open>
  What the update path leaves alone: the frame of each raw write, the repair of the GPT
  attributes, and the fields of a new EFI partition.
\<close>

section \<open>Frames of raw writes\<close>

definition same_outside :: "vdisk \<Rightarrow> vdisk \<Rightarrow> nat set \<Rightarrow> bool" where
  "same_outside d d' W \<longleftrightarrow> dsize d' = dsize d \<and> (\<forall>i. i \<notin> W \<longrightarrow> dbytes d' i = dbytes d i)"

lemma same_outside_refl [simp]: "same_outside d d W"
  by (simp add: same_outside_def)

lemma same_outside_trans:
  "same_outside d d1 V \<Longrightarrow> same_outside d1 d2 W \<Longrightarrow> same_outside d d2 (V \<union> W)"
  by (simp add: same_outside_def)

lemma same_outside_mono: "same_outside d d' V \<Longrightarrow> V \<subseteq> W \<Longrightarrow> same_outside d d' W"
  by (auto simp: same_outside_def)

lemma disk_write_frame: "disk_write d off bs = Inr d' \<Longrightarrow> same_outside d d' {off..<off + length bs}"
  by (auto simp: disk_write_def same_outside_def split: if_splits)

lemma disk_read_frame:
  "same_outside d d' W \<Longrightarrow> \<forall>i. a \<le> i \<and> i < a + n \<longrightarrow> i \<notin> W \<Longrightarrow> disk_read d' a n = disk_read d a n"
  by (auto simp: same_outside_def disk_read_def)

lemma disk_write_restore:
  assumes "disk_read d off n = Inr bs" and "disk_write d1 off bs = Inr d'" and "off \<le> i" "i < off + n"
  shows "dbytes d' i = dbytes d i"
  using assms by (auto simp: disk_read_def disk_write_def split: if_splits)

lemma disk_read_nth: "disk_read d off n = Inr bs \<Longrightarrow> i < n \<Longrightarrow> bs ! i = dbytes d (off + i)"
  by (auto simp: disk_read_def simp del: upt_rec_numeral split: if_splits)

text \<open>A write over unchanged bytes is a no-op.\<close>

lemma disk_write_same:
  assumes "disk_read d off n = Inr bs" and "disk_write d off bs = Inr d'"
  shows "d' = d"
proof -
  have "n = length bs" "dsize d' = dsize d" "dbytes d' = dbytes d"
    using assms by (auto simp: disk_read_def disk_write_def fun_eq_iff split: if_splits)
  then show ?thesis by simp
qed

lemma gpt_write_frame:
  assumes pl: "gpt_placed g" and wr: "gpt_write_to_disk crc g d = Inr d'"
  shows "same_outside d d' ({0..<17408} \<union> {(unat (hdr_efi_backup_lba (header g)) - 32) * 512..})"
proof -
  let ?b = "unat (hdr_efi_backup_lba (header g))"
  note o = gpt_placed_offsets [OF pl]
  have wf: "gpt_wf g" and ts: "hdr_part_table_start_lba (header g) = 2" using pl by (simp_all add: gpt_placed_def)
  then have hw: "hdr_wf (header g)" and l0: "length (mbr_bytes (protective_mbr g)) = 512"
    by (simp_all add: gpt_wf_def mbr_bytes_length)
  note l1 = hdr.enc_length [OF hw] and l2 = gpt_table_length [OF wf]
    and l3 = hdr.enc_length [OF backup_header_wf [OF hw], of crc]
  from wr obtain d1 d2 d3 d4 where
    w: "disk_write d 0 (mbr_bytes (protective_mbr g)) = Inr d1"
    "disk_write d1 512 (hdr_bytes (header g)) = Inr d2"
    "disk_write d2 1024 (gpt_table_bytes g) = Inr d3"
    "disk_write d3 (?b * 512) (hdr_bytes (backup_header crc (header g))) = Inr d4"
    "disk_write d4 ((?b - 32) * 512) (gpt_table_bytes g) = Inr d'"
    by (auto simp: gpt_write_to_disk_def mbr_write_def hdr_write_def rbind_Inr_iff o ts unat_SECTOR_SIZE)
  note f = disk_write_frame [OF w(1)] disk_write_frame [OF w(2)] disk_write_frame [OF w(3)]
    disk_write_frame [OF w(4)] disk_write_frame [OF w(5)]
  show ?thesis
    by (rule same_outside_mono [OF same_outside_trans [OF same_outside_trans [OF same_outside_trans
          [OF same_outside_trans [OF f(1,2)] f(3)] f(4)] f(5)]])
       (use l0 l1 l2 l3 o(3) in auto)
qed

section \<open>A GPT read depends on the first 34 sectors\<close>

lemma gpt_read_entries_frame:
  assumes "same_outside d d' W" and "\<forall>i. 512 \<le> i \<and> i < 17408 \<longrightarrow> i \<notin> W"
  shows "i + n \<le> 128 \<Longrightarrow> gpt_read_entries d' 1024 128 i n = gpt_read_entries d 1024 128 i n"
proof (induction n arbitrary: i)
  case 0
  then show ?case by simp
next
  case (Suc n)
  have "disk_read d' (1024 + i * 128) 128 = disk_read d (1024 + i * 128) 128"
    by (rule disk_read_frame [OF assms(1)]) (use assms(2) Suc in auto)
  then show ?case using Suc gpt_entry_offset [of i] by simp
qed

lemma gpt_read_other_mbr:
  assumes rd: "gpt_read_from_disk d = Inr g" and pl: "gpt_placed g"
    and fr: "same_outside d d' W" and W: "\<forall>i. 512 \<le> i \<and> i < 17408 \<longrightarrow> i \<notin> W" and m: "mbr_read d' 0 = Inr p"
  shows "gpt_read_from_disk d' = Inr (g\<lparr>protective_mbr := p\<rparr>)"
proof -
  have s: "hdr_part_table_start_lba (header g) = 2" "hdr_part_table_entry_size (header g) = 128"
    using pl by (simp_all add: gpt_placed_def)
  have r1: "disk_read d' 512 512 = disk_read d 512 512"
    by (rule disk_read_frame [OF fr]) (use W in auto)
  have e: "gpt_read_entries d' 1024 128 0 128 = gpt_read_entries d 1024 128 0 128"
    by (rule gpt_read_entries_frame [OF fr W]) simp
  from rd obtain q h es where h: "hdr_read d 512 = Inr h"
    and es: "gpt_read_entries d (hdr_part_table_start_lba h * SECTOR_SIZE)
      (ucast (hdr_part_table_entry_size h)) 0 128 = Inr es"
    and g: "g = \<lparr>protective_mbr = q, header = h, gpt_partitions = es\<rparr>"
    by (auto simp: gpt_read_from_disk_def rbind_Inr_iff Let_def unat_SECTOR_SIZE simp del: gpt_read_entries.simps)
  have es': "gpt_read_entries d 1024 128 0 128 = Inr es"
    using es s g by (simp add: SECTOR_SIZE_def del: gpt_read_entries.simps)
  have h': "hdr_read d' 512 = Inr h" using h by (simp add: hdr_read_def r1)
  show ?thesis
    using m h' e es' s g
    by (simp add: gpt_read_from_disk_def unat_SECTOR_SIZE(1) Let_def del: gpt_read_entries.simps)
       (simp add: SECTOR_SIZE_def del: gpt_read_entries.simps)
qed

lemma gpt_read_mbr: "gpt_read_from_disk d = Inr g \<Longrightarrow> mbr_read d 0 = Inr (protective_mbr g)"
  by (auto simp: gpt_read_from_disk_def rbind_Inr_iff Let_def simp del: gpt_read_entries.simps)

lemma gpt_read_frame:
  assumes rd: "gpt_read_from_disk d = Inr g" and pl: "gpt_placed g"
    and fr: "same_outside d d' W" and W: "\<forall>i<17408. i \<notin> W"
  shows "gpt_read_from_disk d' = Inr g"
proof -
  have "disk_read d' 0 512 = disk_read d 0 512"
    by (rule disk_read_frame [OF fr]) (use W in auto)
  then have "mbr_read d' 0 = Inr (protective_mbr g)" using gpt_read_mbr [OF rd] by (simp add: mbr_read_def)
  from gpt_read_other_mbr [OF rd pl fr _ this] W show ?thesis by simp
qed

section \<open>Repairing the attributes\<close>

lemma repaired_gpt_placed:
  assumes "gpt_placed g"
  shows "gpt_placed (repaired_gpt g)"
    and "hdr_efi_backup_lba (header (repaired_gpt g)) = hdr_efi_backup_lba (header g)"
    and "boot_code (protective_mbr (repaired_gpt g)) = boot_code (protective_mbr g)"
    and "is_czblefi (gpt_partitions g ! 1) \<Longrightarrow>
      gpt_partitions (repaired_gpt g) = (gpt_partitions g)[1 := (gpt_partitions g ! 1)\<lparr>gpe_attributes := GPT_ATTR_CZBLEFI\<rparr>]"
    and "is_czblefi (gpt_partitions g ! 1) \<Longrightarrow> \<not> attributes_need_rewrite (repaired_gpt g)"
proof -
  have l: "length (gpt_partitions g) = 128" "length (partitions (protective_mbr g)) = 4"
    and wf: "\<forall>e\<in>set (gpt_partitions g). gpe_wf e"
    using assms by (simp_all add: gpt_placed_def gpt_wf_def mbr_wf_def)
  have e: "gpe_wf (gpt_partitions g ! 1)" using wf l by simp
  show "gpt_placed (repaired_gpt g)"
    using assms e l wf
    by (auto simp: gpt_placed_def gpt_wf_def mbr_wf_def repaired_gpt_def Let_def gpe_wf_def
        dest!: set_update_subset_insert [THEN subsetD])
  show "hdr_efi_backup_lba (header (repaired_gpt g)) = hdr_efi_backup_lba (header g)"
    "boot_code (protective_mbr (repaired_gpt g)) = boot_code (protective_mbr g)"
    by (simp_all add: repaired_gpt_def Let_def)
  assume c: "is_czblefi (gpt_partitions g ! 1)"
  show p: "gpt_partitions (repaired_gpt g) =
      (gpt_partitions g)[1 := (gpt_partitions g ! 1)\<lparr>gpe_attributes := GPT_ATTR_CZBLEFI\<rparr>]"
  proof (cases "gpe_attributes (gpt_partitions g ! 1) = GPT_ATTR_CZBLEFI")
    case True
    then have "(gpt_partitions g ! 1)\<lparr>gpe_attributes := GPT_ATTR_CZBLEFI\<rparr> = gpt_partitions g ! 1"
      by (cases "gpt_partitions g ! 1") simp
    then have "(gpt_partitions g)[1 := (gpt_partitions g ! 1)\<lparr>gpe_attributes := GPT_ATTR_CZBLEFI\<rparr>] =
        gpt_partitions g"
      by (metis list_update_id)
    with True show ?thesis by (simp add: repaired_gpt_def Let_def)
  qed (use c in \<open>simp add: repaired_gpt_def Let_def\<close>)
  have "partitions (protective_mbr (repaired_gpt g)) ! 0 = (partitions (protective_mbr g) ! 0)
      \<lparr>pte_fs_flag := PART_TYPE_GPT_PROTECTIVE, pte_start_lba := 1, pte_sector_count := 0xFFFFFFFF\<rparr>"
    using l by (auto simp: repaired_gpt_def Let_def)
  then show "\<not> attributes_need_rewrite (repaired_gpt g)"
    using p l by (simp add: attributes_need_rewrite_def Let_def)
qed

text \<open>The header but for its two checksums.\<close>

definition unsummed :: "gpt_header \<Rightarrow> gpt_header" where
  "unsummed h = h\<lparr>hdr_header_crc32 := 0, hdr_part_table_crc32 := 0\<rparr>"

lemma finalize_header_kept:
  assumes "finalize_gpt_crcs crc g = Some g'"
  shows "hdr_efi_backup_lba (header g') = hdr_efi_backup_lba (header g)" "unsummed (header g') = unsummed (header g)"
  using assms by (auto simp: finalize_gpt_crcs_def Let_def unsummed_def)

text \<open>What an update may change in what a GPT reads as: the checksums, the attributes of entry 1, and the MBR but for its
  entries 1 to 3.\<close>

definition gpt_kept :: "gpt_info \<Rightarrow> gpt_info \<Rightarrow> bool" where
  "gpt_kept g g' \<longleftrightarrow> unsummed (header g') = unsummed (header g) \<and>
     gpt_partitions g' = (gpt_partitions g)[1 := (gpt_partitions g ! 1)\<lparr>gpe_attributes := gpe_attributes (gpt_partitions g' ! 1)\<rparr>] \<and>
     drop 1 (partitions (protective_mbr g')) = drop 1 (partitions (protective_mbr g))"

lemma entry_same: "xs = xs[i := (xs ! i)\<lparr>gpe_attributes := gpe_attributes (xs ! i)\<rparr>]"
  by simp

lemma gpt_kept_refl: "gpt_kept g g"
  by (simp add: gpt_kept_def)

lemma repaired_gpt_kept:
  assumes "gpt_placed g"
  shows "gpt_kept g (repaired_gpt g)"
proof -
  have "length (gpt_partitions g) = 128" using assms by (simp add: gpt_placed_def gpt_wf_def)
  then show ?thesis by (auto simp: gpt_kept_def repaired_gpt_def Let_def)
qed

lemma boot_code_read:
  "gpt_read_from_disk d = Inr g \<Longrightarrow> disk_read d 0 446 = Inr saved \<Longrightarrow> boot_code (protective_mbr g) = saved"
proof -
  assume g: "gpt_read_from_disk d = Inr g" and s: "disk_read d 0 446 = Inr saved"
  from g obtain buf where "disk_read d 0 512 = Inr buf" "protective_mbr g = mbr_of_bytes buf"
    by (auto simp: gpt_read_from_disk_def mbr_read_def rbind_Inr_iff Let_def split: if_splits)
  with s disk.read_sub [of d 0 512 buf 0 446] show ?thesis by (simp add: mbr_of_bytes_def)
qed

lemma fix_gpt_effect:
  assumes rd: "gpt_read_from_disk d = Inr g" and pl: "gpt_placed g"
    and fx: "fix_gpt_attributes crc d = Some (Inr d')"
  shows "if attributes_need_rewrite g
    then \<exists>g'. gpt_read_from_disk d' = Inr g' \<and> gpt_placed g' \<and>
           gpt_partitions g' = gpt_partitions (repaired_gpt g) \<and>
           protective_mbr g' = protective_mbr (repaired_gpt g) \<and>
           hdr_efi_backup_lba (header g') = hdr_efi_backup_lba (header g) \<and> gpt_kept g g' \<and>
           disk_read d' 0 446 = disk_read d 0 446 \<and>
           same_outside d d' ({0..<17408} \<union> {(unat (hdr_efi_backup_lba (header g)) - 32) * 512..})
    else d' = d"
proof (cases "attributes_need_rewrite g")
  case True
  from fx rd True obtain saved g' d1 where sv: "disk_read d 0 446 = Inr saved"
    and fin: "finalize_gpt_crcs crc (repaired_gpt g) = Some g'"
    and w1: "gpt_write_to_disk crc g' d = Inr d1" and w2: "disk_write d1 0 saved = Inr d'"
    by (auto simp: fix_gpt_attributes_def rbind_Inr_iff split: sum.splits)
  note fp = finalize_placed [OF fin repaired_gpt_placed(1) [OF pl]]
  have wf: "mbr_wf (protective_mbr g')" using fp(1) by (simp add: gpt_placed_def gpt_wf_def)
  have bc: "boot_code (protective_mbr g') = saved"
    using fp(3) repaired_gpt_placed(3) [OF pl] boot_code_read [OF rd sv] by simp
  have "disk_read d1 (0 + 0) 446 = Inr (take 446 (drop 0 (mbr_bytes (protective_mbr g'))))"
    by (rule disk.read_sub [OF gpt_write_regions(1) [OF fp(1) w1]]) simp
  also have "\<dots> = Inr saved" using wf bc by (simp add: mbr_bytes_def mbr_wf_def)
  finally have r446: "disk_read d1 0 446 = Inr saved" by simp
  from disk_write_same [OF r446 w2] have "d' = d1" .
  moreover have "gpt_kept g g'"
    using repaired_gpt_kept [OF pl] fp(2,3) finalize_header_kept(2) [OF fin] by (simp add: gpt_kept_def)
  ultimately show ?thesis
    using True gpt_read_write [OF fp(1) w1] fp gpt_write_frame [OF fp(1) w1] r446 sv
      finalize_header_kept(1) [OF fin] repaired_gpt_placed(2) [OF pl] by auto
next
  case False
  with fx rd show ?thesis by (simp add: fix_gpt_attributes_def)
qed

section \<open>Updating the boot code\<close>

lemma update_stage2_frame:
  assumes "update_stage2 stage2 d m = Inr d'"
  shows "same_outside d d' (if is_gpt_protective m then {17408..<2048 * 512}
    else {446, 462} \<union> {512..<2048 * 512})"
proof (cases "is_gpt_protective m")
  case True
  then have w: "disk_write d 17408 (take (min (length stage2) (2014 * 512)) stage2) = Inr d'"
    using assms by (simp add: update_stage2_def)
  show ?thesis
    using same_outside_mono [OF disk_write_frame [OF w], of "{17408..<2048 * 512}"] True by auto
next
  case False
  then obtain d2 where a: "(if part1_active m = 0x00 \<and> part2_active m = 0x80
      then rbind (disk_write d 446 [PART_ACTIVE]) (\<lambda>d1. disk_write d1 462 [PART_INACTIVE]) else Inr d) = Inr d2"
    and w: "disk_write d2 512 (take (min (length stage2) (2047 * 512)) stage2) = Inr d'"
    using assms by (auto simp: update_stage2_def rbind_Inr_iff)
  have 1: "same_outside d d2 {446, 462}"
  proof (cases "part1_active m = 0x00 \<and> part2_active m = 0x80")
    case True
    with a obtain d1 where w1: "disk_write d 446 [PART_ACTIVE] = Inr d1"
      and w2: "disk_write d1 462 [PART_INACTIVE] = Inr d2" by (auto simp: rbind_Inr_iff)
    show ?thesis
      by (rule same_outside_mono [OF same_outside_trans [OF disk_write_frame [OF w1] disk_write_frame [OF w2]]]) auto
  qed (use a in auto)
  have 2: "same_outside d2 d' {512..<2048 * 512}"
    by (rule same_outside_mono [OF disk_write_frame [OF w]]) auto
  show ?thesis using same_outside_trans [OF 1 2] False by simp
qed

text \<open>
  \<open>update_boot_code\<close> changes the boot code only: not the GUID, the table or anything
  after sector 0, and in GPT mode the two signature bytes.
\<close>

lemma update_boot_code_frame:
  assumes "update_boot_code boot d is_gpt = Inr d'"
  shows "same_outside d d' (if is_gpt then {..<444} \<union> {510, 511} else {..<384} \<union> {400..<440})"
proof -
  from assms obtain u rsv d2 where u: "disk_read d 384 16 = Inr u"
    and rsv: "disk_read d (2040 * 512) (8 * 512) = Inr rsv"
    and b: "(if is_gpt then rbind (disk_read d 0 512) (\<lambda>s. disk_write d 0 (gpt_boot_sector boot u s))
        else rbind (disk_write d 0 (boot_code_of boot)) (\<lambda>d1. disk_write d1 384 u)) = Inr d2"
    and w: "disk_write d2 (2040 * 512) rsv = Inr d'"
    by (auto simp: update_boot_code_def rbind_Inr_iff)
  have lu: "length u = 16" and lr: "length rsv = 4096"
    using disk.read_len [OF u] disk.read_len [OF rsv] by simp_all
  note c = boot_code_of_length [of boot]
  let ?W = "if is_gpt then {..<444} \<union> {510, 511} else {..<384} \<union> {400..<440} :: nat set"
  have 2: "same_outside d d2 ?W"
  proof (cases is_gpt)
    case True
    with b obtain s where s: "disk_read d 0 512 = Inr s"
      and ws: "disk_write d 0 (gpt_boot_sector boot u s) = Inr d2" by (auto simp: rbind_Inr_iff)
    have ls: "length s = 512" using disk.read_len [OF s] by simp
    note gl = gpt_boot_sector_read(1) [OF ls lu, of boot]
    let ?b = "paste (paste (paste s 0 (boot_code_of boot)) 384 u) 440 (take 4 (drop 12 u))"
    have l: "length ?b = 512" using ls lu c by (simp add: paste_def)
    have g: "gpt_boot_sector boot u s = patch_lba (length (boot_code_of boot)) (with_signature ?b)"
      by (simp add: gpt_boot_sector_def Let_def)
    have keep: "gpt_boot_sector boot u s ! i = dbytes d i" if "444 \<le> i" "i < 510" for i
    proof -
      have "gpt_boot_sector boot u s ! i = ?b ! i" using that l c by (simp add: g patch_lba_nth)
      also have "\<dots> = s ! i" using that ls lu c by (simp add: paste_nth paste_length)
      finally show ?thesis using disk_read_nth [OF s, of i] that by simp
    qed
    have "dbytes d2 i = dbytes d i" if "i \<notin> ?W" for i
    proof (cases "i < 512")
      case i: True
      then show ?thesis using that keep [of i] ws True gl by (auto simp: disk_write_def split: if_splits)
    next
      case False
      then show ?thesis using disk_write_frame [OF ws] gl by (simp add: same_outside_def)
    qed
    then show ?thesis using ws by (simp add: same_outside_def disk_write_size)
  next
    case False
    with b obtain d1 where w1: "disk_write d 0 (boot_code_of boot) = Inr d1"
      and w2: "disk_write d1 384 u = Inr d2" by (auto simp: rbind_Inr_iff)
    have "dbytes d2 i = dbytes d i" if "i \<notin> ?W" for i
    proof (cases "384 \<le> i \<and> i < 400")
      case True
      then show ?thesis using disk_write_restore [OF u w2] by simp
    next
      case f: False
      then have "dbytes d2 i = dbytes d1 i" using disk_write_frame [OF w2] lu by (simp add: same_outside_def)
      also have "\<dots> = dbytes d i"
        using disk_write_frame [OF w1] c f that False by (auto simp: same_outside_def)
      finally show ?thesis .
    qed
    then show ?thesis using w1 w2 by (simp add: same_outside_def disk_write_size)
  qed
  have "disk_read d2 (2040 * 512) (8 * 512) = disk_read d (2040 * 512) (8 * 512)"
    by (rule disk_read_frame [OF 2]) auto
  then have "d' = d2" using disk_write_same [of d2 "2040 * 512" "8 * 512" rsv d'] rsv w by simp
  then show ?thesis using 2 by simp
qed

lemma update_raw_mbr_frame:
  assumes up: "update_raw crc boot stage2 d m = Some (Inr d')" and m: "\<not> is_gpt_protective m"
  shows "same_outside d d' ({..<384} \<union> {400..<440} \<union> {446, 462} \<union> {512..<2048 * 512})"
proof -
  from up m obtain d1 where 1: "update_stage2 stage2 d m = Inr d1"
    and 2: "update_boot_code boot d1 False = Inr d'"
    by (auto simp: update_raw_def rbind_Inr_iff split: sum.splits)
  show ?thesis
    by (rule same_outside_mono [OF same_outside_trans [OF update_stage2_frame [OF 1] update_boot_code_frame [OF 2]]])
       (use m in auto)
qed

lemma update_raw_gpt_frame:
  assumes up: "update_raw crc boot stage2 d m = Some (Inr d')" and m: "is_gpt_protective m"
    and rd: "gpt_read_from_disk d = Inr g" and pl: "gpt_placed g"
  shows "same_outside d d' ({..<2048 * 512} \<union> {(unat (hdr_efi_backup_lba (header g)) - 32) * 512..})"
proof -
  from up m obtain d1 d2 where 1: "update_stage2 stage2 d m = Inr d1"
    and 2: "fix_gpt_attributes crc d1 = Some (Inr d2)" and 3: "update_boot_code boot d2 True = Inr d'"
    by (auto simp: update_raw_def rbind_Inr_iff split: sum.splits)
  note f1 = update_stage2_frame [OF 1]
  have rd1: "gpt_read_from_disk d1 = Inr g"
    by (rule gpt_read_frame [OF rd pl f1]) (use m in auto)
  let ?W = "{..<2048 * 512} \<union> {(unat (hdr_efi_backup_lba (header g)) - 32) * 512..}"
  have f2: "same_outside d1 d2 ?W"
    using fix_gpt_effect [OF rd1 pl 2] by (auto intro: same_outside_mono split: if_splits)
  show ?thesis
    by (rule same_outside_mono [OF same_outside_trans [OF same_outside_trans [OF f1 f2] update_boot_code_frame [OF 3]]])
       (use m in auto)
qed

text \<open>
  In GPT mode the boot code comes with the start of stage 2 written behind a mark of four bytes. With the mark early
  enough in the boot image the disk GUID behind the boot code is not touched.
\<close>

definition marked_before_guid :: "bytes \<Rightarrow> bool" where
  "marked_before_guid boot \<longleftrightarrow>
     (\<exists>i. i + 8 \<le> 384 \<and> i + 8 < length (boot_code_of boot) \<and> take 4 (drop i (boot_code_of boot)) = lba_needle)"

lemma patch_lba_before:
  "take 4 (drop i bs) = lba_needle \<Longrightarrow> k \<le> i \<Longrightarrow> i < k + n \<Longrightarrow> i + 8 \<le> x \<Longrightarrow> x < length bs \<Longrightarrow> patch_lba_from k n bs ! x = bs ! x"
proof (induction k n bs rule: patch_lba_from.induct)
  case (2 k n bs)
  then show ?case by (cases "i = k") (auto simp: paste_nth)
qed simp

lemma boot_sector_keeps_guid:
  assumes "marked_before_guid boot" "length s = 512" "length dg = 16"
  shows "take 16 (drop 384 (gpt_boot_sector boot dg s)) = dg"
proof -
  note c = boot_code_of_length [of boot]
  obtain i where i: "i + 8 \<le> 384" "i + 8 < length (boot_code_of boot)" "take 4 (drop i (boot_code_of boot)) = lba_needle"
    using assms(1) by (auto simp: marked_before_guid_def)
  define b where "b = with_signature (paste (paste (paste s 0 (boot_code_of boot)) 384 dg) 440 (take 4 (drop 12 dg)))"
  have l: "length b = 512" using assms c by (simp add: b_def paste_length)
  have n: "b ! (i + j) = boot_code_of boot ! (i + j)" if "j < 4" for j
    using that i assms c by (simp add: b_def paste_nth paste_length)
  have "take 4 (drop i b) = take 4 (drop i (boot_code_of boot))" using n l i(1,2) by (intro nth_equalityI) auto
  then have "gpt_boot_sector boot dg s ! (384 + k) = b ! (384 + k)" if "k < 16" for k
    using that i l c patch_lba_before [of i b 0 "length (boot_code_of boot) - 8" "384 + k"]
    by (simp add: gpt_boot_sector_def Let_def b_def [symmetric] patch_lba_def)
  moreover have "b ! (384 + k) = dg ! k" if "k < 16" for k
    using that assms c by (simp add: b_def paste_nth paste_length)
  ultimately show ?thesis using gpt_boot_sector_read(1) [OF assms(2,3), of boot] assms(3) by (intro nth_equalityI) simp_all
qed

lemma update_boot_code_gpt:
  assumes up: "update_boot_code boot d True = Inr d'" and rd: "gpt_read_from_disk d = Inr g" and pl: "gpt_placed g"
  shows "\<exists>p. gpt_read_from_disk d' = Inr (g\<lparr>protective_mbr := p\<rparr>) \<and> partitions p = partitions (protective_mbr g)"
    "marked_before_guid boot \<Longrightarrow> disk_read d' 384 16 = disk_read d 384 16"
proof -
  from up obtain u rsv s d2 where u: "disk_read d 384 16 = Inr u" and rsv: "disk_read d (2040 * 512) (8 * 512) = Inr rsv"
    and s: "disk_read d 0 512 = Inr s" and ws: "disk_write d 0 (gpt_boot_sector boot u s) = Inr d2"
    and w: "disk_write d2 (2040 * 512) rsv = Inr d'"
    by (auto simp: update_boot_code_def rbind_Inr_iff)
  have l: "length u = 16" "length s = 512" "length rsv = 4096"
    using disk.read_len [OF u] disk.read_len [OF s] disk.read_len [OF rsv] by simp_all
  note b = gpt_boot_sector_read [OF l(2,1), of boot]
  have r0: "disk_read d' 0 512 = Inr (gpt_boot_sector boot u s)"
    using disk.read_same [OF ws] disk.read_before [OF w, of 0 512] b(1) by simp
  have "protective_mbr g = mbr_of_bytes s" using gpt_read_mbr [OF rd] s by (auto simp: mbr_read_def split: if_splits)
  moreover have "mbr_read d' 0 = Inr (mbr_of_bytes (gpt_boot_sector boot u s))" using r0 b(2,3) by (simp add: mbr_read_def)
  ultimately show "\<exists>p. gpt_read_from_disk d' = Inr (g\<lparr>protective_mbr := p\<rparr>) \<and> partitions p = partitions (protective_mbr g)"
    using gpt_read_other_mbr [OF rd pl update_boot_code_frame [OF up]] b(4) by auto
  assume m: "marked_before_guid boot"
  have "disk_read d' (0 + 384) 16 = Inr (take 16 (drop 384 (gpt_boot_sector boot u s)))" by (rule disk.read_sub [OF r0]) simp
  then show "disk_read d' 384 16 = disk_read d 384 16" using u boot_sector_keeps_guid [OF m l(2,1)] by simp
qed

lemma update_raw_gpt_table:
  assumes up: "update_raw crc boot stage2 d m = Some (Inr d')" and m: "is_gpt_protective m"
    and rd: "gpt_read_from_disk d = Inr g" and pl: "gpt_placed g"
  shows "\<exists>g'. gpt_read_from_disk d' = Inr g' \<and> gpt_kept g g'"
    "marked_before_guid boot \<Longrightarrow> disk_read d' 384 16 = disk_read d 384 16"
proof -
  from up m obtain d1 d2 where 1: "update_stage2 stage2 d m = Inr d1"
    and 2: "fix_gpt_attributes crc d1 = Some (Inr d2)" and 3: "update_boot_code boot d2 True = Inr d'"
    by (auto simp: update_raw_def rbind_Inr_iff split: sum.splits)
  note f1 = update_stage2_frame [OF 1]
  have rd1: "gpt_read_from_disk d1 = Inr g" by (rule gpt_read_frame [OF rd pl f1]) (use m in auto)
  obtain g2 where g2: "gpt_read_from_disk d2 = Inr g2" "gpt_placed g2" "gpt_kept g g2" "disk_read d2 0 446 = disk_read d1 0 446"
    using fix_gpt_effect [OF rd1 pl 2] rd1 pl gpt_kept_refl by (cases "attributes_need_rewrite g") auto
  show "\<exists>g'. gpt_read_from_disk d' = Inr g' \<and> gpt_kept g g'"
    using update_boot_code_gpt(1) [OF 3 g2(1,2)] g2(3) by (auto simp: gpt_kept_def)
  assume b: "marked_before_guid boot"
  obtain s where "disk_read d 0 512 = Inr s" using gpt_read_mbr [OF rd] by (auto simp: mbr_read_def rbind_Inr_iff)
  then have r: "disk_read d 0 446 = Inr (take 446 s)" using disk.read_sub [of d 0 512 s 0 446] by simp
  have "disk_read d1 0 446 = disk_read d 0 446" by (rule disk_read_frame [OF f1]) (use m in auto)
  then have "disk_read d2 384 16 = disk_read d 384 16"
    using disk.read_sub [of d2 0 446 "take 446 s" 384 16] disk.read_sub [OF r, of 384 16] r g2(4) by simp
  then show "disk_read d' 384 16 = disk_read d 384 16" using update_boot_code_gpt(2) [OF 3 g2(1,2) b] by simp
qed

section \<open>CHS fields\<close>

text \<open>The reading of a packed cylinder and sector field by a BIOS.\<close>

definition unpack_cylinder :: "u16 \<Rightarrow> u32" where
  "unpack_cylinder sc = ucast (drop_bit 8 sc) OR push_bit 2 (ucast (sc AND 0xC0))"

definition unpack_sector :: "u16 \<Rightarrow> u32" where
  "unpack_sector sc = ucast (sc AND 0x3F)"

definition lba_of_chs :: "u8 \<Rightarrow> u16 \<Rightarrow> nat" where
  "lba_of_chs head sc = (unat (unpack_cylinder sc) * 255 + unat head) * 63 + unat (unpack_sector sc) - 1"

lemma low_bits: "c < 2 ^ n \<Longrightarrow> bit (c :: 'a::len word) k \<Longrightarrow> k < n"
proof -
  assume c: "c < 2 ^ n" and k: "bit c k"
  have "c = take_bit n c" using less_mask_eq [OF c] by (simp add: take_bit_eq_mask)
  then have "bit (take_bit n c) k" using k by simp
  then show "k < n" by (simp add: bit_take_bit_iff)
qed

lemma unpack_pack:
  assumes  c: "\<And>k. bit c k \<Longrightarrow> k < 10" and s: "\<And>k. bit s k \<Longrightarrow> k < 6"
  shows "unpack_cylinder (pack_sector_cylinder c s) = c" "unpack_sector (pack_sector_cylinder c s) = s"
proof -
  have k: "(0xFF :: u32) = mask 8" "(0x300 :: u32) = push_bit 8 (mask 2)" "(0x3F :: u32) = mask 6"
    "(0xC0 :: u16) = push_bit 6 (mask 2)" "(0x3F :: u16) = mask 6"
    by (simp_all add: mask_eq_exp_minus_1 push_bit_eq_mult)
  show "unpack_cylinder (pack_sector_cylinder c s) = c"
  proof (rule bit_word_eqI)
    fix n assume n: "n < LENGTH(32)"
    have "n = 0 \<or> n = 1 \<or> n = 2 \<or> n = 3 \<or> n = 4 \<or> n = 5 \<or> n = 6 \<or> n = 7 \<or> n = 8 \<or> n = 9 \<or> 10 \<le> n"
      by arith
    then show "bit (unpack_cylinder (pack_sector_cylinder c s)) n = bit c n"
      unfolding unpack_cylinder_def pack_sector_cylinder_def k
      apply (elim disjE)
      apply (simp_all add: bit_simps)
      using c [of n] by (auto simp: less_diff_conv2)
  qed
  show "unpack_sector (pack_sector_cylinder c s) = s"
  proof (rule bit_word_eqI)
    fix n assume n: "n < LENGTH(32)"
    show "bit (unpack_sector (pack_sector_cylinder c s)) n = bit s n"
      unfolding unpack_sector_def pack_sector_cylinder_def k
      using s [of n] n by (cases "n < 6") (auto simp add: bit_simps)
  qed
qed
lemma chs_roundtrip:
  assumes lba: "lba < 16450560" and chs: "chs_of_lba lba = (c, h, s)"
  shows "lba_of_chs (ucast h) (pack_sector_cylinder c s) = unat lba"
proof -
  have nl: "\<not> 16450560 \<le> lba" using lba by simp
  have n: "unat lba < 16450560" using lba by (simp add: word_less_nat_alt)
  have "c = lba div 255 div 63" "h = (lba div 63) mod 255" "s = lba mod 63 + 1"
    using chs nl by (simp_all add: chs_of_lba_def)
  moreover have m: "unat (lba mod 63) = unat lba mod 63" by (simp add: unat_mod)
  then have "unat (lba mod 63 + 1) = unat lba mod 63 + 1"
    by (subst unat_add_no_wrap) (simp_all add: less_trans [OF mod_less_divisor])
  ultimately have u: "unat c = unat lba div 16065" "unat h = unat lba div 63 mod 255"
    "unat s = unat lba mod 63 + 1"
    by (simp_all add: unat_div unat_mod div_mult2_eq [symmetric])
  have b: "c < 1024" "s < 64" using n u
    by (simp_all add: word_less_nat_alt less_mult_imp_div_less)
  have h: "unat (ucast h :: u8) = unat h"
    using u(2) by (simp add: unsigned_ucast_eq unsigned_take_bit_eq take_bit_nat_eq_self)
  have "unat lba div 16065 = unat lba div 63 div 255" by (simp add: div_mult2_eq [symmetric])
  then have "(unat c * 255 + unat h) = unat lba div 63"
    using u(1,2) by simp
  then show ?thesis
    using unpack_pack [OF low_bits [of c 10] low_bits [of s 6]] b h u(3) by (simp add: lba_of_chs_def)
qed

section \<open>Free slots and GUIDs\<close>

lemma first_free_Some:
  "first_free free ps i n = Some k \<Longrightarrow> i \<le> k \<and> k < i + n \<and> free (ps ! k) \<and> (\<forall>j. i \<le> j \<and> j < k \<longrightarrow> \<not> free (ps ! j))"
proof (induction free ps i n rule: first_free.induct)
  case (2 free ps i n)
  then show ?case by (cases "free (ps ! i)") (auto, metis le_neq_implies_less Suc_leI)
qed simp

lemma guid_fix_bits:
  assumes "length g = 16"
  shows "length (guid_fix g) = 16" "drop_bit 4 (guid_fix g ! 6) = 4" "drop_bit 6 (guid_fix g ! 8) = 2"
proof -
  have v: "drop_bit 4 ((x AND 0x0F) OR 0x40) = (4 :: u8)" "drop_bit 6 ((x AND 0x3F) OR 0x80) = (2 :: u8)" for x :: u8
    by (simp_all add: drop_bit_or drop_bit_and drop_bit_numeral_bit0)
  show "length (guid_fix g) = 16" "drop_bit 4 (guid_fix g ! 6) = 4" "drop_bit 6 (guid_fix g ! 8) = 2"
    using assms v by (simp_all add: guid_fix_def)
qed

end
