(* ===== verification/InstallerTheorems.thy ===== *)
theory InstallerTheorems
  imports InstallerUpdate
begin

text \<open>
  The properties of the installer and the disk library, each with an instance on a blank
  64 MiB disk where it has hypotheses.
\<close>

definition blank_disk :: vdisk where
  "blank_disk = \<lparr>dsize = 67108864, dbytes = (\<lambda>_. 0)\<rparr>"

definition sample_env :: install_env where
  "sample_env = \<lparr>env_whole_disk = True, env_size = Inr 67108864, env_4k_native = False,
     env_umount = Inr (), env_swap = Inr (), env_tools = Inr (), env_version = (\<lambda>_ _. Inr None),
     env_confirm1 = True, env_confirm2 = True, env_open = Inr (), env_crc = (\<lambda>_. 7),
     env_boot_img = [0xEB, 0xFE], env_stage2 = [0xF4], env_guid = replicate 16 3,
     env_guid1 = replicate 16 1, env_guid2 = replicate 16 2, env_wait_partitions = Inr (),
     env_part1_exists = True, env_part1_sectors = Inr 0, env_part1_start = Inr 2048,
     env_part1_fs = Inr ''ntfs'', env_has_secure_boot = False\<rparr>"

lemma sample_env_clean: "env_clean sample_env 67108864"
  by (simp add: env_clean_def sample_env_def)

lemma blank_detect: "detect_choosable ver blank_disk = Inr (False, None, None, None, mbr_new_empty)"
  by (simp add: detect_choosable_def mbr_read_def disk_read_def blank_disk_def map_replicate_const
      del: upt_rec_numeral)

lemma sample_guards: "size_guards g 67108864 0 = Inr ()" "size_guards g 67108864 1 = Inr ()"
  by (simp_all add: size_guards_def const_defs)

lemma sample_run:
  "\<exists>d' p. install_choosable sample_env (\<lambda>_. Inr ()) use_gpt False 0 True True blank_disk = Inr (d', Some p)"
  using install_runs [OF sample_env_clean _ sample_guards(1) _ _ blank_detect, of "\<lambda>_. Inr ()" use_gpt False]
  by (auto simp: blank_disk_def)

text \<open>C10: a disk that \<open>install_choosable\<close> has finished installing, as MBR or as GPT, is
  recognised by \<open>detect_choosable\<close>: it reports a Choosable disk with partition 2 at the byte
  offset the installer returned and, in GPT mode, attribute 1; the only step that can still
  fail is reading the version string.\<close>

theorem install_then_detect:
  assumes "install_choosable env tools use_gpt sb r force yes d = Inr (d', Some p)"
    and "length (env_guid env) = 16" "length (env_guid1 env) = 16" "length (env_guid2 env) = 16"
    and "r < 2 ^ 52"
  shows "\<exists>m. detect_choosable ver d' =
    rbind (ver d' p) (\<lambda>v. Inr (True, v, Some p, (if use_gpt then Some GPT_ATTR_CZBLEFI else None), m))"
  using assms by (rule install_detected)

lemma install_then_detect_witness:
  "\<exists>d' p m. install_choosable sample_env (\<lambda>_. Inr ()) True False 0 True True blank_disk = Inr (d', Some p) \<and>
     detect_choosable (\<lambda>_ _. Inr None) d' = Inr (True, None, Some p, Some 1, m)"
proof -
  obtain d' p where run:
    "install_choosable sample_env (\<lambda>_. Inr ()) True False 0 True True blank_disk = Inr (d', Some p)"
    using sample_run by blast
  from install_then_detect [OF run, of "\<lambda>_ _. Inr None"] run show ?thesis
    by (auto simp: sample_env_def GPT_ATTR_CZBLEFI_def)
qed

text \<open>C22: an installation that the environment lets through succeeds: with the checks of
  the disk passed, the tools succeeding and a device of the size sysfs reports, every write of the
  chosen partition style fits on the disk and the handler returns the offset of partition 2.\<close>

theorem install_succeeds:
  assumes "env_clean env sz" and "\<And>c. tools c = Inr ()" and "size_guards use_gpt sz r = Inr ()"
    and "r < 2 ^ 52" and "dsize d = unat sz" and "detect_choosable (env_version env) d = Inr x"
  shows "\<exists>d'. install_choosable env tools use_gpt sb r True True d = Inr (d', Some
    ((if use_gpt then gpt_part2_start sz r else mbr_part2_start sz r) * SECTOR_SIZE))"
  by (rule install_runs [OF assms])

lemma install_succeeds_witness:
  "\<exists>d'. install_choosable sample_env (\<lambda>_. Inr ()) False False 0 True True blank_disk =
     Inr (d', Some (mbr_part2_start 67108864 0 * SECTOR_SIZE))"
  using install_succeeds [OF sample_env_clean _ sample_guards(1) [of False] _ _ blank_detect, of "\<lambda>_. Inr ()" False]
  by (simp add: blank_disk_def)

text \<open>A second installation without \<open>--force\<close> on a disk that already carries one is
  refused with \<open>AlreadyInstalled\<close> and touches nothing, whatever the partition styles of the
  two runs.\<close>

theorem reinstall_refused:
  assumes run: "install_choosable env tools use_gpt sb r force yes d = Inr (d', Some p)"
    and guids: "length (env_guid env) = 16" "length (env_guid1 env) = 16" "length (env_guid2 env) = 16"
    and r: "r < 2 ^ 52" and v: "env_version env2 d' p = Inr v" and c: "env_clean env2 sz"
    and g: "size_guards use_gpt2 sz r2 = Inr ()"
  shows "install_choosable env2 tools2 use_gpt2 sb2 r2 False yes2 d' =
    Inl (AlreadyInstalled (case v of Some s \<Rightarrow> s | None \<Rightarrow> ''?''))"
proof -
  obtain m where "detect_choosable (env_version env2) d' =
      Inr (True, v, Some p, (if use_gpt then Some GPT_ATTR_CZBLEFI else None), m)"
    using install_detected [OF run guids r, of "env_version env2"] v by auto
  with c g show ?thesis by (simp add: install_choosable_def env_clean_def)
qed

lemma reinstall_refused_witness:
  "\<exists>d' p. install_choosable sample_env (\<lambda>_. Inr ()) True False 0 True True blank_disk = Inr (d', Some p) \<and>
     install_choosable sample_env (\<lambda>_. Inr ()) False True 1 False True d' = Inl (AlreadyInstalled ''?'')"
proof -
  obtain d' p where run:
    "install_choosable sample_env (\<lambda>_. Inr ()) True False 0 True True blank_disk = Inr (d', Some p)"
    using sample_run by blast
  have v: "env_version sample_env d' p = Inr None" by (simp add: sample_env_def)
  have "length (env_guid sample_env) = 16" "length (env_guid1 sample_env) = 16" "length (env_guid2 sample_env) = 16"
    by (simp_all add: sample_env_def)
  from reinstall_refused [OF run this _ v sample_env_clean sample_guards(2), where ?tools2.0 = "\<lambda>_. Inr ()"] run
  show ?thesis by auto
qed

text \<open>C23: the MBR layout that passes the size checks is sound for every reserve below 2^52
  MiB: partition 2 starts on a 4 KiB boundary at or after sector 2048, it and the reserved space end
  within the disk with less than eight sectors lost to alignment, and its start fits the 32-bit field
  of the partition table.\<close>

theorem mbr_layout_bounds:
  assumes "size_guards False sz r = Inr ()" and "r < 2 ^ 52"
  shows "2048 \<le> unat (mbr_part2_start sz r) \<and> 8 dvd unat (mbr_part2_start sz r) \<and>
    unat (mbr_part2_start sz r) + 65536 + unat r * 2048 \<le> unat sz div 512 \<and>
    unat sz div 512 < unat (mbr_part2_start sz r) + 65544 + unat r * 2048 \<and>
    mbr_part2_start sz r < 2 ^ 32"
  using mbr_layout_facts [OF assms] by simp

lemma mbr_layout_bounds_witness: "8 dvd unat (mbr_part2_start 67108864 1) \<and> mbr_part2_start 67108864 1 < 2 ^ 32"
  using mbr_layout_bounds [OF sample_guards(2)] by simp

text \<open>The GPT layout that passes the size checks is sound without a reserve, and with one
  when the disk has 34 sectors more than the check asks for: partition 2 starts on a 4 KiB boundary at or
  after sector 2048 and ends, with the reserve, before the backup table.\<close>

theorem gpt_layout_bounds:
  assumes "size_guards True sz r = Inr ()" and "r < 2 ^ 52"
    and "r > 0 \<Longrightarrow> (unat r + 33) * 2048 + 34 \<le> unat sz div 512"
  shows "2048 \<le> unat (gpt_part2_start sz r) \<and> 8 dvd unat (gpt_part2_start sz r) \<and>
    unat (gpt_part2_start sz r) + 65536 + unat r * 2048 + 34 \<le> unat sz div 512"
  using gpt_layout_facts [OF assms] by simp

lemma gpt_layout_bounds_witness: "2048 \<le> unat (gpt_part2_start 67108864 1)"
  using gpt_layout_bounds [OF sample_guards(2)] by simp

text \<open>The size check of a GPT installation with a reserve is 34 sectors too weak: a disk of
  71681 sectors passes it with a reserve of 2 MiB, and partition 2 is then placed at sector 2008, before
  the start of partition 1, whose last sector lies before its first.\<close>

theorem gpt_reserve_edge:
  "size_guards True (71681 * 512) 2 = Inr () \<and> unat (gpt_part2_start (71681 * 512) 2) = 2008 \<and>
   gpe_end_lba (gpt_partitions (gpt_install_info (71681 * 512) 2 dg g1 g2) ! 0) <
   gpe_start_lba (gpt_partitions (gpt_install_info (71681 * 512) 2 dg g1 g2) ! 0)"
  by (simp add: size_guards_def const_defs gpt_part2_start_def efi_sectors_def gpt_install_info_def
      gpt_new_choosable_def Let_def)

text \<open>A GPT that Choosable places (table at sector 2, 128-byte entries, backup header between
  sectors 66 and 2^55) survives \<open>write_to_disk\<close> and \<open>read_from_disk\<close> byte for byte, the backup
  table holds the same entries, and the bytes between the primary table and the backup table are not
  written.\<close>

theorem gpt_disk_roundtrip:
  assumes "gpt_placed g" and "gpt_write_to_disk crc g d = Inr d'"
  shows "gpt_read_from_disk d' = Inr g \<and>
    disk_read d' ((unat (hdr_efi_backup_lba (header g)) - 32) * 512) 16384 = Inr (gpt_table_bytes g) \<and>
    (\<forall>i. 17408 \<le> i \<longrightarrow> i < (unat (hdr_efi_backup_lba (header g)) - 32) * 512 \<longrightarrow> dbytes d' i = dbytes d i)"
  using gpt_read_write [OF assms] gpt_write_regions(5) [OF assms] gpt_write_frame [OF assms]
  by (auto simp: same_outside_def)

definition sample_gpt :: gpt_info where
  "sample_gpt = gpt_install_info 67108864 0 (replicate 16 3) (replicate 16 1) (replicate 16 2)"

lemma sample_gpt_placed: "gpt_placed sample_gpt"
  unfolding sample_gpt_def by (rule gpt_install_placed) simp_all

lemma sample_gpt_write: "\<exists>d'. gpt_write_to_disk crc sample_gpt blank_disk = Inr d'"
  by (rule gpt_write_ok [OF sample_gpt_placed])
     (simp add: sample_gpt_def gpt_install_info_def gpt_new_choosable_def hdr_new_def Let_def
        blank_disk_def SECTOR_SIZE_def)

lemma gpt_disk_roundtrip_witness:
  "\<exists>d'. gpt_write_to_disk (\<lambda>_. 7) sample_gpt blank_disk = Inr d' \<and> gpt_read_from_disk d' = Inr sample_gpt"
  using sample_gpt_write [of "\<lambda>_. 7"] gpt_disk_roundtrip [OF sample_gpt_placed, of "\<lambda>_. 7" blank_disk] by blast

text \<open>\<open>fix_gpt_attributes\<close> on a Choosable GPT repairs what is wrong and nothing else: when
  a rewrite is due, the disk afterwards reads back as a GPT whose EFI partition has attribute 1 and whose
  protective entry is valid, all other entries as before, with the boot code kept; nothing between the
  primary and the backup table changes, and a second run finds nothing to do. When none is due the disk is
  not written.\<close>

theorem fix_attributes_repairs:
  assumes "gpt_read_from_disk d = Inr g" and "gpt_placed g" and "fix_gpt_attributes crc d = Some (Inr d')"
  shows "\<exists>g'. gpt_read_from_disk d' = Inr g' \<and> \<not> attributes_need_rewrite g' \<and>
    (attributes_need_rewrite g \<longrightarrow> gpt_partitions g' =
       (gpt_partitions g)[1 := (gpt_partitions g ! 1)\<lparr>gpe_attributes := GPT_ATTR_CZBLEFI\<rparr>]) \<and>
    (\<not> attributes_need_rewrite g \<longrightarrow> d' = d) \<and> disk_read d' 0 446 = disk_read d 0 446 \<and>
    (\<forall>i. 17408 \<le> i \<longrightarrow> i < (unat (hdr_efi_backup_lba (header g)) - 32) * 512 \<longrightarrow> dbytes d' i = dbytes d i) \<and>
    fix_gpt_attributes crc d' = Some (Inr d')"
proof (cases "attributes_need_rewrite g")
  case True
  then have cz: "is_czblefi (gpt_partitions g ! 1)"
    by (auto simp: attributes_need_rewrite_def Let_def split: if_splits)
  note rep = repaired_gpt_placed [OF assms(2)]
  from fix_gpt_effect [OF assms] True obtain g' where g': "gpt_read_from_disk d' = Inr g'"
    "gpt_partitions g' = gpt_partitions (repaired_gpt g)" "protective_mbr g' = protective_mbr (repaired_gpt g)"
    "disk_read d' 0 446 = disk_read d 0 446"
    "same_outside d d' ({0..<17408} \<union> {(unat (hdr_efi_backup_lba (header g)) - 32) * 512..})" by auto
  then have n: "\<not> attributes_need_rewrite g'"
    using rep(5) [OF cz] by (simp add: attributes_need_rewrite_def Let_def)
  show ?thesis
    using g' rep(4) [OF cz] n True by (auto simp: same_outside_def fix_gpt_attributes_def)
next
  case False
  then have "d' = d" using fix_gpt_effect [OF assms] by simp
  then show ?thesis using False assms by (auto simp: fix_gpt_attributes_def)
qed

lemma fix_attributes_repairs_witness:
  "\<exists>d d'. gpt_read_from_disk d = Inr sample_gpt \<and> fix_gpt_attributes (\<lambda>_. 7) d = Some (Inr d') \<and> d' = d"
proof -
  obtain d where d: "gpt_write_to_disk (\<lambda>_. 7) sample_gpt blank_disk = Inr d" using sample_gpt_write by blast
  have rd: "gpt_read_from_disk d = Inr sample_gpt" by (rule gpt_read_write [OF sample_gpt_placed d])
  have n: "\<not> attributes_need_rewrite sample_gpt"
    by (simp add: sample_gpt_def gpt_install_info_def gpt_new_choosable_def attributes_need_rewrite_def
        is_czblefi_def make_cz_name_def CZBLEFI_NAME_def Let_def)
  then have fx: "fix_gpt_attributes (\<lambda>_. 7) d = Some (Inr d)" using rd by (simp add: fix_gpt_attributes_def)
  from fix_attributes_repairs [OF rd sample_gpt_placed fx] fx rd show ?thesis by blast
qed

text \<open>C18: the raw-sector phase of an update leaves the user's data and the partitions alone. On an MBR disk only the
  boot code around the disk GUID, the two active flags and sectors 1 to 2047 change, so the GUID, the disk
  signature, the partition geometry and the data stay. On a GPT disk of Choosable's placement nothing between sector
  2048 and the backup table changes, and the disk reads back as the same GPT: the header with the disk's GUID and
  geometry but for its checksums, the type, GUID, place and name of every partition, all attributes but those of
  partition 2, and entries 1 to 3 of the MBR; the GUID behind the boot code stays as well when the boot image has the mark
  for the start of stage 2 before it.\<close>

theorem update_keeps_data:
  assumes "update_raw crc boot stage2 d m = Some (Inr d')"
    and "is_gpt_protective m \<Longrightarrow> gpt_read_from_disk d = Inr g \<and> gpt_placed g"
  shows "same_outside d d' (if is_gpt_protective m
    then {..<2048 * 512} \<union> {(unat (hdr_efi_backup_lba (header g)) - 32) * 512..}
    else {..<384} \<union> {400..<440} \<union> {446, 462} \<union> {512..<2048 * 512})
    \<and> (is_gpt_protective m \<longrightarrow> (\<exists>g'. gpt_read_from_disk d' = Inr g' \<and> gpt_kept g g')
      \<and> (marked_before_guid boot \<longrightarrow> disk_read d' 384 16 = disk_read d 384 16))"
  using update_raw_mbr_frame [OF assms(1)] update_raw_gpt_frame [OF assms(1)] update_raw_gpt_table [OF assms(1)] assms(2) by auto

text \<open>The update of a GPT disk with a boot image that is no more than the mark and the place behind it.\<close>

definition marked_boot :: bytes where
  "marked_boot = lba_needle @ replicate 8 0x90"

lemma update_raw_gpt_ok:
  assumes rd: "gpt_read_from_disk d = Inr g" "gpt_placed g" "\<not> attributes_need_rewrite g" and m: "is_gpt_protective m"
    and s: "2048 * 512 \<le> dsize d"
  shows "\<exists>d'. update_raw crc boot stage2 d m = Some (Inr d')"
proof -
  have len: "length (take (min (length stage2) (2014 * 512)) stage2) \<le> 2014 * 512" by simp
  then obtain d1 where d1: "update_stage2 stage2 d m = Inr d1" "dsize d1 = dsize d"
    using disk_write_ok [of 17408 "take (min (length stage2) (2014 * 512)) stage2" d] s m by (force simp: update_stage2_def)
  have "gpt_read_from_disk d1 = Inr g" by (rule gpt_read_frame [OF rd(1,2) update_stage2_frame [OF d1(1)]]) (use m in auto)
  then have f: "fix_gpt_attributes crc d1 = Some (Inr d1)" using rd(3) by (simp add: fix_gpt_attributes_def)
  obtain u r t where ur: "disk_read d1 384 16 = Inr u" "length u = 16" "disk_read d1 (2040 * 512) (8 * 512) = Inr r" "length r = 8 * 512"
    "disk_read d1 0 512 = Inr t" "length t = 512"
    using s d1(2) by (simp add: disk_read_def del: upt_rec_numeral)
  have "length (gpt_boot_sector boot u t) = 512" by (rule gpt_boot_sector_read(1) [OF ur(6,2)])
  then obtain d2 where d2: "disk_write d1 0 (gpt_boot_sector boot u t) = Inr d2" "dsize d2 = dsize d"
    using disk_write_ok [of 0 "gpt_boot_sector boot u t" d1] s d1(2) by force
  obtain d3 where "disk_write d2 (2040 * 512) r = Inr d3" using disk_write_ok [of "2040 * 512" r d2] s d2(2) ur(4) by force
  then show ?thesis using d1(1) f m ur(1,3,5) d2(1) by (simp add: update_raw_def update_boot_code_def)
qed

lemma update_keeps_data_witness:
  "\<exists>d d' g'. gpt_read_from_disk d = Inr sample_gpt
     \<and> update_raw (\<lambda>_. 7) marked_boot [0xF4] d (protective_mbr sample_gpt) = Some (Inr d')
     \<and> dbytes d' (2048 * 512) = dbytes d (2048 * 512) \<and> disk_read d' 384 16 = disk_read d 384 16
     \<and> gpt_read_from_disk d' = Inr g' \<and> hdr_disk_guid (header g') = replicate 16 3"
proof -
  obtain d where d: "gpt_write_to_disk (\<lambda>_. 7) sample_gpt blank_disk = Inr d" using sample_gpt_write by blast
  have rd: "gpt_read_from_disk d = Inr sample_gpt" by (rule gpt_read_write [OF sample_gpt_placed d])
  have z: "dsize d = 67108864" using gpt_write_regions(6) [OF sample_gpt_placed d] by (simp add: blank_disk_def)
  have n: "\<not> attributes_need_rewrite sample_gpt" and p: "is_gpt_protective (protective_mbr sample_gpt)"
    by (simp_all add: sample_gpt_def gpt_install_info_def gpt_new_choosable_def attributes_need_rewrite_def is_gpt_protective_def
        is_czblefi_def make_cz_name_def CZBLEFI_NAME_def Let_def)
  have b: "unat (hdr_efi_backup_lba (header sample_gpt)) = 131071" and g: "hdr_disk_guid (header sample_gpt) = replicate 16 3"
    by (simp_all add: sample_gpt_def gpt_install_info_def gpt_new_choosable_def hdr_new_def Let_def SECTOR_SIZE_def)
  have m: "marked_before_guid marked_boot" by (auto simp: marked_before_guid_def marked_boot_def lba_needle_def boot_code_of_def intro!: exI [of _ 0])
  obtain d' where u: "update_raw (\<lambda>_. 7) marked_boot [0xF4] d (protective_mbr sample_gpt) = Some (Inr d')"
    using update_raw_gpt_ok [OF rd sample_gpt_placed n p] z by fastforce
  from update_keeps_data [OF u, of sample_gpt] rd sample_gpt_placed p m obtain g' where k:
    "same_outside d d' ({..<2048 * 512} \<union> {(unat (hdr_efi_backup_lba (header sample_gpt)) - 32) * 512..})"
    "gpt_read_from_disk d' = Inr g'" "gpt_kept sample_gpt g'" "disk_read d' 384 16 = disk_read d 384 16" by auto
  have "hdr_disk_guid (unsummed (header g')) = hdr_disk_guid (unsummed (header sample_gpt))" using k(3) by (simp add: gpt_kept_def)
  then have "hdr_disk_guid (header g') = replicate 16 3" using g by (simp add: unsummed_def)
  moreover have "dbytes d' (2048 * 512) = dbytes d (2048 * 512)" using k(1) b by (simp add: same_outside_def)
  ultimately show ?thesis using rd u k(2,4) by blast
qed

text \<open>The CHS fields that \<open>fill_mbr_chs_entry\<close> packs for a start sector decode to that
  sector, for every sector the 255-head, 63-sector geometry can express; above that the entry holds the
  conventional maximum.\<close>

theorem chs_fields_decode:
  "lba < 16450560 \<Longrightarrow>
     (let e = fill_mbr_chs_entry entry lba count in
        lba_of_chs (pte_start_head e) (pte_start_sector_cylinder e) = unat lba)"
  using chs_roundtrip [of lba] by (cases "chs_of_lba lba") (simp add: fill_mbr_chs_entry_def Let_def split: prod.splits)

lemma chs_fields_decode_witness:
  "lba_of_chs (pte_start_head (fill_mbr_chs_entry pte_empty 2048 100))
     (pte_start_sector_cylinder (fill_mbr_chs_entry pte_empty 2048 100)) = 2048"
  using chs_fields_decode [of 2048 pte_empty 100] by (simp add: Let_def)

text \<open>Adding the EFI partition to an MBR disk in use takes the first free slot after slot 0
  and leaves the boot code and every other slot but slot 0 alone; the new entry and the shortened partition
  1 meet at the chosen sector. With no free slot the disk is not written.\<close>

theorem add_efi_partition_mbr:
  assumes "mbr_wf m" and "signature_55 m = 0x55" and "signature_aa m = 0xAA"
    and "update_mbr_partition_table_f d m start = Inr d'"
  shows "\<exists>slot m'. 1 \<le> slot \<and> slot < 4 \<and> pte_sector_count (partitions m ! slot) = 0 \<and>
    (\<forall>j. 1 \<le> j \<and> j < slot \<longrightarrow> pte_sector_count (partitions m ! j) \<noteq> 0) \<and>
    mbr_read d' 0 = Inr m' \<and> boot_code m' = boot_code m \<and>
    (\<forall>i. i \<noteq> 0 \<longrightarrow> i \<noteq> slot \<longrightarrow> i < 4 \<longrightarrow> partitions m' ! i = partitions m ! i) \<and>
    pte_start_lba (partitions m' ! slot) = ucast start \<and> pte_sector_count (partitions m' ! slot) = 65536 \<and>
    pte_fs_flag (partitions m' ! slot) = PART_TYPE_EFI_SYSTEM \<and>
    pte_start_lba (partitions m' ! 0) + pte_sector_count (partitions m' ! 0) = ucast start \<and>
    same_outside d d' {..<512}"
proof -
  from assms(4) obtain slot where slot: "mbr_free_slot m = Some slot"
    and w: "mbr_write (mbr_with_efi m slot start) d 0 = Inr d'"
    by (auto simp: update_mbr_partition_table_f_def split: option.splits)
  have s: "1 \<le> slot" "slot < 4" "pte_sector_count (partitions m ! slot) = 0"
    "\<forall>j. 1 \<le> j \<and> j < slot \<longrightarrow> pte_sector_count (partitions m ! j) \<noteq> 0"
    using first_free_Some [OF slot [unfolded mbr_free_slot_def]] by auto
  let ?m = "mbr_with_efi m slot start"
  have wf: "mbr_wf ?m" "signature_55 ?m = 0x55" "signature_aa ?m = 0xAA"
    using assms(1-3) by (simp_all add: mbr_with_efi_def mbr_wf_def Let_def)
  have rd: "mbr_read d' 0 = Inr ?m"
    using mbr_read_from_bytes [OF _ wf] disk.read_same [OF w [unfolded mbr_write_def]] mbr_bytes_length [OF wf(1)]
    by simp
  have fr: "same_outside d d' {..<512}"
    using disk_write_frame [OF w [unfolded mbr_write_def]] mbr_bytes_length [OF wf(1)]
    by (simp add: same_outside_def)
  have l: "length (partitions m) = 4" using assms(1) by (simp add: mbr_wf_def)
  show ?thesis
    by (rule exI [of _ slot], rule exI [of _ ?m])
       (use s rd fr l in \<open>simp add: mbr_with_efi_def Let_def efi_sectors_val\<close>)
qed

lemma add_efi_partition_mbr_witness:
  "\<exists>d' m'. update_mbr_partition_table_f blank_disk mbr_new_empty 4096 = Inr d' \<and> mbr_read d' 0 = Inr m' \<and>
     same_outside blank_disk d' {..<512}"
proof -
  have wf: "mbr_wf mbr_new_empty" by (simp add: mbr_wf_def mbr_new_empty_def)
  have "mbr_free_slot mbr_new_empty = Some 1"
    by (simp add: mbr_free_slot_def mbr_new_empty_def pte_empty_def numeral_3_eq_3)
  moreover have "mbr_wf (mbr_with_efi mbr_new_empty 1 4096)"
    using wf by (simp add: mbr_with_efi_def mbr_wf_def Let_def)
  ultimately obtain d' where u: "update_mbr_partition_table_f blank_disk mbr_new_empty 4096 = Inr d'"
    using mbr_bytes_length [of "mbr_with_efi mbr_new_empty 1 4096"]
    by (simp add: update_mbr_partition_table_f_def mbr_write_def disk_write_def blank_disk_def)
  have sg: "signature_55 mbr_new_empty = 0x55" "signature_aa mbr_new_empty = 0xAA"
    by (simp_all add: mbr_new_empty_def)
  from add_efi_partition_mbr [OF wf sg u] u show ?thesis by blast
qed

text \<open>Every GUID that \<open>generate_guid\<close> returns has 16 bytes and is a version 4,
  variant 1 GUID in the bytes that carry them, from either source of randomness.\<close>

theorem generate_guid_version:
  assumes "\<And>g. urandom = Some g \<Longrightarrow> length g = 16"
  shows "length (generate_guid urandom nanos seq) = 16 \<and>
    drop_bit 4 (generate_guid urandom nanos seq ! 6) = 4 \<and> drop_bit 6 (generate_guid urandom nanos seq ! 8) = 2"
  using assms guid_fix_bits [of "the urandom"]
  by (cases urandom) (simp_all add: generate_guid_def Let_def guid_fix_bits)

lemma generate_guid_version_witness: "drop_bit 4 (generate_guid (Some (replicate 16 0xFF)) 0 0 ! 6) = 4"
  using generate_guid_version [of "Some (replicate 16 0xFF)" 0 0] by simp

end
