(* ===== verification/DiskIo.thy ===== *)
theory DiskIo
  imports DiskLayout "HOL-Library.Multiset"
begin

text \<open>
  The rest of \<open>src/disk.rs\<close>: the listing of drives and its order, \<open>PartitionSlice\<close>
  (the window on the EFI partition through which \<open>fatfs\<close> works), sector I/O, and the
  names of partition devices. What sysfs says of a block device is a record.
\<close>

section \<open>Listing the drives\<close>

record sys_block =
  sb_name :: string
  sb_dev_exists :: bool
  sb_whole :: bool
  sb_size :: "choosable_error + u64"
  sb_model :: string
  sb_removable :: bool
  sb_usb :: bool
  sb_logical :: u32
  sb_physical :: u32

text \<open>\<open>PhyDriveInfo\<close>; the optional fields, which \<open>enumerate_disks\<close> leaves \<open>None\<close>, are left out.\<close>

record phy_drive_info =
  phy_drive :: nat
  disk_path :: string
  size_bytes :: u64
  drive_model :: string
  removable :: bool
  is_usb :: bool
  sector_size_logical :: u32
  sector_size_physical :: u32

text \<open>
  The comparison of \<open>sort_by\<close> as an order: USB drives first, then removable ones, then
  the larger.
\<close>

datatype drive_rank = Rank bool bool u64

instantiation drive_rank :: linorder
begin

fun less_eq_drive_rank :: "drive_rank \<Rightarrow> drive_rank \<Rightarrow> bool" where
  "less_eq_drive_rank (Rank u r s) (Rank u' r' s') \<longleftrightarrow>
     (u' < u \<or> u' = u \<and> (r' < r \<or> r' = r \<and> s' \<le> s))"

definition less_drive_rank :: "drive_rank \<Rightarrow> drive_rank \<Rightarrow> bool" where
  "less_drive_rank x y \<longleftrightarrow> x \<le> y \<and> \<not> y \<le> x"

instance
proof
  fix x y z :: drive_rank
  show "x < y \<longleftrightarrow> x \<le> y \<and> \<not> y \<le> x" by (rule less_drive_rank_def)
  show "x \<le> x" by (cases x) simp
  show "x \<le> y \<Longrightarrow> y \<le> z \<Longrightarrow> x \<le> z" by (cases x; cases y; cases z) auto
  show "x \<le> y \<Longrightarrow> y \<le> x \<Longrightarrow> x = y" by (cases x; cases y) auto
  show "x \<le> y \<or> y \<le> x" by (cases x; cases y) auto
qed

end

definition drive_rank_of :: "phy_drive_info \<Rightarrow> drive_rank" where
  "drive_rank_of p = Rank (is_usb p) (removable p) (size_bytes p)"

definition starts_with :: "string \<Rightarrow> string \<Rightarrow> bool" where
  "starts_with s p = (take (length p) s = p)"

definition skipped_name :: "string \<Rightarrow> bool" where
  "skipped_name n \<longleftrightarrow> starts_with n ''loop'' \<or> starts_with n ''ram'' \<or> starts_with n ''dm-'' \<or> starts_with n ''sr''"

definition drive_of :: "sys_block \<Rightarrow> phy_drive_info option" where
  "drive_of b =
     (if skipped_name (sb_name b) then None
      else if \<not> sb_dev_exists b then None
      else if \<not> sb_whole b then None
      else (case sb_size b of
              Inl _ \<Rightarrow> None
            | Inr sz \<Rightarrow> Some \<lparr>phy_drive = 0, disk_path = ''/dev/'' @ sb_name b, size_bytes = sz,
                drive_model = sb_model b, removable = sb_removable b, is_usb = sb_usb b,
                sector_size_logical = sb_logical b, sector_size_physical = sb_physical b\<rparr>))"

definition number_drives :: "phy_drive_info list \<Rightarrow> phy_drive_info list" where
  "number_drives ps = map2 (\<lambda>i p. p\<lparr>phy_drive := i\<rparr>) [0..<length ps] ps"

definition enumerate_disks :: "sys_block list \<Rightarrow> phy_drive_info list" where
  "enumerate_disks entries = number_drives (sort_key drive_rank_of (List.map_filter drive_of entries))"

lemma number_drives_nth:
  "i < length ps \<Longrightarrow> number_drives ps ! i = (ps ! i)\<lparr>phy_drive := i\<rparr>"
  by (simp add: number_drives_def)

lemma number_drives_length [simp]: "length (number_drives ps) = length ps"
  by (simp add: number_drives_def)

lemma rank_le_iff:
  "drive_rank_of p \<le> drive_rank_of q \<longleftrightarrow>
     (\<not> is_usb p \<longrightarrow> \<not> is_usb q) \<and>
     (is_usb p = is_usb q \<longrightarrow> (\<not> removable p \<longrightarrow> \<not> removable q) \<and>
        (removable p = removable q \<longrightarrow> size_bytes q \<le> size_bytes p))"
  by (auto simp: drive_rank_of_def)

section \<open>Partition device names\<close>

text \<open>\<open>trim_start_matches\<close> removes the prefix as often as it occurs.\<close>

function trim_dev :: "string \<Rightarrow> string" where
  "trim_dev s = (if take 5 s = ''/dev/'' then trim_dev (drop 5 s) else s)"
  by auto
termination by (relation "measure length") (auto intro: ccontr)

declare trim_dev.simps [simp del]

definition get_partition_name :: "string \<Rightarrow> string \<Rightarrow> string" where
  "get_partition_name path part_num =
     (let base = trim_dev path
      in if starts_with base ''nvme'' \<or> starts_with base ''mmcblk''
         then path @ ''p'' @ part_num else path @ part_num)"

section \<open>Sector I/O\<close>

fun write_zeros_loop :: "vdisk \<Rightarrow> nat \<Rightarrow> u64 \<Rightarrow> nat \<Rightarrow> choosable_error + vdisk" where
  "write_zeros_loop d off remaining 0 = Inr d"
| "write_zeros_loop d off remaining (Suc n) =
     (if remaining > 0 then
        let write_size = unat (min remaining SECTOR_SIZE)
        in rbind (disk_write d off (replicate write_size 0)) (\<lambda>d'.
             write_zeros_loop d' (off + write_size) (remaining - word_of_nat write_size) n)
      else Inr d)"

text \<open>The loop runs once per started sector of the (wrapped) byte count.\<close>

definition write_zeros :: "vdisk \<Rightarrow> u64 \<Rightarrow> u64 \<Rightarrow> choosable_error + vdisk" where
  "write_zeros d start_sector num_sectors =
     (let total_bytes = num_sectors * SECTOR_SIZE
      in write_zeros_loop d (unat (start_sector * SECTOR_SIZE)) total_bytes (unat total_bytes div 512 + 1))"

definition read_sectors :: "vdisk \<Rightarrow> u64 \<Rightarrow> u64 \<Rightarrow> choosable_error + bytes" where
  "read_sectors d start_sector num_sectors =
     disk_read d (unat (start_sector * SECTOR_SIZE)) (unat (num_sectors * SECTOR_SIZE))"

definition write_sectors :: "vdisk \<Rightarrow> u64 \<Rightarrow> bytes \<Rightarrow> choosable_error + vdisk" where
  "write_sectors d start_sector data = disk_write d (unat (start_sector * SECTOR_SIZE)) data"

definition is_4k_native :: "u32 \<Rightarrow> u32 \<Rightarrow> bool" where
  "is_4k_native logical physical \<longleftrightarrow> logical = 4096 \<and> physical = 4096"

definition human_readable_gb :: "u64 \<Rightarrow> u64" where
  "human_readable_gb n = n div SIZE_1GB"

section \<open>PartitionSlice\<close>

record partition_slice =
  start_offset :: u64
  ps_size :: u64
  current_pos :: u64

definition partition_slice_new :: "u64 \<Rightarrow> u64 \<Rightarrow> partition_slice" where
  "partition_slice_new start sz = \<lparr>start_offset = start, ps_size = sz, current_pos = 0\<rparr>"

text \<open>
  The file under the slice: a seek to an offset above \<open>i64::MAX\<close> fails; one \<open>read\<close>
  or \<open>write\<close> call transfers at most \<open>lim\<close> bytes and stops at the end of the device.
\<close>

definition file_seek :: "u64 \<Rightarrow> choosable_error + nat" where
  "file_seek target = (if unat target < 2 ^ 63 then Inr (unat target) else Inl Io)"

definition file_read :: "nat \<Rightarrow> vdisk \<Rightarrow> nat \<Rightarrow> nat \<Rightarrow> bytes" where
  "file_read lim d off n = map (dbytes d) [off..<off + min (min n lim) (dsize d - off)]"

definition file_write :: "nat \<Rightarrow> vdisk \<Rightarrow> nat \<Rightarrow> bytes \<Rightarrow> choosable_error + vdisk \<times> nat" where
  "file_write lim d off bs =
     (let n = min (min (length bs) lim) (dsize d - off)
      in if bs \<noteq> [] \<and> dsize d \<le> off then Inl Io
         else rbind (disk_write d off (take n bs)) (\<lambda>d'. Inr (d', n)))"

definition slice_read :: "nat \<Rightarrow> vdisk \<Rightarrow> partition_slice \<Rightarrow> nat \<Rightarrow> choosable_error + partition_slice \<times> bytes" where
  "slice_read lim d s buf_len =
     (if current_pos s \<ge> ps_size s then Inr (s, [])
      else rbind (file_seek (start_offset s + current_pos s)) (\<lambda>off.
        let max_to_read = unat (ps_size s - current_pos s);
            got = file_read lim d off (if buf_len > max_to_read then max_to_read else buf_len)
        in Inr (s\<lparr>current_pos := current_pos s + word_of_nat (length got)\<rparr>, got)))"

definition slice_write ::
  "nat \<Rightarrow> vdisk \<Rightarrow> partition_slice \<Rightarrow> bytes \<Rightarrow> choosable_error + vdisk \<times> partition_slice \<times> nat" where
  "slice_write lim d s buf =
     (if current_pos s \<ge> ps_size s then Inl Io
      else rbind (file_seek (start_offset s + current_pos s)) (\<lambda>off.
        let max_to_write = unat (ps_size s - current_pos s);
            data = (if length buf > max_to_write then take max_to_write buf else buf)
        in rbind (file_write lim d off data) (\<lambda>(d', n).
             Inr (d', s\<lparr>current_pos := current_pos s + word_of_nat n\<rparr>, n))))"

datatype seek_from = SeekStart u64 | SeekCurrent int | SeekEnd int

definition checked_add_signed :: "u64 \<Rightarrow> int \<Rightarrow> u64 option" where
  "checked_add_signed a k =
     (let v = int (unat a) + k in if 0 \<le> v \<and> v < 2 ^ 64 then Some (word_of_int v) else None)"

definition slice_seek :: "partition_slice \<Rightarrow> seek_from \<Rightarrow> choosable_error + partition_slice \<times> u64" where
  "slice_seek s pos =
     (let target = (case pos of
          SeekStart offset \<Rightarrow> Some (start_offset s + offset)
        | SeekCurrent k \<Rightarrow> checked_add_signed (start_offset s + current_pos s) k
        | SeekEnd k \<Rightarrow> checked_add_signed (start_offset s + ps_size s) k)
      in case target of
           None \<Rightarrow> Inl Io
         | Some t \<Rightarrow> rbind (file_seek t) (\<lambda>_.
             let p = (if t < start_offset s then 0 else t - start_offset s)
             in Inr (s\<lparr>current_pos := p\<rparr>, p)))"

section \<open>The slice stays inside its partition\<close>

definition slice_fits :: "partition_slice \<Rightarrow> bool" where
  "slice_fits s \<longleftrightarrow> unat (start_offset s) + unat (ps_size s) < 2 ^ 63"

definition slice_range :: "partition_slice \<Rightarrow> nat set" where
  "slice_range s = {unat (start_offset s)..<unat (start_offset s) + unat (ps_size s)}"

lemma slice_target:
  assumes "slice_fits s" and "current_pos s < ps_size s"
  shows "unat (start_offset s + current_pos s) = unat (start_offset s) + unat (current_pos s)"
    "file_seek (start_offset s + current_pos s) = Inr (unat (start_offset s) + unat (current_pos s))"
    "unat (ps_size s - current_pos s) = unat (ps_size s) - unat (current_pos s)"
proof -
  have p: "unat (current_pos s) < unat (ps_size s)" using assms(2) by (simp add: word_less_nat_alt)
  show t: "unat (start_offset s + current_pos s) = unat (start_offset s) + unat (current_pos s)"
    by (subst unat_add_no_wrap) (use assms(1) p in \<open>simp_all add: slice_fits_def\<close>)
  show "file_seek (start_offset s + current_pos s) = Inr (unat (start_offset s) + unat (current_pos s))"
    using assms(1) p t by (simp add: file_seek_def slice_fits_def)
  show "unat (ps_size s - current_pos s) = unat (ps_size s) - unat (current_pos s)"
    by (subst unat_sub_no_wrap) (use p in simp_all)
qed

lemma advance_pos:
  assumes "n \<le> unat (sz :: u64) - unat pos" and "pos < sz"
  shows "unat (pos + word_of_nat n) = unat pos + n"
proof -
  have p: "unat pos < unat sz" using assms(2) by (simp add: word_less_nat_alt)
  have "unat sz < 2 ^ 64" using unsigned_less [of sz, where ?'a = nat] by simp
  then have "unat (word_of_nat n :: u64) = n" using assms(1) p by (intro unat_of_nat_small) simp
  then show ?thesis
    by (subst unat_add_no_wrap) (use assms p \<open>unat sz < 2 ^ 64\<close> in simp_all)
qed

lemma file_write_frame:
  assumes "file_write lim d off bs = Inr (d', n)"
  shows "n \<le> length bs" "dsize d' = dsize d" "i \<notin> {off..<off + n} \<Longrightarrow> dbytes d' i = dbytes d i"
    "k < n \<Longrightarrow> dbytes d' (off + k) = bs ! k"
  using assms by (auto simp: file_write_def disk_write_def Let_def rbind_Inr_iff split: if_splits)

lemma slice_write_frame:
  assumes fit: "slice_fits s" and w: "slice_write lim d s buf = Inr (d', s', n)"
  shows "n \<le> length buf" "dsize d' = dsize d" "\<forall>i. i \<notin> slice_range s \<longrightarrow> dbytes d' i = dbytes d i"
    "\<forall>k<n. dbytes d' (unat (start_offset s) + unat (current_pos s) + k) = buf ! k"
    "start_offset s' = start_offset s" "ps_size s' = ps_size s"
    "unat (current_pos s') = unat (current_pos s) + n" "unat (current_pos s') \<le> unat (ps_size s)"
proof -
  have c: "current_pos s < ps_size s" using w by (auto simp: slice_write_def split: if_splits)
  note t = slice_target [OF fit c]
  let ?m = "unat (ps_size s) - unat (current_pos s)"
  let ?data = "if length buf > ?m then take ?m buf else buf"
  have "\<not> ps_size s \<le> current_pos s" using c by simp
  with w t have f: "file_write lim d (unat (start_offset s) + unat (current_pos s)) ?data = Inr (d', n)"
    and s': "s' = s\<lparr>current_pos := current_pos s + word_of_nat n\<rparr>"
    by (auto simp: slice_write_def Let_def rbind_Inr_iff split: if_splits)
  note ff = file_write_frame [OF f]
  have n: "n \<le> ?m" using ff(1) by (auto split: if_splits)
  show "n \<le> length buf" "dsize d' = dsize d" using ff(1,2) by (auto split: if_splits)
  show "\<forall>i. i \<notin> slice_range s \<longrightarrow> dbytes d' i = dbytes d i"
  proof (intro allI impI)
    fix i assume "i \<notin> slice_range s"
    moreover have "unat (current_pos s) < unat (ps_size s)" using c by (simp add: word_less_nat_alt)
    ultimately have "i \<notin> {unat (start_offset s) + unat (current_pos s)..<
        unat (start_offset s) + unat (current_pos s) + n}"
      using n by (auto simp: slice_range_def)
    then show "dbytes d' i = dbytes d i" by (rule ff(3))
  qed
  show "\<forall>k<n. dbytes d' (unat (start_offset s) + unat (current_pos s) + k) = buf ! k"
    using ff(4) n by auto
  show "start_offset s' = start_offset s" "ps_size s' = ps_size s" by (simp_all add: s')
  show "unat (current_pos s') = unat (current_pos s) + n"
    using advance_pos [OF n c] by (simp add: s')
  then show "unat (current_pos s') \<le> unat (ps_size s)"
    using n c by (simp add: word_less_nat_alt)
qed

lemma slice_read_content:
  assumes fit: "slice_fits s" and r: "slice_read lim d s len = Inr (s', bs)"
  shows "length bs \<le> len" "\<forall>k<length bs. bs ! k = dbytes d (unat (start_offset s) + unat (current_pos s) + k)"
    "\<forall>k<length bs. unat (start_offset s) + unat (current_pos s) + k \<in> slice_range s"
    "start_offset s' = start_offset s" "ps_size s' = ps_size s"
    "unat (current_pos s') = unat (current_pos s) + length bs"
proof -
  have all: "length bs \<le> len \<and> (\<forall>k<length bs. bs ! k = dbytes d (unat (start_offset s) + unat (current_pos s) + k)) \<and>
    (\<forall>k<length bs. unat (start_offset s) + unat (current_pos s) + k \<in> slice_range s) \<and>
    start_offset s' = start_offset s \<and> ps_size s' = ps_size s \<and>
    unat (current_pos s') = unat (current_pos s) + length bs"
  proof (cases "current_pos s < ps_size s")
    case False
    then have "ps_size s \<le> current_pos s" by simp
    then show ?thesis using r by (auto simp: slice_read_def)
  next
    case True
    note t = slice_target [OF fit True]
    let ?m = "unat (ps_size s) - unat (current_pos s)"
    have "\<not> ps_size s \<le> current_pos s" using True by simp
    with r t have bs: "bs = file_read lim d (unat (start_offset s) + unat (current_pos s))
          (if len > ?m then ?m else len)"
      and s': "s' = s\<lparr>current_pos := current_pos s + word_of_nat (length bs)\<rparr>"
      by (auto simp: slice_read_def Let_def rbind_Inr_iff)
    have l: "length bs \<le> (if len > ?m then ?m else len)" by (simp add: bs file_read_def)
    then have m: "length bs \<le> ?m" "length bs \<le> len" by (auto split: if_splits)
    have "\<forall>k<length bs. bs ! k = dbytes d (unat (start_offset s) + unat (current_pos s) + k)"
      by (simp add: bs file_read_def)
    moreover have "unat (current_pos s') = unat (current_pos s) + length bs"
      using advance_pos [OF m(1) True] by (simp add: s')
    ultimately show ?thesis using m s' by (auto simp: slice_range_def)
  qed
  then show "length bs \<le> len" "\<forall>k<length bs. bs ! k = dbytes d (unat (start_offset s) + unat (current_pos s) + k)"
    "\<forall>k<length bs. unat (start_offset s) + unat (current_pos s) + k \<in> slice_range s"
    "start_offset s' = start_offset s" "ps_size s' = ps_size s"
    "unat (current_pos s') = unat (current_pos s) + length bs" by blast+
qed

text \<open>\<open>enumerate_disks\<close> lists exactly the drives that pass its filters, USB before
  others, then removable before fixed, then larger before smaller, and numbers them from 0 in that
  order.\<close>

theorem enumerate_disks_order:
  "(\<forall>i<length (enumerate_disks es). phy_drive (enumerate_disks es ! i) = i) \<and>
   sorted (map drive_rank_of (enumerate_disks es)) \<and>
   mset (map (\<lambda>p. p\<lparr>phy_drive := 0\<rparr>) (enumerate_disks es)) = mset (List.map_filter drive_of es)"
proof -
  let ?ps = "sort_key drive_rank_of (List.map_filter drive_of es)"
  have z: "phy_drive p = 0" if "p \<in> set ?ps" for p
    using that by (auto simp: drive_of_def map_filter_def split: if_splits sum.splits)
  have r: "map drive_rank_of (number_drives ?ps) = map drive_rank_of ?ps"
    by (intro nth_equalityI) (simp_all add: number_drives_nth drive_rank_of_def)
  have m: "map (\<lambda>p. p\<lparr>phy_drive := 0\<rparr>) (number_drives ?ps) = ?ps"
  proof (intro nth_equalityI)
    fix i assume "i < length (map (\<lambda>p. p\<lparr>phy_drive := 0\<rparr>) (number_drives ?ps))"
    then have i: "i < length ?ps" by simp
    then have "phy_drive (?ps ! i) = 0" using z nth_mem by blast
    then show "map (\<lambda>p. p\<lparr>phy_drive := 0\<rparr>) (number_drives ?ps) ! i = ?ps ! i"
      using i by (cases "?ps ! i") (simp add: number_drives_nth del: length_sort)
  qed simp
  show ?thesis using r m by (simp add: enumerate_disks_def number_drives_nth)
qed

definition sample_block :: "string \<Rightarrow> bool \<Rightarrow> u64 \<Rightarrow> sys_block" where
  "sample_block n usb sz = \<lparr>sb_name = n, sb_dev_exists = True, sb_whole = True, sb_size = Inr sz, sb_model = [],
     sb_removable = usb, sb_usb = usb, sb_logical = 512, sb_physical = 512\<rparr>"

lemma enumerate_disks_order_witness:
  "map disk_path (enumerate_disks [sample_block ''sda'' False 9, sample_block ''loop0'' False 5, sample_block ''sdb'' True 1]) =
     [''/dev/sdb'', ''/dev/sda'']"
proof -
  let ?es = "[sample_block ''sda'' False 9, sample_block ''loop0'' False 5, sample_block ''sdb'' True 1]"
  have f: "List.map_filter drive_of ?es = [the (drive_of (sample_block ''sda'' False 9)), the (drive_of (sample_block ''sdb'' True 1))]"
    by (simp add: map_filter_simps drive_of_def sample_block_def skipped_name_def starts_with_def)
  have e: "enumerate_disks ?es = number_drives (sort_key drive_rank_of (List.map_filter drive_of ?es))"
    by (simp add: enumerate_disks_def)
  show ?thesis
    using enumerate_disks_order [of ?es] unfolding e f
    by (simp add: drive_of_def sample_block_def skipped_name_def starts_with_def drive_rank_of_def number_drives_def)
qed

text \<open>A \<open>PartitionSlice\<close> write changes no byte outside its partition, never moves the
  cursor past its end, and what it wrote is what the next read at the same position returns.\<close>

theorem slice_write_confined:
  assumes "slice_fits s" and "slice_write lim d s buf = Inr (d', s', n)"
  shows "(\<forall>i. i \<notin> slice_range s \<longrightarrow> dbytes d' i = dbytes d i) \<and> dsize d' = dsize d \<and> n \<le> length buf \<and>
    unat (current_pos s') = unat (current_pos s) + n \<and> unat (current_pos s') \<le> unat (ps_size s) \<and>
    (\<forall>lim2 s2 bs. slice_read lim2 d' s n = Inr (s2, bs) \<longrightarrow> bs = take (length bs) buf)"
proof -
  note w = slice_write_frame [OF assms]
  have "bs = take (length bs) buf" if r: "slice_read lim2 d' s n = Inr (s2, bs)" for lim2 s2 bs
    using slice_read_content [OF assms(1) r] w(1,4) by (auto intro!: nth_equalityI)
  then show ?thesis using w by blast
qed

lemma slice_write_confined_witness:
  "\<exists>d' s' n. slice_write 512 \<lparr>dsize = 100, dbytes = (\<lambda>_. 0)\<rparr> (partition_slice_new 10 2) [1, 2, 3] = Inr (d', s', n) \<and>
     dbytes d' 12 = 0 \<and> n = 2"
proof -
  let ?d = "\<lparr>dsize = 100, dbytes = (\<lambda>_. 0)\<rparr>" and ?s = "partition_slice_new 10 2"
  have f: "slice_fits ?s" by (simp add: slice_fits_def partition_slice_new_def)
  obtain d' s' where w: "slice_write 512 ?d ?s [1, 2, 3] = Inr (d', s', 2)"
    by (simp add: slice_write_def partition_slice_new_def file_seek_def file_write_def disk_write_def Let_def)
  from slice_write_confined [OF f w] have "dbytes d' 12 = 0"
    by (simp add: slice_range_def partition_slice_new_def)
  with w show ?thesis by blast
qed

end
