(* ===== verification/Ata.thy ===== *)
theory Ata
  imports Prelude
begin

text \<open>
  The ATA PIO driver of the BIOS kernel (\<open>kernel/src/ata.rs\<close>, \<open>io.rs\<close>). The
  controller behind the ports is a parameter: the three port operations over a device
  state. A reference controller with the register shadowing of LBA48 shows what the
  driver's command sequence means, and gives the sector source the scanners read from.
\<close>

section \<open>The driver\<close>

record 'd port_io =
  inb :: "u16 \<Rightarrow> 'd \<Rightarrow> u8 \<times> 'd"
  outb :: "u16 \<Rightarrow> u8 \<Rightarrow> 'd \<Rightarrow> 'd"
  inw :: "u16 \<Rightarrow> 'd \<Rightarrow> u16 \<times> 'd"

definition ATA_DATA :: u16 where "ATA_DATA = 0x1F0"
definition ATA_SECCOUNT :: u16 where "ATA_SECCOUNT = 0x1F2"
definition ATA_LBA_LO :: u16 where "ATA_LBA_LO = 0x1F3"
definition ATA_LBA_MID :: u16 where "ATA_LBA_MID = 0x1F4"
definition ATA_LBA_HI :: u16 where "ATA_LBA_HI = 0x1F5"
definition ATA_DRIVE :: u16 where "ATA_DRIVE = 0x1F6"
definition ATA_STATUS :: u16 where "ATA_STATUS = 0x1F7"
definition ATA_CMD :: u16 where "ATA_CMD = 0x1F7"

lemmas ata_ports = ATA_DATA_def ATA_SECCOUNT_def ATA_LBA_LO_def ATA_LBA_MID_def ATA_LBA_HI_def
  ATA_DRIVE_def ATA_STATUS_def ATA_CMD_def

text \<open>\<open>while inb(ATA_STATUS) & mask != 0 {}\<close>: no bound in the code, fuel here.\<close>

fun wait_clear :: "'d port_io \<Rightarrow> u8 \<Rightarrow> nat \<Rightarrow> 'd \<Rightarrow> 'd outcome" where
  "wait_clear io m 0 dev = Spin"
| "wait_clear io m (Suc n) dev =
     (let (status, dev1) = inb io ATA_STATUS dev
      in if status AND m \<noteq> 0 then wait_clear io m n dev1 else Done dev1)"

definition out_seq :: "'d port_io \<Rightarrow> (u16 \<times> u8) list \<Rightarrow> 'd \<Rightarrow> 'd" where
  "out_seq io writes dev = fold (\<lambda>(port, val) s. outb io port val s) writes dev"

definition ata_command :: "u64 \<Rightarrow> (u16 \<times> u8) list" where
  "ata_command lba =
     (if lba > 0x0FFFFFFF then
        [(ATA_DRIVE, 0x40), (ATA_SECCOUNT, 0), (ATA_LBA_LO, ucast (drop_bit 24 lba)),
         (ATA_LBA_MID, ucast (drop_bit 32 lba)), (ATA_LBA_HI, ucast (drop_bit 40 lba)),
         (ATA_SECCOUNT, 1), (ATA_LBA_LO, ucast lba), (ATA_LBA_MID, ucast (drop_bit 8 lba)),
         (ATA_LBA_HI, ucast (drop_bit 16 lba)), (ATA_CMD, 0x24)]
      else
        [(ATA_DRIVE, 0xE0 OR (ucast (drop_bit 24 lba) AND 0x0F)), (ATA_SECCOUNT, 1),
         (ATA_LBA_LO, ucast lba), (ATA_LBA_MID, ucast (drop_bit 8 lba)),
         (ATA_LBA_HI, ucast (drop_bit 16 lba)), (ATA_CMD, 0x20)])"

fun inb_n :: "'d port_io \<Rightarrow> nat \<Rightarrow> 'd \<Rightarrow> 'd" where
  "inb_n io 0 dev = dev"
| "inb_n io (Suc n) dev = inb_n io n (snd (inb io ATA_STATUS dev))"

text \<open>The bounded poll for data: \<open>None\<close> is \<open>return false\<close>. The counter starts at 0xFFFFF.\<close>

fun poll_data :: "'d port_io \<Rightarrow> nat \<Rightarrow> 'd \<Rightarrow> unit option \<times> 'd" where
  "poll_data io 0 dev = (None, dev)"
| "poll_data io (Suc timeout) dev =
     (let (status, dev1) = inb io ATA_STATUS dev
      in if status AND 0x01 \<noteq> 0 then (None, dev1)
         else if status AND 0x08 \<noteq> 0 then (Some (), dev1)
         else poll_data io timeout dev1)"

fun inw_n :: "'d port_io \<Rightarrow> nat \<Rightarrow> 'd \<Rightarrow> bytes \<times> 'd" where
  "inw_n io 0 dev = ([], dev)"
| "inw_n io (Suc n) dev =
     (let (w, dev1) = inw io ATA_DATA dev; (bs, dev2) = inw_n io n dev1
      in (to_le 2 w @ bs, dev2))"

text \<open>\<open>Some bs\<close> is the return value true with the buffer \<open>bs\<close>.\<close>

definition ata_read_sector :: "'d port_io \<Rightarrow> nat \<Rightarrow> u64 \<Rightarrow> 'd \<Rightarrow> (bytes option \<times> 'd) outcome" where
  "ata_read_sector io fuel lba dev =
     (let (status, dev1) = inb io ATA_STATUS dev
      in if status = 0xFF then Done (None, dev1) else
         obind (wait_clear io 0x80 fuel dev1) (\<lambda>dev2.
         obind (wait_clear io 0x08 fuel dev2) (\<lambda>dev3.
           let dev4 = inb_n io 4 (out_seq io (ata_command lba) dev3);
               (ok, dev5) = poll_data io 0xFFFFF dev4
           in case ok of None \<Rightarrow> Done (None, dev5)
              | Some _ \<Rightarrow> let (bs, dev6) = inw_n io 256 dev5 in Done (Some bs, dev6))))"

text \<open>
  \<open>ata_read_sectors\<close>: the destination as it is after each sector and whether all were
  read; a failure leaves the sectors read before it in place.
\<close>

fun ata_read_sectors_from ::
  "'d port_io \<Rightarrow> nat \<Rightarrow> u64 \<Rightarrow> nat \<Rightarrow> nat \<Rightarrow> bytes \<Rightarrow> 'd \<Rightarrow> (bool \<times> bytes \<times> 'd) outcome" where
  "ata_read_sectors_from io fuel lba i 0 dst dev = Done (True, dst, dev)"
| "ata_read_sectors_from io fuel lba i (Suc n) dst dev =
     (let off = i * 512
      in if off + 512 > length dst then Done (False, dst, dev)
         else obind (ata_read_sector io fuel (lba + word_of_nat i) dev) (\<lambda>(r, dev1).
                case r of None \<Rightarrow> Done (False, dst, dev1)
                | Some buf \<Rightarrow> obind (of_opt (blit dst off buf)) (\<lambda>dst1.
                    ata_read_sectors_from io fuel lba (Suc i) n dst1 dev1)))"

definition ata_read_sectors ::
  "'d port_io \<Rightarrow> nat \<Rightarrow> u64 \<Rightarrow> bytes \<Rightarrow> u32 \<Rightarrow> 'd \<Rightarrow> (bool \<times> bytes \<times> 'd) outcome" where
  "ata_read_sectors io fuel lba dst sector_count dev =
     ata_read_sectors_from io fuel lba 0 (unat sector_count) dst dev"

lemma inw_n_length: "length (fst (inw_n io n dev)) = 2 * n"
  by (induction n arbitrary: dev) (simp_all add: Let_def split_beta)

lemma ata_read_sector_length:
  assumes "ata_read_sector io fuel lba dev = Done (Some bs, dev')"
  shows "length bs = 512"
proof -
  from assms obtain dev5 where "bs = fst (inw_n io 256 dev5)"
    by (auto simp: ata_read_sector_def Let_def split_beta obind_Done_iff simp del: inw_n.simps poll_data.simps
        split: if_splits option.splits)
  then show ?thesis using inw_n_length [of io 256] by simp
qed

section \<open>A reference controller\<close>

text \<open>
  Each address register keeps the value written before the current one, as LBA48
  requires. A command with the sector count 1 loads the sector; \<open>dv_latency\<close> status
  reads show BSY before the data is ready.
\<close>

record ata_dev =
  dv_count :: "u8 \<times> u8"
  dv_lo :: "u8 \<times> u8"
  dv_mid :: "u8 \<times> u8"
  dv_hi :: "u8 \<times> u8"
  dv_drive :: u8
  dv_busy :: nat
  dv_error :: bool
  dv_data :: bytes
  dv_latency :: nat
  dv_disk :: "u64 \<Rightarrow> bytes option"

definition dev_lba28 :: "ata_dev \<Rightarrow> u64" where
  "dev_lba28 s = from_le [fst (dv_lo s), fst (dv_mid s), fst (dv_hi s), dv_drive s AND 0x0F]"

definition dev_lba48 :: "ata_dev \<Rightarrow> u64" where
  "dev_lba48 s = from_le [fst (dv_lo s), fst (dv_mid s), fst (dv_hi s), snd (dv_lo s), snd (dv_mid s), snd (dv_hi s)]"

definition dev_load :: "ata_dev \<Rightarrow> u64 \<Rightarrow> ata_dev" where
  "dev_load s lba =
     (case (if fst (dv_count s) = 1 \<and> bit (dv_drive s) 6 then dv_disk s lba else None) of
        None \<Rightarrow> s\<lparr>dv_busy := dv_latency s, dv_error := True, dv_data := []\<rparr>
      | Some bs \<Rightarrow> s\<lparr>dv_busy := dv_latency s, dv_error := False, dv_data := bs\<rparr>)"

definition dev_outb :: "u16 \<Rightarrow> u8 \<Rightarrow> ata_dev \<Rightarrow> ata_dev" where
  "dev_outb port v s =
     (if port = ATA_SECCOUNT then s\<lparr>dv_count := (v, fst (dv_count s))\<rparr>
      else if port = ATA_LBA_LO then s\<lparr>dv_lo := (v, fst (dv_lo s))\<rparr>
      else if port = ATA_LBA_MID then s\<lparr>dv_mid := (v, fst (dv_mid s))\<rparr>
      else if port = ATA_LBA_HI then s\<lparr>dv_hi := (v, fst (dv_hi s))\<rparr>
      else if port = ATA_DRIVE then s\<lparr>dv_drive := v\<rparr>
      else if port = ATA_CMD then
        (if v = 0x20 then dev_load s (dev_lba28 s)
         else if v = 0x24 then dev_load s (dev_lba48 s) else s\<lparr>dv_error := True\<rparr>)
      else s)"

definition dev_inb :: "u16 \<Rightarrow> ata_dev \<Rightarrow> u8 \<times> ata_dev" where
  "dev_inb port s =
     (if port = ATA_STATUS then
        (if dv_busy s > 0 then (0x80, s\<lparr>dv_busy := dv_busy s - 1\<rparr>)
         else if dv_error s then (0x41, s)
         else if dv_data s \<noteq> [] then (0x48, s) else (0x40, s))
      else (0, s))"

definition dev_inw :: "u16 \<Rightarrow> ata_dev \<Rightarrow> u16 \<times> ata_dev" where
  "dev_inw port s = (from_le (take 2 (dv_data s)), s\<lparr>dv_data := drop 2 (dv_data s)\<rparr>)"

definition dev_io :: "ata_dev port_io" where
  "dev_io = \<lparr>inb = dev_inb, outb = dev_outb, inw = dev_inw\<rparr>"

definition dev_idle :: "ata_dev \<Rightarrow> bool" where
  "dev_idle s \<longleftrightarrow> dv_busy s = 0 \<and> \<not> dv_error s \<and> dv_data s = []"

section \<open>The command selects the sector\<close>

lemma unat_drop_bit: "unat (drop_bit n w) = unat w div 2 ^ n"
  by (metis drop_bit_eq_div unat_drop_bit_eq)

lemma byte_of_nat: "(word_of_nat (k mod 256) :: u8) = word_of_nat k"
  by (simp add: word_of_nat_eq_iff take_bit_eq_mod)

lemma byte_of_lba: "word_of_nat (unat lba div 2 ^ n) = (ucast (drop_bit n (lba :: u64)) :: u8)"
  by (simp flip: unat_drop_bit)

lemma lba_nat_le:
  "nat_le (Suc (Suc (Suc (Suc (Suc (Suc 0)))))) (unat lba) =
    [ucast lba, ucast (drop_bit 8 lba), ucast (drop_bit 16 lba), ucast (drop_bit 24 lba),
     ucast (drop_bit 32 lba), ucast (drop_bit 40 lba)]" for lba :: u64
  using byte_of_lba [of lba 0] byte_of_lba [of lba 8] byte_of_lba [of lba 16] byte_of_lba [of lba 24]
    byte_of_lba [of lba 32] byte_of_lba [of lba 40]
  by (simp add: byte_of_nat div_mult2_eq [symmetric])

lemma command_lba48:
  assumes "unat lba < 2 ^ 48"
  shows "(from_le [ucast lba, ucast (drop_bit 8 lba), ucast (drop_bit 16 lba), ucast (drop_bit 24 lba),
    ucast (drop_bit 32 lba), ucast (drop_bit 40 lba)] :: u64) = lba"
  unfolding lba_nat_le [symmetric] from_le_def le_nat_nat_le using assms by simp

lemma lba_nat_le4:
  "nat_le (Suc (Suc (Suc (Suc 0)))) (unat lba) =
    [ucast lba, ucast (drop_bit 8 lba), ucast (drop_bit 16 lba), ucast (drop_bit 24 lba)]" for lba :: u64
  using byte_of_lba [of lba 0] byte_of_lba [of lba 8] byte_of_lba [of lba 16] byte_of_lba [of lba 24]
  by (simp add: byte_of_nat div_mult2_eq [symmetric])

lemma command_lba28:
  fixes lba :: u64
  assumes "unat lba < 2 ^ 28"
  shows "(from_le [ucast lba, ucast (drop_bit 8 lba), ucast (drop_bit 16 lba),
    (0xE0 OR (ucast (drop_bit 24 lba) AND 0x0F)) AND 0x0F] :: u64) = lba"
proof -
  let ?x = "ucast (drop_bit 24 lba) :: u8"
  have "unat lba div 2 ^ 24 < 16" using assms by (simp add: less_mult_imp_div_less)
  then have "unat ?x < 16"
    by (simp add: unsigned_ucast_eq unsigned_take_bit_eq take_bit_eq_mod unat_drop_bit)
  then have "?x < 2 ^ 4" by (simp add: word_less_nat_alt)
  from less_mask_eq [OF this] have "?x AND 0x0F = ?x" by (simp add: mask_eq_exp_minus_1)
  moreover have "(0xE0 OR (?x AND 0x0F)) AND 0x0F = ?x AND 0x0F"
    by (simp add: bit.conj_disj_distrib2 and.assoc)
  ultimately have e: "(0xE0 OR (?x AND 0x0F)) AND 0x0F = ?x" by simp
  show ?thesis
    unfolding e lba_nat_le4 [symmetric] from_le_def le_nat_nat_le using assms by simp
qed

text \<open>The state of the controller after the command for \<open>lba\<close>.\<close>

lemma command_loads:
  assumes "unat lba < 2 ^ 48"
  shows "\<exists>t. out_seq dev_io (ata_command lba) s = dev_load t lba \<and> fst (dv_count t) = 1 \<and>
    bit (dv_drive t) 6 \<and> dv_disk t = dv_disk s \<and> dv_latency t = dv_latency s"
proof (rule exI [of _ "out_seq dev_io (butlast (ata_command lba)) s"])
  let ?t = "out_seq dev_io (butlast (ata_command lba)) s"
  show "out_seq dev_io (ata_command lba) s = dev_load ?t lba \<and> fst (dv_count ?t) = 1 \<and>
    bit (dv_drive ?t) 6 \<and> dv_disk ?t = dv_disk s \<and> dv_latency ?t = dv_latency s"
  proof (cases "lba > 0x0FFFFFFF")
    case True
    then show ?thesis using command_lba48 [OF assms]
      by (simp add: ata_command_def out_seq_def dev_io_def dev_outb_def ata_ports dev_lba48_def)
  next
    case False
    then have "unat lba < 2 ^ 28" by (simp add: word_less_nat_alt)
    from command_lba28 [OF this] False show ?thesis
      by (simp add: ata_command_def out_seq_def dev_io_def dev_outb_def ata_ports dev_lba28_def bit_or_iff)
  qed
qed

section \<open>The data transfer\<close>

lemma inb_n_dev: "inb_n dev_io k s = s\<lparr>dv_busy := dv_busy s - k\<rparr>"
  by (induction k arbitrary: s) (auto simp: dev_io_def dev_inb_def)

lemma poll_data_dev:
  "dv_busy s < n \<Longrightarrow> \<not> dv_error s \<Longrightarrow> dv_data s \<noteq> [] \<Longrightarrow>
     poll_data dev_io n s = (Some (), s\<lparr>dv_busy := 0\<rparr>)"
proof (induction n arbitrary: s)
  case (Suc n)
  show ?case
  proof (cases "dv_busy s")
    case 0
    then show ?thesis using Suc.prems by (simp add: dev_io_def dev_inb_def)
  next
    case (Suc b)
    have i: "inb dev_io ATA_STATUS s = (0x80, s\<lparr>dv_busy := b\<rparr>)" using Suc by (simp add: dev_io_def dev_inb_def)
    show ?thesis using Suc.IH [of "s\<lparr>dv_busy := b\<rparr>"] Suc.prems Suc by (simp add: i)
  qed
qed simp

lemma poll_data_error:
  "dv_busy s < n \<Longrightarrow> dv_error s \<Longrightarrow> poll_data dev_io n s = (None, s\<lparr>dv_busy := 0\<rparr>)"
proof (induction n arbitrary: s)
  case (Suc n)
  show ?case
  proof (cases "dv_busy s")
    case 0
    then show ?thesis using Suc.prems by (simp add: dev_io_def dev_inb_def)
  next
    case (Suc b)
    have i: "inb dev_io ATA_STATUS s = (0x80, s\<lparr>dv_busy := b\<rparr>)" using Suc by (simp add: dev_io_def dev_inb_def)
    show ?thesis using Suc.IH [of "s\<lparr>dv_busy := b\<rparr>"] Suc.prems Suc by (simp add: i)
  qed
qed simp

lemma inw_n_dev:
  "length (dv_data s) = 2 * n \<Longrightarrow> inw_n dev_io n s = (dv_data s, s\<lparr>dv_data := []\<rparr>)"
proof (induction n arbitrary: s)
  case (Suc n)
  have "inw dev_io ATA_DATA s = (from_le (take 2 (dv_data s)), s\<lparr>dv_data := drop 2 (dv_data s)\<rparr>)"
    by (simp add: dev_io_def dev_inw_def)
  moreover have "to_le 2 (from_le (take 2 (dv_data s)) :: u16) = take 2 (dv_data s)"
  proof -
    have l: "length (take 2 (dv_data s)) = 2" using Suc.prems by simp
    show ?thesis using to_le_from_le [of "take 2 (dv_data s)", where ?'a = 16, unfolded l] by simp
  qed
  ultimately show ?case
    using Suc.IH [of "s\<lparr>dv_data := drop 2 (dv_data s)\<rparr>"] Suc.prems by simp
qed simp

text \<open>What one read does on an idle controller.\<close>

lemma ata_read_idle:
  assumes idle: "dev_idle s" and lat: "dv_latency s < 0xFFFFF" and lba: "unat lba < 2 ^ 48"
    and disk: "\<And>l bs. dv_disk s l = Some bs \<Longrightarrow> length bs = 512"
  shows "\<exists>s'. ata_read_sector dev_io (Suc fuel) lba s = Done (dv_disk s lba, s') \<and>
    dv_disk s' = dv_disk s \<and> dv_latency s' = dv_latency s \<and> dv_busy s' = 0 \<and> dv_data s' = [] \<and>
    (dv_disk s lba \<noteq> None \<longrightarrow> \<not> dv_error s')"
proof -
  have st: "inb dev_io ATA_STATUS s = (0x40, s)"
    using idle by (simp add: dev_io_def dev_inb_def dev_idle_def)
  obtain t where t: "out_seq dev_io (ata_command lba) s = dev_load t lba" "fst (dv_count t) = 1"
    "bit (dv_drive t) 6" "dv_disk t = dv_disk s" "dv_latency t = dv_latency s"
    using command_loads [OF lba] by blast
  have run: "ata_read_sector dev_io (Suc fuel) lba s =
    (let (ok, dev5) = poll_data dev_io 0xFFFFF (inb_n dev_io 4 (dev_load t lba))
     in case ok of None \<Rightarrow> Done (None, dev5)
        | Some _ \<Rightarrow> let (bs, dev6) = inw_n dev_io 256 dev5 in Done (Some bs, dev6))"
    by (simp add: ata_read_sector_def st t(1) Let_def del: inb_n.simps poll_data.simps inw_n.simps)
  show ?thesis
  proof (cases "dv_disk s lba")
    case None
    define u where "u = inb_n dev_io 4 (dev_load t lba)"
    have u: "u = t\<lparr>dv_busy := dv_latency s - 4, dv_error := True, dv_data := []\<rparr>"
      using None t by (simp add: u_def inb_n_dev dev_load_def del: inb_n.simps)
    have "poll_data dev_io 0xFFFFF u = (None, u\<lparr>dv_busy := 0\<rparr>)"
      by (rule poll_data_error) (use lat in \<open>simp_all add: u\<close>)
    then show ?thesis using run None t by (simp add: u_def [symmetric]) (simp add: u)
  next
    case (Some bs)
    define u where "u = inb_n dev_io 4 (dev_load t lba)"
    have u: "u = t\<lparr>dv_busy := dv_latency s - 4, dv_error := False, dv_data := bs\<rparr>"
      using Some t by (simp add: u_def inb_n_dev dev_load_def del: inb_n.simps)
    have l: "length bs = 512" by (rule disk [OF Some])
    have p: "poll_data dev_io 0xFFFFF u = (Some (), u\<lparr>dv_busy := 0\<rparr>)"
      by (rule poll_data_dev) (use lat l in \<open>auto simp: u\<close>)
    have i: "inw_n dev_io 256 (u\<lparr>dv_busy := 0\<rparr>) = (bs, u\<lparr>dv_busy := 0, dv_data := []\<rparr>)"
      using inw_n_dev [of "u\<lparr>dv_busy := 0\<rparr>" 256] l by (simp add: u del: inw_n.simps)
    show ?thesis using run Some t p i by (simp add: u_def [symmetric]) (simp add: u)
  qed
qed

section \<open>The sector source of the kernel\<close>

text \<open>
  The kernel never writes the disk, so a read is a function of the sector number: what
  the driver returns on an idle controller with the disk \<open>D\<close>.
\<close>

definition idle_dev :: "(u64 \<Rightarrow> bytes option) \<Rightarrow> ata_dev" where
  "idle_dev D = \<lparr>dv_count = (0, 0), dv_lo = (0, 0), dv_mid = (0, 0), dv_hi = (0, 0), dv_drive = 0,
     dv_busy = 0, dv_error = False, dv_data = [], dv_latency = 0, dv_disk = D\<rparr>"

definition ata_rd :: "(u64 \<Rightarrow> bytes option) \<Rightarrow> u64 \<Rightarrow> bytes option" where
  "ata_rd D lba = (case ata_read_sector dev_io 1 lba (idle_dev D) of Done (r, _) \<Rightarrow> r | _ \<Rightarrow> None)"

interpretation ata: sector_source "ata_rd D" for D
  by unfold_locales (auto simp: ata_rd_def dest: ata_read_sector_length split: outcome.splits)

lemma ata_rd_disk:
  assumes "unat lba < 2 ^ 48" and "\<And>l bs. D l = Some bs \<Longrightarrow> length bs = 512"
  shows "ata_rd D lba = D lba"
proof -
  have "dev_idle (idle_dev D)" "dv_latency (idle_dev D) < 0xFFFFF" "dv_disk (idle_dev D) = D"
    by (simp_all add: dev_idle_def idle_dev_def)
  with ata_read_idle [of "idle_dev D" lba 0] assms show ?thesis
    by (fastforce simp: ata_rd_def)
qed

text \<open>The command sequence of \<open>ata_read_sector\<close> selects the right sector and transfers it
  whole: on an idle controller with the LBA48 register shadowing, for every sector number below 2^48 (both
  addressing modes) and any latency below the poll limit, the read returns the 512 bytes of that sector, or
  false when the drive reports an error, and leaves no data behind.\<close>

theorem ata_reads_selected_sector:
  assumes "dev_idle s" and "dv_latency s < 0xFFFFF" and "unat lba < 2 ^ 48"
    and "\<And>l bs. dv_disk s l = Some bs \<Longrightarrow> length bs = 512"
  shows "\<exists>s'. ata_read_sector dev_io (Suc fuel) lba s = Done (dv_disk s lba, s') \<and>
    dv_disk s' = dv_disk s \<and> dv_latency s' = dv_latency s \<and> dv_busy s' = 0 \<and> dv_data s' = [] \<and>
    (dv_disk s lba \<noteq> None \<longrightarrow> \<not> dv_error s')"
  by (rule ata_read_idle [OF assms])

lemma ata_reads_selected_sector_witness:
  "\<exists>s'. ata_read_sector dev_io 1 0x10000005 (idle_dev (\<lambda>l. if l = 0x10000005 then Some (replicate 512 9) else None)) =
     Done (Some (replicate 512 9), s')"
proof -
  let ?D = "\<lambda>l :: u64. if l = 0x10000005 then Some (replicate 512 (9 :: u8)) else None"
  have "dev_idle (idle_dev ?D)" "dv_latency (idle_dev ?D) < 0xFFFFF" "dv_disk (idle_dev ?D) = ?D"
    by (simp_all add: dev_idle_def idle_dev_def)
  with ata_reads_selected_sector [where s = "idle_dev ?D" and lba = "0x10000005" and fuel = 0] show ?thesis
    by (fastforce split: if_splits)
qed

end
