(* ===== verification/KernelFs.thy ===== *)
theory KernelFs
  imports Ata
begin

text \<open>
  The exFAT and FAT32 root directory scanners of the BIOS kernel (\<open>kernel/src/fs.rs\<close>,
  lines 7 to 335). The array \<open>files\<close> with \<open>file_count\<close> is the list of the entries
  stored so far. A loop along the cluster chain takes fuel, one unit per cluster.
\<close>

datatype fs_type = Exfat | Fat32 | Ntfs

record fs_ctx =
  cx_fs :: fs_type
  cx_part1_lba :: u32
  cx_spc :: u32
  cx_fat_start :: u64
  cx_fat_len :: u64
  cx_heap_start :: u64
  cx_root_cluster :: u32
  cx_mft_start_lba :: u64
  cx_sectors_per_cluster :: u32
  cx_mft_record_size :: u64

text \<open>A name is the 256-byte buffer and the number of bytes used.\<close>

record dir_entry =
  de_name :: bytes
  de_name_len :: nat
  de_start_lba :: u64
  de_size :: u64

definition name_buf :: "bytes \<Rightarrow> bytes" where
  "name_buf nm = nm @ replicate (256 - length nm) 0"

definition has_iso_suffix :: "bytes \<Rightarrow> bool" where
  "has_iso_suffix nm \<longleftrightarrow> 4 \<le> length nm \<and> eq_ignore_ascii_case (drop (length nm - 4) nm) (bstr ''.iso'')"

definition mk_entry :: "bytes \<Rightarrow> u64 \<Rightarrow> u64 \<Rightarrow> dir_entry" where
  "mk_entry nm lba sz = \<lparr>de_name = name_buf nm, de_name_len = length nm, de_start_lba = lba, de_size = sz\<rparr>"

definition cluster_lba :: "fs_ctx \<Rightarrow> u32 \<Rightarrow> u64" where
  "cluster_lba ctx cluster = cx_heap_start ctx + (ucast cluster - 2) * ucast (cx_spc ctx)"

section \<open>The FAT\<close>

definition read_fat_entry_raw :: "(u64 \<Rightarrow> bytes option) \<Rightarrow> u64 \<Rightarrow> u32 \<Rightarrow> u32 option" where
  "read_fat_entry_raw rd fat_start cluster =
     (let fat_sector = fat_start + ucast cluster * 4 div 512;
          fat_offset = unat ((ucast cluster :: u64) * 4 mod 512)
      in case rd fat_sector of
           None \<Rightarrow> Some 0xFFFFFFFF
         | Some buf \<Rightarrow> u32_at buf fat_offset)"

definition fat32_next_cluster :: "(u64 \<Rightarrow> bytes option) \<Rightarrow> u64 \<Rightarrow> u32 \<Rightarrow> u32 option" where
  "fat32_next_cluster rd fat_start cluster = map_option (\<lambda>v. v AND 0x0FFFFFFF) (read_fat_entry_raw rd fat_start cluster)"

definition exfat_next_cluster :: "(u64 \<Rightarrow> bytes option) \<Rightarrow> u64 \<Rightarrow> u32 \<Rightarrow> u32 option" where
  "exfat_next_cluster rd fat_start cluster = read_fat_entry_raw rd fat_start cluster"

section \<open>UTF-16LE to ASCII\<close>

fun utf16_chars :: "bytes \<Rightarrow> nat \<Rightarrow> bytes" where
  "utf16_chars (lo # hi # src) cap =
     (if cap = 0 then []
      else let cp = (ucast lo OR push_bit 8 (ucast hi)) :: u16
           in if cp = 0 then []
              else (if cp < 0x80 then ucast cp else 63) # utf16_chars src (cap - 1))"
| "utf16_chars src cap = []"

definition utf16le_to_ascii :: "bytes \<Rightarrow> nat \<Rightarrow> nat \<Rightarrow> bytes" where
  "utf16le_to_ascii src max_bytes cap = utf16_chars (take max_bytes src) cap"

section \<open>exFAT\<close>

text \<open>The name entries of a set: \<open>for ne in 0..name_ents\<close>; \<open>nm\<close> is \<open>name_buf[..name_pos]\<close>.\<close>

fun exfat_name :: "bytes \<Rightarrow> nat \<Rightarrow> nat \<Rightarrow> nat \<Rightarrow> bytes \<Rightarrow> bytes option" where
  "exfat_name ents noff name_len 0 nm = Some nm"
| "exfat_name ents noff name_len (Suc k) nm = do {
     ty \<leftarrow> idx ents noff;
     if ty \<noteq> 0xC1 then Some nm
     else let to_copy = min (min (name_len - length nm) 15) (256 - length nm)
          in if to_copy = 0 then Some nm
             else do {
               src \<leftarrow> slice ents (noff + 2) (length ents);
               exfat_name ents (noff + 32) name_len k (nm @ utf16le_to_ascii src (to_copy * 2) (256 - length nm)) } }"

datatype scan_step =
    Leave "dir_entry list"
  | NextSector bytes "dir_entry list"
  | Advance nat "dir_entry list"

text \<open>One turn of the entry loop at \<open>pos < n_entries\<close>.\<close>

definition exfat_entry ::
  "fs_ctx \<Rightarrow> nat \<Rightarrow> bytes \<Rightarrow> nat \<Rightarrow> nat \<Rightarrow> dir_entry list \<Rightarrow> scan_step option" where
  "exfat_entry ctx max_files ents n_entries pos files = do {
     etype \<leftarrow> idx ents (pos * 32);
     if etype = 0 then Some (Leave files)
     else if etype = 0x85 then do {
       sc \<leftarrow> idx ents (pos * 32 + 1);
       let sec_count = unat sc;
       if sec_count < 1 then Some (Advance (pos + 1) files)
       else
         let total_ents = 1 + sec_count
         in if pos + total_ents > n_entries then
              (let rem = length ents - pos * 32
               in if rem \<le> 608 then map_option (\<lambda>c. NextSector c files) (slice ents (pos * 32) (length ents))
                  else Some (NextSector [] files))
            else do {
              let stream_off = (pos + 1) * 32;
              st \<leftarrow> idx ents stream_off;
              if st \<noteq> 0xC0 then Some (Advance (pos + total_ents) files)
              else do {
                start_cl \<leftarrow> u32_at ents (stream_off + 20);
                fsize \<leftarrow> u64_at ents (stream_off + 24);
                nl \<leftarrow> idx ents (stream_off + 3);
                nm \<leftarrow> exfat_name ents ((pos + 2) * 32) (unat nl) (sec_count - 1) [];
                Some (Advance (pos + total_ents)
                  (if has_iso_suffix nm \<and> length files < max_files
                   then files @ [mk_entry nm (cluster_lba ctx start_cl) fsize] else files))
              }
            }
     }
     else Some (Advance (pos + 1) files)
   }"

fun exfat_entries ::
  "fs_ctx \<Rightarrow> nat \<Rightarrow> bytes \<Rightarrow> nat \<Rightarrow> nat \<Rightarrow> nat \<Rightarrow> dir_entry list \<Rightarrow> scan_step outcome" where
  "exfat_entries ctx max_files ents n_entries 0 pos files = Spin"
| "exfat_entries ctx max_files ents n_entries (Suc fuel) pos files =
     (if pos < n_entries then
        case exfat_entry ctx max_files ents n_entries pos files of
          None \<Rightarrow> Panic
        | Some (Advance pos' files') \<Rightarrow> exfat_entries ctx max_files ents n_entries fuel pos' files'
        | Some step \<Rightarrow> Done step
      else Done (NextSector [] files))"

text \<open>
  One sector: the carried bytes and the sector in the 1152-byte buffer \<open>combined\<close>. Each
  turn advances, so one unit of fuel more than there are entries is enough.
\<close>

definition exfat_sector :: "fs_ctx \<Rightarrow> nat \<Rightarrow> bytes \<Rightarrow> bytes \<Rightarrow> dir_entry list \<Rightarrow> scan_step outcome" where
  "exfat_sector ctx max_files carry buf files =
     obind (of_opt (blit (replicate 1152 0) 0 carry)) (\<lambda>c1.
     obind (of_opt (blit c1 (length carry) buf)) (\<lambda>c2.
       let total = length carry + 512; n_entries = total div 32
       in exfat_entries ctx max_files (take total c2) n_entries (n_entries + 1) 0 files))"

text \<open>The sectors of a cluster. A \<open>NextSector\<close> result carries into the next sector or cluster.\<close>

fun exfat_cluster ::
  "(u64 \<Rightarrow> bytes option) \<Rightarrow> fs_ctx \<Rightarrow> nat \<Rightarrow> u32 \<Rightarrow> nat \<Rightarrow> nat \<Rightarrow> bytes \<Rightarrow> dir_entry list \<Rightarrow> scan_step outcome" where
  "exfat_cluster rd ctx max_files cluster si 0 carry files = Done (NextSector carry files)"
| "exfat_cluster rd ctx max_files cluster si (Suc k) carry files =
     (case rd (cluster_lba ctx cluster + word_of_nat si) of
        None \<Rightarrow> Done (Leave files)
      | Some buf \<Rightarrow>
          obind (exfat_sector ctx max_files carry buf files) (\<lambda>r.
            case r of NextSector carry' files' \<Rightarrow> exfat_cluster rd ctx max_files cluster (si + 1) k carry' files'
            | _ \<Rightarrow> Done r))"

fun exfat_chain ::
  "(u64 \<Rightarrow> bytes option) \<Rightarrow> fs_ctx \<Rightarrow> nat \<Rightarrow> nat \<Rightarrow> u32 \<Rightarrow> bytes \<Rightarrow> dir_entry list \<Rightarrow> dir_entry list outcome" where
  "exfat_chain rd ctx max_files 0 cluster carry files = Spin"
| "exfat_chain rd ctx max_files (Suc fuel) cluster carry files =
     obind (exfat_cluster rd ctx max_files cluster 0 (unat (cx_spc ctx)) carry files) (\<lambda>r.
       case r of
         NextSector carry' files' \<Rightarrow>
           obind (of_opt (exfat_next_cluster rd (cx_fat_start ctx) cluster)) (\<lambda>nxt.
             if nxt < 2 \<or> nxt \<ge> 0xFFFFFFF8 then Done files'
             else exfat_chain rd ctx max_files fuel nxt carry' files')
       | Leave files' \<Rightarrow> Done files'
       | Advance _ files' \<Rightarrow> Done files')"

definition scan_exfat_dir ::
  "(u64 \<Rightarrow> bytes option) \<Rightarrow> nat \<Rightarrow> fs_ctx \<Rightarrow> nat \<Rightarrow> dir_entry list \<Rightarrow> dir_entry list outcome" where
  "scan_exfat_dir rd fuel ctx max_files files =
     exfat_chain rd ctx max_files fuel (cx_root_cluster ctx) [] files"

section \<open>FAT32\<close>

text \<open>\<open>for j in a..a+n\<close>: bytes up to the first blank.\<close>

definition until_blank :: "bytes \<Rightarrow> bytes" where
  "until_blank = takeWhile (\<lambda>c. c \<noteq> 0x20)"

definition short_name :: "bytes \<Rightarrow> bytes" where
  "short_name e = until_blank (take 8 e)
     @ (if e ! 8 \<noteq> 0x20 then 46 # until_blank (take 3 (drop 8 e)) else [])"

text \<open>One 32-byte entry that is neither the end mark nor deleted.\<close>

definition fat32_file :: "fs_ctx \<Rightarrow> bytes \<Rightarrow> dir_entry option" where
  "fat32_file ctx e =
     (if e ! 11 = 0x0F then None
      else if e ! 11 AND 0x08 \<noteq> 0 then None
      else if has_iso_suffix (short_name e)
           then Some (mk_entry (short_name e)
             (cluster_lba ctx (from_le [e ! 26, e ! 27, e ! 20, e ! 21]))
             (ucast (from_le (take 4 (drop 28 e)) :: u32)))
           else None)"

text \<open>The entry loop of a sector; \<open>None\<close> is the panic of an index out of range.\<close>

fun fat32_entries ::
  "fs_ctx \<Rightarrow> nat \<Rightarrow> bytes \<Rightarrow> nat \<Rightarrow> nat \<Rightarrow> dir_entry list \<Rightarrow> scan_step option" where
  "fat32_entries ctx max_files buf i 0 files = Some (NextSector [] files)"
| "fat32_entries ctx max_files buf i (Suc n) files = do {
     e \<leftarrow> slice buf (i * 32) (i * 32 + 32);
     if e ! 0 = 0 then Some (Leave files)
     else if e ! 0 = 0xE5 then fat32_entries ctx max_files buf (i + 1) n files
     else
       let files' = (case fat32_file ctx e of
             Some f \<Rightarrow> if length files < max_files then files @ [f] else files
           | None \<Rightarrow> files)
       in fat32_entries ctx max_files buf (i + 1) n files' }"

fun fat32_cluster ::
  "(u64 \<Rightarrow> bytes option) \<Rightarrow> fs_ctx \<Rightarrow> nat \<Rightarrow> u32 \<Rightarrow> nat \<Rightarrow> nat \<Rightarrow> dir_entry list \<Rightarrow> scan_step outcome" where
  "fat32_cluster rd ctx max_files cluster si 0 files = Done (NextSector [] files)"
| "fat32_cluster rd ctx max_files cluster si (Suc k) files =
     (case rd (cluster_lba ctx cluster + word_of_nat si) of
        None \<Rightarrow> Done (Leave files)
      | Some buf \<Rightarrow>
          obind (of_opt (fat32_entries ctx max_files buf 0 16 files)) (\<lambda>r.
            case r of NextSector _ files' \<Rightarrow> fat32_cluster rd ctx max_files cluster (si + 1) k files'
            | _ \<Rightarrow> Done r))"

fun fat32_chain ::
  "(u64 \<Rightarrow> bytes option) \<Rightarrow> fs_ctx \<Rightarrow> nat \<Rightarrow> nat \<Rightarrow> u32 \<Rightarrow> dir_entry list \<Rightarrow> dir_entry list outcome" where
  "fat32_chain rd ctx max_files 0 cluster files = Spin"
| "fat32_chain rd ctx max_files (Suc fuel) cluster files =
     obind (fat32_cluster rd ctx max_files cluster 0 (unat (cx_spc ctx)) files) (\<lambda>r.
       case r of
         NextSector _ files' \<Rightarrow>
           obind (of_opt (fat32_next_cluster rd (cx_fat_start ctx) cluster)) (\<lambda>nxt.
             if nxt < 2 \<or> nxt \<ge> 0x0FFFFFF0 then Done files'
             else fat32_chain rd ctx max_files fuel nxt files')
       | Leave files' \<Rightarrow> Done files'
       | Advance _ files' \<Rightarrow> Done files')"

definition scan_fat32_dir ::
  "(u64 \<Rightarrow> bytes option) \<Rightarrow> nat \<Rightarrow> fs_ctx \<Rightarrow> nat \<Rightarrow> dir_entry list \<Rightarrow> dir_entry list outcome" where
  "scan_fat32_dir rd fuel ctx max_files files =
     (if cx_root_cluster ctx = 0 then Done files
      else fat32_chain rd ctx max_files fuel (cx_root_cluster ctx) files)"

end
