(* ===== verification/KernelFsCorrect.thy ===== *)
theory KernelFsCorrect
  imports KernelFs
begin

text \<open>
  What the exFAT and FAT32 scanners of the kernel guarantee for any content of the disk:
  no index out of range, a bounded list of well-formed entries, an end when the cluster
  chain ends, and for FAT32 the exact list.
\<close>

section \<open>Lists of entries\<close>

definition entry_ok :: "dir_entry \<Rightarrow> bool" where
  "entry_ok e \<longleftrightarrow> length (de_name e) = 256 \<and> de_name_len e \<le> 256 \<and>
     has_iso_suffix (take (de_name_len e) (de_name e))"

definition grows :: "nat \<Rightarrow> dir_entry list \<Rightarrow> dir_entry list \<Rightarrow> bool" where
  "grows max_files files files' \<longleftrightarrow>
     (\<exists>new. files' = files @ new \<and> (\<forall>e\<in>set new. entry_ok e) \<and> (new \<noteq> [] \<longrightarrow> length files' \<le> max_files))"

lemma grows_refl [simp, intro]: "grows m files files"
  by (auto simp: grows_def)

lemma grows_trans:
  assumes "grows m a b" and "grows m b c"
  shows "grows m a c"
proof -
  obtain x where "b = a @ x" "\<forall>e\<in>set x. entry_ok e" "x \<noteq> [] \<longrightarrow> length b \<le> m"
    using assms(1) unfolding grows_def by blast
  moreover obtain y where "c = b @ y" "\<forall>e\<in>set y. entry_ok e" "y \<noteq> [] \<longrightarrow> length c \<le> m"
    using assms(2) unfolding grows_def by blast
  ultimately show ?thesis unfolding grows_def by (intro exI [of _ "x @ y"]) auto
qed

lemma grows_add: "entry_ok e \<Longrightarrow> length files < m \<Longrightarrow> grows m files (files @ [e])"
  by (auto simp: grows_def)

lemma mk_entry_ok: "has_iso_suffix nm \<Longrightarrow> length nm \<le> 256 \<Longrightarrow> entry_ok (mk_entry nm lba sz)"
  by (simp add: entry_ok_def mk_entry_def name_buf_def)

lemma grows_length: "grows m a b \<Longrightarrow> length a \<le> m \<Longrightarrow> length b \<le> m"
  by (auto simp: grows_def)

section \<open>exFAT entries stay in range\<close>

lemma utf16_chars_length: "length (utf16_chars src cap) \<le> cap"
  by (induction src cap rule: utf16_chars.induct) (auto simp: Let_def)

lemma exfat_name_total:
  assumes "length nm \<le> 256" and "noff + 32 * k \<le> length ents"
  shows "\<exists>r. exfat_name ents noff name_len k nm = Some r \<and> length r \<le> 256"
  using assms
proof (induction k arbitrary: noff nm)
  case (Suc k)
  let ?t = "min (min (name_len - length nm) 15) (256 - length nm)"
  let ?nm = "nm @ utf16le_to_ascii (drop (noff + 2) ents) (?t * 2) (256 - length nm)"
  have "length (utf16le_to_ascii (drop (noff + 2) ents) (?t * 2) (256 - length nm)) \<le> 256 - length nm"
    by (simp add: utf16le_to_ascii_def utf16_chars_length)
  then have "length ?nm \<le> 256" using Suc.prems(1) unfolding length_append by linarith
  from Suc.IH [OF this, of "noff + 32"] Suc.prems obtain r where
    "exfat_name ents (noff + 32) name_len k ?nm = Some r" "length r \<le> 256" by auto
  then show ?case using Suc.prems by (auto simp: bounds_simps Let_def)
qed simp

definition step_ok :: "nat \<Rightarrow> nat \<Rightarrow> nat \<Rightarrow> dir_entry list \<Rightarrow> scan_step \<Rightarrow> bool" where
  "step_ok m n pos files r \<longleftrightarrow> (case r of
       Leave f \<Rightarrow> grows m files f
     | NextSector c f \<Rightarrow> grows m files f \<and> length c \<le> 608 \<and> 32 dvd length c
     | Advance p f \<Rightarrow> grows m files f \<and> pos < p \<and> p \<le> n)"

lemma exfat_entry_total:
  assumes len: "length ents = n * 32" and pos: "pos < n"
  shows "\<exists>r. exfat_entry ctx m ents n pos files = Some r \<and> step_ok m n pos files r"
proof -
  have p: "pos * 32 + 32 \<le> length ents" using len pos by simp
  let ?sc = "unat (ents ! (pos * 32 + 1))"
  show ?thesis
  proof (cases "ents ! (pos * 32) = 0x85 \<and> \<not> ?sc < 1 \<and> \<not> pos + (1 + ?sc) > n")
    case True
    then have fit: "(pos + 2) * 32 + 32 * (?sc - 1) \<le> length ents"
      using len by (auto simp: algebra_simps) 
    have st: "(pos + 1) * 32 + 32 \<le> length ents" using True len by simp
    obtain nm where nm: "exfat_name ents ((pos + 2) * 32) (unat (ents ! ((pos + 1) * 32 + 3))) (?sc - 1) [] = Some nm"
      "length nm \<le> 256"
      using exfat_name_total [of "[]" "(pos + 2) * 32" "?sc - 1" ents] fit by auto
    show ?thesis
      using True p st nm by (auto simp: exfat_entry_def bounds_simps step_ok_def Let_def mk_entry_ok intro!: grows_add)
  next
    case False
    have "32 dvd length ents - pos * 32" using len by (simp flip: diff_mult_distrib)
    then show ?thesis
      using False p pos by (auto simp: exfat_entry_def bounds_simps step_ok_def Let_def)
  qed
qed

definition sector_ok :: "nat \<Rightarrow> dir_entry list \<Rightarrow> scan_step \<Rightarrow> bool" where
  "sector_ok m files r \<longleftrightarrow> (case r of
       Leave f \<Rightarrow> grows m files f
     | NextSector c f \<Rightarrow> grows m files f \<and> length c \<le> 608 \<and> 32 dvd length c
     | Advance p f \<Rightarrow> False)"

lemma sector_ok_trans: "grows m a b \<Longrightarrow> sector_ok m b r \<Longrightarrow> sector_ok m a r"
  by (auto simp: sector_ok_def split: scan_step.splits intro: grows_trans)

lemma exfat_entries_total:
  assumes "length ents = n * 32"
  shows "n < fuel + pos \<Longrightarrow> pos \<le> n \<Longrightarrow> \<exists>r. exfat_entries ctx m ents n fuel pos files = Done r \<and> sector_ok m files r"
proof (induction fuel arbitrary: pos files)
  case 0
  then show ?case by simp
next
  case (Suc fuel)
  show ?case
  proof (cases "pos < n")
    case True
    obtain r where r: "exfat_entry ctx m ents n pos files = Some r" "step_ok m n pos files r"
      using exfat_entry_total [OF assms True] by blast
    show ?thesis
    proof (cases r)
      case (Advance p f)
      then have "grows m files f" "n < fuel + p" "p \<le> n" using r(2) Suc.prems by (auto simp: step_ok_def)
      with Suc.IH [of p f] True r(1) Advance show ?thesis by (auto intro: sector_ok_trans)
    qed (use True r in \<open>auto simp: step_ok_def sector_ok_def\<close>)
  qed (simp add: sector_ok_def)
qed

lemma exfat_sector_total:
  assumes "length carry \<le> 608" and "32 dvd length carry" and "length buf = 512"
  shows "\<exists>r. exfat_sector ctx m carry buf files = Done r \<and> sector_ok m files r"
proof -
  let ?n = "(length carry + 512) div 32"
  let ?c = "carry @ buf @ replicate (1152 - (length carry + 512)) 0"
  have n: "?n * 32 = length carry + 512" using assms(2) by simp
  have b: "blit (replicate 1152 0) 0 carry = Some (carry @ replicate (1152 - length carry) 0)"
    using assms(1) by (simp add: bounds_simps)
  have b2: "blit (carry @ replicate (1152 - length carry) 0) (length carry) buf = Some ?c"
    using assms by (simp add: bounds_simps)
  have l: "length (take (length carry + 512) ?c) = ?n * 32" using assms n by simp
  have "exfat_sector ctx m carry buf files =
      exfat_entries ctx m (take (length carry + 512) ?c) ?n (?n + 1) 0 files"
    by (simp only: exfat_sector_def b b2 of_opt_simps obind.simps Let_def)
  then show ?thesis
    using exfat_entries_total [OF l, of "?n + 1" 0 ctx m files] by simp
qed

section \<open>Cluster chains\<close>

text \<open>The chain from \<open>cl\<close> reaches its end mark within \<open>n\<close> clusters.\<close>

fun chain_ends :: "(u32 \<Rightarrow> u32 option) \<Rightarrow> (u32 \<Rightarrow> bool) \<Rightarrow> nat \<Rightarrow> u32 \<Rightarrow> bool" where
  "chain_ends nxt stop 0 cl = False"
| "chain_ends nxt stop (Suc n) cl = (case nxt cl of None \<Rightarrow> True | Some v \<Rightarrow> stop v \<or> chain_ends nxt stop n v)"

text \<open>The sectors of a cluster and of a whole chain, when all of them can be read.\<close>

fun cluster_sectors :: "(u64 \<Rightarrow> bytes option) \<Rightarrow> fs_ctx \<Rightarrow> u32 \<Rightarrow> nat \<Rightarrow> nat \<Rightarrow> bytes list option" where
  "cluster_sectors rd ctx cl si 0 = Some []"
| "cluster_sectors rd ctx cl si (Suc k) = do {
     s \<leftarrow> rd (cluster_lba ctx cl + word_of_nat si);
     rest \<leftarrow> cluster_sectors rd ctx cl (si + 1) k;
     Some (s # rest) }"

fun chain_sectors ::
  "(u64 \<Rightarrow> bytes option) \<Rightarrow> fs_ctx \<Rightarrow> (u32 \<Rightarrow> u32 option) \<Rightarrow> (u32 \<Rightarrow> bool) \<Rightarrow> nat \<Rightarrow> u32 \<Rightarrow> bytes list option" where
  "chain_sectors rd ctx nxt stop 0 cl = None"
| "chain_sectors rd ctx nxt stop (Suc n) cl = do {
     ss \<leftarrow> cluster_sectors rd ctx cl 0 (unat (cx_spc ctx));
     v \<leftarrow> nxt cl;
     if stop v then Some ss
     else do { rest \<leftarrow> chain_sectors rd ctx nxt stop n v; Some (ss @ rest) } }"

section \<open>The FAT32 listing as a filter\<close>

definition sector_entries :: "bytes \<Rightarrow> bytes list" where
  "sector_entries s = map (\<lambda>j. take 32 (drop (j * 32) s)) [0..<16]"

definition fat32_listing :: "fs_ctx \<Rightarrow> bytes list \<Rightarrow> dir_entry list" where
  "fat32_listing ctx es =
     List.map_filter (\<lambda>e. if e ! 0 = 0xE5 then None else fat32_file ctx e) (takeWhile (\<lambda>e. e ! 0 \<noteq> 0) es)"

lemma room_left: "m - (l + min a (m - l)) = m - (l + a)" for a :: nat
  by (simp add: min_def)

lemma fat32_listing_append:
  "fat32_listing ctx (xs @ ys) =
     fat32_listing ctx xs @ (if \<exists>e\<in>set xs. e ! 0 = 0 then [] else fat32_listing ctx ys)"
proof (cases "\<exists>e\<in>set xs. e ! 0 = 0")
  case True
  then have "takeWhile (\<lambda>e. e ! 0 \<noteq> 0) (xs @ ys) = takeWhile (\<lambda>e. e ! 0 \<noteq> 0) xs"
    by (auto simp: takeWhile_append1)
  with True show ?thesis by (simp add: fat32_listing_def)
next
  case False
  then have "takeWhile (\<lambda>e. e ! 0 \<noteq> 0) (xs @ ys) = xs @ takeWhile (\<lambda>e. e ! 0 \<noteq> 0) ys"
    "takeWhile (\<lambda>e. e ! 0 \<noteq> 0) xs = xs"
    by (auto simp: takeWhile_append2 takeWhile_eq_all_conv)
  then have "fat32_listing ctx (xs @ ys) = fat32_listing ctx xs @ fat32_listing ctx ys"
    unfolding fat32_listing_def by (simp only:) (simp add: map_filter_def)
  with False show ?thesis by simp
qed

context sector_source
begin

lemma exfat_cluster_total:
  "length carry \<le> 608 \<Longrightarrow> 32 dvd length carry \<Longrightarrow>
     \<exists>r. exfat_cluster rd ctx m cl si k carry files = Done r \<and> sector_ok m files r"
proof (induction k arbitrary: si carry files)
  case 0
  then show ?case by (simp add: sector_ok_def)
next
  case (Suc k)
  show ?case
  proof (cases "rd (cluster_lba ctx cl + word_of_nat si)")
    case None
    then show ?thesis by (simp add: sector_ok_def)
  next
    case (Some buf)
    have "length buf = 512" by (rule rd_length [OF Some])
    then obtain r where r: "exfat_sector ctx m carry buf files = Done r" "sector_ok m files r"
      using exfat_sector_total [OF Suc.prems] by blast
    show ?thesis
    proof (cases r)
      case (NextSector c f)
      then have "grows m files f" "length c \<le> 608" "32 dvd length c" using r(2) by (auto simp: sector_ok_def)
      with Suc.IH [of c "si + 1" f] r(1) NextSector Some show ?thesis by (auto intro: sector_ok_trans)
    qed (use r Some in \<open>auto simp: sector_ok_def\<close>)
  qed
qed

lemma fat_offset_range: "unat ((ucast (c :: u32) :: u64) * 4 mod 512) + 4 \<le> 512"
proof -
  have e: "unat ((ucast c :: u64) * 4) = unat c * 4"
    using unsigned_less [of c, where ?'a = nat] by (subst unat_mult_no_wrap) (simp_all add: unsigned_ucast_eq take_bit_nat_eq_self)
  have "unat ((ucast c :: u64) * 4 mod 512) = unat c * 4 mod 512" by (simp add: unat_mod e)
  also have "\<dots> \<le> 508"
  proof -
    have "unat c * 4 mod 512 = 4 * (unat c mod 128)" using mult_mod_right [of 4 "unat c" 128] by (simp add: mult.commute)
    then show ?thesis by simp
  qed
  finally show ?thesis by simp
qed

lemma read_fat_total: "\<exists>v. read_fat_entry_raw rd fs c = Some v"
  using rd_length fat_offset_range [of c]
  by (auto simp: read_fat_entry_raw_def Let_def u32_at_def slice_def split: option.splits)

lemma exfat_chain_total:
  "length carry \<le> 608 \<Longrightarrow> 32 dvd length carry \<Longrightarrow>
     exfat_chain rd ctx m fuel cl carry files \<noteq> Panic \<and>
     (\<forall>f. exfat_chain rd ctx m fuel cl carry files = Done f \<longrightarrow> grows m files f)"
proof (induction fuel arbitrary: cl carry files)
  case (Suc fuel)
  obtain r where r: "exfat_cluster rd ctx m cl 0 (unat (cx_spc ctx)) carry files = Done r" "sector_ok m files r"
    using exfat_cluster_total [OF Suc.prems] by blast
  obtain v where v: "exfat_next_cluster rd (cx_fat_start ctx) cl = Some v"
    using read_fat_total by (auto simp: exfat_next_cluster_def)
  show ?case
  proof (cases r)
    case (NextSector c f)
    then have "grows m files f" "length c \<le> 608" "32 dvd length c" using r(2) by (auto simp: sector_ok_def)
    with Suc.IH [of c v f] r(1) v NextSector show ?thesis by (auto intro: grows_trans)
  qed (use r v in \<open>auto simp: sector_ok_def\<close>)
qed simp

lemma exfat_chain_ends:
  "length carry \<le> 608 \<Longrightarrow> 32 dvd length carry \<Longrightarrow>
   chain_ends (exfat_next_cluster rd (cx_fat_start ctx)) (\<lambda>v. v < 2 \<or> v \<ge> 0xFFFFFFF8) fuel cl \<Longrightarrow>
     exfat_chain rd ctx m fuel cl carry files \<noteq> Spin"
proof (induction fuel arbitrary: cl carry files)
  case (Suc fuel)
  obtain r where r: "exfat_cluster rd ctx m cl 0 (unat (cx_spc ctx)) carry files = Done r" "sector_ok m files r"
    using exfat_cluster_total [OF Suc.prems(1,2)] by blast
  obtain v where v: "exfat_next_cluster rd (cx_fat_start ctx) cl = Some v"
    using read_fat_total by (auto simp: exfat_next_cluster_def)
  show ?case
  proof (cases r)
    case (NextSector c f)
    then have "length c \<le> 608" "32 dvd length c" using r(2) by (auto simp: sector_ok_def)
    with Suc.IH [of c v f] Suc.prems(3) r(1) v NextSector show ?thesis by auto
  qed (use r v in auto)
qed simp

section \<open>FAT32\<close>

lemma fat32_entries_listing:
  "length buf = 512 \<Longrightarrow> i + n \<le> 16 \<Longrightarrow>
   fat32_entries ctx m buf i n files =
     (let es = map (\<lambda>j. take 32 (drop (j * 32) buf)) [i..<i + n];
          files' = files @ take (m - length files) (fat32_listing ctx es)
      in Some (if \<exists>e\<in>set es. e ! 0 = 0 then Leave files' else NextSector [] files'))"
proof (induction n arbitrary: i files)
  case 0
  then show ?case by (simp add: fat32_listing_def map_filter_simps)
next
  case (Suc n)
  let ?e = "take 32 (drop (i * 32) buf)"
  have up: "[i..<i + Suc n] = i # [Suc i..<Suc i + n]" by (simp add: upt_conv_Cons)
  have sl: "slice buf (i * 32) (i * 32 + 32) = Some ?e" using Suc.prems by (simp add: bounds_simps)
  have IH: "fat32_entries ctx m buf (Suc i) n f =
     (let es = map (\<lambda>j. take 32 (drop (j * 32) buf)) [Suc i..<Suc i + n];
          files' = f @ take (m - length f) (fat32_listing ctx es)
      in Some (if \<exists>e\<in>set es. e ! 0 = 0 then Leave files' else NextSector [] files'))" for f
    by (rule Suc.IH) (use Suc.prems in simp_all)
  consider "?e ! 0 = 0" | "?e ! 0 = 0xE5" | "?e ! 0 \<noteq> 0" "?e ! 0 \<noteq> 0xE5" by blast
  then show ?case
  proof cases
    case 1
    then show ?thesis unfolding up by (simp add: sl fat32_listing_def Let_def map_filter_simps)
  next
    case 2
    then show ?thesis unfolding up by (simp add: sl IH fat32_listing_def Let_def map_filter_simps del: upt_Suc)
  next
    case 3
    then show ?thesis unfolding up
      by (cases "fat32_file ctx ?e"; cases "length files < m")
         (auto simp: sl IH fat32_listing_def Let_def map_filter_simps take_Cons' simp del: upt_Suc)
  qed
qed

lemma fat32_cluster_total:
  "\<exists>r. fat32_cluster rd ctx m cl si k files = Done r \<and> (case r of Advance _ _ \<Rightarrow> False | _ \<Rightarrow> True)"
proof (induction k arbitrary: si files)
  case (Suc k)
  show ?case
  proof (cases "rd (cluster_lba ctx cl + word_of_nat si)")
    case (Some buf)
    have "length buf = 512" by (rule rd_length [OF Some])
    then show ?thesis using Suc.IH [of "si + 1"] Some
      by (simp add: fat32_entries_listing Let_def del: fat32_entries.simps)
  qed simp
qed simp

lemma fat32_chain_ends:
  "fat32_chain rd ctx m fuel cl files \<noteq> Panic \<and>
   (chain_ends (fat32_next_cluster rd (cx_fat_start ctx)) (\<lambda>v. v < 2 \<or> v \<ge> 0x0FFFFFF0) fuel cl \<longrightarrow>
     fat32_chain rd ctx m fuel cl files \<noteq> Spin)"
proof (induction fuel arbitrary: cl files)
  case (Suc fuel)
  obtain r where r: "fat32_cluster rd ctx m cl 0 (unat (cx_spc ctx)) files = Done r"
    "case r of Advance _ _ \<Rightarrow> False | _ \<Rightarrow> True"
    using fat32_cluster_total by blast
  obtain v where v: "fat32_next_cluster rd (cx_fat_start ctx) cl = Some v"
    using read_fat_total [of "cx_fat_start ctx" cl] by (auto simp: fat32_next_cluster_def)
  show ?case using r v Suc.IH [of v] by (cases r) auto
qed simp

text \<open>The listing of a whole cluster chain whose sectors can be read.\<close>

lemma fat32_cluster_listing:
  "cluster_sectors rd ctx cl si k = Some ss \<Longrightarrow>
   fat32_cluster rd ctx m cl si k files =
     (let es = concat (map sector_entries ss);
          files' = files @ take (m - length files) (fat32_listing ctx es)
      in Done (if \<exists>e\<in>set es. e ! 0 = 0 then Leave files' else NextSector [] files'))"
proof (induction k arbitrary: si ss files)
  case 0
  then show ?case by (simp add: fat32_listing_def map_filter_simps)
next
  case (Suc k)
  then obtain s rest where s: "rd (cluster_lba ctx cl + word_of_nat si) = Some s"
    and rest: "cluster_sectors rd ctx cl (si + 1) k = Some rest" and ss: "ss = s # rest"
    by (auto simp: bind_eq_Some_conv)
  have e: "fat32_entries ctx m s 0 16 files =
     (let es = sector_entries s; files' = files @ take (m - length files) (fat32_listing ctx es)
      in Some (if \<exists>e\<in>set es. e ! 0 = 0 then Leave files' else NextSector [] files'))"
    using fat32_entries_listing [OF rd_length [OF s], of 0 16] by (simp add: sector_entries_def del: upt_rec_numeral)
  show ?case
    using s e Suc.IH [OF rest] ss
    by (simp add: Let_def fat32_listing_append bex_Un room_left del: fat32_entries.simps)
qed

lemma fat32_chain_listing:
  "chain_sectors rd ctx (fat32_next_cluster rd (cx_fat_start ctx)) (\<lambda>v. v < 2 \<or> v \<ge> 0x0FFFFFF0) fuel cl = Some ss \<Longrightarrow>
   fat32_chain rd ctx m fuel cl files =
     Done (files @ take (m - length files) (fat32_listing ctx (concat (map sector_entries ss))))"
proof (induction fuel arbitrary: cl ss files)
  case (Suc fuel)
  then obtain s v where s: "cluster_sectors rd ctx cl 0 (unat (cx_spc ctx)) = Some s"
    and v: "fat32_next_cluster rd (cx_fat_start ctx) cl = Some v"
    by (auto simp: bind_eq_Some_conv)
  show ?case
  proof (cases "v < 2 \<or> v \<ge> 0x0FFFFFF0")
    case True
    then have "ss = s" using Suc.prems s v by simp
    then show ?thesis using True v fat32_cluster_listing [OF s] by (simp add: Let_def)
  next
    case False
    then obtain rest where rest: "chain_sectors rd ctx (fat32_next_cluster rd (cx_fat_start ctx))
        (\<lambda>v. v < 2 \<or> v \<ge> 0x0FFFFFF0) fuel v = Some rest" and ss: "ss = s @ rest"
      using Suc.prems s v by (auto simp: bind_eq_Some_conv)
    show ?thesis
      using False v fat32_cluster_listing [OF s] Suc.IH [OF rest] ss
      by (simp add: Let_def fat32_listing_append room_left)
  qed
qed simp

end

end
