(* ===== verification/KernelNtfs.thy ===== *)
theory KernelNtfs
  imports KernelFsCorrect
begin

text \<open>
  The NTFS scanner of the BIOS kernel (\<open>kernel/src/fs.rs\<close>, lines 337 to 656): the MFT
  record with its fixup, the walk over its attributes, the first data run of a file, the
  entries of the index root, and the dispatcher over the three file systems.
\<close>

section \<open>Variable-length integers\<close>

fun varlen_or :: "nat \<Rightarrow> bytes \<Rightarrow> u64" where
  "varlen_or i [] = 0"
| "varlen_or i (b # bs) = push_bit (i * 8) (ucast b) OR varlen_or (i + 1) bs"

definition parse_varlen_le :: "bytes \<Rightarrow> nat \<Rightarrow> u64" where
  "parse_varlen_le data n = varlen_or 0 (take (min (min (length data) n) 8) data)"

text \<open>The \<open>i64\<close> result is the 64-bit word of its two's complement.\<close>

definition parse_varlen_le_signed :: "bytes \<Rightarrow> nat \<Rightarrow> u64" where
  "parse_varlen_le_signed data n =
     (if n = 0 \<or> n > 8 then 0
      else let val = parse_varlen_le data n; bits = n * 8
           in if n < 8 \<and> val AND push_bit (bits - 1) 1 \<noteq> 0 then val - push_bit bits 1 else val)"

section \<open>MFT records\<close>

fun read_record ::
  "(u64 \<Rightarrow> bytes option) \<Rightarrow> u64 \<Rightarrow> nat \<Rightarrow> nat \<Rightarrow> bytes \<Rightarrow> bytes option outcome" where
  "read_record rd lba i 0 rec = Done (Some rec)"
| "read_record rd lba i (Suc n) rec =
     (case rd (lba + word_of_nat i) of
        None \<Rightarrow> Done None
      | Some sector \<Rightarrow> obind (of_opt (blit rec (i * 512) sector)) (\<lambda>rec1. read_record rd lba (i + 1) n rec1))"

fun fixup_loop :: "nat \<Rightarrow> nat \<Rightarrow> nat \<Rightarrow> u16 \<Rightarrow> bytes \<Rightarrow> bytes option" where
  "fixup_loop i 0 rec_size v rec = Some rec"
| "fixup_loop i (Suc n) rec_size v rec =
     (let pos = i * 512 - 2
      in if pos + 2 \<le> rec_size
         then do { r1 \<leftarrow> put rec pos (ucast v); r2 \<leftarrow> put r1 (pos + 1) (ucast (drop_bit 8 v));
                   fixup_loop (i + 1) n rec_size v r2 }
         else fixup_loop (i + 1) n rec_size v rec)"

definition mft_fixup :: "nat \<Rightarrow> bytes \<Rightarrow> bytes option" where
  "mft_fixup rec_size rec = do {
     fo \<leftarrow> u16_at rec 4;
     fc \<leftarrow> u16_at rec 6;
     let fixup_off = unat fo;
     let fixup_count = unat fc;
     if fixup_off > 0 \<and> fixup_off + 2 \<le> rec_size \<and> fixup_count > 1
     then do { v \<leftarrow> u16_at rec fixup_off; fixup_loop 1 (fixup_count - 1) rec_size v rec }
     else Some rec }"

text \<open>
  Reading record \<open>n\<close>: \<open>Done None\<close> is an early return; otherwise the bytes from the first
  attribute on.
\<close>

definition mft_attrs :: "(u64 \<Rightarrow> bytes option) \<Rightarrow> fs_ctx \<Rightarrow> u64 \<Rightarrow> bytes option outcome" where
  "mft_attrs rd ctx rec_no =
     (let rec_size = unat (cx_mft_record_size ctx)
      in if rec_size > 4096 then Done None
         else
           let lba = cx_mft_start_lba ctx + rec_no * (word_of_nat rec_size div 512)
           in obind (read_record rd lba 0 (rec_size div 512) (replicate 4096 0)) (\<lambda>r.
                case r of None \<Rightarrow> Done None
                | Some rec0 \<Rightarrow>
                    obind (of_opt (mft_fixup rec_size rec0)) (\<lambda>rec.
                    obind (of_opt (u16_at rec 0x14)) (\<lambda>ao.
                      if unat ao \<ge> rec_size then Done None
                      else obind (of_opt (slice rec (unat ao) (length rec))) (\<lambda>a. Done (Some a))))))"

text \<open>
  The head of an attribute at \<open>off\<close>: \<open>Some None\<close> ends the walk, \<open>Some (Some
  (type, length))\<close> is an attribute that lies within the record.
\<close>

definition attr_at :: "bytes \<Rightarrow> nat \<Rightarrow> (u32 \<times> nat) option option" where
  "attr_at attrs off =
     (if off + 4 < length attrs then do {
        atype \<leftarrow> u32_at attrs off;
        if atype = 0xFFFFFFFF \<or> atype = 0 then Some None
        else if off + 8 > length attrs then Some None
        else do {
          al \<leftarrow> u32_at attrs (off + 4);
          let alen = unat al;
          if alen < 24 \<or> off + alen > length attrs then Some None
          else Some (Some (atype, alen)) } }
      else Some None)"

section \<open>The first data run of a file\<close>

text \<open>\<open>Some None\<close>: no run is usable and the caller breaks.\<close>

definition data_run :: "fs_ctx \<Rightarrow> bytes \<Rightarrow> nat \<Rightarrow> nat \<Rightarrow> (u64 \<times> u64) option option" where
  "data_run ctx attrs off alen = do {
     nr \<leftarrow> idx attrs (off + 8);
     if nr = 0 then Some None
     else if alen < 56 then Some None
     else do {
       ro \<leftarrow> u16_at attrs (off + 0x20);
       file_size \<leftarrow> u64_at attrs (off + 0x30);
       let run_off = unat ro;
       if run_off > 0 \<and> run_off < alen \<and> off + run_off < length attrs then do {
         run_bytes \<leftarrow> slice attrs (off + run_off) (off + alen);
         if length run_bytes > 0 then do {
           h \<leftarrow> idx run_bytes 0;
           if h \<noteq> 0 then
             let len_bytes = unat (h AND 0x0F); off_bytes = unat (drop_bit 4 h AND 0x0F)
             in if 1 + len_bytes + off_bytes \<le> length run_bytes then do {
                  ob \<leftarrow> slice run_bytes (1 + len_bytes) (length run_bytes);
                  let lcn = parse_varlen_le_signed ob off_bytes;
                  Some (Some (ucast (cx_part1_lba ctx) + lcn * ucast (cx_sectors_per_cluster ctx), file_size)) }
                else Some None
           else Some None }
         else Some None }
       else Some None } }"

fun file_info_walk :: "fs_ctx \<Rightarrow> bytes \<Rightarrow> nat \<Rightarrow> nat \<Rightarrow> (u64 \<times> u64) option outcome" where
  "file_info_walk ctx attrs 0 off = Spin"
| "file_info_walk ctx attrs (Suc fuel) off =
     (case attr_at attrs off of
        None \<Rightarrow> Panic
      | Some None \<Rightarrow> Done None
      | Some (Some (atype, alen)) \<Rightarrow>
          if atype = 0x80 then of_opt (data_run ctx attrs off alen)
          else file_info_walk ctx attrs fuel (off + alen))"

definition get_ntfs_file_info :: "(u64 \<Rightarrow> bytes option) \<Rightarrow> fs_ctx \<Rightarrow> u32 \<Rightarrow> (u64 \<times> u64) option outcome" where
  "get_ntfs_file_info rd ctx mft_rec =
     obind (mft_attrs rd ctx (ucast mft_rec)) (\<lambda>r.
       case r of None \<Rightarrow> Done None | Some attrs \<Rightarrow> file_info_walk ctx attrs (length attrs + 1) 0)"

section \<open>The index root of the root directory\<close>

fun ntfs_name :: "bytes \<Rightarrow> nat \<Rightarrow> nat \<Rightarrow> bytes \<Rightarrow> bytes option" where
  "ntfs_name ents j 0 nm = Some nm"
| "ntfs_name ents j (Suc n) nm = do {
     lo \<leftarrow> idx ents (0x10 + 66 + j * 2);
     ntfs_name ents (j + 1) n
       (if lo < 0x80 \<and> lo \<noteq> 0 \<and> length nm < 255 then nm @ [lo]
        else if lo \<noteq> 0 \<and> length nm < 255 then nm @ [63] else nm) }"

text \<open>
  \<open>files[*file_count] = ..\<close> with the guard \<open>*file_count < 64\<close> of the code: the array
  holds \<open>m\<close> entries, and a store past it is a panic.
\<close>

definition store_file :: "nat \<Rightarrow> dir_entry \<Rightarrow> dir_entry list \<Rightarrow> dir_entry list outcome" where
  "store_file m e files = (if length files < m then Done (files @ [e]) else Panic)"

text \<open>The name and file of one index entry at the start of \<open>ents\<close>.\<close>

definition index_entry ::
  "(u64 \<Rightarrow> bytes option) \<Rightarrow> fs_ctx \<Rightarrow> nat \<Rightarrow> bytes \<Rightarrow> u32 \<Rightarrow> dir_entry list \<Rightarrow> dir_entry list outcome" where
  "index_entry rd ctx m ents mft_rec files =
     obind (of_opt (idx ents 12)) (\<lambda>flags.
       if 0x10 + 66 \<le> length ents \<and> flags AND 0x02 = 0 then
         obind (of_opt (idx ents (0x10 + 64))) (\<lambda>nl.
           let name_len = unat nl
           in if name_len > 0 \<and> name_len \<le> 255 \<and> 0x10 + 66 + name_len * 2 \<le> length ents then
                obind (of_opt (ntfs_name ents 0 name_len [])) (\<lambda>nm.
                  if has_iso_suffix nm \<and> length files < 64 \<and> mft_rec > 0 then
                    obind (get_ntfs_file_info rd ctx mft_rec) (\<lambda>info.
                      case info of None \<Rightarrow> Done files
                      | Some (lba, sz) \<Rightarrow> store_file m (mk_entry nm lba sz) files)
                  else Done files)
              else Done files)
       else Done files)"

fun index_walk ::
  "(u64 \<Rightarrow> bytes option) \<Rightarrow> fs_ctx \<Rightarrow> nat \<Rightarrow> nat \<Rightarrow> bytes \<Rightarrow> dir_entry list \<Rightarrow> dir_entry list outcome" where
  "index_walk rd ctx m 0 ents files = Spin"
| "index_walk rd ctx m (Suc fuel) ents files =
     (if length ents \<ge> 0x50 then
        obind (of_opt (u64_at ents 0)) (\<lambda>mft_ref.
        obind (of_opt (u16_at ents 8)) (\<lambda>el.
          let ent_len = unat el; mft_rec = ucast (mft_ref AND 0xFFFFFFFFFFFF)
          in if ent_len < 8 \<or> ent_len > length ents then Done files
             else obind (index_entry rd ctx m ents mft_rec files) (\<lambda>files'.
                    index_walk rd ctx m fuel (drop ent_len ents) files')))
      else Done files)"

definition index_root ::
  "(u64 \<Rightarrow> bytes option) \<Rightarrow> fs_ctx \<Rightarrow> nat \<Rightarrow> bytes \<Rightarrow> nat \<Rightarrow> nat \<Rightarrow> dir_entry list \<Rightarrow> dir_entry list outcome" where
  "index_root rd ctx m attrs off alen files =
     obind (of_opt (idx attrs (off + 8))) (\<lambda>nr.
     obind (of_opt (idx attrs (off + 9))) (\<lambda>nl.
     obind (of_opt (u16_at attrs (off + 0x14))) (\<lambda>vo.
       let val_off = unat vo + unat nl
       in if nr = 0 \<and> val_off < alen then
            obind (of_opt (slice attrs (off + val_off) (off + alen))) (\<lambda>index_data.
              if length index_data \<ge> 20 then
                obind (of_opt (u32_at index_data 0)) (\<lambda>eo.
                  let entries_off = unat eo + 0x10
                  in if entries_off < length index_data
                     then index_walk rd ctx m (length index_data + 1) (drop entries_off index_data) files
                     else Done files)
              else Done files)
          else Done files)))"

fun ntfs_walk ::
  "(u64 \<Rightarrow> bytes option) \<Rightarrow> fs_ctx \<Rightarrow> nat \<Rightarrow> bytes \<Rightarrow> nat \<Rightarrow> nat \<Rightarrow> dir_entry list \<Rightarrow> dir_entry list outcome" where
  "ntfs_walk rd ctx m attrs 0 off files = Spin"
| "ntfs_walk rd ctx m attrs (Suc fuel) off files =
     (case attr_at attrs off of
        None \<Rightarrow> Panic
      | Some None \<Rightarrow> Done files
      | Some (Some (atype, alen)) \<Rightarrow>
          obind (if atype = 0x90 then index_root rd ctx m attrs off alen files else Done files) (\<lambda>files'.
            ntfs_walk rd ctx m attrs fuel (off + alen) files'))"

definition scan_ntfs_dir ::
  "(u64 \<Rightarrow> bytes option) \<Rightarrow> fs_ctx \<Rightarrow> nat \<Rightarrow> dir_entry list \<Rightarrow> dir_entry list outcome" where
  "scan_ntfs_dir rd ctx m files =
     obind (mft_attrs rd ctx 5) (\<lambda>r.
       case r of None \<Rightarrow> Done files | Some attrs \<Rightarrow> ntfs_walk rd ctx m attrs (length attrs + 1) 0 files)"

section \<open>The dispatcher\<close>

definition scan_filesystem ::
  "(u64 \<Rightarrow> bytes option) \<Rightarrow> nat \<Rightarrow> fs_ctx \<Rightarrow> nat \<Rightarrow> dir_entry list \<Rightarrow> dir_entry list outcome" where
  "scan_filesystem rd fuel ctx m files =
     (case cx_fs ctx of
        Exfat \<Rightarrow> scan_exfat_dir rd fuel ctx m files
      | Fat32 \<Rightarrow> scan_fat32_dir rd fuel ctx m files
      | Ntfs \<Rightarrow> scan_ntfs_dir rd ctx m files)"

section \<open>Total and in range\<close>

lemma fixup_loop_total:
  "1 \<le> i \<Longrightarrow> rec_size \<le> length rec \<Longrightarrow> \<exists>r. fixup_loop i n rec_size v rec = Some r \<and> length r = length rec"
proof (induction n arbitrary: i rec)
  case (Suc n)
  show ?case
  proof (cases "i * 512 - 2 + 2 \<le> rec_size")
    case True
    let ?r = "rec[i * 512 - 2 := ucast v, i * 512 - 2 + 1 := ucast (drop_bit 8 v)]"
    obtain r where "fixup_loop (i + 1) n rec_size v ?r = Some r" "length r = length rec"
      using Suc.IH [of "i + 1" ?r] Suc.prems by auto
    then show ?thesis using True Suc.prems by (simp add: bounds_simps Let_def)
  next
    case False
    then show ?thesis using Suc.IH [of "i + 1" rec] Suc.prems by (simp add: Let_def)
  qed
qed simp

lemma mft_fixup_total:
  "length rec = 4096 \<Longrightarrow> rec_size \<le> 4096 \<Longrightarrow> \<exists>r. mft_fixup rec_size rec = Some r \<and> length r = 4096"
  using fixup_loop_total [of 1 rec_size rec] by (auto simp: mft_fixup_def bounds_simps Let_def)

context sector_source
begin

lemma read_record_total:
  "(i + n) * 512 \<le> length rec \<Longrightarrow>
     \<exists>r. read_record rd lba i n rec = Done r \<and> (\<forall>x. r = Some x \<longrightarrow> length x = length rec)"
proof (induction n arbitrary: i rec)
  case (Suc n)
  show ?case
  proof (cases "rd (lba + word_of_nat i)")
    case (Some s)
    have l: "length s = 512" by (rule rd_length [OF Some])
    let ?r = "take (i * 512) rec @ s @ drop (i * 512 + 512) rec"
    have "(i + 1 + n) * 512 \<le> length ?r" "length ?r = length rec" using Suc.prems l by auto
    with Suc.IH [of "i + 1" ?r] show ?thesis using Some l Suc.prems by (simp add: bounds_simps)
  qed simp
qed simp

lemma mft_attrs_total: "\<exists>r. mft_attrs rd ctx n = Done r \<and> (\<forall>a. r = Some a \<longrightarrow> length a \<le> 4096)"
proof (cases "unat (cx_mft_record_size ctx) > 4096")
  case True
  then show ?thesis by (simp add: mft_attrs_def)
next
  case False
  let ?rs = "unat (cx_mft_record_size ctx)"
  let ?lba = "cx_mft_start_lba ctx + n * (word_of_nat ?rs div 512)"
  obtain r where r: "read_record rd ?lba 0 (?rs div 512) (replicate 4096 0) = Done r"
    "\<And>x. r = Some x \<Longrightarrow> length x = 4096"
  proof -
    have "(0 + ?rs div 512) * 512 \<le> length (replicate 4096 (0 :: u8))" using False by simp
    from read_record_total [OF this, of ?lba] that show ?thesis by auto
  qed
  show ?thesis
  proof (cases r)
    case None
    then show ?thesis using r(1) False by (simp add: mft_attrs_def Let_def)
  next
    case (Some rec0)
    obtain rec where x: "mft_fixup ?rs rec0 = Some rec" "length rec = 4096"
      using mft_fixup_total [of rec0 ?rs] r(2) [OF Some] False by auto
    then show ?thesis using r(1) Some False by (auto simp: mft_attrs_def Let_def bounds_simps)
  qed
qed

end

lemma attr_at_total:
  "\<exists>r. attr_at attrs off = Some r \<and> (\<forall>t n. r = Some (t, n) \<longrightarrow> 24 \<le> n \<and> off + n \<le> length attrs)"
  by (auto simp: attr_at_def bounds_simps Let_def)

lemma data_run_total: "24 \<le> alen \<Longrightarrow> off + alen \<le> length attrs \<Longrightarrow> \<exists>r. data_run ctx attrs off alen = Some r"
  by (auto simp: data_run_def bounds_simps Let_def)

lemma file_info_walk_total:
  "length attrs < fuel + off \<Longrightarrow> 0 < fuel \<Longrightarrow> \<exists>r. file_info_walk ctx attrs fuel off = Done r"
proof (induction fuel arbitrary: off)
  case (Suc fuel)
  obtain r where r: "attr_at attrs off = Some r" "\<And>t n. r = Some (t, n) \<Longrightarrow> 24 \<le> n \<and> off + n \<le> length attrs"
    using attr_at_total [of attrs off] by auto
  show ?case
  proof (cases r)
    case (Some tn)
    obtain t n where tn: "tn = (t, n)" by (cases tn)
    with r(2) Some have n: "24 \<le> n" "off + n \<le> length attrs" by auto
    show ?thesis
    proof (cases "t = 0x80")
      case True
      then show ?thesis using r(1) Some tn data_run_total [OF n] by auto
    next
      case False
      have "length attrs < fuel + (off + n)" "0 < fuel" using n Suc.prems by auto
      with Suc.IH [of "off + n"] False show ?thesis using r(1) Some tn by simp
    qed
  qed (use r in simp)
qed simp

lemma ntfs_name_total:
  "0x10 + 66 + (j + n) * 2 \<le> length ents \<Longrightarrow> length nm \<le> 255 \<Longrightarrow>
     \<exists>r. ntfs_name ents j n nm = Some r \<and> length r \<le> 255"
proof (induction n arbitrary: j nm)
  case (Suc n)
  have "0x10 + 66 + (j + 1 + n) * 2 \<le> length ents" using Suc.prems by simp
  note IH = Suc.IH [OF this]
  let ?lo = "ents ! (0x10 + 66 + j * 2)"
  let ?nm = "if ?lo < 0x80 \<and> ?lo \<noteq> 0 \<and> length nm < 255 then nm @ [?lo]
      else if ?lo \<noteq> 0 \<and> length nm < 255 then nm @ [63] else nm"
  have "idx ents (0x10 + 66 + j * 2) = Some ?lo" using Suc.prems(1) by (intro idx_Some) simp
  then have "ntfs_name ents j (Suc n) nm = ntfs_name ents (j + 1) n ?nm" by simp
  moreover have "length ?nm \<le> 255" using Suc.prems(2) by simp
  ultimately show ?case using IH [of ?nm] by simp
qed simp

context sector_source
begin

lemma get_ntfs_file_info_total: "\<exists>r. get_ntfs_file_info rd ctx n = Done r"
proof -
  obtain r where r: "mft_attrs rd ctx (ucast n) = Done r" using mft_attrs_total by blast
  have "\<exists>x. file_info_walk ctx a (length a + 1) 0 = Done x" for a
    by (rule file_info_walk_total) simp_all
  with r show ?thesis by (cases r) (auto simp: get_ntfs_file_info_def)
qed

lemma index_entry_total:
  assumes "0x50 \<le> length ents" and m: "64 \<le> m"
  shows "\<exists>f. index_entry rd ctx m ents n files = Done f \<and> grows 64 files f"
proof -
  have i: "idx ents 12 = Some (ents ! 12)" using assms by (simp add: bounds_simps)
  show ?thesis
  proof (cases "0x10 + 66 \<le> length ents \<and> ents ! 12 AND 0x02 = 0")
    case True
    let ?nl = "unat (ents ! 80)"
    have i2: "idx ents 80 = Some (ents ! 80)" using True by (simp add: bounds_simps)
    show ?thesis
    proof (cases "?nl > 0 \<and> ?nl \<le> 255 \<and> 0x10 + 66 + ?nl * 2 \<le> length ents")
      case name: True
      obtain nm where nm: "ntfs_name ents 0 ?nl [] = Some nm" "length nm \<le> 255"
        using ntfs_name_total [of 0 ?nl ents "[]"] name by auto
      obtain info where info: "get_ntfs_file_info rd ctx n = Done info"
        using get_ntfs_file_info_total by blast
      show ?thesis
        using i i2 True name nm info m
        by (cases info) (auto simp: index_entry_def store_file_def Let_def intro!: grows_add mk_entry_ok)
    next
      case False
      then show ?thesis using i i2 True by (auto simp: index_entry_def Let_def)
    qed
  next
    case False
    then show ?thesis using i by (auto simp: index_entry_def)
  qed
qed

lemma index_walk_total:
  "length ents < fuel \<Longrightarrow> 64 \<le> m \<Longrightarrow> \<exists>f. index_walk rd ctx m fuel ents files = Done f \<and> grows 64 files f"
proof (induction fuel arbitrary: ents files)
  case (Suc fuel)
  show ?case
  proof (cases "length ents \<ge> 0x50")
    case True
    let ?el = "unat (from_le (take 2 (drop 8 ents)) :: u16)"
    let ?n = "ucast (from_le (take 8 ents) AND 0xFFFFFFFFFFFF :: u64) :: u32"
    obtain f where f: "index_entry rd ctx m ents ?n files = Done f" "grows 64 files f"
      using index_entry_total [OF True Suc.prems(2)] by blast
    show ?thesis
    proof (cases "?el < 8 \<or> ?el > length ents")
      case False
      then have "length (drop ?el ents) < fuel" using Suc.prems(1) True unfolding length_drop by linarith
      from Suc.IH [OF this Suc.prems(2), of f] f False True show ?thesis
        by (auto simp: bounds_simps Let_def intro: grows_trans)
    qed (use True in \<open>auto simp: bounds_simps Let_def\<close>)
  qed simp
qed simp

lemma index_root_total:
  assumes "24 \<le> alen" and "off + alen \<le> length attrs" and m: "64 \<le> m"
  shows "\<exists>f. index_root rd ctx m attrs off alen files = Done f \<and> grows 64 files f"
proof -
  have w: "\<exists>f. index_walk rd ctx m (length x + 1) (drop k x) files = Done f \<and> grows 64 files f" for x k
    by (rule index_walk_total [OF _ m]) simp
  let ?vo = "unat (from_le (take 2 (drop (off + 0x14) attrs)) :: u16) + unat (attrs ! (off + 9))"
  have a1: "idx attrs (off + 8) = Some (attrs ! (off + 8))" and a2: "idx attrs (off + 9) = Some (attrs ! (off + 9))"
    and a3: "u16_at attrs (off + 0x14) = Some (from_le (take 2 (drop (off + 0x14) attrs)))"
    using assms by (simp_all add: bounds_simps)
  show ?thesis
  proof (cases "attrs ! (off + 8) = 0 \<and> ?vo < alen")
    case True
    let ?d = "take (alen - ?vo) (drop (off + ?vo) attrs)"
    have sl: "slice attrs (off + ?vo) (off + alen) = Some ?d"
      using True assms by (simp add: bounds_simps)
    have run: "index_root rd ctx m attrs off alen files =
      (if length ?d \<ge> 20 then obind (of_opt (u32_at ?d 0)) (\<lambda>eo.
         if unat eo + 0x10 < length ?d
         then index_walk rd ctx m (length ?d + 1) (drop (unat eo + 0x10) ?d) files else Done files)
       else Done files)"
      unfolding index_root_def a1 a2 a3 of_opt_simps obind.simps Let_def using True sl
      by (simp del: length_take length_drop index_walk.simps)
    have "u32_at ?d 0 = Some (from_le (take 4 (drop 0 ?d)))" if "20 \<le> length ?d"
      using that by (intro u32_at_Some) simp
    then show ?thesis using w [of ?d] unfolding run by (auto simp del: length_take length_drop index_walk.simps)
  next
    case False
    then show ?thesis unfolding index_root_def a1 a2 a3 of_opt_simps obind.simps Let_def by auto
  qed
qed

lemma ntfs_walk_total:
  "length attrs < fuel + off \<Longrightarrow> 0 < fuel \<Longrightarrow> 64 \<le> m \<Longrightarrow>
     \<exists>f. ntfs_walk rd ctx m attrs fuel off files = Done f \<and> grows 64 files f"
proof (induction fuel arbitrary: off files)
  case (Suc fuel)
  obtain r where r: "attr_at attrs off = Some r" "\<And>t n. r = Some (t, n) \<Longrightarrow> 24 \<le> n \<and> off + n \<le> length attrs"
    using attr_at_total [of attrs off] by auto
  show ?case
  proof (cases r)
    case (Some tn)
    obtain t n where tn: "tn = (t, n)" by (cases tn)
    with r(2) Some have n: "24 \<le> n" "off + n \<le> length attrs" by auto
    obtain f where f: "(if t = 0x90 then index_root rd ctx m attrs off n files else Done files) = Done f"
      "grows 64 files f"
      using index_root_total [OF n Suc.prems(3), of ctx files] by (cases "t = 0x90") auto
    have "length attrs < fuel + (off + n)" "0 < fuel" using n Suc.prems by auto
    from Suc.IH [OF this Suc.prems(3), of f] f show ?thesis using r(1) Some tn by (auto intro: grows_trans)
  qed (use r in simp)
qed simp

lemma scan_ntfs_total: "64 \<le> m \<Longrightarrow> \<exists>f. scan_ntfs_dir rd ctx m files = Done f \<and> grows 64 files f"
proof -
  assume m: "64 \<le> m"
  obtain r where r: "mft_attrs rd ctx 5 = Done r" using mft_attrs_total by blast
  have "\<exists>f. ntfs_walk rd ctx m a (length a + 1) 0 files = Done f \<and> grows 64 files f" for a
    by (rule ntfs_walk_total [OF _ _ m]) simp_all
  with r show ?thesis by (cases r) (auto simp: scan_ntfs_dir_def)
qed

end

section \<open>Signed run offsets\<close>

lemma low_or_high: "ucast (b :: u8) OR push_bit 8 x = (ucast b + push_bit 8 x :: u64)"
proof -
  have "ucast b AND push_bit 8 x = (0 :: u64)"
    by (rule bit_word_eqI) (auto simp: bit_simps dest: bit_imp_le_length)
  then show ?thesis by (simp add: disjunctive_add_eq_or)
qed

lemma varlen_or_from_le: "varlen_or i bs = push_bit (i * 8) (from_le bs)"
proof (induction bs arbitrary: i)
  case Nil
  then show ?case by (simp add: from_le_def)
next
  case (Cons b bs)
  have f: "from_le (b # bs) = (ucast b + push_bit 8 (from_le bs) :: u64)"
    by (simp add: from_le_def push_bit_eq_mult)
  have "varlen_or i (b # bs) = push_bit (i * 8) (ucast b OR push_bit 8 (from_le bs))"
    by (simp add: Cons push_bit_or push_bit_push_bit add.commute)
  then show ?case by (simp only: f low_or_high)
qed

lemma parse_varlen_le_value: "n \<le> length data \<Longrightarrow> n \<le> 8 \<Longrightarrow> parse_varlen_le data n = from_le (take n data)"
  by (simp add: parse_varlen_le_def varlen_or_from_le)

lemma parse_varlen_le_signed_value:
  assumes "0 < n" and "n \<le> 8" and "n \<le> length data"
  shows "parse_varlen_le_signed data n = word_of_int (signed_take_bit (8 * n - 1) (int (le_nat (take n data))))"
proof -
  let ?v = "le_nat (take n data)"
  have v: "?v < 2 ^ (8 * n)"
    using le_nat_bound [of "take n data"] assms by (simp add: power_mult)
  have val: "parse_varlen_le data n = word_of_nat ?v"
    using parse_varlen_le_value [of n data] assms by (simp add: from_le_def)
  have st: "signed_take_bit (8 * n - 1) (int ?v) = int ?v - 2 ^ (8 * n) * of_bool (bit (int ?v) (8 * n - 1))"
  proof -
    have "take_bit (8 * n) (int ?v) = int ?v" using v by (simp add: take_bit_int_eq_self)
    then show ?thesis using assms(1) by (simp add: signed_take_bit_eq_take_bit_minus)
  qed
  have b: "bit (word_of_nat ?v :: u64) (8 * n - 1) \<longleftrightarrow> bit (int ?v) (8 * n - 1)"
    using assms by (auto simp: bit_of_nat_iff)
  have m: "w AND push_bit k 1 \<noteq> 0 \<longleftrightarrow> bit w k" for w :: u64 and k
    by (simp add: push_bit_of_1 and_exp_eq_0_iff_not_bit)
  show ?thesis
  proof (cases "n < 8")
    case True
    have "parse_varlen_le_signed data n =
        (if bit (int ?v) (8 * n - 1) then word_of_nat ?v - push_bit (8 * n) 1 else word_of_nat ?v)"
      unfolding parse_varlen_le_signed_def Let_def val m mult.commute [of n 8] b using True assms(1) by simp
    then show ?thesis unfolding st by (simp add: push_bit_of_1)
  next
    case False
    then have "n = 8" using assms by simp
    have z: "(word_of_int (2 ^ (8 * n) * of_bool x) :: u64) = 0" for x using \<open>n = 8\<close> by simp
    have "parse_varlen_le_signed data n = word_of_nat ?v"
      unfolding parse_varlen_le_signed_def Let_def val using \<open>n = 8\<close> by simp
    then show ?thesis unfolding st using z by (simp flip: word_of_int_minus add: wi_hom_sub [symmetric])
  qed
qed

text \<open>C26: the NTFS scan always returns, without panicking, for any content of the MFT records:
  every field it reads lies in the record, every attribute and index entry advances, and the list grows by
  well-formed .iso entries to at most 64, the size of the kernel's array.\<close>

theorem ntfs_scan_returns:
  "64 \<le> m \<Longrightarrow> \<exists>f. scan_ntfs_dir (ata_rd D) ctx m files = Done f \<and> grows 64 files f"
  by (rule ata.scan_ntfs_total)

definition ntfs_ctx :: fs_ctx where
  "ntfs_ctx = \<lparr>cx_fs = Ntfs, cx_part1_lba = 2048, cx_spc = 0, cx_fat_start = 0, cx_fat_len = 0,
     cx_heap_start = 0, cx_root_cluster = 0, cx_mft_start_lba = 4096, cx_sectors_per_cluster = 8,
     cx_mft_record_size = 1024\<rparr>"

lemma ntfs_scan_returns_witness:
  "\<exists>f. scan_ntfs_dir (ata_rd (\<lambda>_. Some (replicate 512 0))) ntfs_ctx 64 [] = Done f \<and> grows 64 [] f"
  using ntfs_scan_returns [of 64 "\<lambda>_. Some (replicate 512 0)" ntfs_ctx "[]"] by simp

text \<open>The cluster offset of a data run is decoded as the sign extension of its 1 to 8
  little-endian bytes.\<close>

theorem run_offset_sign_extended:
  "0 < n \<Longrightarrow> n \<le> 8 \<Longrightarrow> n \<le> length data \<Longrightarrow>
     parse_varlen_le_signed data n = word_of_int (signed_take_bit (8 * n - 1) (int (le_nat (take n data))))"
  by (rule parse_varlen_le_signed_value)

lemma run_offset_sign_extended_witness: "parse_varlen_le_signed [0xFE, 0xFF, 0x12] 2 = -2"
  using run_offset_sign_extended [of 2 "[0xFE, 0xFF, 0x12]"]
  by (simp add: signed_take_bit_eq_take_bit_minus bit_simps)

end
