(* ===== verification/KernelExfat.thy ===== *)
theory KernelExfat
  imports KernelFsCorrect
begin

text \<open>
  The carry buffer of the exFAT scanner: entry sets that straddle sector and cluster
  boundaries are read as if the directory were one buffer.
\<close>

section \<open>The reference: the directory as one buffer\<close>

function exfat_stream :: "fs_ctx \<Rightarrow> nat \<Rightarrow> bytes \<Rightarrow> dir_entry list \<Rightarrow> dir_entry list" where
  "exfat_stream ctx m bs files =
     (if length bs < 32 then files
      else case exfat_entry ctx m bs (length bs div 32) 0 files of
        Some (Advance p f) \<Rightarrow> if p = 0 then f else exfat_stream ctx m (drop (p * 32) bs) f
      | Some (Leave f) \<Rightarrow> f
      | Some (NextSector _ f) \<Rightarrow> f
      | None \<Rightarrow> files)"
  by auto
termination by (relation "measure (\<lambda>(_, _, bs, _). length bs)") auto

declare exfat_stream.simps [simp del]

text \<open>No entry set is longer than the exFAT maximum of 18 secondary entries.\<close>

definition sets_ok :: "bytes \<Rightarrow> bool" where
  "sets_ok bs \<longleftrightarrow> (\<forall>j. j * 32 + 32 \<le> length bs \<longrightarrow> bs ! (j * 32) = 0x85 \<longrightarrow> unat (bs ! (j * 32 + 1)) \<le> 18)"

section \<open>An entry does not depend on where it lies\<close>

lemma idx_drop: "a \<le> length xs \<Longrightarrow> idx (drop a xs) i = idx xs (a + i)"
  by (auto simp: idx_def)

lemma slice_drop: "a \<le> length xs \<Longrightarrow> slice (drop a xs) i j = slice xs (a + i) (a + j)"
  by (auto simp: slice_def add.commute)

lemma u32_at_drop: "a \<le> length xs \<Longrightarrow> u32_at (drop a xs) i = u32_at xs (a + i)"
  by (simp add: u32_at_def slice_drop add.assoc)

lemma u64_at_drop: "a \<le> length xs \<Longrightarrow> u64_at (drop a xs) i = u64_at xs (a + i)"
  by (simp add: u64_at_def slice_drop add.assoc)

lemmas at_drop = idx_drop slice_drop u32_at_drop u64_at_drop

lemma exfat_name_drop:
  "a \<le> length ents \<Longrightarrow> exfat_name (drop a ents) noff nl k nm = exfat_name ents (a + noff) nl k nm"
  by (induction k arbitrary: noff nm) (simp_all add: at_drop Let_def add.assoc cong: if_cong)

fun shift_step :: "nat \<Rightarrow> scan_step \<Rightarrow> scan_step" where
  "shift_step k (Advance p f) = Advance (p + k) f"
| "shift_step k s = s"

lemma exfat_entry_shift:
  assumes "length ents = n * 32" and "pos < n"
  shows "exfat_entry ctx m ents n pos files =
    map_option (shift_step pos) (exfat_entry ctx m (drop (pos * 32) ents) (n - pos) 0 files)"
proof -
  have a: "pos * 32 \<le> length ents" using assms by simp
  have c: "n - pos < Suc k \<longleftrightarrow> n < Suc (pos + k)" for k using assms by auto
  have e: "pos * 32 + (length ents - pos * 32) = length ents" using a by simp
  show ?thesis
    unfolding exfat_entry_def
    by (simp add: at_drop [OF a] exfat_name_drop [OF a] c e Let_def algebra_simps map_option_bind
        option.map_comp comp_def if_distrib [of "map_option (shift_step pos)"] cong: if_cong)
qed

section \<open>An entry set that is complete does not depend on what follows\<close>

lemma idx_append: "i < length xs \<Longrightarrow> idx (xs @ ys) i = idx xs i"
  by (simp add: idx_def nth_append)

lemma slice_append: "j \<le> length xs \<Longrightarrow> slice (xs @ ys) i j = slice xs i j"
  by (auto simp: slice_def)

lemma u32_at_append: "i + 4 \<le> length xs \<Longrightarrow> u32_at (xs @ ys) i = u32_at xs i"
  by (simp add: u32_at_def slice_append)

lemma u64_at_append: "i + 8 \<le> length xs \<Longrightarrow> u64_at (xs @ ys) i = u64_at xs i"
  by (simp add: u64_at_def slice_append)

lemma exfat_name_append:
  "noff + 32 * k \<le> length ents \<Longrightarrow> exfat_name (ents @ tl_bs) noff nl k nm = exfat_name ents noff nl k nm"
proof (induction k arbitrary: noff nm)
  case (Suc k)
  let ?t = "min (min (nl - length nm) 15) (256 - length nm)"
  have l: "noff + 32 \<le> length ents" using Suc.prems by simp
  then have "utf16le_to_ascii (drop (noff + 2) (ents @ tl_bs)) (?t * 2) c =
      utf16le_to_ascii (drop (noff + 2) ents) (?t * 2) c" for c
    by (simp add: utf16le_to_ascii_def)
  moreover have "exfat_name (ents @ tl_bs) (noff + 32) nl k x = exfat_name ents (noff + 32) nl k x" for x
    by (rule Suc.IH) (use Suc.prems in simp)
  ultimately show ?case
    using l by (simp add: bounds_simps nth_append Let_def cong: if_cong del: drop_append take_append)
qed simp

lemma exfat_entry_append:
  assumes "length bs = n * 32" and "0 < n" and "n \<le> n'"
    and e: "exfat_entry ctx m bs n 0 files = Some r"
  shows "case r of NextSector c f \<Rightarrow> f = files \<and> bs ! 0 = 0x85 \<and> n < 1 + unat (bs ! 1) \<and>
      c = (if length bs \<le> 608 then bs else [])
    | _ \<Rightarrow> exfat_entry ctx m (bs @ tl_bs) n' 0 files = Some r"
proof -
  have l: "32 \<le> length bs" using assms(1,2) by simp
  then have i: "idx bs 0 = Some (bs ! 0)" "idx bs 1 = Some (bs ! 1)"
    "idx (bs @ tl_bs) 0 = Some (bs ! 0)" "idx (bs @ tl_bs) 1 = Some (bs ! 1)"
    by (auto simp: idx_def nth_append)
  let ?sc = "unat (bs ! 1)"
  consider "bs ! 0 = 0x85" "\<not> ?sc < 1" "n < 1 + ?sc" | "bs ! 0 = 0x85" "\<not> ?sc < 1" "\<not> n < 1 + ?sc"
    | "bs ! 0 \<noteq> 0x85 \<or> ?sc < 1" by blast
  then show ?thesis
  proof cases
    case 1
    then show ?thesis using e i l
      by (auto simp: exfat_entry_def Let_def slice_def split: if_splits)
  next
    case 2
    have st: "64 \<le> length bs" "64 + 32 * (?sc - 1) \<le> length bs" using 2 assms(1) by auto
    have n': "\<not> n' < 1 + ?sc" using 2 assms(3) by simp
    have same: "exfat_entry ctx m (bs @ tl_bs) n' 0 files = exfat_entry ctx m bs n 0 files"
      using 2 n' i st exfat_name_append [of 64 "?sc - 1" bs tl_bs]
      by (simp add: exfat_entry_def Let_def idx_append u32_at_append u64_at_append cong: if_cong)
    have "\<not> (\<exists>c f. r = NextSector c f)"
      using e 2 i st by (auto simp: exfat_entry_def Let_def bind_eq_Some_conv split: if_splits)
    then show ?thesis using e same by (cases r) auto
  next
    case 3
    then show ?thesis using e i by (auto simp: exfat_entry_def Let_def split: if_splits)
  qed
qed

section \<open>One sector\<close>

lemma sets_ok_drop: "sets_ok bs \<Longrightarrow> sets_ok (drop (p * 32) bs)"
proof -
  assume s: "sets_ok bs"
  have "unat (drop (p * 32) bs ! (j * 32 + 1)) \<le> 18"
    if "j * 32 + 32 \<le> length bs - p * 32" "drop (p * 32) bs ! (j * 32) = 0x85" for j
  proof -
    have l: "(p + j) * 32 + 32 \<le> length bs" using that(1) by simp
    then have "bs ! ((p + j) * 32) = 0x85" using that(2) by (simp add: algebra_simps)
    with s l have "unat (bs ! ((p + j) * 32 + 1)) \<le> 18" unfolding sets_ok_def by blast
    then show ?thesis using l by (simp add: algebra_simps)
  qed
  then show ?thesis by (simp add: sets_ok_def)
qed

lemma sets_ok_append1:
  assumes "sets_ok (a @ b)"
  shows "sets_ok a"
  unfolding sets_ok_def
proof (intro allI impI)
  fix j assume j: "j * 32 + 32 \<le> length a" "a ! (j * 32) = 0x85"
  then have "(a @ b) ! (j * 32) = 0x85" "(a @ b) ! (j * 32 + 1) = a ! (j * 32 + 1)"
    by (simp_all add: nth_append)
  with assms j(1) show "unat (a ! (j * 32 + 1)) \<le> 18"
    unfolding sets_ok_def by (metis length_append trans_le_add1)
qed

lemma exfat_stream_prefix:
  assumes len: "length ents = n * 32" and pos: "pos < n" and ok: "sets_ok ents" and tl_bs: "32 dvd length tl_bs"
    and e: "exfat_entry ctx m ents n pos files = Some r"
  shows "case r of
      Leave f \<Rightarrow> exfat_stream ctx m (drop (pos * 32) ents @ tl_bs) files = f
    | NextSector c f \<Rightarrow> c = drop (pos * 32) ents \<and> f = files \<and> exfat_stream ctx m c f = f
    | Advance p f \<Rightarrow> pos < p \<and> p \<le> n \<and>
        exfat_stream ctx m (drop (pos * 32) ents @ tl_bs) files = exfat_stream ctx m (drop (p * 32) ents @ tl_bs) f"
proof -
  let ?b = "drop (pos * 32) ents"
  have lb: "length ?b = (n - pos) * 32" using len by (simp add: diff_mult_distrib)
  obtain r0 where r0: "exfat_entry ctx m ?b (n - pos) 0 files = Some r0" and r: "r = shift_step pos r0"
    using e exfat_entry_shift [OF len pos] by auto
  obtain km where km: "length tl_bs = km * 32" using tl_bs by (auto elim: dvdE simp: mult.commute)
  have np: "0 < n - pos" using pos by simp
  have x: "case r0 of NextSector c f \<Rightarrow> f = files \<and> ?b ! 0 = 0x85 \<and> n - pos < 1 + unat (?b ! 1) \<and>
      c = (if length ?b \<le> 608 then ?b else [])
    | _ \<Rightarrow> exfat_entry ctx m (?b @ tl_bs) (n - pos + km) 0 files = Some r0"
    by (rule exfat_entry_append [OF lb np _ r0]) simp
  have dl: "length (?b @ tl_bs) div 32 = n - pos + km" using lb km by simp
  have lbig: "\<not> length (?b @ tl_bs) < 32" using lb np by (cases "n - pos") auto
  have so: "step_ok m (n - pos) 0 files r0"
    using exfat_entry_total [OF lb np, of ctx m files] r0 by auto
  show ?thesis
  proof (cases r0)
    case (Leave f)
    have "exfat_stream ctx m (?b @ tl_bs) files = f"
      by (subst exfat_stream.simps) (use x Leave dl lbig in \<open>simp del: length_append length_drop\<close>)
    then show ?thesis using r Leave by simp
  next
    case (NextSector c f)
    have "unat (?b ! 1) \<le> 18"
      using sets_ok_drop [OF ok, of pos] x NextSector lb np unfolding sets_ok_def
      by (cases "n - pos") (auto dest: spec [of _ 0])
    then have "length ?b \<le> 608" using x NextSector lb by simp
    moreover have "exfat_stream ctx m ?b files = files"
      by (subst exfat_stream.simps) (use x NextSector r0 lb in \<open>simp del: length_drop\<close>)
    ultimately show ?thesis using r NextSector x by simp
  next
    case (Advance p f)
    then have p: "0 < p" "p \<le> n - pos" using so by (simp_all add: step_ok_def)
    have "exfat_stream ctx m (?b @ tl_bs) files = exfat_stream ctx m (drop (p * 32) (?b @ tl_bs)) f"
      by (subst exfat_stream.simps) (use x Advance dl lbig p in \<open>simp del: length_append length_drop drop_append\<close>)
    also have "drop (p * 32) (?b @ tl_bs) = drop ((p + pos) * 32) ents @ tl_bs"
    proof -
      have "p * 32 \<le> length ?b" using p lb by simp
      then show ?thesis by (simp add: algebra_simps)
    qed
    finally show ?thesis using r Advance p by (auto simp: add.commute)
  qed
qed

lemma exfat_entries_stream:
  assumes len: "length ents = n * 32" and ok: "sets_ok ents" and tl: "32 dvd length tl_bs"
  shows "n < fuel + pos \<Longrightarrow> pos \<le> n \<Longrightarrow> exfat_entries ctx m ents n fuel pos files = Done r \<Longrightarrow>
    (case r of
       Leave f \<Rightarrow> exfat_stream ctx m (drop (pos * 32) ents @ tl_bs) files = f
     | NextSector c f \<Rightarrow> (\<exists>p\<le>n. c = drop (p * 32) ents) \<and> exfat_stream ctx m c f = f \<and>
         exfat_stream ctx m (drop (pos * 32) ents @ tl_bs) files = exfat_stream ctx m (c @ tl_bs) f
     | Advance p f \<Rightarrow> False)"
proof (induction fuel arbitrary: pos files)
  case (Suc fuel)
  show ?case
  proof (cases "pos < n")
    case True
    then obtain r0 where r0: "exfat_entry ctx m ents n pos files = Some r0"
      using Suc.prems by (auto split: option.splits)
    note x = exfat_stream_prefix [OF len True ok tl r0]
    show ?thesis
    proof (cases r0)
      case (Advance p f)
      then have "n < fuel + p" "p \<le> n" "exfat_entries ctx m ents n fuel p f = Done r"
        "exfat_stream ctx m (drop (pos * 32) ents @ tl_bs) files = exfat_stream ctx m (drop (p * 32) ents @ tl_bs) f"
        using x r0 True Suc.prems by auto
      with Suc.IH [of p f] show ?thesis by (cases r) simp_all
    next
      case (NextSector c f)
      then have "r = NextSector c f" "c = drop (pos * 32) ents" using x r0 True Suc.prems by auto
      then show ?thesis using x NextSector less_imp_le [OF True] by auto
    qed (use x r0 True Suc.prems in auto)
  next
    case False
    then have "pos = n" "r = NextSector [] files" using Suc.prems by auto
    then show ?thesis using len by (auto simp: exfat_stream.simps [of ctx m "[]"] intro!: exI [of _ n])
  qed
qed simp

lemma exfat_sector_stream:
  assumes c: "length carry \<le> 608" "32 dvd length carry" and b: "length buf = 512"
    and ok: "sets_ok (carry @ buf)" and tl: "32 dvd length tl_bs"
    and run: "exfat_sector ctx m carry buf files = Done r"
  shows "case r of
       Leave f \<Rightarrow> exfat_stream ctx m (carry @ buf @ tl_bs) files = f
     | NextSector c f \<Rightarrow> (\<exists>p. p * 32 \<le> length (carry @ buf) \<and> c = drop (p * 32) (carry @ buf)) \<and>
         exfat_stream ctx m c f = f \<and>
         exfat_stream ctx m (carry @ buf @ tl_bs) files = exfat_stream ctx m (c @ tl_bs) f
     | Advance p f \<Rightarrow> False"
proof -
  let ?n = "(length carry + 512) div 32"
  have n: "length (carry @ buf) = ?n * 32" using c(2) b by simp
  have b1: "blit (replicate 1152 0) 0 carry = Some (carry @ replicate (1152 - length carry) 0)"
    using c(1) by (simp add: bounds_simps)
  have b2: "blit (carry @ replicate (1152 - length carry) 0) (length carry) buf =
      Some (carry @ buf @ replicate (1152 - (length carry + 512)) 0)"
    using c b by (simp add: bounds_simps)
  have t: "take (length carry + 512) (carry @ buf @ replicate (1152 - (length carry + 512)) 0) = carry @ buf"
    using b by simp
  have run': "exfat_entries ctx m (carry @ buf) ?n (?n + 1) 0 files = Done r"
    using run by (simp only: exfat_sector_def b1 b2 of_opt_simps obind.simps Let_def t)
  have "?n < ?n + 1 + 0" "(0 :: nat) \<le> ?n" by simp_all
  from exfat_entries_stream [OF n ok tl this run'] show ?thesis
    unfolding n by (auto split: scan_step.splits)
qed

section \<open>Clusters and chains\<close>

lemma dvd_concat: "\<forall>s\<in>set ss. length s = 512 \<Longrightarrow> 32 dvd length (concat ss)"
  by (induction ss) auto

context sector_source
begin

lemma cluster_sectors_length: "cluster_sectors rd ctx cl si k = Some ss \<Longrightarrow> \<forall>s\<in>set ss. length s = 512"
  by (induction k arbitrary: si ss) (auto simp: bind_eq_Some_conv dest: rd_length)

lemma chain_sectors_length:
  "chain_sectors rd ctx nxt stop n cl = Some ss \<Longrightarrow> \<forall>s\<in>set ss. length s = 512"
  by (induction n arbitrary: cl ss)
     (fastforce simp: bind_eq_Some_conv dest: cluster_sectors_length split: if_splits)+

lemma exfat_cluster_stream:
  assumes "length carry \<le> 608" "32 dvd length carry" and "cluster_sectors rd ctx cl si k = Some ss"
    and "sets_ok (carry @ concat ss @ tl_bs)" and tl: "32 dvd length tl_bs"
    and "exfat_stream ctx m carry files = files" and "exfat_cluster rd ctx m cl si k carry files = Done r"
  shows "case r of
       Leave f \<Rightarrow> exfat_stream ctx m (carry @ concat ss @ tl_bs) files = f
     | NextSector c f \<Rightarrow> sets_ok (c @ tl_bs) \<and> exfat_stream ctx m c f = f \<and>
         exfat_stream ctx m (carry @ concat ss @ tl_bs) files = exfat_stream ctx m (c @ tl_bs) f
     | Advance p f \<Rightarrow> False"
  using assms(1-4,6-)
proof (induction k arbitrary: si ss carry files)
  case 0
  then show ?case by auto
next
  case (Suc k)
  then obtain buf rest where buf: "rd (cluster_lba ctx cl + word_of_nat si) = Some buf"
    and rest: "cluster_sectors rd ctx cl (si + 1) k = Some rest" and ss: "ss = buf # rest"
    by (auto simp: bind_eq_Some_conv)
  have lb: "length buf = 512" by (rule rd_length [OF buf])
  have tl': "32 dvd length (concat rest @ tl_bs)"
    using dvd_concat [OF cluster_sectors_length [OF rest]] tl by simp
  obtain r1 where r1: "exfat_sector ctx m carry buf files = Done r1" "sector_ok m files r1"
    using exfat_sector_total [OF Suc.prems(1,2) lb] by blast
  have ok1: "sets_ok (carry @ buf)" using Suc.prems(4) ss sets_ok_append1 [of "carry @ buf"] by simp
  note x = exfat_sector_stream [OF Suc.prems(1,2) lb ok1 tl' r1(1)]
  show ?case
  proof (cases r1)
    case (Leave f)
    then have "r = Leave f" using r1 buf Suc.prems(6) by simp
    then show ?thesis using x Leave ss by simp
  next
    case (NextSector c f)
    then obtain p where p: "p * 32 \<le> length (carry @ buf)" "c = drop (p * 32) (carry @ buf)"
      and st: "exfat_stream ctx m c f = f"
        "exfat_stream ctx m (carry @ buf @ concat rest @ tl_bs) files = exfat_stream ctx m (c @ concat rest @ tl_bs) f"
      using x by auto
    have "drop (p * 32) (carry @ concat ss @ tl_bs) = c @ concat rest @ tl_bs"
      using p ss by simp
    then have "sets_ok (c @ concat rest @ tl_bs)" using sets_ok_drop [OF Suc.prems(4), of p] by simp
    moreover have "length c \<le> 608" "32 dvd length c" using r1 NextSector by (auto simp: sector_ok_def)
    moreover have "exfat_cluster rd ctx m cl (si + 1) k c f = Done r"
      using Suc.prems(6) r1 NextSector buf by simp
    ultimately show ?thesis using Suc.IH [OF _ _ rest _ st(1)] st(2) ss by (cases r) simp_all
  next
    case (Advance p f)
    then show ?thesis using x by simp
  qed
qed

lemma exfat_chain_stream:
  "length carry \<le> 608 \<Longrightarrow> 32 dvd length carry \<Longrightarrow>
   chain_sectors rd ctx (exfat_next_cluster rd (cx_fat_start ctx)) (\<lambda>v. v < 2 \<or> v \<ge> 0xFFFFFFF8) fuel cl = Some ss \<Longrightarrow>
   sets_ok (carry @ concat ss) \<Longrightarrow> exfat_stream ctx m carry files = files \<Longrightarrow>
     exfat_chain rd ctx m fuel cl carry files = Done (exfat_stream ctx m (carry @ concat ss) files)"
proof (induction fuel arbitrary: cl ss carry files)
  case (Suc fuel)
  let ?stop = "\<lambda>v :: u32. v < 2 \<or> v \<ge> 0xFFFFFFF8"
  obtain s v where s: "cluster_sectors rd ctx cl 0 (unat (cx_spc ctx)) = Some s"
    and v: "exfat_next_cluster rd (cx_fat_start ctx) cl = Some v"
    using Suc.prems(3) by (auto simp: bind_eq_Some_conv)
  obtain r where r: "exfat_cluster rd ctx m cl 0 (unat (cx_spc ctx)) carry files = Done r" "sector_ok m files r"
    using exfat_cluster_total [OF Suc.prems(1,2)] by blast
  obtain rest where ss: "ss = s @ rest" and rest: "if ?stop v then rest = [] else
      chain_sectors rd ctx (exfat_next_cluster rd (cx_fat_start ctx)) ?stop fuel v = Some rest"
    using Suc.prems(3) s v by (auto simp: bind_eq_Some_conv split: if_splits)
  have tl: "32 dvd length (concat rest)"
  proof (cases "?stop v")
    case False
    then show ?thesis using rest dvd_concat [OF chain_sectors_length] by auto
  qed (use rest in simp)
  have "sets_ok (carry @ concat s @ concat rest)" using Suc.prems(4) ss by simp
  note x = exfat_cluster_stream [OF Suc.prems(1,2) s this tl Suc.prems(5) r(1)]
  show ?case
  proof (cases r)
    case (Leave f)
    then show ?thesis using x r ss by simp
  next
    case (NextSector c f)
    then have c: "length c \<le> 608" "32 dvd length c" using r by (auto simp: sector_ok_def)
    show ?thesis
    proof (cases "?stop v")
      case True
      then show ?thesis using x r v ss NextSector rest by simp
    next
      case False
      then have rs: "chain_sectors rd ctx (exfat_next_cluster rd (cx_fat_start ctx)) ?stop fuel v = Some rest"
        using rest by simp
      have "exfat_chain rd ctx m fuel v c f = Done (exfat_stream ctx m (c @ concat rest) f)"
        using Suc.IH [OF c rs] x NextSector by simp
      then show ?thesis using False x r v ss NextSector by simp
    qed
  next
    case (Advance p f)
    then show ?thesis using x by simp
  qed
qed simp

end

end
