(* ===== verification/KernelFsTheorems.thy ===== *)
theory KernelFsTheorems
  imports KernelExfat
begin

text \<open>
  The properties of the FAT32 and exFAT scanners of the kernel, over the ATA driver.
\<close>

definition sample_ctx :: fs_ctx where
  "sample_ctx = \<lparr>cx_fs = Exfat, cx_part1_lba = 0, cx_spc = 1, cx_fat_start = 1, cx_fat_len = 1,
     cx_heap_start = 100, cx_root_cluster = 2, cx_mft_start_lba = 0, cx_sectors_per_cluster = 0,
     cx_mft_record_size = 0\<rparr>"

text \<open>The exFAT scan cannot panic, whatever the disk holds and however long it runs: every
  index into the sector, the carry buffer and the name buffer is in range, and what it returns is the list
  it got plus entries with a name of at most 256 bytes ending in .iso, never more than the array holds.
  It returns once the cluster chain ends.\<close>

theorem exfat_scan_safe:
  "scan_exfat_dir (ata_rd D) fuel ctx m files \<noteq> Panic \<and>
   (\<forall>f. scan_exfat_dir (ata_rd D) fuel ctx m files = Done f \<longrightarrow> grows m files f) \<and>
   (chain_ends (exfat_next_cluster (ata_rd D) (cx_fat_start ctx)) (\<lambda>v. v < 2 \<or> v \<ge> 0xFFFFFFF8) fuel
      (cx_root_cluster ctx) \<longrightarrow> (\<exists>f. scan_exfat_dir (ata_rd D) fuel ctx m files = Done f))"
  using ata.exfat_chain_total [of "[]" D ctx m fuel "cx_root_cluster ctx" files]
    ata.exfat_chain_ends [of "[]" D ctx fuel "cx_root_cluster ctx" m files]
  by (cases "scan_exfat_dir (ata_rd D) fuel ctx m files") (auto simp: scan_exfat_dir_def)

lemma exfat_scan_safe_witness:
  "\<exists>f. scan_exfat_dir (ata_rd (\<lambda>_. None)) 1 sample_ctx 64 [] = Done f \<and> grows 64 [] f"
proof -
  have "chain_ends (exfat_next_cluster (ata_rd (\<lambda>_. None)) (cx_fat_start sample_ctx))
      (\<lambda>v. v < 2 \<or> v \<ge> 0xFFFFFFF8) 1 (cx_root_cluster sample_ctx)"
  proof -
    have "ata_rd (\<lambda>_. None) l = None" if "unat l < 2 ^ 48" for l using ata_rd_disk [OF that, of "\<lambda>_. None"] by simp
    then show ?thesis
      by (simp add: exfat_next_cluster_def read_fat_entry_raw_def sample_ctx_def)
  qed
  with exfat_scan_safe [of "\<lambda>_. None" 1 sample_ctx 64 "[]"] show ?thesis by blast
qed

section \<open>A FAT32 directory as it is stored\<close>

text \<open>
  The items of a directory and their 32 bytes, as the FAT specification lays them out: a deleted one, a part of a long
  name, a volume label, and a record with its name, extension, attributes, first cluster and size.
\<close>

datatype fat_item =
    Deleted bytes
  | Name_part u8 bytes bytes
  | Volume_label bytes u8 bytes
  | Record bytes bytes u8 bytes u32 bytes u32

fun item_bytes :: "fat_item \<Rightarrow> bytes" where
  "item_bytes (Deleted rest) = 0xE5 # rest"
| "item_bytes (Name_part seq chars rest) = seq # chars @ [0x0F] @ rest"
| "item_bytes (Volume_label nm attr rest) = nm @ [attr] @ rest"
| "item_bytes (Record base ext attr stamp cluster date sz) =
     base @ replicate (8 - length base) 0x20 @ ext @ replicate (3 - length ext) 0x20 @ [attr] @ stamp
       @ drop 2 (to_le 4 cluster) @ date @ take 2 (to_le 4 cluster) @ to_le 4 sz"

fun item_ok :: "fat_item \<Rightarrow> bool" where
  "item_ok (Deleted rest) \<longleftrightarrow> length rest = 31"
| "item_ok (Name_part seq chars rest) \<longleftrightarrow> seq \<noteq> 0 \<and> seq \<noteq> 0xE5 \<and> length chars = 10 \<and> length rest = 20"
| "item_ok (Volume_label nm attr rest) \<longleftrightarrow>
     length nm = 11 \<and> nm ! 0 \<noteq> 0 \<and> nm ! 0 \<noteq> 0xE5 \<and> attr AND 0x08 \<noteq> 0 \<and> length rest = 20"
| "item_ok (Record base ext attr stamp cluster date sz) \<longleftrightarrow>
     base \<noteq> [] \<and> length base \<le> 8 \<and> base ! 0 \<noteq> 0 \<and> base ! 0 \<noteq> 0xE5 \<and> 0x20 \<notin> set base \<and> 0x2E \<notin> set base
     \<and> length ext \<le> 3 \<and> 0x20 \<notin> set ext \<and> attr AND 0x08 = 0 \<and> length stamp = 8 \<and> length date = 4"

text \<open>What the list shall hold of an item: the records with the extension ISO, in upper or lower case.\<close>

fun iso_of_item :: "fs_ctx \<Rightarrow> fat_item \<Rightarrow> dir_entry list" where
  "iso_of_item ctx (Record base ext attr stamp cluster date sz) =
     (if map to_ascii_lowercase ext = bstr ''iso''
      then [\<lparr>de_name = base @ [0x2E] @ ext @ replicate (252 - length base) 0, de_name_len = length base + 4,
              de_start_lba = cx_heap_start ctx + (ucast cluster - 2) * ucast (cx_spc ctx), de_size = ucast sz\<rparr>]
      else [])"
| "iso_of_item ctx item = []"

lemma until_blank_pad: "0x20 \<notin> set xs \<Longrightarrow> until_blank (xs @ replicate n 0x20) = xs"
  by (induction xs) (auto simp: until_blank_def takeWhile_eq_Nil_iff hd_append split: if_splits)

lemma four_bytes:
  assumes "length xs = 4"
  obtains a b c d where "xs = [a, b, c, d]"
proof -
  have "xs = [xs ! 0, xs ! 1, xs ! 2, xs ! 3]" using assms by (auto intro!: nth_equalityI simp: nth_Cons' numeral_eq_Suc less_Suc_eq)
  then show thesis by (rule that)
qed

lemma record_fields:
  assumes "item_ok (Record base ext attr stamp cluster date sz)"
  defines "e \<equiv> item_bytes (Record base ext attr stamp cluster date sz)"
  shows "e ! 0 = base ! 0" "e ! 11 = attr" "from_le [e ! 26, e ! 27, e ! 20, e ! 21] = cluster" "from_le (take 4 (drop 28 e)) = sz"
    "short_name e = base @ (if ext = [] then [] else 0x2E # ext)"
proof -
  let ?b = "base @ replicate (8 - length base) 0x20" and ?x = "ext @ replicate (3 - length ext) 0x20"
  let ?cl = "to_le 4 cluster"
  have ok: "base \<noteq> []" "length base \<le> 8" "0x20 \<notin> set base" "length ext \<le> 3" "0x20 \<notin> set ext" "length stamp = 8" "length date = 4"
    using assms(1) by simp_all
  have e: "e = ?b @ ?x @ [attr] @ stamp @ drop 2 ?cl @ date @ take 2 ?cl @ to_le 4 sz" by (simp add: e_def)
  have l: "length ?b = 8" "length ?x = 3" "length ?cl = 4" using ok by (simp_all add: to_le_length)
  have d: "drop 8 e = ?x @ [attr] @ stamp @ drop 2 ?cl @ date @ take 2 ?cl @ to_le 4 sz" "take 8 e = ?b" using l(1) by (simp_all add: e)
  have d11: "drop 11 e = [attr] @ stamp @ drop 2 ?cl @ date @ take 2 ?cl @ to_le 4 sz"
    using drop_drop [of 3 8 e] l(2) unfolding d(1) by simp
  have d20: "drop 20 e = drop 2 ?cl @ date @ take 2 ?cl @ to_le 4 sz" using drop_drop [of 9 11 e] ok(6) unfolding d11 by simp
  have le: "length e = 32" using l ok by (simp add: e to_le_length)
  have n: "e ! (k + i) = drop k e ! i" if "k + i < 32" for k i using that le by simp
  obtain c0 c1 c2 c3 where c: "?cl = [c0, c1, c2, c3]" by (rule four_bytes [OF l(3)])
  show "e ! 0 = base ! 0" using ok(1) by (simp add: e nth_append)
  show "e ! 11 = attr" using n [of 11 0] by (simp add: d11)
  have "e ! 20 = c2" "e ! 21 = c3" "e ! 26 = c0" "e ! 27 = c1"
    using n [of 20 0] n [of 20 1] n [of 20 6] n [of 20 7] ok(7) by (simp_all add: d20 c nth_append)
  then have "[e ! 26, e ! 27, e ! 20, e ! 21] = ?cl" by (simp add: c)
  then show "from_le [e ! 26, e ! 27, e ! 20, e ! 21] = cluster" by (simp add: from_le_to_le_sizes)
  have "drop 28 e = to_le 4 sz" using drop_drop [of 8 20 e] ok(7) unfolding d20 c by simp
  then show "from_le (take 4 (drop 28 e)) = sz" by (simp add: from_le_to_le_sizes to_le_length)
  have "e ! 8 = ?x ! 0" using n [of 8 0] l(2) by (simp add: d(1) nth_append)
  then have x: "e ! 8 \<noteq> 0x20 \<longleftrightarrow> ext \<noteq> []" using ok(5) by (cases ext) auto
  have "take 3 (drop 8 e) = ?x" using l(2) by (simp add: d(1))
  then show "short_name e = base @ (if ext = [] then [] else 0x2E # ext)"
    unfolding short_name_def d(2) x using until_blank_pad [OF ok(3)] until_blank_pad [OF ok(5)] by simp
qed

lemma lowercase_dot: "to_ascii_lowercase c = 0x2E \<longleftrightarrow> c = 0x2E"
proof -
  have "c + 32 \<noteq> 0x2E" if "65 \<le> c"
  proof
    assume "c + 32 = 0x2E"
    then have "c = 0x2E - 32" by (simp only: eq_diff_eq)
    with that show False by simp
  qed
  then show ?thesis by (auto simp: to_ascii_lowercase_def)
qed

lemma iso_suffix_dot: "has_iso_suffix nm \<Longrightarrow> nm ! (length nm - 4) = 0x2E"
proof -
  assume s: "has_iso_suffix nm"
  then have l: "length nm - 4 < length nm" and m: "map to_ascii_lowercase (drop (length nm - 4) nm) = map to_ascii_lowercase (bstr ''.iso'')"
    by (auto simp: has_iso_suffix_def eq_ignore_ascii_case_def)
  have "to_ascii_lowercase (drop (length nm - 4) nm ! 0) = 0x2E"
    using arg_cong [OF m, of "\<lambda>xs. xs ! 0"] l by (simp add: bstr_def to_ascii_lowercase_def)
  then show ?thesis using l by (simp add: lowercase_dot)
qed

lemma iso_suffix_ext:
  assumes "0x2E \<notin> set base" and "length ext \<le> 3"
  shows "has_iso_suffix (base @ (if ext = [] then [] else 0x2E # ext)) \<longleftrightarrow> map to_ascii_lowercase ext = bstr ''iso''"
proof (cases "length ext = 3")
  case True
  then have x: "ext \<noteq> []" by auto
  then have "drop (length (base @ 0x2E # ext) - 4) (base @ 0x2E # ext) = 0x2E # ext" using True by simp
  then show ?thesis using x True by (simp add: has_iso_suffix_def eq_ignore_ascii_case_def bstr_def to_ascii_lowercase_def)
next
  case False
  let ?nm = "base @ (if ext = [] then [] else 0x2E # ext)"
  have "\<not> has_iso_suffix ?nm"
  proof
    assume s: "has_iso_suffix ?nm"
    then have "4 \<le> length ?nm" by (simp add: has_iso_suffix_def)
    then have "length ?nm - 4 < length base" using False assms(2) by (auto split: if_splits)
    then have "?nm ! (length ?nm - 4) \<in> set base" by (simp only: nth_append if_True nth_mem)
    then show False using iso_suffix_dot [OF s] assms(1) by simp
  qed
  moreover have "map to_ascii_lowercase ext \<noteq> bstr ''iso''" using False by (auto simp: bstr_def dest!: arg_cong [where f = length])
  ultimately show ?thesis by simp
qed

lemma item_step:
  assumes "item_ok x"
  shows "item_bytes x ! 0 \<noteq> 0"
    and "(if item_bytes x ! 0 = 0xE5 then None else fat32_file ctx (item_bytes x)) = (case iso_of_item ctx x of [] \<Rightarrow> None | f # _ \<Rightarrow> Some f)"
proof -
  show "item_bytes x ! 0 \<noteq> 0"
    using assms record_fields(1) by (cases x) (auto simp: nth_append simp del: item_bytes.simps(4) item_ok.simps(4), auto simp: nth_append)
  show "(if item_bytes x ! 0 = 0xE5 then None else fat32_file ctx (item_bytes x)) = (case iso_of_item ctx x of [] \<Rightarrow> None | f # _ \<Rightarrow> Some f)"
  proof (cases x)
    case (Name_part seq chars rest)
    then show ?thesis using assms by (simp add: fat32_file_def nth_append)
  next
    case (Volume_label nm attr rest)
    then show ?thesis using assms by (simp add: fat32_file_def nth_append)
  next
    case (Record base ext attr stamp cluster date sz)
    note f = record_fields [OF assms [unfolded Record]]
    have ok: "0x2E \<notin> set base" "length ext \<le> 3" "base ! 0 \<noteq> 0xE5" "attr AND 0x08 = 0" using assms Record by simp_all
    then have "attr \<noteq> 0x0F" by auto
    moreover have "length ext = 3" if "map to_ascii_lowercase ext = bstr ''iso''"
      using arg_cong [OF that, of length] by (simp add: bstr_def)
    ultimately show ?thesis using ok iso_suffix_ext [OF ok(1,2)] unfolding Record
      by (auto simp: fat32_file_def f mk_entry_def name_buf_def cluster_lba_def simp del: item_bytes.simps)
  qed simp
qed

lemma listing_of_items:
  assumes "\<forall>x\<in>set items. item_ok x" and "rest \<noteq> [] \<longrightarrow> hd rest ! 0 = 0"
  shows "fat32_listing ctx (map item_bytes items @ rest) = concat (map (iso_of_item ctx) items)"
  using assms(1)
proof (induction items)
  case Nil
  then show ?case using assms(2) by (cases rest) (auto simp: fat32_listing_def map_filter_simps)
next
  case (Cons x items)
  then have ok: "item_ok x" by simp
  have IH: "fat32_listing ctx (map item_bytes items @ rest) = concat (map (iso_of_item ctx) items)" using Cons by simp
  have one: "iso_of_item ctx x = [] \<or> (\<exists>f. iso_of_item ctx x = [f])" by (cases x) auto
  show ?case using item_step(1) [OF ok] item_step(2) [OF ok, of ctx] IH one
    by (auto simp: fat32_listing_def map_filter_simps split: if_splits)
qed

text \<open>C24: the FAT32 scan lists exactly the .iso files of a directory: when the sectors of the cluster chain can be read
  and hold the bytes of a list of items as the FAT specification stores them, up to an end mark or the end of the
  chain, the result is the array it got, filled up to its size with the records whose extension is ISO, in order, with
  their name, first sector and size; deleted items, parts of long names and volume labels are passed over. A
  record is listed whether its attributes say file or directory.\<close>

theorem fat32_scan_lists:
  assumes "chain_sectors (ata_rd D) ctx (fat32_next_cluster (ata_rd D) (cx_fat_start ctx))
      (\<lambda>v. v < 2 \<or> v \<ge> 0x0FFFFFF0) fuel (cx_root_cluster ctx) = Some ss"
    and "cx_root_cluster ctx \<noteq> 0"
    and "concat (map sector_entries ss) = map item_bytes items @ rest" and "rest \<noteq> [] \<longrightarrow> hd rest ! 0 = 0"
    and "\<forall>x\<in>set items. item_ok x"
  shows "scan_fat32_dir (ata_rd D) fuel ctx m files =
    Done (files @ take (m - length files) (concat (map (iso_of_item ctx) items)))"
  using ata.fat32_chain_listing [OF assms(1)] assms(2) listing_of_items [OF assms(5,4), of ctx]
  by (simp add: scan_fat32_dir_def assms(3))

text \<open>The FAT32 scan never panics and returns once the cluster chain ends, for any disk.\<close>

theorem fat32_scan_safe:
  "scan_fat32_dir (ata_rd D) fuel ctx m files \<noteq> Panic \<and>
   (chain_ends (fat32_next_cluster (ata_rd D) (cx_fat_start ctx)) (\<lambda>v. v < 2 \<or> v \<ge> 0x0FFFFFF0) fuel
      (cx_root_cluster ctx) \<longrightarrow> (\<exists>f. scan_fat32_dir (ata_rd D) fuel ctx m files = Done f))"
  using ata.fat32_chain_ends [of D ctx m fuel "cx_root_cluster ctx" files]
  by (cases "scan_fat32_dir (ata_rd D) fuel ctx m files") (auto simp: scan_fat32_dir_def split: if_splits)

text \<open>C25: the carry buffer makes sector and cluster boundaries invisible to the exFAT scan: when
  the chain can be read and no entry set exceeds the exFAT maximum of 18 secondary entries, the scan returns
  what reading the whole directory from one buffer returns.\<close>

theorem exfat_scan_is_stream:
  assumes "chain_sectors (ata_rd D) ctx (exfat_next_cluster (ata_rd D) (cx_fat_start ctx))
      (\<lambda>v. v < 2 \<or> v \<ge> 0xFFFFFFF8) fuel (cx_root_cluster ctx) = Some ss"
    and "sets_ok (concat ss)"
  shows "scan_exfat_dir (ata_rd D) fuel ctx m files = Done (exfat_stream ctx m (concat ss) files)"
  using ata.exfat_chain_stream [of "[]" D ctx fuel "cx_root_cluster ctx" ss m files] assms
  by (simp add: scan_exfat_dir_def exfat_stream.simps [of ctx m "[]"])

text \<open>A disk with the FAT sector \<open>f\<close> at sector 1 and the sector \<open>s\<close> everywhere else.\<close>

definition two_disk :: "bytes \<Rightarrow> bytes \<Rightarrow> u64 \<Rightarrow> bytes option" where
  "two_disk f s = (\<lambda>l. Some (if l = 1 then f else s))"

lemma two_rd: "length f = 512 \<Longrightarrow> length s = 512 \<Longrightarrow> unat l < 2 ^ 48 \<Longrightarrow>
    ata_rd (two_disk f s) l = Some (if l = 1 then f else s)"
  using ata_rd_disk [of l "two_disk f s"] by (simp add: two_disk_def split: if_splits)

lemma sample_fat: "length f = 512 \<Longrightarrow> length s = 512 \<Longrightarrow>
    read_fat_entry_raw (ata_rd (two_disk f s)) (cx_fat_start sample_ctx) 2 = Some (from_le (take 4 (drop 8 f)))"
  by (simp add: read_fat_entry_raw_def two_rd sample_ctx_def bounds_simps)

lemma sample_cluster: "length f = 512 \<Longrightarrow> length s = 512 \<Longrightarrow>
    cluster_sectors (ata_rd (two_disk f s)) sample_ctx 2 0 1 = Some [s]"
  using two_rd [of f s 100] by (simp add: cluster_lba_def sample_ctx_def)

text \<open>One cluster of a directory, ended by a zero in the FAT.\<close>

definition no_fat :: bytes where "no_fat = replicate 512 0"

lemma no_fat_read: "length s = 512 \<Longrightarrow> read_fat_entry_raw (ata_rd (two_disk no_fat s)) (cx_fat_start sample_ctx) 2 = Some 0"
  using sample_fat [of no_fat s] by (simp add: no_fat_def from_le_def numeral_eq_Suc)

lemma sample_chain32: "length s = 512 \<Longrightarrow> chain_sectors (ata_rd (two_disk no_fat s)) sample_ctx
    (fat32_next_cluster (ata_rd (two_disk no_fat s)) (cx_fat_start sample_ctx)) (\<lambda>v. v < 2 \<or> v \<ge> 0x0FFFFFF0) 1 2 = Some [s]"
  using sample_cluster [of no_fat s] no_fat_read [of s]
  by (simp add: fat32_next_cluster_def no_fat_def sample_ctx_def)

lemma sample_chain_ex: "length s = 512 \<Longrightarrow> chain_sectors (ata_rd (two_disk no_fat s)) sample_ctx
    (exfat_next_cluster (ata_rd (two_disk no_fat s)) (cx_fat_start sample_ctx)) (\<lambda>v. v < 2 \<or> v \<ge> 0xFFFFFFF8) 1 2 = Some [s]"
  using sample_cluster [of no_fat s] no_fat_read [of s]
  by (simp add: exfat_next_cluster_def no_fat_def sample_ctx_def)

text \<open>A FAT32 directory with the file A.ISO, 2048 bytes from cluster 5.\<close>

definition fat32_sample :: bytes where
  "fat32_sample = bstr ''A       ISO'' @ [0x20] @ replicate 14 0 @ [5, 0, 0, 8, 0, 0] @ replicate 480 0"

definition sample_items :: "fat_item list" where
  "sample_items =
     [Volume_label (bstr ''CHOOSABLE.I'') 0x08 (replicate 20 0), Name_part 0x41 (replicate 10 0x41) (replicate 20 0xFF),
      Record (bstr ''A'') (bstr ''ISO'') 0x20 (replicate 8 0) 5 (replicate 4 0) 2048, Deleted (bstr ''OLD    ISO'' @ replicate 21 0x20),
      Record (bstr ''README'') (bstr ''TXT'') 0x20 (replicate 8 0) 6 (replicate 4 0) 90]"

definition fat32_dir :: bytes where
  "fat32_dir = concat (map item_bytes sample_items) @ replicate 352 0"

lemma fat32_scan_lists_witness:
  "scan_fat32_dir (ata_rd (two_disk no_fat fat32_dir)) 1 sample_ctx 64 [] = Done [mk_entry (bstr ''A.ISO'') 103 2048]"
proof -
  have l: "length fat32_dir = 512" by code_simp
  have root: "cx_root_cluster sample_ctx = 2" by (simp add: sample_ctx_def)
  have d: "concat (map sector_entries [fat32_dir]) = map item_bytes sample_items @ replicate 11 (replicate 32 0)" by code_simp
  have ok: "\<forall>x\<in>set sample_items. item_ok x" by (simp add: sample_items_def bstr_def)
  have r: "replicate 11 (replicate 32 0 :: bytes) \<noteq> [] \<longrightarrow> hd (replicate 11 (replicate 32 0)) ! 0 = (0 :: u8)" by simp
  have "concat (map (iso_of_item sample_ctx) sample_items) = [mk_entry (bstr ''A.ISO'') 103 2048]" by code_simp
  with fat32_scan_lists [OF _ _ d r ok, of "two_disk no_fat fat32_dir" sample_ctx 1 64 "[]"]
    sample_chain32 [OF l] show ?thesis by (simp add: root)
qed

lemma fat32_scan_safe_witness: "\<exists>f. scan_fat32_dir (ata_rd (two_disk no_fat no_fat)) 1 sample_ctx 64 [] = Done f"
proof -
  have "chain_ends (fat32_next_cluster (ata_rd (two_disk no_fat no_fat)) (cx_fat_start sample_ctx))
      (\<lambda>v. v < 2 \<or> v \<ge> 0x0FFFFFF0) 1 (cx_root_cluster sample_ctx)"
    using no_fat_read [of no_fat] by (simp add: fat32_next_cluster_def no_fat_def sample_ctx_def)
  with fat32_scan_safe [of "two_disk no_fat no_fat" 1 sample_ctx 64 "[]"] show ?thesis by blast
qed

text \<open>An exFAT directory with the file a.iso, 4096 bytes from cluster 7.\<close>

definition exfat_sample :: bytes where
  "exfat_sample = [0x85, 2] @ replicate 30 0
     @ [0xC0, 0, 0, 5] @ replicate 16 0 @ [7, 0, 0, 0, 0, 16, 0, 0, 0, 0, 0, 0]
     @ [0xC1, 0] @ concat (map (\<lambda>c. [of_char c, 0]) ''a.iso'') @ replicate 20 0 @ replicate 416 0"

lemma exfat_scan_is_stream_witness:
  "scan_exfat_dir (ata_rd (two_disk no_fat exfat_sample)) 1 sample_ctx 64 [] =
     Done [mk_entry (bstr ''a.iso'') 105 4096]"
proof -
  have l: "length exfat_sample = 512" by (simp add: exfat_sample_def)
  have root: "cx_root_cluster sample_ctx = 2" by (simp add: sample_ctx_def)
  have "\<forall>j\<in>set [0..<16]. exfat_sample ! (j * 32) = 0x85 \<longrightarrow> unat (exfat_sample ! (j * 32 + 1)) \<le> 18"
    by code_simp
  then have "sets_ok (concat [exfat_sample])" by (auto simp: sets_ok_def l simp del: upt_rec_numeral)
  have "exfat_stream sample_ctx 64 exfat_sample [] = [mk_entry (bstr ''a.iso'') 105 4096]"
    by code_simp
  with exfat_scan_is_stream [of "two_disk no_fat exfat_sample" sample_ctx 1 "[exfat_sample]" 64 "[]"]
    sample_chain_ex [OF l] \<open>sets_ok (concat [exfat_sample])\<close> show ?thesis by (simp add: root)
qed

definition cyclic_sector :: bytes where
  "cyclic_sector = replicate 8 0x05 @ [2, 0, 0, 0] @ replicate 500 0x05"

lemma skip_entries:
  assumes "length ents = n * 32" and "\<forall>j<n. ents ! (j * 32) = 5"
  shows "n < fuel + pos \<Longrightarrow> pos \<le> n \<Longrightarrow> exfat_entries ctx m ents n fuel pos files = Done (NextSector [] files)"
proof (induction fuel arbitrary: pos)
  case (Suc fuel)
  show ?case
  proof (cases "pos < n")
    case True
    then have "exfat_entry ctx m ents n pos files = Some (Advance (pos + 1) files)"
      using assms by (simp add: exfat_entry_def bounds_simps)
    then show ?thesis using True Suc by simp
  qed simp
qed simp

text \<open>The scanners do not detect a cycle in the FAT: on a disk whose directory cluster is its
  own successor and holds only unused entries, the exFAT scan is still running after any number of clusters.\<close>

theorem exfat_cycle_spins:
  "scan_exfat_dir (ata_rd (two_disk cyclic_sector cyclic_sector)) fuel sample_ctx 64 [] = Spin"
proof -
  have l: "length cyclic_sector = 512" by (simp add: cyclic_sector_def)
  have e: "\<forall>j<16. cyclic_sector ! (j * 32) = 5"
    by (auto simp: cyclic_sector_def nth_append nth_Cons')
  have sec: "exfat_sector sample_ctx 64 [] cyclic_sector [] = Done (NextSector [] [])"
  proof -
    have "length cyclic_sector = 16 * 32" by (simp add: l)
    from skip_entries [OF this e, of 17 0 sample_ctx 64 "[]"] show ?thesis
      by (simp add: exfat_sector_def bounds_simps l del: exfat_entries.simps)
  qed
  have rd: "ata_rd (two_disk cyclic_sector cyclic_sector) 100 = Some cyclic_sector" using two_rd [OF l l, of 100] by simp
  have cl: "exfat_cluster (ata_rd (two_disk cyclic_sector cyclic_sector)) sample_ctx 64 2 0 1 [] [] = Done (NextSector [] [])"
    using rd sec by (simp add: cluster_lba_def sample_ctx_def)
  have nxt: "exfat_next_cluster (ata_rd (two_disk cyclic_sector cyclic_sector)) (cx_fat_start sample_ctx) 2 = Some 2"
    using sample_fat [OF l l] by (simp add: exfat_next_cluster_def from_le_def cyclic_sector_def)
  have "exfat_chain (ata_rd (two_disk cyclic_sector cyclic_sector)) sample_ctx 64 fuel 2 [] [] = Spin"
    using cl nxt by (induction fuel) (simp_all add: sample_ctx_def)
  then show ?thesis by (simp add: scan_exfat_dir_def sample_ctx_def)
qed

end
