(* ===== verification/KScan.thy ===== *)
theory KScan
  imports KernelNtfs KernelFsTheorems
begin

text \<open>
  The interface between the scanners and the boot menu: a scan never panics and only adds
  well-formed .iso entries, up to the 64 the array holds. The dispatcher \<open>scan_filesystem\<close> provides it for
  all three file systems.
\<close>

locale scanner =
  fixes scan :: "dir_entry list \<Rightarrow> dir_entry list outcome"
  assumes scan_safe: "scan files \<noteq> Panic"
    and scan_grows: "scan files = Done files' \<Longrightarrow> grows 64 files files'"

section \<open>FAT32 entries are well-formed\<close>

lemma short_name_length: "length e = 32 \<Longrightarrow> length (short_name e) \<le> 256"
proof -
  have "length (until_blank x) \<le> length x" for x by (simp add: until_blank_def length_takeWhile_le)
  from this [of "take 8 e"] this [of "take 3 (drop 8 e)"] show "length e = 32 \<Longrightarrow> ?thesis"
    by (simp add: short_name_def)
qed

lemma fat32_file_ok: "length e = 32 \<Longrightarrow> fat32_file ctx e = Some f \<Longrightarrow> entry_ok f"
  using mk_entry_ok [OF _ short_name_length] by (auto simp: fat32_file_def split: if_splits)

lemma fat32_entries_grows:
  "fat32_entries ctx m buf i n files = Some r \<Longrightarrow>
     (case r of Leave f \<Rightarrow> grows m files f | NextSector _ f \<Rightarrow> grows m files f | Advance _ f \<Rightarrow> False)"
proof (induction n arbitrary: i files)
  case (Suc n)
  from Suc.prems obtain e where sl: "slice buf (i * 32) (i * 32 + 32) = Some e"
    by (auto split: Option.bind_splits)
  have le: "length e = 32" using slice_length [OF sl] by simp
  define files' where "files' = (case fat32_file ctx e of
      Some f \<Rightarrow> if length files < m then files @ [f] else files | None \<Rightarrow> files)"
  have g: "grows m files files'"
    using fat32_file_ok [OF le, of ctx] by (auto simp: files'_def intro: grows_add split: option.splits)
  show ?case
  proof (cases "e ! 0 = 0 \<or> e ! 0 = 0xE5")
    case True
    then show ?thesis using Suc.prems Suc.IH [of "i + 1" files] sl by (auto split: if_splits)
  next
    case False
    then have "fat32_entries ctx m buf (i + 1) n files' = Some r" using Suc.prems sl by (simp add: files'_def Let_def)
    from Suc.IH [OF this] g show ?thesis by (auto split: scan_step.splits intro: grows_trans)
  qed
qed auto

lemma fat32_cluster_grows:
  "fat32_cluster rd ctx m cl si n files = Done r \<Longrightarrow>
     (case r of Leave f \<Rightarrow> grows m files f | NextSector _ f \<Rightarrow> grows m files f | Advance _ f \<Rightarrow> False)"
proof (induction n arbitrary: si files)
  case (Suc n)
  show ?case
  proof (cases "rd (cluster_lba ctx cl + word_of_nat si)")
    case None
    then show ?thesis using Suc.prems by auto
  next
    case (Some buf)
    then obtain q where q: "fat32_entries ctx m buf 0 16 files = Some q"
      and c: "(case q of NextSector _ f \<Rightarrow> fat32_cluster rd ctx m cl (si + 1) n f | _ \<Rightarrow> Done q) = Done r"
      using Suc.prems by (auto simp: obind_Done_iff simp del: fat32_entries.simps)
    from fat32_entries_grows [OF q] c Suc.IH show ?thesis
      by (auto split: scan_step.splits) (metis grows_trans)+
  qed
qed auto

lemma fat32_chain_grows: "fat32_chain rd ctx m fuel cl files = Done f \<Longrightarrow> grows m files f"
proof (induction fuel arbitrary: cl files)
  case (Suc fuel)
  then obtain r where r: "fat32_cluster rd ctx m cl 0 (unat (cx_spc ctx)) files = Done r"
    by (auto simp: obind_Done_iff)
  from fat32_cluster_grows [OF r] Suc.prems r Suc.IH show ?case
    by (auto simp: obind_Done_iff split: scan_step.splits if_splits) (metis grows_trans)+
qed simp

section \<open>The dispatcher is a scanner\<close>

interpretation kscan: scanner "\<lambda>files. scan_filesystem (ata_rd D) fuel ctx 64 files" for D fuel ctx
proof
  fix files :: "dir_entry list"
  show "scan_filesystem (ata_rd D) fuel ctx 64 files \<noteq> Panic"
    using ata.exfat_chain_total [of "[]" D ctx 64 fuel "cx_root_cluster ctx" files]
      ata.fat32_chain_ends [of D ctx 64 fuel "cx_root_cluster ctx" files] ata.scan_ntfs_total [of 64 D ctx files]
    by (auto simp: scan_filesystem_def scan_exfat_dir_def scan_fat32_dir_def split: fs_type.splits)
next
  fix files files'
  assume "scan_filesystem (ata_rd D) fuel ctx 64 files = Done files'"
  then show "grows 64 files files'"
    using ata.exfat_chain_total [of "[]" D ctx 64 fuel "cx_root_cluster ctx" files]
      fat32_chain_grows [of "ata_rd D" ctx 64 fuel "cx_root_cluster ctx" files files'] ata.scan_ntfs_total [of 64 D ctx files]
    by (auto simp: scan_filesystem_def scan_exfat_dir_def scan_fat32_dir_def split: fs_type.splits if_splits)
qed

end
