(* ===== verification/Console.thy ===== *)
theory Console
  imports Ata
begin

text \<open>
  The text screen and the keyboard of the BIOS kernel (\<open>kernel/src/vga.rs\<close>,
  \<open>kbd.rs\<close>). The screen is the 4000 bytes at 0xB8000; the code writes them through a raw
  pointer, so a write outside them would corrupt other memory: it is \<open>None\<close> here.
\<close>

definition VGA_COLS :: nat where "VGA_COLS = 80"
definition VGA_ROWS :: nat where "VGA_ROWS = 25"

definition vga_cell :: "bytes \<Rightarrow> nat \<Rightarrow> u8 \<Rightarrow> u8 \<Rightarrow> bytes option" where
  "vga_cell scr off ch attr = do { s \<leftarrow> put scr off ch; put s (off + 1) attr }"

fun vga_clear_from :: "nat \<Rightarrow> nat \<Rightarrow> u8 \<Rightarrow> bytes \<Rightarrow> bytes option" where
  "vga_clear_from i 0 attr scr = Some scr"
| "vga_clear_from i (Suc n) attr scr =
     do { s \<leftarrow> vga_cell scr (i * 2) 32 attr; vga_clear_from (i + 1) n attr s }"

definition vga_clear :: "u8 \<Rightarrow> bytes \<Rightarrow> bytes option" where
  "vga_clear attr scr = vga_clear_from 0 (VGA_COLS * VGA_ROWS) attr scr"

fun vga_put :: "nat \<Rightarrow> bytes \<Rightarrow> u8 \<Rightarrow> bytes \<Rightarrow> bytes option" where
  "vga_put off [] attr scr = Some scr"
| "vga_put off (ch # s) attr scr =
     (if ch = 0 then Some scr
      else if off \<ge> VGA_COLS * VGA_ROWS * 2 then Some scr
      else do { scr1 \<leftarrow> vga_cell scr off ch attr; vga_put (off + 2) s attr scr1 })"

definition vga_print :: "nat \<Rightarrow> nat \<Rightarrow> bytes \<Rightarrow> u8 \<Rightarrow> bytes \<Rightarrow> bytes option" where
  "vga_print row col s attr scr =
     (if row \<ge> VGA_ROWS \<or> col \<ge> VGA_COLS then Some scr
      else vga_put ((row * VGA_COLS + col) * 2) s attr scr)"

definition hex_digit :: "u8 \<Rightarrow> u8" where
  "hex_digit val = (if val < 10 then val + 48 else val - 10 + 65)"

definition vga_print_byte :: "u8 \<Rightarrow> nat \<Rightarrow> nat \<Rightarrow> u8 \<Rightarrow> bytes \<Rightarrow> bytes option" where
  "vga_print_byte val row col attr scr = vga_print row col [hex_digit val] attr scr"

fun vga_print_u32_from :: "nat \<Rightarrow> nat \<Rightarrow> u32 \<Rightarrow> nat \<Rightarrow> nat \<Rightarrow> u8 \<Rightarrow> bytes \<Rightarrow> bytes option" where
  "vga_print_u32_from i 0 v row col attr scr = Some scr"
| "vga_print_u32_from i (Suc n) v row col attr scr =
     do { s \<leftarrow> vga_print_byte (ucast (drop_bit (28 - i * 4) v) AND 0xF) row (col + i) attr scr;
          vga_print_u32_from (i + 1) n v row col attr s }"

definition vga_print_u32 :: "u32 \<Rightarrow> nat \<Rightarrow> nat \<Rightarrow> u8 \<Rightarrow> bytes \<Rightarrow> bytes option" where
  "vga_print_u32 v row col attr scr = vga_print_u32_from 0 8 v row col attr scr"

section \<open>Keyboard\<close>

definition kbd_poll :: "'d port_io \<Rightarrow> 'd \<Rightarrow> u8 option \<times> 'd" where
  "kbd_poll io dev =
     (let (st, dev1) = inb io 0x64 dev
      in if st AND 1 = 0 then (None, dev1)
         else let (sc, dev2) = inb io 0x60 dev1 in (Some sc, dev2))"

fun kbd_wait_key :: "'d port_io \<Rightarrow> nat \<Rightarrow> 'd \<Rightarrow> (u8 \<times> 'd) outcome" where
  "kbd_wait_key io 0 dev = Spin"
| "kbd_wait_key io (Suc fuel) dev =
     (let (k, dev1) = kbd_poll io dev
      in case k of Some sc \<Rightarrow> Done (sc, dev1) | None \<Rightarrow> kbd_wait_key io fuel dev1)"

definition scancode_to_ascii :: "u8 \<Rightarrow> u8 option" where
  "scancode_to_ascii sc =
     (if 0x02 \<le> sc \<and> sc \<le> 0x0A then Some (49 + (sc - 0x02))
      else if sc = 0x0B then Some 48
      else if sc = 0x0E then Some 8
      else if sc = 0x19 then Some 112
      else if sc = 0x13 then Some 114
      else if sc = 0x31 then Some 110
      else if sc = 0x1C then Some 10
      else None)"

section \<open>Every write stays on the screen\<close>

lemma vga_cell_ok: "off + 1 < length scr \<Longrightarrow> vga_cell scr off ch attr = Some (scr[off := ch, off + 1 := attr])"
  by (simp add: vga_cell_def bounds_simps)

lemma vga_put_ok:
  "length scr = 4000 \<Longrightarrow> even off \<Longrightarrow> \<exists>scr'. vga_put off s attr scr = Some scr' \<and> length scr' = 4000 \<and>
     (\<forall>i<off. scr' ! i = scr ! i) \<and> (\<forall>i. off + 2 * length s \<le> i \<longrightarrow> scr' ! i = scr ! i)"
proof (induction s arbitrary: off scr)
  case (Cons ch s)
  show ?case
  proof (cases "ch = 0 \<or> off \<ge> VGA_COLS * VGA_ROWS * 2")
    case False
    then have o: "off + 1 < length scr" using Cons.prems by (auto simp: VGA_COLS_def VGA_ROWS_def elim!: evenE)
    obtain scr' where "vga_put (off + 2) s attr (scr[off := ch, off + 1 := attr]) = Some scr'" "length scr' = 4000"
      "\<forall>i<off + 2. scr' ! i = scr[off := ch, off + 1 := attr] ! i"
      "\<forall>i. off + 2 + 2 * length s \<le> i \<longrightarrow> scr' ! i = scr[off := ch, off + 1 := attr] ! i"
      using Cons.IH [of "scr[off := ch, off + 1 := attr]" "off + 2"] Cons.prems by auto
    with False o show ?thesis by (auto simp: vga_cell_ok)
  qed (use Cons.prems in auto)
qed simp

lemma vga_print_ok:
  assumes "length scr = 4000"
  shows "\<exists>scr'. vga_print row col s attr scr = Some scr' \<and> length scr' = 4000"
  using vga_put_ok [OF assms, of "(row * VGA_COLS + col) * 2" s attr] assms
  by (auto simp: vga_print_def)

lemma vga_clear_from_ok:
  "length scr = 4000 \<Longrightarrow> i + n \<le> 2000 \<Longrightarrow> \<exists>scr'. vga_clear_from i n attr scr = Some scr' \<and> length scr' = 4000"
proof (induction n arbitrary: i scr)
  case (Suc n)
  then have "vga_cell scr (i * 2) 32 attr = Some (scr[i * 2 := 32, i * 2 + 1 := attr])" by (intro vga_cell_ok) simp
  with Suc.IH [of "scr[i * 2 := 32, i * 2 + 1 := attr]" "i + 1"] Suc.prems show ?case by simp
qed simp

lemma vga_clear_ok: "length scr = 4000 \<Longrightarrow> \<exists>scr'. vga_clear attr scr = Some scr' \<and> length scr' = 4000"
  using vga_clear_from_ok [of scr 0 2000 attr] by (simp add: vga_clear_def VGA_COLS_def VGA_ROWS_def)

text \<open>The characters a print puts down, one per cell.\<close>

lemma vga_put_chars:
  "length scr = 4000 \<Longrightarrow> even off \<Longrightarrow> 0 \<notin> set s \<Longrightarrow> off + 2 * length s \<le> 4000 \<Longrightarrow> k < length s \<Longrightarrow>
     \<exists>scr'. vga_put off s attr scr = Some scr' \<and> scr' ! (off + 2 * k) = s ! k \<and> scr' ! (off + 2 * k + 1) = attr"
proof (induction s arbitrary: off scr k)
  case (Cons ch s)
  let ?scr = "scr[off := ch, off + 1 := attr]"
  have o: "off + 1 < length scr" using Cons.prems by simp
  obtain scr' where p: "vga_put (off + 2) s attr ?scr = Some scr'" and b: "\<forall>i<off + 2. scr' ! i = ?scr ! i"
    using vga_put_ok [of ?scr "off + 2" s attr] Cons.prems by auto
  have run: "vga_put off (ch # s) attr scr = Some scr'"
    using p o Cons.prems by (auto simp: vga_cell_ok VGA_COLS_def VGA_ROWS_def)
  show ?case
  proof (cases k)
    case 0
    then show ?thesis using run b o by simp
  next
    case (Suc k')
    then show ?thesis using run p Cons.IH [of ?scr "off + 2" k'] Cons.prems by (auto simp: algebra_simps)
  qed
qed simp

text \<open>No print can write outside the 4000 bytes of the text screen, whatever the row, the
  column and the string; a string without NUL that fits is shown cell by cell with its attribute.\<close>

theorem vga_print_stays_on_screen:
  assumes "length scr = 4000"
  shows "\<exists>scr'. vga_print row col s attr scr = Some scr' \<and> length scr' = 4000 \<and>
    (row < VGA_ROWS \<and> col < VGA_COLS \<and> 0 \<notin> set s \<and> (row * 80 + col) + length s \<le> 2000 \<longrightarrow>
      (\<forall>k<length s. scr' ! ((row * 80 + col + k) * 2) = s ! k \<and> scr' ! ((row * 80 + col + k) * 2 + 1) = attr))"
proof -
  obtain scr' where r: "vga_print row col s attr scr = Some scr'" "length scr' = 4000"
    using vga_print_ok [OF assms] by blast
  have "scr' ! ((row * 80 + col + k) * 2) = s ! k \<and> scr' ! ((row * 80 + col + k) * 2 + 1) = attr"
    if c: "row < VGA_ROWS \<and> col < VGA_COLS \<and> 0 \<notin> set s \<and> (row * 80 + col) + length s \<le> 2000" "k < length s" for k
    using vga_put_chars [OF assms, of "(row * 80 + col) * 2" s k attr] c r(1)
    by (auto simp: vga_print_def VGA_COLS_def algebra_simps)
  with r show ?thesis by blast
qed

lemma vga_print_stays_on_screen_witness:
  "\<exists>scr'. vga_print 24 79 [65, 66] 7 (replicate 4000 0) = Some scr' \<and> length scr' = 4000"
  using vga_print_stays_on_screen [of "replicate 4000 0" 24 79 "[65, 66]" 7] by auto

end
