(* ===== verification/Chainload.thy ===== *)
theory Chainload
  imports Prelude
begin

text \<open>
  The way from long mode to the boot image (\<open>kernel/src/chainload.rs\<close>): the GDT, the
  three code fragments as the bytes of the source, their copies to low memory, and an
  interpreter for exactly the instructions they contain, with the mode rules of the
  processor manual that order the steps (paging before PAE and LME, protection last).
\<close>

section \<open>GDT and code fragments\<close>

definition GDT_NULL :: u64 where "GDT_NULL = 0x0000000000000000"
definition GDT_CODE32 :: u64 where "GDT_CODE32 = 0x00CF9A000000FFFF"
definition GDT_CODE16 :: u64 where "GDT_CODE16 = 0x00009A000000FFFF"

definition GDT :: "u64 list" where
  "GDT = [GDT_NULL, GDT_CODE32, GDT_CODE16]"

text \<open>\<open>init_gdtr\<close>: the limit of the descriptor; the base is where the linker puts the table.\<close>

definition gdtr_limit :: nat where
  "gdtr_limit = 8 * length GDT - 1"

definition MODE_SWITCH :: bytes where
  "MODE_SWITCH = [
    0x0F, 0x20, 0xC0,
    0x25, 0xFF, 0xFF, 0xFF, 0x7F,
    0x0F, 0x22, 0xC0,
    0x0F, 0x20, 0xD8,
    0x0F, 0x22, 0xD8,
    0x0F, 0x20, 0xE0,
    0x25, 0xDF, 0xFF, 0xFF, 0xFF,
    0x0F, 0x22, 0xE0,
    0xB9, 0x80, 0x00, 0x00, 0xC0,
    0x0F, 0x32,
    0x25, 0xFF, 0xFE, 0xFF, 0xFF,
    0x0F, 0x30,
    0xEA, 0x00, 0x06, 0x00, 0x00, 0x10, 0x00]"

definition TRAMP_A :: bytes where
  "TRAMP_A = [
    0x66, 0x0F, 0x20, 0xC0,
    0x66, 0x83, 0xE0, 0xFE,
    0x66, 0x0F, 0x22, 0xC0,
    0xEA, 0x14, 0x06, 0x00, 0x00]"

definition TRAMP_B :: bytes where
  "TRAMP_B = [
    0xB8, 0x00, 0x00,
    0x8E, 0xD8,
    0x8E, 0xC0,
    0x8E, 0xE0,
    0x8E, 0xE8,
    0x8E, 0xD0,
    0xBC, 0x00, 0x70,
    0xFB,
    0xB2, 0x80,
    0xEA, 0x00, 0x7C, 0x00, 0x00]"

type_synonym memory = "nat \<Rightarrow> u8"

definition mem_copy :: "nat \<Rightarrow> bytes \<Rightarrow> memory \<Rightarrow> memory" where
  "mem_copy a bs m = (\<lambda>i. if a \<le> i \<and> i < a + length bs then bs ! (i - a) else m i)"

definition copy_mode_switch_code :: "memory \<Rightarrow> memory" where
  "copy_mode_switch_code m = mem_copy 0x500 MODE_SWITCH m"

definition copy_trampolines :: "memory \<Rightarrow> memory" where
  "copy_trampolines m = mem_copy 0x614 TRAMP_B (mem_copy 0x600 TRAMP_A m)"

section \<open>The processor\<close>

text \<open>
  \<open>k_low\<close> is the lowest address above the boot sector that the kernel uses while it loads and starts an image: the
  depth its stack reaches below 0x80000. Its page tables, the screen and the kernel itself lie above.
\<close>

record cpu =
  r_eax :: u32
  r_ecx :: u32
  r_edx :: u32
  r_sp :: u16
  cr0 :: u32
  cr3 :: u32
  cr4 :: u32
  efer :: u64
  s_cs :: u16
  cs_base :: nat
  cs_d32 :: bool
  s_ds :: u16
  s_es :: u16
  s_fs :: u16
  s_gs :: u16
  s_ss :: u16
  ip :: nat
  iflag :: bool
  gdt :: "u64 list"
  mem :: memory
  k_low :: nat

definition fetch :: "cpu \<Rightarrow> nat \<Rightarrow> nat" where
  "fetch s k = unat (mem s (cs_base s + ip s + k))"

definition fetch16 :: "cpu \<Rightarrow> nat \<Rightarrow> nat" where
  "fetch16 s k = fetch s k + 256 * fetch s (k + 1)"

definition fetch32 :: "cpu \<Rightarrow> nat \<Rightarrow> nat" where
  "fetch32 s k = fetch16 s k + 65536 * fetch16 s (k + 2)"

definition advance :: "nat \<Rightarrow> cpu \<Rightarrow> cpu" where
  "advance n s = s\<lparr>ip := ip s + n\<rparr>"

text \<open>Control registers by number. A write that the processor refuses is \<open>None\<close>.\<close>

definition read_cr :: "cpu \<Rightarrow> nat \<Rightarrow> u32 option" where
  "read_cr s n = (if n = 0 then Some (cr0 s) else if n = 3 then Some (cr3 s)
     else if n = 4 then Some (cr4 s) else None)"

definition write_cr :: "cpu \<Rightarrow> nat \<Rightarrow> u32 \<Rightarrow> cpu option" where
  "write_cr s n v =
     (if n = 0 then (if bit v 31 \<and> \<not> bit v 0 then None else Some (s\<lparr>cr0 := v\<rparr>))
      else if n = 3 then Some (s\<lparr>cr3 := v\<rparr>)
      else if n = 4 then
        (if bit (cr0 s) 31 \<and> bit (efer s) 8 \<and> \<not> bit v 5 then None else Some (s\<lparr>cr4 := v\<rparr>))
      else None)"

definition write_efer :: "cpu \<Rightarrow> u64 \<Rightarrow> cpu option" where
  "write_efer s v =
     (if bit (cr0 s) 31 \<and> bit v 8 \<noteq> bit (efer s) 8 then None else Some (s\<lparr>efer := v\<rparr>))"

text \<open>
  A far jump: in real mode the base is sixteen times the selector; in protected mode the
  descriptor must be a present code segment with base 0, and its D bit sets the size.
\<close>

definition far_jump :: "cpu \<Rightarrow> nat \<Rightarrow> nat \<Rightarrow> cpu option" where
  "far_jump s sel off =
     (if \<not> bit (cr0 s) 0
      then Some (s\<lparr>s_cs := word_of_nat sel, cs_base := 16 * sel, cs_d32 := False, ip := off\<rparr>)
      else if 8 * (sel div 8) + 7 \<le> 8 * length (gdt s) - 1 \<and> sel \<ge> 8 then
        let d = gdt s ! (sel div 8)
        in if bit d 47 \<and> bit d 44 \<and> bit d 43 \<and> \<not> bit d 53
           then Some (s\<lparr>s_cs := word_of_nat sel, cs_base := 0, cs_d32 := bit d 54, ip := off\<rparr>)
           else None
      else None)"

definition set_sreg :: "cpu \<Rightarrow> nat \<Rightarrow> cpu option" where
  "set_sreg s n =
     (let v = ucast (r_eax s)
      in if bit (cr0 s) 0 then None
         else if n = 0 then Some (s\<lparr>s_es := v\<rparr>) else if n = 2 then Some (s\<lparr>s_ss := v\<rparr>)
         else if n = 3 then Some (s\<lparr>s_ds := v\<rparr>) else if n = 4 then Some (s\<lparr>s_fs := v\<rparr>)
         else if n = 5 then Some (s\<lparr>s_gs := v\<rparr>) else None)"

text \<open>
  Two-byte opcodes at offset \<open>k\<close> (after an operand-size prefix): moves between a control
  register and EAX (ModRM 11 reg 000), RDMSR and WRMSR of EFER.
\<close>

definition exec_0f :: "cpu \<Rightarrow> nat \<Rightarrow> cpu option" where
  "exec_0f s k =
     (let op = fetch s (k + 1); modrm = fetch s (k + 2)
      in if op = 0x20 \<and> modrm div 64 = 3 \<and> modrm mod 8 = 0 then
           map_option (\<lambda>v. advance (k + 3) (s\<lparr>r_eax := v\<rparr>)) (read_cr s (modrm div 8 mod 8))
         else if op = 0x22 \<and> modrm div 64 = 3 \<and> modrm mod 8 = 0 then
           map_option (advance (k + 3)) (write_cr s (modrm div 8 mod 8) (r_eax s))
         else if op = 0x32 \<and> r_ecx s = 0xC0000080 then
           Some (advance (k + 2) (s\<lparr>r_eax := ucast (efer s), r_edx := ucast (drop_bit 32 (efer s))\<rparr>))
         else if op = 0x30 \<and> r_ecx s = 0xC0000080 then
           map_option (advance (k + 2))
             (write_efer s (ucast (r_eax s) OR push_bit 32 (ucast (r_edx s))))
         else None)"

text \<open>\<open>AND EAX, v\<close>.\<close>

definition and_eax :: "cpu \<Rightarrow> u32 \<Rightarrow> cpu" where
  "and_eax s v = s\<lparr>r_eax := r_eax s AND v\<rparr>"

definition exec32 :: "cpu \<Rightarrow> cpu option" where
  "exec32 s =
     (let op = fetch s 0
      in if op = 0x0F then exec_0f s 0
         else if op = 0x25 then Some (advance 5 (and_eax s (word_of_nat (fetch32 s 1))))
         else if op = 0xB9 then Some (advance 5 (s\<lparr>r_ecx := word_of_nat (fetch32 s 1)\<rparr>))
         else if op = 0xEA then far_jump s (fetch16 s 5) (fetch32 s 1)
         else None)"

definition exec16 :: "cpu \<Rightarrow> cpu option" where
  "exec16 s =
     (let op = fetch s 0
      in if op = 0x66 then
           (if fetch s 1 = 0x0F then exec_0f s 1
            else if fetch s 1 = 0x83 \<and> fetch s 2 = 0xE0 then
              Some (advance 4 (and_eax s (scast (word_of_nat (fetch s 3) :: u8))))
            else None)
         else if op = 0xB8 then
           Some (advance 3 (s\<lparr>r_eax := (r_eax s AND 0xFFFF0000) OR word_of_nat (fetch16 s 1)\<rparr>))
         else if op = 0x8E \<and> fetch s 1 div 64 = 3 \<and> fetch s 1 mod 8 = 0 then
           map_option (advance 2) (set_sreg s (fetch s 1 div 8 mod 8))
         else if op = 0xBC then Some (advance 3 (s\<lparr>r_sp := word_of_nat (fetch16 s 1)\<rparr>))
         else if op = 0xFB then Some (advance 1 (s\<lparr>iflag := True\<rparr>))
         else if op = 0xB2 then
           Some (advance 2 (s\<lparr>r_edx := (r_edx s AND 0xFFFFFF00) OR word_of_nat (fetch s 1)\<rparr>))
         else if op = 0xEA then far_jump s (fetch16 s 3) (fetch16 s 1)
         else None)"

definition exec_step :: "cpu \<Rightarrow> cpu option" where
  "exec_step s = (if cs_d32 s then exec32 s else exec16 s)"

fun exec_run :: "nat \<Rightarrow> cpu \<Rightarrow> cpu option" where
  "exec_run 0 s = Some s"
| "exec_run (Suc n) s = do { t \<leftarrow> exec_step s; exec_run n t }"

text \<open>
  \<open>do_mode_switch\<close>: interrupts off, the GDT loaded, and a far return to 0x08:0x0500,
  the 32-bit code segment, still with paging and long mode enabled. The two words pushed for the far
  return are popped by it; what they leave below the kernel's stack pointer is not modelled.
\<close>

definition do_mode_switch :: "cpu \<Rightarrow> cpu" where
  "do_mode_switch s = s\<lparr>iflag := False, gdt := GDT, s_cs := 0x08, cs_base := 0, cs_d32 := True, ip := 0x500\<rparr>"

definition chainload_iso :: "cpu \<Rightarrow> cpu" where
  "chainload_iso s = do_mode_switch (s\<lparr>mem := copy_trampolines (copy_mode_switch_code (mem s))\<rparr>)"

section \<open>Running the fragments\<close>

definition code_at :: "memory \<Rightarrow> nat \<Rightarrow> bytes \<Rightarrow> bool" where
  "code_at m a bs \<longleftrightarrow> (\<forall>i<length bs. m (a + i) = bs ! i)"

lemma code_at_Nil [simp]: "code_at m a []"
  by (simp add: code_at_def)

lemma code_at_Cons [simp]: "code_at m a (b # bs) \<longleftrightarrow> m a = b \<and> code_at m (Suc a) bs"
  by (auto simp: code_at_def nth_Cons' less_Suc_eq_0_disj)

lemma code_at_copy: "code_at (mem_copy a bs m) a bs"
  by (simp add: code_at_def mem_copy_def)

lemma code_at_copy_other:
  "a + length bs \<le> b \<or> b + length cs \<le> a \<Longrightarrow> code_at m a bs \<Longrightarrow> code_at (mem_copy b cs m) a bs"
  by (auto simp: code_at_def mem_copy_def)

lemma code_loaded:
  "code_at (copy_trampolines (copy_mode_switch_code m)) 0x500 MODE_SWITCH"
  "code_at (copy_trampolines (copy_mode_switch_code m)) 0x600 TRAMP_A"
  "code_at (copy_trampolines (copy_mode_switch_code m)) 0x614 TRAMP_B"
  unfolding copy_trampolines_def copy_mode_switch_code_def
  by (intro code_at_copy code_at_copy_other; simp add: MODE_SWITCH_def TRAMP_A_def TRAMP_B_def)+

lemma loaded_elsewhere:
  "\<not> (0x500 \<le> a \<and> a < 0x640) \<Longrightarrow> copy_trampolines (copy_mode_switch_code m) a = m a"
  by (auto simp: copy_trampolines_def copy_mode_switch_code_def mem_copy_def MODE_SWITCH_def TRAMP_A_def TRAMP_B_def)

lemma exec_run_add: "exec_run (m + n) s = exec_run m s \<bind> exec_run n"
  by (induction m arbitrary: s) (auto split: Option.bind_splits)

lemmas exec_defs = exec_step_def exec32_def exec16_def exec_0f_def fetch_def fetch16_def fetch32_def advance_def
  read_cr_def write_cr_def write_efer_def far_jump_def set_sreg_def and_eax_def

text \<open>
  The 32-bit fragment: paging off, then PAE, then long mode, and a far jump through the
  third descriptor into 16-bit protected mode.
\<close>

lemma mode_switch_runs:
  assumes "code_at (mem s) 0x500 MODE_SWITCH" and "cs_base s = 0" "cs_d32 s" "ip s = 0x500"
    and "bit (cr0 s) 0" "gdt s = GDT"
  shows "\<exists>t. exec_run 13 s = Some t \<and> \<not> bit (cr0 t) 31 \<and> bit (cr0 t) 0 \<and> \<not> bit (cr4 t) 5 \<and>
    \<not> bit (efer t) 8 \<and> cs_base t = 0 \<and> \<not> cs_d32 t \<and> ip t = 0x600 \<and> s_cs t = 0x10 \<and> mem t = mem s \<and>
    iflag t = iflag s"
proof -
  have n: "(13 :: nat) = Suc (Suc (Suc (Suc (Suc (Suc (Suc (Suc (Suc (Suc (Suc (Suc (Suc 0))))))))))))" by simp
  show ?thesis
    unfolding n using assms
    by (simp add: MODE_SWITCH_def exec_defs Let_def bit_and_iff bit_or_iff bit_push_bit_iff bit_ucast_iff
        GDT_def GDT_CODE32_def GDT_CODE16_def GDT_NULL_def)
qed

text \<open>The 16-bit fragments: protection off, then the real-mode segments, stack and drive number.\<close>

lemma tramp_a_runs:
  assumes "code_at (mem s) 0x600 TRAMP_A" and "cs_base s = 0" "\<not> cs_d32 s" "ip s = 0x600"
    and "\<not> bit (cr0 s) 31"
  shows "\<exists>t. exec_run 4 s = Some t \<and> \<not> bit (cr0 t) 31 \<and> \<not> bit (cr0 t) 0 \<and> cr4 t = cr4 s \<and> efer t = efer s \<and>
    cs_base t = 0 \<and> \<not> cs_d32 t \<and> ip t = 0x614 \<and> s_cs t = 0 \<and> mem t = mem s \<and> iflag t = iflag s"
proof -
  have n: "(4 :: nat) = Suc (Suc (Suc (Suc 0)))" by simp
  have e: "(scast (0xFE :: u8) :: u32) = 0xFFFFFFFE" by simp
  show ?thesis
    unfolding n using assms
    by (simp add: TRAMP_A_def exec_defs Let_def bit_and_iff e)
qed

lemma tramp_b_runs:
  assumes "code_at (mem s) 0x614 TRAMP_B" and "cs_base s = 0" "\<not> cs_d32 s" "ip s = 0x614"
    and "\<not> bit (cr0 s) 31" "\<not> bit (cr0 s) 0"
  shows "\<exists>t. exec_run 10 s = Some t \<and> cr0 t = cr0 s \<and> cr4 t = cr4 s \<and> efer t = efer s \<and>
    cs_base t = 0 \<and> \<not> cs_d32 t \<and> ip t = 0x7C00 \<and> s_cs t = 0 \<and> mem t = mem s \<and> iflag t \<and>
    s_ds t = 0 \<and> s_es t = 0 \<and> s_fs t = 0 \<and> s_gs t = 0 \<and> s_ss t = 0 \<and> r_sp t = 0x7000 \<and>
    r_edx t AND 0xFF = 0x80"
proof -
  have n: "(10 :: nat) = Suc (Suc (Suc (Suc (Suc (Suc (Suc (Suc (Suc (Suc 0)))))))))" by simp
  have ax: "ucast (x AND 0xFFFF0000 :: u32) = (0 :: u16)" for x
  proof -
    have m: "(0xFFFF0000 :: u32) = push_bit 16 (mask 16)" by (simp add: mask_eq_exp_minus_1 push_bit_eq_mult)
    show ?thesis unfolding m by (rule bit_word_eqI) (simp add: bit_ucast_iff bit_and_iff bit_push_bit_iff)
  qed
  have dl: "((x AND 0xFFFFFF00) OR 0x80) AND 0xFF = (0x80 :: u32)" for x
    by (simp add: bit.conj_disj_distrib2 and.assoc)
  show ?thesis
    unfolding n using assms
    by (simp add: TRAMP_B_def exec_defs Let_def ax dl)
qed

lemma chainload_runs:
  assumes "bit (cr0 s) 0"
  shows "\<exists>t. exec_run 27 (chainload_iso s) = Some t \<and> s_cs t = 0 \<and> cs_base t = 0 \<and> ip t = 0x7C00 \<and> \<not> cs_d32 t \<and>
    \<not> bit (cr0 t) 0 \<and> \<not> bit (cr0 t) 31 \<and> \<not> bit (cr4 t) 5 \<and> \<not> bit (efer t) 8 \<and>
    s_ds t = 0 \<and> s_es t = 0 \<and> s_fs t = 0 \<and> s_gs t = 0 \<and> s_ss t = 0 \<and> r_sp t = 0x7000 \<and>
    r_edx t AND 0xFF = 0x80 \<and> iflag t \<and>
    (\<forall>a. \<not> (0x500 \<le> a \<and> a < 0x640) \<longrightarrow> mem t a = mem s a)"
proof -
  let ?m = "copy_trampolines (copy_mode_switch_code (mem s))"
  note code = code_loaded [of "mem s"]
  obtain t1 where t1: "exec_run 13 (chainload_iso s) = Some t1" "\<not> bit (cr0 t1) 31" "bit (cr0 t1) 0" "\<not> bit (cr4 t1) 5"
      "\<not> bit (efer t1) 8" "cs_base t1 = 0" "\<not> cs_d32 t1" "ip t1 = 0x600" "mem t1 = ?m"
    using mode_switch_runs [of "chainload_iso s"] assms code(1) by (auto simp: chainload_iso_def do_mode_switch_def)
  obtain t2 where t2: "exec_run 4 t1 = Some t2" "\<not> bit (cr0 t2) 31" "\<not> bit (cr0 t2) 0" "cr4 t2 = cr4 t1" "efer t2 = efer t1"
      "cs_base t2 = 0" "\<not> cs_d32 t2" "ip t2 = 0x614" "mem t2 = ?m"
    using tramp_a_runs [of t1] t1 code(2) by auto
  obtain t3 where t3: "exec_run 10 t2 = Some t3" "cr0 t3 = cr0 t2" "cr4 t3 = cr4 t2" "efer t3 = efer t2" "cs_base t3 = 0"
      "\<not> cs_d32 t3" "ip t3 = 0x7C00" "s_cs t3 = 0" "mem t3 = ?m" "iflag t3" "s_ds t3 = 0" "s_es t3 = 0" "s_fs t3 = 0"
      "s_gs t3 = 0" "s_ss t3 = 0" "r_sp t3 = 0x7000" "r_edx t3 AND 0xFF = 0x80"
    using tramp_b_runs [of t2] t2 code(3) by auto
  have "exec_run (13 + (4 + 10)) (chainload_iso s) = Some t3"
    using t1 t2 t3 unfolding exec_run_add by simp
  moreover have "mem t3 a = mem s a" if "\<not> (0x500 \<le> a \<and> a < 0x640)" for a
    using that t3 by (simp add: loaded_elsewhere)
  ultimately show ?thesis using t1 t2 t3 by (intro exI [of _ t3]) simp
qed

text \<open>C27: from any processor state with protection on, the 27 instructions of the three fragments
  never fault and end at 0000:7C00 in 16-bit real mode: paging, PAE, long mode and protection are off, every
  segment register is 0, the stack pointer is 0x7000, DL is the first hard disk, interrupts are on, and no
  byte of memory outside the fragments has changed, so the boot image loaded there is what runs.\<close>

theorem chainload_reaches_boot_sector:
  assumes "bit (cr0 s) 0"
  shows "\<exists>t. exec_run 27 (chainload_iso s) = Some t \<and> s_cs t = 0 \<and> cs_base t = 0 \<and> ip t = 0x7C00 \<and> \<not> cs_d32 t \<and>
    \<not> bit (cr0 t) 0 \<and> \<not> bit (cr0 t) 31 \<and> \<not> bit (cr4 t) 5 \<and> \<not> bit (efer t) 8 \<and>
    s_ds t = 0 \<and> s_es t = 0 \<and> s_fs t = 0 \<and> s_gs t = 0 \<and> s_ss t = 0 \<and> r_sp t = 0x7000 \<and>
    r_edx t AND 0xFF = 0x80 \<and> iflag t \<and>
    (\<forall>a. \<not> (0x500 \<le> a \<and> a < 0x640) \<longrightarrow> mem t a = mem s a)"
  by (rule chainload_runs [OF assms])

definition sample_cpu :: cpu where
  "sample_cpu = \<lparr>r_eax = 0x12345678, r_ecx = 0, r_edx = 0xFFFFFFFF, r_sp = 0, cr0 = 0x80000011, cr3 = 0x1000,
     cr4 = 0x20, efer = 0x500, s_cs = 0x18, cs_base = 0, cs_d32 = False, s_ds = 0x10, s_es = 0x10, s_fs = 0,
     s_gs = 0, s_ss = 0x10, ip = 0x100000, iflag = False, gdt = [], mem = (\<lambda>_. 0xEB), k_low = 0x70000\<rparr>"

lemma chainload_reaches_boot_sector_witness:
  "\<exists>t. exec_run 27 (chainload_iso sample_cpu) = Some t \<and> ip t = 0x7C00 \<and> \<not> bit (cr0 t) 0 \<and> mem t 0x7C00 = 0xEB"
proof -
  have "bit (cr0 sample_cpu) 0" by (simp add: sample_cpu_def)
  from chainload_reaches_boot_sector [OF this] obtain t where
    "exec_run 27 (chainload_iso sample_cpu) = Some t" "ip t = 0x7C00" "\<not> bit (cr0 t) 0"
    "mem t 0x7C00 = mem sample_cpu 0x7C00" by auto
  then show ?thesis by (auto simp: sample_cpu_def)
qed

end
