(* ===== verification/KIso.thy ===== *)
theory KIso
  imports Console KernelFs Chainload
begin

text \<open>
  El Torito on the BIOS kernel (\<open>kernel/src/iso.rs\<close>): the boot record, the boot
  catalog, the boot image copied to 0x7C00 and the handover to the mode switch. Sectors come from a
  reader; the screen is threaded through with the row the next error goes to.
\<close>

definition BOOT_RECORD_LBA_OFFSET :: u64 where "BOOT_RECORD_LBA_OFFSET = 17"
definition BIOS_BOOT_ADDR :: nat where "BIOS_BOOT_ADDR = 0x7C00"

section \<open>The boot catalog\<close>

text \<open>The entry loop \<open>for i in 0..16\<close>, with the platform in force.\<close>

fun catalog_scan :: "bytes \<Rightarrow> nat \<Rightarrow> nat \<Rightarrow> u8 \<Rightarrow> (u32 \<times> u16) option option" where
  "catalog_scan cat i 0 platform = Some None"
| "catalog_scan cat i (Suc n) platform = do {
     etype \<leftarrow> idx cat (i * 32);
     if etype = 0x90 \<or> etype = 0x91 then do {
       p \<leftarrow> idx cat (i * 32 + 1);
       catalog_scan cat (i + 1) n p
     } else if etype = 0x88 \<and> platform = 0 then do {
       count \<leftarrow> u16_at cat (i * 32 + 6);
       lba \<leftarrow> u32_at cat (i * 32 + 8);
       Some (Some (lba, if count = 0 then 4 else count))
     } else catalog_scan cat (i + 1) n platform }"

text \<open>A message and \<open>return false\<close>; the result is the entry, the next error row and the screen.\<close>

definition fail_msg :: "string \<Rightarrow> nat \<Rightarrow> bytes \<Rightarrow> ((u32 \<times> u16) option \<times> nat \<times> bytes) option" where
  "fail_msg msg error_row scr = do { s \<leftarrow> vga_print error_row 2 (bstr msg) 0x0C scr; Some (None, error_row + 1, s) }"

definition parse_el_torito ::
  "(u64 \<Rightarrow> bytes option) \<Rightarrow> u64 \<Rightarrow> nat \<Rightarrow> bytes \<Rightarrow> ((u32 \<times> u16) option \<times> nat \<times> bytes) option" where
  "parse_el_torito rd iso_lba error_row scr =
     (case rd (iso_lba + BOOT_RECORD_LBA_OFFSET * 4) of
        None \<Rightarrow> fail_msg ''Failed to read Boot Record (sector 17).'' error_row scr
      | Some boot_rec \<Rightarrow> do {
          sig \<leftarrow> slice boot_rec 1 6;
          if sig \<noteq> bstr ''CD001'' then fail_msg ''Invalid Boot Record (no CD001 signature).'' error_row scr
          else do {
            catalog_iso_lba \<leftarrow> u32_at boot_rec 0x47;
            case rd (iso_lba + ucast catalog_iso_lba * 4) of
              None \<Rightarrow> fail_msg ''Failed to read Boot Catalog.'' error_row scr
            | Some catalog \<Rightarrow> do {
                c0 \<leftarrow> idx catalog 0;
                c1 \<leftarrow> idx catalog 1;
                found \<leftarrow> catalog_scan catalog 0 16 (if c0 = 1 then c1 else 0xFF);
                case found of
                  Some e \<Rightarrow> Some (Some e, error_row, scr)
                | None \<Rightarrow> fail_msg ''No bootable entry (type 0x88/0x90) in catalog.'' error_row scr } } })"

section \<open>The boot image\<close>

text \<open>
  \<open>ata_read_sectors\<close> over a reader: the destination after the loop and whether every
  sector was read.
\<close>

fun read_sectors_from :: "(u64 \<Rightarrow> bytes option) \<Rightarrow> u64 \<Rightarrow> nat \<Rightarrow> nat \<Rightarrow> bytes \<Rightarrow> (bool \<times> bytes) option" where
  "read_sectors_from rd lba i 0 dst = Some (True, dst)"
| "read_sectors_from rd lba i (Suc n) dst =
     (if i * 512 + 512 > length dst then Some (False, dst)
      else case rd (lba + word_of_nat i) of
             None \<Rightarrow> Some (False, dst)
           | Some buf \<Rightarrow> do { dst1 \<leftarrow> blit dst (i * 512) buf; read_sectors_from rd lba (i + 1) n dst1 })"

definition load_boot_image ::
  "(u64 \<Rightarrow> bytes option) \<Rightarrow> u64 \<Rightarrow> u32 \<Rightarrow> u16 \<Rightarrow> memory \<Rightarrow> bytes \<Rightarrow> (bool \<times> memory \<times> bytes) option" where
  "load_boot_image rd iso_lba image_iso_lba sector_count m scr = do {
     let image_absolute_lba = iso_lba + ucast image_iso_lba * 4;
     let total_bytes = unat sector_count * 512;
     (ok, dst) \<leftarrow> read_sectors_from rd image_absolute_lba 0 (unat sector_count)
       (map m [BIOS_BOOT_ADDR..<BIOS_BOOT_ADDR + total_bytes]);
     let m1 = mem_copy BIOS_BOOT_ADDR dst m;
     if ok then Some (True, m1, scr)
     else do { s \<leftarrow> vga_print 10 2 (bstr ''Failed to read boot image sectors.'') 0x0C scr; Some (False, m1, s) } }"

section \<open>boot_iso\<close>

text \<open>
  It never returns: it ends in the halt loop, after a key, with what the screen shows, or in the
  mode switch. The processor state carries the memory. The slice the sectors are copied to has no bound: sectors
  that reach the memory the kernel uses itself are written over it. What the processor does then is not determined by
  the program, and the run ends here as \<open>Overwritten\<close>.
\<close>

datatype boot_end = Halted bytes | Chained cpu | Overwritten

text \<open>The end of what is copied: every sector up to the first that cannot be read.\<close>

definition copied_end :: "(u64 \<Rightarrow> bytes option) \<Rightarrow> u64 \<Rightarrow> u16 \<Rightarrow> nat" where
  "copied_end rd image_absolute_lba sector_count =
     BIOS_BOOT_ADDR + 512 * length (takeWhile (\<lambda>k. rd (image_absolute_lba + word_of_nat k) \<noteq> None) [0..<unat sector_count])"

definition halt_msg :: "nat \<Rightarrow> bytes \<Rightarrow> boot_end option" where
  "halt_msg row scr = map_option Halted (vga_print row 2 (bstr ''ISO boot failed. Press any key to halt...'') 0x07 scr)"

definition boot_iso :: "(u64 \<Rightarrow> bytes option) \<Rightarrow> dir_entry \<Rightarrow> cpu \<Rightarrow> bytes \<Rightarrow> boot_end option" where
  "boot_iso rd file s scr = do {
     c1 \<leftarrow> vga_clear 0x0E scr;
     c2 \<leftarrow> vga_print 2 5 (bstr ''Loading ISO boot sector...'') 0x0F c1;
     (found, error_row, c3) \<leftarrow> parse_el_torito rd (de_start_lba file) 4 c2;
     case found of
       None \<Rightarrow> halt_msg (error_row + 2) c3
     | Some (image_lba, count) \<Rightarrow> do {
         c4 \<leftarrow> vga_print 7 5 (bstr ''Loading boot image...'') 0x07 c3;
         if copied_end rd (de_start_lba file + ucast image_lba * 4) count > k_low s then Some Overwritten
         else do {
           (ok, m, c5) \<leftarrow> load_boot_image rd (de_start_lba file) image_lba count (mem s) c4;
           if \<not> ok then halt_msg 10 c5
           else do {
             c6 \<leftarrow> vga_print 10 5 (bstr ''Chainloading...'') 0x0F c5;
             Some (Chained (chainload_iso (s\<lparr>mem := m\<rparr>))) } } } }"

section \<open>The entry the catalog promises\<close>

text \<open>
  The platform that governs entry \<open>i\<close>: that of the last section header before it, or of the
  validation entry. The entry booted is the first boot entry whose governing platform is 0, x86 BIOS.
\<close>

definition section_header :: "bytes \<Rightarrow> nat \<Rightarrow> bool" where
  "section_header cat i \<longleftrightarrow> cat ! (i * 32) = 0x90 \<or> cat ! (i * 32) = 0x91"

definition governing :: "bytes \<Rightarrow> nat \<Rightarrow> u8" where
  "governing cat i =
     (let hs = filter (section_header cat) [0..<i]
      in if hs \<noteq> [] then cat ! (last hs * 32 + 1) else if cat ! 0 = 1 then cat ! 1 else 0xFF)"

definition bios_entry :: "bytes \<Rightarrow> nat option" where
  "bios_entry cat = find (\<lambda>i. cat ! (i * 32) = 0x88 \<and> governing cat i = 0) [0..<16]"

definition entry_fields :: "bytes \<Rightarrow> nat \<Rightarrow> u32 \<times> u16" where
  "entry_fields cat i =
     (from_le (take 4 (drop (i * 32 + 8) cat)),
      let count = from_le (take 2 (drop (i * 32 + 6) cat)) in if count = 0 then 4 else count)"

lemma governing_Suc: "governing cat (Suc i) = (if section_header cat i then cat ! (i * 32 + 1) else governing cat i)"
  by (simp add: governing_def)

lemma catalog_scan_find:
  "length cat = 512 \<Longrightarrow> i + n \<le> 16 \<Longrightarrow> catalog_scan cat i n (governing cat i) =
     Some (map_option (entry_fields cat) (find (\<lambda>i. cat ! (i * 32) = 0x88 \<and> governing cat i = 0) [i..<i + n]))"
proof (induction n arbitrary: i)
  case (Suc n)
  have up: "[i..<i + Suc n] = i # [Suc i..<Suc i + n]" by (simp add: upt_conv_Cons)
  have IH: "catalog_scan cat (Suc i) n (governing cat (Suc i)) = Some (map_option (entry_fields cat)
      (find (\<lambda>i. cat ! (i * 32) = 0x88 \<and> governing cat i = 0) [Suc i..<Suc i + n]))"
    using Suc by (intro Suc.IH) auto
  show ?case
    using Suc.prems IH unfolding up
    by (auto simp: bounds_simps governing_Suc section_header_def entry_fields_def [of cat i] Let_def)
qed simp

lemma catalog_scan_bios:
  assumes "length cat = 512"
  shows "catalog_scan cat 0 16 (if cat ! 0 = 1 then cat ! 1 else 0xFF) = Some (map_option (entry_fields cat) (bios_entry cat))"
  using catalog_scan_find [OF assms, of 0 16] by (simp add: governing_def bios_entry_def)

text \<open>The entry the parser promises, over the reader alone.\<close>

definition el_torito_spec :: "(u64 \<Rightarrow> bytes option) \<Rightarrow> u64 \<Rightarrow> (u32 \<times> u16) option" where
  "el_torito_spec rd iso_lba = do {
     br \<leftarrow> rd (iso_lba + 68);
     if take 5 (drop 1 br) = bstr ''CD001'' then do {
       cat \<leftarrow> rd (iso_lba + ucast (from_le (take 4 (drop 0x47 br)) :: u32) * 4);
       map_option (entry_fields cat) (bios_entry cat) }
     else None }"

lemma fail_msg_ok:
  assumes "length scr = 4000"
  shows "\<exists>scr'. fail_msg msg row scr = Some (None, row + 1, scr') \<and> length scr' = 4000"
  using vga_print_ok [OF assms, of row 2 "bstr msg" "0x0C"] by (auto simp: fail_msg_def)

lemma entry_fields_count: "snd (entry_fields cat i) \<noteq> 0"
  by (simp add: entry_fields_def Let_def)

lemma el_torito_spec_count: "el_torito_spec rd lba = Some (img, n) \<Longrightarrow> n \<noteq> 0"
  using entry_fields_count by (auto simp: el_torito_spec_def split: Option.bind_splits if_splits) (metis snd_conv)

context sector_source
begin

lemma parse_el_torito_ok:
  assumes "length scr = 4000"
  shows "\<exists>row' scr'. parse_el_torito rd lba row scr = Some (el_torito_spec rd lba, row', scr') \<and> length scr' = 4000"
proof (cases "rd (lba + 68)")
  case None
  then show ?thesis using fail_msg_ok [OF assms]
    by (simp add: parse_el_torito_def el_torito_spec_def BOOT_RECORD_LBA_OFFSET_def) blast
next
  case (Some br)
  note br = Some
  have lb: "length br = 512" by (rule rd_length [OF Some])
  let ?c = "lba + ucast (from_le (take 4 (drop 0x47 br)) :: u32) * 4"
  show ?thesis
  proof (cases "take 5 (drop 1 br) = bstr ''CD001''")
    case False
    then show ?thesis using br lb fail_msg_ok [OF assms]
      by (simp add: parse_el_torito_def el_torito_spec_def BOOT_RECORD_LBA_OFFSET_def bounds_simps) blast
  next
    case True
    note sig = True
    show ?thesis
    proof (cases "rd ?c")
      case None
      then show ?thesis using br lb sig fail_msg_ok [OF assms]
        by (simp add: parse_el_torito_def el_torito_spec_def BOOT_RECORD_LBA_OFFSET_def bounds_simps) blast
    next
      case (Some cat)
      have lc: "length cat = 512" by (rule rd_length [OF Some])
      show ?thesis using br lb sig Some lc assms
          fail_msg_ok [OF assms, of "''No bootable entry (type 0x88/0x90) in catalog.''" row]
        by (cases "bios_entry cat") (auto simp: parse_el_torito_def el_torito_spec_def BOOT_RECORD_LBA_OFFSET_def
            bounds_simps catalog_scan_bios [unfolded One_nat_def] simp del: catalog_scan.simps)
    qed
  qed
qed

lemma read_sectors_from_run:
  "(i + n) * 512 = length dst \<Longrightarrow> \<exists>ok d. read_sectors_from rd lba i n dst = Some (ok, d) \<and> length d = length dst \<and>
     (if list_all (\<lambda>k. rd (lba + word_of_nat k) \<noteq> None) [i..<i + n]
      then ok \<and> d = take (i * 512) dst @ concat (map (\<lambda>k. the (rd (lba + word_of_nat k))) [i..<i + n]) else \<not> ok)"
proof (induction n arbitrary: i dst)
  case (Suc n)
  have up: "[i..<i + Suc n] = i # [Suc i..<Suc i + n]" by (simp add: upt_conv_Cons)
  have b: "\<not> i * 512 + 512 > length dst" using Suc.prems by simp
  show ?case
  proof (cases "rd (lba + word_of_nat i)")
    case None
    then show ?thesis using b unfolding up by (simp, blast)
  next
    case (Some buf)
    have l: "length buf = 512" by (rule rd_length [OF Some])
    let ?d = "take (i * 512) dst @ buf @ drop (i * 512 + 512) dst"
    have ld: "(Suc i + n) * 512 = length ?d" using Suc.prems l by simp
    have r: "read_sectors_from rd lba i (Suc n) dst = read_sectors_from rd lba (Suc i) n ?d"
      using b Some l by (simp add: bounds_simps)
    have t: "take (Suc i * 512) ?d = take (i * 512) dst @ buf" using Suc.prems l by simp
    have len: "length ?d = length dst" using ld Suc.prems by simp
    show ?thesis
      using Suc.IH [OF ld] Some unfolding r up t len
      by (simp only: list.map concat.simps option.sel append_assoc list.pred_inject option.distinct not_False_eq_True simp_thms)
  qed
qed (simp, blast)

end

text \<open>The image as one byte string, if every sector of it can be read.\<close>

definition read_image :: "(u64 \<Rightarrow> bytes option) \<Rightarrow> u64 \<Rightarrow> nat \<Rightarrow> bytes option" where
  "read_image rd lba n =
     (if list_all (\<lambda>k. rd (lba + word_of_nat k) \<noteq> None) [0..<n]
      then Some (concat (map (\<lambda>k. the (rd (lba + word_of_nat k))) [0..<n])) else None)"

context sector_source
begin

lemma read_image_length: "read_image rd lba n = Some bs \<Longrightarrow> length bs = 512 * n"
proof -
  assume "read_image rd lba n = Some bs"
  then have a: "\<forall>k<n. rd (lba + word_of_nat k) \<noteq> None" and b: "bs = concat (map (\<lambda>k. the (rd (lba + word_of_nat k))) [0..<n])"
    by (auto simp: read_image_def list_all_iff split: if_splits)
  have "\<forall>x\<in>set (map (\<lambda>k. the (rd (lba + word_of_nat k))) [0..<n]). length x = 512"
    using a rd_length by fastforce
  then have "map length (map (\<lambda>k. the (rd (lba + word_of_nat k))) [0..<n]) = replicate n 512"
    by (intro nth_equalityI) auto
  then show ?thesis unfolding b by (simp add: length_concat sum_list_replicate)
qed

lemma load_boot_image_ok:
  assumes "length scr = 4000"
  shows "case read_image rd (lba + ucast img * 4) (unat n) of
      Some bs \<Rightarrow> load_boot_image rd lba img n m scr = Some (True, mem_copy BIOS_BOOT_ADDR bs m, scr)
    | None \<Rightarrow> \<exists>m' scr'. load_boot_image rd lba img n m scr = Some (False, m', scr') \<and> length scr' = 4000"
proof -
  obtain scr' where p: "vga_print 10 2 (bstr ''Failed to read boot image sectors.'') 0x0C scr = Some scr'" "length scr' = 4000"
    using vga_print_ok [OF assms] by blast
  let ?dst = "map m [BIOS_BOOT_ADDR..<BIOS_BOOT_ADDR + unat n * 512]"
  have "(0 + unat n) * 512 = length ?dst" by simp
  from read_sectors_from_run [OF this, of "lba + ucast img * 4"] show ?thesis using p
    by (cases "list_all (\<lambda>k. rd (lba + ucast img * 4 + word_of_nat k) \<noteq> None) [0..<unat n]")
      (auto simp: load_boot_image_def read_image_def)
qed

lemma boot_iso_ok:
  assumes "length scr = 4000"
  shows "case el_torito_spec rd (de_start_lba file) of
      None \<Rightarrow> \<exists>scr'. boot_iso rd file s scr = Some (Halted scr')
    | Some (img, n) \<Rightarrow> if k_low s < copied_end rd (de_start_lba file + ucast img * 4) n
        then boot_iso rd file s scr = Some Overwritten
        else (case read_image rd (de_start_lba file + ucast img * 4) (unat n) of
          None \<Rightarrow> \<exists>scr'. boot_iso rd file s scr = Some (Halted scr')
        | Some bs \<Rightarrow> boot_iso rd file s scr = Some (Chained (chainload_iso (s\<lparr>mem := mem_copy BIOS_BOOT_ADDR bs (mem s)\<rparr>))))"
proof -
  let ?lba = "de_start_lba file"
  obtain c1 where c1: "vga_clear 0x0E scr = Some c1" "length c1 = 4000" using vga_clear_ok [OF assms] by blast
  obtain c2 where c2: "vga_print 2 5 (bstr ''Loading ISO boot sector...'') 0x0F c1 = Some c2" "length c2 = 4000"
    using vga_print_ok [OF c1(2)] by blast
  obtain row c3 where c3: "parse_el_torito rd ?lba 4 c2 = Some (el_torito_spec rd ?lba, row, c3)" "length c3 = 4000"
    using parse_el_torito_ok [OF c2(2)] by blast
  have h: "\<exists>scr'. halt_msg r x = Some (Halted scr')" if "length x = 4000" for r x
    using vga_print_ok [OF that, of r 2] by (auto simp: halt_msg_def)
  obtain c4 where c4: "vga_print 7 5 (bstr ''Loading boot image...'') 0x07 c3 = Some c4" "length c4 = 4000"
    using vga_print_ok [OF c3(2)] by blast
  obtain c5 where c5: "vga_print 10 5 (bstr ''Chainloading...'') 0x0F c4 = Some c5" using vga_print_ok [OF c4(2)] by blast
  show ?thesis
  proof (cases "el_torito_spec rd ?lba")
    case None
    then show ?thesis using c1 c2 c3 h by (simp add: boot_iso_def)
  next
    case (Some e)
    then obtain img n where e: "el_torito_spec rd ?lba = Some (img, n)" by (cases e) auto
    show ?thesis
    proof (cases "k_low s < copied_end rd (?lba + ucast img * 4) n")
      case True
      then show ?thesis using c1 c2 c3 c4 e by (simp add: boot_iso_def)
    next
      case low: False
    show ?thesis
    proof (cases "read_image rd (?lba + ucast img * 4) (unat n)")
      case None
      then obtain m' scr' where "load_boot_image rd ?lba img n (mem s) c4 = Some (False, m', scr')" "length scr' = 4000"
        using load_boot_image_ok [OF c4(2), of ?lba img n "mem s"] by auto
      then show ?thesis using None low c1 c2 c3 c4 h [of scr'] e by (simp add: boot_iso_def)
    next
      case (Some bs)
      then have "load_boot_image rd ?lba img n (mem s) c4 = Some (True, mem_copy BIOS_BOOT_ADDR bs (mem s), c4)"
        using load_boot_image_ok [OF c4(2), of ?lba img n "mem s"] by auto
      then show ?thesis using Some low c1 c2 c3 c4 c5 e by (simp add: boot_iso_def)
    qed
    qed
  qed
qed

lemma copied_end_whole:
  assumes "read_image rd lba (unat n) = Some bs"
  shows "copied_end rd lba n = BIOS_BOOT_ADDR + length bs"
proof -
  have t: "takeWhile (\<lambda>k. rd (lba + word_of_nat k) \<noteq> None) [0..<unat n] = [0..<unat n]"
    unfolding takeWhile_eq_all_conv using assms by (auto simp: read_image_def list_all_iff split: if_splits)
  show ?thesis unfolding copied_end_def t using read_image_length [OF assms] by simp
qed

end

section \<open>Properties\<close>

text \<open>C28: the boot record and catalog parser never panics, and returns exactly the first boot entry
  of the catalog whose governing platform (the last section header before it, or the validation entry) is x86
  BIOS, so that no UEFI image is taken for a BIOS one; its sector count is never 0.\<close>

theorem parse_el_torito_finds_bios_entry:
  assumes "length scr = 4000"
  shows "\<exists>row' scr'. parse_el_torito (ata_rd D) lba row scr = Some (el_torito_spec (ata_rd D) lba, row', scr') \<and>
     length scr' = 4000 \<and> (\<forall>img n. el_torito_spec (ata_rd D) lba = Some (img, n) \<longrightarrow> n \<noteq> 0)"
  using ata.parse_el_torito_ok [OF assms, of D lba row] el_torito_spec_count by fastforce

definition iso_catalog :: bytes where
  "iso_catalog = [1, 0] @ replicate 30 0 @ [0x91, 0xEF] @ replicate 30 0 @ [0x88] @ replicate 31 0
     @ [0x90, 0] @ replicate 30 0 @ [0x88, 0, 0, 0, 0, 0, 1, 0, 30] @ replicate (512 - 137) 0"

definition iso_disk :: "u64 \<Rightarrow> bytes option" where
  "iso_disk l =
     (if l = 68 then Some ([0] @ bstr ''CD001'' @ replicate 65 0 @ [20] @ replicate 440 0)
      else if l = 80 then Some iso_catalog else if l = 120 then Some (replicate 512 0xF4) else None)"

lemma iso_disk_length: "iso_disk l = Some bs \<Longrightarrow> length bs = 512"
  by (auto simp: iso_disk_def iso_catalog_def split: if_splits)

lemma iso_disk_spec: "el_torito_spec (ata_rd iso_disk) 0 = Some (30, 1)"
proof -
  have r: "ata_rd iso_disk l = iso_disk l" if "unat l < 2 ^ 48" for l
    using ata_rd_disk [OF that iso_disk_length] .
  have e: "bios_entry iso_catalog = Some 4" "entry_fields iso_catalog 4 = (30, 1)" by code_simp+
  have s: "ata_rd iso_disk 68 = Some ([0] @ bstr ''CD001'' @ replicate 65 0 @ [20] @ replicate 440 0)"
    "ata_rd iso_disk 80 = Some iso_catalog"
    by (simp_all add: r) (simp_all add: iso_disk_def)
  have c: "from_le (take 4 (drop 0x47 ([0] @ bstr ''CD001'' @ replicate 65 0 @ [20] @ replicate 440 0))) = (20 :: u32)"
    "take 5 (drop 1 ([0] @ bstr ''CD001'' @ replicate 65 0 @ [20] @ replicate 440 0)) = bstr ''CD001''"
    by code_simp+
  show ?thesis unfolding el_torito_spec_def using s c e by simp
qed


lemma parse_el_torito_witness:
  "\<exists>row' scr'. parse_el_torito (ata_rd iso_disk) 0 4 (replicate 4000 0) = Some (Some (30, 1), row', scr')"
  using parse_el_torito_finds_bios_entry [of "replicate 4000 0" iso_disk 0 4] iso_disk_spec by auto



text \<open>The reader version of \<open>ata_read_sectors\<close> is what the driver computes through the ports.\<close>

lemma ata_read_sectors_from_refines:
  "dev_idle s \<Longrightarrow> dv_latency s < 0xFFFFF \<Longrightarrow> (\<And>k. k < i + n \<Longrightarrow> unat (lba + word_of_nat k) < 2 ^ 48) \<Longrightarrow>
   (\<And>l bs. dv_disk s l = Some bs \<Longrightarrow> length bs = 512) \<Longrightarrow>
   \<exists>r s'. ata_read_sectors_from dev_io (Suc fuel) lba i n dst s = Done (fst r, snd r, s') \<and>
     read_sectors_from (dv_disk s) lba i n dst = Some r"
proof (induction n arbitrary: i dst s)
  case 0
  then show ?case by (auto intro: exI [of _ "(True, dst)"])
next
  case (Suc n)
  have "unat (lba + word_of_nat i) < 2 ^ 48" using Suc.prems(3) [of i] by simp
  from ata_read_idle [OF Suc.prems(1,2) this, where fuel = fuel] Suc.prems(4) obtain s1 where
    r: "ata_read_sector dev_io (Suc fuel) (lba + word_of_nat i) s = Done (dv_disk s (lba + word_of_nat i), s1)"
    "dv_disk s1 = dv_disk s" "dv_latency s1 = dv_latency s" "dv_busy s1 = 0" "dv_data s1 = []"
    "dv_disk s (lba + word_of_nat i) \<noteq> None \<longrightarrow> \<not> dv_error s1" by blast
  show ?case
  proof (cases "i * 512 + 512 > length dst \<or> dv_disk s (lba + word_of_nat i) = None")
    case True
    then show ?thesis using r by (auto simp: Let_def intro: exI [of _ "(False, dst)"])
  next
    case False
    then obtain buf where b: "dv_disk s (lba + word_of_nat i) = Some buf" by auto
    have l: "length buf = 512" by (rule Suc.prems(4) [OF b])
    obtain dst1 where d: "blit dst (i * 512) buf = Some dst1" using False l by (auto simp: blit_def)
    have "dev_idle s1" using r b by (simp add: dev_idle_def)
    from Suc.IH [OF this, of "Suc i" dst1] Suc.prems r obtain q s' where
      "ata_read_sectors_from dev_io (Suc fuel) lba (Suc i) n dst1 s1 = Done (fst q, snd q, s')"
      "read_sectors_from (dv_disk s) lba (Suc i) n dst1 = Some q" by auto
    then show ?thesis using False r b d by (auto simp: Let_def intro!: exI [of _ q])
  qed
qed

text \<open>Reading several sectors through the ports puts sector i at offset 512 i of the destination:
  on an idle controller \<open>ata_read_sectors\<close> computes what the loop over a plain sector reader computes,
  and when the destination has the right size and all sectors can be read it is filled with them.\<close>

theorem ata_read_sectors_fills:
  assumes "dev_idle s" and "dv_latency s < 0xFFFFF" and "\<And>k. k < unat n \<Longrightarrow> unat (lba + word_of_nat k) < 2 ^ 48"
    and "\<And>l bs. dv_disk s l = Some bs \<Longrightarrow> length bs = 512" and "length dst = unat n * 512"
  shows "\<exists>ok d s'. ata_read_sectors dev_io (Suc fuel) lba dst n s = Done (ok, d, s') \<and>
    (case read_image (dv_disk s) lba (unat n) of None \<Rightarrow> \<not> ok | Some bs \<Rightarrow> ok \<and> d = bs)"
proof -
  have src: "sector_source (dv_disk s)" by unfold_locales (rule assms(4))
  obtain r s' where r: "ata_read_sectors_from dev_io (Suc fuel) lba 0 (unat n) dst s = Done (fst r, snd r, s')"
    "read_sectors_from (dv_disk s) lba 0 (unat n) dst = Some r"
    using assms(4) ata_read_sectors_from_refines [OF assms(1,2), where i = 0 and n = "unat n" and lba = lba and fuel = fuel and dst = dst] assms(3) by auto
  have "(0 + unat n) * 512 = length dst" using assms(5) by simp
  from sector_source.read_sectors_from_run [OF src this, of lba] r show ?thesis
    by (cases "list_all (\<lambda>k. dv_disk s (lba + word_of_nat k) \<noteq> None) [0..<unat n]")
      (auto simp: ata_read_sectors_def read_image_def)
qed

lemma ata_read_sectors_fills_witness:
  "\<exists>d s'. ata_read_sectors dev_io 1 120 (replicate 512 0) 1 (idle_dev iso_disk) = Done (True, d, s') \<and>
    d = replicate 512 0xF4"
proof -
  have i: "dev_idle (idle_dev iso_disk)" "dv_latency (idle_dev iso_disk) < 0xFFFFF" "dv_disk (idle_dev iso_disk) = iso_disk"
    by (simp_all add: dev_idle_def idle_dev_def)
  have "read_image iso_disk 120 1 = Some (replicate 512 0xF4)" by (simp add: read_image_def iso_disk_def)
  with ata_read_sectors_fills [OF i(1,2), where n = 1 and lba = 120 and dst = "replicate 512 0" and fuel = 0] i(3) iso_disk_length show ?thesis
    by (auto simp: unat_eq_zero split: option.splits)
qed

end
