(* ===== verification/KMenu.thy ===== *)
theory KMenu
  imports KScan KIso
begin

text \<open>
  The boot menu of the BIOS kernel (\<open>kernel/src/menu.rs\<close>): number formatting, the
  page on the screen, the keys and the selection. The key presses are a list of scancodes; the menu that
  has used them all is waiting in \<open>kbd_wait_key\<close>.
\<close>

definition MENU_PAGE_SIZE :: nat where "MENU_PAGE_SIZE = 16"

section \<open>Numbers\<close>

text \<open>The loop of \<open>format_u64\<close>: \<open>pos\<close> and the tail of the 20-byte buffer from it.\<close>

fun format_digits :: "nat \<Rightarrow> u64 \<Rightarrow> bytes \<Rightarrow> bytes" where
  "format_digits 0 v buf = buf"
| "format_digits (Suc pos) v buf = (if v > 0 then format_digits pos (v div 10) ((ucast (v mod 10) + 48) # buf) else buf)"

definition format_u64 :: "u64 \<Rightarrow> bytes" where
  "format_u64 v = (if v = 0 then format_digits 19 v [48] else format_digits 20 v [])"

definition USIZE_MAX :: nat where "USIZE_MAX = 2 ^ 64 - 1"

fun parse_digits :: "bytes \<Rightarrow> nat \<Rightarrow> nat option" where
  "parse_digits [] value = Some value"
| "parse_digits (digit # ds) value =
     (if \<not> (48 \<le> digit \<and> digit \<le> 57) then None
      else parse_digits ds (min USIZE_MAX (min USIZE_MAX (value * 10) + unat (digit - 48))))"

definition parse_selection :: "bytes \<Rightarrow> nat \<Rightarrow> nat \<Rightarrow> nat option" where
  "parse_selection digits len count =
     (if len = 0 \<or> len > length digits then None
      else case parse_digits (take len digits) 0 of
             None \<Rightarrow> None
           | Some value \<Rightarrow> if value > 0 \<and> value \<le> count then Some (value - 1) else None)"

section \<open>The screen\<close>

text \<open>One line of the page: \<open>(row, index)\<close>.\<close>

definition render_line :: "dir_entry list \<Rightarrow> nat \<Rightarrow> nat \<Rightarrow> bytes \<Rightarrow> bytes option" where
  "render_line files row index scr = do {
     f \<leftarrow> idx files index;
     let num_str = format_u64 (word_of_nat (index + 1));
     s1 \<leftarrow> vga_print row 1 num_str 0x0A scr;
     s2 \<leftarrow> vga_print row (1 + length num_str) (bstr ''. '') 0x07 s1;
     nm \<leftarrow> slice (de_name f) 0 (min (de_name_len f) 43);
     s3 \<leftarrow> vga_print row 4 nm 0x07 s2;
     let size_str = format_u64 (de_size f div (1024 * 1024));
     s4 \<leftarrow> vga_print row 50 (bstr ''('') 0x07 s3;
     s5 \<leftarrow> vga_print row 51 size_str 0x07 s4;
     vga_print row (51 + length size_str) (bstr '' MiB)'') 0x07 s5 }"

fun render_lines :: "dir_entry list \<Rightarrow> nat \<Rightarrow> nat \<Rightarrow> nat \<Rightarrow> bytes \<Rightarrow> bytes option" where
  "render_lines files row index 0 scr = Some scr"
| "render_lines files row index (Suc n) scr = do {
     s \<leftarrow> render_line files (3 + row) index scr;
     render_lines files (row + 1) (index + 1) n s }"

definition render_menu :: "dir_entry list \<Rightarrow> nat \<Rightarrow> nat \<Rightarrow> bytes \<Rightarrow> bytes option" where
  "render_menu files count page_start scr = do {
     s1 \<leftarrow> vga_clear 0x07 scr;
     s2 \<leftarrow> vga_print 0 8 (bstr ''=== Choosable ISO Boot Menu ==='') 0x1F s1;
     let page_end = min (page_start + MENU_PAGE_SIZE) count;
     s3 \<leftarrow> render_lines files 0 page_start (page_end - page_start) s2;
     vga_print 21 1 (bstr ''Enter number, n/p page, r refresh: '') 0x07 s3 }"

section \<open>The keys\<close>

record menu =
  mn_files :: "dir_entry list"
  mn_page :: nat
  mn_digits :: bytes
  mn_len :: nat

datatype menu_act = Stay menu | Boot dir_entry

text \<open>
  The \<open>match ch\<close> of the loop. \<open>scan\<close> is \<open>scan_filesystem\<close> on the local array;
  \<open>boot_iso\<close> does not return, so a boot leaves the menu.
\<close>

definition menu_key :: "(dir_entry list \<Rightarrow> dir_entry list outcome) \<Rightarrow> u8 option \<Rightarrow> menu \<Rightarrow> menu_act outcome" where
  "menu_key scan ch st =
     (case ch of
        None \<Rightarrow> Done (Stay st)
      | Some c \<Rightarrow>
          if c = 114 \<or> c = 82 then
            obind (scan (mn_files st)) (\<lambda>files. Done (Stay (st\<lparr>mn_files := files, mn_page := 0, mn_len := 0\<rparr>)))
          else if c = 110 \<or> c = 78 then
            Done (Stay (if mn_page st + MENU_PAGE_SIZE < length (mn_files st)
              then st\<lparr>mn_page := mn_page st + MENU_PAGE_SIZE, mn_len := 0\<rparr> else st\<lparr>mn_len := 0\<rparr>))
          else if c = 112 \<or> c = 80 then
            Done (Stay (st\<lparr>mn_page := mn_page st - MENU_PAGE_SIZE, mn_len := 0\<rparr>))
          else if c = 8 then Done (Stay (st\<lparr>mn_len := mn_len st - 1\<rparr>))
          else if 48 \<le> c \<and> c \<le> 57 \<and> mn_len st < length (mn_digits st) then
            obind (of_opt (put (mn_digits st) (mn_len st) c)) (\<lambda>ds.
              Done (Stay (st\<lparr>mn_digits := ds, mn_len := mn_len st + 1\<rparr>)))
          else if c = 10 then
            (case parse_selection (mn_digits st) (mn_len st) (length (mn_files st)) of
               Some index \<Rightarrow> obind (of_opt (idx (mn_files st) index)) (\<lambda>f. Done (Boot f))
             | None \<Rightarrow> Done (Stay (st\<lparr>mn_len := 0\<rparr>)))
          else Done (Stay st))"

section \<open>The loop\<close>

definition menu_frame :: "menu \<Rightarrow> bytes \<Rightarrow> bytes option" where
  "menu_frame st scr = do {
     s1 \<leftarrow> render_menu (mn_files st) (length (mn_files st)) (mn_page st) scr;
     if mn_len st > 0 then do {
       s2 \<leftarrow> vga_print 22 1 (bstr ''Selection: '') 0x07 s1;
       ds \<leftarrow> slice (mn_digits st) 0 (mn_len st);
       vga_print 22 11 ds 0x0A s2 }
     else Some s1 }"

datatype menu_end = Waiting menu bytes | NoFiles bytes | Booted boot_end

fun menu_loop ::
  "(u64 \<Rightarrow> bytes option) \<Rightarrow> (dir_entry list \<Rightarrow> dir_entry list outcome) \<Rightarrow> cpu \<Rightarrow> bytes \<Rightarrow> menu \<Rightarrow> bytes \<Rightarrow> menu_end outcome" where
  "menu_loop rd scan s [] st scr = obind (of_opt (menu_frame st scr)) (\<lambda>scr1. Done (Waiting st scr1))"
| "menu_loop rd scan s (sc # keys) st scr =
     obind (of_opt (menu_frame st scr)) (\<lambda>scr1.
     obind (menu_key scan (scancode_to_ascii sc) st) (\<lambda>a.
       case a of
         Stay st' \<Rightarrow> menu_loop rd scan s keys st' scr1
       | Boot f \<Rightarrow> obind (of_opt (boot_iso rd f s scr1)) (\<lambda>b. Done (Booted b))))"

definition show_menu ::
  "(u64 \<Rightarrow> bytes option) \<Rightarrow> (dir_entry list \<Rightarrow> dir_entry list outcome) \<Rightarrow> dir_entry list \<Rightarrow> cpu \<Rightarrow> bytes \<Rightarrow> bytes \<Rightarrow> menu_end outcome" where
  "show_menu rd scan files s keys scr =
     (if length files = 0 then
        obind (of_opt (vga_clear 0x07 scr)) (\<lambda>s1.
        obind (of_opt (vga_print 4 10 (bstr ''No ISO files found.'') 0x0C s1)) (\<lambda>s2.
        obind (of_opt (vga_print 6 8 (bstr ''Press any key to halt...'') 0x07 s2)) (\<lambda>s3. Done (NoFiles s3))))
      else menu_loop rd scan s keys
        \<lparr>mn_files = take 64 files, mn_page = 0, mn_digits = [0, 0], mn_len = 0\<rparr> scr)"

section \<open>Numbers print and parse\<close>

text \<open>The decimal value of a digit string, and what \<open>parse_digits\<close> makes of one below the saturation.\<close>

fun dec_value :: "bytes \<Rightarrow> nat \<Rightarrow> nat" where
  "dec_value [] v = v"
| "dec_value (d # ds) v = dec_value ds (v * 10 + (unat d - 48))"

definition is_digit :: "u8 \<Rightarrow> bool" where
  "is_digit d \<longleftrightarrow> 48 \<le> d \<and> d \<le> 57"

lemma dec_value_append: "dec_value (xs @ ys) v = dec_value ys (dec_value xs v)"
  by (induction xs arbitrary: v) auto

lemma dec_value_mono: "v \<le> dec_value ds v"
proof (induction ds arbitrary: v)
  case (Cons d ds)
  show ?case using Cons.IH [of "v * 10 + (unat d - 48)"] by simp
qed simp

lemma parse_digits_value:
  "list_all is_digit ds \<Longrightarrow> dec_value ds v \<le> USIZE_MAX \<Longrightarrow> parse_digits ds v = Some (dec_value ds v)"
proof (induction ds arbitrary: v)
  case (Cons d ds)
  have d: "48 \<le> d" "d \<le> 57" using Cons.prems(1) by (auto simp: is_digit_def)
  have u: "unat (d - 48) = unat d - 48" using d(1) by (simp add: unat_sub)
  have "v * 10 + (unat d - 48) \<le> USIZE_MAX"
    using dec_value_mono [of "v * 10 + (unat d - 48)" ds] Cons.prems(2) by simp
  then have m: "min USIZE_MAX (min USIZE_MAX (v * 10) + unat (d - 48)) = v * 10 + (unat d - 48)" using u by simp
  show ?case using Cons.IH [of "v * 10 + (unat d - 48)"] Cons.prems d by (simp add: m)
qed simp

lemma digit_char: "is_digit (ucast (v mod 10 :: u64) + 48)" "unat (ucast (v mod 10 :: u64) + 48 :: u8) = unat v mod 10 + 48"
proof -
  have u: "unat (ucast (v mod 10 :: u64) :: u8) = unat v mod 10"
  proof -
    have "unat v mod 10 < 256" by (rule less_trans [of _ 10]) simp_all
    then show ?thesis by (simp add: unsigned_ucast_eq unat_mod take_bit_nat_eq_self)
  qed
  then show n: "unat (ucast (v mod 10 :: u64) + 48 :: u8) = unat v mod 10 + 48"
    by (simp add: unat_word_ariths)
  show "is_digit (ucast (v mod 10 :: u64) + 48)"
    by (simp add: is_digit_def word_le_nat_alt n)
qed

lemma format_digits_value:
  "unat v < 10 ^ pos \<Longrightarrow> list_all is_digit buf \<Longrightarrow>
     \<exists>ds. format_digits pos v buf = ds @ buf \<and> list_all is_digit ds \<and> dec_value ds 0 = unat v \<and>
       (\<forall>k. unat v < 10 ^ k \<longrightarrow> length ds \<le> k)"
proof (induction pos arbitrary: v buf)
  case 0
  then show ?case by (auto intro: exI [of _ "[]"])
next
  case (Suc pos)
  show ?case
  proof (cases "v > 0")
    case True
    let ?c = "ucast (v mod 10) + 48 :: u8"
    have q: "unat (v div 10) = unat v div 10" by (simp add: unat_div)
    have "unat (v div 10) < 10 ^ pos" using Suc.prems(1) by (simp add: q less_mult_imp_div_less)
    from Suc.IH [OF this, of "?c # buf"] digit_char(1) Suc.prems(2) obtain ds where
      ds: "format_digits pos (v div 10) (?c # buf) = ds @ ?c # buf" "list_all is_digit ds" "dec_value ds 0 = unat v div 10"
      "\<And>k. unat v div 10 < 10 ^ k \<Longrightarrow> length ds \<le> k" by (auto simp: q)
    have "length (ds @ [?c]) \<le> k" if k: "unat v < 10 ^ k" for k
    proof (cases k)
      case 0
      then show ?thesis using that True by (simp add: word_less_nat_alt)
    next
      case (Suc k')
      then have "unat v div 10 < 10 ^ k'" using that by (simp add: less_mult_imp_div_less)
      then show ?thesis using ds(4) Suc by simp
    qed
    moreover have "dec_value (ds @ [?c]) 0 = unat v" using ds(3) digit_char(2) [of v] by (simp add: dec_value_append)
    ultimately show ?thesis using True ds(1,2) digit_char(1) [of v] by (intro exI [of _ "ds @ [?c]"]) simp
  next
    case False
    then have "v = 0" by (simp add: word_gt_0)
    then show ?thesis by (auto intro: exI [of _ "[]"])
  qed
qed

lemma format_u64_value:
  "list_all is_digit (format_u64 v) \<and> dec_value (format_u64 v) 0 = unat v \<and> format_u64 v \<noteq> [] \<and>
     length (format_u64 v) \<le> 20 \<and> (\<forall>k>0. unat v < 10 ^ k \<longrightarrow> length (format_u64 v) \<le> k)"
proof (cases "v = 0")
  case True
  have "format_u64 0 = [48]" by code_simp
  then show ?thesis using True by (simp add: is_digit_def)
next
  case False
  have b: "unat v < 10 ^ 20" using unsigned_less [of v, where ?'a = nat] by simp
  from format_digits_value [OF b, of "[]"] obtain ds where
    "format_digits 20 v [] = ds" "list_all is_digit ds" "dec_value ds 0 = unat v" "\<forall>k. unat v < 10 ^ k \<longrightarrow> length ds \<le> k"
    by auto
  moreover have "ds \<noteq> []" using calculation(3) False by (auto simp: unat_eq_zero)
  ultimately show ?thesis using False b by (simp add: format_u64_def)
qed

text \<open>The numbers the menu shows are the numbers it accepts: for every count, parsing the digits
  that \<open>format_u64\<close> prints for a line number gives back that line's index; 0 and numbers past the count
  are rejected.\<close>

theorem format_parse_roundtrip:
  "parse_selection (format_u64 v) (length (format_u64 v)) count =
     (if 0 < v \<and> unat v \<le> count then Some (unat v - 1) else None)"
proof -
  have f: "list_all is_digit (format_u64 v)" "dec_value (format_u64 v) 0 = unat v" "format_u64 v \<noteq> []"
    using format_u64_value by auto
  have "unat v \<le> USIZE_MAX" using unsigned_less [of v, where ?'a = nat] by (simp add: USIZE_MAX_def)
  with parse_digits_value [OF f(1), of 0] f show ?thesis
    by (auto simp: parse_selection_def word_less_nat_alt)
qed

section \<open>Every state of the menu\<close>

definition menu_ok :: "menu \<Rightarrow> bool" where
  "menu_ok st \<longleftrightarrow> mn_files st \<noteq> [] \<and> length (mn_files st) \<le> 64 \<and> list_all entry_ok (mn_files st) \<and>
     16 dvd mn_page st \<and> mn_page st < length (mn_files st) \<and>
     length (mn_digits st) = 2 \<and> mn_len st \<le> 2 \<and> list_all is_digit (take (mn_len st) (mn_digits st))"

text \<open>The states the loop passes through, for every sequence of keys.\<close>

inductive menu_reach :: "(dir_entry list \<Rightarrow> dir_entry list outcome) \<Rightarrow> menu \<Rightarrow> menu \<Rightarrow> bool" for scan st0 where
  start: "menu_reach scan st0 st0"
| press: "menu_reach scan st0 st \<Longrightarrow> menu_key scan ch st = Done (Stay st') \<Longrightarrow> menu_reach scan st0 st'"

lemma put_digit:
  "length ds = 2 \<Longrightarrow> n < 2 \<Longrightarrow> list_all is_digit (take n ds) \<Longrightarrow> is_digit c \<Longrightarrow>
     put ds n c = Some (ds[n := c]) \<and> list_all is_digit (take (Suc n) (ds[n := c]))"
  by (simp add: bounds_simps take_Suc_conv_app_nth)

lemma list_all_take_le: "m \<le> n \<Longrightarrow> list_all P (take n xs) \<Longrightarrow> list_all P (take m xs)"
  by (metis list_all_append min.absorb1 take_take append_take_drop_id)

lemma parse_selection_range: "parse_selection ds n count = Some i \<Longrightarrow> i < count"
  by (auto simp: parse_selection_def split: if_splits option.splits)

context scanner
begin

lemma menu_key_ok:
  assumes "menu_ok st"
  shows "(\<exists>a. menu_key scan ch st = Done a \<and> (case a of Stay st' \<Rightarrow> menu_ok st' | Boot f \<Rightarrow> f \<in> set (mn_files st))) \<or>
    menu_key scan ch st = Spin"
proof (cases ch)
  case None
  then show ?thesis using assms by (simp add: menu_key_def)
next
  case (Some c)
  consider (refresh) "c = 114 \<or> c = 82" | (forward) "c = 110 \<or> c = 78" | (backward) "c = 112 \<or> c = 80" | (erase) "c = 8"
    | (digit) "is_digit c" "mn_len st < 2" | (enter) "c = 10"
    | (other) "\<not> (c = 114 \<or> c = 82)" "\<not> (c = 110 \<or> c = 78)" "\<not> (c = 112 \<or> c = 80)" "c \<noteq> 8"
      "\<not> (is_digit c \<and> mn_len st < 2)" "c \<noteq> 10" by blast
  then show ?thesis
  proof cases
    case refresh
    show ?thesis
    proof (cases "scan (mn_files st)")
      case (Done f)
      then have "grows 64 (mn_files st) f" by (rule scan_grows)
      then have "f \<noteq> [] \<and> length f \<le> 64 \<and> list_all entry_ok f"
        using assms by (auto simp: grows_def menu_ok_def list_all_iff)
      then show ?thesis using Some refresh Done assms by (simp add: menu_key_def menu_ok_def)
    next
      case Panic
      then show ?thesis using scan_safe by blast
    next
      case Spin
      then show ?thesis using Some refresh by (auto simp: menu_key_def)
    qed
  next
    case forward
    then show ?thesis using Some assms by (auto simp: menu_key_def menu_ok_def MENU_PAGE_SIZE_def)
  next
    case backward
    have "16 dvd mn_page st - 16" using assms by (simp add: menu_ok_def)
    then show ?thesis using backward Some assms by (auto simp: menu_key_def menu_ok_def MENU_PAGE_SIZE_def)
  next
    case erase
    have "list_all is_digit (take (mn_len st) (mn_digits st))" using assms by (simp add: menu_ok_def)
    then have "list_all is_digit (take (mn_len st - 1) (mn_digits st))" by (rule list_all_take_le [OF diff_le_self])
    then show ?thesis using erase Some assms by (auto simp: menu_key_def menu_ok_def)
  next
    case digit
    have c: "48 \<le> c" "c \<le> 57" using digit by (auto simp: is_digit_def)
    then have "c \<noteq> 114" "c \<noteq> 82" "c \<noteq> 110" "c \<noteq> 78" "c \<noteq> 112" "c \<noteq> 80" "c \<noteq> 8" by auto
    then show ?thesis using digit Some assms c put_digit [of "mn_digits st" "mn_len st" c]
      by (simp add: menu_key_def menu_ok_def)
  next
    case enter
    show ?thesis
    proof (cases "parse_selection (mn_digits st) (mn_len st) (length (mn_files st))")
      case None
      then show ?thesis using enter Some assms by (simp add: menu_key_def menu_ok_def)
    next
      case (Some i)
      have "i < length (mn_files st)" by (rule parse_selection_range [OF Some])
      then show ?thesis using Some enter \<open>ch = Some c\<close> by (simp add: menu_key_def bounds_simps)
    qed
  next
    case other
    have "menu_key scan ch st = Done (Stay st)" using Some other assms
      by (auto simp: menu_key_def menu_ok_def is_digit_def)
    then show ?thesis using assms by simp
  qed
qed

lemma reach_ok: "menu_reach scan st0 st \<Longrightarrow> menu_ok st0 \<Longrightarrow> menu_ok st"
proof (induction rule: menu_reach.induct)
  case (press st ch st')
  then show ?case using menu_key_ok [of st ch] by auto
qed

lemma reach_no_panic: "menu_reach scan st0 st \<Longrightarrow> menu_ok st0 \<Longrightarrow> menu_key scan ch st \<noteq> Panic"
  using reach_ok [of st0 st] menu_key_ok [of st ch] by auto

end

section \<open>Every frame can be drawn\<close>

lemma vga_print_bind:
  assumes "length scr = 4000" and "\<And>t. length t = 4000 \<Longrightarrow> \<exists>r. f t = Some r \<and> length r = 4000"
  shows "\<exists>r. vga_print row col s attr scr \<bind> f = Some r \<and> length r = 4000"
proof -
  obtain t where "vga_print row col s attr scr = Some t" "length t = 4000" using vga_print_ok [OF assms(1)] by blast
  then show ?thesis using assms(2) by simp
qed

lemma vga_print_bound: "length scr = 4000 \<Longrightarrow> \<exists>r. vga_print row col s attr scr = Some r \<and> length r = 4000"
  by (rule vga_print_ok)

lemma render_line_ok:
  assumes "length scr = 4000" and "index < length files" and "list_all entry_ok files"
  shows "\<exists>r. render_line files row index scr = Some r \<and> length r = 4000"
proof -
  have e: "entry_ok (files ! index)" using assms(2,3) by (simp add: list_all_length)
  obtain nm where nm: "slice (de_name (files ! index)) 0 (min (de_name_len (files ! index)) 43) = Some nm"
    using e by (simp add: entry_ok_def bounds_simps)
  show ?thesis unfolding render_line_def Let_def idx_Some [OF assms(2)] bind.bind_lunit nm
    by (intro vga_print_bind vga_print_bound assms(1))
qed

lemma render_lines_ok:
  "length scr = 4000 \<Longrightarrow> index + n \<le> length files \<Longrightarrow> list_all entry_ok files \<Longrightarrow>
     \<exists>r. render_lines files row index n scr = Some r \<and> length r = 4000"
proof (induction n arbitrary: row index scr)
  case (Suc n)
  obtain t where "render_line files (3 + row) index scr = Some t" "length t = 4000"
    using render_line_ok [of scr index files "3 + row"] Suc.prems by auto
  then show ?case using Suc.IH [of t "index + 1" "row + 1"] Suc.prems by simp
qed simp

lemma render_menu_ok:
  assumes "length scr = 4000" and "list_all entry_ok files"
  shows "\<exists>r. render_menu files (length files) page scr = Some r \<and> length r = 4000"
proof -
  obtain c where c: "vga_clear 0x07 scr = Some c" "length c = 4000" using vga_clear_ok [OF assms(1)] by blast
  obtain t where t: "vga_print 0 8 (bstr ''=== Choosable ISO Boot Menu ==='') 0x1F c = Some t" "length t = 4000"
    using vga_print_ok [OF c(2)] by blast
  let ?e = "min (page + MENU_PAGE_SIZE) (length files)"
  obtain u where u: "render_lines files 0 page (?e - page) t = Some u" "length u = 4000"
  proof (cases "page < length files")
    case True
    then show ?thesis using render_lines_ok [OF t(2), of page "?e - page" files 0] assms(2) that by auto
  next
    case False
    then show ?thesis using t(2) that by simp
  qed
  then show ?thesis using c(1) t(1) vga_print_ok [OF u(2)] by (simp add: render_menu_def Let_def)
qed

lemma menu_frame_ok:
  assumes "length scr = 4000" and "menu_ok st"
  shows "\<exists>r. menu_frame st scr = Some r \<and> length r = 4000"
proof -
  have f: "list_all entry_ok (mn_files st)" and l: "mn_len st \<le> length (mn_digits st)"
    using assms(2) by (auto simp: menu_ok_def)
  obtain t where t: "render_menu (mn_files st) (length (mn_files st)) (mn_page st) scr = Some t" "length t = 4000"
    using render_menu_ok [OF assms(1) f] by blast
  obtain u where u: "vga_print 22 1 (bstr ''Selection: '') 0x07 t = Some u" "length u = 4000" using vga_print_ok [OF t(2)] by blast
  then show ?thesis using t l vga_print_ok [OF u(2)] by (simp add: menu_frame_def bounds_simps)
qed

lemma boot_iso_total: "length scr = 4000 \<Longrightarrow> boot_iso (ata_rd D) f s scr \<noteq> None"
  using ata.boot_iso_ok [of scr D f s] by (auto split: option.splits if_splits)

context scanner
begin

lemma menu_loop_safe:
  "menu_ok st \<Longrightarrow> length scr = 4000 \<Longrightarrow> menu_loop (ata_rd D) scan s keys st scr \<noteq> Panic \<and>
     (\<forall>st' scr'. menu_loop (ata_rd D) scan s keys st scr = Done (Waiting st' scr') \<longrightarrow> menu_ok st' \<and> length scr' = 4000)"
proof (induction keys arbitrary: st scr)
  case Nil
  then show ?case using menu_frame_ok [of scr st] by auto
next
  case (Cons k ks)
  obtain t where t: "menu_frame st scr = Some t" "length t = 4000" using menu_frame_ok [OF Cons.prems(2,1)] by blast
  from menu_key_ok [OF Cons.prems(1), of "scancode_to_ascii k"] show ?case
  proof
    assume "\<exists>a. menu_key scan (scancode_to_ascii k) st = Done a \<and>
      (case a of Stay st' \<Rightarrow> menu_ok st' | Boot f \<Rightarrow> f \<in> set (mn_files st))"
    then obtain a where a: "menu_key scan (scancode_to_ascii k) st = Done a" "case a of Stay st' \<Rightarrow> menu_ok st' | Boot f \<Rightarrow> f \<in> set (mn_files st)"
      by blast
    show ?thesis
    proof (cases a)
      case (Stay st')
      then show ?thesis using a t Cons.IH [of st' t] by simp
    next
      case (Boot f)
      then show ?thesis using a t boot_iso_total [OF t(2), of D f s] by auto
    qed
  qed (simp add: t)
qed

end

section \<open>Typing a number and turning pages\<close>

text \<open>The scancode of a digit key.\<close>

definition digit_scancode :: "u8 \<Rightarrow> u8" where
  "digit_scancode d = (if d = 48 then 0x0B else d - 47)"

lemma digit_cases: "is_digit d \<Longrightarrow> d \<in> {48, 49, 50, 51, 52, 53, 54, 55, 56, 57}"
proof -
  assume "is_digit d"
  then have "48 \<le> unat d" "unat d \<le> 57" by (simp_all add: is_digit_def word_le_nat_alt)
  then have "unat d \<in> {48, 49, 50, 51, 52, 53, 54, 55, 56, 57}" by (simp only: insert_iff empty_iff) presburger
  then have "word_of_nat (unat d) \<in> (word_of_nat ` {48, 49, 50, 51, 52, 53, 54, 55, 56, 57} :: u8 set)" by (rule imageI)
  then show ?thesis by simp
qed

lemma digit_scancode: "is_digit d \<Longrightarrow> scancode_to_ascii (digit_scancode d) = Some d"
  using digit_cases [of d] by (auto simp: digit_scancode_def scancode_to_ascii_def)

lemma menu_key_digit:
  assumes "is_digit d" and "mn_len st < length (mn_digits st)"
  shows "menu_key scan (Some d) st = Done (Stay (st\<lparr>mn_digits := (mn_digits st)[mn_len st := d], mn_len := mn_len st + 1\<rparr>))"
proof -
  have "48 \<le> d" "d \<le> 57" using assms(1) by (auto simp: is_digit_def)
  then have "d \<noteq> 114" "d \<noteq> 82" "d \<noteq> 110" "d \<noteq> 78" "d \<noteq> 112" "d \<noteq> 80" "d \<noteq> 8" by auto
  then show ?thesis using assms \<open>48 \<le> d\<close> \<open>d \<le> 57\<close> by (simp add: menu_key_def bounds_simps)
qed

context scanner
begin

lemma type_digits:
  "menu_ok st \<Longrightarrow> length scr = 4000 \<Longrightarrow> list_all is_digit ds \<Longrightarrow> mn_len st + length ds \<le> 2 \<Longrightarrow>
     \<exists>st' scr'. menu_loop rd scan s (map digit_scancode ds @ keys) st scr = menu_loop rd scan s keys st' scr' \<and>
       length scr' = 4000 \<and> menu_ok st' \<and> mn_files st' = mn_files st \<and> mn_len st' = mn_len st + length ds \<and>
       take (mn_len st') (mn_digits st') = take (mn_len st) (mn_digits st) @ ds"
proof (induction ds arbitrary: st scr)
  case (Cons d ds)
  have d: "is_digit d" and l: "mn_len st < length (mn_digits st)" using Cons.prems by (auto simp: menu_ok_def)
  let ?st = "st\<lparr>mn_digits := (mn_digits st)[mn_len st := d], mn_len := mn_len st + 1\<rparr>"
  obtain t where t: "menu_frame st scr = Some t" "length t = 4000" using menu_frame_ok [OF Cons.prems(2,1)] by blast
  have k: "menu_key scan (scancode_to_ascii (digit_scancode d)) st = Done (Stay ?st)"
    using digit_scancode [OF d] menu_key_digit [OF d l] by simp
  have ok: "menu_ok ?st" using menu_key_ok [OF Cons.prems(1), of "scancode_to_ascii (digit_scancode d)"] k by simp
  have "take (mn_len ?st) (mn_digits ?st) = take (mn_len st) (mn_digits st) @ [d]"
    using l by (simp add: take_Suc_conv_app_nth)
  with Cons.IH [OF ok t(2)] Cons.prems k t show ?case by fastforce
qed auto

lemma enter_boots:
  assumes "menu_ok st" and "length scr = 4000" and "i < length (mn_files st)"
    and "take (mn_len st) (mn_digits st) = format_u64 (word_of_nat (i + 1))"
  shows "\<exists>t. length t = 4000 \<and>
    menu_loop rd scan s [0x1C] st scr = obind (of_opt (boot_iso rd (mn_files st ! i) s t)) (\<lambda>b. Done (Booted b))"
proof -
  obtain t where t: "menu_frame st scr = Some t" "length t = 4000" using menu_frame_ok [OF assms(2,1)] by blast
  have b: "i + 1 \<le> 64" "mn_len st \<le> length (mn_digits st)" using assms(1,3) by (auto simp: menu_ok_def)
  have u: "unat (word_of_nat (i + 1) :: u64) = i + 1" using b(1) by (intro unat_of_nat_small) simp
  have len: "length (format_u64 (word_of_nat (i + 1))) = mn_len st"
    using arg_cong [OF assms(4), of length] b(2) by simp
  have "mn_len st \<noteq> 0" using format_u64_value [of "word_of_nat (i + 1)"] len by (cases "mn_len st") simp_all
  then have "parse_selection (format_u64 (word_of_nat (i + 1))) (mn_len st) (length (mn_files st)) = Some i"
    using format_u64_value [of "word_of_nat (i + 1)"] parse_digits_value [of "format_u64 (word_of_nat (i + 1))" 0]
      assms(3) b(1) u len by (auto simp: parse_selection_def USIZE_MAX_def)
  then have "parse_selection (mn_digits st) (mn_len st) (length (mn_files st)) = Some i"
    using b(2) len by (simp add: parse_selection_def assms(4) split: if_splits)
  then have "menu_key scan (Some 10) st = Done (Boot (mn_files st ! i))"
    using assms(3) b(2) by (simp add: menu_key_def bounds_simps)
  then show ?thesis using t by (auto simp: scancode_to_ascii_def)
qed

lemma page_forward:
  "menu_ok st \<Longrightarrow> length scr = 4000 \<Longrightarrow> mn_len st = 0 \<Longrightarrow> mn_page st + 16 * k < length (mn_files st) \<Longrightarrow>
     \<exists>scr'. menu_loop rd scan s (replicate k 0x31 @ keys) st scr =
       menu_loop rd scan s keys (st\<lparr>mn_page := mn_page st + 16 * k\<rparr>) scr' \<and> length scr' = 4000"
proof (induction k arbitrary: st scr)
  case (Suc k)
  obtain t where t: "menu_frame st scr = Some t" "length t = 4000" using menu_frame_ok [OF Suc.prems(2,1)] by blast
  let ?st = "st\<lparr>mn_page := mn_page st + 16, mn_len := 0\<rparr>"
  have k: "menu_key scan (scancode_to_ascii 0x31) st = Done (Stay ?st)"
    using Suc.prems(4) by (simp add: scancode_to_ascii_def menu_key_def MENU_PAGE_SIZE_def)
  have ok: "menu_ok ?st" using menu_key_ok [OF Suc.prems(1), of "scancode_to_ascii 0x31"] k by simp
  have "mn_page ?st + 16 * k < length (mn_files ?st)" using Suc.prems(4) by simp
  from Suc.IH [OF ok t(2) _ this] obtain scr' where
    "menu_loop rd scan s (replicate k 0x31 @ keys) ?st t =
       menu_loop rd scan s keys (?st\<lparr>mn_page := mn_page ?st + 16 * k\<rparr>) scr'" "length scr' = 4000" by auto
  moreover have "?st\<lparr>mn_page := mn_page ?st + 16 * k\<rparr> = st\<lparr>mn_page := mn_page st + 16 * Suc k\<rparr>"
    using Suc.prems(3) by (cases st) simp
  ultimately show ?case using t k by auto
qed auto

end

lemma show_menu_safe:
  assumes "list_all entry_ok files" and "length files \<le> 64" and "length scr = 4000"
  shows "show_menu (ata_rd D) (\<lambda>fs. scan_filesystem (ata_rd D) fuel ctx 64 fs) files s keys scr \<noteq> Panic"
proof (cases "files = []")
  case True
  obtain c where c: "vga_clear 0x07 scr = Some c" "length c = 4000" using vga_clear_ok [OF assms(3)] by blast
  obtain t where t: "vga_print 4 10 (bstr ''No ISO files found.'') 0x0C c = Some t" "length t = 4000"
    using vga_print_ok [OF c(2)] by blast
  obtain r where "vga_print 6 8 (bstr ''Press any key to halt...'') 0x07 t = Some r" using vga_print_ok [OF t(2)] by blast
  then show ?thesis using True c t by (simp add: show_menu_def)
next
  case False
  let ?st = "\<lparr>mn_files = files, mn_page = 0, mn_digits = [0, 0], mn_len = 0\<rparr>"
  have "menu_ok ?st" using False assms by (simp add: menu_ok_def)
  from kscan.menu_loop_safe [OF this assms(3)] show ?thesis using False assms(2) by (simp add: show_menu_def)
qed

section \<open>Properties\<close>

text \<open>C30: the menu never panics: started on the result of any scan, with any keys, on any disk, every
  state it passes through has 1 to 64 well-formed entries, a page inside the list and at most two digits
  typed, so no index of the drawing or of the selection is out of range and no key can crash it.\<close>

theorem menu_never_panics:
  assumes "list_all entry_ok files" and "length files \<le> 64" and "length scr = 4000"
  shows "show_menu (ata_rd D) (\<lambda>fs. scan_filesystem (ata_rd D) fuel ctx 64 fs) files s keys scr \<noteq> Panic \<and>
    (files \<noteq> [] \<longrightarrow> (\<forall>st. menu_reach (\<lambda>fs. scan_filesystem (ata_rd D) fuel ctx 64 fs)
        \<lparr>mn_files = files, mn_page = 0, mn_digits = [0, 0], mn_len = 0\<rparr> st \<longrightarrow> menu_ok st))"
proof -
  let ?st = "\<lparr>mn_files = files, mn_page = 0, mn_digits = [0, 0], mn_len = 0\<rparr>"
  have "menu_ok ?st" if "files \<noteq> []" using that assms by (simp add: menu_ok_def)
  then show ?thesis using show_menu_safe [OF assms] kscan.reach_ok by blast
qed

definition one_file :: "dir_entry list" where
  "one_file = [mk_entry (bstr ''A.ISO'') 103 2048]"

lemma one_file_ok: "list_all entry_ok one_file"
proof -
  have "has_iso_suffix (bstr ''A.ISO'')" by code_simp
  then show ?thesis by (simp add: one_file_def mk_entry_ok)
qed

lemma menu_never_panics_witness:
  "show_menu (ata_rd iso_disk) (\<lambda>fs. scan_filesystem (ata_rd iso_disk) 8 sample_ctx 64 fs) one_file sample_cpu
     [0x13, 0x31, 0x02, 0x1C] (replicate 4000 0) \<noteq> Panic"
  using menu_never_panics [of one_file "replicate 4000 0" iso_disk 8 sample_ctx sample_cpu "[0x13, 0x31, 0x02, 0x1C]"]
    one_file_ok by (simp add: one_file_def)

text \<open>C16: every file of the list can be booted: from a state of the menu with nothing typed, turning
  forward to the file's page and typing the number the menu shows for it, one or two digits, and Enter
  starts \<open>boot_iso\<close> on exactly that file, which the page in view contains.\<close>

theorem typed_number_boots_file:
  assumes "menu_ok st" and "length scr = 4000" and "mn_len st = 0" and "mn_page st = 0" and "i < length (mn_files st)"
  shows "\<exists>t. length t = 4000 \<and>
    menu_loop (ata_rd D) (\<lambda>fs. scan_filesystem (ata_rd D) fuel ctx 64 fs) s
      (replicate (i div 16) 0x31 @ map digit_scancode (format_u64 (word_of_nat (i + 1))) @ [0x1C]) st scr =
    obind (of_opt (boot_iso (ata_rd D) (mn_files st ! i) s t)) (\<lambda>b. Done (Booted b))"
proof -
  let ?loop = "menu_loop (ata_rd D) (\<lambda>fs. scan_filesystem (ata_rd D) fuel ctx 64 fs) s"
  let ?n = "format_u64 (word_of_nat (i + 1))"
  let ?st = "st\<lparr>mn_page := mn_page st + 16 * (i div 16)\<rparr>"
  have i: "i + 1 \<le> 64" and p: "mn_page st + 16 * (i div 16) < length (mn_files st)"
    using assms(1,4,5) by (auto simp: menu_ok_def)
  have ok: "menu_ok ?st" using assms(1) p by (simp add: menu_ok_def)
  have n: "list_all is_digit ?n" "length ?n \<le> 2"
    using format_u64_value [of "word_of_nat (i + 1)"] i unat_of_nat_small [where 'a = 64, of "i + 1"] by auto
  obtain u where u: "length u = 4000" "?loop (replicate (i div 16) 0x31 @ map digit_scancode ?n @ [0x1C]) st scr =
      ?loop (map digit_scancode ?n @ [0x1C]) ?st u"
    using kscan.page_forward [OF assms(1,2,3) p] by blast
  have l: "mn_len ?st + length ?n \<le> 2" using assms(3) n(2) by simp
  obtain st' v where v: "?loop (map digit_scancode ?n @ [0x1C]) ?st u = ?loop [0x1C] st' v" "length v = 4000" "menu_ok st'"
    "mn_files st' = mn_files st" "take (mn_len st') (mn_digits st') = ?n"
    using kscan.type_digits [OF ok u(1) n(1) l] assms(3) by fastforce
  show ?thesis using kscan.enter_boots [OF v(3,2), of i] v assms(5) u(2) by simp
qed

lemma typed_number_boots_file_witness:
  "\<exists>t. menu_loop (ata_rd iso_disk) (\<lambda>fs. scan_filesystem (ata_rd iso_disk) 8 sample_ctx 64 fs) sample_cpu [0x02, 0x1C]
       \<lparr>mn_files = one_file, mn_page = 0, mn_digits = [0, 0], mn_len = 0\<rparr> (replicate 4000 0) =
     obind (of_opt (boot_iso (ata_rd iso_disk) (mk_entry (bstr ''A.ISO'') 103 2048) sample_cpu t)) (\<lambda>b. Done (Booted b))"
proof -
  let ?st = "\<lparr>mn_files = one_file, mn_page = 0, mn_digits = [0, 0], mn_len = 0\<rparr>"
  have "menu_ok ?st" using one_file_ok by (simp add: menu_ok_def one_file_def)
  moreover have "map digit_scancode (format_u64 1) = [0x02]" by code_simp
  ultimately show ?thesis
    using typed_number_boots_file [of ?st "replicate 4000 0" 0 iso_disk 8 sample_ctx sample_cpu]
    by (auto simp: one_file_def simp del: menu_loop.simps)
qed

text \<open>The refresh key doubles the list: the scan appends to the array whose count was not reset, so on
  an unchanged FAT32 directory of at most 32 files r makes every file appear twice.\<close>

theorem refresh_duplicates:
  assumes "chain_sectors (ata_rd D) ctx (fat32_next_cluster (ata_rd D) (cx_fat_start ctx))
      (\<lambda>v. v < 2 \<or> v \<ge> 0x0FFFFFF0) fuel (cx_root_cluster ctx) = Some ss"
    and "cx_root_cluster ctx \<noteq> 0" and "cx_fs ctx = Fat32"
    and "files = fat32_listing ctx (concat (map sector_entries ss))" and "length files \<le> 32"
  shows "scan_filesystem (ata_rd D) fuel ctx 64 [] = Done files \<and>
    menu_key (\<lambda>fs. scan_filesystem (ata_rd D) fuel ctx 64 fs) (scancode_to_ascii 0x13)
       \<lparr>mn_files = files, mn_page = 0, mn_digits = [0, 0], mn_len = 0\<rparr> =
     Done (Stay \<lparr>mn_files = files @ files, mn_page = 0, mn_digits = [0, 0], mn_len = 0\<rparr>)"
  using ata.fat32_chain_listing [OF assms(1), of 64] assms(2-5)
  by (simp add: scan_filesystem_def scan_fat32_dir_def menu_key_def scancode_to_ascii_def)

lemma refresh_duplicates_witness:
  "menu_key (\<lambda>fs. scan_filesystem (ata_rd (two_disk no_fat fat32_sample)) 1 (sample_ctx\<lparr>cx_fs := Fat32\<rparr>) 64 fs)
     (scancode_to_ascii 0x13) \<lparr>mn_files = one_file, mn_page = 0, mn_digits = [0, 0], mn_len = 0\<rparr> =
   Done (Stay \<lparr>mn_files = one_file @ one_file, mn_page = 0, mn_digits = [0, 0], mn_len = 0\<rparr>)"
proof -
  let ?ctx = "sample_ctx\<lparr>cx_fs := Fat32\<rparr>"
  have l: "length fat32_sample = 512" by (simp add: fat32_sample_def)
  have f: "one_file = fat32_listing ?ctx (concat (map sector_entries [fat32_sample]))" by code_simp
  have r: "read_fat_entry_raw (ata_rd (two_disk no_fat fat32_sample)) (cx_fat_start ?ctx) 2 = Some 0"
    using no_fat_read [OF l] by simp
  have c: "chain_sectors (ata_rd (two_disk no_fat fat32_sample)) ?ctx
      (fat32_next_cluster (ata_rd (two_disk no_fat fat32_sample)) (cx_fat_start ?ctx)) (\<lambda>v. v < 2 \<or> v \<ge> 0x0FFFFFF0) 1
      (cx_root_cluster ?ctx) = Some [fat32_sample]"
    using r two_rd [of no_fat fat32_sample 100] l
    by (simp add: fat32_next_cluster_def cluster_lba_def sample_ctx_def no_fat_def)
  show ?thesis using refresh_duplicates [OF c _ _ f] by (simp add: sample_ctx_def one_file_def)
qed

end
