(* ===== verification/KPart.thy ===== *)
theory KPart
  imports Ata
begin

text \<open>
  The partition table reader of the BIOS kernel (\<open>kernel/src/part.rs\<close>). The fixed
  array of four with its count is the list of the entries found; the rest of the array
  keeps its default.
\<close>

record partition =
  start_lba :: u32
  sector_count :: u32
  part_fs_type :: u8

definition BASIC_DATA :: bytes where
  "BASIC_DATA = [0xA2, 0xA0, 0xD0, 0xEB, 0xE5, 0xB9, 0x33, 0x44, 0x87, 0xC0, 0x68, 0xB6, 0xB7, 0x26, 0x99, 0xC7]"

definition u64_saturating_sub :: "u64 \<Rightarrow> u64 \<Rightarrow> u64" where
  "u64_saturating_sub a b = (if a < b then 0 else a - b)"

text \<open>
  The GPT entry loop: \<open>cache\<close> is the sector loaded last with its number. \<open>None\<close>
  is an index out of range, a panic.
\<close>

fun gpt_find ::
  "(u64 \<Rightarrow> bytes option) \<Rightarrow> u64 \<Rightarrow> nat \<Rightarrow> nat \<Rightarrow> nat \<Rightarrow> (u64 \<times> bytes) option \<Rightarrow> partition list option" where
  "gpt_find rd entries_lba sz i 0 cache = Some []"
| "gpt_find rd entries_lba sz i (Suc n) cache =
     (let eoff = i * sz; lba = entries_lba + word_of_nat (eoff div 512); boff = eoff mod 512
      in if boff + 48 > 512 then gpt_find rd entries_lba sz (i + 1) n cache
         else
           let loaded = (case cache of Some (l, s) \<Rightarrow> if l = lba then Some s else rd lba | None \<Rightarrow> rd lba)
           in case loaded of
                None \<Rightarrow> Some []
              | Some sec \<Rightarrow> do {
                  ty \<leftarrow> slice sec boff (boff + 16);
                  if ty = BASIC_DATA then do {
                    start \<leftarrow> u64_at sec (boff + 32);
                    end_lba \<leftarrow> u64_at sec (boff + 40);
                    let sectors = u64_saturating_sub (end_lba + 1) start;
                    Some (if sectors > 0
                          then [\<lparr>start_lba = ucast start, sector_count = ucast sectors, part_fs_type = 0x07\<rparr>] else [])
                  } else gpt_find rd entries_lba sz (i + 1) n (Some (lba, sec)) })"

fun mbr_scan :: "bytes \<Rightarrow> nat \<Rightarrow> nat \<Rightarrow> partition list option" where
  "mbr_scan buf i 0 = Some []"
| "mbr_scan buf i (Suc n) = do {
     fs \<leftarrow> idx buf (446 + i * 16 + 4);
     lba \<leftarrow> u32_at buf (446 + i * 16 + 8);
     sec \<leftarrow> u32_at buf (446 + i * 16 + 12);
     rest \<leftarrow> mbr_scan buf (i + 1) n;
     Some (if sec > 0 then \<lparr>start_lba = lba, sector_count = sec, part_fs_type = fs\<rparr> # rest else rest) }"

definition read_partitions :: "(u64 \<Rightarrow> bytes option) \<Rightarrow> partition list option" where
  "read_partitions rd =
     (case rd 0 of
        None \<Rightarrow> Some []
      | Some buf \<Rightarrow> do {
          t0 \<leftarrow> idx buf 450; t1 \<leftarrow> idx buf 466; t2 \<leftarrow> idx buf 482; t3 \<leftarrow> idx buf 498;
          if t0 = 0xEE \<or> t1 = 0xEE \<or> t2 = 0xEE \<or> t3 = 0xEE then
            (case rd 1 of
               None \<Rightarrow> Some []
             | Some hdr \<Rightarrow> do {
                 sig \<leftarrow> slice hdr 0 8;
                 if sig = bstr ''EFI PART'' then do {
                   entries_lba \<leftarrow> u64_at hdr 72;
                   n \<leftarrow> u32_at hdr 80;
                   sz \<leftarrow> u32_at hdr 84;
                   if sz > 0 \<and> n > 0 then gpt_find rd entries_lba (unat sz) 0 (unat (min n 128)) None else Some []
                 } else Some [] })
          else mbr_scan buf 0 4 })"

text \<open>
  With the sector cache gone the GPT loop is a search: the first entry of the basic data
  type, in the sectors the entries lie in.
\<close>

fun gpt_search :: "(u64 \<Rightarrow> bytes option) \<Rightarrow> u64 \<Rightarrow> nat \<Rightarrow> nat list \<Rightarrow> partition list" where
  "gpt_search rd entries_lba sz [] = []"
| "gpt_search rd entries_lba sz (i # is) =
     (let boff = i * sz mod 512
      in if boff + 48 > 512 then gpt_search rd entries_lba sz is
         else case rd (entries_lba + word_of_nat (i * sz div 512)) of
                None \<Rightarrow> []
              | Some sec \<Rightarrow>
                  if take 16 (drop boff sec) = BASIC_DATA then
                    let start = from_le (take 8 (drop (boff + 32) sec));
                        sectors = u64_saturating_sub (from_le (take 8 (drop (boff + 40) sec)) + 1) start
                    in (if sectors > 0
                        then [\<lparr>start_lba = ucast start, sector_count = ucast sectors, part_fs_type = 0x07\<rparr>] else [])
                  else gpt_search rd entries_lba sz is)"

context sector_source
begin

lemma gpt_find_search:
  "(\<And>l s. cache = Some (l, s) \<Longrightarrow> rd l = Some s) \<Longrightarrow>
     gpt_find rd e sz i n cache = Some (gpt_search rd e sz [i..<i + n])"
proof (induction n arbitrary: i cache)
  case (Suc n)
  let ?lba = "e + word_of_nat (i * sz div 512)"
  have up: "[i..<i + Suc n] = i # [Suc i..<Suc i + n]" by (simp add: upt_conv_Cons)
  have ld: "(case cache of Some (l, s) \<Rightarrow> if l = ?lba then Some s else rd ?lba | None \<Rightarrow> rd ?lba) = rd ?lba"
    using Suc.prems by (auto split: option.splits)
  show ?case
  proof (cases "i * sz mod 512 + 48 > 512")
    case True
    then show ?thesis using Suc.IH [of cache "Suc i"] Suc.prems unfolding up by (simp add: Let_def)
  next
    case False
    then have b: "i * sz mod 512 + 48 \<le> 512" by simp
    show ?thesis
    proof (cases "rd ?lba")
      case None
      then show ?thesis using b ld unfolding up by (simp add: Let_def)
    next
      case (Some sec)
      have l: "length sec = 512" by (rule rd_length [OF Some])
      have IH: "gpt_find rd e sz (Suc i) n (Some (?lba, sec)) = Some (gpt_search rd e sz [Suc i..<Suc i + n])"
        by (rule Suc.IH) (use Some in auto)
      show ?thesis using b ld Some l IH unfolding up by (simp add: Let_def bounds_simps)
    qed
  qed
qed simp

lemma mbr_scan_total: "length buf = 512 \<Longrightarrow> i + n \<le> 4 \<Longrightarrow> \<exists>ps. mbr_scan buf i n = Some ps \<and> length ps \<le> n"
proof (induction n arbitrary: i)
  case (Suc n)
  have "i + 1 + n \<le> 4" using Suc.prems by simp
  from Suc.IH [OF Suc.prems(1) this] obtain ps where "mbr_scan buf (i + 1) n = Some ps" "length ps \<le> n" by blast
  with Suc.prems show ?case by (simp add: bounds_simps)
qed simp

lemma gpt_search_length: "length (gpt_search rd e sz is) \<le> 1"
  by (induction rd e sz "is" rule: gpt_search.induct) (auto simp: Let_def split: option.splits)

lemma read_partitions_total: "\<exists>ps. read_partitions rd = Some ps \<and> length ps \<le> 4"
proof (cases "rd 0")
  case None
  then show ?thesis by (simp add: read_partitions_def)
next
  case (Some buf)
  have l: "length buf = 512" by (rule rd_length [OF Some])
  obtain ps where m: "mbr_scan buf 0 4 = Some ps" "length ps \<le> 4" using mbr_scan_total [OF l, of 0 4] by auto
  have g: "\<exists>ps. gpt_find rd e sz 0 n None = Some ps \<and> length ps \<le> 4" for e sz n
    using gpt_find_search [of None e sz 0 n] gpt_search_length [of e sz "[0..<n]"] by auto
  show ?thesis
  proof (cases "rd 1")
    case None
    then show ?thesis using Some l m by (simp add: read_partitions_def bounds_simps del: mbr_scan.simps)
  next
    case (Some hdr)
    have "length hdr = 512" by (rule rd_length [OF Some])
    then show ?thesis using \<open>rd 0 = Some buf\<close> Some l m g
      by (auto simp: read_partitions_def bounds_simps simp del: mbr_scan.simps gpt_find.simps)
  qed
qed

end

text \<open>\<open>read_partitions\<close> never panics and never overruns its array of four, for any
  content of the disk: any table, any GPT header, any entry size and count.\<close>

theorem read_partitions_never_panics: "\<exists>ps. read_partitions (ata_rd D) = Some ps \<and> length ps \<le> 4"
  by (rule ata.read_partitions_total)

text \<open>The sector cache of the GPT loop does not change what it finds: it is the search for
  the first basic data entry over freshly read sectors.\<close>

theorem gpt_cache_transparent:
  "gpt_find (ata_rd D) e sz 0 n None = Some (gpt_search (ata_rd D) e sz [0..<n])"
  using ata.gpt_find_search [of None D e sz 0 n] by simp

end
