(* ===== verification/KMain.thy ===== *)
theory KMain
  imports KMenu KPart
begin

text \<open>
  The entry point of the BIOS kernel (\<open>_start\<close> in \<open>kernel/src/main.rs\<close>): partition table, volume
  boot record, file system context, scan and menu. Each halt loop is an outcome of its own with
  what the screen shows.
\<close>

definition detect_fs :: "bytes \<Rightarrow> fs_type option option" where
  "detect_fs vbr = do {
     a \<leftarrow> slice vbr 3 11;
     if a = bstr ''EXFAT   '' then Some (Some Exfat)
     else if a = bstr ''NTFS    '' then Some (Some Ntfs)
     else do {
       b \<leftarrow> slice vbr 0x52 0x5A;
       Some (if b = bstr ''FAT32   '' then Some Fat32 else None) } }"

section \<open>The BIOS parameter block\<close>

definition empty_ctx :: "fs_type \<Rightarrow> u32 \<Rightarrow> fs_ctx" where
  "empty_ctx fs lba = \<lparr>cx_fs = fs, cx_part1_lba = lba, cx_spc = 0, cx_fat_start = 0, cx_fat_len = 0,
     cx_heap_start = 0, cx_root_cluster = 0, cx_mft_start_lba = 0, cx_sectors_per_cluster = 0, cx_mft_record_size = 0\<rparr>"

text \<open>\<open>Inl\<close> is the message of a halt; the outer option a panic.\<close>

definition exfat_bpb :: "bytes \<Rightarrow> u32 \<Rightarrow> (string + fs_ctx) option" where
  "exfat_bpb vbr lba = do {
     sh \<leftarrow> idx vbr 109;
     let spc_shift = unat sh;
     if spc_shift > 16 then Some (Inl ''Invalid SectorsPerClusterShift.'')
     else do {
       let cluster_bytes = (push_bit spc_shift 1 :: u32) * 512;
       fat_off \<leftarrow> u32_at vbr 80;
       fat_len \<leftarrow> u32_at vbr 84;
       heap_off \<leftarrow> u32_at vbr 88;
       root_cluster \<leftarrow> u32_at vbr 96;
       Some (Inr ((empty_ctx Exfat lba)\<lparr>cx_spc := cluster_bytes div 512, cx_fat_start := ucast lba + ucast fat_off,
         cx_fat_len := ucast fat_len, cx_heap_start := ucast lba + ucast heap_off, cx_root_cluster := root_cluster\<rparr>)) } }"

definition fat32_bpb :: "bytes \<Rightarrow> u32 \<Rightarrow> (string + fs_ctx) option" where
  "fat32_bpb vbr lba = do {
     spc \<leftarrow> idx vbr 13;
     if spc = 0 then Some (Inl ''Invalid sectors per cluster.'')
     else do {
       reserved \<leftarrow> u16_at vbr 14;
       num_fats \<leftarrow> idx vbr 16;
       fat_sectors \<leftarrow> u32_at vbr 36;
       root_cluster \<leftarrow> u32_at vbr 44;
       let fat_start = ucast lba + ucast reserved;
       let data_start = fat_start + ucast num_fats * ucast fat_sectors;
       Some (Inr ((empty_ctx Fat32 lba)\<lparr>cx_spc := ucast spc, cx_fat_start := fat_start, cx_fat_len := ucast fat_sectors,
         cx_heap_start := data_start, cx_root_cluster := root_cluster\<rparr>)) } }"

definition mft_record_bytes :: "u8 \<Rightarrow> u64 \<Rightarrow> u64" where
  "mft_record_bytes cpmr_raw cluster_bytes =
     (if sint cpmr_raw > 0 then word_of_int (sint cpmr_raw) * cluster_bytes
      else if sint cpmr_raw \<ge> -12 then push_bit (nat (- sint cpmr_raw)) 1 else 0)"

definition ntfs_bpb :: "bytes \<Rightarrow> u32 \<Rightarrow> (string + fs_ctx) option" where
  "ntfs_bpb vbr lba = do {
     spc \<leftarrow> idx vbr 13;
     if spc = 0 then Some (Inl ''Invalid sectors per cluster.'')
     else do {
       mft_lcn \<leftarrow> u64_at vbr 0x30;
       cpmr_raw \<leftarrow> idx vbr 0x40;
       let mft_start_lba = ucast lba + mft_lcn * ucast spc;
       let mft_record_size = mft_record_bytes cpmr_raw (ucast spc * 512);
       Some (if mft_record_size = 0 \<or> mft_record_size > 4096 then Inl ''Invalid MFT record size.''
         else Inr ((empty_ctx Ntfs lba)\<lparr>cx_spc := ucast spc, cx_sectors_per_cluster := ucast spc,
           cx_mft_start_lba := mft_start_lba, cx_mft_record_size := mft_record_size, cx_heap_start := ucast lba\<rparr>)) } }"

definition parse_bpb :: "fs_type \<Rightarrow> bytes \<Rightarrow> u32 \<Rightarrow> (string + fs_ctx) option" where
  "parse_bpb fs vbr lba = (case fs of Exfat \<Rightarrow> exfat_bpb vbr lba | Fat32 \<Rightarrow> fat32_bpb vbr lba | Ntfs \<Rightarrow> ntfs_bpb vbr lba)"

definition detected_msg :: "fs_type \<Rightarrow> string" where
  "detected_msg fs = (case fs of Exfat \<Rightarrow> ''exFAT detected. Scanning...''
     | Fat32 \<Rightarrow> ''FAT32 detected. Scanning...'' | Ntfs \<Rightarrow> ''NTFS detected. Scanning...'')"

section \<open>\<open>_start\<close>\<close>

datatype kernel_end = Kernel_halt bytes | Kernel_menu menu_end

definition print_at :: "nat \<Rightarrow> nat \<Rightarrow> string \<Rightarrow> u8 \<Rightarrow> bytes \<Rightarrow> bytes outcome" where
  "print_at row col msg attr scr = of_opt (vga_print row col (bstr msg) attr scr)"

definition halt_with :: "nat \<Rightarrow> string \<Rightarrow> bytes \<Rightarrow> kernel_end outcome" where
  "halt_with row msg scr = obind (print_at row 2 msg 0x0C scr) (\<lambda>s. Done (Kernel_halt s))"

definition kernel_start :: "(u64 \<Rightarrow> bytes option) \<Rightarrow> nat \<Rightarrow> cpu \<Rightarrow> bytes \<Rightarrow> bytes \<Rightarrow> kernel_end outcome" where
  "kernel_start rd fuel s keys scr =
     obind (of_opt (vga_clear 0x07 scr)) (\<lambda>c0.
     obind (print_at 0 0 ''  Choosable Kernel v0.4  '' 0x1F c0) (\<lambda>c1.
     obind (print_at 1 0 ''=========================='' 0x17 c1) (\<lambda>c2.
     obind (of_opt (read_partitions rd)) (\<lambda>parts.
       if length parts = 0 then halt_with 5 ''No partitions found. Halted.'' c2
       else
         obind (print_at 2 0 ''Reading partition 1...'' 0x07 c2) (\<lambda>c3.
         obind (of_opt (idx parts 0)) (\<lambda>p.
         let lba = start_lba p in
         case rd (ucast lba) of
           None \<Rightarrow> halt_with 3 ''Failed to read VBR.'' c3
         | Some vbr \<Rightarrow>
             obind (of_opt (detect_fs vbr)) (\<lambda>fs.
               case fs of
                 None \<Rightarrow> halt_with 3 ''Unknown filesystem.'' c3
               | Some fs \<Rightarrow>
                   obind (of_opt (parse_bpb fs vbr lba)) (\<lambda>r.
                     case r of
                       Inl msg \<Rightarrow> halt_with 3 msg c3
                     | Inr ctx \<Rightarrow>
                         obind (print_at 4 0 (detected_msg fs) 0x07 c3) (\<lambda>c4.
                         obind (scan_filesystem rd fuel ctx 64 []) (\<lambda>files.
                         obind (show_menu rd (\<lambda>f. scan_filesystem rd fuel ctx 64 f) files s keys c4) (\<lambda>e.
                           Done (Kernel_menu e))))))))))))"

section \<open>No panic anywhere\<close>

lemma u64_eqI: "unat (a :: u64) = unat b \<Longrightarrow> a = b"
  by (simp add: word_unat_eq_iff)

lemma detect_fs_total: "length vbr = 512 \<Longrightarrow> \<exists>r. detect_fs vbr = Some r"
  by (simp add: detect_fs_def bounds_simps)

lemma parse_bpb_total:
  assumes "length vbr = 512"
  shows "\<exists>r. parse_bpb fs vbr lba = Some r"
proof (cases fs)
  case Exfat
  then show ?thesis using assms by (simp add: parse_bpb_def exfat_bpb_def bounds_simps Let_def)
next
  case Fat32
  then show ?thesis using assms by (simp add: parse_bpb_def fat32_bpb_def bounds_simps Let_def)
next
  case Ntfs
  then show ?thesis using assms by (simp add: parse_bpb_def ntfs_bpb_def bounds_simps Let_def)
qed

lemma print_at_ok: "length scr = 4000 \<Longrightarrow> \<exists>t. print_at row col msg attr scr = Done t \<and> length t = 4000"
  using vga_print_ok [of scr row col "bstr msg" attr] by (auto simp: print_at_def)

lemma halt_with_ok: "length scr = 4000 \<Longrightarrow> halt_with row msg scr \<noteq> Panic"
  using print_at_ok [of scr row 2 msg "0x0C"] by (auto simp: halt_with_def)

text \<open>After the boot record has been read.\<close>

lemma scan_and_menu_safe:
  assumes "length scr = 4000"
  shows "obind (scan_filesystem (ata_rd D) fuel ctx 64 []) (\<lambda>files.
      obind (show_menu (ata_rd D) (\<lambda>f. scan_filesystem (ata_rd D) fuel ctx 64 f) files s keys scr) (\<lambda>e.
        Done (Kernel_menu e))) \<noteq> Panic"
proof (cases "scan_filesystem (ata_rd D) fuel ctx 64 []")
  case (Done files)
  then have "grows 64 [] files" by (rule kscan.scan_grows)
  then have "list_all entry_ok files" "length files \<le> 64" by (auto simp: grows_def list_all_iff)
  from show_menu_safe [OF this assms] Done show ?thesis by (simp add: obind_Panic_iff)
qed (use kscan.scan_safe in auto)

text \<open>C17: the kernel never panics: from power-on with any disk, any keys and any volume boot record, no
  index is out of range in the partition table, the boot record, the directory scan, the menu or the boot
  of an image.\<close>

theorem kernel_never_panics:
  assumes "length scr = 4000"
  shows "kernel_start (ata_rd D) fuel s keys scr \<noteq> Panic"
proof -
  obtain c0 where c0: "vga_clear 0x07 scr = Some c0" "length c0 = 4000" using vga_clear_ok [OF assms] by blast
  obtain c1 where c1: "print_at 0 0 ''  Choosable Kernel v0.4  '' 0x1F c0 = Done c1" "length c1 = 4000"
    using print_at_ok [OF c0(2)] by blast
  obtain c2 where c2: "print_at 1 0 ''=========================='' 0x17 c1 = Done c2" "length c2 = 4000"
    using print_at_ok [OF c1(2)] by blast
  obtain parts where parts: "read_partitions (ata_rd D) = Some parts" using ata.read_partitions_total by blast
  obtain c3 where c3: "print_at 2 0 ''Reading partition 1...'' 0x07 c2 = Done c3" "length c3 = 4000"
    using print_at_ok [OF c2(2)] by blast
  note run = kernel_start_def c0 c1 c2 [unfolded One_nat_def] parts c3 Let_def
  show ?thesis
  proof (cases "parts = []")
    case True
    then show ?thesis using halt_with_ok [OF c2(2)] by (simp add: run)
  next
    case False
    then have p: "idx parts 0 = Some (parts ! 0)" "length parts \<noteq> 0" by (simp_all add: bounds_simps)
    show ?thesis
    proof (cases "ata_rd D (ucast (start_lba (parts ! 0)))")
      case None
      then show ?thesis using halt_with_ok [OF c3(2)] p by (simp add: run)
    next
      case (Some vbr)
      have l: "length vbr = 512" by (rule ata.rd_length [OF Some])
      obtain fs where fs: "detect_fs vbr = Some fs" using detect_fs_total [OF l] by blast
      show ?thesis
      proof (cases fs)
        case None
        then show ?thesis using halt_with_ok [OF c3(2)] p Some fs by (simp add: run)
      next
        case (Some f)
        obtain r where r: "parse_bpb f vbr (start_lba (parts ! 0)) = Some r" using parse_bpb_total [OF l] by blast
        obtain c4 where c4: "print_at 4 0 (detected_msg f) 0x07 c3 = Done c4" "length c4 = 4000"
          using print_at_ok [OF c3(2)] by blast
        show ?thesis using \<open>ata_rd D _ = Some vbr\<close> Some fs r p c4 halt_with_ok [OF c3(2)] scan_and_menu_safe [OF c4(2)]
          by (cases r) (simp_all add: run)
      qed
    qed
  qed
qed

lemma kernel_never_panics_witness: "kernel_start (ata_rd iso_disk) 8 sample_cpu [0x02, 0x1C] (replicate 4000 0) \<noteq> Panic"
  using kernel_never_panics [of "replicate 4000 0" iso_disk 8 sample_cpu "[0x02, 0x1C]"] by simp

section \<open>The parameters are what the boot record says\<close>

lemma unat_ucast_up:
  "unat (ucast (x :: u32) :: u64) = unat x" "unat (ucast (y :: u16) :: u64) = unat y" "unat (ucast (z :: u8) :: u64) = unat z"
  "unat (ucast (z :: u8) :: u32) = unat z"
  by (simp_all add: unsigned_ucast_eq take_bit_nat_eq_self less_trans [OF unsigned_less])

text \<open>The start sectors computed from the boot record never wrap: for FAT32 the data area starts at
  partition + reserved + FATs * FAT size, for exFAT the FAT and the cluster heap at their offsets from the
  partition, and a cluster is 2 to the shift, at most 65536, sectors; an NTFS record size lies in 1 to 4096.\<close>

theorem bpb_exact:
  assumes "length vbr = 512" and "parse_bpb fs vbr lba = Some (Inr ctx)"
  shows "cx_fs ctx = fs \<and> cx_spc ctx \<noteq> 0 \<and>
    (case fs of
       Fat32 \<Rightarrow> unat (cx_fat_start ctx) = unat lba + le_nat (take 2 (drop 14 vbr)) \<and>
         unat (cx_heap_start ctx) = unat lba + le_nat (take 2 (drop 14 vbr)) + unat (vbr ! 16) * le_nat (take 4 (drop 36 vbr)) \<and>
         unat (cx_spc ctx) = unat (vbr ! 13)
     | Exfat \<Rightarrow> unat (cx_fat_start ctx) = unat lba + le_nat (take 4 (drop 80 vbr)) \<and>
         unat (cx_heap_start ctx) = unat lba + le_nat (take 4 (drop 88 vbr)) \<and>
         unat (cx_spc ctx) = 2 ^ unat (vbr ! 109) \<and> unat (vbr ! 109) \<le> 16
     | Ntfs \<Rightarrow> cx_mft_record_size ctx \<noteq> 0 \<and> cx_mft_record_size ctx \<le> 4096)"
proof -
  have f2: "unat (from_le (take 2 (drop a vbr)) :: u16) = le_nat (take 2 (drop a vbr))" for a
    using le_nat_bound [of "take 2 (drop a vbr)"] power_increasing [of "min (length vbr - a) 2" 2 "256 :: nat"]
    by (simp add: from_le_def unat_of_nat_small)
  have f4: "unat (from_le (take 4 (drop a vbr)) :: u32) = le_nat (take 4 (drop a vbr))" for a
    using le_nat_bound [of "take 4 (drop a vbr)"] power_increasing [of "min (length vbr - a) 4" 4 "256 :: nat"]
    by (simp add: from_le_def unat_of_nat_small)
  have lb: "unat (x :: u32) < 2 ^ 32" "unat (y :: u16) < 2 ^ 16" "unat (z :: u8) < 2 ^ 8" for x y z
    using unsigned_less [of x, where ?'a = nat] unsigned_less [of y, where ?'a = nat] unsigned_less [of z, where ?'a = nat]
    by simp_all
  show ?thesis
  proof (cases fs)
    case Exfat
    then have ctx: "unat (vbr ! 109) \<le> 16" "cx_fs ctx = Exfat" "cx_spc ctx = (push_bit (unat (vbr ! 109)) 1 * 512) div 512"
      "cx_fat_start ctx = ucast lba + ucast (from_le (take 4 (drop 80 vbr)) :: u32)"
      "cx_heap_start ctx = ucast lba + ucast (from_le (take 4 (drop 88 vbr)) :: u32)"
      using assms by (auto simp: parse_bpb_def exfat_bpb_def bounds_simps Let_def empty_ctx_def split: if_splits)
    have p: "unat (push_bit (unat (vbr ! 109)) 1 :: u32) = 2 ^ unat (vbr ! 109)" if "unat (vbr ! 109) \<le> 16"
    proof -
      have "(2 :: nat) ^ unat (vbr ! 109) < 2 ^ 32" using that by (intro power_strict_increasing) auto
      then have "unat (word_of_nat (2 ^ unat (vbr ! 109)) :: u32) = 2 ^ unat (vbr ! 109)" by (intro unat_of_nat_small) simp
      then show ?thesis by (simp add: push_bit_of_1)
    qed
    have "(2 :: nat) ^ unat (vbr ! 109) \<le> 2 ^ 16" using ctx(1) by (intro power_increasing) auto
    then have "unat (cx_spc ctx) = 2 ^ unat (vbr ! 109)"
      using p [OF ctx(1)] by (simp add: ctx(3) unat_div unat_mult_no_wrap)
    moreover have "unat (cx_spc ctx) \<noteq> 0" using calculation by simp
    ultimately show ?thesis using Exfat ctx lb(1) [of lba] lb(1) [of "from_le (take 4 (drop 80 vbr))"] lb(1) [of "from_le (take 4 (drop 88 vbr))"]
      by (auto simp: unat_add_no_wrap unat_ucast_up f4)
  next
    case Fat32
    then have ctx: "cx_fs ctx = Fat32" "vbr ! 13 \<noteq> 0" "cx_spc ctx = ucast (vbr ! 13)"
      "cx_fat_start ctx = ucast lba + ucast (from_le (take 2 (drop 14 vbr)) :: u16)"
      "cx_heap_start ctx = ucast lba + ucast (from_le (take 2 (drop 14 vbr)) :: u16)
         + ucast (vbr ! 16) * ucast (from_le (take 4 (drop 36 vbr)) :: u32)"
      using assms by (auto simp: parse_bpb_def fat32_bpb_def bounds_simps Let_def empty_ctx_def split: if_splits)
    have m: "unat (vbr ! 16) * unat (x :: u32) < 2 ^ 40" for x
      using mult_strict_mono [OF lb(3) [of "vbr ! 16"] lb(1) [of x]] by simp
    have c: "unat (cx_spc ctx) = unat (vbr ! 13)" by (simp add: ctx(3) unat_ucast_up)
    have s: "unat (cx_fat_start ctx) = unat lba + le_nat (take 2 (drop 14 vbr))"
      using lb(1) [of lba] lb(2) [of "from_le (take 2 (drop 14 vbr))"] by (simp add: ctx(4) unat_add_no_wrap unat_ucast_up f2)
    have t: "unat (ucast (vbr ! 16) * ucast (from_le (take 4 (drop 36 vbr)) :: u32) :: u64) = unat (vbr ! 16) * le_nat (take 4 (drop 36 vbr))"
      using m [of "from_le (take 4 (drop 36 vbr))"] by (simp add: unat_mult_no_wrap unat_ucast_up f4)
    have "unat (cx_heap_start ctx) = unat (cx_fat_start ctx) + unat (vbr ! 16) * le_nat (take 4 (drop 36 vbr))"
      unfolding ctx(5) ctx(4) [symmetric] t [symmetric]
      using s t m [of "from_le (take 4 (drop 36 vbr))"] lb(1) [of lba] lb(2) [of "from_le (take 2 (drop 14 vbr))"]
      by (intro unat_add_no_wrap) (simp add: f2 f4)
    then show ?thesis using Fat32 ctx(1,2) c s by (auto simp: unat_eq_zero)
  next
    case Ntfs
    then show ?thesis using assms
      by (auto simp: parse_bpb_def ntfs_bpb_def bounds_simps Let_def empty_ctx_def unat_ucast_up word_unat_eq_iff not_less split: if_splits)
  qed
qed

text \<open>A zero in the record size field is taken for 2 to the 0: records of one byte are accepted.\<close>

lemma zero_record_size: "mft_record_bytes 0 cluster_bytes = 1"
  by (simp add: mft_record_bytes_def)

text \<open>A FAT32 boot record with 8 sectors per cluster, 32 reserved sectors and two FATs of 1000 sectors.\<close>

definition fat32_vbr :: bytes where
  "fat32_vbr = replicate 13 0 @ [8, 32, 0, 2] @ replicate 19 0 @ [0xE8, 3, 0, 0] @ replicate 4 0 @ [2, 0, 0, 0] @ replicate 464 0"

lemma bpb_exact_witness:
  "\<exists>ctx. parse_bpb Fat32 fat32_vbr 2048 = Some (Inr ctx) \<and> unat (cx_heap_start ctx) = 2048 + 32 + 2 * 1000"
proof -
  have l: "length fat32_vbr = 512" by (simp add: fat32_vbr_def)
  have v: "le_nat (take 2 (drop 14 fat32_vbr)) = 32" "le_nat (take 4 (drop 36 fat32_vbr)) = 1000" "unat (fat32_vbr ! 16) = 2"
    "fat32_vbr ! 13 \<noteq> 0" by code_simp+
  then obtain ctx where c: "parse_bpb Fat32 fat32_vbr 2048 = Some (Inr ctx)"
    using l by (simp add: parse_bpb_def fat32_bpb_def bounds_simps Let_def)
  from bpb_exact [OF l c] v c show ?thesis by auto
qed

end
