(* ===== verification/EfiBootKind.thy ===== *)
theory EfiBootKind
  imports KMenu
begin

text \<open>
  The boot parameters the UEFI loader injects (\<open>efi/src/boot_kind.rs\<close> and
  \<open>IsoLocation\<close> of \<open>efi/src/locator.rs\<close>): distribution families, PARTUUID and decimal
  formatting, and the kernel command line written into a fixed buffer.
\<close>

section \<open>Where the ISO lives\<close>

record guid =
  g_d1 :: u32
  g_d2 :: u16
  g_d3 :: u16
  g_d4 :: bytes

record iso_location =
  partition_guid :: guid
  partition_number :: u32
  is_mbr :: bool
  file_path :: bytes
  file_path_len :: nat
  il_file_size :: u64
  il_part1_lba :: u64
  il_iso_lba :: u64

definition location_path :: "iso_location \<Rightarrow> bytes option" where
  "location_path loc = slice (file_path loc) 0 (file_path_len loc)"

definition offset_bytes :: "iso_location \<Rightarrow> u64" where
  "offset_bytes loc = (il_iso_lba loc - il_part1_lba loc) * 512"

text \<open>\<open>iter().rposition(..)\<close>: the position of the last slash.\<close>

definition rposition :: "('a \<Rightarrow> bool) \<Rightarrow> 'a list \<Rightarrow> nat option" where
  "rposition P xs = (let is = filter (\<lambda>i. P (xs ! i)) [0..<length xs] in if is = [] then None else Some (last is))"

definition file_name :: "iso_location \<Rightarrow> bytes option" where
  "file_name loc = do {
     path \<leftarrow> location_path loc;
     case rposition (\<lambda>c. c = 47) path of
       Some pos \<Rightarrow> slice path (pos + 1) (length path)
     | None \<Rightarrow> Some path }"

definition path_without_leading_slash :: "iso_location \<Rightarrow> bytes option" where
  "path_without_leading_slash loc = do {
     p \<leftarrow> location_path loc;
     Some (case p of c # cs \<Rightarrow> if c = 47 then cs else p | [] \<Rightarrow> p) }"

section \<open>Families\<close>

datatype fixup_type = FixCasper | FixLiveBoot | FixDracut | FixArch | FixWindowsPE | FixAlpine | FixAlpinePremount

record hook_target_set =
  hk_live :: bool
  hk_live_premount :: bool
  hk_casper_premount :: bool
  hk_casper_bottom :: bool

datatype boot_kind = Casper | DebianLive | FedoraLive | ArchIso | Alpine | AlpinePremount | WindowsPE | Unknown

definition linux_eol_extra :: "boot_kind \<Rightarrow> bytes" where
  "linux_eol_extra k =
     (case k of Casper \<Rightarrow> bstr '' iso-scan/filename='' | DebianLive \<Rightarrow> bstr '' findiso='' | _ \<Rightarrow> [])"

fun hook_targets :: "boot_kind \<Rightarrow> hook_target_set" where
  "hook_targets Casper = \<lparr>hk_live = False, hk_live_premount = False, hk_casper_premount = True, hk_casper_bottom = True\<rparr>"
| "hook_targets DebianLive = \<lparr>hk_live = True, hk_live_premount = True, hk_casper_premount = False, hk_casper_bottom = False\<rparr>"
| "hook_targets FedoraLive = \<lparr>hk_live = True, hk_live_premount = True, hk_casper_premount = True, hk_casper_bottom = True\<rparr>"
| "hook_targets ArchIso = \<lparr>hk_live = False, hk_live_premount = False, hk_casper_premount = True, hk_casper_bottom = False\<rparr>"
| "hook_targets _ = \<lparr>hk_live = False, hk_live_premount = False, hk_casper_premount = False, hk_casper_bottom = False\<rparr>"

definition needs_sr_mod :: "boot_kind \<Rightarrow> bool" where
  "needs_sr_mod k \<longleftrightarrow> k = Casper \<or> k = Unknown"

fun fixup_of :: "boot_kind \<Rightarrow> fixup_type" where
  "fixup_of Casper = FixCasper"
| "fixup_of DebianLive = FixLiveBoot"
| "fixup_of FedoraLive = FixDracut"
| "fixup_of ArchIso = FixArch"
| "fixup_of Alpine = FixAlpine"
| "fixup_of AlpinePremount = FixAlpine"
| "fixup_of WindowsPE = FixWindowsPE"
| "fixup_of Unknown = FixCasper"

section \<open>Writing into the buffer\<close>

text \<open>\<open>copy_at\<close>: the buffer and the number of bytes copied; a position past the end panics.\<close>

definition copy_at :: "bytes \<Rightarrow> nat \<Rightarrow> bytes \<Rightarrow> (bytes \<times> nat) option" where
  "copy_at buf pos src = do {
     let n = min (length src) (length buf - pos);
     buf1 \<leftarrow> (if pos \<le> length buf then blit buf pos (take n src) else None);
     Some (buf1, n) }"

text \<open>Repeated \<open>if pos < buf.len() { buf[pos] = c; pos += 1; }\<close>.\<close>

fun push_chars :: "bytes \<Rightarrow> nat \<Rightarrow> bytes \<Rightarrow> bytes \<times> nat" where
  "push_chars buf pos [] = (buf, pos)"
| "push_chars buf pos (c # cs) =
     (if pos < length buf then push_chars (buf[pos := c]) (pos + 1) cs else push_chars buf pos cs)"

definition HEX :: bytes where "HEX = bstr ''0123456789abcdef''"

text \<open>Digit \<open>i\<close> of \<open>v\<close>, counted from the lowest.\<close>

definition hex_at :: "u32 \<Rightarrow> nat \<Rightarrow> u8" where
  "hex_at v i = HEX ! unat (drop_bit (i * 4) v AND 0xF)"

definition byte_hex :: "u8 \<Rightarrow> bytes" where
  "byte_hex b = [HEX ! unat (drop_bit 4 b), HEX ! unat (b AND 0xF)]"

definition guid_chars :: "guid \<Rightarrow> bytes" where
  "guid_chars g =
     map (hex_at (g_d1 g)) (rev [0..<8]) @ [45] @ map (hex_at (ucast (g_d2 g))) (rev [0..<4]) @ [45]
     @ map (hex_at (ucast (g_d3 g))) (rev [0..<4]) @ [45]
     @ concat (map (\<lambda>j. byte_hex (g_d4 g ! j)) [0..<2]) @ [45] @ concat (map (\<lambda>j. byte_hex (g_d4 g ! j)) [2..<8])"

definition guid_to_partuuid_bytes :: "guid \<Rightarrow> bytes \<Rightarrow> bytes \<times> nat" where
  "guid_to_partuuid_bytes g buf = push_chars buf 0 (guid_chars g)"

definition mbr_chars :: "guid \<Rightarrow> u32 \<Rightarrow> bytes" where
  "mbr_chars g part_num =
     (let disk_sig = from_le [g_d4 g ! 4, g_d4 g ! 5, g_d4 g ! 6, g_d4 g ! 7]
      in map (hex_at disk_sig) (rev [0..<8]) @ [45, hex_at part_num 1, hex_at part_num 0])"

definition mbr_guid_to_partuuid_bytes :: "guid \<Rightarrow> u32 \<Rightarrow> bytes \<Rightarrow> bytes \<times> nat" where
  "mbr_guid_to_partuuid_bytes g part_num buf = push_chars buf 0 (mbr_chars g part_num)"

text \<open>A formatter called on \<open>&mut buf[pos..]\<close>.\<close>

definition on_tail :: "(bytes \<Rightarrow> bytes \<times> nat) \<Rightarrow> bytes \<Rightarrow> nat \<Rightarrow> (bytes \<times> nat) option" where
  "on_tail f buf pos =
     (if pos \<le> length buf then let (t, n) = f (drop pos buf) in Some (take pos buf @ t, n) else None)"

text \<open>The digits of \<open>v\<close>, lowest first: \<open>while v > 0 && dpos < 20\<close>.\<close>

fun low_digits :: "nat \<Rightarrow> u64 \<Rightarrow> bytes" where
  "low_digits 0 v = []"
| "low_digits (Suc n) v = (if v > 0 then (48 + ucast (v mod 10)) # low_digits n (v div 10) else [])"

definition write_u64_decimal :: "bytes \<Rightarrow> nat \<Rightarrow> u64 \<Rightarrow> bytes \<times> nat" where
  "write_u64_decimal buf pos v =
     (if v = 0 then (if pos < length buf then (buf[pos := 48], 1) else (buf, 0))
      else let (buf1, pos1) = push_chars buf pos (rev (low_digits 20 v)) in (buf1, pos1 - pos))"

section \<open>The parameters\<close>

definition partuuid_write :: "iso_location \<Rightarrow> bytes \<Rightarrow> nat \<Rightarrow> (bytes \<times> nat) option" where
  "partuuid_write loc buf pos =
     on_tail (if is_mbr loc then mbr_guid_to_partuuid_bytes (partition_guid loc) (partition_number loc)
              else guid_to_partuuid_bytes (partition_guid loc)) buf pos"

text \<open>
  A step of \<open>append_choosable_params_slice\<close>: \<open>Inl\<close> is its early return (with the buffer as it is
  then), \<open>Inr\<close> goes on with the buffer and the position.
\<close>

type_synonym write_step = "(bytes + bytes \<times> nat) option"

definition and_then :: "write_step \<Rightarrow> (bytes \<Rightarrow> nat \<Rightarrow> write_step) \<Rightarrow> write_step" where
  "and_then m f = do { r \<leftarrow> m; case r of Inl b \<Rightarrow> Some (Inl b) | Inr (b, pos) \<Rightarrow> f b pos }"

text \<open>\<open>if pos + chunk.len() + need > buf_len { return start_pos; }\<close>, the chunk and its value.\<close>

definition param_write :: "bytes \<Rightarrow> nat \<Rightarrow> (bytes \<Rightarrow> nat \<Rightarrow> (bytes \<times> nat) option) \<Rightarrow> bytes \<Rightarrow> nat \<Rightarrow> write_step" where
  "param_write chunk need val buf pos =
     (if pos + length chunk + need > length buf then Some (Inl buf)
      else do {
        (b1, n1) \<leftarrow> copy_at buf pos chunk;
        (b2, n2) \<leftarrow> val b1 (pos + n1);
        Some (Inr (b2, pos + n1 + n2)) })"

definition decimal_write :: "u64 \<Rightarrow> bytes \<Rightarrow> nat \<Rightarrow> (bytes \<times> nat) option" where
  "decimal_write v buf pos = Some (write_u64_decimal buf pos v)"

definition append_choosable_params_slice :: "bytes \<Rightarrow> nat \<Rightarrow> iso_location \<Rightarrow> (bytes \<times> nat) option" where
  "append_choosable_params_slice buf start_pos loc = do {
     path \<leftarrow> path_without_leading_slash loc;
     r \<leftarrow> and_then (and_then (and_then (and_then
         (param_write (bstr '' choosable.part_guid='') (if is_mbr loc then 11 else 36) (partuuid_write loc) buf start_pos)
         (param_write (bstr '' choosable.part_num='') 10 (decimal_write (ucast (partition_number loc)))))
         (param_write (bstr '' choosable.iso_offset='') 20 (decimal_write (offset_bytes loc))))
         (\<lambda>b pos. if path = [] then Some (Inr (b, pos))
            else param_write (bstr '' choosable.iso_path='') (length path) (\<lambda>b1 pos1. copy_at b1 pos1 path) b pos))
         (param_write (bstr '' choosable.iso_size='') 20 (decimal_write (il_file_size loc)));
     Some (case r of Inl b \<Rightarrow> (b, start_pos) | Inr s \<Rightarrow> s) }"

definition kind_chunk :: "boot_kind \<Rightarrow> bytes" where
  "kind_chunk k =
     (case k of
        Casper \<Rightarrow> bstr '' boot=casper live-media=/dev/choosable-live maybe-ubiquity init=/init.choosable''
      | DebianLive \<Rightarrow> bstr '' boot=live live-media=/dev/choosable-live live-media-path=/live init=/init.choosable''
      | FedoraLive \<Rightarrow> bstr '' root=live:/dev/choosable-live rd.live.image rd.live.dir=/LiveOS rd.live.squashimg=squashfs.img rootdelay=10 init=/init.choosable''
      | ArchIso \<Rightarrow> bstr '' archisodevice=LABEL=CHOOSABLE archisobasedir=arch copytoram init=/init.choosable''
      | Alpine \<Rightarrow> bstr '' init=/init.choosable''
      | AlpinePremount \<Rightarrow> bstr '' init=/init.choosable''
      | WindowsPE \<Rightarrow> []
      | Unknown \<Rightarrow> bstr '' boot=casper maybe-ubiquity init=/init.choosable'')"

text \<open>The \<open>match self\<close>: the buffer and position, or \<open>None\<close> of the source inside.\<close>

definition kind_write :: "boot_kind \<Rightarrow> iso_location option \<Rightarrow> bytes \<Rightarrow> (bytes \<times> nat) option option" where
  "kind_write k iso_loc buf =
     (case (k, iso_loc) of
        (WindowsPE, _) \<Rightarrow> Some (Some (buf, 0))
      | (ArchIso, Some loc) \<Rightarrow> do {
          let chunk = bstr '' archisodevice=/dev/disk/by-partuuid/'';
          if length chunk + (if is_mbr loc then 11 else 36) > length buf then Some None
          else do {
            (b1, n1) \<leftarrow> copy_at buf 0 chunk;
            (b2, n2) \<leftarrow> partuuid_write loc b1 n1;
            let chunk2 = bstr '' archisobasedir=arch copytoram init=/init.choosable'';
            if n1 + n2 + length chunk2 > length buf then Some None
            else do {
              (b3, n3) \<leftarrow> copy_at b2 (n1 + n2) chunk2;
              Some (Some (b3, n1 + n2 + n3)) } } }
      | _ \<Rightarrow>
          if length (kind_chunk k) > length buf then Some None
          else map_option Some (copy_at buf 0 (kind_chunk k)))"

definition linux_extra :: "boot_kind \<Rightarrow> bool \<Rightarrow> iso_location option \<Rightarrow> bytes \<Rightarrow> bytes option option" where
  "linux_extra k is_popos iso_loc buf = do {
     w \<leftarrow> kind_write k iso_loc buf;
     case w of
       None \<Rightarrow> Some None
     | Some (b, pos) \<Rightarrow>
         (case iso_loc of
            None \<Rightarrow> map_option Some (slice b 0 pos)
          | Some loc \<Rightarrow> do {
              (b1, new_pos) \<leftarrow> append_choosable_params_slice b pos loc;
              if new_pos = pos then Some None else map_option Some (slice b1 0 new_pos) }) }"

section \<open>ISO 9660 names\<close>

text \<open>Which boot configuration an ISO ships; \<open>NoLoader\<close> is \<open>None_\<close>.\<close>

datatype bootloader_type = Grub | NoLoader

record boot_descriptor =
  bd_boot_kind :: boot_kind
  bd_bootloader :: bootloader_type

definition name_matches :: "bytes \<Rightarrow> bytes \<Rightarrow> bool" where
  "name_matches iso_name pattern \<longleftrightarrow> length iso_name = length pattern \<and>
     list_all (\<lambda>(a, b). a OR 0x20 = b OR 0x20) (zip iso_name pattern)"

definition name_starts_with :: "bytes \<Rightarrow> bytes \<Rightarrow> bool" where
  "name_starts_with iso_name pattern \<longleftrightarrow> length pattern \<le> length iso_name \<and>
     list_all (\<lambda>(a, b). a OR 0x20 = b OR 0x20) (zip (take (length pattern) iso_name) pattern)"

section \<open>What has been written\<close>

text \<open>The buffer of \<open>N\<close> bytes holds \<open>txt\<close> in front of \<open>pos\<close>.\<close>

definition wr :: "bytes \<Rightarrow> nat \<Rightarrow> bytes \<Rightarrow> nat \<Rightarrow> bool" where
  "wr buf pos txt N \<longleftrightarrow> length buf = N \<and> pos = length txt \<and> pos \<le> N \<and> take pos buf = txt"

lemma wr_start: "wr buf 0 [] (length buf)"
  by (simp add: wr_def)

lemma copy_at_fits:
  assumes "wr buf pos txt N" and "pos + length src \<le> N"
  shows "\<exists>b. copy_at buf pos src = Some (b, length src) \<and> wr b (pos + length src) (txt @ src) N"
proof -
  have m: "min (length src) (length buf - pos) = length src" using assms by (simp add: wr_def)
  show ?thesis using assms by (auto simp: copy_at_def m bounds_simps wr_def Let_def)
qed

lemma push_chars_fits:
  "pos + length cs \<le> length buf \<Longrightarrow>
     push_chars buf pos cs = (take pos buf @ cs @ drop (pos + length cs) buf, pos + length cs)"
proof (induction cs arbitrary: buf pos)
  case (Cons c cs)
  then have l: "pos < length buf" by simp
  have t: "take (Suc pos) (buf[pos := c]) = take pos buf @ [c]" using l by (simp add: take_Suc_conv_app_nth)
  show ?case using Cons.IH [of "Suc pos" "buf[pos := c]"] Cons.prems l by (simp add: t)
qed simp

lemma push_chars_wr:
  "wr buf pos txt N \<Longrightarrow> pos + length cs \<le> N \<Longrightarrow>
     \<exists>b. push_chars buf pos cs = (b, pos + length cs) \<and> wr b (pos + length cs) (txt @ cs) N"
  by (auto simp: wr_def push_chars_fits)

lemma on_tail_fits:
  assumes "wr buf pos txt N" and "pos + length cs \<le> N" and "f = (\<lambda>b. push_chars b 0 cs)"
  shows "\<exists>b. on_tail f buf pos = Some (b, length cs) \<and> wr b (pos + length cs) (txt @ cs) N"
  using assms by (auto simp: on_tail_def wr_def push_chars_fits)

definition partuuid_text :: "iso_location \<Rightarrow> bytes" where
  "partuuid_text loc = (if is_mbr loc then mbr_chars (partition_guid loc) (partition_number loc) else guid_chars (partition_guid loc))"

lemma byte_hex_length: "length (concat (map (\<lambda>j. byte_hex (f j)) js)) = 2 * length js"
  by (induction js) (simp_all add: byte_hex_def)

lemma partuuid_text_length: "length (partuuid_text loc) = (if is_mbr loc then 11 else 36)"
  by (simp add: partuuid_text_def mbr_chars_def guid_chars_def byte_hex_length del: upt_rec_numeral)

lemma partuuid_write_fits:
  assumes "wr buf pos txt N" and "pos + (if is_mbr loc then 11 else 36) \<le> N"
  shows "\<exists>b. partuuid_write loc buf pos = Some (b, if is_mbr loc then 11 else 36) \<and>
    wr b (pos + (if is_mbr loc then 11 else 36)) (txt @ partuuid_text loc) N"
proof -
  have f: "(if is_mbr loc then mbr_guid_to_partuuid_bytes (partition_guid loc) (partition_number loc)
      else guid_to_partuuid_bytes (partition_guid loc)) = (\<lambda>b. push_chars b 0 (partuuid_text loc))"
    by (auto simp: partuuid_text_def mbr_guid_to_partuuid_bytes_def guid_to_partuuid_bytes_def)
  have l: "pos + length (partuuid_text loc) \<le> N" using assms(2) by (simp add: partuuid_text_length)
  show ?thesis using on_tail_fits [OF assms(1) l f] unfolding partuuid_write_def by (simp add: partuuid_text_length)
qed

text \<open>The decimal digits are those of the kernel's \<open>format_u64\<close>.\<close>

lemma format_low_digits: "format_digits n v buf = rev (low_digits n v) @ buf"
  by (induction n arbitrary: v buf) (simp_all add: add.commute)

lemma write_u64_fits:
  assumes "wr buf pos txt N" and "pos + 20 \<le> N \<or> pos + length (format_u64 v) \<le> N"
  shows "\<exists>b. write_u64_decimal buf pos v = (b, length (format_u64 v)) \<and> wr b (pos + length (format_u64 v)) (txt @ format_u64 v) N"
proof -
  have l: "pos + length (format_u64 v) \<le> N" using assms(2) format_u64_value [of v] by auto
  show ?thesis
  proof (cases "v = 0")
    case True
    have "format_u64 0 = [48]" by code_simp
    then show ?thesis using assms(1) l True
      by (auto simp: write_u64_decimal_def wr_def take_Suc_conv_app_nth)
  next
    case False
    have d: "rev (low_digits 20 v) = format_u64 v" using False by (simp add: format_u64_def format_low_digits)
    obtain b where "push_chars buf pos (format_u64 v) = (b, pos + length (format_u64 v))"
      "wr b (pos + length (format_u64 v)) (txt @ format_u64 v) N" using push_chars_wr [OF assms(1) l] by blast
    then show ?thesis using False by (simp add: write_u64_decimal_def d)
  qed
qed

definition params_text :: "iso_location \<Rightarrow> bytes \<Rightarrow> bytes" where
  "params_text loc path =
     bstr '' choosable.part_guid='' @ partuuid_text loc
     @ bstr '' choosable.part_num='' @ format_u64 (ucast (partition_number loc))
     @ bstr '' choosable.iso_offset='' @ format_u64 (offset_bytes loc)
     @ (if path = [] then [] else bstr '' choosable.iso_path='' @ path)
     @ bstr '' choosable.iso_size='' @ format_u64 (il_file_size loc)"

lemma part_num_digits: "length (format_u64 (ucast (n :: u32))) \<le> 10"
proof -
  have "unat (ucast n :: u64) = unat n" by (simp add: unsigned_ucast_eq take_bit_nat_eq_self less_trans [OF unsigned_less])
  moreover have "unat n < 10 ^ 10" using unsigned_less [of n, where ?'a = nat] by simp
  ultimately show ?thesis using format_u64_value [of "ucast n"] by simp
qed

section \<open>Chains of writes\<close>

definition wrote :: "write_step \<Rightarrow> bytes \<Rightarrow> nat \<Rightarrow> bool" where
  "wrote m txt N \<longleftrightarrow> (\<exists>r. m = Some r \<and> (case r of Inl b \<Rightarrow> length b = N | Inr (b, pos) \<Rightarrow> wr b pos txt N))"

definition goes_on :: "write_step \<Rightarrow> bool" where
  "goes_on m \<longleftrightarrow> (\<exists>s. m = Some (Inr s))"

lemma wrote_and_then:
  "wrote m txt N \<Longrightarrow> (\<And>b pos. wr b pos txt N \<Longrightarrow> wrote (f b pos) txt' N) \<Longrightarrow> wrote (and_then m f) txt' N"
proof -
  assume "wrote m txt N" and f: "\<And>b pos. wr b pos txt N \<Longrightarrow> wrote (f b pos) txt' N"
  then obtain r where r: "m = Some r" "case r of Inl b \<Rightarrow> length b = N | Inr (b, pos) \<Rightarrow> wr b pos txt N"
    by (auto simp: wrote_def)
  then show ?thesis using f by (cases r) (auto simp: and_then_def wrote_def)
qed

lemma goes_on_and_then:
  "goes_on m \<Longrightarrow> wrote m txt N \<Longrightarrow> (\<And>b pos. wr b pos txt N \<Longrightarrow> goes_on (f b pos)) \<Longrightarrow> goes_on (and_then m f)"
  by (auto simp: wrote_def goes_on_def and_then_def)

text \<open>A value writer that fits in \<open>need\<close> bytes.\<close>

definition writes :: "(bytes \<Rightarrow> nat \<Rightarrow> (bytes \<times> nat) option) \<Rightarrow> nat \<Rightarrow> bytes \<Rightarrow> bool" where
  "writes val need x \<longleftrightarrow> (\<forall>buf pos txt N. wr buf pos txt N \<longrightarrow> pos + need \<le> N \<longrightarrow>
     (\<exists>b. val buf pos = Some (b, length x) \<and> wr b (pos + length x) (txt @ x) N))"

lemma param_write_wrote:
  assumes "wr buf pos txt N" and "writes val need x"
  shows "wrote (param_write chunk need val buf pos) (txt @ chunk @ x) N"
proof (cases "pos + length chunk + need > length buf")
  case True
  then show ?thesis using assms(1) by (simp add: param_write_def wrote_def wr_def)
next
  case False
  then have l: "pos + length chunk + need \<le> N" using assms(1) by (simp add: wr_def)
  obtain b where b: "copy_at buf pos chunk = Some (b, length chunk)" "wr b (pos + length chunk) (txt @ chunk) N"
    using copy_at_fits [OF assms(1), of chunk] l by auto
  obtain b2 where "val b (pos + length chunk) = Some (b2, length x)"
    "wr b2 (pos + length chunk + length x) ((txt @ chunk) @ x) N"
    using assms(2) b(2) l unfolding writes_def by blast
  then show ?thesis using False b(1) by (simp add: param_write_def wrote_def)
qed

lemma param_write_goes_on:
  assumes "wr buf pos txt N" and "writes val need x" and "pos + length chunk + need \<le> N"
  shows "goes_on (param_write chunk need val buf pos)"
  using param_write_wrote [OF assms(1,2), of chunk] assms(1,3)
  by (auto simp: wrote_def goes_on_def param_write_def wr_def split: Option.bind_splits)

lemma writes_partuuid: "writes (partuuid_write loc) (if is_mbr loc then 11 else 36) (partuuid_text loc)"
  using partuuid_write_fits [of _ _ _ _ loc] unfolding writes_def partuuid_text_length by blast

lemma writes_decimal: "length (format_u64 v) \<le> need \<Longrightarrow> writes (decimal_write v) need (format_u64 v)"
  using write_u64_fits [of _ _ _ _ v] unfolding writes_def decimal_write_def by fastforce

lemma writes_copy: "writes (\<lambda>b pos. copy_at b pos x) (length x) x"
  using copy_at_fits unfolding writes_def by blast

lemma writes_num: "writes (decimal_write (ucast (n :: u32))) 10 (format_u64 (ucast n))"
  by (rule writes_decimal) (rule part_num_digits)

lemma writes_u64: "writes (decimal_write v) 20 (format_u64 v)"
  by (rule writes_decimal) (use format_u64_value in auto)

text \<open>
  \<open>append_choosable_params_slice\<close>: no panic, and either the early return or the whole text; with 19
  bytes to spare it is the whole text.
\<close>

lemma append_params:
  assumes w: "wr buf pos txt N" and p: "path_without_leading_slash loc = Some path"
  shows "\<exists>b pos'. append_choosable_params_slice buf pos loc = Some (b, pos') \<and>
    (pos' = pos \<or> wr b pos' (txt @ params_text loc path) N) \<and>
    (pos + length (params_text loc path) + 19 \<le> N \<longrightarrow> wr b pos' (txt @ params_text loc path) N)"
proof -
  define m1 where "m1 = param_write (bstr '' choosable.part_guid='') (if is_mbr loc then 11 else 36) (partuuid_write loc) buf pos"
  define m2 where "m2 = and_then m1 (param_write (bstr '' choosable.part_num='') 10 (decimal_write (ucast (partition_number loc))))"
  define m3 where "m3 = and_then m2 (param_write (bstr '' choosable.iso_offset='') 20 (decimal_write (offset_bytes loc)))"
  define f4 where "f4 = (\<lambda>b pos. if path = [] then Some (Inr (b, pos))
    else param_write (bstr '' choosable.iso_path='') (length path) (\<lambda>b1 pos1. copy_at b1 pos1 path) b pos)"
  define m4 where "m4 = and_then m3 f4"
  define m5 where "m5 = and_then m4 (param_write (bstr '' choosable.iso_size='') 20 (decimal_write (il_file_size loc)))"
  define t1 where "t1 = txt @ bstr '' choosable.part_guid='' @ partuuid_text loc"
  define t2 where "t2 = t1 @ bstr '' choosable.part_num='' @ format_u64 (ucast (partition_number loc))"
  define t3 where "t3 = t2 @ bstr '' choosable.iso_offset='' @ format_u64 (offset_bytes loc)"
  define t4 where "t4 = t3 @ (if path = [] then [] else bstr '' choosable.iso_path='' @ path)"
  define t5 where "t5 = t4 @ bstr '' choosable.iso_size='' @ format_u64 (il_file_size loc)"
  have t5: "t5 = txt @ params_text loc path"
    by (simp add: t5_def t4_def t3_def t2_def t1_def params_text_def)
  have w1: "wrote m1 t1 N" unfolding m1_def t1_def by (rule param_write_wrote [OF w writes_partuuid])
  have w2: "wrote m2 t2 N" unfolding m2_def t2_def
    by (rule wrote_and_then [OF w1]) (rule param_write_wrote [OF _ writes_num])
  have w3: "wrote m3 t3 N" unfolding m3_def t3_def
    by (rule wrote_and_then [OF w2]) (rule param_write_wrote [OF _ writes_u64])
  have w4: "wrote m4 t4 N" unfolding m4_def t4_def f4_def
    by (rule wrote_and_then [OF w3]) (auto simp: wrote_def intro!: param_write_wrote [OF _ writes_copy, unfolded wrote_def])
  have w5: "wrote m5 t5 N" unfolding m5_def t5_def
    by (rule wrote_and_then [OF w4]) (rule param_write_wrote [OF _ writes_u64])
  have g: "goes_on m5" if fit: "pos + length (params_text loc path) + 19 \<le> N"
  proof -
    have ne: "1 \<le> length (format_u64 v)" for v using format_u64_value [of v] by (simp add: Suc_le_eq)
    have lt: "length txt = pos" using w by (simp add: wr_def)
    have "t5 = txt @ params_text loc path" by (rule t5)
    note len = t5_def t4_def t3_def t2_def t1_def
    have L: "length t5 + 19 \<le> N" unfolding t5 using fit lt by simp
    have g1: "goes_on m1" unfolding m1_def
      by (rule param_write_goes_on [OF w writes_partuuid]) (use L lt ne in \<open>auto simp: len partuuid_text_length\<close>)
    have g2: "goes_on m2" unfolding m2_def
      by (rule goes_on_and_then [OF g1 w1], rule param_write_goes_on [OF _ writes_num], assumption)
        (use L ne [of "offset_bytes loc"] in \<open>auto simp: len wr_def\<close>)
    have g3: "goes_on m3" unfolding m3_def
      by (rule goes_on_and_then [OF g2 w2], rule param_write_goes_on [OF _ writes_u64], assumption)
        (use L ne [of "offset_bytes loc"] ne [of "il_file_size loc"] in \<open>auto simp: len wr_def\<close>)
    have f4: "goes_on (f4 b pos)" if "wr b pos t3 N" for b pos
    proof (cases "path = []")
      case True
      then show ?thesis by (simp add: f4_def goes_on_def)
    next
      case False
      have "goes_on (param_write (bstr '' choosable.iso_path='') (length path) (\<lambda>b1 pos1. copy_at b1 pos1 path) b pos)"
        by (rule param_write_goes_on [OF that writes_copy]) (use L that False in \<open>auto simp: t5_def t4_def wr_def\<close>)
      then show ?thesis using False by (simp add: f4_def)
    qed
    have g4: "goes_on m4" unfolding m4_def by (rule goes_on_and_then [OF g3 w3 f4])
    show ?thesis unfolding m5_def
      by (rule goes_on_and_then [OF g4 w4], rule param_write_goes_on [OF _ writes_u64], assumption)
        (use L ne [of "il_file_size loc"] in \<open>auto simp: t5_def wr_def\<close>)
  qed
  have run: "append_choosable_params_slice buf pos loc = map_option (\<lambda>r. case r of Inl b \<Rightarrow> (b, pos) | Inr s \<Rightarrow> s) m5"
    unfolding append_choosable_params_slice_def p bind.bind_lunit m5_def m4_def m3_def m2_def m1_def f4_def
    by (simp add: map_conv_bind_option comp_def)
  obtain r where r: "m5 = Some r" "case r of Inl b \<Rightarrow> length b = N | Inr (b, pos') \<Rightarrow> wr b pos' t5 N"
    using w5 by (auto simp: wrote_def)
  show ?thesis using r g unfolding run t5 by (cases r) (auto simp: goes_on_def)
qed

section \<open>The whole command line extension\<close>

definition kind_text :: "boot_kind \<Rightarrow> iso_location option \<Rightarrow> bytes" where
  "kind_text k iso_loc =
     (case (k, iso_loc) of
        (ArchIso, Some loc) \<Rightarrow> bstr '' archisodevice=/dev/disk/by-partuuid/'' @ partuuid_text loc
          @ bstr '' archisobasedir=arch copytoram init=/init.choosable''
      | _ \<Rightarrow> kind_chunk k)"

definition extra_text :: "boot_kind \<Rightarrow> iso_location option \<Rightarrow> bytes" where
  "extra_text k iso_loc = kind_text k iso_loc
     @ (case iso_loc of None \<Rightarrow> [] | Some loc \<Rightarrow> params_text loc (the (path_without_leading_slash loc)))"

lemma chunk_write:
  "if length c > length buf then True else \<exists>b. copy_at buf 0 c = Some (b, length c) \<and> wr b (length c) c (length buf)"
  using copy_at_fits [OF wr_start [of buf], of c] by auto

lemma arch_write:
  "\<exists>r. kind_write ArchIso (Some loc) buf = Some r \<and>
     (case r of None \<Rightarrow> length (kind_text ArchIso (Some loc)) > length buf
      | Some (b, pos) \<Rightarrow> wr b pos (kind_text ArchIso (Some loc)) (length buf))"
proof -
  let ?c1 = "bstr '' archisodevice=/dev/disk/by-partuuid/''"
  let ?c2 = "bstr '' archisobasedir=arch copytoram init=/init.choosable''"
  let ?u = "if is_mbr loc then 11 else 36 :: nat"
  have t: "kind_text ArchIso (Some loc) = (?c1 @ partuuid_text loc) @ ?c2" by (simp add: kind_text_def)
  have lt: "length (kind_text ArchIso (Some loc)) = length ?c1 + ?u + length ?c2" by (simp only: t length_append partuuid_text_length)
  show ?thesis
  proof (cases "length ?c1 + ?u \<le> length buf")
    case False
    then have "kind_write ArchIso (Some loc) buf = Some None" by (simp add: kind_write_def)
    then show ?thesis using False by (intro exI [of _ None]) (simp only: option.case lt simp_thms)
  next
    case True
    obtain b1 where b1: "copy_at buf 0 ?c1 = Some (b1, length ?c1)" "wr b1 (length ?c1) ?c1 (length buf)"
      using chunk_write [of buf ?c1] True by (auto split: if_splits)
    obtain b2 where b2: "partuuid_write loc b1 (length ?c1) = Some (b2, ?u)"
      "wr b2 (length ?c1 + ?u) (?c1 @ partuuid_text loc) (length buf)"
      using partuuid_write_fits [OF b1(2)] True by blast
    have run: "kind_write ArchIso (Some loc) buf = (if length ?c1 + ?u + length ?c2 > length buf then Some None
        else do { (b3, n3) \<leftarrow> copy_at b2 (length ?c1 + ?u) ?c2; Some (Some (b3, length ?c1 + ?u + n3)) })"
      unfolding kind_write_def using True b1(1) b2(1) by (simp add: Let_def del: bstr_length)
    show ?thesis
    proof (cases "length ?c1 + ?u + length ?c2 > length buf")
      case True
      then show ?thesis unfolding run lt by (intro exI [of _ None]) (simp del: bstr_length)
    next
      case False
      then obtain b3 where "copy_at b2 (length ?c1 + ?u) ?c2 = Some (b3, length ?c2)"
        "wr b3 (length ?c1 + ?u + length ?c2) ((?c1 @ partuuid_text loc) @ ?c2) (length buf)"
        using copy_at_fits [OF b2(2), of ?c2] by (meson not_less)
      then show ?thesis using False unfolding run t by (simp del: bstr_length append_assoc)
    qed
  qed
qed

lemma kind_write_ok:
  "\<exists>r. kind_write k iso_loc buf = Some r \<and>
     (case r of None \<Rightarrow> length (kind_text k iso_loc) > length buf | Some (b, pos) \<Rightarrow> wr b pos (kind_text k iso_loc) (length buf))"
proof (cases "k = ArchIso \<and> iso_loc \<noteq> None")
  case True
  then show ?thesis using arch_write by auto
next
  case False
  then have t: "kind_text k iso_loc = kind_chunk k" by (auto simp: kind_text_def split: boot_kind.splits option.splits)
  show ?thesis
  proof (cases "k = WindowsPE")
    case True
    then show ?thesis by (auto simp: kind_write_def wr_start kind_text_def kind_chunk_def)
  next
    case w: False
    have run: "kind_write k iso_loc buf = (if length (kind_chunk k) > length buf then Some None
        else map_option Some (copy_at buf 0 (kind_chunk k)))"
      using False w by (auto simp: kind_write_def split: boot_kind.splits option.splits)
    show ?thesis unfolding run t using chunk_write [of buf "kind_chunk k"] by (auto split: if_splits)
  qed
qed

lemma linux_extra_run:
  assumes "\<And>loc. iso_loc = Some loc \<Longrightarrow> file_path_len loc \<le> length (file_path loc)"
  shows "\<exists>r. linux_extra k popos iso_loc buf = Some r \<and>
    (r = None \<or> r = Some (extra_text k iso_loc) \<and> length (extra_text k iso_loc) \<le> length buf) \<and>
    (length (extra_text k iso_loc) + 19 \<le> length buf \<longrightarrow> r \<noteq> None)"
proof -
  obtain r where r: "kind_write k iso_loc buf = Some r"
    "case r of None \<Rightarrow> length (kind_text k iso_loc) > length buf | Some (b, pos) \<Rightarrow> wr b pos (kind_text k iso_loc) (length buf)"
    using kind_write_ok by blast
  show ?thesis
  proof (cases r)
    case None
    then show ?thesis using r by (simp add: linux_extra_def extra_text_def)
  next
    case (Some bp)
    then obtain b pos where b: "kind_write k iso_loc buf = Some (Some (b, pos))" "wr b pos (kind_text k iso_loc) (length buf)"
      using r by (cases bp) auto
    show ?thesis
    proof (cases iso_loc)
      case None
      then show ?thesis using b by (auto simp: linux_extra_def extra_text_def wr_def bounds_simps)
    next
      case (Some loc)
      then have "file_path_len loc \<le> length (file_path loc)" by (rule assms)
      then obtain path where p: "path_without_leading_slash loc = Some path"
        by (simp add: path_without_leading_slash_def location_path_def bounds_simps)
      obtain b1 pos1 where a: "append_choosable_params_slice b pos loc = Some (b1, pos1)"
        "pos1 = pos \<or> wr b1 pos1 (kind_text k iso_loc @ params_text loc path) (length buf)"
        "pos + length (params_text loc path) + 19 \<le> length buf \<longrightarrow> wr b1 pos1 (kind_text k iso_loc @ params_text loc path) (length buf)"
        using append_params [OF b(2) p] by blast
      have t: "extra_text k iso_loc = kind_text k iso_loc @ params_text loc path" by (simp add: extra_text_def Some p)
      have ne: "params_text loc path \<noteq> []" by (simp add: params_text_def bstr_def)
      have lp: "pos = length (kind_text k iso_loc)" using b(2) by (simp add: wr_def)
      show ?thesis
      proof (cases "pos1 = pos")
        case True
        then have "linux_extra k popos iso_loc buf = Some None" using b(1) a(1) Some by (simp add: linux_extra_def)
        moreover have "\<not> length (extra_text k iso_loc) + 19 \<le> length buf"
          using a(3) True ne lp unfolding t by (auto simp: wr_def)
        ultimately show ?thesis by simp
      next
        case False
        then have w: "wr b1 pos1 (extra_text k iso_loc) (length buf)" using a(2) t by simp
        then have "linux_extra k popos iso_loc buf = Some (Some (extra_text k iso_loc))"
          using b(1) a(1) Some False by (auto simp: linux_extra_def wr_def bounds_simps)
        then show ?thesis using w by (simp add: wr_def)
      qed
    qed
  qed
qed

text \<open>C31: the kernel command line is written whole or not at all: \<open>linux_extra\<close> never panics for any
  buffer, family and location; what it returns is exactly the family's parameters followed by the
  choosable ones, it fits the buffer, and 19 spare bytes are enough for it to be returned.\<close>

theorem linux_extra_whole:
  assumes "\<And>loc. iso_loc = Some loc \<Longrightarrow> file_path_len loc \<le> length (file_path loc)"
  shows "\<exists>r. linux_extra k popos iso_loc buf = Some r \<and>
    (r = None \<or> r = Some (extra_text k iso_loc) \<and> length (extra_text k iso_loc) \<le> length buf) \<and>
    (length (extra_text k iso_loc) + 19 \<le> length buf \<longrightarrow> r \<noteq> None)"
  by (rule linux_extra_run [OF assms])

definition sample_loc :: iso_location where
  "sample_loc = \<lparr>partition_guid = \<lparr>g_d1 = 0x11111111, g_d2 = 0x2222, g_d3 = 0x3333,
       g_d4 = [0x44, 0x55, 0x66, 0x77, 0x88, 0x99, 0xAA, 0xBB]\<rparr>,
     partition_number = 2, is_mbr = False, file_path = bstr ''/ubuntu.iso'', file_path_len = 11,
     il_file_size = 2000000000, il_part1_lba = 2048, il_iso_lba = 100000\<rparr>"

lemma linux_extra_whole_witness:
  "linux_extra Casper False (Some sample_loc) (replicate 512 0) = Some (Some (extra_text Casper (Some sample_loc)))"
proof -
  have "length (extra_text Casper (Some sample_loc)) + 19 \<le> length (replicate 512 (0 :: u8))" by code_simp
  with linux_extra_whole [of "Some sample_loc" Casper False "replicate 512 0"] show ?thesis
    by (auto simp: sample_loc_def)
qed

end
