(* ===== verification/PremountInit.thy ===== *)
theory PremountInit
  imports EfiBootKind
begin

text \<open>
  The kernel command line parser of \<open>/init.choosable\<close> (\<open>premount-init/src/main.rs\<close>,
  \<open>parse_cmdline\<close>), and what it reads back from the parameters the UEFI loader wrote.
\<close>

definition MAX_OFFSET :: nat where "MAX_OFFSET = 512 * 4294967296"

record cmdline_params =
  cp_iso_offset :: "u64 option"
  cp_part_guid :: "bytes option"
  cp_part_num :: "u32 option"
  cp_iso_path :: "bytes option"
  cp_iso_size :: "u64 option"

definition no_params :: cmdline_params where
  "no_params = \<lparr>cp_iso_offset = None, cp_part_guid = None, cp_part_num = None, cp_iso_path = None, cp_iso_size = None\<rparr>"

section \<open>Tokens\<close>

definition is_ws :: "u8 \<Rightarrow> bool" where
  "is_ws c \<longleftrightarrow> c = 32 \<or> c = 9 \<or> c = 10"

text \<open>The outer loop: skip blanks, take a token.\<close>

function tokens :: "bytes \<Rightarrow> bytes list" where
  "tokens buf =
     (let rest = dropWhile is_ws buf
      in if rest = [] then []
         else takeWhile (\<lambda>c. \<not> is_ws c) rest # tokens (dropWhile (\<lambda>c. \<not> is_ws c) rest))"
  by pat_completeness auto
termination
proof (relation "measure length")
  fix buf :: bytes and rest
  assume r: "rest = dropWhile is_ws buf" "rest \<noteq> []"
  then obtain c cs where c: "rest = c # cs" "\<not> is_ws c" by (metis hd_dropWhile list.exhaust_sel)
  have "length (dropWhile (\<lambda>c. \<not> is_ws c) rest) \<le> length cs" using c by (simp add: length_dropWhile_le)
  also have "\<dots> < length rest" using c by simp
  also have "\<dots> \<le> length buf" using r(1) by (simp add: length_dropWhile_le)
  finally show "(dropWhile (\<lambda>c. \<not> is_ws c) rest, buf) \<in> measure length" by simp
qed simp

declare tokens.simps [simp del]

text \<open>\<open>position(|&b| b == b'=')\<close> and the two sides.\<close>

definition split_token :: "bytes \<Rightarrow> (bytes \<times> bytes) option" where
  "split_token t = (let key = takeWhile (\<lambda>c. c \<noteq> 61) t
     in if length key < length t then Some (key, drop (length key + 1) t) else None)"

section \<open>Values\<close>

text \<open>The digit loops, saturating at the width; a character that is no digit ends them with 0.\<close>

fun parse_number :: "nat \<Rightarrow> bytes \<Rightarrow> nat \<Rightarrow> nat" where
  "parse_number limit [] v = v"
| "parse_number limit (b # bs) v =
     (if b < 48 \<or> b > 57 then 0
      else parse_number limit bs (min limit (min limit (v * 10) + unat (b - 48))))"

text \<open>\<open>str::from_utf8\<close>: the well-formed sequences of the Unicode standard.\<close>

definition cont_byte :: "u8 \<Rightarrow> bool" where
  "cont_byte b \<longleftrightarrow> 0x80 \<le> b \<and> b \<le> 0xBF"

fun utf8_valid :: "bytes \<Rightarrow> bool" where
  "utf8_valid [] = True"
| "utf8_valid (a # s) =
     (if a < 0x80 then utf8_valid s
      else if 0xC2 \<le> a \<and> a \<le> 0xDF then
        (case s of b # s1 \<Rightarrow> cont_byte b \<and> utf8_valid s1 | _ \<Rightarrow> False)
      else if 0xE0 \<le> a \<and> a \<le> 0xEF then
        (case s of b # c # s1 \<Rightarrow>
             (if a = 0xE0 then 0xA0 \<le> b \<and> b \<le> 0xBF else if a = 0xED then 0x80 \<le> b \<and> b \<le> 0x9F else cont_byte b)
             \<and> cont_byte c \<and> utf8_valid s1
         | _ \<Rightarrow> False)
      else if 0xF0 \<le> a \<and> a \<le> 0xF4 then
        (case s of b # c # d # s1 \<Rightarrow>
             (if a = 0xF0 then 0x90 \<le> b \<and> b \<le> 0xBF else if a = 0xF4 then 0x80 \<le> b \<and> b \<le> 0x8F else cont_byte b)
             \<and> cont_byte c \<and> cont_byte d \<and> utf8_valid s1
         | _ \<Rightarrow> False)
      else False)"

text \<open>
  \<open>to_lowercase\<close> as far as the next test can see: of the characters outside ASCII only the
  Kelvin sign (E2 84 AA) has an ASCII lower case, k; every other one stays outside and fails the test.
\<close>

fun lowercase :: "bytes \<Rightarrow> bytes" where
  "lowercase (a # b # c # s) =
     (if a = 0xE2 \<and> b = 0x84 \<and> c = 0xAA then 107 # lowercase s else to_ascii_lowercase a # lowercase (b # c # s))"
| "lowercase (a # s) = to_ascii_lowercase a # lowercase s"
| "lowercase [] = []"

definition guid_char :: "u8 \<Rightarrow> bool" where
  "guid_char c \<longleftrightarrow> (48 \<le> c \<and> c \<le> 57) \<or> (65 \<le> c \<and> c \<le> 90) \<or> (97 \<le> c \<and> c \<le> 122) \<or> c = 45"

section \<open>The parameters\<close>

definition apply_param :: "bytes \<Rightarrow> bytes \<Rightarrow> cmdline_params \<Rightarrow> cmdline_params" where
  "apply_param key val p =
     (if key = bstr ''choosable.iso_offset'' then
        (let v = parse_number USIZE_MAX val 0
         in if v > 0 \<and> v \<le> MAX_OFFSET then p\<lparr>cp_iso_offset := Some (word_of_nat v)\<rparr> else p)
      else if key = bstr ''choosable.part_guid'' then
        (if utf8_valid val \<and> list_all guid_char (lowercase val) then p\<lparr>cp_part_guid := Some (lowercase val)\<rparr> else p)
      else if key = bstr ''choosable.part_num'' then
        (let v = parse_number (2 ^ 32 - 1) val 0
         in if v > 0 then p\<lparr>cp_part_num := Some (word_of_nat v)\<rparr> else p)
      else if key = bstr ''choosable.iso_path'' then
        (if utf8_valid val then p\<lparr>cp_iso_path := Some val\<rparr> else p)
      else if key = bstr ''choosable.iso_size'' then
        (let v = parse_number USIZE_MAX val 0
         in if v > 0 then p\<lparr>cp_iso_size := Some (word_of_nat v)\<rparr> else p)
      else p)"

definition apply_token :: "bytes \<Rightarrow> cmdline_params \<Rightarrow> cmdline_params" where
  "apply_token t p = (case split_token t of None \<Rightarrow> p | Some (key, val) \<Rightarrow> apply_param key val p)"

text \<open>The content of \<open>/proc/cmdline\<close>, or \<open>None\<close> when it cannot be opened or read.\<close>

definition parse_cmdline :: "bytes option \<Rightarrow> cmdline_params" where
  "parse_cmdline f = (case f of None \<Rightarrow> no_params | Some buf \<Rightarrow> fold apply_token (tokens buf) no_params)"

section \<open>Tokens of a concatenation\<close>

lemma tokens_Nil [simp]: "tokens [] = []"
  by (subst tokens.simps) simp

lemma tokens_ws: "is_ws c \<Longrightarrow> tokens (c # cs) = tokens cs"
  by (subst (1 2) tokens.simps) simp

text \<open>A word of non-blanks, then the end or a blank.\<close>

definition word :: "bytes \<Rightarrow> bool" where
  "word t \<longleftrightarrow> t \<noteq> [] \<and> list_all (\<lambda>c. \<not> is_ws c) t"

definition ends :: "bytes \<Rightarrow> bool" where
  "ends ys \<longleftrightarrow> (case ys of [] \<Rightarrow> True | c # _ \<Rightarrow> is_ws c)"

lemma span_word:
  "list_all (\<lambda>c. \<not> is_ws c) t \<Longrightarrow> ends ys \<Longrightarrow>
     takeWhile (\<lambda>c. \<not> is_ws c) (t @ ys) = t \<and> dropWhile (\<lambda>c. \<not> is_ws c) (t @ ys) = ys"
  by (induction t) (auto simp: ends_def split: list.splits)

lemma tokens_word: "word t \<Longrightarrow> ends ys \<Longrightarrow> tokens (t @ ys) = t # tokens ys"
proof -
  assume w: "word t" and e: "ends ys"
  then have d: "dropWhile is_ws (t @ ys) = t @ ys" by (cases t) (auto simp: word_def)
  have "tokens (t @ ys) = takeWhile (\<lambda>c. \<not> is_ws c) (t @ ys) # tokens (dropWhile (\<lambda>c. \<not> is_ws c) (t @ ys))"
    using w by (subst tokens.simps) (simp add: d word_def Let_def)
  then show ?thesis using span_word [of t ys] w e by (simp add: word_def)
qed

lemma tokens_append: "ends ys \<Longrightarrow> tokens (xs @ ys) = tokens xs @ tokens ys"
proof (induction xs rule: tokens.induct)
  case (1 buf)
  let ?rest = "dropWhile is_ws buf"
  show ?case
  proof (cases "?rest = []")
    case True
    then have ws: "list_all is_ws buf" by (simp add: list_all_iff dropWhile_eq_Nil_conv)
    then have "tokens (buf @ ys) = tokens ys" by (induction buf) (simp_all add: tokens_ws)
    then show ?thesis using True by (subst (2) tokens.simps) simp
  next
    case False
    have skip: "tokens (xs @ zs) = tokens (dropWhile is_ws xs @ zs)" for xs zs
      by (induction xs) (simp_all add: tokens_ws)
    let ?t = "takeWhile (\<lambda>c. \<not> is_ws c) ?rest" and ?r = "dropWhile (\<lambda>c. \<not> is_ws c) ?rest"
    have w: "word ?t" using False hd_dropWhile [OF False]
      by (cases ?rest) (auto simp: word_def list_all_iff dest: set_takeWhileD)
    have e: "ends (?r @ ys)"
    proof (cases ?r)
      case Nil
      then show ?thesis using 1(2) by (simp only: append_Nil)
    next
      case (Cons c cs)
      then have "is_ws c" using hd_dropWhile [of "\<lambda>c. \<not> is_ws c" ?rest] by simp
      then show ?thesis by (simp add: Cons ends_def)
    qed
    have "?rest @ ys = ?t @ (?r @ ys)" by (simp only: append_assoc [symmetric] takeWhile_dropWhile_id)
    then have "tokens (buf @ ys) = tokens (?t @ (?r @ ys))" using skip [of buf ys] by (simp only:)
    also have "\<dots> = ?t # tokens (?r @ ys)" by (rule tokens_word [OF w e])
    also have "\<dots> = ?t # tokens ?r @ tokens ys" using 1(1) [OF refl False 1(2)] by simp
    moreover have "tokens buf = ?t # tokens ?r" using False by (subst tokens.simps) (simp add: Let_def)
    ultimately show ?thesis by simp
  qed
qed

text \<open>Words each led by a blank.\<close>

definition spaced :: "bytes list \<Rightarrow> bytes" where
  "spaced ts = concat (map ((#) 32) ts)"

lemma spaced_simps [simp]: "spaced [] = []" "spaced (t # ts) = 32 # t @ spaced ts"
  by (simp_all add: spaced_def)

lemma ends_spaced: "ends (spaced ts)"
  by (cases ts) (simp_all add: ends_def is_ws_def)

lemma tokens_spaced: "list_all word ts \<Longrightarrow> tokens (spaced ts) = ts"
proof (induction ts)
  case (Cons t ts)
  have "is_ws 32" by (simp add: is_ws_def)
  then show ?case using Cons tokens_word [of t "spaced ts"] ends_spaced [of ts] by (simp add: tokens_ws)
qed simp

section \<open>What the loader writes is words\<close>

definition kind_strings :: "boot_kind \<Rightarrow> string list" where
  "kind_strings k =
     (case k of
        Casper \<Rightarrow> [''boot=casper'', ''live-media=/dev/choosable-live'', ''maybe-ubiquity'', ''init=/init.choosable'']
      | DebianLive \<Rightarrow> [''boot=live'', ''live-media=/dev/choosable-live'', ''live-media-path=/live'', ''init=/init.choosable'']
      | FedoraLive \<Rightarrow> [''root=live:/dev/choosable-live'', ''rd.live.image'', ''rd.live.dir=/LiveOS'',
          ''rd.live.squashimg=squashfs.img'', ''rootdelay=10'', ''init=/init.choosable'']
      | ArchIso \<Rightarrow> [''archisodevice=LABEL=CHOOSABLE'', ''archisobasedir=arch'', ''copytoram'', ''init=/init.choosable'']
      | Alpine \<Rightarrow> [''init=/init.choosable''] | AlpinePremount \<Rightarrow> [''init=/init.choosable''] | WindowsPE \<Rightarrow> []
      | Unknown \<Rightarrow> [''boot=casper'', ''maybe-ubiquity'', ''init=/init.choosable''])"

definition kind_words :: "boot_kind \<Rightarrow> iso_location option \<Rightarrow> bytes list" where
  "kind_words k iso_loc =
     (case (k, iso_loc) of
        (ArchIso, Some loc) \<Rightarrow> [bstr ''archisodevice=/dev/disk/by-partuuid/'' @ partuuid_text loc,
          bstr ''archisobasedir=arch'', bstr ''copytoram'', bstr ''init=/init.choosable'']
      | _ \<Rightarrow> map bstr (kind_strings k))"

definition param_words :: "iso_location \<Rightarrow> bytes \<Rightarrow> bytes list" where
  "param_words loc path =
     [bstr ''choosable.part_guid='' @ partuuid_text loc,
      bstr ''choosable.part_num='' @ format_u64 (ucast (partition_number loc)),
      bstr ''choosable.iso_offset='' @ format_u64 (offset_bytes loc)]
     @ (if path = [] then [] else [bstr ''choosable.iso_path='' @ path])
     @ [bstr ''choosable.iso_size='' @ format_u64 (il_file_size loc)]"

lemma bstr_blank: "bstr (CHR '' '' # s) = 32 # bstr s"
  by (simp add: bstr_def)

lemma params_text_words: "params_text loc path = spaced (param_words loc path)"
  by (simp add: params_text_def param_words_def bstr_blank)

lemma bstr_word: "s \<noteq> [] \<Longrightarrow> list_all (\<lambda>c. \<not> is_ws c) (bstr s) \<Longrightarrow> word (bstr s)"
  by (simp add: word_def bstr_def)

lemma word_append: "word t \<Longrightarrow> list_all (\<lambda>c. \<not> is_ws c) u \<Longrightarrow> word (t @ u)"
  by (simp add: word_def)

lemma digits_no_ws: "list_all is_digit ds \<Longrightarrow> list_all (\<lambda>c. \<not> is_ws c) ds"
  by (auto simp: list_all_iff is_digit_def is_ws_def)

definition uuid_char :: "u8 \<Rightarrow> bool" where
  "uuid_char c \<longleftrightarrow> (48 \<le> c \<and> c \<le> 57) \<or> (97 \<le> c \<and> c \<le> 102) \<or> c = 45"

lemma HEX_char: "n < 16 \<Longrightarrow> uuid_char (HEX ! n)"
proof -
  have "\<forall>n\<in>set [0..<16]. uuid_char (HEX ! n)" by code_simp
  then show "n < 16 \<Longrightarrow> ?thesis" by simp
qed

lemma unat_and_15: "unat (x AND 0xF :: 'a::len word) < 16"
proof -
  have "x AND 0xF = take_bit 4 x" by (simp add: take_bit_eq_mask mask_eq_exp_minus_1)
  moreover have "unat (take_bit 4 x) < 2 ^ 4" unfolding unsigned_take_bit_eq by (rule take_bit_nat_less_exp)
  ultimately show ?thesis by simp
qed

lemma partuuid_chars: "list_all uuid_char (partuuid_text loc)"
proof -
  have h: "uuid_char (hex_at v i)" for v i by (simp add: hex_at_def HEX_char unat_and_15)
  have "unat (drop_bit 4 b) < 16" for b :: u8
    using unsigned_less [of b, where ?'a = nat] by (simp add: drop_bit_eq_div unat_div less_mult_imp_div_less)
  then have b: "list_all uuid_char (byte_hex b)" for b by (simp add: byte_hex_def HEX_char unat_and_15)
  have d: "uuid_char 45" by (simp add: uuid_char_def)
  show ?thesis using h b d
    by (auto simp: partuuid_text_def mbr_chars_def guid_chars_def list_all_iff Let_def simp del: upt_rec_numeral)
qed

lemma uuid_no_ws: "list_all uuid_char t \<Longrightarrow> list_all (\<lambda>c. \<not> is_ws c) t"
  by (auto simp: list_all_iff uuid_char_def is_ws_def)

section \<open>Reading the parameters back\<close>

lemma parse_number_value:
  "list_all is_digit ds \<Longrightarrow> dec_value ds v \<le> limit \<Longrightarrow> parse_number limit ds v = dec_value ds v"
proof (induction ds arbitrary: v)
  case (Cons d ds)
  have d: "48 \<le> d" "d \<le> 57" using Cons.prems(1) by (auto simp: is_digit_def)
  have u: "unat (d - 48) = unat d - 48" using d(1) by (simp add: unat_sub)
  have "v * 10 + (unat d - 48) \<le> limit"
    using dec_value_mono [of "v * 10 + (unat d - 48)" ds] Cons.prems(2) by simp
  then have m: "min limit (min limit (v * 10) + unat (d - 48)) = v * 10 + (unat d - 48)" using u by simp
  show ?case using Cons.IH [of "v * 10 + (unat d - 48)"] Cons.prems d by (auto simp: m)
qed simp

lemma parse_number_format: "unat v \<le> limit \<Longrightarrow> parse_number limit (format_u64 v) 0 = unat v"
  using parse_number_value [of "format_u64 v" 0 limit] format_u64_value [of v] by simp

lemma split_token_eq: "61 \<notin> set key \<Longrightarrow> split_token (key @ 61 # val) = Some (key, val)"
proof -
  assume "61 \<notin> set key"
  then have "takeWhile (\<lambda>c. c \<noteq> 61) (key @ 61 # val) = key" by (simp add: takeWhile_append2 takeWhile_append)
  then show ?thesis by (simp add: split_token_def Let_def)
qed

lemma bstr_eq_append: "bstr (s @ ''='') @ val = bstr s @ 61 # val"
  by (simp add: bstr_def)

lemma uuid_char_facts: "uuid_char a \<Longrightarrow> a < 0x80 \<and> to_ascii_lowercase a = a \<and> guid_char a \<and> a \<noteq> 0xE2"
proof -
  assume "uuid_char a"
  then have u: "(48 \<le> unat a \<and> unat a \<le> 57) \<or> (97 \<le> unat a \<and> unat a \<le> 102) \<or> unat a = 45"
    by (auto simp: uuid_char_def word_le_nat_alt)
  then have "a < 0x80" "\<not> (65 \<le> a \<and> a \<le> 90)" by (auto simp: word_less_nat_alt word_le_nat_alt)
  then show ?thesis using \<open>uuid_char a\<close> u
    by (auto simp: to_ascii_lowercase_def guid_char_def uuid_char_def word_le_nat_alt)
qed

lemma uuid_lowercase: "list_all uuid_char t \<Longrightarrow> lowercase t = t"
  by (induction t rule: lowercase.induct) (simp_all add: uuid_char_facts)

lemma uuid_utf8: "list_all uuid_char t \<Longrightarrow> utf8_valid t \<and> list_all guid_char t"
  by (induction t) (simp_all add: uuid_char_facts)

text \<open>What each word does to the parameters.\<close>

lemma apply_token_key: "61 \<notin> set (bstr key) \<Longrightarrow> apply_token (bstr key @ 61 # val) p = apply_param (bstr key) val p"
  by (simp add: apply_token_def split_token_eq)

lemma apply_guid:
  "list_all uuid_char t \<Longrightarrow> apply_param (bstr ''choosable.part_guid'') t p = p\<lparr>cp_part_guid := Some t\<rparr>"
  by (simp add: apply_param_def uuid_utf8 uuid_lowercase bstr_def)

lemma apply_offset:
  "apply_param (bstr ''choosable.iso_offset'') (format_u64 v) p =
     (if 0 < v \<and> unat v \<le> MAX_OFFSET then p\<lparr>cp_iso_offset := Some v\<rparr> else p)"
proof -
  have "unat v \<le> USIZE_MAX" using unsigned_less [of v, where ?'a = nat] by (simp add: USIZE_MAX_def)
  then show ?thesis by (simp add: apply_param_def parse_number_format word_less_nat_alt)
qed

lemma apply_size:
  "apply_param (bstr ''choosable.iso_size'') (format_u64 v) p = (if 0 < v then p\<lparr>cp_iso_size := Some v\<rparr> else p)"
proof -
  have "unat v \<le> USIZE_MAX" using unsigned_less [of v, where ?'a = nat] by (simp add: USIZE_MAX_def)
  then show ?thesis by (simp add: apply_param_def parse_number_format word_less_nat_alt bstr_def)
qed

lemma apply_num:
  "apply_param (bstr ''choosable.part_num'') (format_u64 (ucast (n :: u32))) p = (if 0 < n then p\<lparr>cp_part_num := Some n\<rparr> else p)"
proof -
  have u: "unat (ucast n :: u64) = unat n"
    by (simp add: unsigned_ucast_eq take_bit_nat_eq_self less_trans [OF unsigned_less])
  have "unat (ucast n :: u64) \<le> 2 ^ 32 - 1" using unsigned_less [of n, where ?'a = nat] by (simp add: u)
  then show ?thesis by (simp add: apply_param_def parse_number_format u word_less_nat_alt bstr_def)
qed

lemma apply_path:
  "utf8_valid path \<Longrightarrow> apply_param (bstr ''choosable.iso_path'') path p = p\<lparr>cp_iso_path := Some path\<rparr>"
  by (simp add: apply_param_def bstr_def)

text \<open>Tokens of other programs.\<close>

definition choosable_keys :: "bytes list" where
  "choosable_keys = [bstr ''choosable.iso_offset'', bstr ''choosable.part_guid'', bstr ''choosable.part_num'',
     bstr ''choosable.iso_path'', bstr ''choosable.iso_size'']"

definition foreign :: "bytes \<Rightarrow> bool" where
  "foreign t \<longleftrightarrow> (case split_token t of None \<Rightarrow> True | Some (key, _) \<Rightarrow> key \<notin> set choosable_keys)"

lemma foreign_apply: "foreign t \<Longrightarrow> apply_token t p = p"
  by (auto simp: foreign_def apply_token_def apply_param_def choosable_keys_def split: option.splits)

lemma foreign_fold: "list_all foreign ts \<Longrightarrow> fold apply_token ts p = p"
  by (induction ts arbitrary: p) (simp_all add: foreign_apply)

text \<open>The words of the family parameters.\<close>

lemma foreign_head: "take 2 t \<noteq> bstr ''ch'' \<Longrightarrow> foreign t"
proof (rule ccontr)
  assume h: "take 2 t \<noteq> bstr ''ch''" and "\<not> foreign t"
  then obtain key val where "split_token t = Some (key, val)" "key \<in> set choosable_keys"
    by (auto simp: foreign_def split: option.splits)
  then have k: "key = takeWhile (\<lambda>c. c \<noteq> 61) t" "take 2 key = bstr ''ch''" "2 \<le> length key"
    by (auto simp: split_token_def choosable_keys_def bstr_def Let_def split: if_splits)
  then have "take 2 t = take 2 (key @ dropWhile (\<lambda>c. c \<noteq> 61) t)" by simp
  also have "\<dots> = take 2 key" using k(3) by simp
  finally show False using h k(2) by simp
qed

lemma kind_chunk_words:
  "kind_chunk k = spaced (map bstr (kind_strings k)) \<and> list_all word (map bstr (kind_strings k)) \<and>
   list_all foreign (map bstr (kind_strings k))"
proof -
  have "kind_chunk k = spaced (map bstr (kind_strings k))"
    by (cases k) (simp_all add: kind_chunk_def kind_strings_def bstr_def)
  moreover have "list_all word (map bstr (kind_strings k))"
    by (cases k) (simp_all add: kind_strings_def word_def is_ws_def bstr_def)
  moreover have "list_all (\<lambda>t. take 2 t \<noteq> bstr ''ch'') (map bstr (kind_strings k))"
    by (cases k) (simp_all add: kind_strings_def bstr_def)
  ultimately show ?thesis using foreign_head by (auto simp: list_all_iff)
qed

lemma arch_words:
  "kind_text ArchIso (Some loc) = spaced (kind_words ArchIso (Some loc)) \<and>
   list_all word (kind_words ArchIso (Some loc)) \<and> list_all foreign (kind_words ArchIso (Some loc))"
proof -
  let ?p = "bstr ''archisodevice=/dev/disk/by-partuuid/''"
  let ?ws = "[bstr ''archisobasedir=arch'', bstr ''copytoram'', bstr ''init=/init.choosable'']"
  have k: "kind_words ArchIso (Some loc) = (?p @ partuuid_text loc) # ?ws" by (simp add: kind_words_def)
  have "kind_text ArchIso (Some loc) = spaced (kind_words ArchIso (Some loc))"
    by (simp add: k kind_text_def bstr_def)
  moreover have "word ?p" "list_all word ?ws" by (simp_all add: word_def is_ws_def bstr_def)
  moreover have "foreign (?p @ partuuid_text loc)" "list_all (\<lambda>t. take 2 t \<noteq> bstr ''ch'') ?ws"
    by (simp_all add: foreign_head bstr_def)
  ultimately show ?thesis using uuid_no_ws [OF partuuid_chars, of loc] foreign_head
    by (simp add: k word_append)
qed

lemma kind_text_words:
  "kind_text k (Some loc) = spaced (kind_words k (Some loc)) \<and> list_all word (kind_words k (Some loc)) \<and>
   list_all foreign (kind_words k (Some loc))"
proof (cases "k = ArchIso")
  case True
  then show ?thesis using arch_words by simp
next
  case False
  then have "kind_text k (Some loc) = kind_chunk k" "kind_words k (Some loc) = map bstr (kind_strings k)"
    by (cases k; simp add: kind_text_def kind_words_def)+
  then show ?thesis using kind_chunk_words [of k] by simp
qed

lemma param_words_ok:
  assumes "list_all (\<lambda>c. \<not> is_ws c) path"
  shows "list_all word (param_words loc path)"
proof -
  have w: "word (bstr ''choosable.part_guid='')" "word (bstr ''choosable.part_num='')" "word (bstr ''choosable.iso_offset='')"
    "word (bstr ''choosable.iso_path='')" "word (bstr ''choosable.iso_size='')" by code_simp+
  have d: "list_all (\<lambda>c. \<not> is_ws c) (format_u64 v)" for v by (rule digits_no_ws) (use format_u64_value in auto)
  show ?thesis using w d assms uuid_no_ws [OF partuuid_chars, of loc] by (simp add: param_words_def word_append)
qed

text \<open>The parameters of a location, as the reader understands them.\<close>

definition location_params :: "iso_location \<Rightarrow> bytes \<Rightarrow> cmdline_params" where
  "location_params loc path =
     \<lparr>cp_iso_offset = (if 0 < offset_bytes loc \<and> unat (offset_bytes loc) \<le> MAX_OFFSET then Some (offset_bytes loc) else None),
      cp_part_guid = Some (partuuid_text loc),
      cp_part_num = (if 0 < partition_number loc then Some (partition_number loc) else None),
      cp_iso_path = (if path = [] then None else Some path),
      cp_iso_size = (if 0 < il_file_size loc then Some (il_file_size loc) else None)\<rparr>"

lemma fold_param_words:
  assumes "utf8_valid path"
  shows "fold apply_token (param_words loc path) no_params = location_params loc path"
proof -
  have n: "61 \<notin> set (bstr ''choosable.part_guid'')" "61 \<notin> set (bstr ''choosable.part_num'')"
    "61 \<notin> set (bstr ''choosable.iso_offset'')" "61 \<notin> set (bstr ''choosable.iso_path'')"
    "61 \<notin> set (bstr ''choosable.iso_size'')" by code_simp+
  have e: "bstr ''choosable.part_guid='' @ v = bstr ''choosable.part_guid'' @ 61 # v"
    "bstr ''choosable.part_num='' @ v = bstr ''choosable.part_num'' @ 61 # v"
    "bstr ''choosable.iso_offset='' @ v = bstr ''choosable.iso_offset'' @ 61 # v"
    "bstr ''choosable.iso_path='' @ v = bstr ''choosable.iso_path'' @ 61 # v"
    "bstr ''choosable.iso_size='' @ v = bstr ''choosable.iso_size'' @ 61 # v" for v by (simp_all add: bstr_def)
  show ?thesis
    unfolding param_words_def e
    by (simp add: apply_token_key n apply_guid [OF partuuid_chars] apply_num apply_offset apply_size apply_path [OF assms])
      (simp add: no_params_def location_params_def)
qed

lemma cmdline_read:
  assumes "linux_extra k popos (Some loc) buf = Some (Some s)" and "file_path_len loc \<le> length (file_path loc)"
    and "path_without_leading_slash loc = Some path" and "list_all (\<lambda>c. \<not> is_ws c) path" and "utf8_valid path"
    and "list_all foreign (tokens pre)" and "list_all foreign (tokens post)" and "ends post"
  shows "parse_cmdline (Some (pre @ s @ post)) = location_params loc path"
proof -
  have "\<exists>r. linux_extra k popos (Some loc) buf = Some r \<and> (r = None \<or> r = Some (extra_text k (Some loc)))"
    using linux_extra_run [of "Some loc" k popos buf] assms(2) by auto
  then have s: "s = extra_text k (Some loc)" using assms(1) by auto
  define ws where "ws = kind_words k (Some loc) @ param_words loc path"
  have sp: "s = spaced ws" using kind_text_words [of k loc] assms(3)
    by (simp add: s extra_text_def params_text_words ws_def spaced_def)
  have w: "list_all word ws" using kind_text_words [of k loc] param_words_ok [OF assms(4)] by (simp add: ws_def)
  have e: "ends (s @ post)" using assms(8) ends_spaced [of ws] unfolding sp
    by (cases ws) (simp_all add: ends_def is_ws_def)
  have "tokens (pre @ s @ post) = tokens pre @ ws @ tokens post"
    using tokens_append [OF e, of pre] tokens_append [OF assms(8), of s] tokens_spaced [OF w] by (simp add: sp)
  moreover have "list_all foreign (kind_words k (Some loc))" using kind_text_words [of k loc] by simp
  ultimately show ?thesis using assms(6,7) fold_param_words [OF assms(5)]
    by (simp add: parse_cmdline_def foreign_fold ws_def)
qed

text \<open>C13: what the UEFI loader writes on the kernel command line is what \<open>/init.choosable\<close> reads from
  it: for every family and every location whose path has no blank, in front of and behind parameters of
  others, the parser returns the partition's UUID and number, the byte offset, the size and the path of the
  ISO; only an offset past 2 TiB or a zero is dropped.\<close>

theorem cmdline_roundtrip:
  assumes "linux_extra k popos (Some loc) buf = Some (Some s)" and "file_path_len loc \<le> length (file_path loc)"
    and "path_without_leading_slash loc = Some path" and "list_all (\<lambda>c. \<not> is_ws c) path" and "utf8_valid path"
    and "list_all foreign (tokens pre)" and "list_all foreign (tokens post)" and "ends post"
  shows "parse_cmdline (Some (pre @ s @ post)) = location_params loc path"
  by (rule cmdline_read [OF assms])

lemma cmdline_roundtrip_witness:
  "parse_cmdline (Some (bstr ''BOOT_IMAGE=/casper/vmlinuz quiet'' @ extra_text Casper (Some sample_loc) @ bstr '' ---'')) =
     \<lparr>cp_iso_offset = Some 50151424, cp_part_guid = Some (bstr ''11111111-2222-3333-4455-66778899aabb''),
      cp_part_num = Some 2, cp_iso_path = Some (bstr ''ubuntu.iso''), cp_iso_size = Some 2000000000\<rparr>"
proof -
  have "length (extra_text Casper (Some sample_loc)) + 19 \<le> length (replicate 512 (0 :: u8))" by code_simp
  then have x: "linux_extra Casper False (Some sample_loc) (replicate 512 0) = Some (Some (extra_text Casper (Some sample_loc)))"
    using linux_extra_run [of "Some sample_loc" Casper False "replicate 512 0"] by (auto simp: sample_loc_def)
  have p: "path_without_leading_slash sample_loc = Some (bstr ''ubuntu.iso'')" by code_simp
  have l: "file_path_len sample_loc \<le> length (file_path sample_loc)" by (simp add: sample_loc_def)
  have c: "list_all (\<lambda>c. \<not> is_ws c) (bstr ''ubuntu.iso'')" "utf8_valid (bstr ''ubuntu.iso'')"
    "list_all foreign (tokens (bstr ''BOOT_IMAGE=/casper/vmlinuz quiet''))" "list_all foreign (tokens (bstr '' ---''))"
    "ends (bstr '' ---'')" by code_simp+
  have "location_params sample_loc (bstr ''ubuntu.iso'') =
     \<lparr>cp_iso_offset = Some 50151424, cp_part_guid = Some (bstr ''11111111-2222-3333-4455-66778899aabb''),
      cp_part_num = Some 2, cp_iso_path = Some (bstr ''ubuntu.iso''), cp_iso_size = Some 2000000000\<rparr>"
  proof -
    have "partuuid_text sample_loc = bstr ''11111111-2222-3333-4455-66778899aabb''" by code_simp
    then show ?thesis by (simp add: location_params_def sample_loc_def offset_bytes_def MAX_OFFSET_def bstr_def)
  qed
  with cmdline_roundtrip [OF x l p c] show ?thesis by simp
qed

end
