(* ===== verification/EfiGrub.thy ===== *)
theory EfiGrub
  imports PremountInit
begin

text \<open>
  The GRUB configuration patcher of the UEFI loader (\<open>efi/src/strategy.rs\<close>). The output buffer
  \<open>out\<close> with its fill level \<open>dst\<close> is the list of the bytes in use; the capacity is a number,
  and a write past it panics. Bytes beyond \<open>dst\<close> are never read by the code.
\<close>

section \<open>Lines and patterns\<close>

definition is_blank :: "u8 \<Rightarrow> bool" where
  "is_blank c \<longleftrightarrow> c = 32 \<or> c = 9"

definition is_break :: "u8 \<Rightarrow> bool" where
  "is_break c \<longleftrightarrow> c = 32 \<or> c = 9 \<or> c = 10 \<or> c = 13"

definition trim_start :: "bytes \<Rightarrow> bytes" where
  "trim_start line = dropWhile is_blank line"

definition has_prefix :: "bytes \<Rightarrow> bytes \<Rightarrow> bool" where
  "has_prefix t p \<longleftrightarrow> take (length p) t = p"

definition is_linux :: "bytes \<Rightarrow> bool" where
  "is_linux t \<longleftrightarrow> has_prefix t (bstr ''linux '') \<or> has_prefix t (bstr ''linux'' @ [9]) \<or>
     has_prefix t (bstr ''linuxefi '') \<or> has_prefix t (bstr ''linuxefi'' @ [9])"

definition is_initrd :: "bytes \<Rightarrow> bool" where
  "is_initrd t \<longleftrightarrow> has_prefix t (bstr ''initrd '') \<or> has_prefix t (bstr ''initrd'' @ [9]) \<or>
     has_prefix t (bstr ''initrdefi '') \<or> has_prefix t (bstr ''initrdefi'' @ [9])"

definition is_options :: "bytes \<Rightarrow> bool" where
  "is_options t \<longleftrightarrow> has_prefix t (bstr ''options '') \<or> has_prefix t (bstr ''options'' @ [9])"

definition is_blscfg :: "bytes \<Rightarrow> bool" where
  "is_blscfg t \<longleftrightarrow> has_prefix t (bstr ''blscfg'') \<or> has_prefix t (bstr ''blscfg'' @ [10]) \<or>
     has_prefix t (bstr ''BLSCFG'') \<or> has_prefix t (bstr ''BLSCFG'' @ [10])"

text \<open>\<open>windows(n).any(|w| w == pat)\<close> for \<open>n = pat.len() > 0\<close>.\<close>

fun contains :: "bytes \<Rightarrow> bytes \<Rightarrow> bool" where
  "contains [] p = (p = [])"
| "contains (c # cs) p = (has_prefix (c # cs) p \<or> contains cs p)"

text \<open>The windows of length 0 panic.\<close>

definition window_any :: "bytes \<Rightarrow> bytes \<Rightarrow> bool option" where
  "window_any line pat = (if pat = [] then None else Some (contains line pat))"

fun count_windows :: "bytes list \<Rightarrow> bytes \<Rightarrow> nat" where
  "count_windows pats [] = 0"
| "count_windows pats (c # cs) = (if list_ex (has_prefix (c # cs)) pats then 1 else 0) + count_windows pats cs"

text \<open>The loop over the lines of the original: up to a newline, which is skipped.\<close>

function scan_lines :: "bytes \<Rightarrow> bytes list" where
  "scan_lines orig =
     (if orig = [] then []
      else let line = takeWhile (\<lambda>c. c \<noteq> 10) orig in line # scan_lines (drop (length line + 1) orig))"
  by pat_completeness auto
termination by (relation "measure length") (auto simp: Let_def)

declare scan_lines.simps [simp del]

definition count_matching_lines :: "bytes \<Rightarrow> nat \<times> nat" where
  "count_matching_lines orig =
     (let ts = map trim_start (scan_lines orig)
      in (length (filter is_linux ts), length (filter (\<lambda>t. \<not> is_linux t \<and> is_initrd t) ts)))"

text \<open>\<open>split(|b| b == b'\n')\<close> also yields the empty piece after a final newline.\<close>

definition split_lines :: "bytes \<Rightarrow> bytes list" where
  "split_lines orig = scan_lines orig @ (if orig = [] \<or> last orig = 10 then [[]] else [])"

definition count_options :: "bytes \<Rightarrow> nat" where
  "count_options orig = length (filter is_options (map trim_start (split_lines orig)))"

section \<open>Edits of the output\<close>

text \<open>The position behind the second word of the line that starts at \<open>line_start\<close>.\<close>

definition second_arg_rest :: "bytes \<Rightarrow> bytes" where
  "second_arg_rest line = dropWhile (\<lambda>c. \<not> is_break c) (dropWhile is_blank
     (dropWhile (\<lambda>c. \<not> is_break c) (dropWhile is_blank line)))"

definition find_second_arg_end :: "nat \<Rightarrow> bytes \<Rightarrow> nat" where
  "find_second_arg_end line_start out = length out - length (second_arg_rest (drop line_start out))"

definition shift_and_inject :: "nat \<Rightarrow> bytes \<Rightarrow> nat \<Rightarrow> bytes \<Rightarrow> bytes option" where
  "shift_and_inject cap out inject_at data =
     (if length out + length data \<le> cap then Some (take inject_at out @ data @ drop inject_at out) else None)"

text \<open>\<open>windows(pat.len()).any\<close> with the lower-case bit set on the name.\<close>

fun matches_lower :: "bytes \<Rightarrow> bytes \<Rightarrow> bool" where
  "matches_lower [] pat = (pat = [])"
| "matches_lower (c # cs) pat = (has_prefix (map (\<lambda>a. a OR 0x20) (c # cs)) pat \<or> matches_lower cs pat)"

definition matches_any_lower :: "bytes \<Rightarrow> bytes list \<Rightarrow> bool" where
  "matches_any_lower name patterns \<longleftrightarrow> list_ex (matches_lower name) patterns"

definition locator_patterns :: "bytes list" where
  "locator_patterns = map bstr [''findiso='', ''iso-scan/filename='', ''choosable.iso_offset='',
     ''choosable.part_guid='', ''choosable.part_num='', ''choosable.iso_path='', ''choosable.iso_size='',
     ''root=live:'', ''archisosearchuuid='', ''archisosearchfilename='']"

text \<open>
  The two cursors of \<open>remove_iso_locator_args\<close>: the write cursor never passes the read cursor, so
  what is read is the original text.
\<close>

function strip_args :: "bytes \<Rightarrow> bytes" where
  "strip_args [] = []"
| "strip_args (c # cs) =
     (case find (has_prefix (c # cs)) locator_patterns of
        Some p \<Rightarrow> strip_args (dropWhile is_blank (dropWhile (\<lambda>c. \<not> is_break c) (drop (length p) (c # cs))))
      | None \<Rightarrow> c # strip_args cs)"
  by pat_completeness auto
termination
proof (relation "measure length")
  fix c :: u8 and cs p
  assume "find (has_prefix (c # cs)) locator_patterns = Some p"
  then have "p \<in> set locator_patterns" by (auto simp: find_Some_iff)
  then have "p \<noteq> []" by (auto simp: locator_patterns_def bstr_def)
  then have "length (drop (length p) (c # cs)) < length (c # cs)" by simp
  moreover have "length (dropWhile is_blank (dropWhile (\<lambda>c. \<not> is_break c) (drop (length p) (c # cs)))) \<le>
      length (drop (length p) (c # cs))"
    by (meson le_trans length_dropWhile_le)
  ultimately show "(dropWhile is_blank (dropWhile (\<lambda>c. \<not> is_break c) (drop (length p) (c # cs))), c # cs) \<in> measure length"
    by simp
qed simp_all

definition remove_iso_locator_args :: "bytes \<Rightarrow> nat \<Rightarrow> bytes" where
  "remove_iso_locator_args out line_start = take line_start out @ strip_args (drop line_start out)"

section \<open>The patching engine\<close>

text \<open>What \<open>patch_grub_cfg_impl\<close> computes before its loop.\<close>

record patch_env =
  pe_kind :: boot_kind
  pe_linux_extra :: bytes
  pe_eol_extra :: bytes
  pe_has_blscfg :: bool
  pe_initrd_extra :: bytes
  pe_dedup :: bytes

definition line_start :: "bytes \<Rightarrow> nat" where
  "line_start out = length out - 1 - length (takeWhile (\<lambda>c. c \<noteq> 10) (rev (butlast out)))"

definition bls_line :: "bytes \<Rightarrow> bytes" where
  "bls_line content =
     (let pl = min 11 (1024 - 16 - 2); cl = min (length content) (1024 - (16 + pl) - 2)
      in bstr ''set kernelopts='' @ [34] @ take pl (bstr ''$kernelopts'') @ take cl content @ [34, 10])"

definition strips :: "patch_env \<Rightarrow> bool" where
  "strips env \<longleftrightarrow> pe_eol_extra env \<noteq> [] \<or> pe_kind env = FedoraLive \<or> pe_kind env = ArchIso"

definition extra_content :: "patch_env \<Rightarrow> bytes" where
  "extra_content env =
     (if has_prefix (pe_linux_extra env) [32] then drop 1 (pe_linux_extra env) else pe_linux_extra env)"

text \<open>In front of the line ending; \<open>bare_cr\<close>: a carriage return alone counts.\<close>

definition before_eol :: "bool \<Rightarrow> bytes \<Rightarrow> nat" where
  "before_eol bare_cr out =
     (let dst = length out
      in if 0 < dst \<and> out ! (dst - 1) = 10 then (if 1 < dst \<and> out ! (dst - 2) = 13 then dst - 2 else dst - 1)
         else if bare_cr \<and> 0 < dst \<and> out ! (dst - 1) = 13 then dst - 1
         else dst)"

definition patch_linux :: "patch_env \<Rightarrow> nat \<Rightarrow> bytes \<Rightarrow> nat \<Rightarrow> bytes option" where
  "patch_linux env cap out ls =
     (let out1 = (if strips env then remove_iso_locator_args out ls else out);
          inject_at = find_second_arg_end ls out1
      in do {
        out2 \<leftarrow> shift_and_inject cap out1 inject_at (pe_linux_extra env);
        if pe_eol_extra env \<noteq> []
        then shift_and_inject cap out2 (inject_at + length (pe_linux_extra env)) (pe_eol_extra env)
        else Some out2 })"

definition patch_options :: "patch_env \<Rightarrow> nat \<Rightarrow> bytes \<Rightarrow> nat \<Rightarrow> bytes option" where
  "patch_options env cap out ls =
     (let out1 = remove_iso_locator_args out ls; content = extra_content env
      in if content = [] then Some out1
         else let inject_at = before_eol True out1;
                  need_space = (inject_at > ls \<and> out1 ! (inject_at - 1) \<noteq> 32 \<and> out1 ! (inject_at - 1) \<noteq> 9);
                  opt = (if need_space then [32] else []) @ content
              in if length opt \<le> 513 then shift_and_inject cap out1 inject_at opt else None)"

definition patch_line :: "patch_env \<Rightarrow> nat \<Rightarrow> bytes \<Rightarrow> bytes option" where
  "patch_line env cap out =
     (let ls = line_start out; line = drop ls out; t = trim_start line
      in do {
        lin \<leftarrow> (if is_linux t then map_option (\<lambda>dup. \<not> dup \<and> pe_linux_extra env \<noteq> []) (window_any line (pe_linux_extra env))
                else Some False);
        if lin then patch_linux env cap out ls
        else if pe_has_blscfg env \<and> is_blscfg t \<and> pe_linux_extra env \<noteq> []
        then shift_and_inject cap out ls (bls_line (pe_linux_extra env))
        else if is_options t then patch_options env cap out ls
        else if is_initrd t \<and> length (pe_dedup env) \<le> length line then do {
          dup \<leftarrow> window_any line (pe_dedup env);
          if dup then Some out else shift_and_inject cap out (before_eol False out) (pe_initrd_extra env) }
        else Some out })"

fun patch_loop :: "patch_env \<Rightarrow> nat \<Rightarrow> bytes \<Rightarrow> bytes \<Rightarrow> bytes option" where
  "patch_loop env cap [] out = Some out"
| "patch_loop env cap (ch # src) out =
     (if length out < cap then
        (if ch = 10 \<or> src = [] then do { out1 \<leftarrow> patch_line env cap (out @ [ch]); patch_loop env cap src out1 }
         else patch_loop env cap src (out @ [ch]))
      else None)"

text \<open>The dynamic argument behind the parameters: the path of the ISO for Casper and Debian Live.\<close>

definition eol_extra_dynamic :: "bytes \<Rightarrow> iso_location option \<Rightarrow> bytes option" where
  "eol_extra_dynamic eol iso_loc =
     (if eol \<noteq> [] \<and> last eol = 61 then
        (case iso_loc of
           None \<Rightarrow> Some []
         | Some loc \<Rightarrow>
             if eol = bstr '' findiso='' \<or> eol = bstr '' iso-scan/filename='' then do {
               path \<leftarrow> location_path loc;
               Some (eol @ take (min (length path) (320 - length eol)) path) }
             else Some [])
      else Some [])"

definition effective_target :: "bytes \<Rightarrow> bytes" where
  "effective_target name = (let t = (if name = [] then bstr ''PREMOUNT.CPIO'' else name) in take (min (length t) 30) t)"

definition bls_words :: "bytes list" where
  "bls_words = [bstr ''blscfg'', bstr ''BLSCFG'']"

definition patch_env_of :: "bytes \<Rightarrow> boot_kind \<Rightarrow> bytes \<Rightarrow> bytes \<Rightarrow> bytes \<Rightarrow> patch_env" where
  "patch_env_of orig k extra eol target =
     \<lparr>pe_kind = k, pe_linux_extra = extra, pe_eol_extra = eol, pe_has_blscfg = 0 < count_windows bls_words orig,
      pe_initrd_extra = [32, 47] @ effective_target target, pe_dedup = [47] @ effective_target target\<rparr>"

definition output_capacity :: "bytes \<Rightarrow> patch_env \<Rightarrow> nat" where
  "output_capacity orig env =
     (let (linux_count, initrd_count) = count_matching_lines orig; bls = count_windows bls_words orig;
          extra = linux_count * (length (pe_linux_extra env) + length (pe_eol_extra env))
            + initrd_count * length (pe_initrd_extra env)
            + (if pe_has_blscfg env then bls * (27 + length (pe_linux_extra env) + 2) else 0)
            + count_options orig * length (pe_linux_extra env)
      in length orig + extra + 256)"

text \<open>
  The outer \<open>None\<close> is a panic, the inner one the failure of the pool allocator \<open>alloc\<close>.
\<close>

definition patch_grub_cfg_impl ::
  "(nat \<Rightarrow> bool) \<Rightarrow> bytes \<Rightarrow> boot_kind \<Rightarrow> bytes \<Rightarrow> bytes \<Rightarrow> iso_location option \<Rightarrow> bytes \<Rightarrow> bytes \<Rightarrow> bytes option option" where
  "patch_grub_cfg_impl alloc orig k extra eol iso_loc target prefix = do {
     dyn \<leftarrow> eol_extra_dynamic eol iso_loc;
     let env = patch_env_of orig k extra dyn target;
     let cap = output_capacity orig env;
     if \<not> alloc cap then Some None
     else map_option Some (patch_loop env cap orig (take (min (length prefix) cap) prefix)) }"

definition patch_grub_cfg ::
  "(nat \<Rightarrow> bool) \<Rightarrow> bytes \<Rightarrow> boot_kind \<Rightarrow> bytes \<Rightarrow> iso_location option \<Rightarrow> bytes \<Rightarrow> bytes \<Rightarrow> bytes option option" where
  "patch_grub_cfg alloc orig k iso_name iso_loc target prefix =
     (let is_popos = (k = Casper \<and> matches_any_lower iso_name [bstr ''pop'', bstr ''pop-os'', bstr ''popos''])
      in do {
        r \<leftarrow> linux_extra k is_popos iso_loc (replicate 512 0);
        let extra = (case r of None \<Rightarrow> [] | Some e \<Rightarrow> e);
        patch_grub_cfg_impl alloc orig k extra (linux_eol_extra k) iso_loc target prefix })"

section \<open>The patch of one line\<close>

text \<open>What becomes of a line, as a function of the line alone.\<close>

definition patched :: "patch_env \<Rightarrow> bytes \<Rightarrow> bytes" where
  "patched env line =
     (let t = trim_start line; extra = pe_linux_extra env
      in if is_linux t \<and> \<not> contains line extra then
           (let l = (if strips env then strip_args line else line); rest = second_arg_rest l
            in take (length l - length rest) l @ extra @ pe_eol_extra env @ rest)
         else if pe_has_blscfg env \<and> is_blscfg t \<and> extra \<noteq> [] then bls_line extra @ line
         else if is_options t then
           (let l = strip_args line; k = before_eol True l
            in if extra_content env = [] then l
               else take k l @ (if 0 < k \<and> l ! (k - 1) \<noteq> 32 \<and> l ! (k - 1) \<noteq> 9 then [32] else [])
                      @ extra_content env @ drop k l)
         else if is_initrd t \<and> length (pe_dedup env) \<le> length line \<and> \<not> contains line (pe_dedup env) then
           (let k = before_eol False line in take k line @ pe_initrd_extra env @ drop k line)
         else line)"

lemma has_prefix_append: "has_prefix (p @ s) p"
  by (simp add: has_prefix_def)

lemma has_prefix_iff: "has_prefix t p \<longleftrightarrow> (\<exists>s. t = p @ s)"
  by (metis append_eq_conv_conj has_prefix_def)

text \<open>The line that ends the output.\<close>

lemma line_start_pre:
  assumes "pre = [] \<or> last pre = 10" and "line \<noteq> []" and "10 \<notin> set (butlast line)"
  shows "line_start (pre @ line) = length pre"
proof -
  have b: "butlast (pre @ line) = pre @ butlast line" using assms(2) by (simp add: butlast_append)
  have "takeWhile (\<lambda>c. c \<noteq> 10) (rev (pre @ butlast line)) = rev (butlast line)"
  proof -
    have "\<forall>c\<in>set (rev (butlast line)). c \<noteq> 10" using assms(3) by auto
    moreover have "takeWhile (\<lambda>c. c \<noteq> 10) (rev pre) = []" using assms(1) by (cases pre rule: rev_cases) auto
    ultimately show ?thesis using takeWhile_append2 [of "rev (butlast line)" "\<lambda>c. c \<noteq> 10" "rev pre"] by simp
  qed
  then have "takeWhile (\<lambda>c. c \<noteq> 10) (rev (butlast (pre @ line))) = rev (butlast line)" by (simp only: b)
  then show ?thesis using assms(2) by (simp add: line_start_def)
qed

lemma strip_args_length: "length (strip_args l) \<le> length l"
proof (induction l rule: strip_args.induct)
  case (2 c cs)
  show ?case
  proof (cases "find (has_prefix (c # cs)) locator_patterns")
    case None
    then show ?thesis using 2 by simp
  next
    case (Some p)
    have "length (dropWhile is_blank (dropWhile (\<lambda>c. \<not> is_break c) (drop (length p) (c # cs)))) \<le> length (c # cs)"
      using le_trans [OF length_dropWhile_le length_dropWhile_le, of is_blank "\<lambda>c. \<not> is_break c" "drop (length p) (c # cs)"]
      by simp
    then show ?thesis using 2(2) [OF Some] Some by simp
  qed
qed simp

text \<open>The first character of a line that starts with no pattern stays.\<close>

definition pattern_heads :: "bytes" where
  "pattern_heads = [102, 105, 99, 114, 97]"

lemma pattern_head: "p \<in> set locator_patterns \<Longrightarrow> \<exists>s. p = hd p # s \<and> hd p \<in> set pattern_heads"
  by (auto simp: locator_patterns_def pattern_heads_def bstr_def)

lemma find_pattern_None:
  assumes "c \<notin> set pattern_heads"
  shows "find (has_prefix (c # cs)) locator_patterns = None"
proof -
  have "\<not> has_prefix (c # cs) p" if "p \<in> set locator_patterns" for p
  proof
    assume "has_prefix (c # cs) p"
    then obtain s where "c # cs = p @ s" by (auto simp: has_prefix_iff)
    with pattern_head [OF that] have "c = hd p" by (metis list.sel(1) append_Cons)
    with pattern_head [OF that] assms show False by auto
  qed
  then show ?thesis by (simp add: find_None_iff)
qed

lemma strip_args_keep: "c \<notin> set pattern_heads \<Longrightarrow> strip_args (c # cs) = c # strip_args cs"
  by (simp add: find_pattern_None)

lemma second_arg_rest_suffix: "\<exists>pre. l = pre @ second_arg_rest l"
proof -
  have d: "\<exists>p. xs = p @ dropWhile P xs" for P and xs :: bytes by (metis takeWhile_dropWhile_id)
  show ?thesis
    using d [of l is_blank] d [of "dropWhile is_blank l" "\<lambda>c. \<not> is_break c"]
      d [of "dropWhile (\<lambda>c. \<not> is_break c) (dropWhile is_blank l)" is_blank]
      d [of "dropWhile is_blank (dropWhile (\<lambda>c. \<not> is_break c) (dropWhile is_blank l))" "\<lambda>c. \<not> is_break c"]
    unfolding second_arg_rest_def by (metis append.assoc)
qed

lemma second_arg_rest_length: "length (second_arg_rest l) \<le> length l"
  using second_arg_rest_suffix [of l] by (metis le_add2 length_append)

lemma second_arg_split: "take (length l - length (second_arg_rest l)) l @ second_arg_rest l = l"
  using second_arg_rest_suffix [of l] by (metis append_eq_conv_conj diff_add_inverse2 length_append append_take_drop_id)

section \<open>The loop works line by line\<close>

definition gain :: "patch_env \<Rightarrow> bytes \<Rightarrow> nat" where
  "gain env line =
     (let t = trim_start line
      in if is_linux t then length (pe_linux_extra env) + length (pe_eol_extra env)
         else if pe_has_blscfg env \<and> is_blscfg t then 29 + length (pe_linux_extra env)
         else if is_options t then length (pe_linux_extra env)
         else if is_initrd t then length (pe_initrd_extra env) else 0)"

definition env_ok :: "patch_env \<Rightarrow> bool" where
  "env_ok env \<longleftrightarrow> (pe_linux_extra env = [] \<or> hd (pe_linux_extra env) = 32) \<and> length (pe_linux_extra env) \<le> 512 \<and>
     pe_dedup env \<noteq> []"

lemma shift_and_inject_Some:
  "length out + length data \<le> cap \<Longrightarrow> shift_and_inject cap out i data = Some (take i out @ data @ drop i out)"
  by (simp add: shift_and_inject_def)

lemma remove_pre: "remove_iso_locator_args (pre @ line) (length pre) = pre @ strip_args line"
  by (simp add: remove_iso_locator_args_def)

lemma patch_linux_pre:
  assumes "l = (if strips env then strip_args line else line)"
    and "length pre + length line + length (pe_linux_extra env) + length (pe_eol_extra env) \<le> cap"
  shows "patch_linux env cap (pre @ line) (length pre) =
    Some (pre @ take (length l - length (second_arg_rest l)) l @ pe_linux_extra env @ pe_eol_extra env @ second_arg_rest l)"
proof -
  let ?r = "second_arg_rest l" and ?x = "pe_linux_extra env" and ?e = "pe_eol_extra env"
  let ?k = "length l - length ?r"
  have out1: "(if strips env then remove_iso_locator_args (pre @ line) (length pre) else pre @ line) = pre @ l"
    using assms(1) by (simp add: remove_pre)
  have ll: "length l \<le> length line" using assms(1) strip_args_length [of line] by simp
  have at: "find_second_arg_end (length pre) (pre @ l) = length pre + ?k"
    using second_arg_rest_length [of l] by (simp add: find_second_arg_end_def)
  have r: "drop ?k l = ?r" using second_arg_split [of l] by (metis append_take_drop_id same_append_eq)
  have s1: "shift_and_inject cap (pre @ l) (length pre + ?k) ?x = Some (pre @ take ?k l @ ?x @ ?r)"
    using assms(2) ll by (simp add: shift_and_inject_Some r)
  have s2: "shift_and_inject cap (pre @ take ?k l @ ?x @ ?r) (length pre + ?k + length ?x) ?e =
      Some (pre @ take ?k l @ ?x @ ?e @ ?r)"
    using assms(2) ll second_arg_rest_length [of l] by (simp add: shift_and_inject_Some)
  show ?thesis unfolding patch_linux_def out1 Let_def at using s1 s2 by simp
qed

lemma before_eol_pre:
  assumes "l \<noteq> []" and "pre = [] \<or> last pre = 10"
  shows "before_eol b (pre @ l) = length pre + before_eol b l"
proof (cases l rule: rev_cases)
  case (snoc xs c)
  then show ?thesis
    using assms(2) by (cases xs rule: rev_cases; cases pre rule: rev_cases) (auto simp: before_eol_def nth_append Let_def)
qed (use assms in simp)

lemma before_eol_le: "before_eol b l \<le> length l"
  by (simp add: before_eol_def Let_def)

lemma trim_start_cases: "trim_start line = [] \<or> \<not> is_blank (hd (trim_start line))"
  unfolding trim_start_def by (metis hd_dropWhile)

lemma is_options_hd: "is_options (trim_start line) \<Longrightarrow> strip_args line \<noteq> []"
proof -
  assume o: "is_options (trim_start line)"
  then have h: "trim_start line \<noteq> []" "hd (trim_start line) = 111"
    by (auto simp: is_options_def has_prefix_iff bstr_def)
  then obtain c cs where l: "line = c # cs" by (cases line) (auto simp: trim_start_def)
  then have "is_blank c \<or> c = 111" using h by (auto simp: trim_start_def split: if_splits)
  then have "c \<notin> set pattern_heads" by (auto simp: is_blank_def pattern_heads_def)
  then show ?thesis using l strip_args_keep by simp
qed

lemma bls_line_length: "length x \<le> 512 \<Longrightarrow> length (bls_line x) = 29 + length x"
  by (simp add: bls_line_def)

lemma extra_content_length:
  "env_ok env \<Longrightarrow> extra_content env \<noteq> [] \<Longrightarrow> Suc (length (extra_content env)) = length (pe_linux_extra env)"
  by (cases "pe_linux_extra env") (auto simp: extra_content_def env_ok_def has_prefix_def)

lemma patch_options_pre:
  assumes "env_ok env" and "is_options (trim_start line)" and "pre = [] \<or> last pre = 10"
    and "length pre + length line + length (pe_linux_extra env) \<le> cap" and "l = strip_args line" and "k = before_eol True l"
  shows "patch_options env cap (pre @ line) (length pre) = Some (pre @
    (if extra_content env = [] then l
     else take k l @ (if 0 < k \<and> l ! (k - 1) \<noteq> 32 \<and> l ! (k - 1) \<noteq> 9 then [32] else [])
       @ extra_content env @ drop k l))"
proof -
  have ne: "l \<noteq> []" using is_options_hd [OF assms(2)] assms(5) by simp
  have ll: "length l \<le> length line" using strip_args_length assms(5) by simp
  have out1: "remove_iso_locator_args (pre @ line) (length pre) = pre @ l" by (simp add: remove_pre assms(5))
  have at: "before_eol True (pre @ l) = length pre + k" using before_eol_pre [OF ne assms(3)] assms(6) by simp
  have sp: "(length pre + k > length pre \<and> (pre @ l) ! (length pre + k - 1) \<noteq> 32 \<and> (pre @ l) ! (length pre + k - 1) \<noteq> 9)
      \<longleftrightarrow> (0 < k \<and> l ! (k - 1) \<noteq> 32 \<and> l ! (k - 1) \<noteq> 9)" by (auto simp: nth_append)
  have len: "extra_content env \<noteq> [] \<Longrightarrow> Suc (length (extra_content env)) = length (pe_linux_extra env)"
    "length (pe_linux_extra env) \<le> 512"
    using extra_content_length [OF assms(1)] assms(1) by (auto simp: env_ok_def)
  show ?thesis
  proof (cases "extra_content env = []")
    case True
    then show ?thesis by (simp add: patch_options_def out1)
  next
    case False
    let ?o = "(if 0 < k \<and> l ! (k - 1) \<noteq> 32 \<and> l ! (k - 1) \<noteq> 9 then [32] else []) @ extra_content env"
    have "length ?o \<le> 513" "length (pre @ l) + length ?o \<le> cap" using len(1) [OF False] len(2) assms(4) ll by auto
    then show ?thesis
      using False shift_and_inject_Some [of "pre @ l" ?o cap "length pre + k"]
      unfolding patch_options_def Let_def out1 at sp by simp
  qed
qed

lemma kind_hd:
  "is_linux t \<Longrightarrow> hd t = 108" "is_initrd t \<Longrightarrow> hd t = 105" "is_options t \<Longrightarrow> hd t = 111"
  "is_blscfg t \<Longrightarrow> hd t = 98 \<or> hd t = 66"
  by (auto simp: is_linux_def is_initrd_def is_options_def is_blscfg_def has_prefix_iff bstr_def)

lemma line_kinds:
  "is_linux t \<Longrightarrow> \<not> is_blscfg t" "is_linux t \<Longrightarrow> \<not> is_options t" "is_linux t \<Longrightarrow> \<not> is_initrd t"
  "is_options t \<Longrightarrow> \<not> is_blscfg t" "is_initrd t \<Longrightarrow> \<not> is_blscfg t" "is_initrd t \<Longrightarrow> \<not> is_options t"
  using kind_hd [of t] by auto

lemma patch_line_pre:
  assumes "env_ok env" and "pre = [] \<or> last pre = 10" and "line \<noteq> []" and "10 \<notin> set (butlast line)"
    and "length pre + length line + gain env line \<le> cap"
    and "is_linux (trim_start line) \<Longrightarrow> pe_linux_extra env \<noteq> []"
  shows "patch_line env cap (pre @ line) = Some (pre @ patched env line)"
proof -
  let ?t = "trim_start line" and ?x = "pe_linux_extra env"
  have ls: "line_start (pre @ line) = length pre" by (rule line_start_pre [OF assms(2-4)])
  have dl: "drop (length pre) (pre @ line) = line" by simp
  have excl: "is_linux ?t \<Longrightarrow> \<not> is_blscfg ?t \<and> \<not> is_options ?t \<and> \<not> is_initrd ?t"
    using line_kinds by blast
  show ?thesis
  proof (cases "is_linux ?t")
    case True
    have x: "?x \<noteq> []" by (rule assms(6) [OF True])
    show ?thesis
    proof (cases "contains line ?x")
      case c: True
      then show ?thesis using True excl [OF True] x
        by (simp add: patch_line_def ls dl Let_def window_any_def patched_def)
    next
      case False
      have g: "length pre + length line + length ?x + length (pe_eol_extra env) \<le> cap"
        using assms(5) True by (simp add: gain_def Let_def)
      show ?thesis using True False x patch_linux_pre [OF refl g]
        by (simp add: patch_line_def ls dl Let_def window_any_def patched_def)
    qed
  next
    case nl: False
    show ?thesis
    proof (cases "pe_has_blscfg env \<and> is_blscfg ?t \<and> ?x \<noteq> []")
      case True
      then have "length (pre @ line) + length (bls_line ?x) \<le> cap"
        using assms(1,5) nl by (simp add: gain_def Let_def bls_line_length env_ok_def)
      then show ?thesis using True nl shift_and_inject_Some [of "pre @ line" "bls_line ?x" cap "length pre"]
        by (simp add: patch_line_def ls dl Let_def patched_def)
    next
      case nb: False
      show ?thesis
      proof (cases "is_options ?t")
        case True
        have nbls: "\<not> is_blscfg ?t" by (rule line_kinds(4) [OF True])
        then have g: "length pre + length line + length ?x \<le> cap" using assms(5) nl True by (simp add: gain_def Let_def)
        show ?thesis using nl nbls True patch_options_pre [OF assms(1) True assms(2) g refl refl]
          by (simp add: patch_line_def ls dl Let_def patched_def)
      next
        case no: False
        show ?thesis
        proof (cases "is_initrd ?t \<and> length (pe_dedup env) \<le> length line \<and> \<not> contains line (pe_dedup env)")
          case True
          have nbls: "\<not> is_blscfg ?t" using True line_kinds(5) by blast
          then have "length (pre @ line) + length (pe_initrd_extra env) \<le> cap"
            using assms(5) nl no True by (simp add: gain_def Let_def)
          then show ?thesis
            using nl nbls no True assms(1) before_eol_pre [OF assms(3,2), of False]
              shift_and_inject_Some [of "pre @ line" "pe_initrd_extra env" cap "length pre + before_eol False line"]
            by (simp add: patch_line_def ls dl Let_def patched_def window_any_def env_ok_def)
        next
          case False
          then show ?thesis using nl no assms(1) if_not_P [OF nb]
            by (auto simp: patch_line_def ls dl Let_def patched_def window_any_def env_ok_def)
        qed
      qed
    qed
  qed
qed

text \<open>A line keeps its newline.\<close>

lemma has_prefix_snoc: "10 \<notin> set p \<Longrightarrow> has_prefix (xs @ [10]) p = has_prefix xs p"
proof -
  assume p: "10 \<notin> set p"
  show ?thesis
  proof
    assume "has_prefix (xs @ [10]) p"
    then obtain s where s: "xs @ [10] = p @ s" by (auto simp: has_prefix_iff)
    with p obtain s' where "s = s' @ [10]" by (cases s rule: rev_cases) (auto simp: append_eq_append_conv2)
    with s show "has_prefix xs p" by (auto simp: has_prefix_iff)
  qed (auto simp: has_prefix_iff)
qed

lemma patterns_no_newline: "p \<in> set locator_patterns \<Longrightarrow> 10 \<notin> set p"
  by (auto simp: locator_patterns_def bstr_def)

lemma find_snoc: "find (has_prefix (xs @ [10])) locator_patterns = find (has_prefix xs) locator_patterns"
proof -
  have "find (has_prefix (xs @ [10])) ps = find (has_prefix xs) ps" if "\<forall>p\<in>set ps. 10 \<notin> set p" for ps
    using that by (induction ps) (auto simp: has_prefix_snoc)
  then show ?thesis using patterns_no_newline by blast
qed

lemma strip_args_snoc: "strip_args (xs @ [10]) = strip_args xs @ [10]"
proof (induction xs rule: strip_args.induct)
  case 1
  have "(10 :: u8) \<notin> set pattern_heads" by (simp add: pattern_heads_def)
  then show ?case using strip_args_keep [of 10 "[]"] by simp
next
  case (2 c cs)
  have f: "find (has_prefix (c # cs @ [10])) locator_patterns = find (has_prefix (c # cs)) locator_patterns"
    using find_snoc [of "c # cs"] by simp
  show ?case
  proof (cases "find (has_prefix (c # cs)) locator_patterns")
    case None
    then show ?thesis using 2(1) f by simp
  next
    case (Some p)
    then have "has_prefix (c # cs) p" by (auto simp: find_Some_iff)
    then have "length p \<le> length (c # cs)" by (auto simp: has_prefix_iff dest: arg_cong [of _ _ length])
    then have d: "drop (length p) (c # cs @ [10]) = drop (length p) (c # cs) @ [10]"
      by (metis append_Cons drop_append diff_is_0_eq drop_0)
    have w: "dropWhile is_blank (dropWhile (\<lambda>c. \<not> is_break c) (ys @ [10])) =
        dropWhile is_blank (dropWhile (\<lambda>c. \<not> is_break c) ys) @ [10]" for ys
      by (simp add: dropWhile_append3 is_break_def is_blank_def)
    show ?thesis using 2(2) [OF Some] Some f by (simp add: d w)
  qed
qed

lemma second_arg_snoc: "second_arg_rest (xs @ [10]) = second_arg_rest xs @ [10]"
  by (simp add: second_arg_rest_def dropWhile_append3 is_break_def is_blank_def)

lemma before_eol_snoc: "before_eol b (xs @ [10]) \<le> length xs"
  by (simp add: before_eol_def Let_def)

definition ends_nl :: "bytes \<Rightarrow> bool" where
  "ends_nl bs \<longleftrightarrow> (\<exists>m. bs = m @ [10])"

lemma ends_nl_intros [intro]: "ends_nl (m @ [10])" "ends_nl b \<Longrightarrow> ends_nl (a @ b)"
  by (auto simp: ends_nl_def)

lemma ends_nl_drop: "ends_nl l \<Longrightarrow> ends_nl (drop (before_eol b l) l)"
  using before_eol_snoc by (fastforce simp: ends_nl_def)

lemma ends_nl_edits: "ends_nl l \<Longrightarrow> ends_nl (strip_args l)" "ends_nl l \<Longrightarrow> ends_nl (second_arg_rest l)"
  using strip_args_snoc second_arg_snoc by (auto simp: ends_nl_def)

lemma ends_nl_if: "(b \<Longrightarrow> ends_nl x) \<Longrightarrow> (\<not> b \<Longrightarrow> ends_nl y) \<Longrightarrow> ends_nl (if b then x else y)"
  by simp

lemma patched_snoc: "ends_nl line \<Longrightarrow> ends_nl (patched env line)"
  unfolding patched_def Let_def by (intro ends_nl_if ends_nl_intros(2) ends_nl_drop ends_nl_edits)

section \<open>The whole file\<close>

fun grub_lines :: "bytes \<Rightarrow> bytes list" where
  "grub_lines [] = []"
| "grub_lines (c # cs) =
     (if c = 10 \<or> cs = [] then [c] # grub_lines cs
      else case grub_lines cs of l # ls \<Rightarrow> (c # l) # ls | [] \<Rightarrow> [[c]])"

lemma grub_lines_concat [simp]: "concat (grub_lines bs) = bs"
  by (induction bs) (auto split: list.splits)

lemma grub_lines_newline: "10 \<notin> set part \<Longrightarrow> grub_lines (part @ 10 # src) = (part @ [10]) # grub_lines src"
  by (induction part) auto

lemma grub_lines_last: "part \<noteq> [] \<Longrightarrow> 10 \<notin> set (butlast part) \<Longrightarrow> grub_lines part = [part]"
  by (induction part) (auto split: if_splits)

definition fits :: "patch_env \<Rightarrow> nat \<Rightarrow> bytes \<Rightarrow> bytes list \<Rightarrow> bool" where
  "fits env cap pre ls \<longleftrightarrow> length pre + sum_list (map (\<lambda>l. length l + gain env l) ls) \<le> cap"

lemma patched_length:
  assumes "env_ok env"
  shows "length (patched env line) \<le> length line + gain env line"
proof -
  let ?t = "trim_start line" and ?x = "pe_linux_extra env"
  have s: "length (strip_args line) \<le> length line" by (rule strip_args_length)
  consider (linux) "is_linux ?t" | (bls) "\<not> is_linux ?t" "is_blscfg ?t" | (opt) "is_options ?t" | (ird) "is_initrd ?t"
    | (other) "\<not> is_linux ?t" "\<not> is_blscfg ?t" "\<not> is_options ?t" "\<not> is_initrd ?t" by blast
  then show ?thesis
  proof cases
    case linux
    then show ?thesis
      using line_kinds(1-3) [OF linux] s second_arg_rest_length [of line] second_arg_rest_length [of "strip_args line"]
      by (simp add: patched_def gain_def Let_def)
  next
    case bls
    then show ?thesis using assms line_kinds(4-5) [of ?t] by (auto simp: patched_def gain_def Let_def env_ok_def bls_line_length)
  next
    case opt
    have n: "\<not> is_linux ?t" "\<not> is_blscfg ?t" using opt line_kinds by blast+
    have "extra_content env \<noteq> [] \<Longrightarrow> Suc (length (extra_content env)) = length ?x" by (rule extra_content_length [OF assms])
    then show ?thesis using opt n s before_eol_le [of True "strip_args line"]
      by (cases "extra_content env = []") (simp_all add: patched_def gain_def Let_def)
  next
    case ird
    have n: "\<not> is_linux ?t" "\<not> is_blscfg ?t" "\<not> is_options ?t" using ird line_kinds by blast+
    then show ?thesis using ird before_eol_le [of False line] by (simp add: patched_def gain_def Let_def)
  next
    case other
    then show ?thesis by (simp add: patched_def)
  qed
qed

lemma patch_loop_lines:
  assumes "env_ok env" and "\<And>l. l \<in> set (grub_lines (part @ src)) \<Longrightarrow> is_linux (trim_start l) \<Longrightarrow> pe_linux_extra env \<noteq> []"
  shows "pre = [] \<or> last pre = 10 \<Longrightarrow> 10 \<notin> set part \<Longrightarrow> src \<noteq> [] \<or> part = [] \<Longrightarrow>
    fits env cap pre (grub_lines (part @ src)) \<Longrightarrow>
    patch_loop env cap src (pre @ part) = Some (pre @ concat (map (patched env) (grub_lines (part @ src))))"
  using assms(2)
proof (induction src arbitrary: pre part)
  case Nil
  then show ?case by simp
next
  case (Cons c src)
  show ?case
  proof (cases "c = 10 \<or> src = []")
    case True
    let ?l = "part @ [c]"
    have gl: "grub_lines (part @ c # src) = ?l # grub_lines src"
      using True Cons.prems(2) grub_lines_newline [of part src] grub_lines_last [of "part @ [c]"] by auto
    have f: "length pre + length ?l + gain env ?l + sum_list (map (\<lambda>l. length l + gain env l) (grub_lines src)) \<le> cap"
      using Cons.prems(4) unfolding fits_def gl by simp
    have p: "patch_line env cap (pre @ ?l) = Some (pre @ patched env ?l)"
      by (rule patch_line_pre [OF assms(1) Cons.prems(1)]) (use f Cons.prems(2,5) gl in auto)
    have pl: "pre @ patched env ?l = [] \<or> last (pre @ patched env ?l) = 10 \<or> src = []"
    proof (cases "c = 10")
      case True
      then have "ends_nl (patched env ?l)" by (intro patched_snoc) auto
      then show ?thesis by (auto simp: ends_nl_def)
    qed (use True in simp)
    have f': "fits env cap (pre @ patched env ?l) (grub_lines ([] @ src))"
      using f patched_length [OF assms(1), of ?l] by (simp add: fits_def)
    have rest: "patch_loop env cap src (pre @ patched env ?l) =
        Some ((pre @ patched env ?l) @ concat (map (patched env) (grub_lines src)))"
    proof (cases "src = []")
      case False
      then show ?thesis
        using Cons.IH [of "pre @ patched env ?l" "[]", OF _ _ _ f'] pl Cons.prems(5) gl by auto
    qed simp
    show ?thesis using True p rest f gl by auto
  next
    case False
    have "length (pre @ part) < cap"
    proof -
      have "length (concat (grub_lines (part @ c # src))) \<le> sum_list (map (\<lambda>l. length l + gain env l) (grub_lines (part @ c # src)))"
        by (simp add: length_concat sum_list_mono del: grub_lines_concat)
      then show ?thesis using Cons.prems(4) by (simp add: fits_def)
    qed
    then have "patch_loop env cap (c # src) (pre @ part) = patch_loop env cap src (pre @ (part @ [c]))"
      using False by simp
    also have "\<dots> = Some (pre @ concat (map (patched env) (grub_lines ((part @ [c]) @ src))))"
      by (rule Cons.IH) (use False Cons.prems in auto)
    finally show ?thesis by simp
  qed
qed

section \<open>The capacity is enough\<close>

definition chomp :: "bytes \<Rightarrow> bytes" where
  "chomp l = takeWhile (\<lambda>c. c \<noteq> 10) l"

lemma scan_lines_grub: "scan_lines bs = map chomp (grub_lines bs)"
proof (induction bs rule: scan_lines.induct)
  case (1 bs)
  let ?line = "takeWhile (\<lambda>c. c \<noteq> 10) bs"
  show ?case
  proof (cases "bs = []")
    case False
    have n: "10 \<notin> set ?line" by (auto dest: set_takeWhileD)
    show ?thesis
    proof (cases "dropWhile (\<lambda>c. c \<noteq> 10) bs")
      case Nil
      then have l: "?line = bs" by (metis append_Nil2 takeWhile_dropWhile_id)
      then have "grub_lines bs = [bs]" using grub_lines_last [OF False] n by (metis in_set_butlastD)
      moreover have "scan_lines bs = [bs]" using False by (subst scan_lines.simps) (simp add: l scan_lines.simps [of "[]"])
      ultimately show ?thesis by (simp only: chomp_def list.map l)
    next
      case (Cons c rest)
      have c10: "c = 10" using hd_dropWhile [of "\<lambda>c. c \<noteq> 10" bs] Cons by simp
      have b: "bs = ?line @ 10 # rest"
        using takeWhile_dropWhile_id [of "\<lambda>c. c \<noteq> 10" bs] unfolding Cons c10 by (rule sym)
      have "drop (length ?line + 1) (?line @ 10 # rest) = rest" by simp
      then have d: "drop (length ?line + 1) bs = rest" by (simp only: b [symmetric])
      have g: "grub_lines bs = (?line @ [10]) # grub_lines rest" using b grub_lines_newline [OF n] by metis
      have c: "chomp (?line @ [10]) = ?line"
      proof -
        have "takeWhile (\<lambda>c. c \<noteq> 10) (?line @ [10]) = ?line @ takeWhile (\<lambda>c. c \<noteq> 10) [10]"
          using n by (intro takeWhile_append2) auto
        then show ?thesis by (simp add: chomp_def)
      qed
      have "scan_lines rest = map chomp (grub_lines rest)" using 1 [OF False refl] d by simp
      then show ?thesis using False d unfolding g by (simp add: scan_lines.simps [of bs] Let_def c)
    qed
  qed (simp add: scan_lines.simps)
qed

lemma trim_chomp: "trim_start (chomp l) = chomp (trim_start l)"
  by (induction l) (auto simp: trim_start_def chomp_def is_blank_def)

lemma has_prefix_chomp: "10 \<notin> set p \<Longrightarrow> has_prefix (chomp t) p = has_prefix t p"
proof
  assume p: "10 \<notin> set p" and "has_prefix t p"
  then obtain s where "t = p @ s" by (auto simp: has_prefix_iff)
  moreover have "takeWhile (\<lambda>c. c \<noteq> 10) (p @ s) = p @ takeWhile (\<lambda>c. c \<noteq> 10) s" using p by (intro takeWhile_append2) auto
  ultimately have "chomp t = p @ chomp s" by (simp only: chomp_def)
  then show "has_prefix (chomp t) p" by (auto simp: has_prefix_iff)
next
  assume "has_prefix (chomp t) p"
  then obtain s where "chomp t = p @ s" by (auto simp: has_prefix_iff)
  then have "t = p @ s @ dropWhile (\<lambda>c. c \<noteq> 10) t" by (metis append.assoc chomp_def takeWhile_dropWhile_id)
  then show "has_prefix t p" by (auto simp: has_prefix_iff)
qed

lemma kinds_chomp:
  "is_linux (trim_start (chomp l)) = is_linux (trim_start l)" "is_initrd (trim_start (chomp l)) = is_initrd (trim_start l)"
  "is_options (trim_start (chomp l)) = is_options (trim_start l)"
  by (simp_all add: is_linux_def is_initrd_def is_options_def trim_chomp has_prefix_chomp bstr_def)

lemma count_windows_append: "count_windows ps xs + count_windows ps ys \<le> count_windows ps (xs @ ys)"
proof (induction xs)
  case (Cons c xs)
  have "list_ex (has_prefix (c # xs)) ps \<Longrightarrow> list_ex (has_prefix (c # xs @ ys)) ps"
    by (auto simp: list_ex_iff has_prefix_iff) (metis append.assoc append_Cons)
  then show ?case using Cons by auto
qed simp

lemma count_windows_line:
  assumes "is_blscfg (trim_start l)"
  shows "1 \<le> count_windows bls_words l"
proof -
  let ?t = "trim_start l"
  have st: "list_ex (has_prefix ?t) bls_words"
    using assms by (auto simp: is_blscfg_def bls_words_def has_prefix_iff) 
  then have "?t \<noteq> []" by (auto simp: bls_words_def has_prefix_def bstr_def)
  then obtain c cs where t: "?t = c # cs" by (cases ?t) auto
  have "1 \<le> count_windows bls_words ?t" using st by (simp add: t)
  also have "\<dots> \<le> count_windows bls_words (takeWhile is_blank l @ ?t)"
    using count_windows_append [of bls_words "takeWhile is_blank l" ?t] by simp
  finally show ?thesis by (simp add: trim_start_def)
qed

lemma count_windows_lines: "length (filter (\<lambda>l. is_blscfg (trim_start l)) ls) \<le> count_windows bls_words (concat ls)"
proof (induction ls)
  case (Cons l ls)
  then show ?case using count_windows_line [of l] count_windows_append [of bls_words l "concat ls"] by auto
qed simp

lemma gain_sum:
  "sum_list (map (gain env) ls) \<le>
     length (filter (\<lambda>l. is_linux (trim_start l)) ls) * (length (pe_linux_extra env) + length (pe_eol_extra env))
     + length (filter (\<lambda>l. \<not> is_linux (trim_start l) \<and> is_initrd (trim_start l)) ls) * length (pe_initrd_extra env)
     + (if pe_has_blscfg env then length (filter (\<lambda>l. is_blscfg (trim_start l)) ls) * (29 + length (pe_linux_extra env)) else 0)
     + length (filter (\<lambda>l. is_options (trim_start l)) ls) * length (pe_linux_extra env)"
proof (induction ls)
  case (Cons l ls)
  let ?t = "trim_start l"
  have "gain env l \<le> (if is_linux ?t then length (pe_linux_extra env) + length (pe_eol_extra env) else 0)
      + (if \<not> is_linux ?t \<and> is_initrd ?t then length (pe_initrd_extra env) else 0)
      + (if pe_has_blscfg env \<and> is_blscfg ?t then 29 + length (pe_linux_extra env) else 0)
      + (if is_options ?t then length (pe_linux_extra env) else 0)"
    by (simp add: gain_def Let_def)
  then show ?case using Cons by (auto simp: algebra_simps split: if_splits)
qed simp

lemma capacity_sum:
  "(opt :: nat) \<le> opt' \<Longrightarrow> bls \<le> bls' \<Longrightarrow> g \<le> lin + ird + (if b then bls else 0) + opt \<Longrightarrow> p \<le> 256 \<Longrightarrow>
     p + (n + g) \<le> n + (lin + ird + (if b then bls' else 0) + opt') + 256"
  by (auto split: if_splits)

lemma capacity_enough:
  assumes "env = patch_env_of orig k extra eol target" and "length pre \<le> 256"
  shows "fits env (output_capacity orig env) pre (grub_lines orig)"
proof -
  let ?ls = "grub_lines orig" and ?x = "length (pe_linux_extra env)"
  have s: "sum_list (map (\<lambda>l. length l + gain env l) ?ls) = length orig + sum_list (map (gain env) ?ls)"
    using grub_lines_concat [of orig] by (metis (no_types) sum_list_addf length_concat)
  have lin: "length (filter is_linux (map trim_start (scan_lines orig))) = length (filter (\<lambda>l. is_linux (trim_start l)) ?ls)"
    by (simp add: scan_lines_grub filter_map comp_def kinds_chomp)
  have ird: "length (filter (\<lambda>t. \<not> is_linux t \<and> is_initrd t) (map trim_start (scan_lines orig))) =
      length (filter (\<lambda>l. \<not> is_linux (trim_start l) \<and> is_initrd (trim_start l)) ?ls)"
    by (simp add: scan_lines_grub filter_map comp_def kinds_chomp)
  have opt: "length (filter (\<lambda>l. is_options (trim_start l)) ?ls) \<le> count_options orig"
    by (simp add: count_options_def split_lines_def scan_lines_grub filter_map comp_def kinds_chomp)
  have bls: "length (filter (\<lambda>l. is_blscfg (trim_start l)) ?ls) \<le> count_windows bls_words orig"
    using count_windows_lines [of ?ls] by simp
  have "length (filter (\<lambda>l. is_options (trim_start l)) ?ls) * ?x \<le> count_options orig * ?x"
    "length (filter (\<lambda>l. is_blscfg (trim_start l)) ?ls) * (29 + ?x) \<le> count_windows bls_words orig * (27 + ?x + 2)"
    using opt bls by (auto intro!: mult_le_mono)
  note m = this
  have f: "fits env (output_capacity orig env) pre ?ls \<longleftrightarrow> length pre + (length orig + sum_list (map (gain env) ?ls)) \<le>
      length orig + (length (filter (\<lambda>l. is_linux (trim_start l)) ?ls) * (?x + length (pe_eol_extra env))
      + length (filter (\<lambda>l. \<not> is_linux (trim_start l) \<and> is_initrd (trim_start l)) ?ls) * length (pe_initrd_extra env)
      + (if pe_has_blscfg env then count_windows bls_words orig * (27 + ?x + 2) else 0)
      + count_options orig * ?x) + 256"
    unfolding fits_def s output_capacity_def count_matching_lines_def Let_def lin ird split by (rule refl)
  show ?thesis unfolding f by (rule capacity_sum [OF m gain_sum assms(2)])
qed

lemma patch_impl_run:
  assumes "eol_extra_dynamic eol iso_loc = Some dyn" and "extra = [] \<or> hd extra = 32" and "length extra \<le> 512"
    and "prefix = [] \<or> last prefix = 10" and "length prefix \<le> 256"
    and "\<And>l. l \<in> set (grub_lines orig) \<Longrightarrow> is_linux (trim_start l) \<Longrightarrow> extra \<noteq> []"
    and "env = patch_env_of orig k extra dyn target"
  shows "patch_grub_cfg_impl alloc orig k extra eol iso_loc target prefix =
    Some (if alloc (output_capacity orig env) then Some (prefix @ concat (map (patched env) (grub_lines orig))) else None)"
proof -
  let ?cap = "output_capacity orig env"
  have e: "env_ok env" using assms(2,3,7) by (simp add: env_ok_def patch_env_of_def)
  have x: "pe_linux_extra env = extra" using assms(7) by (simp add: patch_env_of_def)
  have f: "fits env ?cap prefix (grub_lines ([] @ orig))" using capacity_enough [OF assms(7,5)] by simp
  have c: "length prefix \<le> ?cap" using assms(5) by (simp add: output_capacity_def Let_def split: prod.splits)
  have l: "patch_loop env ?cap orig (prefix @ []) = Some (prefix @ concat (map (patched env) (grub_lines ([] @ orig))))"
    by (rule patch_loop_lines [OF e _ assms(4) _ _ f]) (use assms(6) x in auto)
  show ?thesis using assms(1) l c by (simp add: patch_grub_cfg_impl_def assms(7) [symmetric])
qed

definition eol_text :: "boot_kind \<Rightarrow> iso_location option \<Rightarrow> bytes" where
  "eol_text k iso_loc =
     (case iso_loc of None \<Rightarrow> []
      | Some loc \<Rightarrow> if linux_eol_extra k = [] then [] else linux_eol_extra k
          @ take (min (length (the (location_path loc))) (320 - length (linux_eol_extra k))) (the (location_path loc)))"

lemma eol_extra_text:
  assumes "\<And>loc. iso_loc = Some loc \<Longrightarrow> file_path_len loc \<le> length (file_path loc)"
  shows "eol_extra_dynamic (linux_eol_extra k) iso_loc = Some (eol_text k iso_loc)"
proof (cases iso_loc)
  case None
  then show ?thesis by (simp add: eol_extra_dynamic_def eol_text_def)
next
  case (Some loc)
  have e: "linux_eol_extra k = [] \<or> (linux_eol_extra k = bstr '' findiso='' \<or> linux_eol_extra k = bstr '' iso-scan/filename='') \<and>
      last (linux_eol_extra k) = 61 \<and> linux_eol_extra k \<noteq> []"
    by (cases k) (simp_all add: linux_eol_extra_def bstr_def)
  show ?thesis using e assms [OF Some] Some
    by (auto simp: eol_extra_dynamic_def eol_text_def location_path_def bounds_simps)
qed

lemma extra_text_blank: "extra_text k iso_loc = [] \<or> hd (extra_text k iso_loc) = 32"
proof (cases iso_loc)
  case None
  then have "extra_text k iso_loc = kind_chunk k" by (cases k) (simp_all add: extra_text_def kind_text_def)
  then show ?thesis by (cases k) (simp_all add: kind_chunk_def bstr_def)
next
  case (Some loc)
  then have "extra_text k iso_loc =
      spaced (kind_words k (Some loc) @ param_words loc (the (path_without_leading_slash loc)))"
    using kind_text_words [of k loc] by (simp add: extra_text_def params_text_words spaced_def)
  moreover have "hd (spaced ts) = 32" if "ts \<noteq> []" for ts using that by (cases ts) simp_all
  ultimately show ?thesis by (auto simp: param_words_def)
qed

text \<open>The environment of a patch whose parameters fit their buffer.\<close>

definition patch_env_for :: "bytes \<Rightarrow> boot_kind \<Rightarrow> iso_location option \<Rightarrow> bytes \<Rightarrow> patch_env" where
  "patch_env_for orig k iso_loc target = patch_env_of orig k (extra_text k iso_loc) (eol_text k iso_loc) target"

lemma patch_grub_run:
  assumes "\<And>loc. iso_loc = Some loc \<Longrightarrow> file_path_len loc \<le> length (file_path loc)"
    and "length (extra_text k iso_loc) + 19 \<le> 512" and "extra_text k iso_loc \<noteq> []"
    and "prefix = [] \<or> last prefix = 10" and "length prefix \<le> 256" and "env = patch_env_for orig k iso_loc target"
  shows "patch_grub_cfg alloc orig k iso_name iso_loc target prefix =
    Some (if alloc (output_capacity orig env) then Some (prefix @ concat (map (patched env) (grub_lines orig))) else None)"
proof -
  let ?p = "k = Casper \<and> matches_any_lower iso_name [bstr ''pop'', bstr ''pop-os'', bstr ''popos'']"
  have "linux_extra k ?p iso_loc (replicate 512 0) = Some (Some (extra_text k iso_loc))"
    using linux_extra_run [OF assms(1), of iso_loc k ?p "replicate 512 0"] assms(2) by auto
  moreover have "patch_grub_cfg_impl alloc orig k (extra_text k iso_loc) (linux_eol_extra k) iso_loc target prefix =
      Some (if alloc (output_capacity orig env) then Some (prefix @ concat (map (patched env) (grub_lines orig))) else None)"
    by (rule patch_impl_run [OF eol_extra_text [OF assms(1)] extra_text_blank _ assms(4,5)])
      (use assms in \<open>simp_all add: patch_env_for_def\<close>)
  ultimately show ?thesis by (simp add: patch_grub_cfg_def Let_def)
qed

text \<open>C9: the configuration is patched line by line: whenever the kernel parameters are not empty and
  fit their buffer, the patcher neither panics nor overruns the pool buffer whose size it estimates from the
  line counts, and returns the prefix line followed by the patch of each line, which depends on that line
  alone; without memory it returns nothing.\<close>

theorem grub_patch_linewise:
  assumes "\<And>loc. iso_loc = Some loc \<Longrightarrow> file_path_len loc \<le> length (file_path loc)"
    and "length (extra_text k iso_loc) + 19 \<le> 512" and "extra_text k iso_loc \<noteq> []"
    and "prefix = [] \<or> last prefix = 10" and "length prefix \<le> 256" and "env = patch_env_for orig k iso_loc target"
  shows "patch_grub_cfg alloc orig k iso_name iso_loc target prefix =
    Some (if alloc (output_capacity orig env) then Some (prefix @ concat (map (patched env) (grub_lines orig))) else None)"
  by (rule patch_grub_run [OF assms])

section \<open>The kernel command line of a patched line\<close>

definition locator_word :: "bytes \<Rightarrow> bool" where
  "locator_word w \<longleftrightarrow> list_ex (has_prefix w) locator_patterns"

definition locator_free :: "bytes \<Rightarrow> bool" where
  "locator_free w \<longleftrightarrow> list_all (\<lambda>p. \<not> contains w p) locator_patterns"

lemma contains_append: "contains w p \<Longrightarrow> contains (u @ w) p"
  by (induction u) auto

lemma starts_contains: "has_prefix w p \<Longrightarrow> contains w p"
  by (cases w) (auto simp: has_prefix_def)

lemma pattern_no_ws: "p \<in> set locator_patterns \<Longrightarrow> c \<in> set p \<Longrightarrow> \<not> is_ws c"
  by (auto simp: locator_patterns_def is_ws_def bstr_def)

lemma has_prefix_word:
  assumes "p \<in> set locator_patterns" and "ends rest"
  shows "has_prefix (w @ rest) p = has_prefix w p"
proof
  assume "has_prefix (w @ rest) p"
  then obtain s where s: "w @ rest = p @ s" by (auto simp: has_prefix_iff)
  show "has_prefix w p"
  proof (cases "length p \<le> length w")
    case True
    then have "p = take (length p) w" using s by (metis append_eq_append_conv_if)
    then show ?thesis by (simp add: has_prefix_def)
  next
    case False
    then obtain x where "p = w @ x" "x \<noteq> []" "rest = x @ s" using s by (auto simp: append_eq_append_conv2)
    then have "hd rest \<in> set p" "rest \<noteq> []" by auto
    then show ?thesis using pattern_no_ws [OF assms(1)] assms(2) by (cases rest) (auto simp: ends_def)
  qed
next
  assume "has_prefix w p"
  then show "has_prefix (w @ rest) p" by (auto simp: has_prefix_iff)
qed

lemma find_word:
  "ends rest \<Longrightarrow> find (has_prefix (w @ rest)) locator_patterns = find (has_prefix w) locator_patterns"
proof -
  assume e: "ends rest"
  have "set ps \<subseteq> set locator_patterns \<Longrightarrow> find (has_prefix (w @ rest)) ps = find (has_prefix w) ps" for ps
    by (induction ps) (auto simp: has_prefix_word [OF _ e])
  then show ?thesis by blast
qed

lemma strip_free:
  assumes "ends rest"
  shows "locator_free w \<Longrightarrow> strip_args (w @ rest) = w @ strip_args rest"
proof (induction w)
  case (Cons c w)
  have "\<not> has_prefix (c # w) p" if "p \<in> set locator_patterns" for p
    using Cons.prems that by (auto simp: locator_free_def list_all_iff)
  then have "find (has_prefix (c # w)) locator_patterns = None" by (simp add: find_None_iff)
  then have f: "find (has_prefix (c # w @ rest)) locator_patterns = None" using find_word [OF assms, of "c # w"] by simp
  have "locator_free w" using Cons.prems by (auto simp: locator_free_def list_all_iff)
  then show ?case using Cons.IH f by simp
qed simp

lemma strip_ws: "is_ws c \<Longrightarrow> strip_args (c # rest) = c # strip_args rest"
  by (rule strip_args_keep) (auto simp: is_ws_def pattern_heads_def)

lemma strip_locator:
  assumes "ends rest" and "locator_word w" and "\<And>c. c \<in> set w \<Longrightarrow> \<not> is_break c"
  shows "strip_args (w @ rest) = strip_args (dropWhile is_blank rest)"
proof -
  obtain p where p: "find (has_prefix w) locator_patterns = Some p"
    using assms(2) by (cases "find (has_prefix w) locator_patterns") (auto simp: locator_word_def find_None_iff list_ex_iff)
  then have "p \<in> set locator_patterns" "has_prefix w p" by (auto simp: find_Some_iff)
  then obtain s where s: "w = p @ s" "p \<noteq> []" using pattern_head by (auto simp: has_prefix_iff)
  have "w @ rest \<noteq> []" using s by simp
  then obtain c cs where w: "w @ rest = c # cs" by (cases "w @ rest") auto
  have f: "find (has_prefix (c # cs)) locator_patterns = Some p" using find_word [OF assms(1), of w] p w by simp
  have d: "drop (length p) (c # cs) = s @ rest" using w [symmetric] s by simp
  have "dropWhile (\<lambda>c. \<not> is_break c) (s @ rest) = dropWhile (\<lambda>c. \<not> is_break c) rest"
    using assms(3) s by (intro dropWhile_append2) auto
  also have "\<dots> = rest" using assms(1) by (cases rest) (auto simp: ends_def is_ws_def is_break_def)
  finally show ?thesis using f unfolding w by (simp add: d)
qed

lemma tokens_skip: "tokens (dropWhile is_blank l) = tokens l"
  by (induction l) (auto simp: tokens_ws is_blank_def is_ws_def)

lemma ends_strip: "ends rest \<Longrightarrow> ends (strip_args rest)"
  by (cases rest) (auto simp: ends_def strip_ws simp del: strip_args.simps(2))

lemma ends_dropWhile: "ends (dropWhile (\<lambda>c. \<not> is_ws c) xs)"
  by (induction xs) (auto simp: ends_def)

text \<open>The first word of a text.\<close>

lemma tokens_cases:
  obtains "tokens l = []" "l = takeWhile is_ws l"
  | w rest where "l = takeWhile is_ws l @ w @ rest" "word w" "ends rest" "tokens l = w # tokens rest"
proof (cases "dropWhile is_ws l")
  case Nil
  then have "tokens l = []" by (subst tokens.simps) simp
  moreover have "l = takeWhile is_ws l" using Nil by (metis append_Nil2 takeWhile_dropWhile_id)
  ultimately show ?thesis using that by blast
next
  case (Cons c cs)
  let ?r = "dropWhile is_ws l"
  let ?w = "takeWhile (\<lambda>c. \<not> is_ws c) ?r" and ?rest = "dropWhile (\<lambda>c. \<not> is_ws c) ?r"
  have c: "\<not> is_ws c" using hd_dropWhile [of is_ws l] Cons by simp
  have "l = takeWhile is_ws l @ ?w @ ?rest" by simp
  moreover have "word ?w" using Cons c by (auto simp: word_def list_all_iff dest: set_takeWhileD)
  moreover have "ends ?rest" by (rule ends_dropWhile)
  moreover have "tokens l = ?w # tokens ?rest" using Cons by (subst tokens.simps) (simp add: Let_def)
  ultimately show ?thesis using that by blast
qed

lemma strip_blanks: "(\<And>c. c \<in> set ws \<Longrightarrow> is_ws c) \<Longrightarrow> strip_args (ws @ l) = ws @ strip_args l"
  by (induction ws) (auto simp: strip_ws simp del: strip_args.simps(2))

lemma tokens_blanks: "(\<And>c. c \<in> set ws \<Longrightarrow> is_ws c) \<Longrightarrow> tokens (ws @ l) = tokens l"
  by (induction ws) (auto simp: tokens_ws)

text \<open>Whole words go, and only the words that name a location.\<close>

lemma tokens_strip:
  "13 \<notin> set l \<Longrightarrow> list_all (\<lambda>w. locator_word w \<or> locator_free w) (tokens l) \<Longrightarrow>
     tokens (strip_args l) = filter (\<lambda>w. \<not> locator_word w) (tokens l)"
proof (induction l rule: measure_induct_rule [of length])
  case (less l)
  have sb: "strip_args (takeWhile is_ws l @ x) = takeWhile is_ws l @ strip_args x"
    and tb: "tokens (takeWhile is_ws l @ x) = tokens x" for x
    by (rule strip_blanks tokens_blanks, auto dest: set_takeWhileD)+
  show ?case
  proof (cases rule: tokens_cases [of l])
    case 1
    have "strip_args (takeWhile is_ws l) = takeWhile is_ws l" using sb [of "[]"] by simp
    then have "strip_args l = l" by (simp only: 1(2) [symmetric])
    then show ?thesis using 1 by simp
  next
    case (2 w rest)
    have len: "length rest < length l" using arg_cong [OF 2(1), of length] 2(2) by (cases w) (auto simp: word_def)
    have c13: "13 \<notin> set rest" "13 \<notin> set w" using less.prems(1) 2(1) by (metis Un_iff set_append)+
    have a: "list_all (\<lambda>w. locator_word w \<or> locator_free w) (tokens rest)" "locator_word w \<or> locator_free w"
      using less.prems(2) 2(4) by simp_all
    have s: "strip_args l = takeWhile is_ws l @ strip_args (w @ rest)" using sb [of "w @ rest"] 2(1) by simp
    have IH: "tokens (strip_args rest) = filter (\<lambda>w. \<not> locator_word w) (tokens rest)" by (rule less.IH [OF len c13(1) a(1)])
    show ?thesis
    proof (cases "locator_word w")
      case True
      have nb: "\<And>c. c \<in> set w \<Longrightarrow> \<not> is_break c"
        using 2(2) c13(2) by (auto simp: word_def list_all_iff is_ws_def is_break_def)
      let ?r = "dropWhile is_blank rest"
      have "length ?r < length l" using len length_dropWhile_le [of is_blank rest] by linarith
      moreover have "13 \<notin> set ?r" using c13(1) by (auto dest: set_dropWhileD)
      ultimately have "tokens (strip_args ?r) = filter (\<lambda>w. \<not> locator_word w) (tokens rest)"
        using less.IH [of ?r] a(1) by (simp add: tokens_skip)
      then show ?thesis using True 2(4) s strip_locator [OF 2(3) True nb] by (simp add: tb)
    next
      case False
      then have "locator_free w" using a(2) by simp
      then have "tokens (strip_args l) = w # tokens (strip_args rest)"
        using s strip_free [OF 2(3)] tokens_word [OF 2(2) ends_strip [OF 2(3)]] by (simp add: tb)
      then show ?thesis using IH False 2(4) by simp
    qed
  qed
qed

text \<open>What precedes the insertion point is the command and the kernel path.\<close>

lemma first_word:
  assumes "13 \<notin> set l" and "10 \<notin> set (butlast l)" and "tokens l \<noteq> []"
  shows "\<exists>w rest b. l = b @ w @ rest \<and> word w \<and> ends rest \<and> tokens l = w # tokens rest \<and> tokens b = [] \<and>
    dropWhile (\<lambda>c. \<not> is_break c) (dropWhile is_blank l) = rest"
proof -
  obtain w rest where l: "l = takeWhile is_ws l @ w @ rest" "word w" "ends rest" "tokens l = w # tokens rest"
    using assms(3) tokens_cases [of l] by metis
  let ?b = "takeWhile is_ws l"
  have w: "w \<noteq> []" "\<And>c. c \<in> set w \<Longrightarrow> \<not> is_ws c" using l(2) by (auto simp: word_def list_all_iff)
  have "butlast l = ?b @ butlast (w @ rest)" using w(1) l(1) by (metis butlast_append append_is_Nil_conv)
  then have "10 \<notin> set ?b" using assms(2) by (metis Un_iff set_append)
  then have b: "is_blank c" if "c \<in> set ?b" for c
    using that set_takeWhileD [OF that] by (cases "c = 10") (auto simp: is_ws_def is_blank_def)
  have w13: "13 \<notin> set w" using assms(1) l(1) by (metis Un_iff set_append)
  have "dropWhile is_blank (?b @ w @ rest) = dropWhile is_blank (w @ rest)" by (rule dropWhile_append2) (rule b)
  also have "\<dots> = w @ rest" using w by (cases w) (auto simp: is_ws_def is_blank_def)
  finally have d1: "dropWhile is_blank l = w @ rest" using l(1) by simp
  have "dropWhile (\<lambda>c. \<not> is_break c) (w @ rest) = dropWhile (\<lambda>c. \<not> is_break c) rest"
    using w(2) w13 by (intro dropWhile_append2) (auto simp: is_ws_def is_break_def)
  also have "\<dots> = rest" using l(3) by (cases rest) (auto simp: ends_def is_ws_def is_break_def)
  finally have "dropWhile (\<lambda>c. \<not> is_break c) (dropWhile is_blank l) = rest" using d1 by simp
  moreover have "tokens ?b = []" using tokens_blanks [of ?b "[]"] by (auto dest: set_takeWhileD)
  ultimately show ?thesis using l by blast
qed

lemma second_arg_tokens:
  assumes "13 \<notin> set l" and "10 \<notin> set (butlast l)" and "2 \<le> length (tokens l)"
  shows "\<exists>a. l = a @ second_arg_rest l \<and> ends (second_arg_rest l) \<and> tokens a = take 2 (tokens l) \<and>
    tokens (second_arg_rest l) = drop 2 (tokens l)"
proof -
  have "tokens l \<noteq> []" using assms(3) by auto
  then obtain w1 r1 b1 where 1: "l = b1 @ w1 @ r1" "word w1" "ends r1" "tokens l = w1 # tokens r1" "tokens b1 = []"
    "dropWhile (\<lambda>c. \<not> is_break c) (dropWhile is_blank l) = r1"
    using first_word [OF assms(1,2)] by blast
  have "13 \<notin> set r1" "tokens r1 \<noteq> []" using assms(1,3) 1(1,4) by auto
  moreover have "10 \<notin> set (butlast r1)" using assms(2) 1(1) by (cases "r1 = []") (auto simp: butlast_append)
  ultimately obtain w2 r2 b2 where 2: "r1 = b2 @ w2 @ r2" "word w2" "ends r2" "tokens r1 = w2 # tokens r2" "tokens b2 = []"
    "dropWhile (\<lambda>c. \<not> is_break c) (dropWhile is_blank r1) = r2"
    using first_word [of r1] by blast
  have r: "second_arg_rest l = r2" unfolding second_arg_rest_def 1(6) 2(6) ..
  have "tokens (b1 @ w1 @ b2 @ w2) @ tokens r2 = tokens ((b1 @ w1 @ b2 @ w2) @ r2)"
    using tokens_append [OF 2(3), of "b1 @ w1 @ b2 @ w2"] by simp
  also have "\<dots> = tokens l" using 1(1) 2(1) by simp
  finally have "tokens (b1 @ w1 @ b2 @ w2) = [w1, w2]" using 1(4) 2(4) by simp
  then show ?thesis using 1 2 r by (intro exI [of _ "b1 @ w1 @ b2 @ w2"]) simp
qed

lemma strip_args_set: "set (strip_args l) \<subseteq> set l"
proof (induction l rule: strip_args.induct)
  case (2 c cs)
  show ?case
  proof (cases "find (has_prefix (c # cs)) locator_patterns")
    case None
    then show ?thesis using 2(1) by auto
  next
    case (Some p)
    then show ?thesis using 2(2) [OF Some] by (auto dest!: set_dropWhileD in_set_dropD)
  qed
qed simp

lemma strip_args_butlast:
  assumes "10 \<notin> set (butlast l)"
  shows "10 \<notin> set (butlast (strip_args l))"
proof (cases l rule: rev_cases)
  case (snoc m c)
  show ?thesis
  proof (cases "c = 10")
    case True
    then show ?thesis using assms snoc strip_args_set [of m] by (auto simp: strip_args_snoc)
  next
    case False
    then have "10 \<notin> set l" using assms snoc by auto
    then show ?thesis using strip_args_set [of l] by (auto dest: in_set_butlastD)
  qed
qed simp

lemma other_words_foreign: "\<not> locator_word w \<Longrightarrow> foreign w"
proof (rule ccontr)
  assume n: "\<not> locator_word w" and "\<not> foreign w"
  then obtain key val where k: "split_token w = Some (key, val)" "key \<in> set choosable_keys"
    by (auto simp: foreign_def split: option.splits)
  then have kv: "key = takeWhile (\<lambda>c. c \<noteq> 61) w" "length key < length w" "val = drop (length key + 1) w"
    by (auto simp: split_token_def Let_def split: if_splits)
  then have "w ! length key = 61" using nth_length_takeWhile [of "\<lambda>c. c \<noteq> 61" w] by simp
  then have "drop (length key) w = 61 # val" using kv(2,3) by (simp add: Cons_nth_drop_Suc [symmetric])
  moreover have "take (length key) w = key" using kv(1) takeWhile_eq_take by metis
  ultimately have "w = key @ 61 # val" by (metis append_take_drop_id)
  then have s: "has_prefix w (key @ [61])" by (simp add: has_prefix_iff)
  have "key @ [61] \<in> set locator_patterns" using k(2) by (auto simp: choosable_keys_def locator_patterns_def bstr_def)
  then show False using n s by (auto simp: locator_word_def list_ex_iff)
qed

lemma free_not_word: "locator_free w \<Longrightarrow> \<not> locator_word w"
  by (auto simp: locator_free_def locator_word_def list_all_iff list_ex_iff starts_contains)

lemma tokens_words: "list_all word (tokens l)"
proof (induction l rule: measure_induct_rule [of length])
  case (less l)
  show ?case
  proof (cases rule: tokens_cases [of l])
    case (2 w rest)
    have "length rest < length l" using arg_cong [OF 2(1), of length] 2(2) by (cases w) (auto simp: word_def)
    then show ?thesis using 2 less.IH by simp
  qed simp
qed

lemma spaced_append: "spaced (xs @ ys) = spaced xs @ spaced ys"
  by (simp add: spaced_def)

lemma tokens_insert:
  assumes "list_all word ws" and "ends rest"
  shows "tokens (a @ spaced ws @ rest) = tokens a @ ws @ tokens rest"
proof -
  have "ends (spaced ws @ rest)" using assms(2) ends_spaced [of ws] by (cases ws) (auto simp: ends_def is_ws_def)
  then show ?thesis using tokens_append assms tokens_spaced [OF assms(1)] by simp
qed

lemma location_path_chars:
  assumes "path_without_leading_slash loc = Some path" and "list_all (\<lambda>c. \<not> is_ws c) path"
  shows "list_all (\<lambda>c. \<not> is_ws c) (the (location_path loc))"
  using assms by (auto simp: path_without_leading_slash_def is_ws_def split: Option.bind_splits list.splits if_splits)

lemma eol_words:
  assumes "path_without_leading_slash loc = Some path" and "list_all (\<lambda>c. \<not> is_ws c) path"
  shows "\<exists>es. eol_text k (Some loc) = spaced es \<and> list_all word es \<and> list_all foreign es"
proof -
  let ?p = "\<lambda>n. take (min (length (the (location_path loc))) n) (the (location_path loc))"
  have p: "list_all (\<lambda>c. \<not> is_ws c) (?p n)" for n
    using location_path_chars [OF assms] by (auto simp: list_all_iff dest: in_set_takeD)
  have w: "word (bstr ''findiso='')" "word (bstr ''iso-scan/filename='')" by (simp_all add: word_def is_ws_def bstr_def)
  have f: "foreign (bstr ''findiso='' @ x)" "foreign (bstr ''iso-scan/filename='' @ x)" for x
    by (simp_all add: foreign_head bstr_def)
  consider "linux_eol_extra k = []" | "linux_eol_extra k = 32 # bstr ''findiso=''" | "linux_eol_extra k = 32 # bstr ''iso-scan/filename=''"
    by (cases k) (simp_all add: linux_eol_extra_def bstr_def)
  then show ?thesis
  proof cases
    case 1
    then show ?thesis by (intro exI [of _ "[]"]) (simp add: eol_text_def)
  next
    case 2
    then show ?thesis using word_append [OF w(1) p] f
      by (intro exI [of _ "[bstr ''findiso='' @ ?p (320 - 9)]"]) (simp add: eol_text_def)
  next
    case 3
    then show ?thesis using word_append [OF w(2) p] f
      by (intro exI [of _ "[bstr ''iso-scan/filename='' @ ?p (320 - 19)]"]) (simp add: eol_text_def)
  qed
qed

lemma patched_linux_tokens:
  assumes "is_linux (trim_start line)" and "\<not> contains line (pe_linux_extra env)" and "13 \<notin> set line"
    and "10 \<notin> set (butlast line)" and "2 \<le> length (tokens line)"
    and "list_all (\<lambda>w. locator_word w \<or> locator_free w) (tokens line)" and "list_all locator_free (take 2 (tokens line))"
    and "pe_linux_extra env = spaced xs" and "list_all word xs" and "pe_eol_extra env = spaced es" and "list_all word es"
  shows "tokens (patched env line) = take 2 (tokens line) @ xs @ es
    @ (if strips env then filter (\<lambda>w. \<not> locator_word w) (drop 2 (tokens line)) else drop 2 (tokens line))"
proof -
  define l where "l = (if strips env then strip_args line else line)"
  let ?ts = "tokens line" and ?r = "second_arg_rest l"
  have l13: "13 \<notin> set l" using assms(3) strip_args_set [of line] by (auto simp: l_def)
  have l10: "10 \<notin> set (butlast l)" using assms(4) strip_args_butlast by (simp add: l_def)
  have keep: "filter (\<lambda>w. \<not> locator_word w) (take 2 ?ts) = take 2 ?ts"
    using assms(7) free_not_word by (auto simp: list_all_iff intro!: filter_True)
  have "filter (\<lambda>w. \<not> locator_word w) ?ts = take 2 ?ts @ filter (\<lambda>w. \<not> locator_word w) (drop 2 ?ts)"
    using keep filter_append [of "\<lambda>w. \<not> locator_word w" "take 2 ?ts" "drop 2 ?ts"] by simp
  then have tl: "tokens l = take 2 ?ts @ (if strips env then filter (\<lambda>w. \<not> locator_word w) (drop 2 ?ts) else drop 2 ?ts)"
    using tokens_strip [OF assms(3,6)] by (simp add: l_def)
  have l2: "length (take 2 ?ts) = 2" using assms(5) by simp
  have "2 \<le> length (tokens l)" using tl l2 by simp
  then obtain a where a: "l = a @ ?r" "ends ?r" "tokens a = take 2 (tokens l)" "tokens ?r = drop 2 (tokens l)"
    using second_arg_tokens [OF l13 l10] by blast
  have "take (length l - length ?r) l = a" using a(1) by (metis append_eq_conv_conj diff_add_inverse2 length_append)
  then have p: "patched env line = a @ spaced (xs @ es) @ ?r"
    using assms(1,2,8,10) by (simp add: patched_def Let_def l_def [symmetric] spaced_append)
  have "tokens (patched env line) = tokens a @ (xs @ es) @ tokens ?r"
    unfolding p by (rule tokens_insert) (use assms(9,11) a(2) in simp_all)
  moreover have "tokens a = take 2 ?ts" "tokens ?r = (if strips env then filter (\<lambda>w. \<not> locator_word w) (drop 2 ?ts) else drop 2 ?ts)"
    using a(3,4) tl l2 by simp_all
  ultimately show ?thesis by simp
qed

text \<open>From the configuration file to the init program: take a linux line whose words are either
  location parameters of any boot loader or free of them, and whose command and kernel path are free of them.
  GRUB still runs the same command on the same kernel, and what it passes to the kernel, the words behind the
  path, is read by premount-init as the location of the ISO: stale location parameters of the file are gone
  (for the families whose lines are cleaned) or there were none.\<close>

theorem patched_line_read_back:
  assumes "path_without_leading_slash loc = Some path" and "list_all (\<lambda>c. \<not> is_ws c) path" and "utf8_valid path"
    and "env = patch_env_for orig k (Some loc) target"
    and "is_linux (trim_start line)" and "\<not> contains line (pe_linux_extra env)" and "13 \<notin> set line"
    and "10 \<notin> set (butlast line)" and "2 \<le> length (tokens line)"
    and "list_all (\<lambda>w. locator_word w \<or> locator_free w) (tokens line)" and "list_all locator_free (take 2 (tokens line))"
    and "strips env \<or> list_all foreign (drop 2 (tokens line))"
  shows "take 2 (tokens (patched env line)) = take 2 (tokens line) \<and>
    parse_cmdline (Some (spaced (drop 2 (tokens (patched env line))))) = location_params loc path"
proof -
  let ?xs = "kind_words k (Some loc) @ param_words loc path"
  let ?rest = "if strips env then filter (\<lambda>w. \<not> locator_word w) (drop 2 (tokens line)) else drop 2 (tokens line)"
  obtain es where es: "eol_text k (Some loc) = spaced es" "list_all word es" "list_all foreign es"
    using eol_words [OF assms(1,2)] by blast
  have x: "pe_linux_extra env = spaced ?xs" using kind_text_words [of k loc] assms(1)
    by (simp add: assms(4) patch_env_for_def patch_env_of_def extra_text_def params_text_words spaced_append)
  have xw: "list_all word ?xs" using kind_text_words [of k loc] param_words_ok [OF assms(2)] by simp
  have e: "pe_eol_extra env = spaced es" using es(1) by (simp add: assms(4) patch_env_for_def patch_env_of_def)
  have t: "tokens (patched env line) = take 2 (tokens line) @ ?xs @ es @ ?rest"
    by (rule patched_linux_tokens [OF assms(5-11) x xw e es(2)])
  have l2: "length (take 2 (tokens line)) = 2" using assms(9) by simp
  have d: "drop 2 (tokens (patched env line)) = ?xs @ es @ ?rest" using t l2 by simp
  have f: "list_all foreign ?rest" using assms(12) other_words_foreign by (auto simp: list_all_iff)
  have w: "list_all word (?xs @ es @ ?rest)"
    using xw es(2) tokens_words [of "patched env line"] t by simp
  have "parse_cmdline (Some (spaced (drop 2 (tokens (patched env line))))) = fold apply_token (?xs @ es @ ?rest) no_params"
    unfolding d using tokens_spaced [OF w] by (simp add: parse_cmdline_def)
  also have "\<dots> = location_params loc path"
    using kind_text_words [of k loc] fold_param_words [OF assms(3)] es(3) f by (simp add: foreign_fold)
  finally show ?thesis using t l2 by simp
qed

section \<open>An empty parameter text\<close>

lemma short_line_panics:
  assumes "line = bstr ''linux /vmlinuz'' @ [10]" and "pe_linux_extra env = []" and "15 \<le> cap"
  shows "patch_loop env cap line [] = None"
proof -
  have p: "patch_line env cap line = None"
    using assms(1,2) by (simp add: patch_line_def Let_def line_start_def window_any_def is_linux_def
        has_prefix_def trim_start_def is_blank_def bstr_def)
  have run: "patch_loop env cap src out = patch_line env cap (out @ src)"
    if "10 \<notin> set (butlast src)" "src \<noteq> []" "length out + length src \<le> cap" for src out
    using that by (induction src arbitrary: out) (auto split: Option.bind_splits if_splits)
  have "patch_loop env cap line [] = patch_line env cap ([] @ line)"
    by (rule run) (use assms(1,3) in \<open>simp_all add: bstr_def\<close>)
  then show ?thesis using p by simp
qed

text \<open>C33: the parameters of a Fedora image on a GPT disk do not fit their 512-byte buffer once its path
  has 250 bytes; the patcher then goes on with an empty text and panics at the first linux line, because it
  asks for the windows of length 0 of the line.\<close>

theorem long_path_panics:
  assumes "\<not> is_mbr loc" and "250 \<le> file_path_len loc" and "file_path_len loc \<le> length (file_path loc)"
  shows "patch_grub_cfg (\<lambda>_. True) (bstr ''linux /vmlinuz'' @ [10]) FedoraLive iso_name (Some loc) target [] = None"
proof -
  let ?orig = "bstr ''linux /vmlinuz'' @ [10]"
  obtain path where p: "path_without_leading_slash loc = Some path" "249 \<le> length path"
  proof -
    let ?q = "take (file_path_len loc) (file_path loc)"
    have "length ?q \<ge> 250" using assms(2,3) by simp
    then obtain c cs where q: "?q = c # cs" "249 \<le> length cs" by (cases ?q) auto
    show ?thesis using that [of "if c = 47 then cs else ?q"] q assms(3)
      by (auto simp: path_without_leading_slash_def location_path_def bounds_simps)
  qed
  have "length (params_text loc path) \<ge> 384" using p(2) assms(1) partuuid_text_length [of loc]
      format_u64_value [of "ucast (partition_number loc)"] by (auto simp: params_text_def)
  then have "length (extra_text FedoraLive (Some loc)) > 512" using p
    by (simp add: extra_text_def kind_text_def kind_chunk_def)
  then have "linux_extra FedoraLive False (Some loc) (replicate 512 0) = Some None"
    using linux_extra_run [of "Some loc" FedoraLive False "replicate 512 0"] assms(3) by fastforce
  moreover have "eol_extra_dynamic (linux_eol_extra FedoraLive) (Some loc) = Some []"
    by (simp add: eol_extra_dynamic_def linux_eol_extra_def)
  moreover have "15 \<le> output_capacity ?orig (patch_env_of ?orig FedoraLive [] [] target)"
    by (simp add: output_capacity_def Let_def split: prod.splits)
  ultimately show ?thesis
    using short_line_panics [OF refl, of "patch_env_of ?orig FedoraLive [] [] target"]
    by (simp add: patch_grub_cfg_def patch_grub_cfg_impl_def Let_def patch_env_of_def)
qed

lemma contains_prefix: "contains w (a @ b) \<Longrightarrow> contains w a"
  by (induction w) (auto simp: has_prefix_iff)

lemma fedora_fresh: "contains l (extra_text FedoraLive loc) \<Longrightarrow> contains l (bstr '' root=live:/dev'')"
proof -
  have "\<exists>s. extra_text FedoraLive loc = bstr '' root=live:/dev'' @ s" by (simp add: extra_text_def kind_text_def kind_chunk_def bstr_def)
  then show "contains l (extra_text FedoraLive loc) \<Longrightarrow> ?thesis" using contains_prefix by metis
qed

lemma has_prefix_rules:
  "has_prefix xs []" "\<not> has_prefix [] (d # ds)" "has_prefix (c # cs) (d # ds) \<longleftrightarrow> c = d \<and> has_prefix cs ds"
  by (auto simp: has_prefix_iff)

definition long_loc :: iso_location where
  "long_loc = sample_loc\<lparr>file_path := replicate 255 97, file_path_len := 255\<rparr>"

lemma long_path_panics_witness:
  "patch_grub_cfg (\<lambda>_. True) (bstr ''linux /vmlinuz'' @ [10]) FedoraLive [] (Some long_loc) [] [] = None"
  by (rule long_path_panics) (simp_all add: long_loc_def sample_loc_def)

definition sample_cfg :: bytes where
  "sample_cfg = bstr ''set timeout=5'' @ [10] @ bstr ''linux /vmlinuz root=live:X quiet'' @ [10] @ bstr ''initrd /initrd'' @ [10]"

lemma grub_patch_linewise_witness:
  "patch_grub_cfg (\<lambda>_. True) sample_cfg FedoraLive [] (Some sample_loc) [] [] =
     Some (Some (bstr ''set timeout=5'' @ [10] @ bstr ''linux /vmlinuz'' @ extra_text FedoraLive (Some sample_loc)
       @ bstr '' quiet'' @ [10] @ bstr ''initrd /initrd /PREMOUNT.CPIO'' @ [10]))"
proof -
  let ?env = "patch_env_for sample_cfg FedoraLive (Some sample_loc) []"
  let ?l = "bstr ''linux /vmlinuz root=live:X quiet'' @ [10]"
  have p: "path_without_leading_slash sample_loc = Some (bstr ''ubuntu.iso'')" by code_simp
  have d: "length (format_u64 v) \<le> 20" for v using format_u64_value [of v] by simp
  have l1: "length (extra_text FedoraLive (Some sample_loc)) + 19 \<le> 512"
    using d [of 2] d [of "offset_bytes sample_loc"] d [of 2000000000] partuuid_text_length [of sample_loc]
    by (simp add: extra_text_def kind_text_def kind_chunk_def p params_text_def) (simp add: sample_loc_def)
  have l2: "extra_text FedoraLive (Some sample_loc) \<noteq> []"
    by (simp add: extra_text_def kind_text_def kind_chunk_def bstr_def)
  have g: "grub_lines sample_cfg = [bstr ''set timeout=5'' @ [10], bstr ''linux /vmlinuz root=live:X quiet'' @ [10],
      bstr ''initrd /initrd'' @ [10]]" by code_simp
  note line_defs = patched_def Let_def is_linux_def is_blscfg_def is_options_def is_initrd_def trim_start_def has_prefix_def
    is_blank_def bstr_def
  let ?x = "extra_text FedoraLive (Some sample_loc)"
  have "patched ?env (bstr ''set timeout=5'' @ [10]) = bstr ''set timeout=5'' @ [10]" by (simp add: line_defs)
  moreover have "patched ?env (bstr ''initrd /initrd'' @ [10]) = bstr ''initrd /initrd /PREMOUNT.CPIO'' @ [10]"
    by (simp add: line_defs patch_env_for_def patch_env_of_def effective_target_def before_eol_def)
  moreover have "patched ?env ?l = bstr ''linux /vmlinuz'' @ ?x @ bstr '' quiet'' @ [10]"
  proof -
    let ?m = "bstr ''linux /vmlinuz quiet'' @ [10]"
    have "\<not> contains ?l (bstr '' root=live:/dev'')" by (simp add: bstr_def has_prefix_rules)
    then have nc: "\<not> contains ?l ?x" using fedora_fresh by blast
    have st: "strip_args ?l = ?m" by (simp add: locator_patterns_def has_prefix_rules bstr_def is_blank_def is_break_def)
    have r: "second_arg_rest ?m = bstr '' quiet'' @ [10]" by (simp add: second_arg_rest_def bstr_def is_blank_def is_break_def)
    have e: "strips ?env" "pe_eol_extra ?env = []" "pe_linux_extra ?env = ?x"
      by (simp_all add: strips_def patch_env_for_def patch_env_of_def eol_text_def linux_eol_extra_def)
    have lin: "is_linux (trim_start ?l)" by (simp add: is_linux_def trim_start_def bstr_def has_prefix_rules is_blank_def)
    have t: "take (length ?m - length (bstr '' quiet'' @ [10])) ?m = bstr ''linux /vmlinuz''" by (simp add: bstr_def)
    show ?thesis unfolding patched_def Let_def e using nc lin by (simp only: e(1) if_True st r t append_Nil simp_thms)
  qed
  ultimately show ?thesis
    using grub_patch_linewise [OF _ l1 l2, of "[]" ?env sample_cfg "[]" "\<lambda>_. True" "[]"] g by (simp add: sample_loc_def)
qed

lemma patched_line_read_back_witness:
  "parse_cmdline (Some (spaced (drop 2 (tokens (patched (patch_env_for [] FedoraLive (Some sample_loc) [])
      (bstr ''linux /vmlinuz root=live:X choosable.iso_path=/old.iso quiet'' @ [10])))))) =
     location_params sample_loc (bstr ''ubuntu.iso'')"
proof -
  let ?env = "patch_env_for [] FedoraLive (Some sample_loc) []"
  let ?l = "bstr ''linux /vmlinuz root=live:X choosable.iso_path=/old.iso quiet'' @ [10]"
  have p: "path_without_leading_slash sample_loc = Some (bstr ''ubuntu.iso'')" by code_simp
  have w: "list_all (\<lambda>c. \<not> is_ws c) (bstr ''ubuntu.iso'')" "utf8_valid (bstr ''ubuntu.iso'')"
    by (simp_all add: bstr_def is_ws_def)
  have lin: "is_linux (trim_start ?l)" by (simp add: is_linux_def trim_start_def bstr_def has_prefix_rules is_blank_def)
  have "\<not> contains ?l (bstr '' root=live:/dev'')" by (simp add: bstr_def has_prefix_rules)
  then have nc: "\<not> contains ?l (pe_linux_extra ?env)"
    using fedora_fresh by (auto simp: patch_env_for_def patch_env_of_def)
  have ts: "tokens ?l = [bstr ''linux'', bstr ''/vmlinuz'', bstr ''root=live:X'', bstr ''choosable.iso_path=/old.iso'', bstr ''quiet'']"
    by (simp add: tokens.simps Let_def bstr_def is_ws_def)
  have n: "13 \<notin> set ?l" "10 \<notin> set (butlast ?l)" by (simp_all add: bstr_def)
  have k: "list_all (\<lambda>w. locator_word w \<or> locator_free w) (tokens ?l)" "list_all locator_free (take 2 (tokens ?l))"
    unfolding ts by (simp_all add: locator_word_def locator_free_def locator_patterns_def has_prefix_rules bstr_def)
  have s: "strips ?env" by (simp add: strips_def patch_env_for_def patch_env_of_def)
  show ?thesis using patched_line_read_back [OF p w refl lin nc n _ k disjI1 [OF s]] ts by simp
qed

end
