(* ===== verification/EfiDisk.thy ===== *)
theory EfiDisk
  imports InstallerTheorems PremountInit
begin

text \<open>
  Disk discovery of the UEFI loader (\<open>efi/src/disk.rs\<close>): the physical disk among the Block I/O
  handles, the walk over the GPT entries, and the identifiers of a partition. A disk is the function from a
  sector number to the 512 bytes that Block I/O reads there, or \<open>None\<close> when the read fails; the disk
  that the installer wrote provides it.
\<close>

section \<open>The physical disk\<close>

text \<open>
  A handle of the buffer: \<open>None\<close> when \<open>handle_protocol\<close> fails or returns the null pointer,
  otherwise the media (\<open>None\<close> is null), of which only the logical partition flag matters.
\<close>

type_synonym bio_handle = "u8 option option"

text \<open>\<open>None\<close> as a buffer: the lookup failed. The result is the index of the handle.\<close>

fun first_physical :: "bio_handle list \<Rightarrow> nat \<Rightarrow> nat option" where
  "first_physical [] i = None"
| "first_physical (h # hs) i =
     (case h of
        Some (Some lp) \<Rightarrow> if lp = 0 then Some i else first_physical hs (i + 1)
      | _ \<Rightarrow> first_physical hs (i + 1))"

definition find_disk_handle :: "bio_handle list option \<Rightarrow> nat option" where
  "find_disk_handle buf = (case buf of None \<Rightarrow> None | Some hs \<Rightarrow> first_physical hs 0)"

section \<open>GPT entries\<close>

text \<open>
  \<open>read_gpt_entries_with_index\<close>: the sector read last with its number is \<open>cache\<close>; the
  outer \<open>None\<close> is a panic.
\<close>

definition zero_guid :: bytes where
  "zero_guid = replicate 16 0"

fun entry_loop ::
  "(u64 \<Rightarrow> bytes option) \<Rightarrow> (nat \<Rightarrow> nat \<Rightarrow> bytes \<Rightarrow> 'a option option) \<Rightarrow> u64 \<Rightarrow> nat \<Rightarrow> nat \<Rightarrow> nat \<Rightarrow>
     (u64 \<times> bytes) option \<Rightarrow> 'a option option" where
  "entry_loop rd f entries_lba sz i 0 cache = Some None"
| "entry_loop rd f entries_lba sz i (Suc n) cache =
     (let eoff = i * sz; lba = entries_lba + word_of_nat (eoff div 512); boff = eoff mod 512
      in if boff + 40 > 512 then entry_loop rd f entries_lba sz (i + 1) n cache
         else
           let loaded = (case cache of Some (l, s) \<Rightarrow> if l = lba then Some s else rd lba | None \<Rightarrow> rd lba)
           in case loaded of
                None \<Rightarrow> Some None
              | Some sec \<Rightarrow> do {
                  ty \<leftarrow> slice sec boff (boff + 16);
                  if ty = zero_guid then entry_loop rd f entries_lba sz (i + 1) n (Some (lba, sec))
                  else do {
                    r \<leftarrow> f i boff sec;
                    case r of Some x \<Rightarrow> Some (Some x)
                    | None \<Rightarrow> entry_loop rd f entries_lba sz (i + 1) n (Some (lba, sec)) } })"

definition read_gpt_entries_with_index ::
  "(u64 \<Rightarrow> bytes option) \<Rightarrow> (nat \<Rightarrow> nat \<Rightarrow> bytes \<Rightarrow> 'a option option) \<Rightarrow> 'a option option" where
  "read_gpt_entries_with_index rd f =
     (case rd 1 of
        None \<Rightarrow> Some None
      | Some hdr_sec \<Rightarrow> do {
          sig \<leftarrow> slice hdr_sec 0 8;
          if sig \<noteq> bstr ''EFI PART'' then Some None
          else do {
            entries_lba \<leftarrow> u64_at hdr_sec 72;
            n \<leftarrow> u32_at hdr_sec 80;
            sz \<leftarrow> u32_at hdr_sec 84;
            if sz = 0 \<or> n = 0 then Some None
            else entry_loop rd f entries_lba (unat sz) 0 (unat (min n 128)) None } })"

definition read_partition_guid :: "bytes \<Rightarrow> nat \<Rightarrow> guid option" where
  "read_partition_guid sec boff = do {
     d1 \<leftarrow> u32_at sec (boff + 16);
     d2 \<leftarrow> u16_at sec (boff + 20);
     d3 \<leftarrow> u16_at sec (boff + 22);
     d4 \<leftarrow> slice sec (boff + 24) (boff + 32);
     Some \<lparr>g_d1 = d1, g_d2 = d2, g_d3 = d3, g_d4 = d4\<rparr> }"

definition basic_data_guid :: bytes where
  "basic_data_guid = [0xA2, 0xA0, 0xD0, 0xEB, 0xE5, 0xB9, 0x33, 0x44, 0x87, 0xC0, 0x68, 0xB6, 0xB7, 0x26, 0x99, 0xC7]"

definition find_gpt_data_partition :: "(u64 \<Rightarrow> bytes option) \<Rightarrow> (u64 \<times> guid \<times> u32) option option" where
  "find_gpt_data_partition rd = read_gpt_entries_with_index rd (\<lambda>entry_index boff sec. do {
     ty \<leftarrow> slice sec boff (boff + 16);
     if ty = basic_data_guid then do {
       start_lba \<leftarrow> u64_at sec (boff + 32);
       part_guid \<leftarrow> read_partition_guid sec boff;
       Some (Some (start_lba, part_guid, word_of_nat (entry_index + 1))) }
     else Some None })"

definition find_partition_by_lba :: "(u64 \<Rightarrow> bytes option) \<Rightarrow> u64 \<Rightarrow> (guid \<times> u32) option option" where
  "find_partition_by_lba rd target_lba = read_gpt_entries_with_index rd (\<lambda>entry_index boff sec. do {
     start_lba \<leftarrow> u64_at sec (boff + 32);
     if start_lba = target_lba then do {
       part_guid \<leftarrow> read_partition_guid sec boff;
       Some (Some (part_guid, word_of_nat (entry_index + 1))) }
     else Some None })"

definition read_mbr_guid :: "bytes \<Rightarrow> guid option" where
  "read_mbr_guid mbr = do {
     disk_sig \<leftarrow> slice mbr 440 444;
     Some \<lparr>g_d1 = 0, g_d2 = 0, g_d3 = 0, g_d4 = replicate 4 0 @ disk_sig\<rparr> }"

section \<open>The walk as a search\<close>

text \<open>Without its cache the loop is a search through the entries in their sectors.\<close>

fun entry_search ::
  "(u64 \<Rightarrow> bytes option) \<Rightarrow> (nat \<Rightarrow> nat \<Rightarrow> bytes \<Rightarrow> 'a option) \<Rightarrow> u64 \<Rightarrow> nat \<Rightarrow> nat list \<Rightarrow> 'a option" where
  "entry_search rd f e sz [] = None"
| "entry_search rd f e sz (i # is) =
     (let boff = i * sz mod 512
      in if boff + 40 > 512 then entry_search rd f e sz is
         else case rd (e + word_of_nat (i * sz div 512)) of
                None \<Rightarrow> None
              | Some sec \<Rightarrow>
                  if take 16 (drop boff sec) = zero_guid then entry_search rd f e sz is
                  else case f i boff sec of Some x \<Rightarrow> Some x | None \<Rightarrow> entry_search rd f e sz is)"

context sector_source
begin

lemma entry_loop_search:
  assumes "\<And>i boff s. length s = 512 \<Longrightarrow> boff + 40 \<le> 512 \<Longrightarrow> f i boff s = Some (g i boff s)"
  shows "(\<And>l s. cache = Some (l, s) \<Longrightarrow> rd l = Some s) \<Longrightarrow>
     entry_loop rd f e sz i n cache = Some (entry_search rd g e sz [i..<i + n])"
proof (induction n arbitrary: i cache)
  case (Suc n)
  let ?lba = "e + word_of_nat (i * sz div 512)"
  have up: "[i..<i + Suc n] = i # [Suc i..<Suc i + n]" by (simp add: upt_conv_Cons)
  have ld: "(case cache of Some (l, s) \<Rightarrow> if l = ?lba then Some s else rd ?lba | None \<Rightarrow> rd ?lba) = rd ?lba"
    using Suc.prems by (auto split: option.splits)
  show ?case
  proof (cases "i * sz mod 512 + 40 > 512")
    case True
    then show ?thesis using Suc.IH [of cache "Suc i"] Suc.prems unfolding up by (simp add: Let_def)
  next
    case False
    show ?thesis
    proof (cases "rd ?lba")
      case None
      then show ?thesis using False ld unfolding up by (simp add: Let_def)
    next
      case (Some sec)
      have l: "length sec = 512" by (rule rd_length [OF Some])
      have IH: "entry_loop rd f e sz (Suc i) n (Some (?lba, sec)) = Some (entry_search rd g e sz [Suc i..<Suc i + n])"
        by (rule Suc.IH) (use Some in auto)
      show ?thesis
        using False ld Some l IH assms [OF l, of "i * sz mod 512" i] unfolding up
        by (auto simp: Let_def bounds_simps split: option.splits)
    qed
  qed
qed simp

end

section \<open>The sectors of the installed disk\<close>

definition sector_of :: "vdisk \<Rightarrow> u64 \<Rightarrow> bytes option" where
  "sector_of d lba = (case disk_read d (unat lba * 512) 512 of Inr s \<Rightarrow> Some s | Inl _ \<Rightarrow> None)"

interpretation installed: sector_source "sector_of d" for d
  by unfold_locales (auto simp: sector_of_def disk_read_def split: sum.splits if_splits)

definition guid_of :: "bytes \<Rightarrow> guid" where
  "guid_of bs = \<lparr>g_d1 = from_le (take 4 bs), g_d2 = from_le (take 2 (drop 4 bs)), g_d3 = from_le (take 2 (drop 6 bs)),
     g_d4 = take 8 (drop 8 bs)\<rparr>"

lemma read_partition_guid_at:
  "boff + 32 \<le> length sec \<Longrightarrow> read_partition_guid sec boff = Some (guid_of (take 16 (drop (boff + 16) sec)))"
  by (simp add: read_partition_guid_def guid_of_def bounds_simps drop_take take_take min_def add.commute)

lemma gpe_fields:
  assumes "gpe_wf e" and "take 128 (drop boff sec) = gpe_bytes e" and "boff + 128 \<le> length sec"
  shows "take 16 (drop boff sec) = gpe_part_type_guid e" "take 16 (drop (boff + 16) sec) = gpe_unique_part_guid e"
    "take 8 (drop (boff + 32) sec) = to_le 8 (gpe_start_lba e)"
proof -
  have t: "take n (drop (boff + k) sec) = take n (drop k (gpe_bytes e))" if "k + n \<le> 128" for k n
    using that by (simp add: assms(2) [symmetric] drop_take take_take min_def add.commute)
  show "take 16 (drop boff sec) = gpe_part_type_guid e" using t [of 0 16] assms(1) by (simp add: gpe_bytes_def gpe_wf_def)
  show "take 16 (drop (boff + 16) sec) = gpe_unique_part_guid e" using t [of 16 16] assms(1) by (simp add: gpe_bytes_def gpe_wf_def)
  show "take 8 (drop (boff + 32) sec) = to_le 8 (gpe_start_lba e)" using t [of 32 8] assms(1) by (simp add: gpe_bytes_def gpe_wf_def)
qed

lemma entry_in_sector: "i * 128 mod 512 + 128 \<le> (512 :: nat)"
proof -
  have "i * 128 mod (4 * 128) = i mod 4 * 128" by (rule mod_mult_mult2)
  moreover have "i mod 4 < 4" by simp
  ultimately show ?thesis by simp
qed

text \<open>Entry i lies in sector 2 + i / 4.\<close>

lemma table_sector:
  assumes tab: "disk_read d 1024 16384 = Inr (concat (map gpe_bytes ps))"
    and wf: "\<forall>e\<in>set ps. gpe_wf e" and len: "length ps = 128" and i: "i < 128"
  shows "\<exists>s. sector_of d (2 + word_of_nat (i * 128 div 512)) = Some s \<and> length s = 512 \<and>
    take 128 (drop (i * 128 mod 512) s) = gpe_bytes (ps ! i)"
proof -
  let ?k = "i * 128 div 512" and ?t = "concat (map gpe_bytes ps)"
  have k: "?k < 32" using i by simp
  have u: "unat (2 + word_of_nat ?k :: u64) * 512 = 1024 + ?k * 512"
  proof -
    have "2 + word_of_nat ?k = (word_of_nat (2 + ?k) :: u64)" by simp
    then show ?thesis using k unat_of_nat_small [of "2 + ?k", where ?'a = 64] by simp
  qed
  have rd: "disk_read d (1024 + ?k * 512) 512 = Inr (take 512 (drop (?k * 512) ?t))"
    using disk.read_sub [OF tab, of "?k * 512" 512] k by simp
  have "i * 128 = ?k * 512 + i * 128 mod 512" by (rule div_mult_mod_eq [symmetric])
  moreover have "i * 128 mod 512 + 128 \<le> 512" by (rule entry_in_sector)
  ultimately have "take 128 (drop (i * 128 mod 512) (take 512 (drop (?k * 512) ?t))) = take 128 (drop (i * 128) ?t)"
    by (simp add: drop_take take_take min_def add.commute)
  also have "\<dots> = gpe_bytes (ps ! i)" using gpe.array_slice [OF wf] i len by simp
  finally have t: "take 128 (drop (i * 128 mod 512) (take 512 (drop (?k * 512) ?t))) = gpe_bytes (ps ! i)" .
  have "sector_of d (2 + word_of_nat ?k) = Some (take 512 (drop (?k * 512) ?t))" by (simp only: sector_of_def u rd sum.case)
  then show ?thesis using t installed.rd_length by blast
qed

text \<open>What the walk sees of an entry: its type, its GUID and its start.\<close>

definition entry_view :: "(nat \<Rightarrow> nat \<Rightarrow> bytes \<Rightarrow> 'a option) \<Rightarrow> (nat \<Rightarrow> gpt_partition_entry \<Rightarrow> 'a option) \<Rightarrow> bool" where
  "entry_view g h \<longleftrightarrow> (\<forall>i boff sec e. length sec = 512 \<longrightarrow> boff + 128 \<le> 512 \<longrightarrow> gpe_wf e \<longrightarrow>
     take 128 (drop boff sec) = gpe_bytes e \<longrightarrow> g i boff sec = h i e)"

fun table_search :: "(nat \<Rightarrow> gpt_partition_entry \<Rightarrow> 'a option) \<Rightarrow> gpt_partition_entry list \<Rightarrow> nat list \<Rightarrow> 'a option" where
  "table_search h ps [] = None"
| "table_search h ps (i # is) =
     (if gpe_part_type_guid (ps ! i) = zero_guid then table_search h ps is
      else case h i (ps ! i) of Some x \<Rightarrow> Some x | None \<Rightarrow> table_search h ps is)"

lemma entry_search_table:
  assumes tab: "disk_read d 1024 16384 = Inr (concat (map gpe_bytes ps))"
    and wf: "\<forall>e\<in>set ps. gpe_wf e" and len: "length ps = 128" and v: "entry_view g h"
  shows "\<forall>i\<in>set is. i < 128 \<Longrightarrow> entry_search (sector_of d) g 2 128 is = table_search h ps is"
proof (induction "is")
  case (Cons i "is")
  then have i: "i < 128" by simp
  obtain s where s: "sector_of d (2 + word_of_nat (i * 128 div 512)) = Some s" "length s = 512"
    "take 128 (drop (i * 128 mod 512) s) = gpe_bytes (ps ! i)" using table_sector [OF tab wf len i] by blast
  have b: "i * 128 mod 512 + 128 \<le> 512" by (rule entry_in_sector)
  have w: "gpe_wf (ps ! i)" using wf len i by simp
  have gh: "g i (i * 128 mod 512) s = h i (ps ! i)" using v s(2,3) b w by (simp add: entry_view_def)
  have ty: "take 16 (drop (i * 128 mod 512) s) = gpe_part_type_guid (ps ! i)" using gpe_fields [OF w s(3)] b s(2) by simp
  have nb: "\<not> i * 128 mod 512 + 40 > 512" using b by linarith
  have IH: "entry_search (sector_of d) g 2 128 is = table_search h ps is" using Cons by simp
  show ?case by (simp only: entry_search.simps table_search.simps Let_def nb if_False s(1) option.case ty gh IH)
qed simp

section \<open>The loader reads the table that the installer wrote\<close>

lemma header_sector:
  assumes "disk_read d 512 512 = Inr (hdr_bytes h)" and "hdr_wf h"
  shows "sector_of d 1 = Some (hdr_bytes h)" "slice (hdr_bytes h) 0 8 = Some (hdr_signature h)"
    "u64_at (hdr_bytes h) 72 = Some (hdr_part_table_start_lba h)" "u32_at (hdr_bytes h) 80 = Some (hdr_part_table_num_entries h)"
    "u32_at (hdr_bytes h) 84 = Some (hdr_part_table_entry_size h)"
proof -
  note l = hdr.enc_length [OF assms(2)] and r = hdr.dec_enc [OF assms(2), unfolded hdr_of_bytes_def]
  show "sector_of d 1 = Some (hdr_bytes h)" by (simp add: sector_of_def assms(1))
  show "slice (hdr_bytes h) 0 8 = Some (hdr_signature h)"
    using arg_cong [OF r, of hdr_signature] l by (simp add: bounds_simps)
  show "u64_at (hdr_bytes h) 72 = Some (hdr_part_table_start_lba h)"
    using arg_cong [OF r, of hdr_part_table_start_lba] l by (simp add: bounds_simps)
  show "u32_at (hdr_bytes h) 80 = Some (hdr_part_table_num_entries h)"
    using arg_cong [OF r, of hdr_part_table_num_entries] l by (simp add: bounds_simps)
  show "u32_at (hdr_bytes h) 84 = Some (hdr_part_table_entry_size h)"
    using arg_cong [OF r, of hdr_part_table_entry_size] l by (simp add: bounds_simps)
qed

definition on_disk :: "vdisk \<Rightarrow> gpt_info \<Rightarrow> bool" where
  "on_disk d g \<longleftrightarrow> gpt_placed g \<and> disk_read d 512 512 = Inr (hdr_bytes (header g)) \<and>
     disk_read d 1024 16384 = Inr (gpt_table_bytes g)"

lemma walk_is_search:
  assumes g: "on_disk d g"
    and f: "\<And>i boff s. length s = 512 \<Longrightarrow> boff + 40 \<le> 512 \<Longrightarrow> f i boff s = Some (gv i boff s)" and v: "entry_view gv h"
  shows "read_gpt_entries_with_index (sector_of d) f =
    Some (table_search h (gpt_partitions g) [0..<unat (min (hdr_part_table_num_entries (header g)) 128)])"
proof -
  let ?h = "header g" and ?n = "unat (min (hdr_part_table_num_entries (header g)) 128)"
  have wf: "hdr_wf ?h" "\<forall>e\<in>set (gpt_partitions g). gpe_wf e" "length (gpt_partitions g) = 128"
    and pl: "hdr_signature ?h = GPT_SIGNATURE" "hdr_part_table_start_lba ?h = 2" "hdr_part_table_entry_size ?h = 128"
    using g by (simp_all add: on_disk_def gpt_placed_def gpt_wf_def)
  note hs = header_sector [OF _ wf(1), of d] 
  have hb: "disk_read d 512 512 = Inr (hdr_bytes ?h)" using g by (simp add: on_disk_def)
  have tab: "disk_read d 1024 16384 = Inr (concat (map gpe_bytes (gpt_partitions g)))"
    using g by (simp add: on_disk_def gpt_table_bytes_def)
  have n: "?n \<le> 128" by (simp add: min_def word_le_nat_alt)
  have "entry_loop (sector_of d) f 2 128 0 ?n None = Some (entry_search (sector_of d) gv 2 128 [0..<0 + ?n])"
    by (rule installed.entry_loop_search [OF f]) simp_all
  moreover have "entry_search (sector_of d) gv 2 128 [0..<0 + ?n] = table_search h (gpt_partitions g) [0..<?n]"
    using entry_search_table [OF tab wf(2,3) v, of "[0..<?n]"] n by simp
  moreover have "hdr_part_table_num_entries ?h = 0 \<Longrightarrow> ?n = 0" by (simp add: min_def)
  moreover have "GPT_SIGNATURE = bstr ''EFI PART''" by (simp add: GPT_SIGNATURE_def bstr_def)
  ultimately show ?thesis using hs [OF hb] pl by (auto simp: read_gpt_entries_with_index_def)
qed

lemma find_by_lba_search:
  assumes "on_disk d g"
  shows "find_partition_by_lba (sector_of d) target = Some (table_search
    (\<lambda>i e. if gpe_start_lba e = target then Some (guid_of (gpe_unique_part_guid e), word_of_nat (i + 1)) else None)
    (gpt_partitions g) [0..<unat (min (hdr_part_table_num_entries (header g)) 128)])"
  unfolding find_partition_by_lba_def
proof (rule walk_is_search [OF assms,
    where gv = "\<lambda>i boff s. if from_le (take 8 (drop (boff + 32) s)) = target
      then Some (guid_of (take 16 (drop (boff + 16) s)), word_of_nat (i + 1)) else None"])
qed (auto simp: bounds_simps read_partition_guid_at entry_view_def gpe_fields)

lemma find_data_search:
  assumes "on_disk d g"
  shows "find_gpt_data_partition (sector_of d) = Some (table_search
    (\<lambda>i e. if gpe_part_type_guid e = basic_data_guid
       then Some (gpe_start_lba e, guid_of (gpe_unique_part_guid e), word_of_nat (i + 1)) else None)
    (gpt_partitions g) [0..<unat (min (hdr_part_table_num_entries (header g)) 128)])"
  unfolding find_gpt_data_partition_def
proof (rule walk_is_search [OF assms,
    where gv = "\<lambda>i boff s. if take 16 (drop boff s) = basic_data_guid
      then Some (from_le (take 8 (drop (boff + 32) s)), guid_of (take 16 (drop (boff + 16) s)), word_of_nat (i + 1)) else None"])
qed (auto simp: bounds_simps read_partition_guid_at entry_view_def gpe_fields)

lemma write_gpt_on_disk:
  assumes wr: "write_gpt_f crc boot stage2 dg g1 g2 d sz reserve = Some (Inr (d', p2))"
    and guids: "length dg = 16" "length g1 = 16" "length g2 = 16" and sz: "67 * 512 \<le> sz"
  shows "\<exists>g. on_disk d' g \<and> gpt_partitions g = gpt_partitions (gpt_install_info sz reserve dg g1 g2) \<and>
    hdr_part_table_num_entries (header g) = 128"
proof -
  let ?i = "gpt_install_info sz reserve dg g1 g2"
  from wr obtain g d1 d2 s where fin: "finalize_gpt_crcs crc ?i = Some g"
    and w2: "gpt_write_to_disk crc g d1 = Inr d2" and rs: "disk_read d2 0 512 = Inr s"
    and w3: "disk_write d2 0 (gpt_boot_sector boot dg s) = Inr d'"
    by (auto simp: write_gpt_f_def Let_def rbind_Inr_iff)
  note pl0 = gpt_install_placed [OF guids sz, of reserve]
  note fp = finalize_placed [OF fin pl0]
  note reg = gpt_write_regions [OF fp(1) w2]
  have ls: "length s = 512" using rs by (auto simp: disk_read_def split: if_splits)
  note bl = gpt_boot_sector_read(1) [OF ls guids(1), of boot]
  have "disk_read d' 512 512 = Inr (hdr_bytes (header g))" "disk_read d' 1024 16384 = Inr (gpt_table_bytes g)"
    using disk.read_after [OF w3] reg(2,3) bl by auto
  moreover have "hdr_part_table_num_entries (header g) = 128"
    using fin by (auto simp: finalize_gpt_crcs_def Let_def gpt_install_info_def gpt_new_choosable_def hdr_new_def)
  ultimately show ?thesis using fp by (auto simp: on_disk_def)
qed

text \<open>The table that a completed GPT installation leaves, and what the walks find in such a table.\<close>

definition installed_table :: "vdisk \<Rightarrow> gpt_info \<Rightarrow> bytes \<Rightarrow> bool" where
  "installed_table d g guid \<longleftrightarrow> on_disk d g \<and> hdr_part_table_num_entries (header g) = 128 \<and>
     gpe_part_type_guid (gpt_partitions g ! 0) = GPT_TYPE_BASIC_DATA \<and> gpe_unique_part_guid (gpt_partitions g ! 0) = guid \<and>
     gpe_start_lba (gpt_partitions g ! 0) = CHOOSABLE_PART1_START_SECTOR"

lemma install_leaves_table:
  assumes "install_choosable env tools True sb r force yes d = Inr (d', Some p)"
    and "length (env_guid env) = 16" "length (env_guid1 env) = 16" "length (env_guid2 env) = 16" and "r < 2 ^ 52"
  shows "\<exists>g. installed_table d' g (env_guid1 env)"
proof -
  from install_choosable_written [OF assms(1)] obtain sz d0 where g: "size_guards True sz r = Inr ()"
    and w: "write_gpt_f (env_crc env) (env_boot_img env) (env_stage2 env) (env_guid env) (env_guid1 env)
      (env_guid2 env) d0 sz r = Some (Inr (d', p))" by auto
  have "67 * 512 \<le> sz" using size_guards_total(1) [OF g assms(5)] by (simp add: word_le_nat_alt)
  then obtain g where od: "on_disk d' g" "hdr_part_table_num_entries (header g) = 128"
    "gpt_partitions g = gpt_partitions (gpt_install_info sz r (env_guid env) (env_guid1 env) (env_guid2 env))"
    using write_gpt_on_disk [OF w assms(2-4)] by blast
  have "installed_table d' g (env_guid1 env)"
    unfolding installed_table_def od(3) using od(1,2) by (simp add: gpt_install_info_def gpt_new_choosable_def Let_def)
  then show ?thesis by blast
qed

lemma table_is_found:
  assumes "installed_table d g guid"
  shows "find_gpt_data_partition (sector_of d) = Some (Some (CHOOSABLE_PART1_START_SECTOR, guid_of guid, 1))"
    "find_partition_by_lba (sector_of d) CHOOSABLE_PART1_START_SECTOR = Some (Some (guid_of guid, 1))"
proof -
  have od: "on_disk d g" "hdr_part_table_num_entries (header g) = 128" and p0: "gpe_part_type_guid (gpt_partitions g ! 0) = GPT_TYPE_BASIC_DATA"
    "gpe_unique_part_guid (gpt_partitions g ! 0) = guid" "gpe_start_lba (gpt_partitions g ! 0) = CHOOSABLE_PART1_START_SECTOR"
    using assms by (simp_all add: installed_table_def)
  have "hd GPT_TYPE_BASIC_DATA \<noteq> hd zero_guid" by (simp add: GPT_TYPE_BASIC_DATA_def zero_guid_def hd_replicate)
  then have z: "GPT_TYPE_BASIC_DATA \<noteq> zero_guid" by metis
  have b: "GPT_TYPE_BASIC_DATA = basic_data_guid" by (simp add: GPT_TYPE_BASIC_DATA_def basic_data_guid_def)
  have "[0..<128] = 0 # [Suc 0..<128]" by (rule upt_conv_Cons) simp
  then have up: "[0..<unat (min (128 :: u32) 128)] = 0 # [Suc 0..<128]" by (simp del: upt_rec_numeral upt_Suc)
  show "find_gpt_data_partition (sector_of d) = Some (Some (CHOOSABLE_PART1_START_SECTOR, guid_of guid, 1))"
    using p0 z b unfolding find_data_search [OF od(1)] od(2) up by (simp del: upt_rec_numeral upt_Suc)
  show "find_partition_by_lba (sector_of d) CHOOSABLE_PART1_START_SECTOR = Some (Some (guid_of guid, 1))"
    using p0 z b unfolding find_by_lba_search [OF od(1)] od(2) up by (simp del: upt_rec_numeral upt_Suc)
qed

text \<open>The UEFI loader finds what the installer wrote: after any completed GPT installation the walk
  over the entries for a basic data partition, and the walk for the partition at sector 2048, both end at
  partition 1 with the GUID that the installer drew for it and number 1.\<close>

theorem loader_finds_installed:
  assumes "install_choosable env tools True sb r force yes d = Inr (d', Some p)"
    and "length (env_guid env) = 16" "length (env_guid1 env) = 16" "length (env_guid2 env) = 16" and "r < 2 ^ 52"
  shows "find_gpt_data_partition (sector_of d') = Some (Some (CHOOSABLE_PART1_START_SECTOR, guid_of (env_guid1 env), 1)) \<and>
    find_partition_by_lba (sector_of d') CHOOSABLE_PART1_START_SECTOR = Some (Some (guid_of (env_guid1 env), 1))"
  using install_leaves_table [OF assms] table_is_found by blast

lemma loader_finds_installed_witness:
  "\<exists>d' p. install_choosable sample_env (\<lambda>_. Inr ()) True False 0 True True blank_disk = Inr (d', Some p) \<and>
     find_partition_by_lba (sector_of d') 2048 = Some (Some (guid_of (replicate 16 1), 1))"
proof -
  obtain d' p where run: "install_choosable sample_env (\<lambda>_. Inr ()) True False 0 True True blank_disk = Inr (d', Some p)"
    using sample_run by blast
  from loader_finds_installed [OF run] run show ?thesis
    by (auto simp: sample_env_def CHOOSABLE_PART1_START_SECTOR_def)
qed

section \<open>The partition's UUID as text\<close>

definition hexes :: "bytes \<Rightarrow> bytes" where
  "hexes bs = concat (map byte_hex bs)"

lemma le_nat_digits:
  "k < length bs \<Longrightarrow> le_nat bs div 256 ^ k mod 16 = unat (bs ! k) mod 16 \<and>
     le_nat bs div 256 ^ k div 16 mod 16 = unat (bs ! k) div 16"
proof (induction bs arbitrary: k)
  case (Cons b bs)
  have b: "unat b < 256" using unsigned_less [of b, where ?'a = nat] by simp
  show ?case
  proof (cases k)
    case 0
    have e: "unat b + 256 * le_nat bs = unat b + 16 * le_nat bs * 16" by simp
    have "(unat b + 256 * le_nat bs) mod 16 = unat b mod 16" unfolding e by (rule mod_mult_self1)
    moreover have "(unat b + 256 * le_nat bs) div 16 = 16 * le_nat bs + unat b div 16" unfolding e by (rule div_mult_self1) simp
    moreover have "unat b div 16 < 16" using b by simp
    ultimately show ?thesis using 0 by simp
  next
    case (Suc j)
    have "(unat b + 256 * le_nat bs) div 256 = le_nat bs" using b by simp
    then have "le_nat (b # bs) div 256 ^ Suc j = le_nat bs div 256 ^ j" by (simp add: div_mult2_eq)
    then show ?thesis using Cons Suc by simp
  qed
qed simp

lemma unat_low_nibble: "unat (x AND 0xF :: 'a::len word) = unat x mod 16"
proof -
  have e: "x AND 0xF = take_bit 4 x" by (simp add: take_bit_eq_mask mask_eq_exp_minus_1)
  show ?thesis unfolding e unsigned_take_bit_eq by (simp add: take_bit_eq_mod)
qed

lemma unat_shift: "unat (drop_bit n w) = unat w div 2 ^ n"
  by (metis drop_bit_eq_div unat_drop_bit_eq)

lemma byte_hex_nat: "byte_hex b = [HEX ! (unat b div 16), HEX ! (unat b mod 16)]"
  by (simp add: byte_hex_def unat_low_nibble unat_shift)

lemma hex_at_le:
  assumes "unat v = le_nat bs" and "k < length bs"
  shows "[hex_at v (2 * k + 1), hex_at v (2 * k)] = byte_hex (bs ! k)"
proof -
  have p: "2 ^ ((2 * k) * 4) = (256 :: nat) ^ k" "2 ^ ((2 * k + 1) * 4) = (256 :: nat) ^ k * 16"
    by (simp_all add: power_mult power_add)
  have "hex_at v (2 * k) = HEX ! (le_nat bs div 256 ^ k mod 16)"
    by (simp only: hex_at_def unat_low_nibble unat_shift assms(1) p)
  moreover have "hex_at v (2 * k + 1) = HEX ! (le_nat bs div 256 ^ k div 16 mod 16)"
    by (simp only: hex_at_def unat_low_nibble unat_shift assms(1) p div_mult2_eq)
  ultimately show ?thesis using le_nat_digits [OF assms(2)] by (simp add: byte_hex_nat)
qed

lemma hex_digits_le:
  assumes "unat v = le_nat bs"
  shows "n \<le> length bs \<Longrightarrow> map (hex_at v) (rev [0..<2 * n]) = hexes (rev (take n bs))"
proof (induction n)
  case (Suc n)
  have "rev [0..<2 * Suc n] = [2 * n + 1, 2 * n] @ rev [0..<2 * n]" by simp
  moreover have "rev (take (Suc n) bs) = bs ! n # rev (take n bs)" using Suc.prems by (simp add: take_Suc_conv_app_nth)
  ultimately show ?case using Suc hex_at_le [OF assms, of n] by (simp add: hexes_def)
qed (simp add: hexes_def)

lemma hexes_range: "b \<le> length t \<Longrightarrow> concat (map (\<lambda>j. byte_hex (t ! j)) [a..<b]) = hexes (take (b - a) (drop a t))"
proof -
  assume "b \<le> length t"
  then have "map ((!) t) [a..<b] = take (b - a) (drop a t)" by (intro nth_equalityI) auto
  then have "map byte_hex (map ((!) t) [a..<b]) = map byte_hex (take (b - a) (drop a t))" by (rule arg_cong)
  then show ?thesis by (simp add: hexes_def comp_def)
qed

lemma from_le_value: "length bs * 8 \<le> LENGTH('a::len) \<Longrightarrow> unat (from_le bs :: 'a word) = le_nat bs"
proof -
  assume l: "length bs * 8 \<le> LENGTH('a)"
  have "le_nat bs < 256 ^ length bs" by (rule le_nat_bound)
  also have "(256 :: nat) ^ length bs = 2 ^ (8 * length bs)" by (simp add: power_mult)
  also have "\<dots> = 2 ^ (length bs * 8)" by (simp only: mult.commute)
  also have "\<dots> \<le> 2 ^ LENGTH('a)" using l by simp
  finally show ?thesis by (simp add: from_le_def unat_of_nat_small)
qed

text \<open>The PARTUUID that the loader puts on the command line is the one Linux gives the partition: for
  a GPT partition the first three fields of the 16 GUID bytes in reversed byte order and the rest in order;
  on an MBR disk the four signature bytes of sector 0 in reversed order and the partition number in two
  digits.\<close>

theorem partuuid_as_linux:
  "(length bs = 16 \<longrightarrow> guid_chars (guid_of bs) = hexes (rev (take 4 bs)) @ [45] @ hexes (rev (take 2 (drop 4 bs))) @ [45]
      @ hexes (rev (take 2 (drop 6 bs))) @ [45] @ hexes (take 2 (drop 8 bs)) @ [45] @ hexes (take 6 (drop 10 bs))) \<and>
   (length sec = 512 \<longrightarrow> (\<exists>g. read_mbr_guid sec = Some g \<and>
      mbr_chars g n = hexes (rev (take 4 (drop 440 sec))) @ [45, hex_at n 1, hex_at n 0]))"
proof (intro conjI impI)
  assume l: "length bs = 16"
  have u4: "unat (from_le (take 4 bs) :: u32) = le_nat (take 4 bs)" using l by (simp add: from_le_value)
  have u2: "unat (ucast (from_le (take 2 (drop k bs)) :: u16) :: u32) = le_nat (take 2 (drop k bs))" for k
  proof -
    have "unat (from_le (take 2 (drop k bs)) :: u16) = le_nat (take 2 (drop k bs))" by (simp add: from_le_value)
    moreover have "le_nat (take 2 (drop k bs)) < 2 ^ 32"
    proof -
      have "le_nat (take 2 (drop k bs)) < 256 ^ length (take 2 (drop k bs))" by (rule le_nat_bound)
      also have "\<dots> \<le> 256 ^ 2" by (rule power_increasing) simp_all
      finally show ?thesis by simp
    qed
    ultimately show ?thesis by (simp add: unsigned_ucast_eq take_bit_nat_eq_self)
  qed
  have "map (hex_at (from_le (take 4 bs))) (rev [0..<2 * 4]) = hexes (rev (take 4 bs))"
    using hex_digits_le [OF u4, of 4] l by simp
  moreover have "map (hex_at (ucast (from_le (take 2 (drop k bs)) :: u16))) (rev [0..<2 * 2]) = hexes (rev (take 2 (drop k bs)))"
    if "k + 2 \<le> 16" for k using hex_digits_le [OF u2, of 2 k] l that by simp
  moreover have "concat (map (\<lambda>j. byte_hex (take 8 (drop 8 bs) ! j)) [0..<2]) = hexes (take 2 (drop 8 bs))"
    "concat (map (\<lambda>j. byte_hex (take 8 (drop 8 bs) ! j)) [2..<8]) = hexes (take 6 (drop 10 bs))"
    using l hexes_range [of 2 "take 8 (drop 8 bs)" 0] hexes_range [of 8 "take 8 (drop 8 bs)" 2]
    by (simp_all add: drop_take take_take min_def del: upt_rec_numeral)
  ultimately show "guid_chars (guid_of bs) = hexes (rev (take 4 bs)) @ [45] @ hexes (rev (take 2 (drop 4 bs))) @ [45]
      @ hexes (rev (take 2 (drop 6 bs))) @ [45] @ hexes (take 2 (drop 8 bs)) @ [45] @ hexes (take 6 (drop 10 bs))"
    by (simp add: guid_chars_def guid_of_def)
next
  assume l: "length sec = 512"
  let ?s = "take 4 (drop 440 sec)"
  have s: "[?s ! 0, ?s ! 1, ?s ! 2, ?s ! 3] = ?s" using l by (auto simp: nth_eq_iff_index_eq intro!: nth_equalityI simp: less_Suc_eq numeral_eq_Suc)
  have "unat (from_le ?s :: u32) = le_nat ?s" by (simp add: from_le_value)
  from hex_digits_le [OF this, of 4] l have h: "map (hex_at (from_le ?s)) (rev [0..<8]) = hexes (rev ?s)" by simp
  show "\<exists>g. read_mbr_guid sec = Some g \<and> mbr_chars g n = hexes (rev ?s) @ [45, hex_at n 1, hex_at n 0]"
    using l h s by (simp add: read_mbr_guid_def bounds_simps mbr_chars_def nth_append Let_def)
qed

lemma partuuid_as_linux_witness:
  "guid_chars (guid_of [0x33, 0x22, 0x11, 0x00, 0x55, 0x44, 0x77, 0x66, 0x88, 0x99, 0xaa, 0xbb, 0xcc, 0xdd, 0xee, 0xff]) =
     bstr ''00112233-4455-6677-8899-aabbccddeeff'' \<and>
   (\<exists>g. read_mbr_guid (replicate 440 0 @ [0x44, 0x33, 0x22, 0x11] @ replicate 68 0) = Some g \<and>
      mbr_chars g 2 = bstr ''11223344-02'')"
proof -
  let ?b = "[0x33, 0x22, 0x11, 0x00, 0x55, 0x44, 0x77, 0x66, 0x88, 0x99, 0xaa, 0xbb, 0xcc, 0xdd, 0xee, 0xff] :: bytes"
  let ?s = "replicate 440 0 @ [0x44, 0x33, 0x22, 0x11] @ replicate 68 0 :: bytes"
  have h: "hexes [0x00, 0x11, 0x22, 0x33] = bstr ''00112233''" "hexes [0x44, 0x55] = bstr ''4455''" "hexes [0x66, 0x77] = bstr ''6677''"
    "hexes [0x88, 0x99] = bstr ''8899''" "hexes [0xaa, 0xbb, 0xcc, 0xdd, 0xee, 0xff] = bstr ''aabbccddeeff''"
    "hexes [0x11, 0x22, 0x33, 0x44] @ [45, hex_at 2 1, hex_at 2 0] = bstr ''11223344-02''" by code_simp+
  have "length ?b = 16" "length ?s = 512" by simp_all
  with partuuid_as_linux [of ?b ?s 2] h show ?thesis by (simp add: bstr_def)
qed

end
