(* ===== verification/EfiPremount.thy ===== *)
theory EfiPremount
  imports Prelude
begin

text \<open>
  The premount CPIO archive of the UEFI loader (\<open>efi/src/premount.rs\<close>). The embedded
  binary and the pool allocator are parameters: the first is built from another crate, the second is a boot
  service that, when it succeeds, returns a buffer of the size asked for with any content.
\<close>

definition hex_nibble :: "u8 \<Rightarrow> u8" where
  "hex_nibble n = (if n < 10 then 48 + n else 65 + (n - 10))"

text \<open>\<open>(n + 3) & !3\<close>.\<close>

definition align4 :: "nat \<Rightarrow> nat" where
  "align4 n = (n + 3) div 4 * 4"

definition cpio_entry_size :: "nat \<Rightarrow> nat \<Rightarrow> nat" where
  "cpio_entry_size name_len data_len =
     (let padded_name_len = align4 (110 + name_len + 1) - 110 in 110 + padded_name_len + data_len + 3)"

text \<open>A run of \<open>buf[pos] = v; pos += 1\<close>.\<close>

fun put_seq :: "bytes \<Rightarrow> nat \<Rightarrow> bytes \<Rightarrow> bytes option" where
  "put_seq buf pos [] = Some buf"
| "put_seq buf pos (v # vs) = do { b \<leftarrow> put buf pos v; put_seq b (pos + 1) vs }"

text \<open>The eight digits of a header field.\<close>

definition hex_field :: "u32 \<Rightarrow> bytes" where
  "hex_field v = map (\<lambda>shift. hex_nibble (ucast (drop_bit shift v AND 0xF))) [28, 24, 20, 16, 12, 8, 4, 0]"

definition cpio_newc_header :: "bytes \<Rightarrow> bytes \<Rightarrow> u32 \<Rightarrow> u32 \<Rightarrow> (bytes \<times> nat) option" where
  "cpio_newc_header buf name file_size mode = do {
     b1 \<leftarrow> blit buf 0 (bstr ''070701'');
     let name_len = (word_of_nat (length name) + 1 :: u32);
     let padded_name_len = align4 (110 + unat name_len) - 110;
     let fields = [1, mode, 0, 0, 1, 0, file_size, 0, 0, 0, 0, name_len, 0];
     b2 \<leftarrow> put_seq b1 6 (concat (map hex_field fields));
     b3 \<leftarrow> blit b2 110 name;
     b4 \<leftarrow> put b3 (110 + length name) 0;
     b5 \<leftarrow> put_seq b4 (111 + length name) (replicate (110 + padded_name_len - (111 + length name)) 0);
     Some (b5, 110 + padded_name_len) }"

text \<open>\<open>cpio_append_entry\<close>: the buffer, the offset and whether there was room.\<close>

definition cpio_append_entry :: "bytes \<Rightarrow> nat \<Rightarrow> bytes \<Rightarrow> bytes \<Rightarrow> u32 \<Rightarrow> (bytes \<times> nat \<times> bool) option" where
  "cpio_append_entry cpio off name data mode =
     (let nlen = length name + 1;
          pnlen = align4 (110 + nlen) - 110;
          hlen = 110 + pnlen;
          pad = (4 - (off + hlen + length data) mod 4) mod 4
      in if off + hlen + length data + pad > length cpio then Some (cpio, off, False)
         else do {
           (tail1, n) \<leftarrow> cpio_newc_header (drop off cpio) name (word_of_nat (length data)) mode;
           let cpio1 = take off cpio @ tail1;
           let off1 = off + n;
           cpio2 \<leftarrow> blit cpio1 off1 data;
           let off2 = off1 + length data;
           cpio3 \<leftarrow> put_seq cpio2 off2 (replicate pad 0);
           Some (cpio3, off2 + pad, True) })"

record premount_bundle =
  pb_cpio :: bytes
  pb_cpio_size :: nat
  pb_alloc_size :: nat
  pb_iso_offset_bytes :: u64

fun append_all :: "bytes \<Rightarrow> nat \<Rightarrow> (bytes \<times> bytes) list \<Rightarrow> (bytes \<times> nat \<times> bool) option" where
  "append_all cpio off [] = Some (cpio, off, True)"
| "append_all cpio off ((name, d) # es) = do {
     (cpio1, off1, ok) \<leftarrow> cpio_append_entry cpio off name d 0x81ED;
     if ok then append_all cpio1 off1 es else Some (cpio1, off1, False) }"

text \<open>\<open>pool n\<close> is what \<open>allocate_pool\<close> returns for \<open>n\<close> bytes.\<close>

definition build_premount_cpio :: "bytes \<Rightarrow> (nat \<Rightarrow> bytes option) \<Rightarrow> u64 \<Rightarrow> premount_bundle option option" where
  "build_premount_cpio init_bin pool relative_sector_offset = do {
     let entries = [(bstr ''init.choosable'', init_bin)];
     let estimate = sum_list (map (\<lambda>(n, d). cpio_entry_size (length n) (length d) + 8) entries) + cpio_entry_size 10 0 + 8;
     let alloc_size = (estimate + 2047) div 2048 * 2048;
     case pool alloc_size of
       None \<Rightarrow> Some None
     | Some cpio \<Rightarrow> do {
         (cpio1, off1, ok1) \<leftarrow> append_all cpio 0 entries;
         if \<not> ok1 then Some None
         else do {
           (cpio2, off2, ok2) \<leftarrow> cpio_append_entry cpio1 off1 (bstr ''TRAILER!!!'') [] 0;
           Some (if ok2 then Some \<lparr>pb_cpio = cpio2, pb_cpio_size = off2, pb_alloc_size = alloc_size,
               pb_iso_offset_bytes = relative_sector_offset * 512\<rparr> else None) } } }"

section \<open>Reading an archive\<close>

text \<open>
  The newc format: six bytes of magic, thirteen fields of eight hexadecimal digits, the name with its
  NUL padded so that the data starts at a multiple of four, the data padded likewise.
\<close>

definition nibble_val :: "u8 \<Rightarrow> nat" where
  "nibble_val c = (if c \<le> 57 then unat c - 48 else unat c - 55)"

definition hex_val :: "bytes \<Rightarrow> nat" where
  "hex_val ds = fold (\<lambda>d v. v * 16 + nibble_val d) ds 0"

definition newc_field :: "bytes \<Rightarrow> nat \<Rightarrow> nat" where
  "newc_field bs i = hex_val (take 8 (drop (6 + 8 * i) bs))"

definition newc_entry :: "bytes \<Rightarrow> ((bytes \<times> nat \<times> bytes) \<times> bytes) option" where
  "newc_entry bs =
     (if take 6 bs = bstr ''070701'' then
        let n = newc_field bs 11; sz = newc_field bs 6; data_off = align4 (110 + n)
        in Some ((take (n - 1) (drop 110 bs), newc_field bs 1, take sz (drop data_off bs)), drop (align4 (data_off + sz)) bs)
      else None)"

fun newc_list :: "nat \<Rightarrow> bytes \<Rightarrow> (bytes \<times> nat \<times> bytes) list option" where
  "newc_list 0 bs = None"
| "newc_list (Suc fuel) bs = do {
     (e, rest) \<leftarrow> newc_entry bs;
     if fst e = bstr ''TRAILER!!!'' then Some []
     else do { es \<leftarrow> newc_list fuel rest; Some (e # es) } }"

section \<open>What the writer produces\<close>

lemma put_seq_blit: "pos + length vs \<le> length buf \<Longrightarrow> put_seq buf pos vs = Some (take pos buf @ vs @ drop (pos + length vs) buf)"
proof (induction vs arbitrary: buf pos)
  case (Cons v vs)
  have t: "take (Suc pos) (buf[pos := v]) = take pos buf @ [v]" using Cons.prems by (simp add: take_Suc_conv_app_nth)
  show ?case using Cons.IH [of "Suc pos" "buf[pos := v]"] Cons.prems by (simp add: bounds_simps t)
qed simp

lemma align4_ge: "n \<le> align4 n" "align4 n < n + 4"
  by (simp_all add: align4_def)

lemma align4_dvd: "4 dvd align4 n"
  by (simp add: align4_def)

lemma align4_mult: "4 dvd n \<Longrightarrow> align4 n = n"
  by (auto simp: align4_def elim!: dvdE)

lemma align4_add: "4 dvd a \<Longrightarrow> align4 (a + n) = a + align4 n"
proof -
  assume "4 dvd a"
  then obtain k where "a = 4 * k" by (elim dvdE)
  moreover have "(4 * k + (n + 3)) div 4 = k + (n + 3) div 4" by simp
  ultimately show ?thesis by (simp add: align4_def add.assoc)
qed

definition header_bytes :: "bytes \<Rightarrow> u32 \<Rightarrow> u32 \<Rightarrow> bytes" where
  "header_bytes name file_size mode =
     bstr ''070701'' @ concat (map hex_field [1, mode, 0, 0, 1, 0, file_size, 0, 0, 0, 0, word_of_nat (length name) + 1, 0])
     @ name @ replicate (align4 (111 + length name) - (110 + length name)) 0"

lemma hex_field_length [simp]: "length (hex_field v) = 8"
  by (simp add: hex_field_def)

lemma header_length: "length (header_bytes name sz mode) = align4 (111 + length name)"
  using align4_ge(1) [of "111 + length name"] by (simp add: header_bytes_def)

lemma name_len_unat: "length name < 2 ^ 31 \<Longrightarrow> unat (word_of_nat (length name) + 1 :: u32) = length name + 1"
proof -
  assume "length name < 2 ^ 31"
  then have "unat (word_of_nat (length name + 1) :: u32) = length name + 1" by (intro unat_of_nat_small) simp
  then show ?thesis by (simp only: of_nat_add of_nat_1)
qed

lemma header_written:
  assumes "length name < 2 ^ 31" and "align4 (111 + length name) \<le> length buf"
  shows "cpio_newc_header buf name sz mode =
    Some (header_bytes name sz mode @ drop (align4 (111 + length name)) buf, align4 (111 + length name))"
proof -
  let ?n = "length name"
  have a: "111 + ?n \<le> align4 (111 + ?n)" by (rule align4_ge)
  have u: "unat (word_of_nat ?n + 1 :: u32) = ?n + 1" by (rule name_len_unat [OF assms(1)])
  have h: "110 + (align4 (110 + unat (word_of_nat ?n + 1 :: u32)) - 110) = align4 (111 + ?n)" using a by (simp add: u)
  have r: "replicate (align4 (111 + ?n) - (110 + ?n)) (0 :: u8) = 0 # replicate (align4 (111 + ?n) - (111 + ?n)) 0"
    using a by (cases "align4 (111 + ?n) - (110 + ?n)") (auto simp: Suc_diff_Suc)
  define F where "F = concat (map hex_field [1, mode, 0, 0, 1, 0, sz, 0, 0, 0, 0, word_of_nat ?n + 1, 0])"
  have F: "length F = 104" by (simp add: F_def)
  define M where "M = bstr ''070701''"
  have M: "length M = 6" by (simp add: M_def)
  have run: "cpio_newc_header buf name sz mode = do {
     b1 \<leftarrow> blit buf 0 M; b2 \<leftarrow> put_seq b1 6 F; b3 \<leftarrow> blit b2 110 name; b4 \<leftarrow> put b3 (110 + ?n) 0;
     b5 \<leftarrow> put_seq b4 (111 + ?n) (replicate (align4 (111 + ?n) - (111 + ?n)) 0);
     Some (b5, align4 (111 + ?n)) }"
    unfolding cpio_newc_header_def Let_def h M_def F_def by (rule refl)
  have hb: "header_bytes name sz mode = M @ F @ name @ 0 # replicate (align4 (111 + ?n) - (111 + ?n)) 0"
    by (simp add: header_bytes_def M_def F_def r)
  have z: "take (Suc 0) ((drop (?n + 110) buf)[0 := 0]) = [0]"
    using a assms(2) by (cases "drop (?n + 110) buf") auto
  show ?thesis unfolding run hb using assms(2) a F M z
    by (simp add: bounds_simps put_seq_blit list_update_append)
qed

text \<open>One entry: the header, the data and the padding.\<close>

definition entry_bytes :: "bytes \<Rightarrow> bytes \<Rightarrow> u32 \<Rightarrow> bytes" where
  "entry_bytes name data mode = header_bytes name (word_of_nat (length data)) mode @ data
     @ replicate (align4 (length data) - length data) 0"

lemma entry_length: "length (entry_bytes name data mode) = align4 (111 + length name) + align4 (length data)"
  using align4_ge(1) [of "length data"] by (simp add: entry_bytes_def header_length)

lemma pad_align: "4 dvd off \<Longrightarrow> 4 dvd h \<Longrightarrow> (4 - (off + h + n) mod 4) mod 4 = align4 n - n"
proof -
  assume "4 dvd off" and "4 dvd h"
  then have "(off + h + n) mod 4 = n mod 4" by (auto elim!: dvdE) presburger
  moreover have "(4 - n mod 4) mod 4 = align4 n - n"
  proof -
    define q where "q = n div 4"
    have n: "n = 4 * q + n mod 4" by (simp add: q_def)
    consider "n mod 4 = 0" | "n mod 4 = 1" | "n mod 4 = 2" | "n mod 4 = 3" by linarith
    then show ?thesis by cases (use n in \<open>simp_all add: align4_def\<close>)
  qed
  ultimately show ?thesis by simp
qed

lemma append_written:
  assumes "4 dvd off" and "length name < 2 ^ 31" and "off + length (entry_bytes name data mode) \<le> length cpio"
  shows "cpio_append_entry cpio off name data mode =
    Some (take off cpio @ entry_bytes name data mode @ drop (off + length (entry_bytes name data mode)) cpio,
      off + length (entry_bytes name data mode), True)"
proof -
  let ?h = "align4 (111 + length name)" and ?p = "align4 (length data) - length data"
  have h: "110 + (align4 (110 + (length name + 1)) - 110) = ?h" using align4_ge(1) [of "111 + length name"] by simp
  have p: "(4 - (off + ?h + length data) mod 4) mod 4 = ?p" by (rule pad_align [OF assms(1) align4_dvd])
  have l: "off + ?h + length data + ?p \<le> length cpio"
    using assms(3) align4_ge(1) [of "length data"] by (simp add: entry_length)
  then have hw: "cpio_newc_header (drop off cpio) name (word_of_nat (length data)) mode =
      Some (header_bytes name (word_of_nat (length data)) mode @ drop ?h (drop off cpio), ?h)"
    by (intro header_written [OF assms(2)]) simp
  have run: "cpio_append_entry cpio off name data mode = do {
      cpio2 \<leftarrow> blit (take off cpio @ header_bytes name (word_of_nat (length data)) mode @ drop ?h (drop off cpio)) (off + ?h) data;
      cpio3 \<leftarrow> put_seq cpio2 (off + ?h + length data) (replicate ?p 0);
      Some (cpio3, off + ?h + length data + ?p, True) }"
    unfolding cpio_append_entry_def Let_def h p hw using l by simp
  have e: "length (entry_bytes name data mode) = ?h + length data + ?p"
    using align4_ge(1) [of "length data"] by (simp add: entry_length)
  show ?thesis unfolding run e using l
    by (simp add: bounds_simps put_seq_blit header_length entry_bytes_def add.assoc add.commute add.left_commute)
qed

section \<open>Reading it back\<close>

lemma nibble_val: "n < 16 \<Longrightarrow> nibble_val (hex_nibble (word_of_nat n)) = n"
proof -
  have "list_all (\<lambda>n. nibble_val (hex_nibble (word_of_nat n)) = n) [0..<16]" by code_simp
  then show "n < 16 \<Longrightarrow> ?thesis" by (simp add: list_all_iff)
qed

lemma nibble_at: "nibble_val (hex_nibble (ucast (drop_bit k (v :: u32) AND 0xF))) = unat v div 2 ^ k mod 16"
proof -
  have m: "drop_bit k v AND 0xF = take_bit 4 (drop_bit k v)" by (simp add: take_bit_eq_mask mask_eq_exp_minus_1)
  have "unat (take_bit 4 (drop_bit k v)) = unat v div 2 ^ k mod 16"
    by (simp only: unsigned_take_bit_eq unat_drop_bit_eq) (simp add: take_bit_eq_mod drop_bit_eq_div)
  then have "(ucast (drop_bit k v AND 0xF) :: u8) = word_of_nat (unat v div 2 ^ k mod 16)"
    unfolding m by (metis of_nat_unat)
  then show ?thesis by (simp add: nibble_val)
qed

lemma hex_field_val: "hex_val (hex_field v) = unat v"
proof -
  have b: "unat v < 2 ^ 32" using unsigned_less [of v, where ?'a = nat] by simp
  have step: "x div (16 * m) * 16 + x div m mod 16 = x div m" for x m :: nat
    by (metis div_mult2_eq div_mult_mod_eq mult.commute)
  have top: "unat v div 268435456 mod 16 = unat v div 268435456" using b by simp
  show ?thesis
    using step [of "unat v" 16777216] step [of "unat v" 1048576] step [of "unat v" 65536] step [of "unat v" 4096]
      step [of "unat v" 256] step [of "unat v" 16] nibble_at [of 0 v]
    by (simp add: hex_field_def hex_val_def nibble_at top del: mod_mult_self1 mod_mult_self2 div_mult_mod_eq)
qed

lemma field_at: "i < length fs \<Longrightarrow> take 8 (drop (8 * i) (concat (map hex_field fs) @ r)) = hex_field (fs ! i)"
proof (induction fs arbitrary: i)
  case (Cons f fs)
  then show ?case by (cases i) (simp_all add: add.commute)
qed simp

lemma header_field:
  "i < 13 \<Longrightarrow> newc_field (header_bytes name sz mode @ r) i =
     unat ([1, mode, 0, 0, 1, 0, sz, 0, 0, 0, 0, word_of_nat (length name) + 1, 0] ! i)"
proof -
  assume i: "i < 13"
  let ?fs = "[1, mode, 0, 0, 1, 0, sz, 0, 0, 0, 0, word_of_nat (length name) + 1, 0]"
  have "drop (6 + 8 * i) (header_bytes name sz mode @ r) = drop (8 * i) (concat (map hex_field ?fs) @ drop 110 (header_bytes name sz mode @ r))"
    by (simp add: header_bytes_def add.commute flip: drop_drop)
  then have "take 8 (drop (6 + 8 * i) (header_bytes name sz mode @ r)) = hex_field (?fs ! i)"
    using field_at [of i ?fs] i by simp
  then show ?thesis by (simp add: newc_field_def hex_field_val)
qed

lemma newc_entry_bytes:
  assumes "length name < 2 ^ 31" and "length data < 2 ^ 32"
  shows "newc_entry (entry_bytes name data mode @ rest) = Some ((name, unat mode, data), rest)"
proof -
  let ?h = "header_bytes name (word_of_nat (length data)) mode"
  let ?tl = "data @ replicate (align4 (length data) - length data) 0 @ rest"
  have e: "entry_bytes name data mode @ rest = ?h @ ?tl" by (simp add: entry_bytes_def)
  have f: "newc_field (?h @ ?tl) 11 = length name + 1" "newc_field (?h @ ?tl) 6 = length data" "newc_field (?h @ ?tl) 1 = unat mode"
    using assms by (simp_all add: header_field name_len_unat unat_of_nat_small)
  have l: "length ?h = align4 (111 + length name)" by (rule header_length)
  have n: "align4 (align4 (111 + length name) + length data) = align4 (111 + length name) + align4 (length data)"
    by (rule align4_add [OF align4_dvd])
  have d: "length data \<le> align4 (length data)" by (rule align4_ge)
  have nm: "take (length name) (drop 110 (?h @ ?tl)) = name" by (simp add: header_bytes_def)
  have mg: "take 6 (?h @ ?tl) = bstr ''070701''" by (simp add: header_bytes_def)
  show ?thesis unfolding e newc_entry_def mg Let_def f using nm l n d by simp
qed

lemma premount_build:
  assumes "length init_bin < 2 ^ 31" and "\<And>n b. pool n = Some b \<Longrightarrow> length b = n"
  shows "\<exists>r. build_premount_cpio init_bin pool rel = Some r \<and>
    (case r of
       None \<Rightarrow> \<exists>n. pool n = None
     | Some b \<Rightarrow> length (pb_cpio b) = pb_alloc_size b \<and> pb_cpio_size b \<le> pb_alloc_size b \<and> 4 dvd pb_cpio_size b \<and>
         newc_list 2 (take (pb_cpio_size b) (pb_cpio b)) = Some [(bstr ''init.choosable'', 0x81ED, init_bin)])"
proof -
  let ?n = "bstr ''init.choosable''" and ?t = "bstr ''TRAILER!!!''"
  let ?e1 = "entry_bytes ?n init_bin 0x81ED" and ?e2 = "entry_bytes ?t [] 0"
  let ?est = "sum_list (map (\<lambda>(n, d). cpio_entry_size (length n) (length d) + 8) [(?n, init_bin)]) + cpio_entry_size 10 0 + 8"
  let ?alloc = "(?est + 2047) div 2048 * 2048"
  have fit: "length ?e1 + length ?e2 \<le> ?alloc"
    using align4_ge(2) [of "length init_bin"] by (simp add: entry_length cpio_entry_size_def align4_def [of 125] align4_def [of 121] align4_def [of 0])
  have d1: "4 dvd length ?e1" and d2: "4 dvd length ?e2" using align4_dvd by (simp_all only: entry_length dvd_add)
  show ?thesis
  proof (cases "pool ?alloc")
    case None
    then show ?thesis by (auto simp: build_premount_cpio_def)
  next
    case (Some cpio)
    have l: "length cpio = ?alloc" by (rule assms(2) [OF Some])
    have a1: "cpio_append_entry cpio 0 ?n init_bin 0x81ED = Some (?e1 @ drop (length ?e1) cpio, length ?e1, True)"
      using append_written [of 0 ?n init_bin "0x81ED" cpio] fit l by simp
    let ?c1 = "?e1 @ drop (length ?e1) cpio"
    have "cpio_append_entry ?c1 (length ?e1) ?t [] 0 = Some (take (length ?e1) ?c1 @ ?e2 @ drop (length ?e1 + length ?e2) ?c1,
        length ?e1 + length ?e2, True)"
      by (rule append_written [OF d1]) (use fit l in simp_all)
    then have a2: "cpio_append_entry ?c1 (length ?e1) ?t [] 0 =
        Some (?e1 @ ?e2 @ drop (length ?e1 + length ?e2) cpio, length ?e1 + length ?e2, True)" by (simp add: add.commute)
    have run: "build_premount_cpio init_bin pool rel = Some (Some \<lparr>pb_cpio = ?e1 @ ?e2 @ drop (length ?e1 + length ?e2) cpio,
        pb_cpio_size = length ?e1 + length ?e2, pb_alloc_size = ?alloc, pb_iso_offset_bytes = rel * 512\<rparr>)"
      unfolding build_premount_cpio_def Let_def using Some a1 a2 by simp
    have r1: "newc_entry (?e1 @ ?e2) = Some ((?n, 0x81ED, init_bin), ?e2)"
      using newc_entry_bytes [of ?n init_bin "0x81ED" ?e2] assms(1) by simp
    have r2: "newc_entry ?e2 = Some ((?t, 0, []), [])" using newc_entry_bytes [of ?t "[]" 0 "[]"] by simp
    have ne: "?n \<noteq> ?t" by (simp add: bstr_def)
    have "newc_list 2 (?e1 @ ?e2) = Some [(?n, 0x81ED, init_bin)]" using r1 r2 ne by (simp add: numeral_2_eq_2)
    then show ?thesis unfolding run using fit l d1 d2 by simp
  qed
qed

text \<open>C14: the archive is a valid CPIO with exactly the embedded binary: when the allocator returns the bytes
  asked for, whatever they hold, the build succeeds, never panics and never overruns the buffer, and a reader of
  the newc format gets the executable /init.choosable with its content and the trailer.\<close>

theorem premount_archive_reads_back:
  assumes "length init_bin < 2 ^ 31" and "\<And>n b. pool n = Some b \<Longrightarrow> length b = n"
  shows "\<exists>r. build_premount_cpio init_bin pool rel = Some r \<and>
    (case r of
       None \<Rightarrow> \<exists>n. pool n = None
     | Some b \<Rightarrow> length (pb_cpio b) = pb_alloc_size b \<and> pb_cpio_size b \<le> pb_alloc_size b \<and> 4 dvd pb_cpio_size b \<and>
         newc_list 2 (take (pb_cpio_size b) (pb_cpio b)) = Some [(bstr ''init.choosable'', 0x81ED, init_bin)])"
  by (rule premount_build [OF assms])

lemma premount_archive_reads_back_witness:
  "\<exists>b. build_premount_cpio [0x7F, 0x45, 0x4C, 0x46] (\<lambda>n. Some (replicate n 0xAA)) 64 = Some (Some b) \<and>
     newc_list 2 (take (pb_cpio_size b) (pb_cpio b)) = Some [(bstr ''init.choosable'', 0x81ED, [0x7F, 0x45, 0x4C, 0x46])]"
  using premount_archive_reads_back [of "[0x7F, 0x45, 0x4C, 0x46]" "\<lambda>n. Some (replicate n 0xAA)" 64]
  by (auto split: option.splits)

end
