(* ===== verification/EfiVbio.thy ===== *)
theory EfiVbio
  imports Prelude
begin

text \<open>
  The virtual CD-ROM of the UEFI loader (\<open>efi/src/virtual_blockio.rs\<close>): virtual media backed
  by an extent of the real disk, and the Block I/O read that serves an ISO file with patched directory
  entries, appended memory files and a patched volume descriptor. The firmware's Block I/O protocol is a
  parameter: a successful read fills the bytes asked for.
\<close>

record backing =
  bk_block_size :: "u32 option"
  bk_read :: "u64 \<Rightarrow> nat \<Rightarrow> bytes option"

definition backing_ok :: "backing \<Rightarrow> bool" where
  "backing_ok bk \<longleftrightarrow> (\<forall>lba n bs. bk_read bk lba n = Some bs \<longrightarrow> length bs = n)"

definition backing_block_size :: "backing \<Rightarrow> u32" where
  "backing_block_size bk = (case bk_block_size bk of None \<Rightarrow> 512 | Some n \<Rightarrow> n)"

section \<open>Virtual media\<close>

definition checked_mul :: "u64 \<Rightarrow> u64 \<Rightarrow> u64 option" where
  "checked_mul a b = (if unat a * unat b < 2 ^ 64 then Some (a * b) else None)"

definition checked_add :: "u64 \<Rightarrow> u64 \<Rightarrow> u64 option" where
  "checked_add a b = (if unat a + unat b < 2 ^ 64 then Some (a + b) else None)"

text \<open>\<open>None\<close> is \<open>false\<close>; otherwise the destination with the block in it.\<close>

definition read_block_at ::
  "backing \<Rightarrow> u64 \<Rightarrow> u64 \<Rightarrow> u32 \<Rightarrow> u64 \<Rightarrow> bytes \<Rightarrow> nat \<Rightarrow> bytes option" where
  "read_block_at bk block_lba start_lba block_size total_blocks dst dst_offset =
     (if block_lba \<ge> total_blocks \<or> block_size = 0 \<or> block_size > 65536 \<or> dst_offset + unat block_size > length dst
      then None
      else
        let bbs = ucast (backing_block_size bk) :: u64; bs = ucast block_size :: u64
        in if bbs = 0 \<or> bs mod bbs \<noteq> 0 then None
           else do {
             off \<leftarrow> checked_mul block_lba (bs div bbs);
             disk_lba \<leftarrow> checked_add start_lba off;
             data \<leftarrow> bk_read bk disk_lba (unat block_size);
             blit dst dst_offset data })"

record iso_media =
  im_iso_lba :: u64
  im_backing :: backing
  im_total_blocks :: u64

record raw_media =
  rm_start_lba :: u64
  rm_total_blocks :: u64
  rm_backing :: backing
  rm_sector_size :: u32

record vhd_media =
  vm_data_lba :: u64
  vm_total_blocks :: u64
  vm_backing :: backing
  vm_sector_size :: u32

definition iso_read_block :: "iso_media \<Rightarrow> u64 \<Rightarrow> bytes \<Rightarrow> nat \<Rightarrow> bytes option" where
  "iso_read_block im lba dst off = read_block_at (im_backing im) lba (im_iso_lba im) 2048 (im_total_blocks im) dst off"

definition raw_block_size :: "raw_media \<Rightarrow> u32" where
  "raw_block_size rm = max (rm_sector_size rm) 512"

definition raw_read_block :: "raw_media \<Rightarrow> u64 \<Rightarrow> bytes \<Rightarrow> nat \<Rightarrow> bytes option" where
  "raw_read_block rm lba dst off =
     read_block_at (rm_backing rm) lba (rm_start_lba rm) (max (rm_sector_size rm) 512) (rm_total_blocks rm) dst off"

definition vhd_block_size :: "vhd_media \<Rightarrow> u32" where
  "vhd_block_size vm = max (vm_sector_size vm) 512"

definition vhd_read_block :: "vhd_media \<Rightarrow> u64 \<Rightarrow> bytes \<Rightarrow> nat \<Rightarrow> bytes option" where
  "vhd_read_block vm lba dst off =
     read_block_at (vm_backing vm) lba (vm_data_lba vm) (max (vm_sector_size vm) 512) (vm_total_blocks vm) dst off"

section \<open>The contract of a virtual medium\<close>

text \<open>
  What the \<open>VirtualMedia\<close> trait promises over a well-behaved backing device: a read that succeeds is
  of a block of the medium, fits the destination, changes that block of it only, and what it stores does not
  depend on the destination.
\<close>

locale virtual_media =
  fixes bk :: backing and read_block :: "u64 \<Rightarrow> bytes \<Rightarrow> nat \<Rightarrow> bytes option" and block_count :: u64 and block_size :: nat
  assumes in_range: "read_block lba dst off = Some d \<Longrightarrow> lba < block_count \<and> off + block_size \<le> length dst"
    and content: "backing_ok bk \<Longrightarrow> read_block lba dst off = Some d \<Longrightarrow>
      \<exists>data. length data = block_size \<and> (\<forall>dst' off'. off' + block_size \<le> length dst' \<longrightarrow>
        read_block lba dst' off' = Some (paste dst' off' data))"
begin

lemma read_paste:
  "backing_ok bk \<Longrightarrow> read_block lba dst off = Some d \<Longrightarrow> \<exists>data. length data = block_size \<and> d = paste dst off data"
  using content [of lba dst off d] in_range [of lba dst off d] by fastforce

lemma read_frame:
  assumes "backing_ok bk" and "read_block lba dst off = Some d"
  shows "length d = length dst \<and> (\<forall>i<length dst. i < off \<or> off + block_size \<le> i \<longrightarrow> d ! i = dst ! i)"
proof -
  obtain data where "length data = block_size" "d = paste dst off data" using read_paste [OF assms] by blast
  then show ?thesis using in_range [OF assms(2)] by (auto simp: paste_length paste_nth)
qed

text \<open>Two blocks read one after the other, at different places, are both there afterwards.\<close>

lemma read_two:
  assumes "backing_ok bk" and "read_block a dst 0 = Some d1" and "read_block b d1 block_size = Some d2"
  shows "take block_size d2 = take block_size d1"
proof -
  have "\<forall>i<block_size. d2 ! i = d1 ! i" "length d2 = length d1"
    using read_frame [OF assms(1,3)] in_range [OF assms(3)] by auto
  then show ?thesis by (intro nth_equalityI) auto
qed

end

lemma read_block_at_range:
  "read_block_at bk lba start bs nblocks dst off = Some d \<Longrightarrow> lba < nblocks \<and> off + unat bs \<le> length dst"
  by (auto simp: read_block_at_def split: if_splits)

lemma read_block_at_content:
  assumes "backing_ok bk" and "read_block_at bk lba start bs nblocks dst off = Some d"
  shows "\<exists>data. length data = unat bs \<and> (\<forall>dst' off'. off' + unat bs \<le> length dst' \<longrightarrow>
    read_block_at bk lba start bs nblocks dst' off' = Some (paste dst' off' data))"
proof -
  let ?bbs = "ucast (backing_block_size bk) :: u64" and ?bs = "ucast bs :: u64"
  from assms(2) obtain o1 l data where
    g: "\<not> (lba \<ge> nblocks \<or> bs = 0 \<or> bs > 65536)" "\<not> (?bbs = 0 \<or> ?bs mod ?bbs \<noteq> 0)"
      "checked_mul lba (?bs div ?bbs) = Some o1" "checked_add start o1 = Some l" "bk_read bk l (unat bs) = Some data"
    by (auto simp: read_block_at_def Let_def split: if_splits Option.bind_splits)
  have "length data = unat bs" using assms(1) g(5) by (auto simp: backing_ok_def)
  moreover have "read_block_at bk lba start bs nblocks dst' off' = Some (paste dst' off' data)"
    if "off' + unat bs \<le> length dst'" for dst' off'
    using that g calculation by (simp add: read_block_at_def bounds_simps paste_def)
  ultimately show ?thesis by blast
qed

interpretation iso_medium: virtual_media "im_backing im" "iso_read_block im" "im_total_blocks im" 2048 for im
  using read_block_at_range [of _ _ _ 2048] read_block_at_content [of _ _ _ 2048]
  by unfold_locales (fastforce simp: iso_read_block_def)+

interpretation raw_medium: virtual_media "rm_backing rm" "raw_read_block rm" "rm_total_blocks rm" "unat (raw_block_size rm)" for rm
  by unfold_locales (auto simp: raw_read_block_def raw_block_size_def dest: read_block_at_range read_block_at_content)

interpretation vhd_medium: virtual_media "vm_backing vm" "vhd_read_block vm" "vm_total_blocks vm" "unat (vhd_block_size vm)" for vm
  by unfold_locales (auto simp: vhd_read_block_def vhd_block_size_def dest: read_block_at_range read_block_at_content)

section \<open>Patches of a sector\<close>

definition patch_dir_entry :: "bytes \<Rightarrow> nat \<Rightarrow> u32 \<Rightarrow> u32 \<Rightarrow> bytes" where
  "patch_dir_entry entry off new_extent new_size =
     (if off + 18 > length entry then entry
      else paste (paste (paste (paste entry (off + 2) (to_le 4 new_extent)) (off + 6) (to_be 4 new_extent))
             (off + 10) (to_le 4 new_size)) (off + 14) (to_be 4 new_size))"

definition rename_dir_entry_to_premount :: "bytes \<Rightarrow> nat \<Rightarrow> bytes option" where
  "rename_dir_entry_to_premount entry off =
     (let name = bstr ''PREMOUNT.CPIO''
      in if off + 33 + length name > length entry then Some entry
         else do {
           l \<leftarrow> idx entry off;
           if l < 46 then Some entry
           else do {
             e \<leftarrow> put entry (off + 32) (word_of_nat (length name));
             blit e (off + 33) name } })"

section \<open>The virtual Block I/O\<close>

text \<open>A pool buffer and the sector range it is served at; \<open>None\<close> is the null pointer.\<close>

record mem_file =
  mf_sector :: u32
  mf_sectors :: u32
  mf_buf :: "bytes option"

record virtual_block_io =
  vb_last_block :: u64
  vb_iso_lba :: u64
  vb_backing :: backing
  vb_patched_file :: mem_file
  vb_dir_entry_sector :: u32
  vb_dir_entry_offset :: u32
  vb_dir_entry_new_extent :: u32
  vb_dir_entry_new_size :: u32
  vb_dir_entry_patched :: bool
  vb_premount_file :: mem_file
  vb_premount_entry_sector :: u32
  vb_premount_entry_offset :: u32
  vb_premount_entry_new_extent :: u32
  vb_premount_entry_new_size :: u32
  vb_premount_entry_patched :: bool
  vb_premount_entry_rename :: bool
  vb_premount_entry_injected :: bool
  vb_premount_entry_injected_blob :: bytes
  vb_premount_entry_injected_size :: u32
  vb_premount_new_root_size :: u32

definition read_real_iso_sector :: "virtual_block_io \<Rightarrow> u64 \<Rightarrow> bytes option" where
  "read_real_iso_sector vbio iso_sector =
     (let bbs = backing_block_size (vb_backing vbio)
      in if bbs = 0 \<or> 2048 mod bbs \<noteq> 0 then None
         else bk_read (vb_backing vbio) (vb_iso_lba vbio + iso_sector * ucast (2048 div bbs :: u32)) 2048)"

text \<open>
  \<open>serve_memory_sector\<close>: the inner \<open>None\<close> is \<open>false\<close>; the outer one a read past the pool
  buffer.
\<close>

definition serve_memory_sector :: "mem_file \<Rightarrow> u64 \<Rightarrow> bytes option option" where
  "serve_memory_sector mf block_lba =
     (case mf_buf mf of
        None \<Rightarrow> Some None
      | Some buf \<Rightarrow>
          let start = ucast (mf_sector mf)
          in if mf_sectors mf = 0 \<or> block_lba < start \<or> block_lba \<ge> start + ucast (mf_sectors mf) then Some None
             else let off = unat (block_lba - start) * 2048 in map_option Some (slice buf off (off + 2048)))"

definition needs_grub_patch :: "virtual_block_io \<Rightarrow> u64 \<Rightarrow> bool" where
  "needs_grub_patch vbio lba \<longleftrightarrow> vb_dir_entry_patched vbio \<and> lba = ucast (vb_dir_entry_sector vbio)"

definition needs_premount_patch :: "virtual_block_io \<Rightarrow> u64 \<Rightarrow> bool" where
  "needs_premount_patch vbio lba \<longleftrightarrow> vb_premount_entry_patched vbio \<and> lba = ucast (vb_premount_entry_sector vbio)"

definition needs_premount_injected :: "virtual_block_io \<Rightarrow> u64 \<Rightarrow> bool" where
  "needs_premount_injected vbio lba \<longleftrightarrow> vb_premount_entry_injected vbio \<and> lba = ucast (vb_premount_entry_sector vbio)"

definition grub_patch :: "virtual_block_io \<Rightarrow> bytes \<Rightarrow> bytes" where
  "grub_patch vbio sec = patch_dir_entry sec (unat (vb_dir_entry_offset vbio)) (vb_dir_entry_new_extent vbio) (vb_dir_entry_new_size vbio)"

definition premount_patch :: "virtual_block_io \<Rightarrow> bytes \<Rightarrow> bytes option" where
  "premount_patch vbio sec =
     (let p = patch_dir_entry sec (unat (vb_premount_entry_offset vbio)) (vb_premount_entry_new_extent vbio) (vb_premount_entry_new_size vbio)
      in if vb_premount_entry_rename vbio then rename_dir_entry_to_premount p (unat (vb_premount_entry_offset vbio)) else Some p)"

definition inject_patch :: "virtual_block_io \<Rightarrow> bytes \<Rightarrow> bytes option" where
  "inject_patch vbio sec =
     (let off = unat (vb_premount_entry_offset vbio); n = unat (vb_premount_entry_injected_size vbio)
      in if off + n \<le> 2048 then do { blob \<leftarrow> slice (vb_premount_entry_injected_blob vbio) 0 n; blit sec off blob }
         else Some sec)"

definition pvd_patch :: "virtual_block_io \<Rightarrow> bytes \<Rightarrow> bytes" where
  "pvd_patch vbio sec =
     (let new_vol_size = ucast (vb_last_block vbio + 1) :: u32;
          s1 = paste (paste sec 80 (to_le 4 new_vol_size)) 84 (to_be 4 new_vol_size);
          s2 = (if vb_premount_entry_injected vbio \<and> vb_premount_new_root_size vbio > 0
                then paste (paste s1 166 (to_le 4 (vb_premount_new_root_size vbio))) 170 (to_be 4 (vb_premount_new_root_size vbio))
                else s1)
      in paste s2 40 (bstr ''CHOOSABLE'' @ replicate 23 0x20))"

datatype 'a served = Served 'a | Device_error

text \<open>One turn of the loop: block \<open>block_lba\<close> into the destination at \<open>off\<close>. \<open>None\<close> is a panic.\<close>

definition real_then :: "virtual_block_io \<Rightarrow> u64 \<Rightarrow> (bytes \<Rightarrow> bytes option) \<Rightarrow> bytes served option" where
  "real_then vbio lba f = (case read_real_iso_sector vbio lba of None \<Rightarrow> Some Device_error | Some sec \<Rightarrow> map_option Served (f sec))"

definition block_content :: "virtual_block_io \<Rightarrow> u64 \<Rightarrow> bytes served option" where
  "block_content vbio lba =
     (if needs_premount_injected vbio lba then
        real_then vbio lba (\<lambda>sec. do {
          s \<leftarrow> inject_patch vbio sec;
          Some (if needs_grub_patch vbio lba then grub_patch vbio s else s) })
      else if needs_grub_patch vbio lba \<or> needs_premount_patch vbio lba then
        real_then vbio lba (\<lambda>sec.
          let s = (if needs_grub_patch vbio lba then grub_patch vbio sec else sec)
          in if needs_premount_patch vbio lba then premount_patch vbio s else Some s)
      else do {
        m1 \<leftarrow> serve_memory_sector (vb_premount_file vbio) lba;
        case m1 of
          Some sec \<Rightarrow> Some (Served sec)
        | None \<Rightarrow> do {
            m2 \<leftarrow> serve_memory_sector (vb_patched_file vbio) lba;
            case m2 of
              Some sec \<Rightarrow> Some (Served sec)
            | None \<Rightarrow> real_then vbio lba (\<lambda>sec. Some (if lba = 16 then pvd_patch vbio sec else sec)) } })"

text \<open>The statuses: success with the buffer, a bad buffer size, a device error.\<close>

datatype read_status = Success bytes | Bad_buffer_size | Read_error

fun vblock_loop :: "virtual_block_io \<Rightarrow> u64 \<Rightarrow> nat \<Rightarrow> nat \<Rightarrow> bytes \<Rightarrow> read_status option" where
  "vblock_loop vbio lba b 0 dst = Some (Success dst)"
| "vblock_loop vbio lba b (Suc n) dst = do {
     r \<leftarrow> block_content vbio (lba + word_of_nat b);
     case r of
       Device_error \<Rightarrow> Some Read_error
     | Served sec \<Rightarrow> do { dst1 \<leftarrow> blit dst (b * 2048) sec; vblock_loop vbio lba (b + 1) n dst1 } }"

definition vblock_read :: "virtual_block_io \<Rightarrow> u64 \<Rightarrow> bytes \<Rightarrow> read_status option" where
  "vblock_read vbio lba buffer =
     (if length buffer mod 2048 \<noteq> 0 then Some Bad_buffer_size
      else vblock_loop vbio lba 0 (length buffer div 2048) buffer)"

section \<open>Every block is one block\<close>

definition mem_file_ok :: "mem_file \<Rightarrow> bool" where
  "mem_file_ok mf \<longleftrightarrow> (\<forall>buf. mf_buf mf = Some buf \<longrightarrow> unat (mf_sectors mf) * 2048 \<le> length buf)"

definition vbio_ok :: "virtual_block_io \<Rightarrow> bool" where
  "vbio_ok vbio \<longleftrightarrow> backing_ok (vb_backing vbio) \<and> mem_file_ok (vb_premount_file vbio) \<and> mem_file_ok (vb_patched_file vbio) \<and>
     unat (vb_premount_entry_injected_size vbio) \<le> length (vb_premount_entry_injected_blob vbio)"

lemma patch_dir_entry_length [simp]: "length (patch_dir_entry e off x y) = length e"
  by (simp add: patch_dir_entry_def len_simps)

lemma rename_length:
  "\<exists>r. rename_dir_entry_to_premount e off = Some r \<and> length r = length e"
proof (cases "off + 46 > length e \<or> e ! off < 46")
  case True
  then show ?thesis by (auto simp: rename_dir_entry_to_premount_def Let_def bounds_simps)
next
  case False
  then show ?thesis by (auto simp: rename_dir_entry_to_premount_def Let_def bounds_simps)
qed

lemma premount_patch_length: "\<exists>r. premount_patch vbio e = Some r \<and> length r = length e"
  using rename_length by (simp add: premount_patch_def Let_def) (metis patch_dir_entry_length)

lemma inject_patch_length:
  assumes "vbio_ok vbio" and "length e = 2048"
  shows "\<exists>r. inject_patch vbio e = Some r \<and> length r = 2048"
  using assms by (auto simp: inject_patch_def Let_def vbio_ok_def bounds_simps)

lemma pvd_patch_length [simp]: "length e = 2048 \<Longrightarrow> length (pvd_patch vbio e) = 2048"
  by (simp add: pvd_patch_def Let_def len_simps)

lemma real_sector_length: "vbio_ok vbio \<Longrightarrow> read_real_iso_sector vbio lba = Some s \<Longrightarrow> length s = 2048"
  by (auto simp: read_real_iso_sector_def vbio_ok_def backing_ok_def Let_def split: if_splits)

lemma serve_memory_ok:
  assumes "mem_file_ok mf"
  shows "\<exists>r. serve_memory_sector mf lba = Some r \<and> (\<forall>s. r = Some s \<longrightarrow> length s = 2048)"
proof (cases "mf_buf mf")
  case None
  then show ?thesis by (simp add: serve_memory_sector_def)
next
  case (Some buf)
  let ?start = "ucast (mf_sector mf) :: u64"
  show ?thesis
  proof (cases "mf_sectors mf = 0 \<or> lba < ?start \<or> lba \<ge> ?start + ucast (mf_sectors mf)")
    case True
    then show ?thesis using Some by (simp add: serve_memory_sector_def Let_def)
  next
    case False
    have u: "unat (ucast (x :: u32) :: u64) = unat x" for x
      by (simp add: unsigned_ucast_eq take_bit_nat_eq_self less_trans [OF unsigned_less])
    have b: "unat (x :: u32) < 2 ^ 32" for x using unsigned_less [of x, where ?'a = nat] by simp
    have sum: "unat (?start + ucast (mf_sectors mf)) = unat (mf_sector mf) + unat (mf_sectors mf)"
      using b [of "mf_sector mf"] b [of "mf_sectors mf"] by (simp add: unat_add_no_wrap u)
    have "unat (lba - ?start) = unat lba - unat (mf_sector mf)"
      using False by (simp add: unat_sub_no_wrap word_le_nat_alt u not_less)
    moreover have "unat lba < unat (mf_sector mf) + unat (mf_sectors mf)" "unat (mf_sector mf) \<le> unat lba"
      using False by (simp_all add: word_le_nat_alt word_less_nat_alt sum u not_less not_le)
    ultimately have "unat (lba - ?start) < unat (mf_sectors mf)" by linarith
    then have "unat (lba - ?start) * 2048 + 2048 \<le> unat (mf_sectors mf) * 2048" by simp
    then have "unat (lba - ?start) * 2048 + 2048 \<le> length buf" using assms Some by (simp add: mem_file_ok_def)
    then show ?thesis using Some False by (simp add: serve_memory_sector_def Let_def bounds_simps)
  qed
qed

lemma real_then_ok:
  assumes "vbio_ok vbio" and "\<And>s. length s = 2048 \<Longrightarrow> \<exists>r. f s = Some r \<and> length r = 2048"
  shows "\<exists>r. real_then vbio lba f = Some r \<and> (\<forall>s. r = Served s \<longrightarrow> length s = 2048)"
proof (cases "read_real_iso_sector vbio lba")
  case None
  then show ?thesis by (simp add: real_then_def)
next
  case (Some sec)
  then show ?thesis using assms(2) [OF real_sector_length [OF assms(1) Some]] by (auto simp: real_then_def)
qed

lemma block_content_ok:
  assumes "vbio_ok vbio"
  shows "\<exists>r. block_content vbio lba = Some r \<and> (\<forall>s. r = Served s \<longrightarrow> length s = 2048)"
proof -
  have mf: "mem_file_ok (vb_premount_file vbio)" "mem_file_ok (vb_patched_file vbio)" using assms by (auto simp: vbio_ok_def)
  obtain m1 where m1: "serve_memory_sector (vb_premount_file vbio) lba = Some m1" "\<And>s. m1 = Some s \<Longrightarrow> length s = 2048"
    using serve_memory_ok [OF mf(1)] by blast
  obtain m2 where m2: "serve_memory_sector (vb_patched_file vbio) lba = Some m2" "\<And>s. m2 = Some s \<Longrightarrow> length s = 2048"
    using serve_memory_ok [OF mf(2)] by blast
  have inj: "\<exists>r. do { s \<leftarrow> inject_patch vbio sec; Some (if needs_grub_patch vbio lba then grub_patch vbio s else s) } = Some r \<and> length r = 2048"
    if "length sec = 2048" for sec using inject_patch_length [OF assms that] by (auto simp: grub_patch_def)
  have pat: "\<exists>r. (let s = (if needs_grub_patch vbio lba then grub_patch vbio sec else sec)
          in if needs_premount_patch vbio lba then premount_patch vbio s else Some s) = Some r \<and> length r = 2048"
    if "length sec = 2048" for sec
    using premount_patch_length [of vbio sec] premount_patch_length [of vbio "grub_patch vbio sec"] that
    by (auto simp: grub_patch_def Let_def)
  show ?thesis
  proof (cases "needs_premount_injected vbio lba")
    case True
    have "\<exists>r. real_then vbio lba (\<lambda>sec. do { s \<leftarrow> inject_patch vbio sec;
        Some (if needs_grub_patch vbio lba then grub_patch vbio s else s) }) = Some r \<and> (\<forall>s. r = Served s \<longrightarrow> length s = 2048)"
      by (rule real_then_ok [OF assms]) (rule inj)
    then show ?thesis using True by (simp add: block_content_def)
  next
    case ni: False
    show ?thesis
    proof (cases "needs_grub_patch vbio lba \<or> needs_premount_patch vbio lba")
      case True
      have "\<exists>r. real_then vbio lba (\<lambda>sec. let s = (if needs_grub_patch vbio lba then grub_patch vbio sec else sec)
          in if needs_premount_patch vbio lba then premount_patch vbio s else Some s) = Some r \<and> (\<forall>s. r = Served s \<longrightarrow> length s = 2048)"
        by (rule real_then_ok [OF assms]) (rule pat)
      then show ?thesis using ni True by (simp add: block_content_def)
    next
      case False
      have run: "block_content vbio lba = (case m1 of Some sec \<Rightarrow> Some (Served sec)
        | None \<Rightarrow> case m2 of Some sec \<Rightarrow> Some (Served sec)
            | None \<Rightarrow> real_then vbio lba (\<lambda>sec. Some (if lba = 16 then pvd_patch vbio sec else sec)))"
        using ni False m1(1) m2(1) by (auto simp: block_content_def split: option.splits)
      show ?thesis unfolding run using m1(2) m2(2) real_then_ok [OF assms, where lba = lba and f = "\<lambda>sec. Some (if lba = 16 then pvd_patch vbio sec else sec)"]
        by (auto split: option.splits)
    qed
  qed
qed

text \<open>The loop over a buffer whose first \<open>b\<close> blocks are done.\<close>

definition all_served :: "virtual_block_io \<Rightarrow> u64 list \<Rightarrow> bytes option" where
  "all_served vbio lbas =
     (if list_all (\<lambda>l. \<exists>s. block_content vbio l = Some (Served s)) lbas
      then Some (concat (map (\<lambda>l. case block_content vbio l of Some (Served s) \<Rightarrow> s | _ \<Rightarrow> []) lbas)) else None)"

lemma all_served_simps:
  "all_served vbio [] = Some []"
  "block_content vbio l = Some (Served s) \<Longrightarrow> all_served vbio (l # ls) = map_option (\<lambda>r. s @ r) (all_served vbio ls)"
  "block_content vbio l = Some Device_error \<Longrightarrow> all_served vbio (l # ls) = None"
  by (simp_all add: all_served_def)

lemma vblock_loop_served:
  assumes "vbio_ok vbio"
  shows "(b + n) * 2048 = length dst \<Longrightarrow>
    vblock_loop vbio lba b n dst = Some (case all_served vbio (map (\<lambda>i. lba + word_of_nat i) [b..<b + n]) of
      None \<Rightarrow> Read_error | Some bs \<Rightarrow> Success (take (b * 2048) dst @ bs))"
proof (induction n arbitrary: b dst)
  case 0
  then show ?case by (simp add: all_served_simps)
next
  case (Suc n)
  have up: "[b..<b + Suc n] = b # [Suc b..<Suc b + n]" by (simp add: upt_conv_Cons)
  obtain r where r: "block_content vbio (lba + word_of_nat b) = Some r" "\<And>s. r = Served s \<Longrightarrow> length s = 2048"
    using block_content_ok [OF assms] by blast
  show ?case
  proof (cases r)
    case (Served sec)
    have l: "length sec = 2048" by (rule r(2) [OF Served])
    let ?d = "take (b * 2048) dst @ sec @ drop (b * 2048 + 2048) dst"
    have bl: "blit dst (b * 2048) sec = Some ?d" using l Suc.prems by (simp add: bounds_simps)
    have "(Suc b + n) * 2048 = length ?d" using l Suc.prems by simp
    from Suc.IH [OF this] have IH: "vblock_loop vbio lba (Suc b) n ?d =
      Some (case all_served vbio (map (\<lambda>i. lba + word_of_nat i) [Suc b..<Suc b + n]) of
        None \<Rightarrow> Read_error | Some bs \<Rightarrow> Success (take (Suc b * 2048) ?d @ bs))" .
    have t: "take (Suc b * 2048) ?d = take (b * 2048) dst @ sec" using l Suc.prems by simp
    have run: "vblock_loop vbio lba b (Suc n) dst = vblock_loop vbio lba (Suc b) n ?d" using r(1) Served bl by simp
    show ?thesis unfolding run IH up t using r(1) Served by (simp add: all_served_simps split: option.splits)
  next
    case Device_error
    then show ?thesis using r(1) unfolding up by (simp add: all_served_simps)
  qed
qed

text \<open>C32: every consumer of the virtual CD-ROM sees the same disc: \<open>vblock_read\<close> never panics, and a read of
  n blocks returns the concatenation of the contents of the n blocks, each a function of its block number
  alone, whatever the size of the read and whatever the buffer held before; it fails exactly when one of the
  blocks fails, and refuses buffers that are no multiple of 2048.\<close>

theorem vblock_read_consistent:
  assumes "vbio_ok vbio"
  shows "vblock_read vbio lba buffer =
    (if length buffer mod 2048 \<noteq> 0 then Some Bad_buffer_size
     else Some (case all_served vbio (map (\<lambda>i. lba + word_of_nat i) [0..<length buffer div 2048]) of
       None \<Rightarrow> Read_error | Some bs \<Rightarrow> Success bs))"
proof (cases "length buffer mod 2048 = 0")
  case True
  then have "(0 + length buffer div 2048) * 2048 = length buffer" by auto
  from vblock_loop_served [OF assms this, of lba] True show ?thesis by (simp add: vblock_read_def split: option.splits)
qed (simp add: vblock_read_def)

section \<open>The redirected directory entry\<close>

text \<open>A 32-bit field stored in both byte orders.\<close>

definition both_endian :: "bytes \<Rightarrow> nat \<Rightarrow> u32 \<Rightarrow> bool" where
  "both_endian sec off v \<longleftrightarrow> take 4 (drop off sec) = to_le 4 v \<and> take 4 (drop (off + 4) sec) = to_be 4 v"

lemma patch_dir_entry_effect:
  assumes "off + 18 \<le> length e"
  shows "both_endian (patch_dir_entry e off x y) (off + 2) x \<and> both_endian (patch_dir_entry e off x y) (off + 10) y \<and>
    take (off + 2) (patch_dir_entry e off x y) = take (off + 2) e \<and>
    drop (off + 18) (patch_dir_entry e off x y) = drop (off + 18) e"
proof -
  have p: "patch_dir_entry e off x y = take (off + 2) e @ to_le 4 x @ to_be 4 x @ to_le 4 y @ to_be 4 y @ drop (off + 18) e"
    using assms by (simp add: patch_dir_entry_def paste_def add.commute)
  show ?thesis unfolding p both_endian_def using assms by simp
qed

text \<open>The sector that holds grub.cfg's directory entry is served with the extent and the length of the
  entry replaced, in both byte orders, by those of the patched file, and with every other byte as on the disc;
  a block that no patch concerns is served as on the disc.\<close>

theorem directory_redirected:
  assumes "vbio_ok vbio" and "read_real_iso_sector vbio lba = Some sec"
    and "\<not> needs_premount_injected vbio lba" and "\<not> needs_premount_patch vbio lba"
  shows "(needs_grub_patch vbio lba \<and> unat (vb_dir_entry_offset vbio) + 18 \<le> 2048 \<longrightarrow>
      (\<exists>s. block_content vbio lba = Some (Served s) \<and>
        both_endian s (unat (vb_dir_entry_offset vbio) + 2) (vb_dir_entry_new_extent vbio) \<and>
        both_endian s (unat (vb_dir_entry_offset vbio) + 10) (vb_dir_entry_new_size vbio) \<and>
        take (unat (vb_dir_entry_offset vbio) + 2) s = take (unat (vb_dir_entry_offset vbio) + 2) sec \<and>
        drop (unat (vb_dir_entry_offset vbio) + 18) s = drop (unat (vb_dir_entry_offset vbio) + 18) sec)) \<and>
    (\<not> needs_grub_patch vbio lba \<and> lba \<noteq> 16 \<and> serve_memory_sector (vb_premount_file vbio) lba = Some None \<and>
      serve_memory_sector (vb_patched_file vbio) lba = Some None \<longrightarrow> block_content vbio lba = Some (Served sec))"
proof -
  have l: "length sec = 2048" by (rule real_sector_length [OF assms(1,2)])
  show ?thesis
    using assms(2-4) patch_dir_entry_effect [of "unat (vb_dir_entry_offset vbio)" sec "vb_dir_entry_new_extent vbio" "vb_dir_entry_new_size vbio"] l
    by (auto simp: block_content_def real_then_def Let_def grub_patch_def)
qed

text \<open>An ISO of 20 sectors at disk sector 1000, with the entry at offset 34 of sector 18 redirected.\<close>

definition sample_vbio :: virtual_block_io where
  "sample_vbio = \<lparr>vb_last_block = 20, vb_iso_lba = 1000,
     vb_backing = \<lparr>bk_block_size = Some 512, bk_read = (\<lambda>lba n. Some (replicate n (ucast lba)))\<rparr>,
     vb_patched_file = \<lparr>mf_sector = 20, mf_sectors = 1, mf_buf = Some (replicate 2048 0x23)\<rparr>,
     vb_dir_entry_sector = 18, vb_dir_entry_offset = 34, vb_dir_entry_new_extent = 20, vb_dir_entry_new_size = 100,
     vb_dir_entry_patched = True, vb_premount_file = \<lparr>mf_sector = 0, mf_sectors = 0, mf_buf = None\<rparr>,
     vb_premount_entry_sector = 0, vb_premount_entry_offset = 0, vb_premount_entry_new_extent = 0,
     vb_premount_entry_new_size = 0, vb_premount_entry_patched = False, vb_premount_entry_rename = False,
     vb_premount_entry_injected = False, vb_premount_entry_injected_blob = replicate 128 0,
     vb_premount_entry_injected_size = 0, vb_premount_new_root_size = 0\<rparr>"

lemma sample_vbio_ok: "vbio_ok sample_vbio"
  by (simp add: vbio_ok_def sample_vbio_def backing_ok_def mem_file_ok_def)

lemma vblock_read_consistent_witness:
  "vblock_read sample_vbio 20 (replicate 2048 0) = Some (Success (replicate 2048 0x23)) \<and>
   vblock_read sample_vbio 0 [1, 2, 3] = Some Bad_buffer_size"
proof -
  have b: "block_content sample_vbio 20 = Some (Served (replicate 2048 0x23))"
    by (simp add: block_content_def needs_premount_injected_def needs_grub_patch_def needs_premount_patch_def
        serve_memory_sector_def sample_vbio_def bounds_simps)
  have "all_served sample_vbio (map (\<lambda>i. 20 + word_of_nat i) [0..<1]) = Some (replicate 2048 0x23)"
    by (simp add: all_served_simps b)
  then show ?thesis
    using vblock_read_consistent [OF sample_vbio_ok, of 20 "replicate 2048 0"]
      vblock_read_consistent [OF sample_vbio_ok, of 0 "[1, 2, 3]"] by simp
qed

lemma directory_redirected_witness:
  "\<exists>s. block_content sample_vbio 18 = Some (Served s) \<and> both_endian s 36 20 \<and> both_endian s 44 100"
proof -
  have r: "read_real_iso_sector sample_vbio 18 = Some (replicate 2048 (ucast (1072 :: u64)))"
    by (simp add: read_real_iso_sector_def sample_vbio_def backing_block_size_def)
  have "\<not> needs_premount_injected sample_vbio 18" "\<not> needs_premount_patch sample_vbio 18" "needs_grub_patch sample_vbio 18"
    by (simp_all add: needs_premount_injected_def needs_premount_patch_def needs_grub_patch_def sample_vbio_def)
  with directory_redirected [OF sample_vbio_ok r] show ?thesis by (auto simp: sample_vbio_def)
qed

end
