(* ===== verification/EfiFs.thy ===== *)
theory EfiFs
  imports EfiDisk KernelNtfs
begin

text \<open>
  The directory scanners of the UEFI loader (\<open>efi/src/fs.rs\<close>): exFAT and FAT32 with
  subdirectories, NTFS, and the dispatcher. The array \<open>files\<close> of 64 slots with its \<open>count\<close>
  is the list of the entries stored so far. A loop along a cluster chain takes one unit of the fuel
  \<open>n\<close> per cluster, and a nested directory one unit of the fuel \<open>d\<close>; the file system kinds are
  those of the kernel's scanners, and so is the reader of the MFT records, whose code is the same.
\<close>

section \<open>Block I/O\<close>

text \<open>
  \<open>read_sector\<close> of \<open>disk.rs\<close>. The firmware is the parameter \<open>io\<close>: the data it transfers
  for a sector number and a size in bytes, or \<open>None\<close> for any status other than success.
\<close>

definition read_sector :: "(u64 \<Rightarrow> nat \<Rightarrow> bytes option) \<Rightarrow> u64 \<Rightarrow> bytes option" where
  "read_sector io lba = (case io lba 512 of None \<Rightarrow> None | Some b \<Rightarrow> Some (take 512 (b @ replicate 512 0)))"

interpretation bio: sector_source "read_sector io" for io
  by unfold_locales (auto simp: read_sector_def split: option.splits)

section \<open>Payloads\<close>

datatype payload_type = Iso | Wim | Vhd | Vhdx | Img | Efi

record payload_entry =
  pe_name :: bytes
  pe_name_len :: nat
  pe_start_lba :: u64
  pe_size :: u64
  pe_type :: payload_type

record efi_fs_ctx =
  ex_fs :: fs_type
  ex_part1_lba :: u64
  ex_spc :: u32
  ex_fat_start :: u64
  ex_fat_len :: u64
  ex_heap_start :: u64
  ex_root_cluster :: u32
  ex_mft_start_lba :: u64
  ex_sectors_per_cluster :: u32
  ex_bytes_per_cluster :: u64
  ex_mft_record_size :: u64

text \<open>\<open>name_len >= k && name[name_len - k..name_len].eq_ignore_ascii_case(ext)\<close>, on the bytes in use.\<close>

definition has_ext :: "bytes \<Rightarrow> string \<Rightarrow> bool" where
  "has_ext nm ext \<longleftrightarrow> length ext \<le> length nm \<and> eq_ignore_ascii_case (drop (length nm - length ext) nm) (bstr ext)"

definition is_bootable_extension :: "bytes \<Rightarrow> bool" where
  "is_bootable_extension nm \<longleftrightarrow> has_ext nm ''.iso'' \<or> has_ext nm ''.wim'' \<or> has_ext nm ''.vhd''
     \<or> has_ext nm ''.img'' \<or> has_ext nm ''.efi'' \<or> has_ext nm ''.vhdx''"

definition classify_payload_type :: "bytes \<Rightarrow> payload_type" where
  "classify_payload_type nm =
     (if has_ext nm ''.iso'' then Iso
      else if has_ext nm ''.wim'' then Wim
      else if has_ext nm ''.vhd'' \<and> \<not> has_ext nm ''.vhdx'' then Vhd
      else if has_ext nm ''.vhdx'' then Vhdx
      else if has_ext nm ''.img'' then Img
      else if has_ext nm ''.efi'' then Efi
      else Iso)"

text \<open>The result is \<open>out[..fp]\<close>; the rest of \<open>out\<close> stays zero.\<close>

definition build_full_path :: "bytes \<Rightarrow> bytes \<Rightarrow> bytes option" where
  "build_full_path prefix nm =
     (if length prefix \<le> 256 then
        let p = (if (length prefix \<noteq> 1 \<or> prefix ! 0 \<noteq> 47) \<and> length prefix < 256 then prefix @ [47] else prefix)
        in Some (p @ take (min (length nm) (256 - length p)) nm)
      else None)"

text \<open>\<open>files[*count] = IsoEntry { .. }; *count += 1\<close>, with the path built before; the caller has checked the count.\<close>

definition add_payload :: "bytes \<Rightarrow> bytes \<Rightarrow> u64 \<Rightarrow> u64 \<Rightarrow> payload_entry list \<Rightarrow> payload_entry list option" where
  "add_payload prefix nm lba sz files = do {
     fp \<leftarrow> build_full_path prefix nm;
     if length files < 64
     then Some (files @ [\<lparr>pe_name = name_buf fp, pe_name_len = length fp, pe_start_lba = lba, pe_size = sz,
            pe_type = classify_payload_type nm\<rparr>])
     else None }"

definition path_depth :: "bytes \<Rightarrow> nat" where
  "path_depth prefix = length (filter (\<lambda>c. c = 47) prefix)"

text \<open>The recursive call on a subdirectory, an argument of the loops below: cluster, path and files.\<close>

type_synonym visit = "u32 \<Rightarrow> bytes \<Rightarrow> payload_entry list \<Rightarrow> payload_entry list outcome"

definition enter_dir :: "visit \<Rightarrow> bytes \<Rightarrow> bytes \<Rightarrow> u32 \<Rightarrow> payload_entry list \<Rightarrow> payload_entry list outcome" where
  "enter_dir sub prefix nm cl files = obind (of_opt (build_full_path prefix nm)) (\<lambda>p. sub cl p files)"

definition sub_lba :: "efi_fs_ctx \<Rightarrow> u32 \<Rightarrow> u64" where
  "sub_lba ctx cluster = ex_heap_start ctx + (ucast cluster - 2) * ucast (ex_spc ctx)"

section \<open>The FAT\<close>

definition read_fat_entry :: "(u64 \<Rightarrow> bytes option) \<Rightarrow> u64 \<Rightarrow> u32 \<Rightarrow> u32 option" where
  "read_fat_entry rd fat_start cluster =
     (let fat_lba = fat_start + ucast cluster * 4 div 512;
          fat_off = unat ((ucast cluster :: u64) * 4 mod 512)
      in case rd fat_lba of
           None \<Rightarrow> Some 0xFFFFFFFF
         | Some fat_buf \<Rightarrow> u32_at fat_buf fat_off)"

definition fat32_next_cluster :: "(u64 \<Rightarrow> bytes option) \<Rightarrow> u64 \<Rightarrow> u32 \<Rightarrow> u32 option" where
  "fat32_next_cluster rd fat_start cluster = map_option (\<lambda>v. v AND 0x0FFFFFFF) (read_fat_entry rd fat_start cluster)"

text \<open>
  How a turn of an entry loop ends: the scan of this directory returns, the sector is used up with what is
  carried into the next one, or the loop goes on at another entry.
\<close>

datatype 'c dir_step = Return "payload_entry list" | Sector 'c "payload_entry list" | Step nat "payload_entry list"

text \<open>
  The loops over the sectors of a cluster and the clusters of a chain, which the exFAT and the FAT32 scanner
  share: \<open>sec\<close> handles one sector and \<open>nxt\<close> reads the FAT.
\<close>

fun scan_cluster ::
  "(u64 \<Rightarrow> bytes option) \<Rightarrow> efi_fs_ctx \<Rightarrow> ('c \<Rightarrow> bytes \<Rightarrow> payload_entry list \<Rightarrow> 'c dir_step outcome) \<Rightarrow>
     u32 \<Rightarrow> nat \<Rightarrow> nat \<Rightarrow> 'c \<Rightarrow> payload_entry list \<Rightarrow> 'c dir_step outcome" where
  "scan_cluster rd ctx sec cluster si 0 c files = Done (Sector c files)"
| "scan_cluster rd ctx sec cluster si (Suc k) c files =
     (case rd (sub_lba ctx cluster + word_of_nat si) of
        None \<Rightarrow> Done (Return files)
      | Some buf \<Rightarrow>
          obind (sec c buf files) (\<lambda>r.
            case r of Sector c' files' \<Rightarrow> scan_cluster rd ctx sec cluster (si + 1) k c' files'
            | _ \<Rightarrow> Done r))"

fun scan_chain ::
  "(u64 \<Rightarrow> bytes option) \<Rightarrow> efi_fs_ctx \<Rightarrow> ('c \<Rightarrow> bytes \<Rightarrow> payload_entry list \<Rightarrow> 'c dir_step outcome) \<Rightarrow>
     (u32 \<Rightarrow> u32 option) \<Rightarrow> u32 \<Rightarrow> nat \<Rightarrow> u32 \<Rightarrow> 'c \<Rightarrow> payload_entry list \<Rightarrow> payload_entry list outcome" where
  "scan_chain rd ctx sec nxt stop 0 cluster c files = Spin"
| "scan_chain rd ctx sec nxt stop (Suc n) cluster c files =
     obind (scan_cluster rd ctx sec cluster 0 (unat (ex_spc ctx)) c files) (\<lambda>r.
       case r of
         Sector c' files' \<Rightarrow>
           obind (of_opt (nxt cluster)) (\<lambda>v.
             if v < 2 \<or> v \<ge> stop then Done files'
             else scan_chain rd ctx sec nxt stop n v c' files')
       | Return files' \<Rightarrow> Done files'
       | Step _ files' \<Rightarrow> Done files')"

section \<open>exFAT\<close>

text \<open>\<open>for j in 0..to_copy\<close>: a zero character ends the copy and the rest of the part stays zero.\<close>

fun exfat_chars :: "bytes \<Rightarrow> nat \<Rightarrow> nat \<Rightarrow> nat \<Rightarrow> bytes option" where
  "exfat_chars ents noff j 0 = Some []"
| "exfat_chars ents noff j (Suc k) = do {
     lo \<leftarrow> idx ents (noff + 2 + j * 2);
     hi \<leftarrow> idx ents (noff + 3 + j * 2);
     let cp = (ucast lo OR push_bit 8 (ucast hi) :: u16);
     if cp = 0 then Some (replicate (Suc k) 0)
     else do {
       cs \<leftarrow> exfat_chars ents noff (j + 1) k;
       Some ((if cp < 0x80 then ucast cp else 63) # cs) } }"

text \<open>\<open>for ne in 0..name_ents\<close>; \<open>nm\<close> is \<open>name_buf[..name_pos]\<close>.\<close>

fun exfat_name :: "bytes \<Rightarrow> nat \<Rightarrow> nat \<Rightarrow> nat \<Rightarrow> bytes \<Rightarrow> bytes option" where
  "exfat_name ents noff name_len 0 nm = Some nm"
| "exfat_name ents noff name_len (Suc k) nm = do {
     ty \<leftarrow> idx ents noff;
     if ty \<noteq> 0xC1 then Some nm
     else let to_copy = min (min (name_len - length nm) 15) (256 - length nm)
          in if to_copy = 0 then Some nm
             else do {
               cs \<leftarrow> exfat_chars ents noff 0 to_copy;
               exfat_name ents (noff + 32) name_len k (nm @ cs) } }"

text \<open>A file or a directory entry set with its name.\<close>

definition exfat_file ::
  "visit \<Rightarrow> efi_fs_ctx \<Rightarrow> bytes \<Rightarrow> u16 \<Rightarrow> u32 \<Rightarrow> u64 \<Rightarrow> bytes \<Rightarrow> payload_entry list \<Rightarrow> payload_entry list outcome" where
  "exfat_file sub ctx prefix file_attrs start_cl fsize nm files =
     (if file_attrs AND 0x10 \<noteq> 0 \<and> start_cl \<ge> 2 \<and> length files < 64 \<and> path_depth prefix < 12
      then enter_dir sub prefix nm start_cl files
      else if is_bootable_extension nm \<and> length files < 64
      then of_opt (add_payload prefix nm (sub_lba ctx start_cl) fsize files)
      else Done files)"

text \<open>One turn of the entry loop at \<open>pos < n_entries\<close>.\<close>

definition exfat_entry ::
  "visit \<Rightarrow> efi_fs_ctx \<Rightarrow> bytes \<Rightarrow> bytes \<Rightarrow> nat \<Rightarrow> nat \<Rightarrow> payload_entry list \<Rightarrow> bytes dir_step outcome" where
  "exfat_entry sub ctx prefix ents n_entries pos files =
     obind (of_opt (idx ents (pos * 32))) (\<lambda>etype.
       if etype = 0 then Done (Return files)
       else if etype = 0x85 then
         obind (of_opt (idx ents (pos * 32 + 1))) (\<lambda>sc.
           let sec_count = unat sc; total_ents = 1 + sec_count
           in if sec_count < 1 then Done (Step (pos + 1) files)
              else if pos + total_ents > n_entries then
                (let rem = length ents - pos * 32
                 in if rem \<le> 608
                    then obind (of_opt (slice ents (pos * 32) (length ents))) (\<lambda>c. Done (Sector c files))
                    else Done (Sector [] files))
              else
                let stream_off = (pos + 1) * 32
                in obind (of_opt (idx ents stream_off)) (\<lambda>st.
                  if st \<noteq> 0xC0 then Done (Step (pos + total_ents) files)
                  else
                    obind (of_opt (u16_at ents (pos * 32 + 4))) (\<lambda>file_attrs.
                    obind (of_opt (u32_at ents (stream_off + 20))) (\<lambda>start_cl.
                    obind (of_opt (u64_at ents (stream_off + 24))) (\<lambda>fsize.
                    obind (of_opt (idx ents (stream_off + 3))) (\<lambda>nl.
                    obind (of_opt (exfat_name ents ((pos + 2) * 32) (unat nl) (sec_count - 1) [])) (\<lambda>nm.
                    obind (exfat_file sub ctx prefix file_attrs start_cl fsize nm files)
                      (\<lambda>files'. Done (Step (pos + total_ents) files')))))))))
       else Done (Step (pos + 1) files))"

fun exfat_entries ::
  "visit \<Rightarrow> efi_fs_ctx \<Rightarrow> bytes \<Rightarrow> bytes \<Rightarrow> nat \<Rightarrow> nat \<Rightarrow> nat \<Rightarrow> payload_entry list \<Rightarrow> bytes dir_step outcome" where
  "exfat_entries sub ctx prefix ents n_entries 0 pos files = Spin"
| "exfat_entries sub ctx prefix ents n_entries (Suc fuel) pos files =
     (if pos < n_entries then
        obind (exfat_entry sub ctx prefix ents n_entries pos files) (\<lambda>r.
          case r of Step pos' files' \<Rightarrow> exfat_entries sub ctx prefix ents n_entries fuel pos' files'
          | _ \<Rightarrow> Done r)
      else Done (Sector [] files))"

definition exfat_sector ::
  "visit \<Rightarrow> efi_fs_ctx \<Rightarrow> bytes \<Rightarrow> bytes \<Rightarrow> bytes \<Rightarrow> payload_entry list \<Rightarrow> bytes dir_step outcome" where
  "exfat_sector sub ctx prefix carry buf files =
     obind (of_opt (blit (replicate 1152 0) 0 carry)) (\<lambda>c1.
     obind (of_opt (blit c1 (length carry) buf)) (\<lambda>c2.
       let total = length carry + 512; n_entries = total div 32
       in exfat_entries sub ctx prefix (take total c2) n_entries (n_entries + 1) 0 files))"

fun scan_exfat_dir ::
  "(u64 \<Rightarrow> bytes option) \<Rightarrow> efi_fs_ctx \<Rightarrow> nat \<Rightarrow> nat \<Rightarrow> u32 \<Rightarrow> bytes \<Rightarrow> payload_entry list \<Rightarrow> payload_entry list outcome" where
  "scan_exfat_dir rd ctx n 0 cluster prefix files = Spin"
| "scan_exfat_dir rd ctx n (Suc d) cluster prefix files =
     (if length files \<ge> 64 then Done files
      else scan_chain rd ctx (exfat_sector (scan_exfat_dir rd ctx n d) ctx prefix)
             (read_fat_entry rd (ex_fat_start ctx)) 0xFFFFFFF8 n cluster [] files)"

section \<open>FAT32\<close>

record lfn =
  lfn_buf :: bytes
  lfn_len :: nat
  lfn_seq :: u8
  lfn_sum :: u8

definition no_lfn :: lfn where
  "no_lfn = \<lparr>lfn_buf = replicate 256 0, lfn_len = 0, lfn_seq = 0, lfn_sum = 0\<rparr>"

text \<open>The low bytes of the 13 characters of a long-name entry, up to the first 0x00 or 0xFF.\<close>

definition lfn_chars :: "bytes \<Rightarrow> bytes" where
  "lfn_chars e = map (\<lambda>i. e ! i) [1, 3, 5, 7, 9, 14, 16, 18, 20, 22, 24, 28, 30]"

definition lfn_text :: "bytes \<Rightarrow> bytes" where
  "lfn_text cs = takeWhile (\<lambda>c. c \<noteq> 0 \<and> c \<noteq> 0xFF) cs"

fun lfn_write :: "bytes \<Rightarrow> nat \<Rightarrow> bytes \<Rightarrow> bytes option" where
  "lfn_write buf pos [] = Some buf"
| "lfn_write buf pos (c # cs) =
     (if pos < 255 then do { b \<leftarrow> put buf pos (if c < 0x80 then c else 63); lfn_write b (pos + 1) cs }
      else lfn_write buf pos cs)"

definition lfn_entry :: "bytes \<Rightarrow> lfn \<Rightarrow> lfn option" where
  "lfn_entry e l =
     (let seq = e ! 0 AND 0x1F; checksum = e ! 13
      in if seq = 0 \<or> seq > 20 then Some l
         else
           let txt = lfn_text (lfn_chars e);
               write_start = (unat seq - 1) * 13;
               l1 = (if e ! 0 AND 0x40 \<noteq> 0
                     then l\<lparr>lfn_seq := seq, lfn_sum := checksum, lfn_len := min (write_start + length txt) 255\<rparr> else l)
           in if seq \<noteq> lfn_seq l1 \<or> checksum \<noteq> lfn_sum l1 then Some l1
              else do {
                b \<leftarrow> lfn_write (lfn_buf l1) write_start txt;
                Some (l1\<lparr>lfn_seq := lfn_seq l1 - 1, lfn_buf := b\<rparr>) })"

text \<open>The 8.3 name; its 13 characters at most never reach the bound of 255 that the code checks.\<close>

definition short_name :: "bytes \<Rightarrow> bytes" where
  "short_name e = takeWhile (\<lambda>c. c \<noteq> 0x20) (take 8 e)
     @ (if e ! 8 \<noteq> 0x20 then 46 # takeWhile (\<lambda>c. c \<noteq> 0x20) (take 3 (drop 8 e)) else [])"

definition fat32_name :: "bytes \<Rightarrow> lfn \<Rightarrow> bytes option" where
  "fat32_name e l =
     (if lfn_len l > 0 \<and> lfn_buf l ! 0 \<noteq> 0 then slice (lfn_buf l) 0 (min (lfn_len l) 255) else Some (short_name e))"

definition entry_cluster :: "bytes \<Rightarrow> u32" where
  "entry_cluster e = from_le [e ! 26, e ! 27, e ! 20, e ! 21]"

text \<open>A file or a directory entry with its name.\<close>

definition fat32_file ::
  "visit \<Rightarrow> efi_fs_ctx \<Rightarrow> bytes \<Rightarrow> bytes \<Rightarrow> bytes \<Rightarrow> payload_entry list \<Rightarrow> payload_entry list outcome" where
  "fat32_file sub ctx prefix e nm files =
     (if e ! 11 AND 0x10 \<noteq> 0 \<and> nm \<noteq> [46] \<and> nm \<noteq> [46, 46] \<and> length files < 64 \<and> path_depth prefix < 12
      then enter_dir sub prefix nm (entry_cluster e) files
      else if is_bootable_extension nm \<and> length files < 64
      then of_opt (add_payload prefix nm (sub_lba ctx (entry_cluster e))
             (ucast (from_le (take 4 (drop 28 e)) :: u32)) files)
      else Done files)"

fun fat32_entries ::
  "visit \<Rightarrow> efi_fs_ctx \<Rightarrow> bytes \<Rightarrow> nat \<Rightarrow> nat \<Rightarrow> lfn \<Rightarrow> bytes \<Rightarrow> payload_entry list \<Rightarrow> lfn dir_step outcome" where
  "fat32_entries sub ctx prefix i 0 l buf files = Done (Sector l files)"
| "fat32_entries sub ctx prefix i (Suc n) l buf files =
     obind (of_opt (slice buf (i * 32) (i * 32 + 32))) (\<lambda>e.
       if e ! 0 = 0 then Done (Return files)
       else if e ! 0 = 0xE5 then fat32_entries sub ctx prefix (i + 1) n (l\<lparr>lfn_len := 0\<rparr>) buf files
       else if e ! 11 = 0x0F then
         obind (of_opt (lfn_entry e l)) (\<lambda>l'. fat32_entries sub ctx prefix (i + 1) n l' buf files)
       else if e ! 11 AND 0x08 \<noteq> 0 then fat32_entries sub ctx prefix (i + 1) n (l\<lparr>lfn_len := 0\<rparr>) buf files
       else
         obind (of_opt (fat32_name e l)) (\<lambda>nm.
         obind (fat32_file sub ctx prefix e nm files) (\<lambda>files'.
           fat32_entries sub ctx prefix (i + 1) n (l\<lparr>lfn_len := 0\<rparr>) buf files')))"

fun scan_fat32_dir ::
  "(u64 \<Rightarrow> bytes option) \<Rightarrow> efi_fs_ctx \<Rightarrow> nat \<Rightarrow> nat \<Rightarrow> u32 \<Rightarrow> bytes \<Rightarrow> payload_entry list \<Rightarrow> payload_entry list outcome" where
  "scan_fat32_dir rd ctx n 0 cluster prefix files = Spin"
| "scan_fat32_dir rd ctx n (Suc d) cluster prefix files =
     (if cluster = 0 \<or> length files \<ge> 64 then Done files
      else scan_chain rd ctx (fat32_entries (scan_fat32_dir rd ctx n d) ctx prefix 0 16)
             (fat32_next_cluster rd (ex_fat_start ctx)) 0x0FFFFFF0 n cluster no_lfn files)"

section \<open>NTFS\<close>

text \<open>
  The context as the kernel's MFT reader takes it: the record layout, its fixup and the bounds of the walk over
  the attributes are the same code in both loaders.
\<close>

definition mft_ctx :: "efi_fs_ctx \<Rightarrow> fs_ctx" where
  "mft_ctx ctx = \<lparr>cx_fs = ex_fs ctx, cx_part1_lba = ucast (ex_part1_lba ctx), cx_spc = ex_spc ctx,
     cx_fat_start = ex_fat_start ctx, cx_fat_len = ex_fat_len ctx, cx_heap_start = ex_heap_start ctx,
     cx_root_cluster = ex_root_cluster ctx, cx_mft_start_lba = ex_mft_start_lba ctx,
     cx_sectors_per_cluster = ex_sectors_per_cluster ctx, cx_mft_record_size = ex_mft_record_size ctx\<rparr>"

text \<open>\<open>((val << shift) as i64) >> shift\<close>, as the 64-bit word of its two's complement.\<close>

definition parse_varlen_le_signed :: "bytes \<Rightarrow> nat \<Rightarrow> u64" where
  "parse_varlen_le_signed data n =
     (if n = 0 \<or> n > 8 then 0
      else signed_drop_bit (64 - n * 8) (push_bit (64 - n * 8) (parse_varlen_le data n)))"

definition data_run :: "efi_fs_ctx \<Rightarrow> bytes \<Rightarrow> nat \<Rightarrow> nat \<Rightarrow> (u64 \<times> u64) option option" where
  "data_run ctx attrs off alen = do {
     nr \<leftarrow> idx attrs (off + 8);
     if nr = 0 then Some None
     else if alen < 56 then Some None
     else do {
       ro \<leftarrow> u16_at attrs (off + 0x20);
       file_size \<leftarrow> u64_at attrs (off + 0x30);
       let run_off = unat ro;
       if run_off > 0 \<and> run_off < alen \<and> off + run_off < length attrs then do {
         run_bytes \<leftarrow> slice attrs (off + run_off) (off + alen);
         if 0 < length run_bytes then do {
           hdr \<leftarrow> idx run_bytes 0;
           let len_bytes = unat (hdr AND 0x0F);
           let off_bytes = unat (drop_bit 4 hdr AND 0x0F);
           if hdr \<noteq> 0 \<and> 0 + 1 + len_bytes + off_bytes \<le> length run_bytes then do {
             ob \<leftarrow> slice run_bytes (0 + 1 + len_bytes) (length run_bytes);
             let lcn = 0 + parse_varlen_le_signed ob off_bytes;
             Some (Some (ex_part1_lba ctx + lcn * ucast (ex_sectors_per_cluster ctx), file_size)) }
           else Some None }
         else Some None }
       else Some None } }"

fun parse_ntfs_data_attr :: "efi_fs_ctx \<Rightarrow> bytes \<Rightarrow> nat \<Rightarrow> nat \<Rightarrow> (u64 \<times> u64) option outcome" where
  "parse_ntfs_data_attr ctx attrs 0 off = Spin"
| "parse_ntfs_data_attr ctx attrs (Suc fuel) off =
     (case attr_at attrs off of
        None \<Rightarrow> Panic
      | Some None \<Rightarrow> Done None
      | Some (Some (atype, alen)) \<Rightarrow>
          if atype = 0x80 then of_opt (data_run ctx attrs off alen)
          else parse_ntfs_data_attr ctx attrs fuel (off + alen))"

definition get_ntfs_file_lba :: "(u64 \<Rightarrow> bytes option) \<Rightarrow> efi_fs_ctx \<Rightarrow> u32 \<Rightarrow> (u64 \<times> u64) option outcome" where
  "get_ntfs_file_lba rd ctx mft_rec =
     obind (mft_attrs rd (mft_ctx ctx) (ucast mft_rec)) (\<lambda>r.
       case r of None \<Rightarrow> Done None | Some attrs \<Rightarrow> parse_ntfs_data_attr ctx attrs (length attrs + 1) 0)"

text \<open>The name and file of one index entry at the start of \<open>ents\<close>.\<close>

definition ntfs_entry ::
  "(u64 \<Rightarrow> bytes option) \<Rightarrow> efi_fs_ctx \<Rightarrow> bytes \<Rightarrow> bytes \<Rightarrow> u32 \<Rightarrow> payload_entry list \<Rightarrow> payload_entry list outcome" where
  "ntfs_entry rd ctx prefix ents mft_rec files =
     obind (of_opt (idx ents 12)) (\<lambda>flags.
       if 0x10 + 66 \<le> length ents \<and> flags AND 0x02 = 0 then
         obind (of_opt (idx ents (0x10 + 64))) (\<lambda>nl.
           let name_len = unat nl
           in if name_len > 0 \<and> name_len \<le> 255 \<and> 0x10 + 66 + name_len * 2 \<le> length ents then
                obind (of_opt (ntfs_name ents 0 name_len [])) (\<lambda>nm.
                  if is_bootable_extension nm \<and> length files < 64 \<and> mft_rec > 0 then
                    obind (get_ntfs_file_lba rd ctx mft_rec) (\<lambda>info.
                      case info of None \<Rightarrow> Done files
                      | Some (lba, sz) \<Rightarrow> of_opt (add_payload prefix nm lba sz files))
                  else Done files)
              else Done files)
       else Done files)"

fun parse_ntfs_index_entries ::
  "(u64 \<Rightarrow> bytes option) \<Rightarrow> efi_fs_ctx \<Rightarrow> bytes \<Rightarrow> nat \<Rightarrow> bytes \<Rightarrow> payload_entry list \<Rightarrow> payload_entry list outcome" where
  "parse_ntfs_index_entries rd ctx prefix 0 ents files = Spin"
| "parse_ntfs_index_entries rd ctx prefix (Suc fuel) ents files =
     (if length ents \<ge> 0x50 then
        obind (of_opt (u64_at ents 0)) (\<lambda>mft_ref.
        obind (of_opt (u16_at ents 8)) (\<lambda>el.
          let ent_len = unat el; mft_rec = ucast (mft_ref AND 0xFFFFFFFFFFFF)
          in if ent_len < 8 \<or> ent_len > length ents then Done files
             else obind (ntfs_entry rd ctx prefix ents mft_rec files) (\<lambda>files'.
                    parse_ntfs_index_entries rd ctx prefix fuel (drop ent_len ents) files')))
      else Done files)"

definition parse_ntfs_index_root ::
  "(u64 \<Rightarrow> bytes option) \<Rightarrow> efi_fs_ctx \<Rightarrow> bytes \<Rightarrow> bytes \<Rightarrow> payload_entry list \<Rightarrow> payload_entry list outcome" where
  "parse_ntfs_index_root rd ctx prefix data files =
     (if length data < 20 then Done files
      else obind (of_opt (u32_at data 0)) (\<lambda>eo.
        let entries_off = unat eo + 0x10
        in if entries_off \<ge> length data then Done files
           else parse_ntfs_index_entries rd ctx prefix (length data + 1) (drop entries_off data) files))"

fun parse_ntfs_attrs ::
  "(u64 \<Rightarrow> bytes option) \<Rightarrow> efi_fs_ctx \<Rightarrow> bytes \<Rightarrow> bytes \<Rightarrow> nat \<Rightarrow> nat \<Rightarrow> payload_entry list \<Rightarrow> payload_entry list outcome" where
  "parse_ntfs_attrs rd ctx prefix attrs 0 off files = Spin"
| "parse_ntfs_attrs rd ctx prefix attrs (Suc fuel) off files =
     (case attr_at attrs off of
        None \<Rightarrow> Panic
      | Some None \<Rightarrow> Done files
      | Some (Some (atype, alen)) \<Rightarrow>
          obind (of_opt (idx attrs (off + 8))) (\<lambda>nr.
          obind (of_opt (idx attrs (off + 9))) (\<lambda>nl.
          obind (of_opt (u16_at attrs (off + 0x14))) (\<lambda>vo.
            let val_off = unat vo + unat nl
            in obind (if atype = 0x90 \<and> nr = 0 \<and> val_off < alen
                      then obind (of_opt (slice attrs (off + val_off) (off + alen))) (\<lambda>index_data.
                             parse_ntfs_index_root rd ctx prefix index_data files)
                      else Done files)
                 (\<lambda>files'. parse_ntfs_attrs rd ctx prefix attrs fuel (off + alen) files')))))"

definition scan_ntfs_dir ::
  "(u64 \<Rightarrow> bytes option) \<Rightarrow> efi_fs_ctx \<Rightarrow> bytes \<Rightarrow> payload_entry list \<Rightarrow> payload_entry list outcome" where
  "scan_ntfs_dir rd ctx prefix files =
     obind (mft_attrs rd (mft_ctx ctx) 5) (\<lambda>r.
       case r of None \<Rightarrow> Done files | Some attrs \<Rightarrow> parse_ntfs_attrs rd ctx prefix attrs (length attrs + 1) 0 files)"

section \<open>The dispatcher\<close>

definition scan_directory ::
  "(u64 \<Rightarrow> bytes option) \<Rightarrow> nat \<Rightarrow> nat \<Rightarrow> efi_fs_ctx \<Rightarrow> payload_entry list \<Rightarrow> payload_entry list outcome" where
  "scan_directory rd n d ctx files =
     (case ex_fs ctx of
        Exfat \<Rightarrow> scan_exfat_dir rd ctx n d (ex_root_cluster ctx) [47] files
      | Fat32 \<Rightarrow> scan_fat32_dir rd ctx n d (ex_root_cluster ctx) [47] files
      | Ntfs \<Rightarrow> scan_ntfs_dir rd ctx [47] files)"

fun push_payloads :: "payload_entry list \<Rightarrow> payload_entry list \<Rightarrow> payload_entry list" where
  "push_payloads [] payloads = payloads"
| "push_payloads (t # tmp) payloads =
     (if length payloads \<ge> 64 then payloads else push_payloads tmp (payloads @ [t]))"

definition scan_payloads ::
  "(u64 \<Rightarrow> bytes option) \<Rightarrow> nat \<Rightarrow> nat \<Rightarrow> efi_fs_ctx \<Rightarrow> payload_entry list \<Rightarrow> payload_entry list outcome" where
  "scan_payloads rd n d ctx payloads =
     obind (scan_directory rd n d ctx []) (\<lambda>tmp. Done (push_payloads tmp payloads))"

end
