(* ===== verification/EfiFsCorrect.thy ===== *)
theory EfiFsCorrect
  imports EfiFs
begin

text \<open>
  What the directory scanners of the UEFI loader guarantee for any content of the disk: no index out of
  range in any of the three file systems and at any depth, at most 64 entries, each with an absolute path that
  fits its name buffer.
\<close>

section \<open>Runs that do not panic\<close>

definition safe :: "('a \<Rightarrow> bool) \<Rightarrow> 'a outcome \<Rightarrow> bool" where
  "safe P r \<longleftrightarrow> (case r of Done x \<Rightarrow> P x | Panic \<Rightarrow> False | Spin \<Rightarrow> True)"

named_theorems safe_intros "rules for runs that do not panic"

lemma safe_Done [safe_intros]: "P x \<Longrightarrow> safe P (Done x)"
  by (simp add: safe_def)

lemma safe_Spin [simp, safe_intros]: "safe P Spin"
  by (simp add: safe_def)

lemma safe_bind [safe_intros]:
  "safe P m \<Longrightarrow> (\<And>x. P x \<Longrightarrow> safe Q (f x)) \<Longrightarrow> safe Q (obind m f)"
  by (cases m) (auto simp: safe_def)

lemma safe_opt: "m = Some x \<Longrightarrow> safe Q (f x) \<Longrightarrow> safe Q (obind (of_opt m) f)"
  by simp

lemma safe_read: "\<exists>x. m = Some x \<and> P x \<Longrightarrow> (\<And>x. P x \<Longrightarrow> safe Q (f x)) \<Longrightarrow> safe Q (obind (of_opt m) f)"
  by auto

lemma safe_if: "(b \<Longrightarrow> safe P x) \<Longrightarrow> (\<not> b \<Longrightarrow> safe P y) \<Longrightarrow> safe P (if b then x else y)"
  by simp

lemma safe_mono: "safe P r \<Longrightarrow> (\<And>x. P x \<Longrightarrow> Q x) \<Longrightarrow> safe Q r"
  by (cases r) (auto simp: safe_def)

section \<open>Lists of payloads\<close>

definition path_ok :: "bytes \<Rightarrow> bool" where
  "path_ok p \<longleftrightarrow> length p \<le> 256 \<and> p \<noteq> [] \<and> p ! 0 = 47"

definition payload_ok :: "payload_entry \<Rightarrow> bool" where
  "payload_ok e \<longleftrightarrow> length (pe_name e) = 256 \<and> path_ok (take (pe_name_len e) (pe_name e)) \<and> pe_name_len e \<le> 256"

definition grown :: "payload_entry list \<Rightarrow> payload_entry list \<Rightarrow> bool" where
  "grown files files' \<longleftrightarrow>
     (\<exists>new. files' = files @ new \<and> (\<forall>e\<in>set new. payload_ok e) \<and> (new \<noteq> [] \<longrightarrow> length files' \<le> 64))"

lemma grown_refl [simp, intro]: "grown files files"
  by (auto simp: grown_def)

lemma grown_trans: "grown a b \<Longrightarrow> grown b c \<Longrightarrow> grown a c"
  unfolding grown_def by (elim exE conjE) (rename_tac x y, rule_tac x = "x @ y" in exI, auto)

lemma build_full_path_ok:
  assumes "path_ok prefix"
  shows "\<exists>p. build_full_path prefix nm = Some p \<and> path_ok p"
  using assms by (auto simp: build_full_path_def path_ok_def Let_def nth_append)

lemma add_payload_ok:
  assumes "path_ok prefix" and "length files < 64"
  shows "\<exists>f. add_payload prefix nm lba sz files = Some f \<and> grown files f"
proof -
  obtain p where p: "build_full_path prefix nm = Some p" "path_ok p"
    using build_full_path_ok [OF assms(1)] by blast
  then show ?thesis using assms(2) by (auto simp: add_payload_def grown_def payload_ok_def name_buf_def path_ok_def)
qed

text \<open>A visit of a subdirectory that keeps the promise at its level.\<close>

definition visit_ok :: "visit \<Rightarrow> bool" where
  "visit_ok sub \<longleftrightarrow> (\<forall>cl p files. path_ok p \<longrightarrow> safe (grown files) (sub cl p files))"

lemma enter_dir_ok: "visit_ok sub \<Longrightarrow> path_ok prefix \<Longrightarrow> safe (grown files) (enter_dir sub prefix nm cl files)"
  using build_full_path_ok [of prefix nm] by (auto simp: enter_dir_def visit_ok_def)

section \<open>Sectors and chains\<close>

definition step_ok :: "('c \<Rightarrow> bool) \<Rightarrow> payload_entry list \<Rightarrow> 'c dir_step \<Rightarrow> bool" where
  "step_ok C files r \<longleftrightarrow>
     (case r of Return f \<Rightarrow> grown files f | Sector c f \<Rightarrow> C c \<and> grown files f | Step _ f \<Rightarrow> False)"

lemma step_ok_simps [simp]:
  "step_ok C files (Return f) \<longleftrightarrow> grown files f" "step_ok C files (Sector c f) \<longleftrightarrow> C c \<and> grown files f"
  "\<not> step_ok C files (Step p f)"
  by (simp_all add: step_ok_def)

lemma step_ok_trans: "grown a b \<Longrightarrow> step_ok C b r \<Longrightarrow> step_ok C a r"
  by (auto simp: step_ok_def split: dir_step.splits intro: grown_trans)

lemma safe_step_ok: "safe (step_ok C b) r \<Longrightarrow> grown a b \<Longrightarrow> safe (step_ok C a) r"
  by (erule safe_mono) (rule step_ok_trans)

lemma read_fat_entry_kernel: "read_fat_entry = read_fat_entry_raw"
  by (intro ext) (simp add: read_fat_entry_def read_fat_entry_raw_def)

context sector_source
begin

lemma scan_cluster_safe:
  assumes sec: "\<And>c buf files. C c \<Longrightarrow> length buf = 512 \<Longrightarrow> safe (step_ok C files) (sec c buf files)"
  shows "C c \<Longrightarrow> safe (step_ok C files) (scan_cluster rd ctx sec cl si k c files)"
proof (induction k arbitrary: si c files)
  case 0
  then show ?case by (simp add: safe_def step_ok_def)
next
  case (Suc k)
  show ?case
  proof (cases "rd (sub_lba ctx cl + word_of_nat si)")
    case None
    then show ?thesis by (simp add: safe_def step_ok_def)
  next
    case (Some buf)
    have "safe (step_ok C files) (case r of Sector c' f' \<Rightarrow> scan_cluster rd ctx sec cl (si + 1) k c' f' | _ \<Rightarrow> Done r)"
      if r: "step_ok C files r" for r
    proof (cases r)
      case (Sector c' f')
      then have "C c'" "grown files f'" using r by (auto simp: step_ok_def)
      with Suc.IH [of c' f' "si + 1"] Sector show ?thesis by (auto elim!: safe_mono intro: step_ok_trans)
    qed (use r in \<open>auto simp: safe_def step_ok_def\<close>)
    then show ?thesis using sec [OF Suc.prems rd_length [OF Some], of files] Some by (auto intro: safe_bind)
  qed
qed

lemma scan_chain_safe:
  assumes sec: "\<And>c buf files. C c \<Longrightarrow> length buf = 512 \<Longrightarrow> safe (step_ok C files) (sec c buf files)"
    and nxt: "\<And>cl. \<exists>v. nxt cl = Some v"
  shows "C c \<Longrightarrow> safe (grown files) (scan_chain rd ctx sec nxt stop n cl c files)"
proof (induction n arbitrary: cl c files)
  case (Suc n)
  obtain v where v: "nxt cl = Some v" using nxt by blast
  have "safe (grown files) (case r of
         Sector c' files' \<Rightarrow>
           obind (of_opt (nxt cl)) (\<lambda>v. if v < 2 \<or> v \<ge> stop then Done files' else scan_chain rd ctx sec nxt stop n v c' files')
       | Return files' \<Rightarrow> Done files' | Step _ files' \<Rightarrow> Done files')" if r: "step_ok C files r" for r
  proof (cases r)
    case (Sector c' f')
    then have "C c'" "grown files f'" using r by (auto simp: step_ok_def)
    with Suc.IH [of c' f' v] Sector v show ?thesis by (auto simp: safe_Done elim!: safe_mono intro: grown_trans)
  qed (use r in \<open>auto simp: safe_def step_ok_def\<close>)
  then show ?case using scan_cluster_safe [of C sec c files ctx cl 0 "unat (ex_spc ctx)", OF sec Suc.prems]
    by (auto intro: safe_bind)
qed simp

end

section \<open>exFAT\<close>

lemma exfat_chars_total: "noff + 2 + (j + k) * 2 \<le> length ents \<Longrightarrow> \<exists>r. exfat_chars ents noff j k = Some r \<and> length r = k"
proof (induction k arbitrary: j)
  case (Suc k)
  have "noff + 2 + (j + 1 + k) * 2 \<le> length ents" using Suc.prems by simp
  from Suc.IH [OF this] obtain r where "exfat_chars ents noff (j + 1) k = Some r" "length r = k" by blast
  then show ?case using Suc.prems by (simp add: bounds_simps Let_def)
qed simp

lemma efi_exfat_name_total:
  "length nm \<le> 256 \<Longrightarrow> noff + 32 * k \<le> length ents \<Longrightarrow>
     \<exists>r. exfat_name ents noff name_len k nm = Some r \<and> length r \<le> 256"
proof (induction k arbitrary: noff nm)
  case (Suc k)
  let ?t = "min (min (name_len - length nm) 15) (256 - length nm)"
  have "noff + 2 + (0 + ?t) * 2 \<le> length ents" using Suc.prems by auto
  from exfat_chars_total [OF this] obtain cs where cs: "exfat_chars ents noff 0 ?t = Some cs" "length cs = ?t" by blast
  have "length (nm @ cs) \<le> 256" "noff + 32 + 32 * k \<le> length ents" using cs(2) Suc.prems by auto
  from Suc.IH [OF this] show ?case using cs(1) Suc.prems by (auto simp: bounds_simps Let_def)
qed simp


definition turn_ok :: "nat \<Rightarrow> payload_entry list \<Rightarrow> bytes dir_step \<Rightarrow> bool" where
  "turn_ok pos files r \<longleftrightarrow>
     (case r of Return f \<Rightarrow> grown files f | Sector c f \<Rightarrow> length c \<le> 608 \<and> grown files f | Step p f \<Rightarrow> pos < p \<and> grown files f)"

lemma turn_Done:
  "grown files f \<Longrightarrow> safe (turn_ok pos files) (Done (Return f))"
  "grown files f \<Longrightarrow> length c \<le> 608 \<Longrightarrow> safe (turn_ok pos files) (Done (Sector c f))"
  "grown files f \<Longrightarrow> pos < p \<Longrightarrow> safe (turn_ok pos files) (Done (Step p f))"
  by (simp_all add: safe_def turn_ok_def)

lemma exfat_file_safe:
  "visit_ok sub \<Longrightarrow> path_ok prefix \<Longrightarrow> safe (grown files) (exfat_file sub ctx prefix fa cl sz nm files)"
  using enter_dir_ok [of sub prefix files nm cl] add_payload_ok [of prefix files nm "sub_lba ctx cl" sz]
  by (auto simp: safe_def exfat_file_def)

lemma exfat_entry_safe:
  assumes sub: "visit_ok sub" "path_ok prefix" and l: "n * 32 \<le> length ents" and pos: "pos < n"
  shows "safe (turn_ok pos files) (exfat_entry sub ctx prefix ents n pos files)"
proof -
  have r0: "idx ents (pos * 32) = Some (ents ! (pos * 32))" "idx ents (pos * 32 + 1) = Some (ents ! (pos * 32 + 1))"
    using l pos by (simp_all add: bounds_simps)
  let ?sc = "unat (ents ! (pos * 32 + 1))"
  consider "ents ! (pos * 32) = 0" | "ents ! (pos * 32) \<noteq> 0" "ents ! (pos * 32) \<noteq> 0x85" | "ents ! (pos * 32) = 0x85" "?sc < 1"
    | "ents ! (pos * 32) = 0x85" "1 \<le> ?sc" "pos + (1 + ?sc) > n" | "ents ! (pos * 32) = 0x85" "1 \<le> ?sc" "pos + (1 + ?sc) \<le> n"
    by linarith
  then show ?thesis
  proof cases
    case 4
    then show ?thesis using r0 l pos unfolding exfat_entry_def
      by (auto simp: Let_def bounds_simps intro!: turn_Done)
  next
    case 5
    let ?so = "(pos + 1) * 32"
    have so: "?so + 32 \<le> length ents" "pos * 32 + 32 \<le> length ents" using 5 l by auto
    then have r: "idx ents ?so = Some (ents ! ?so)" "u16_at ents (pos * 32 + 4) = Some (from_le (take 2 (drop (pos * 32 + 4) ents)))"
      "u32_at ents (?so + 20) = Some (from_le (take 4 (drop (?so + 20) ents)))"
      "u64_at ents (?so + 24) = Some (from_le (take 8 (drop (?so + 24) ents)))"
      "idx ents (?so + 3) = Some (ents ! (?so + 3))"
      by (simp_all add: bounds_simps)
    have "(pos + 2) * 32 + 32 * (?sc - 1) \<le> length ents" using 5 l by (simp add: algebra_simps)
    from efi_exfat_name_total [OF _ this, of "[]"] obtain nm where
      nm: "exfat_name ents ((pos + 2) * 32) (unat (ents ! (?so + 3))) (?sc - 1) [] = Some nm" by auto
    have nlt: "\<not> ?sc < 1" "\<not> pos + (1 + ?sc) > n" using 5 by auto
    have fin: "safe (turn_ok pos files) (obind (exfat_file sub ctx prefix fa cl sz nm files)
        (\<lambda>f. Done (Step (pos + (1 + ?sc)) f)))" for fa cl sz
      by (rule safe_bind [OF exfat_file_safe [OF sub]]) (auto intro: turn_Done)
    show ?thesis unfolding exfat_entry_def r0 of_opt_simps obind.simps Let_def r nm
      using 5 nlt fin by (simp add: turn_Done)
  qed (use r0 l pos in \<open>simp_all add: exfat_entry_def turn_Done Let_def\<close>)
qed

lemma exfat_entries_safe:
  assumes sub: "visit_ok sub" "path_ok prefix" and l: "n * 32 \<le> length ents"
  shows "safe (step_ok (\<lambda>c. length c \<le> 608) files) (exfat_entries sub ctx prefix ents n fuel pos files)"
proof (induction fuel arbitrary: pos files)
  case (Suc fuel)
  have "safe (step_ok (\<lambda>c. length c \<le> 608) files) (case r of Step pos' files' \<Rightarrow> exfat_entries sub ctx prefix ents n fuel pos' files' | _ \<Rightarrow> Done r)"
    if r: "turn_ok pos files r" for r
  proof (cases r)
    case (Step p f)
    then have "grown files f" using r by (simp add: turn_ok_def)
    with Suc [of f p] Step show ?thesis by (auto elim!: safe_mono intro: step_ok_trans)
  qed (use r in \<open>auto simp: safe_def step_ok_def turn_ok_def\<close>)
  note turn = this
  have "safe (step_ok (\<lambda>c. length c \<le> 608) files) (exfat_entries sub ctx prefix ents n (Suc fuel) pos files)" if "pos < n"
    using that by simp (rule safe_bind [OF exfat_entry_safe [OF sub l that] turn])
  then show ?case by (cases "pos < n") (assumption, simp add: safe_Done)
qed simp

lemma exfat_sector_safe:
  assumes "visit_ok sub" "path_ok prefix" and "length carry \<le> 608" and "length buf = 512"
  shows "safe (step_ok (\<lambda>c. length c \<le> 608) files) (exfat_sector sub ctx prefix carry buf files)"
proof -
  let ?c1 = "take 0 (replicate 1152 0) @ carry @ drop (0 + length carry) (replicate 1152 0)"
  have c1: "blit (replicate 1152 0) 0 carry = Some ?c1" using assms(3) by (intro blit_Some) simp
  have l1: "length ?c1 = 1152" using assms(3) by simp
  obtain c2 where c2: "blit ?c1 (length carry) buf = Some c2" "length c2 = 1152"
    using assms(3,4) l1 blit_Some [of "length carry" buf ?c1] by (auto simp: blit_def)
  have "(length carry + 512) div 32 * 32 \<le> length (take (length carry + 512) c2)" using c2(2) assms(3) by simp
  from exfat_entries_safe [OF assms(1,2) this] show ?thesis
    unfolding exfat_sector_def c1 of_opt_simps obind.simps c2(1) Let_def .
qed

context sector_source
begin

lemma scan_exfat_dir_visit: "visit_ok (scan_exfat_dir rd ctx n d)"
proof (induction d)
  case 0
  then show ?case by (simp add: visit_ok_def)
next
  case (Suc d)
  have "safe (grown files) (scan_chain rd ctx (exfat_sector (scan_exfat_dir rd ctx n d) ctx p)
      (read_fat_entry rd (ex_fat_start ctx)) 0xFFFFFFF8 n cl [] files)" if "path_ok p" for cl p files
    by (rule scan_chain_safe [where C = "\<lambda>c. length c \<le> 608"])
       (use exfat_sector_safe [OF Suc that] read_fat_total in \<open>simp_all add: read_fat_entry_kernel\<close>)
  then show ?case by (simp add: visit_ok_def safe_Done)
qed

end


section \<open>FAT32\<close>

definition lfn_ok :: "lfn \<Rightarrow> bool" where
  "lfn_ok l \<longleftrightarrow> length (lfn_buf l) = 256"

lemma lfn_write_total: "length buf = 256 \<Longrightarrow> \<exists>b. lfn_write buf pos cs = Some b \<and> length b = 256"
proof (induction cs arbitrary: buf pos)
  case (Cons c cs)
  then show ?case by (simp add: bounds_simps)
qed simp

lemma lfn_entry_ok:
  assumes "lfn_ok l"
  shows "\<exists>l'. lfn_entry e l = Some l' \<and> lfn_ok l'"
proof -
  have b: "\<exists>b. lfn_write (lfn_buf l) pos cs = Some b \<and> length b = 256" for pos cs
    using lfn_write_total assms by (simp add: lfn_ok_def)
  from b [of "(unat (e ! 0 AND 0x1F) - 1) * 13" "lfn_text (lfn_chars e)"] assms
  show ?thesis by (auto simp: lfn_entry_def lfn_ok_def Let_def)
qed

lemma fat32_name_ok: "lfn_ok l \<Longrightarrow> \<exists>nm. fat32_name e l = Some nm"
  by (auto simp: fat32_name_def lfn_ok_def bounds_simps)

lemma fat32_file_safe:
  "visit_ok sub \<Longrightarrow> path_ok prefix \<Longrightarrow> safe (grown files) (fat32_file sub ctx prefix e nm files)"
  using enter_dir_ok [of sub prefix files nm "entry_cluster e"]
    add_payload_ok [of prefix files nm "sub_lba ctx (entry_cluster e)" "ucast (from_le (take 4 (drop 28 e)) :: u32)"]
  by (auto simp: safe_def fat32_file_def)

lemma fat32_entries_safe:
  assumes sub: "visit_ok sub" "path_ok prefix" and l: "length buf = 512"
  shows "i + n \<le> 16 \<Longrightarrow> lfn_ok lf \<Longrightarrow> safe (step_ok lfn_ok files) (fat32_entries sub ctx prefix i n lf buf files)"
proof (induction n arbitrary: i lf files)
  case 0
  then show ?case by (simp add: safe_Done step_ok_def)
next
  case (Suc n)
  let ?e = "take 32 (drop (i * 32) buf)"
  have sl: "slice buf (i * 32) (i * 32 + 32) = Some ?e" using Suc.prems(1) l by (simp add: bounds_simps)
  have IH: "lfn_ok lf' \<Longrightarrow> safe (step_ok lfn_ok f) (fat32_entries sub ctx prefix (i + 1) n lf' buf f)" for lf' f
    by (rule Suc.IH) (use Suc.prems in simp_all)
  obtain l' where l': "lfn_entry ?e lf = Some l'" "lfn_ok l'" using lfn_entry_ok [OF Suc.prems(2)] by blast
  obtain nm where nm: "fat32_name ?e lf = Some nm" using fat32_name_ok [OF Suc.prems(2)] by blast
  have z: "lfn_ok (lf\<lparr>lfn_len := 0\<rparr>)" using Suc.prems(2) by (simp add: lfn_ok_def)
  have "safe (step_ok lfn_ok files) (obind (fat32_file sub ctx prefix ?e nm files)
      (\<lambda>f. fat32_entries sub ctx prefix (i + 1) n (lf\<lparr>lfn_len := 0\<rparr>) buf f))"
    by (rule safe_bind [OF fat32_file_safe [OF sub]]) (rule safe_step_ok [OF IH [OF z]])
  with IH [OF z] IH [OF l'(2)] l'(1) nm show ?case
    unfolding fat32_entries.simps sl of_opt_simps obind.simps by (simp add: safe_Done)
qed

lemma fat32_next_cluster_total:
  "(\<exists>v. read_fat_entry rd fs cl = Some v) \<Longrightarrow> \<exists>v. fat32_next_cluster rd fs cl = Some v"
  by (auto simp: fat32_next_cluster_def)

context sector_source
begin

lemma scan_fat32_dir_visit: "visit_ok (scan_fat32_dir rd ctx n d)"
proof (induction d)
  case 0
  then show ?case by (simp add: visit_ok_def)
next
  case (Suc d)
  have "safe (grown files) (scan_chain rd ctx (fat32_entries (scan_fat32_dir rd ctx n d) ctx p 0 16)
      (fat32_next_cluster rd (ex_fat_start ctx)) 0x0FFFFFF0 n cl no_lfn files)" if p: "path_ok p" for cl p files
  proof (rule scan_chain_safe [where C = lfn_ok])
    show "\<exists>v. fat32_next_cluster rd (ex_fat_start ctx) c = Some v" for c
      by (rule fat32_next_cluster_total) (simp add: read_fat_entry_kernel read_fat_total)
  qed (use fat32_entries_safe [OF Suc p] in \<open>simp_all add: lfn_ok_def no_lfn_def\<close>)
  then show ?case by (simp add: visit_ok_def safe_Done)
qed

end

section \<open>NTFS\<close>

text \<open>Both loaders decode the offset of a data run alike: by shifts here, by a subtraction in the kernel.\<close>

lemma shift_up_down: "k < 64 \<Longrightarrow> signed_drop_bit k (push_bit k (w :: u64)) = signed_take_bit (63 - k) w"
proof (rule bit_word_eqI)
  fix i :: nat
  assume "k < 64" and "i < LENGTH(64)"
  moreover have "63 - k = i" if "63 - k \<le> i" "\<not> 64 - k \<le> i" using that \<open>k < 64\<close> by simp
  ultimately show "bit (signed_drop_bit k (push_bit k w)) i = bit (signed_take_bit (63 - k) w) i"
    by (auto simp: bit_simps min_def)
qed

lemma run_offset_kernel:
  assumes "n \<le> length data"
  shows "parse_varlen_le_signed data n = KernelNtfs.parse_varlen_le_signed data n"
proof (cases "0 < n \<and> n \<le> 8")
  case True
  have "parse_varlen_le data n = word_of_int (int (le_nat (take n data)))"
    using parse_varlen_le_value [OF assms] True by (simp add: from_le_def)
  moreover have "signed_take_bit (63 - (64 - n * 8)) (word_of_int (int (le_nat (take n data))) :: u64) =
      word_of_int (signed_take_bit (8 * n - 1) (int (le_nat (take n data))))"
    using True by (intro bit_word_eqI) (auto simp: bit_simps min_def mult.commute [of n 8])
  ultimately show ?thesis
    using True KernelNtfs.parse_varlen_le_signed_value [of n data] assms
    by (simp add: parse_varlen_le_signed_def shift_up_down)
qed (auto simp: parse_varlen_le_signed_def KernelNtfs.parse_varlen_le_signed_def)

lemma efi_data_run_total:
  "24 \<le> alen \<Longrightarrow> off + alen \<le> length attrs \<Longrightarrow> \<exists>r. data_run ctx attrs off alen = Some r"
  by (auto simp: data_run_def bounds_simps Let_def)

lemma parse_ntfs_data_attr_total:
  "length attrs < fuel + off \<Longrightarrow> 0 < fuel \<Longrightarrow> \<exists>r. parse_ntfs_data_attr ctx attrs fuel off = Done r"
proof (induction fuel arbitrary: off)
  case (Suc fuel)
  obtain r where r: "attr_at attrs off = Some r" "\<And>t n. r = Some (t, n) \<Longrightarrow> 24 \<le> n \<and> off + n \<le> length attrs"
    using attr_at_total [of attrs off] by auto
  show ?case
  proof (cases r)
    case (Some tn)
    obtain t n where tn: "tn = (t, n)" by (cases tn)
    with r(2) Some have n: "24 \<le> n" "off + n \<le> length attrs" by auto
    then have "length attrs < fuel + (off + n)" "0 < fuel" using Suc.prems by auto
    from Suc.IH [OF this] efi_data_run_total [OF n, of ctx] show ?thesis using r(1) Some tn by auto
  qed (use r in simp)
qed simp


context sector_source
begin

lemma get_ntfs_file_lba_total: "\<exists>r. get_ntfs_file_lba rd ctx n = Done r"
proof -
  obtain r where r: "mft_attrs rd (mft_ctx ctx) (ucast n) = Done r" using mft_attrs_total by blast
  have "\<exists>x. parse_ntfs_data_attr ctx a (length a + 1) 0 = Done x" for a
    by (rule parse_ntfs_data_attr_total) simp_all
  with r show ?thesis by (cases r) (auto simp: get_ntfs_file_lba_def)
qed

lemma ntfs_entry_safe:
  assumes "0x50 \<le> length ents" and p: "path_ok prefix"
  shows "safe (grown files) (ntfs_entry rd ctx prefix ents n files)"
proof -
  have i: "idx ents 12 = Some (ents ! 12)" using assms by (simp add: bounds_simps)
  show ?thesis
  proof (cases "0x10 + 66 \<le> length ents \<and> ents ! 12 AND 0x02 = 0")
    case True
    let ?nl = "unat (ents ! 80)"
    have i2: "idx ents 80 = Some (ents ! 80)" using True by (simp add: bounds_simps)
    show ?thesis
    proof (cases "?nl > 0 \<and> ?nl \<le> 255 \<and> 0x10 + 66 + ?nl * 2 \<le> length ents")
      case name: True
      obtain nm where nm: "ntfs_name ents 0 ?nl [] = Some nm" "length nm \<le> 255"
        using ntfs_name_total [of 0 ?nl ents "[]"] name by auto
      obtain info where info: "get_ntfs_file_lba rd ctx n = Done info"
        using get_ntfs_file_lba_total by blast
      have add: "length files < 64 \<Longrightarrow> safe (grown files) (of_opt (add_payload prefix nm lba sz files))" for lba sz
        using add_payload_ok [OF p, of files nm lba sz] by (auto simp: safe_Done)
      show ?thesis
        using i i2 True name nm info add
        by (cases info) (auto simp: ntfs_entry_def Let_def safe_Done)
    next
      case False
      then show ?thesis using i i2 True by (auto simp: ntfs_entry_def Let_def safe_Done)
    qed
  next
    case False
    then show ?thesis using i by (auto simp: ntfs_entry_def safe_Done)
  qed
qed

lemma parse_ntfs_index_entries_safe:
  "path_ok prefix \<Longrightarrow> safe (grown files) (parse_ntfs_index_entries rd ctx prefix fuel ents files)"
proof (induction fuel arbitrary: ents files)
  case (Suc fuel)
  let ?el = "unat (from_le (take 2 (drop 8 ents)) :: u16)"
  let ?n = "ucast (from_le (take 8 ents) AND 0xFFFFFFFFFFFF :: u64) :: u32"
  have "safe (grown files) (obind (ntfs_entry rd ctx prefix ents ?n files)
      (\<lambda>f. parse_ntfs_index_entries rd ctx prefix fuel (drop ?el ents) f))" if "0x50 \<le> length ents"
    by (rule safe_bind [OF ntfs_entry_safe [OF that Suc.prems]])
       (rule safe_mono [OF Suc.IH [OF Suc.prems]], rule grown_trans)
  then show ?case by (auto simp: bounds_simps Let_def safe_Done)
qed simp

lemma parse_ntfs_index_root_safe:
  assumes "path_ok prefix"
  shows "safe (grown files) (parse_ntfs_index_root rd ctx prefix data files)"
  using parse_ntfs_index_entries_safe [OF assms, of files ctx]
  by (auto simp: parse_ntfs_index_root_def bounds_simps Let_def safe_Done simp del: parse_ntfs_index_entries.simps)

lemma parse_ntfs_attrs_safe:
  "path_ok prefix \<Longrightarrow> safe (grown files) (parse_ntfs_attrs rd ctx prefix attrs fuel off files)"
proof (induction fuel arbitrary: off files)
  case (Suc fuel)
  obtain r where r: "attr_at attrs off = Some r" "\<And>t n. r = Some (t, n) \<Longrightarrow> 24 \<le> n \<and> off + n \<le> length attrs"
    using attr_at_total [of attrs off] by auto
  show ?case
  proof (cases r)
    case (Some tn)
    obtain t n where tn: "tn = (t, n)" by (cases tn)
    with r(2) Some have n: "24 \<le> n" "off + n \<le> length attrs" by auto
    then have a: "idx attrs (off + 8) = Some (attrs ! (off + 8))" "idx attrs (off + 9) = Some (attrs ! (off + 9))"
      "u16_at attrs (off + 0x14) = Some (from_le (take 2 (drop (off + 0x14) attrs)))"
      by (simp_all add: bounds_simps)
    let ?vo = "unat (from_le (take 2 (drop (off + 0x14) attrs)) :: u16) + unat (attrs ! (off + 9))"
    have root: "safe (grown files) (if t = 0x90 \<and> attrs ! (off + 8) = 0 \<and> ?vo < n
        then obind (of_opt (slice attrs (off + ?vo) (off + n))) (\<lambda>d. parse_ntfs_index_root rd ctx prefix d files)
        else Done files)"
      using n parse_ntfs_index_root_safe [OF Suc.prems] by (auto simp: bounds_simps safe_Done)
    show ?thesis
      unfolding parse_ntfs_attrs.simps r(1) Some tn option.case prod.case a of_opt_simps obind.simps Let_def
      by (rule safe_bind [OF root]) (rule safe_mono [OF Suc.IH [OF Suc.prems]], rule grown_trans)
  qed (use r in \<open>simp add: safe_Done\<close>)
qed simp

lemma scan_ntfs_dir_safe:
  assumes "path_ok prefix"
  shows "safe (grown files) (scan_ntfs_dir rd ctx prefix files)"
proof -
  obtain r where r: "mft_attrs rd (mft_ctx ctx) 5 = Done r" using mft_attrs_total by blast
  then show ?thesis using parse_ntfs_attrs_safe [OF assms]
    by (cases r) (auto simp: scan_ntfs_dir_def safe_Done simp del: parse_ntfs_attrs.simps)
qed

lemma scan_directory_safe: "safe (grown files) (scan_directory rd n d ctx files)"
proof -
  have p: "path_ok [47]" by (simp add: path_ok_def)
  then show ?thesis
    using scan_exfat_dir_visit [of ctx n d] scan_fat32_dir_visit [of ctx n d] scan_ntfs_dir_safe [OF p, of files ctx]
    by (cases "ex_fs ctx") (simp_all add: scan_directory_def visit_ok_def)
qed

end

end
