(* ===== verification/EfiFsTree.thy ===== *)
theory EfiFsTree
  imports EfiFsCorrect
begin

text \<open>
  The FAT32 scan of the UEFI loader against its specification: the payloads of the directory tree in preorder,
  cut at 64. The specification reads a directory as one list of 32-byte entries, without sectors and clusters,
  pairs each file or directory entry with its name, and descends into directories.
\<close>

section \<open>The specification\<close>

text \<open>The sectors of a directory: its chain up to the end mark of the FAT or the first sector that cannot be read.\<close>

fun cluster_read :: "(u64 \<Rightarrow> bytes option) \<Rightarrow> efi_fs_ctx \<Rightarrow> u32 \<Rightarrow> nat \<Rightarrow> nat \<Rightarrow> bytes list \<times> bool" where
  "cluster_read rd ctx cl si 0 = ([], True)"
| "cluster_read rd ctx cl si (Suc k) =
     (case rd (sub_lba ctx cl + word_of_nat si) of
        None \<Rightarrow> ([], False)
      | Some s \<Rightarrow> let (ss, ok) = cluster_read rd ctx cl (si + 1) k in (s # ss, ok))"

fun dir_sectors :: "(u64 \<Rightarrow> bytes option) \<Rightarrow> efi_fs_ctx \<Rightarrow> (u32 \<Rightarrow> u32 option) \<Rightarrow> u32 \<Rightarrow> nat \<Rightarrow> u32 \<Rightarrow> bytes list option" where
  "dir_sectors rd ctx nxt stop 0 cl = None"
| "dir_sectors rd ctx nxt stop (Suc n) cl =
     (let (ss, ok) = cluster_read rd ctx cl 0 (unat (ex_spc ctx))
      in if \<not> ok then Some ss
         else do {
           v \<leftarrow> nxt cl;
           if v < 2 \<or> v \<ge> stop then Some ss
           else do { rest \<leftarrow> dir_sectors rd ctx nxt stop n v; Some (ss @ rest) } })"

definition entries_of :: "bytes \<Rightarrow> bytes list" where
  "entries_of s = map (\<lambda>j. take 32 (drop (j * 32) s)) [0..<16]"

text \<open>The name state of the scanner after an entry, and the names it gives to the entries up to the end mark.\<close>

definition lfn_after :: "bytes \<Rightarrow> lfn \<Rightarrow> lfn" where
  "lfn_after e l =
     (if e ! 0 \<noteq> 0xE5 \<and> e ! 11 = 0x0F then (case lfn_entry e l of Some l' \<Rightarrow> l' | None \<Rightarrow> l) else l\<lparr>lfn_len := 0\<rparr>)"

definition named :: "bytes \<Rightarrow> lfn \<Rightarrow> (bytes \<times> bytes) list" where
  "named e l =
     (if e ! 0 = 0xE5 \<or> e ! 11 = 0x0F \<or> e ! 11 AND 0x08 \<noteq> 0 then []
      else case fat32_name e l of Some nm \<Rightarrow> [(nm, e)] | None \<Rightarrow> [])"

fun dir_items :: "lfn \<Rightarrow> bytes list \<Rightarrow> (bytes \<times> bytes) list" where
  "dir_items l [] = []"
| "dir_items l (e # es) = (if e ! 0 = 0 then [] else named e l @ dir_items (lfn_after e l) es)"

fun concat_opt :: "'a list option list \<Rightarrow> 'a list option" where
  "concat_opt [] = Some []"
| "concat_opt (x # xs) = do { a \<leftarrow> x; b \<leftarrow> concat_opt xs; Some (a @ b) }"

definition payload_of :: "efi_fs_ctx \<Rightarrow> bytes \<Rightarrow> bytes \<Rightarrow> bytes \<Rightarrow> payload_entry list option" where
  "payload_of ctx prefix nm e =
     add_payload prefix nm (sub_lba ctx (entry_cluster e)) (ucast (from_le (take 4 (drop 28 e)) :: u32)) []"

text \<open>The payloads below a directory; \<open>None\<close> when a chain does not end within \<open>n\<close> clusters or a path nests deeper than \<open>d\<close>.\<close>

fun fat32_tree ::
  "(u64 \<Rightarrow> bytes option) \<Rightarrow> efi_fs_ctx \<Rightarrow> nat \<Rightarrow> nat \<Rightarrow> u32 \<Rightarrow> bytes \<Rightarrow> payload_entry list option" where
  "fat32_tree rd ctx n 0 cl prefix = None"
| "fat32_tree rd ctx n (Suc d) cl prefix =
     (if cl = 0 then Some []
      else do {
        ss \<leftarrow> dir_sectors rd ctx (fat32_next_cluster rd (ex_fat_start ctx)) 0x0FFFFFF0 n cl;
        concat_opt (map (\<lambda>(nm, e).
          if e ! 11 AND 0x10 \<noteq> 0 \<and> nm \<noteq> [46] \<and> nm \<noteq> [46, 46] \<and> path_depth prefix < 12
          then do { p \<leftarrow> build_full_path prefix nm; fat32_tree rd ctx n d (entry_cluster e) p }
          else if is_bootable_extension nm then payload_of ctx prefix nm e
          else Some []) (dir_items no_lfn (concat (map entries_of ss)))) })"

section \<open>Sectors and clusters disappear\<close>

fun run_items :: "(bytes \<times> bytes \<Rightarrow> 's \<Rightarrow> 's outcome) \<Rightarrow> (bytes \<times> bytes) list \<Rightarrow> 's \<Rightarrow> 's outcome" where
  "run_items act [] s = Done s"
| "run_items act (x # xs) s = obind (act x s) (run_items act xs)"

lemma obind_assoc: "obind (obind m f) g = obind m (\<lambda>x. obind (f x) g)"
  by (cases m) simp_all

lemma obind_Done_right [simp]: "obind m Done = m"
  by (cases m) simp_all

lemma run_items_append: "run_items act (xs @ ys) s = obind (run_items act xs s) (run_items act ys)"
proof (induction xs arbitrary: s)
  case (Cons x xs)
  have "run_items act (xs @ ys) = (\<lambda>s. obind (run_items act xs s) (run_items act ys))" by (rule ext) (rule Cons)
  then show ?case by (simp add: obind_assoc)
qed simp

fun lfn_end :: "lfn \<Rightarrow> bytes list \<Rightarrow> lfn" where
  "lfn_end l [] = l"
| "lfn_end l (e # es) = lfn_end (lfn_after e l) es"

definition ended :: "bytes list \<Rightarrow> bool" where
  "ended es \<longleftrightarrow> (\<exists>e\<in>set es. e ! 0 = 0)"

lemma dir_items_append:
  "dir_items l (xs @ ys) = dir_items l xs @ (if ended xs then [] else dir_items (lfn_end l xs) ys)"
  by (induction xs arbitrary: l) (auto simp: ended_def)

lemma lfn_end_append: "lfn_end l (xs @ ys) = lfn_end (lfn_end l xs) ys"
  by (induction xs arbitrary: l) simp_all

lemma ended_append: "ended (xs @ ys) \<longleftrightarrow> ended xs \<or> ended ys"
  by (auto simp: ended_def)

lemma lfn_after_ok: "lfn_ok l \<Longrightarrow> lfn_ok (lfn_after e l)"
  using lfn_entry_ok [of l e] by (auto simp: lfn_after_def lfn_ok_def)

lemma lfn_end_ok: "lfn_ok l \<Longrightarrow> lfn_ok (lfn_end l es)"
  by (induction es arbitrary: l) (simp_all add: lfn_after_ok)

definition item_act :: "visit \<Rightarrow> efi_fs_ctx \<Rightarrow> bytes \<Rightarrow> bytes \<times> bytes \<Rightarrow> payload_entry list \<Rightarrow> payload_entry list outcome" where
  "item_act sub ctx prefix = (\<lambda>(nm, e). fat32_file sub ctx prefix e nm)"

text \<open>What a run of entries does: the items, then either the end of the directory or the name state.\<close>

definition after_items :: "visit \<Rightarrow> efi_fs_ctx \<Rightarrow> bytes \<Rightarrow> lfn \<Rightarrow> bytes list \<Rightarrow> payload_entry list \<Rightarrow> lfn dir_step outcome" where
  "after_items sub ctx prefix l es files =
     obind (run_items (item_act sub ctx prefix) (dir_items l es) files)
       (\<lambda>f. Done (if ended es then Return f else Sector (lfn_end l es) f))"

lemma after_items_append:
  "after_items sub ctx prefix l (xs @ ys) files =
     obind (after_items sub ctx prefix l xs files)
       (\<lambda>r. case r of Sector l' f \<Rightarrow> after_items sub ctx prefix l' ys f | _ \<Rightarrow> Done r)"
  by (simp add: after_items_def dir_items_append run_items_append obind_assoc lfn_end_append ended_append cong: if_cong)

lemma fat32_entries_items:
  "length buf = 512 \<Longrightarrow> i + n \<le> 16 \<Longrightarrow> lfn_ok l \<Longrightarrow>
   fat32_entries sub ctx prefix i n l buf files =
     after_items sub ctx prefix l (map (\<lambda>j. take 32 (drop (j * 32) buf)) [i..<i + n]) files"
proof (induction n arbitrary: i l files)
  case 0
  then show ?case by (simp add: after_items_def ended_def)
next
  case (Suc n)
  let ?e = "take 32 (drop (i * 32) buf)"
  let ?es = "map (\<lambda>j. take 32 (drop (j * 32) buf)) [Suc i..<Suc i + n]"
  have up: "map (\<lambda>j. take 32 (drop (j * 32) buf)) [i..<i + Suc n] = [?e] @ ?es" by (simp add: upt_conv_Cons del: upt_Suc)
  have sl: "slice buf (i * 32) (i * 32 + 32) = Some ?e" using Suc.prems by (simp add: bounds_simps)
  have IH: "lfn_ok l' \<Longrightarrow> fat32_entries sub ctx prefix (Suc i) n l' buf = after_items sub ctx prefix l' ?es" for l'
    using Suc.IH [of "Suc i" l'] Suc.prems(1,2) by (intro ext) simp
  obtain l' where l': "lfn_entry ?e l = Some l'" "lfn_ok l'" using lfn_entry_ok [OF Suc.prems(3)] by blast
  obtain nm where nm: "fat32_name ?e l = Some nm" using fat32_name_ok [OF Suc.prems(3)] by blast
  have z: "lfn_ok (l\<lparr>lfn_len := 0\<rparr>)" using Suc.prems(3) by (simp add: lfn_ok_def)
  note IH' = IH [OF z] IH [OF l'(2)]
  show ?case
    unfolding up after_items_append fat32_entries.simps sl of_opt_simps obind.simps
    by (simp add: after_items_def [of _ _ _ _ "[_]"] ended_def named_def lfn_after_def IH' l'(1) nm item_act_def obind_assoc
        del: fat32_entries.simps upt_Suc)
qed


lemma fat32_sector_items:
  "length buf = 512 \<Longrightarrow> lfn_ok l \<Longrightarrow>
     fat32_entries sub ctx prefix 0 16 l buf files = after_items sub ctx prefix l (entries_of buf) files"
  using fat32_entries_items [of buf 0 16 l sub ctx prefix files] by (simp add: entries_of_def del: upt_rec_numeral)

context sector_source
begin

lemma scan_cluster_items:
  assumes "lfn_ok l" and "cluster_read rd ctx cl si k = (ss, ok)"
  shows "scan_cluster rd ctx (fat32_entries sub ctx prefix 0 16) cl si k l files =
    obind (after_items sub ctx prefix l (concat (map entries_of ss)) files)
      (\<lambda>r. Done (case r of Sector l' f \<Rightarrow> if ok then Sector l' f else Return f | _ \<Rightarrow> r))"
  using assms
proof (induction k arbitrary: si l ss files)
  case 0
  then show ?case by (simp add: after_items_def ended_def)
next
  case (Suc k)
  show ?case
  proof (cases "rd (sub_lba ctx cl + word_of_nat si)")
    case None
    then show ?thesis using Suc.prems by (auto simp: after_items_def ended_def)
  next
    case (Some s)
    obtain ss' where r: "cluster_read rd ctx cl (si + 1) k = (ss', ok)" "ss = s # ss'"
      using Suc.prems(2) Some by (auto split: prod.splits)
    have IH: "lfn_ok l' \<Longrightarrow> scan_cluster rd ctx (fat32_entries sub ctx prefix 0 16) cl (si + 1) k l' f =
      obind (after_items sub ctx prefix l' (concat (map entries_of ss')) f)
        (\<lambda>r. Done (case r of Sector l' f \<Rightarrow> if ok then Sector l' f else Return f | _ \<Rightarrow> r))" for l' f
      by (rule Suc.IH [OF _ r(1)])
    have e: "lfn_ok (lfn_end l (entries_of s))" by (rule lfn_end_ok [OF Suc.prems(1)])
    have sec: "fat32_entries sub ctx prefix 0 16 l s files = after_items sub ctx prefix l (entries_of s) files"
      by (rule fat32_sector_items [OF rd_length [OF Some] Suc.prems(1)])
    show ?thesis
    proof (cases "run_items (item_act sub ctx prefix) (dir_items l (entries_of s)) files")
      case (Done f)
      then show ?thesis using IH [OF e, of f] Some
        by (simp add: sec r(2) after_items_append) (simp add: after_items_def [of _ _ _ l "entries_of s"])
    qed (simp_all add: sec Some r(2) after_items_append after_items_def [of _ _ _ l "entries_of s"])
  qed
qed

lemma scan_chain_items:
  assumes "lfn_ok l" and "dir_sectors rd ctx nxt stop n cl = Some ss"
  shows "scan_chain rd ctx (fat32_entries sub ctx prefix 0 16) nxt stop n cl l files =
    run_items (item_act sub ctx prefix) (dir_items l (concat (map entries_of ss))) files"
  using assms
proof (induction n arbitrary: cl l ss files)
  case (Suc n)
  obtain s ok where s: "cluster_read rd ctx cl 0 (unat (ex_spc ctx)) = (s, ok)" by fastforce
  let ?es = "concat (map entries_of s)"
  let ?run = "run_items (item_act sub ctx prefix) (dir_items l ?es) files"
  note cl = scan_cluster_items [OF Suc.prems(1) s, of sub prefix files]
  show ?case
  proof (cases "ok \<and> (\<exists>v. nxt cl = Some v \<and> \<not> (v < 2 \<or> v \<ge> stop))")
    case False
    then have "ss = s" "ok \<Longrightarrow> \<exists>v. nxt cl = Some v \<and> (v < 2 \<or> v \<ge> stop)"
      using Suc.prems(2) s by (auto simp: bind_eq_Some_conv split: if_splits)
    then show ?thesis by (cases ?run) (auto simp: cl after_items_def)
  next
    case True
    then obtain v where v: "nxt cl = Some v" "\<not> (v < 2 \<or> v \<ge> stop)" "ok" by blast
    then obtain rest where rest: "dir_sectors rd ctx nxt stop n v = Some rest" "ss = s @ rest"
      using Suc.prems(2) s by (auto simp: bind_eq_Some_conv)
    have IH: "scan_chain rd ctx (fat32_entries sub ctx prefix 0 16) nxt stop n v (lfn_end l ?es) f =
        run_items (item_act sub ctx prefix) (dir_items (lfn_end l ?es) (concat (map entries_of rest))) f" for f
      by (rule Suc.IH [OF lfn_end_ok [OF Suc.prems(1)] rest(1)])
    show ?thesis
      by (cases ?run) (use v IH in \<open>simp_all add: cl after_items_def rest(2) dir_items_append run_items_append\<close>)
  qed
qed simp

end

section \<open>The tree\<close>

lemma payload_of_add:
  "length files < 64 \<Longrightarrow>
     add_payload prefix nm (sub_lba ctx (entry_cluster e)) (ucast (from_le (take 4 (drop 28 e)) :: u32)) files =
     map_option ((@) files) (payload_of ctx prefix nm e)"
  by (cases "build_full_path prefix nm") (simp_all add: payload_of_def add_payload_def)

lemma payload_of_ok: "path_ok prefix \<Longrightarrow> \<exists>x. payload_of ctx prefix nm e = Some [x]"
  using build_full_path_ok [of prefix nm] by (auto simp: payload_of_def add_payload_def)

text \<open>The run over the items of a directory when every subdirectory adds its subtree, cut at 64.\<close>

lemma run_items_tree:
  assumes p: "path_ok prefix"
    and sub: "\<And>cl q l f. path_ok q \<Longrightarrow> tree cl q = Some l \<Longrightarrow> length f \<le> 64 \<Longrightarrow> sub cl q f = Done (take 64 (f @ l))"
  shows "concat_opt (map (\<lambda>(nm, e).
          if e ! 11 AND 0x10 \<noteq> 0 \<and> nm \<noteq> [46] \<and> nm \<noteq> [46, 46] \<and> path_depth prefix < 12
          then do { p \<leftarrow> build_full_path prefix nm; tree (entry_cluster e) p }
          else if is_bootable_extension nm then payload_of ctx prefix nm e
          else Some []) items) = Some l \<Longrightarrow> length files \<le> 64 \<Longrightarrow>
    run_items (item_act sub ctx prefix) items files = Done (take 64 (files @ l))"
proof (induction items arbitrary: l files)
  case (Cons x items)
  obtain nm e where x: "x = (nm, e)" by (cases x)
  let ?t = "if e ! 11 AND 0x10 \<noteq> 0 \<and> nm \<noteq> [46] \<and> nm \<noteq> [46, 46] \<and> path_depth prefix < 12
          then do { p \<leftarrow> build_full_path prefix nm; tree (entry_cluster e) p }
          else if is_bootable_extension nm then payload_of ctx prefix nm e else Some []"
  from Cons.prems(1) x obtain a b where a: "?t = Some a" and b: "concat_opt (map (\<lambda>(nm, e).
          if e ! 11 AND 0x10 \<noteq> 0 \<and> nm \<noteq> [46] \<and> nm \<noteq> [46, 46] \<and> path_depth prefix < 12
          then do { p \<leftarrow> build_full_path prefix nm; tree (entry_cluster e) p }
          else if is_bootable_extension nm then payload_of ctx prefix nm e
          else Some []) items) = Some b" and l: "l = a @ b"
    by (simp only: list.map concat_opt.simps prod.case) (auto simp only: bind_eq_Some_conv option.inject)
  have one: "fat32_file sub ctx prefix e nm files = Done (take 64 (files @ a))"
  proof (cases "length files < 64")
    case True
    obtain q where q: "build_full_path prefix nm = Some q" "path_ok q" using build_full_path_ok [OF p] by blast
    obtain y where y: "payload_of ctx prefix nm e = Some [y]" using payload_of_ok [OF p] by blast
    show ?thesis using a True q y sub [OF q(2), of "entry_cluster e" a files]
      by (auto simp: fat32_file_def enter_dir_def payload_of_add split: if_splits)
  next
    case False
    then show ?thesis using Cons.prems(2) by (auto simp: fat32_file_def)
  qed
  have "run_items (item_act sub ctx prefix) items (take 64 (files @ a)) = Done (take 64 (take 64 (files @ a) @ b))"
    by (rule Cons.IH [OF b]) simp
  then show ?case using one Cons.prems(2) by (simp add: x l item_act_def room_left)
qed simp

context sector_source
begin

lemma scan_fat32_dir_tree:
  "fat32_tree rd ctx n d cl prefix = Some l \<Longrightarrow> path_ok prefix \<Longrightarrow> length files \<le> 64 \<Longrightarrow>
     scan_fat32_dir rd ctx n d cl prefix files = Done (take 64 (files @ l))"
proof (induction d arbitrary: cl prefix l files)
  case (Suc d)
  show ?case
  proof (cases "cl = 0")
    case True
    then show ?thesis using Suc.prems by simp
  next
    case False
    then obtain ss where ss: "dir_sectors rd ctx (fat32_next_cluster rd (ex_fat_start ctx)) 0x0FFFFFF0 n cl = Some ss"
      using Suc.prems(1) by (auto simp: bind_eq_Some_conv)
    have ok: "lfn_ok no_lfn" by (simp add: lfn_ok_def no_lfn_def)
    have "run_items (item_act (scan_fat32_dir rd ctx n d) ctx prefix) (dir_items no_lfn (concat (map entries_of ss))) files =
        Done (take 64 (files @ l))"
      by (rule run_items_tree [OF Suc.prems(2), where tree = "fat32_tree rd ctx n d"])
         (use Suc.IH Suc.prems(1,3) False ss in \<open>auto simp: bind_eq_Some_conv\<close>)
    then show ?thesis using scan_chain_items [OF ok ss, of "scan_fat32_dir rd ctx n d" prefix files] False Suc.prems(3) by simp
  qed
qed simp

end

end
