(* ===== verification/EfiFsTheorems.thy ===== *)
theory EfiFsTheorems
  imports EfiFsTree KernelExfat
begin

text \<open>
  The properties of the directory scanners of the UEFI loader, over a disk read sector by sector, with the
  encoder of FAT long names that the round trip uses.
\<close>

section \<open>Long names as FAT stores them\<close>

text \<open>
  The long name of a file is stored in entries of 13 UTF-16 characters, the last part first and marked by
  0x40, each with the checksum of the short name; a terminator follows the name, then padding with 0xFFFF.
\<close>

definition utf16 :: "u8 \<Rightarrow> bytes" where
  "utf16 c = [c, if c = 0xFF then 0xFF else 0]"

definition lfn_slot :: "u8 \<Rightarrow> u8 \<Rightarrow> bytes \<Rightarrow> bytes" where
  "lfn_slot b csum cs = b # concat (map utf16 (take 5 cs)) @ [0x0F, 0, csum] @ concat (map utf16 (take 6 (drop 5 cs)))
     @ [0, 0] @ concat (map utf16 (drop 11 cs))"

definition lfn_part :: "bytes \<Rightarrow> nat \<Rightarrow> bytes" where
  "lfn_part nm k = take 13 (drop (13 * k) nm @ [0] @ replicate 13 0xFF)"

definition lfn_parts :: "bytes \<Rightarrow> nat" where
  "lfn_parts nm = (length nm + 12) div 13"

definition lfn_set :: "bytes \<Rightarrow> u8 \<Rightarrow> bytes list" where
  "lfn_set nm csum =
     map (\<lambda>k. lfn_slot (if Suc k = lfn_parts nm then word_of_nat (Suc k) OR 0x40 else word_of_nat (Suc k)) csum (lfn_part nm k))
       (rev [0..<lfn_parts nm])"

definition long_name :: "bytes \<Rightarrow> bool" where
  "long_name nm \<longleftrightarrow> 0 < length nm \<and> length nm \<le> 255 \<and> (\<forall>c\<in>set nm. 0 < c \<and> c < 0x80)"

lemma lfn_slot_fields:
  assumes "length cs = 13"
  shows "lfn_slot b csum cs ! 0 = b" "lfn_slot b csum cs ! 11 = 0x0F" "lfn_slot b csum cs ! 13 = csum"
    "lfn_chars (lfn_slot b csum cs) = cs"
proof -
  obtain c0 c1 c2 c3 c4 c5 c6 c7 c8 c9 c10 c11 c12 where cs: "cs = [c0, c1, c2, c3, c4, c5, c6, c7, c8, c9, c10, c11, c12]"
    using assms by (auto simp: numeral_eq_Suc length_Suc_conv)
  show "lfn_slot b csum cs ! 0 = b" "lfn_slot b csum cs ! 11 = 0x0F" "lfn_slot b csum cs ! 13 = csum"
    "lfn_chars (lfn_slot b csum cs) = cs"
    by (simp_all add: cs lfn_slot_def utf16_def lfn_chars_def)
qed

lemma lfn_part_text:
  assumes "long_name nm" and "k < lfn_parts nm"
  shows "length (lfn_part nm k) = 13" "lfn_text (lfn_part nm k) = take 13 (drop (13 * k) nm)"
proof -
  show "length (lfn_part nm k) = 13" by (simp add: lfn_part_def)
  have ok: "c \<noteq> 0 \<and> c \<noteq> 0xFF" if "c \<in> set (drop j nm)" for c j
    using assms(1) in_set_dropD [OF that] by (auto simp: long_name_def)
  show "lfn_text (lfn_part nm k) = take 13 (drop (13 * k) nm)"
  proof (cases "length (drop (13 * k) nm) < 13")
    case True
    then obtain r where "lfn_part nm k = drop (13 * k) nm @ 0 # r" by (auto simp: lfn_part_def take_Cons')
    then show ?thesis using True ok [of _ "13 * k"] by (simp add: lfn_text_def takeWhile_append2 takeWhile_tail)
  next
    case False
    then have "lfn_part nm k = take 13 (drop (13 * k) nm)" by (simp add: lfn_part_def)
    moreover have "takeWhile (\<lambda>c. c \<noteq> 0 \<and> c \<noteq> 0xFF) (take 13 (drop (13 * k) nm)) = take 13 (drop (13 * k) nm)"
      using ok by (auto simp: takeWhile_eq_all_conv dest: in_set_takeD)
    ultimately show ?thesis by (simp add: lfn_text_def)
  qed
qed

lemma lfn_write_ascii:
  "pos + length chs \<le> 255 \<Longrightarrow> length buf = 256 \<Longrightarrow> \<forall>c\<in>set chs. c < 0x80 \<Longrightarrow>
     lfn_write buf pos chs = Some (take pos buf @ chs @ drop (pos + length chs) buf)"
proof (induction chs arbitrary: buf pos)
  case (Cons c chs)
  have "take (Suc pos) (buf[pos := c]) @ chs @ drop (Suc pos + length chs) (buf[pos := c]) =
      take pos buf @ (c # chs) @ drop (pos + length (c # chs)) buf"
    using Cons.prems by (simp add: take_Suc_conv_app_nth)
  then show ?case using Cons.IH [of "Suc pos" "buf[pos := c]"] Cons.prems by (simp add: bounds_simps)
qed simp

lemma seq_byte:
  assumes "0 < s" and "s \<le> 20"
  shows "(word_of_nat s :: u8) AND 0x1F = word_of_nat s" "(word_of_nat s OR 0x40 :: u8) AND 0x1F = word_of_nat s"
    "(word_of_nat s :: u8) AND 0x40 = 0" "(word_of_nat s OR 0x40 :: u8) AND 0x40 \<noteq> 0"
    "unat (word_of_nat s :: u8) = s" "(word_of_nat s :: u8) \<noteq> 0" "\<not> (word_of_nat s :: u8) > 20"
    "(word_of_nat s :: u8) \<noteq> 0xE5" "(word_of_nat s OR 0x40 :: u8) \<noteq> 0xE5" "(word_of_nat s OR 0x40 :: u8) \<noteq> 0"
proof -
  have "s \<in> {1..20}" using assms by auto
  also have "{1..20} = {1, 2, 3, 4, 5, 6, 7, 8, 9, 10, 11, 12, 13, 14, 15, 16, 17, 18, 19, 20 :: nat}"
    by (simp add: atLeastAtMost_insertL numeral_eq_Suc flip: atLeastAtMost_insertL)
  finally have s: "s = 1 \<or> s = 2 \<or> s = 3 \<or> s = 4 \<or> s = 5 \<or> s = 6 \<or> s = 7 \<or> s = 8 \<or> s = 9 \<or> s = 10 \<or> s = 11
      \<or> s = 12 \<or> s = 13 \<or> s = 14 \<or> s = 15 \<or> s = 16 \<or> s = 17 \<or> s = 18 \<or> s = 19 \<or> s = 20" by simp
  show "(word_of_nat s :: u8) AND 0x1F = word_of_nat s" "(word_of_nat s OR 0x40 :: u8) AND 0x1F = word_of_nat s"
    "(word_of_nat s :: u8) AND 0x40 = 0" "(word_of_nat s OR 0x40 :: u8) AND 0x40 \<noteq> 0"
    "unat (word_of_nat s :: u8) = s" "(word_of_nat s :: u8) \<noteq> 0" "\<not> (word_of_nat s :: u8) > 20"
    "(word_of_nat s :: u8) \<noteq> 0xE5" "(word_of_nat s OR 0x40 :: u8) \<noteq> 0xE5" "(word_of_nat s OR 0x40 :: u8) \<noteq> 0"
    using s by (elim disjE; simp)+
qed


text \<open>The state of the scanner when the parts from \<open>j\<close> on have been read.\<close>

definition lfn_state :: "bytes \<Rightarrow> u8 \<Rightarrow> nat \<Rightarrow> lfn \<Rightarrow> bool" where
  "lfn_state nm csum j l \<longleftrightarrow> lfn_seq l = word_of_nat j \<and> lfn_sum l = csum \<and> lfn_len l = length nm \<and> lfn_ok l \<and>
     (\<forall>i < length nm. 13 * j \<le> i \<longrightarrow> lfn_buf l ! i = nm ! i)"

lemma parts_range:
  assumes "long_name nm"
  shows "0 < lfn_parts nm" "lfn_parts nm \<le> 20" "k < lfn_parts nm \<Longrightarrow> 13 * k < length nm"
    "length nm \<le> 13 * lfn_parts nm"
  using assms by (cases nm; auto simp: long_name_def lfn_parts_def div_greater_zero_iff)+

lemma lfn_state_step:
  assumes nm: "long_name nm" and k: "k < lfn_parts nm"
    and st: "lfn_state nm csum (Suc k) l"
  shows "\<exists>b. lfn_write (lfn_buf l) (13 * k) (lfn_text (lfn_part nm k)) = Some b \<and>
    lfn_state nm csum k (l\<lparr>lfn_seq := lfn_seq l - 1, lfn_buf := b\<rparr>)"
proof -
  let ?t = "take 13 (drop (13 * k) nm)"
  have t: "lfn_text (lfn_part nm k) = ?t" by (rule lfn_part_text(2) [OF nm k])
  have lb: "length (lfn_buf l) = 256" using st by (simp add: lfn_state_def lfn_ok_def)
  have len: "13 * k + length ?t \<le> 255" using nm parts_range(3) [OF nm k] by (auto simp: long_name_def)
  have "\<forall>c\<in>set ?t. c < 0x80" using nm by (auto simp: long_name_def dest: in_set_takeD in_set_dropD)
  from lfn_write_ascii [OF len lb this]
  have w: "lfn_write (lfn_buf l) (13 * k) ?t = Some (take (13 * k) (lfn_buf l) @ ?t @ drop (13 * k + length ?t) (lfn_buf l))"
    (is "_ = Some ?b") .
  have "?b ! i = nm ! i" if i: "i < length nm" "13 * k \<le> i" for i
  proof (cases "i < 13 * k + 13")
    case True
    then show ?thesis using i lb len by (auto simp: nth_append)
  next
    case False
    then have "lfn_buf l ! i = nm ! i" using st i by (simp add: lfn_state_def)
    then show ?thesis using False i lb len by (auto simp: nth_append min_def)
  qed
  moreover have "length ?b = 256" using lb len by simp
  ultimately show ?thesis using st w t by (auto simp: lfn_state_def lfn_ok_def)
qed

text \<open>The entry of a part, the last one or another.\<close>

lemma lfn_entry_part:
  assumes nm: "long_name nm" and k: "k < lfn_parts nm"
    and l: "if Suc k = lfn_parts nm then lfn_ok l else lfn_state nm csum (Suc k) l"
  shows "\<exists>l'. lfn_entry (lfn_slot (if Suc k = lfn_parts nm then word_of_nat (Suc k) OR 0x40 else word_of_nat (Suc k)) csum
      (lfn_part nm k)) l = Some l' \<and> lfn_state nm csum k l'"
proof -
  let ?e = "lfn_slot (if Suc k = lfn_parts nm then word_of_nat (Suc k) OR 0x40 else word_of_nat (Suc k)) csum (lfn_part nm k)"
  have s: "0 < Suc k" "Suc k \<le> 20" using k parts_range(2) [OF nm] by auto
  note byte = seq_byte [OF s]
  note f = lfn_slot_fields [OF lfn_part_text(1) [OF nm k]]
  have e: "?e ! 0 AND 0x1F = word_of_nat (Suc k)" "?e ! 0 AND 0x40 \<noteq> 0 \<longleftrightarrow> Suc k = lfn_parts nm" "?e ! 13 = csum"
    "lfn_chars ?e = lfn_part nm k"
    using f byte by (auto simp del: of_nat_Suc)
  let ?l1 = "if Suc k = lfn_parts nm then l\<lparr>lfn_seq := word_of_nat (Suc k), lfn_sum := csum,
      lfn_len := min (k * 13 + length (lfn_text (lfn_part nm k))) 255\<rparr> else l"
  have "min (k * 13 + length (lfn_text (lfn_part nm k))) 255 = length nm" if "Suc k = lfn_parts nm"
  proof -
    have "length nm \<le> 13 * Suc k" using parts_range(4) [OF nm] that by simp
    then show ?thesis using lfn_part_text(2) [OF nm k] parts_range(3) [OF nm k] nm by (auto simp: long_name_def)
  qed
  moreover have "length nm \<le> 13 * Suc k" if "Suc k = lfn_parts nm" using parts_range(4) [OF nm] that by simp
  ultimately have st: "lfn_state nm csum (Suc k) ?l1" using l by (auto simp: lfn_state_def lfn_ok_def simp del: of_nat_Suc)
  obtain b where b: "lfn_write (lfn_buf ?l1) (13 * k) (lfn_text (lfn_part nm k)) = Some b"
    "lfn_state nm csum k (?l1\<lparr>lfn_seq := lfn_seq ?l1 - 1, lfn_buf := b\<rparr>)"
    using lfn_state_step [OF nm k st] by blast
  have eq: "lfn_seq ?l1 = word_of_nat (Suc k)" "lfn_sum ?l1 = csum" using st by (simp_all add: lfn_state_def del: of_nat_Suc)
  have "lfn_entry ?e l = Some (?l1\<lparr>lfn_seq := lfn_seq ?l1 - 1, lfn_buf := b\<rparr>)"
    unfolding lfn_entry_def Let_def e byte(5) diff_Suc_1 using byte(6,7) eq b(1)
    by (simp add: mult.commute [of k 13] del: of_nat_Suc split del: if_split)
  with b(2) show ?thesis by blast
qed


lemma lfn_set_items:
  assumes nm: "long_name nm" and "lfn_ok l"
  shows "\<exists>l'. lfn_state nm csum 0 l' \<and> dir_items l (lfn_set nm csum @ es) = dir_items l' es"
proof -
  let ?slot = "\<lambda>k. lfn_slot (if Suc k = lfn_parts nm then word_of_nat (Suc k) OR 0x40 else word_of_nat (Suc k)) csum (lfn_part nm k)"
  have "k \<le> lfn_parts nm \<Longrightarrow> (if k = lfn_parts nm then lfn_ok l else lfn_state nm csum k l) \<Longrightarrow>
      \<exists>l'. lfn_state nm csum 0 l' \<and> dir_items l (map ?slot (rev [0..<k]) @ es) = dir_items l' es" for k l
  proof (induction k arbitrary: l)
    case 0
    then show ?case using parts_range(1) [OF nm] by auto
  next
    case (Suc k)
    then have k: "k < lfn_parts nm" "k \<noteq> lfn_parts nm" by simp_all
    obtain l1 where l1: "lfn_entry (?slot k) l = Some l1" "lfn_state nm csum k l1"
      using lfn_entry_part [OF nm k(1) Suc.prems(2)] by blast
    have s: "0 < Suc k" "Suc k \<le> 20" using k parts_range(2) [OF nm] by auto
    have b: "?slot k ! 0 \<noteq> 0" "?slot k ! 0 \<noteq> 0xE5" "?slot k ! 11 = 0x0F"
      using lfn_slot_fields [OF lfn_part_text(1) [OF nm k(1)]] seq_byte [OF s] by (auto simp del: of_nat_Suc)
    obtain l' where "lfn_state nm csum 0 l'" "dir_items l1 (map ?slot (rev [0..<k]) @ es) = dir_items l' es"
      using Suc.IH [of l1] k l1(2) by auto
    then show ?case using b l1(1) by (auto simp: named_def lfn_after_def simp del: of_nat_Suc)
  qed
  from this [of "lfn_parts nm" l] assms(2) show ?thesis by (simp add: lfn_set_def)
qed

lemma lfn_state_name:
  assumes nm: "long_name nm" and st: "lfn_state nm csum 0 l"
  shows "fat32_name e l = Some nm"
proof -
  have lb: "length (lfn_buf l) = 256" "lfn_len l = length nm" and eq: "\<And>i. i < length nm \<Longrightarrow> lfn_buf l ! i = nm ! i"
    using st by (auto simp: lfn_state_def lfn_ok_def)
  have n: "0 < length nm" "length nm \<le> 255" using nm by (auto simp: long_name_def)
  then have "0 < nm ! 0" using nm by (simp add: long_name_def)
  then have n0: "nm ! 0 \<noteq> 0" by auto
  have "take (length nm) (lfn_buf l) = nm" using lb n eq by (intro nth_equalityI) auto
  then show ?thesis using lb n n0 eq [of 0] by (simp add: fat32_name_def bounds_simps)
qed

lemma push_payloads_take: "push_payloads tmp payloads = payloads @ take (64 - length payloads) tmp"
  by (induction tmp payloads rule: push_payloads.induct) (auto simp: take_Cons')

lemma bootable_file_item:
  "e ! 11 AND 0x10 = 0 \<Longrightarrow> is_bootable_extension nm \<Longrightarrow> length nm \<le> 255 \<Longrightarrow>
     fat32_file sub ctx [47] e nm [] = Done [\<lparr>pe_name = name_buf (47 # nm), pe_name_len = Suc (length nm),
       pe_start_lba = sub_lba ctx (entry_cluster e), pe_size = ucast (from_le (take 4 (drop 28 e)) :: u32),
       pe_type = classify_payload_type nm\<rparr>]"
  by (simp add: fat32_file_def add_payload_def build_full_path_def Let_def min_def)

lemma scan_payloads_grown: "safe (grown files) (scan_payloads (read_sector io) n d ctx files)"
proof -
  have "grown files (push_payloads f files)" if "grown [] f" for f
    using that by (auto simp: push_payloads_take grown_def dest: in_set_takeD)
  then show ?thesis unfolding scan_payloads_def
    by (auto intro!: safe_bind [OF bio.scan_directory_safe] safe_Done)
qed

section \<open>The properties\<close>

text \<open>C34: the payload scan cannot panic, whatever the disk holds, whichever file system it has, however
  deep its directories nest and however long the scan runs: every index into a sector, the carry buffer, the
  name buffers and the table of 64 payloads is in range. What it returns is the table it got plus payloads with
  an absolute path of at most 256 bytes, and never more than 64.\<close>

theorem scan_payloads_safe: "safe (grown files) (scan_payloads (read_sector io) n d ctx files)"
  by (rule scan_payloads_grown)

text \<open>C15: on FAT32 the scan finds the payloads of the whole directory tree, in preorder with their full
  paths, as far as the table has room: sectors, clusters, the long-name state and the recursion leave no
  trace in the result.\<close>

theorem fat32_scan_lists_tree:
  assumes "ex_fs ctx = Fat32"
    and "fat32_tree (read_sector io) ctx n d (ex_root_cluster ctx) [47] = Some l"
  shows "scan_payloads (read_sector io) n d ctx files = Done (files @ take (64 - length files) l)"
  using bio.scan_fat32_dir_tree [OF assms(2), of "[]"] assms(1)
  by (simp add: scan_payloads_def scan_directory_def path_ok_def push_payloads_take min_def)

text \<open>C35: a file that is stored with a long name, 1 to 255 ASCII characters in as many entries as FAT needs,
  is found under exactly that name, wherever sector and cluster boundaries fall between its entries and
  whatever checksum they carry.\<close>

theorem long_name_roundtrip:
  assumes fs: "ex_fs ctx = Fat32" "ex_root_cluster ctx \<noteq> 0"
    and nm: "long_name nm" "is_bootable_extension nm"
    and e: "e ! 0 \<noteq> 0" "e ! 0 \<noteq> 0xE5" "e ! 11 \<noteq> 0x0F" "e ! 11 AND 0x08 = 0" "e ! 11 AND 0x10 = 0"
    and ss: "dir_sectors (read_sector io) ctx (fat32_next_cluster (read_sector io) (ex_fat_start ctx)) 0x0FFFFFF0 n
        (ex_root_cluster ctx) = Some ss"
      "concat (map entries_of ss) = lfn_set nm csum @ e # z # rest" "z ! 0 = 0"
  shows "scan_payloads (read_sector io) n (Suc d) ctx [] = Done [\<lparr>pe_name = name_buf (47 # nm),
      pe_name_len = Suc (length nm), pe_start_lba = sub_lba ctx (entry_cluster e),
      pe_size = ucast (from_le (take 4 (drop 28 e)) :: u32), pe_type = classify_payload_type nm\<rparr>]"
proof -
  have ok: "lfn_ok no_lfn" by (simp add: lfn_ok_def no_lfn_def)
  obtain l where l: "lfn_state nm csum 0 l" "dir_items no_lfn (concat (map entries_of ss)) = dir_items l (e # z # rest)"
    using lfn_set_items [OF nm(1) ok, of csum "e # z # rest"] ss(2) by auto
  have "dir_items l (e # z # rest) = [(nm, e)]"
    using e ss(3) lfn_state_name [OF nm(1) l(1)] by (simp add: named_def)
  then show ?thesis
    using bio.scan_chain_items [OF ok ss(1), of "scan_fat32_dir (read_sector io) ctx n d" "[47]" "[]"] fs e(5) nm l(2)
    by (simp add: scan_payloads_def scan_directory_def item_act_def bootable_file_item long_name_def)
qed


section \<open>Sample disks\<close>

definition fat32_ctx :: efi_fs_ctx where
  "fat32_ctx = \<lparr>ex_fs = Fat32, ex_part1_lba = 0, ex_spc = 1, ex_fat_start = 1, ex_fat_len = 1, ex_heap_start = 100,
     ex_root_cluster = 2, ex_mft_start_lba = 0, ex_sectors_per_cluster = 0, ex_bytes_per_cluster = 0,
     ex_mft_record_size = 0\<rparr>"

text \<open>A short entry: name, attributes, cluster, 2048 bytes.\<close>

definition sample_entry :: "string \<Rightarrow> u8 \<Rightarrow> u8 \<Rightarrow> bytes" where
  "sample_entry s attr cl = bstr s @ [attr] @ replicate 14 0 @ [cl, 0, 0, 8, 0, 0]"

definition pad_sector :: "bytes \<Rightarrow> bytes" where
  "pad_sector bs = bs @ replicate (512 - length bs) 0"

text \<open>The FAT is zero; cluster 2 holds a directory in cluster 3 and an image, cluster 3 the other entries.\<close>

definition sample_io :: "bytes \<Rightarrow> bytes \<Rightarrow> u64 \<Rightarrow> nat \<Rightarrow> bytes option" where
  "sample_io s2 s3 lba k = Some (if lba = 100 then s2 else if lba = 101 then s3 else replicate 512 0)"

definition tree_io :: "u64 \<Rightarrow> nat \<Rightarrow> bytes option" where
  "tree_io = sample_io (pad_sector (sample_entry ''SUB        '' 0x10 3 @ sample_entry ''A       ISO'' 0x20 5))
     (pad_sector (sample_entry ''.          '' 0x10 3 @ sample_entry ''B       WIM'' 0x20 6))"

lemma fat32_scan_lists_tree_witness:
  "scan_payloads (read_sector tree_io) 1 2 fat32_ctx [] = Done [
     \<lparr>pe_name = name_buf (bstr ''/SUB/B.WIM''), pe_name_len = 10, pe_start_lba = 104, pe_size = 2048, pe_type = Wim\<rparr>,
     \<lparr>pe_name = name_buf (bstr ''/A.ISO''), pe_name_len = 6, pe_start_lba = 103, pe_size = 2048, pe_type = Iso\<rparr>]"
proof -
  have "fat32_tree (read_sector tree_io) fat32_ctx 1 2 2 [47] = Some [
     \<lparr>pe_name = name_buf (bstr ''/SUB/B.WIM''), pe_name_len = 10, pe_start_lba = 104, pe_size = 2048, pe_type = Wim\<rparr>,
     \<lparr>pe_name = name_buf (bstr ''/A.ISO''), pe_name_len = 6, pe_start_lba = 103, pe_size = 2048, pe_type = Iso\<rparr>]"
    by code_simp
  with fat32_scan_lists_tree [of fat32_ctx tree_io 1 2 _ "[]"] show ?thesis by (simp add: fat32_ctx_def)
qed


definition long_io :: "u64 \<Rightarrow> nat \<Rightarrow> bytes option" where
  "long_io = sample_io (pad_sector (concat (lfn_set (bstr ''ubuntu-24.04.iso'') 0x55) @ sample_entry ''UBUNTU~1ISO'' 0x20 5)) []"

lemma long_name_roundtrip_witness:
  "scan_payloads (read_sector long_io) 1 1 fat32_ctx [] = Done [\<lparr>pe_name = name_buf (bstr ''/ubuntu-24.04.iso''),
     pe_name_len = 17, pe_start_lba = 103, pe_size = 2048, pe_type = Iso\<rparr>]"
proof -
  let ?nm = "bstr ''ubuntu-24.04.iso''"
  let ?s = "pad_sector (concat (lfn_set ?nm 0x55) @ sample_entry ''UBUNTU~1ISO'' 0x20 5)"
  let ?e = "sample_entry ''UBUNTU~1ISO'' 0x20 5"
  have n: "long_name ?nm" "is_bootable_extension ?nm" by code_simp+
  have e: "?e ! 0 \<noteq> 0" "?e ! 0 \<noteq> 0xE5" "?e ! 11 \<noteq> 0x0F" "?e ! 11 AND 0x08 = 0" "?e ! 11 AND 0x10 = 0" by code_simp+
  have s: "dir_sectors (read_sector long_io) fat32_ctx (fat32_next_cluster (read_sector long_io) (ex_fat_start fat32_ctx))
      0x0FFFFFF0 1 (ex_root_cluster fat32_ctx) = Some [?s]" by code_simp
  have c: "concat (map entries_of [?s]) = lfn_set ?nm 0x55 @ ?e # replicate 32 0 # replicate 12 (replicate 32 0)"
    by code_simp
  have z: "replicate 32 0 ! 0 = (0 :: u8)" by simp
  have r: "sub_lba fat32_ctx (entry_cluster ?e) = 103" "ucast (from_le (take 4 (drop 28 ?e)) :: u32) = (2048 :: u64)"
    "classify_payload_type ?nm = Iso" "47 # ?nm = bstr ''/ubuntu-24.04.iso''" by code_simp+
  from long_name_roundtrip [OF _ _ n e s c z, of 0] show ?thesis unfolding r by (simp add: fat32_ctx_def)
qed

section \<open>A directory that is its own subdirectory\<close>

text \<open>An exFAT root directory whose first entry set is a directory with an empty name, starting at the root cluster.\<close>

definition self_dir :: bytes where
  "self_dir = pad_sector ([0x85, 2, 0, 0, 0x10] @ replicate 27 0 @ 0xC0 # replicate 19 0 @ [2, 0, 0, 0] @ replicate 8 0
     @ 0xC1 # replicate 31 0)"

definition exfat_ctx :: efi_fs_ctx where
  "exfat_ctx = \<lparr>ex_fs = Exfat, ex_part1_lba = 0, ex_spc = 1, ex_fat_start = 1, ex_fat_len = 1, ex_heap_start = 100,
     ex_root_cluster = 2, ex_mft_start_lba = 0, ex_sectors_per_cluster = 0, ex_bytes_per_cluster = 0,
     ex_mft_record_size = 0\<rparr>"

text \<open>The bound on the depth counts the separators of the path, and an empty name adds none below
  the root: on a disk whose root directory holds such a directory starting at the root cluster, the exFAT scan
  descends for ever, whatever number of nested calls the stack can take.\<close>

theorem empty_name_recurses: "scan_payloads (read_sector (\<lambda>_ _. Some self_dir)) n d exfat_ctx [] = Spin"
proof -
  have l: "length self_dir = 512" by code_simp
  have rd: "read_sector (\<lambda>_ _. Some self_dir) lba = Some self_dir" for lba by (simp add: read_sector_def l)
  have sec: "exfat_sector sub exfat_ctx [47] [] self_dir [] = Spin" if sub: "sub 2 [47] [] = Spin" for sub
  proof -
    have f: "idx self_dir 0 = Some 0x85" "idx self_dir 1 = Some 2" "idx self_dir 32 = Some 0xC0"
      "u16_at self_dir 4 = Some 0x10" "u32_at self_dir 52 = Some 2" "u64_at self_dir 56 = Some 0" "idx self_dir 35 = Some 0"
      "idx self_dir 64 = Some 0xC1"
      by code_simp+
    have a: "(0x10 :: u16) AND 0x10 \<noteq> 0" "path_depth [47] < 12" "build_full_path [47] [] = Some [47]" by code_simp+
    have "exfat_entry sub exfat_ctx [47] self_dir 16 0 [] = Spin"
      using f a sub by (simp add: exfat_entry_def exfat_file_def enter_dir_def Let_def)
    then show ?thesis by (simp add: exfat_sector_def bounds_simps l)
  qed
  have c: "ex_spc exfat_ctx = 1" "ex_fs exfat_ctx = Exfat" "ex_root_cluster exfat_ctx = 2" by (simp_all add: exfat_ctx_def)
  have "scan_exfat_dir (read_sector (\<lambda>_ _. Some self_dir)) exfat_ctx n d 2 [47] [] = Spin"
  proof (induction d)
    case (Suc d)
    then show ?case by (cases n) (simp_all add: c rd sec)
  qed simp
  then show ?thesis by (simp add: scan_payloads_def scan_directory_def c)
qed

section \<open>NTFS\<close>

lemma data_run_kernel:
  assumes "unat (ex_part1_lba ctx) < 2 ^ 32"
  shows "data_run ctx attrs off alen = KernelNtfs.data_run (mft_ctx ctx) attrs off alen"
proof -
  have p: "ucast (ucast (ex_part1_lba ctx) :: u32) = ex_part1_lba ctx"
    using assms by (intro unsigned_word_eqI [where ?'a = nat]) (simp add: unsigned_ucast_eq unsigned_take_bit_eq take_bit_nat_eq_self)
  have r: "parse_varlen_le_signed ob n = KernelNtfs.parse_varlen_le_signed ob n"
    if "slice run (1 + k) (length run) = Some ob" "1 + k + n \<le> length run" for ob n run k
    by (rule run_offset_kernel) (use that slice_length in fastforce)
  show ?thesis
    unfolding data_run_def KernelNtfs.data_run_def Let_def
    by (auto simp: p mft_ctx_def r bind_eq_None_conv split: option.splits bind_splits intro!: bind_option_cong)
qed


lemma data_attr_kernel:
  assumes "unat (ex_part1_lba ctx) < 2 ^ 32"
  shows "parse_ntfs_data_attr ctx attrs fuel off = file_info_walk (mft_ctx ctx) attrs fuel off"
  by (induction fuel arbitrary: off) (simp_all add: data_run_kernel [OF assms] split: option.split)

text \<open>The two loaders agree on where an NTFS file lies: for a partition that starts below sector 2^32
  the UEFI loader finds the start sector and the size that the BIOS kernel finds, or like it finds none, for every record number
  and any content of the MFT, although one decodes the signed cluster offset by shifts and the other by a subtraction.\<close>

theorem ntfs_loaders_agree:
  "unat (ex_part1_lba ctx) < 2 ^ 32 \<Longrightarrow>
     get_ntfs_file_lba (read_sector io) ctx rec_no = get_ntfs_file_info (read_sector io) (mft_ctx ctx) rec_no"
  by (simp add: get_ntfs_file_lba_def get_ntfs_file_info_def data_attr_kernel del: parse_ntfs_data_attr.simps file_info_walk.simps
      cong: option.case_cong)

text \<open>An MFT record of 1024 bytes with one non-resident data attribute of 5000 bytes, at cluster 0xFF10 - 0x10000.\<close>

definition ntfs_record :: bytes where
  "ntfs_record = replicate 20 0 @ [0x38, 0] @ replicate 34 0
     @ [0x80, 0, 0, 0, 0x48, 0, 0, 0, 1] @ replicate 23 0 @ [0x40, 0] @ replicate 14 0 @ [0x88, 0x13, 0, 0, 0, 0, 0, 0] @ replicate 8 0
     @ [0x21, 2, 0x10, 0xFF, 0, 0, 0, 0] @ replicate 384 0"

definition ntfs_sample :: efi_fs_ctx where
  "ntfs_sample = \<lparr>ex_fs = Ntfs, ex_part1_lba = 2048, ex_spc = 0, ex_fat_start = 0, ex_fat_len = 0, ex_heap_start = 0,
     ex_root_cluster = 0, ex_mft_start_lba = 100, ex_sectors_per_cluster = 8, ex_bytes_per_cluster = 4096,
     ex_mft_record_size = 512\<rparr>"

lemma ntfs_sample_attrs:
  "mft_attrs (read_sector (\<lambda>_ _. Some ntfs_record)) (mft_ctx ntfs_sample) n = Done (Some (drop 56 ntfs_record @ replicate 3584 0))"
proof -
  have l: "length ntfs_record = 512" by (simp add: ntfs_record_def)
  have rd: "read_sector (\<lambda>_ _. Some ntfs_record) = (\<lambda>_. Some ntfs_record)" by (rule ext) (simp add: read_sector_def l)
  have f: "u16_at ntfs_record 4 = Some 0" "u16_at ntfs_record 6 = Some 0" "u16_at ntfs_record 20 = Some 56" by code_simp+
  have u: "u16_at (ntfs_record @ replicate 3584 0) k = u16_at ntfs_record k" if "k \<le> 510" for k
    using that l by (simp add: u16_at_Some)
  show ?thesis
    by (simp add: mft_attrs_def mft_ctx_def ntfs_sample_def rd blit_Some l mft_fixup_def u f numeral_eq_Suc [of "num.One"] slice_Some
        del: replicate.simps)
qed

lemma ntfs_loaders_agree_witness:
  "get_ntfs_file_info (read_sector (\<lambda>_ _. Some ntfs_record)) (mft_ctx ntfs_sample) 7 = Done (Some (128, 5000))"
proof -
  define b where "b = drop 56 ntfs_record"
  have l: "length b = 456" by (simp add: b_def ntfs_record_def)
  have f: "u32_at b 0 = Some 0x80" "u32_at b 4 = Some 0x48" "idx b 8 = Some 1" "u16_at b 0x20 = Some 0x40" "u64_at b 0x30 = Some 5000"
    "slice b 0x40 0x48 = Some [0x21, 2, 0x10, 0xFF, 0, 0, 0, 0]"
    unfolding b_def by code_simp+
  have u: "u16_at (b @ xs) k = u16_at b k" if "k \<le> 400" for k xs
    using that l by (simp add: u16_at_Some)
  have at: "attr_at (b @ xs) 0 = Some (Some (0x80, 0x48))" for xs
    by (simp add: attr_at_def u32_at_append l f)
  have r: "parse_varlen_le_signed [0x10, 0xFF, 0, 0, 0, 0] 2 = - 240"
    by code_simp
  have run: "data_run ntfs_sample (b @ xs) 0 0x48 = Some (Some (128, 5000))" for xs
    by (simp add: data_run_def u u64_at_append idx_append slice_append l f idx_def [of "_ # _"] slice_def [of "_ # _"] r ntfs_sample_def)
  have "get_ntfs_file_lba (read_sector (\<lambda>_ _. Some ntfs_record)) ntfs_sample 7 = Done (Some (128, 5000))"
    unfolding get_ntfs_file_lba_def ntfs_sample_attrs obind.simps option.case b_def [symmetric] Suc_eq_plus1 [symmetric]
    by (simp only: parse_ntfs_data_attr.simps at run option.case prod.case if_True refl of_opt_simps)
  with ntfs_loaders_agree [of ntfs_sample "\<lambda>_ _. Some ntfs_record" 7] show ?thesis by (simp add: ntfs_sample_def)
qed

end
