(* ===== verification/EfiIsoFs.thy ===== *)
theory EfiIsoFs
  imports EfiVbio EfiBootKind
begin

text \<open>
  The ISO 9660 file system that the UEFI loader publishes on the virtual CD-ROM (\<open>efi/src/iso_fs.rs\<close>):
  reading extents, looking names up, opening, reading, positioning and describing files, and listing directories.
  The sectors of 2048 bytes come from the virtual Block I/O or, without it, from the real device. A pool
  allocation is a boolean parameter, whether the firmware grants it; a null pointer is \<open>None\<close>.
\<close>

type_synonym ucs2 = "u16 list"

record iso_fs_ctx =
  ix_backing :: backing
  ix_iso_lba :: u64
  ix_iso_size :: u64
  ix_root_lba :: u32
  ix_root_size :: u32
  ix_iso_name :: bytes
  ix_live_media_uuid :: bytes
  ix_cpio_buf :: "bytes option"
  ix_cpio_size :: nat
  ix_target_name :: bytes
  ix_target_len :: nat
  ix_boot_kind :: boot_kind
  ix_bootloader_type :: bootloader_type
  ix_vbio :: "virtual_block_io option"

record virtual_file =
  vf_is_dir :: bool
  vf_extent_lba :: u32
  vf_extent_size :: u32
  vf_position :: u64
  vf_needs_grub_patch :: bool
  vf_patched_buf :: "bytes option"
  vf_patched_size :: u64
  vf_patched :: bool
  vf_is_synthetic :: bool
  vf_synthetic_buf :: "bytes option"
  vf_synthetic_size :: nat
  vf_synthetic_injected :: bool

text \<open>The status codes other than success.\<close>

datatype efi_error = Invalid_parameter | Unsupported | Not_found | Out_of_resources | Buffer_too_small nat
  | Efi_device_error | Write_protected

section \<open>A source of ISO sectors\<close>

locale iso_source =
  fixes rd :: "u32 \<Rightarrow> bytes option"
  assumes rd_2048: "rd s = Some b \<Longrightarrow> length b = 2048"

text \<open>A read through the virtual Block I/O cannot panic (\<open>vblock_read_total\<close> below), so \<open>None\<close> is a failed read.\<close>

definition read_iso_sector :: "iso_fs_ctx \<Rightarrow> u32 \<Rightarrow> bytes option" where
  "read_iso_sector ctx iso_sector =
     (case ix_vbio ctx of
        Some vb \<Rightarrow> (case vblock_read vb (ucast iso_sector) (replicate 2048 0) of
            Some (Success buf) \<Rightarrow> Some buf
          | _ \<Rightarrow> None)
      | None \<Rightarrow> (case bk_read (ix_backing ctx) (ix_iso_lba ctx + ucast iso_sector * 4) 2048 of
            Some b \<Rightarrow> Some (take 2048 (b @ replicate 2048 0))
          | None \<Rightarrow> None))"

section \<open>Reading an extent\<close>

text \<open>
  The loop over the sectors from \<open>cur\<close> on: \<open>src_off\<close> bytes of the first one are skipped. The result is the
  part of the caller's buffer that was filled.
\<close>

function extent_loop :: "(u32 \<Rightarrow> bytes option) \<Rightarrow> u32 \<Rightarrow> nat \<Rightarrow> nat \<Rightarrow> bytes" where
  "extent_loop rd cur src_off remaining =
     (if remaining = 0 then []
      else case rd cur of
        None \<Rightarrow> []
      | Some scratch \<Rightarrow>
          let copy = min remaining (2048 - src_off)
          in take copy (drop src_off scratch) @ extent_loop rd (cur + 1) 0 (remaining - copy))"
  by pat_completeness auto

termination
  by (relation "measures [\<lambda>(rd, cur, off, rem). rem, \<lambda>(rd, cur, off, rem). off]") auto

declare extent_loop.simps [simp del]

definition read_extent_data :: "(u32 \<Rightarrow> bytes option) \<Rightarrow> u32 \<Rightarrow> u32 \<Rightarrow> u64 \<Rightarrow> nat \<Rightarrow> bytes" where
  "read_extent_data rd lba extent_size offset n =
     (if offset \<ge> ucast extent_size then []
      else
        let max_read = min (unat (ucast extent_size - offset)) n
        in extent_loop rd (lba + ucast (offset div 2048)) (unat (offset mod 2048)) max_read)"

section \<open>Looking names up\<close>

definition iso_name_effective_len :: "bytes \<Rightarrow> nat" where
  "iso_name_effective_len nm =
     (if length nm \<ge> 2 \<and> nm ! (length nm - 2) = 59 then length nm - 2 else length nm)"

text \<open>The characters of the wanted name up to its terminator, as the code keeps them: ASCII or a question mark, 255 at most.\<close>

definition ucs2_name :: "ucs2 \<Rightarrow> bytes" where
  "ucs2_name us = take 255 (map (\<lambda>cp. if cp < 0x80 then ucast cp else 63) (takeWhile (\<lambda>c. c \<noteq> 0) us))"

definition match_iso_name :: "bytes \<Rightarrow> ucs2 \<Rightarrow> bool" where
  "match_iso_name iso_name us \<longleftrightarrow>
     map to_ascii_uppercase (take (iso_name_effective_len iso_name) iso_name) = map to_ascii_uppercase (ucs2_name us)"

text \<open>The records of a sector from \<open>off\<close> on: extent, size and directory flag of the first one with the name.\<close>

function lookup_records :: "ucs2 \<Rightarrow> bytes \<Rightarrow> nat \<Rightarrow> (u32 \<times> u32 \<times> bool) option" where
  "lookup_records name scratch off =
     (if off + 34 \<le> 2048 then
        let record_len = unat (scratch ! off)
        in if record_len = 0 then None
           else if record_len < 34 \<or> off + record_len > 2048 then None
           else
             let name_len = unat (scratch ! (off + 32))
             in if 33 + name_len > record_len \<or> off + 33 + name_len > 2048 then None
                else if match_iso_name (take name_len (drop (off + 33) scratch)) name
                then Some (from_le (take 4 (drop (off + 2) scratch)), from_le (take 4 (drop (off + 10) scratch)),
                       scratch ! (off + 25) AND 0x02 \<noteq> 0)
                else lookup_records name scratch (off + record_len)
      else None)"
  by pat_completeness auto

termination by (relation "measure (\<lambda>(name, scratch, off). 2048 - off)") auto

declare lookup_records.simps [simp del]

fun lookup_sectors :: "(u32 \<Rightarrow> bytes option) \<Rightarrow> ucs2 \<Rightarrow> u32 \<Rightarrow> nat \<Rightarrow> nat \<Rightarrow> (u32 \<times> u32 \<times> bool) option" where
  "lookup_sectors rd name dir_lba s 0 = None"
| "lookup_sectors rd name dir_lba s (Suc n) =
     (case rd (dir_lba + word_of_nat s) of
        None \<Rightarrow> None
      | Some scratch \<Rightarrow>
          case lookup_records name scratch 0 of
            Some r \<Rightarrow> Some r
          | None \<Rightarrow> lookup_sectors rd name dir_lba (s + 1) n)"

definition sectors_of :: "u32 \<Rightarrow> nat" where
  "sectors_of dir_size = (unat dir_size + 2047) div 2048"

definition lookup_in_dir :: "(u32 \<Rightarrow> bytes option) \<Rightarrow> u32 \<Rightarrow> u32 \<Rightarrow> ucs2 \<Rightarrow> (u32 \<times> u32 \<times> bool) option" where
  "lookup_in_dir rd dir_lba dir_size name = lookup_sectors rd name dir_lba 0 (sectors_of dir_size)"

definition pvd_root :: "bytes \<Rightarrow> (u32 \<times> u32) option" where
  "pvd_root pvd =
     (if pvd ! 0 \<noteq> 1 \<or> take 5 (drop 1 pvd) \<noteq> bstr ''CD001'' then None
      else Some (from_le (take 4 (drop 158 pvd)), from_le (take 4 (drop 166 pvd))))"

definition parse_pvd :: "(u32 \<Rightarrow> bytes option) \<Rightarrow> (u32 \<times> u32) option" where
  "parse_pvd rd = (case rd 16 of None \<Rightarrow> None | Some pvd \<Rightarrow> pvd_root pvd)"

section \<open>Resolving a path\<close>

text \<open>The path from the last backslash that follows a closing parenthesis on.\<close>

fun from_last_paren :: "ucs2 \<Rightarrow> ucs2 option" where
  "from_last_paren (a # b # us) =
     (case from_last_paren (b # us) of
        Some r \<Rightarrow> Some r
      | None \<Rightarrow> if a = 41 \<and> b = 92 then Some (b # us) else None)"
| "from_last_paren _ = None"

lemma tl_dropWhile_shorter: "tl (dropWhile P xs) \<noteq> [] \<Longrightarrow> length (tl (dropWhile P xs)) < length xs"
  using length_dropWhile_le [of P xs] by (cases "dropWhile P xs") auto

function resolve_loop :: "(u32 \<Rightarrow> bytes option) \<Rightarrow> u32 \<Rightarrow> u32 \<Rightarrow> ucs2 \<Rightarrow> (u32 \<times> u32 \<times> bool) option" where
  "resolve_loop rd cur_lba cur_size path =
     (case lookup_in_dir rd cur_lba cur_size (takeWhile (\<lambda>c. c \<noteq> 92) path) of
        None \<Rightarrow> None
      | Some (child_lba, child_size, is_dir) \<Rightarrow>
          let rest = tl (dropWhile (\<lambda>c. c \<noteq> 92) path); has_more = (rest \<noteq> [] \<and> rest ! 0 \<noteq> 0)
          in if has_more \<and> \<not> is_dir then None
             else if \<not> has_more then Some (child_lba, child_size, is_dir)
             else resolve_loop rd child_lba child_size rest)"
  by pat_completeness auto

termination by (relation "measure (\<lambda>(rd, l, s, path). length path)") (auto simp only: in_measure prod.case intro!: tl_dropWhile_shorter)

declare resolve_loop.simps [simp del]

definition resolve_path :: "(u32 \<Rightarrow> bytes option) \<Rightarrow> u32 \<Rightarrow> u32 \<Rightarrow> ucs2 \<Rightarrow> (u32 \<times> u32 \<times> bool) option" where
  "resolve_path rd start_lba start_size path =
     (if path = [] \<or> path = [92] then Some (start_lba, start_size, True)
      else
        let p = dropWhile (\<lambda>c. c = 92) (case from_last_paren path of Some r \<Rightarrow> r | None \<Rightarrow> path)
        in if p = [] then Some (start_lba, start_size, True) else resolve_loop rd start_lba start_size p)"


section \<open>The synthetic premount file\<close>

text \<open>The part behind the last separator.\<close>

fun last_component :: "ucs2 \<Rightarrow> ucs2" where
  "last_component [] = []"
| "last_component (u # us) = (if \<exists>c\<in>set (u # us). c = 92 \<or> c = 47 then
     (if \<exists>c\<in>set us. c = 92 \<or> c = 47 then last_component us else us) else u # us)"

definition lower16 :: "u16 \<Rightarrow> u16" where
  "lower16 c = (if 65 \<le> c \<and> c \<le> 90 then c OR 0x20 else c)"

definition path_component_matches :: "ucs2 \<Rightarrow> bytes \<Rightarrow> bool" where
  "path_component_matches path target \<longleftrightarrow>
     (let component = last_component path;
          comp_len = (if length component \<ge> 2 \<and> component ! (length component - 2) = 59
                      then length component - 2 else length component)
      in component \<noteq> [] \<and> comp_len = length target \<and>
         (\<forall>i<length target. lower16 (component ! i) = ucast (target ! i OR 0x20)))"

section \<open>Opening\<close>

definition new_virtual_file :: "bool \<Rightarrow> u32 \<Rightarrow> u32 \<Rightarrow> virtual_file" where
  "new_virtual_file is_dir lba size' =
     \<lparr>vf_is_dir = is_dir, vf_extent_lba = lba, vf_extent_size = size', vf_position = 0, vf_needs_grub_patch = False,
      vf_patched_buf = None, vf_patched_size = 0, vf_patched = False, vf_is_synthetic = False, vf_synthetic_buf = None,
      vf_synthetic_size = 0, vf_synthetic_injected = False\<rparr>"

definition sfs_open_volume :: "iso_fs_ctx \<Rightarrow> bool \<Rightarrow> efi_error + virtual_file" where
  "sfs_open_volume ctx pool =
     (if pool then Inr (new_virtual_file True (ix_root_lba ctx) (ix_root_size ctx)) else Inl Out_of_resources)"

definition alloc_virtual_file :: "u32 \<Rightarrow> u32 \<Rightarrow> bool \<Rightarrow> bool \<Rightarrow> virtual_file" where
  "alloc_virtual_file lba size' is_dir needs_patch =
     (new_virtual_file is_dir lba size')\<lparr>vf_needs_grub_patch := needs_patch\<rparr>"

text \<open>The last four characters, lower-cased by setting bit 5 of their low bytes, are .cfg.\<close>

definition is_cfg_name :: "ucs2 \<Rightarrow> bool" where
  "is_cfg_name name \<longleftrightarrow> length name \<ge> 4 \<and>
     map (\<lambda>c. (ucast c :: u8) OR 0x20) (drop (length name - 4) name) = bstr ''.cfg''"

definition file_open :: "iso_fs_ctx \<Rightarrow> virtual_file \<Rightarrow> ucs2 \<Rightarrow> bool \<Rightarrow> efi_error + virtual_file" where
  "file_open ctx vf name pool =
     (if \<not> vf_is_dir vf then Inl Unsupported
      else if length name > 256 then Inl Invalid_parameter
      else if ix_cpio_size ctx > 0 \<and> ix_cpio_buf ctx \<noteq> None \<and>
        (path_component_matches name (take (ix_target_len ctx) (ix_target_name ctx))
          \<or> path_component_matches name (bstr ''PREMOUNT.CPIO''))
      then
        (if pool then Inr ((new_virtual_file False 0 (word_of_nat (ix_cpio_size ctx)))
           \<lparr>vf_is_synthetic := True, vf_synthetic_buf := ix_cpio_buf ctx, vf_synthetic_size := ix_cpio_size ctx\<rparr>)
         else Inl Out_of_resources)
      else
        case resolve_path (read_iso_sector ctx) (vf_extent_lba vf) (vf_extent_size vf) name of
          None \<Rightarrow> Inl Not_found
        | Some (child_lba, child_size, is_dir) \<Rightarrow>
            if pool then Inr (alloc_virtual_file child_lba child_size is_dir (\<not> is_dir \<and> is_cfg_name name))
            else Inl Out_of_resources)"

section \<open>Reading a file\<close>

text \<open>Serving \<open>n\<close> bytes of a buffer of \<open>limit\<close> bytes in memory from the position on.\<close>

definition read_memory :: "bytes \<Rightarrow> nat \<Rightarrow> virtual_file \<Rightarrow> nat \<Rightarrow> bytes \<times> virtual_file" where
  "read_memory buf limit vf n =
     (if unat (vf_position vf) \<ge> limit then ([], vf)
      else
        let to_copy = min n (limit - unat (vf_position vf))
        in if to_copy = 0 then ([], vf)
           else (take to_copy (drop (unat (vf_position vf)) buf), vf\<lparr>vf_position := vf_position vf + word_of_nat to_copy\<rparr>))"

definition file_read_file :: "iso_fs_ctx \<Rightarrow> virtual_file \<Rightarrow> nat \<Rightarrow> efi_error + (bytes \<times> virtual_file)" where
  "file_read_file ctx vf n =
     (if vf_is_dir vf then Inl Unsupported
      else if n = 0 then Inr ([], vf)
      else case (vf_is_synthetic vf, vf_synthetic_buf vf) of
        (True, Some buf) \<Rightarrow> Inr (read_memory buf (vf_synthetic_size vf) vf n)
      | _ \<Rightarrow>
          case (vf_patched vf, vf_patched_buf vf) of
            (True, Some buf) \<Rightarrow> Inr (read_memory buf (unat (vf_patched_size vf)) vf n)
          | _ \<Rightarrow>
              let dat = read_extent_data (read_iso_sector ctx) (vf_extent_lba vf) (vf_extent_size vf) (vf_position vf) n
              in Inr (dat, vf\<lparr>vf_position := vf_position vf + word_of_nat (length dat)\<rparr>))"

section \<open>Position and information\<close>

definition file_size_of :: "virtual_file \<Rightarrow> u64" where
  "file_size_of vf =
     (if vf_patched vf then vf_patched_size vf
      else if vf_is_synthetic vf then word_of_nat (vf_synthetic_size vf)
      else ucast (vf_extent_size vf))"

definition file_get_position :: "virtual_file \<Rightarrow> u64" where
  "file_get_position vf = vf_position vf"

definition file_set_position :: "virtual_file \<Rightarrow> u64 \<Rightarrow> efi_error + virtual_file" where
  "file_set_position vf position =
     (if vf_is_dir vf then (if position \<noteq> 0 then Inl Unsupported else Inr (vf\<lparr>vf_position := 0\<rparr>))
      else Inr (vf\<lparr>vf_position := (if position > file_size_of vf then file_size_of vf else position)\<rparr>))"

text \<open>\<open>EfiFileInfo\<close> is 80 bytes: three sizes, three zero times of 16 bytes and the attributes; the name follows.\<close>

definition info_bytes :: "u64 \<Rightarrow> u64 \<Rightarrow> u64 \<Rightarrow> bytes" where
  "info_bytes size' file_size attr =
     to_le 8 size' @ to_le 8 file_size @ to_le 8 file_size @ replicate 48 0 @ to_le 8 attr"

definition file_get_info :: "virtual_file \<Rightarrow> bool \<Rightarrow> nat \<Rightarrow> efi_error + bytes" where
  "file_get_info vf is_file_info buf_sz =
     (if \<not> is_file_info then Inl Unsupported
      else if buf_sz < 82 then Inl (Buffer_too_small 82)
      else Inr (info_bytes 82 (file_size_of vf) (if vf_is_dir vf then 1 else 0) @ [0, 0]))"

definition file_write_ro :: "virtual_file \<Rightarrow> efi_error + virtual_file" where
  "file_write_ro vf = Inl Write_protected"

section \<open>Listing a directory\<close>

definition info_size :: "nat \<Rightarrow> nat" where
  "info_size name_len = (80 + (name_len + 1) * 2 + 7) div 8 * 8"

text \<open>One entry: the information, the name in UCS-2 with its terminator, and zeros up to a multiple of 8.\<close>

definition dir_info :: "bytes \<Rightarrow> u64 \<Rightarrow> u64 \<Rightarrow> bytes" where
  "dir_info name file_size attr =
     info_bytes (word_of_nat (info_size (length name))) file_size attr @ concat (map (\<lambda>c. [c, 0]) name) @ [0, 0]
     @ replicate (info_size (length name) - (80 + (length name + 1) * 2)) 0"

text \<open>How the loop ends: with a cursor, with the directory exhausted, with a read error at a sector, or with a first entry that does not fit.\<close>

datatype dir_run = Dir_cursor nat nat bytes | Dir_finished bytes | Dir_error nat | Dir_small nat

function read_dir_loop ::
  "(u32 \<Rightarrow> bytes option) \<Rightarrow> u32 \<Rightarrow> nat \<Rightarrow> nat \<Rightarrow> nat \<Rightarrow> nat \<Rightarrow> bytes \<Rightarrow> bytes \<Rightarrow> dir_run" where
  "read_dir_loop rd lba total_sectors buf_sz sector byte scratch out =
     (if length out + 80 + 2 > buf_sz then Dir_cursor sector byte out
      else if byte + 34 > 2048 \<or> (byte > 0 \<and> scratch ! byte = 0) then
        (if sector + 1 \<ge> total_sectors then Dir_finished out
         else case rd (lba + word_of_nat (sector + 1)) of
           None \<Rightarrow> Dir_error (sector + 1)
         | Some s \<Rightarrow> if s ! 0 = 0 then Dir_finished out
             else read_dir_loop rd lba total_sectors buf_sz (sector + 1) 0 s out)
      else
        let record_len = unat (scratch ! byte)
        in if record_len = 0 then
             (if sector + 1 \<ge> total_sectors then Dir_finished out
              else case rd (lba + word_of_nat (sector + 1)) of
                None \<Rightarrow> Dir_error (sector + 1)
              | Some s \<Rightarrow> read_dir_loop rd lba total_sectors buf_sz (sector + 1) 0 s out)
           else if record_len < 34 \<or> byte + record_len > 2048 then Dir_finished out
           else
             let name_len = unat (scratch ! (byte + 32))
             in if 33 + name_len > record_len \<or> byte + 33 + name_len > 2048 then Dir_finished out
                else
                  let iso_name = take name_len (drop (byte + 33) scratch);
                      name = take (iso_name_effective_len iso_name) iso_name;
                      child_size = from_le (take 4 (drop (byte + 10) scratch)) :: u32;
                      is_dir = (scratch ! (byte + 25) AND 0x02 \<noteq> 0)
                  in if length out + info_size (length name) > buf_sz then
                       (if out = [] then Dir_small (info_size (length name)) else Dir_cursor sector byte out)
                     else read_dir_loop rd lba total_sectors buf_sz sector (byte + record_len) scratch
                            (out @ dir_info name (ucast child_size) (if is_dir then 1 else 0)))"
  by pat_completeness auto

termination
  by (relation "measures [\<lambda>(rd, lba, total, bs, sector, byte, s, out). total - sector,
        \<lambda>(rd, lba, total, bs, sector, byte, s, out). 2048 - byte]") auto

declare read_dir_loop.simps [simp del]

definition dir_position :: "nat \<Rightarrow> u64 \<Rightarrow> u64" where
  "dir_position sector low = push_bit 16 (word_of_nat sector) OR low"

text \<open>The second phase offers the synthetic file once.\<close>

definition read_dir_phase2 :: "iso_fs_ctx \<Rightarrow> virtual_file \<Rightarrow> nat \<Rightarrow> nat \<Rightarrow> efi_error + (bytes \<times> virtual_file)" where
  "read_dir_phase2 ctx vf total_sectors buf_sz =
     (if ix_cpio_size ctx > 0 \<and> ix_cpio_buf ctx \<noteq> None then
        let name = (if ix_target_len ctx > 0 then take (ix_target_len ctx) (ix_target_name ctx) else bstr ''PREMOUNT.CPIO'')
        in if info_size (length name) \<le> buf_sz then
             Inr (dir_info name (word_of_nat (ix_cpio_size ctx)) 0,
                  vf\<lparr>vf_synthetic_injected := True, vf_position := dir_position total_sectors 0x20000\<rparr>)
           else Inl (Buffer_too_small (info_size (length name)))
      else Inr ([], vf\<lparr>vf_position := dir_position total_sectors 0x20000\<rparr>))"

text \<open>The result has the handle after the call also when the call fails.\<close>

definition file_read_dir :: "iso_fs_ctx \<Rightarrow> virtual_file \<Rightarrow> nat \<Rightarrow> (efi_error + bytes) \<times> virtual_file" where
  "file_read_dir ctx vf buf_sz =
     (if \<not> vf_is_dir vf then (Inl Unsupported, vf)
      else
        let total_sectors = sectors_of (vf_extent_size vf);
            vf1 = (if vf_position vf = 0 then vf\<lparr>vf_synthetic_injected := False\<rparr> else vf);
            sector_idx = unat (ucast (drop_bit 16 (vf_position vf1)) :: u32);
            byte_offset = unat (vf_position vf1 AND 0xFFFF)
        in if sector_idx \<ge> total_sectors \<and> vf_position vf1 AND 0x10000 \<noteq> 0 \<and> \<not> vf_synthetic_injected vf1 then
             (case read_dir_phase2 ctx vf1 total_sectors buf_sz of
                Inl e \<Rightarrow> (Inl e, vf1)
              | Inr (out, vf2) \<Rightarrow> (Inr out, vf2))
           else if sector_idx \<ge> total_sectors then (Inr [], vf1)
           else case read_iso_sector ctx (vf_extent_lba vf1 + word_of_nat sector_idx) of
             None \<Rightarrow> (Inl Efi_device_error, vf1)
           | Some scratch \<Rightarrow>
               case read_dir_loop (read_iso_sector ctx) (vf_extent_lba vf1) total_sectors buf_sz sector_idx byte_offset scratch [] of
                 Dir_error s \<Rightarrow> (Inl Efi_device_error, vf1\<lparr>vf_position := dir_position s 0\<rparr>)
               | Dir_small n \<Rightarrow> (Inl (Buffer_too_small n), vf1)
               | Dir_finished out \<Rightarrow> (Inr out, vf1\<lparr>vf_position := dir_position total_sectors 0x10000\<rparr>)
               | Dir_cursor s b out \<Rightarrow> (Inr out, vf1\<lparr>vf_position := dir_position s (word_of_nat b)\<rparr>))"

section \<open>Creating the volume\<close>

definition create_iso_fs ::
  "backing \<Rightarrow> u64 \<Rightarrow> u64 \<Rightarrow> bytes \<Rightarrow> bytes \<Rightarrow> bytes option \<Rightarrow> nat \<Rightarrow> bool \<Rightarrow> iso_fs_ctx option" where
  "create_iso_fs bk iso_lba iso_size iso_name live_media_uuid cpio_buf cpio_size pool =
     (if \<not> pool then None
      else
        let ctx = \<lparr>ix_backing = bk, ix_iso_lba = iso_lba, ix_iso_size = iso_size, ix_root_lba = 0, ix_root_size = 0,
              ix_iso_name = take 127 iso_name, ix_live_media_uuid = take 10 live_media_uuid, ix_cpio_buf = cpio_buf, ix_cpio_size = cpio_size,
              ix_target_name = replicate 16 0, ix_target_len = 0, ix_boot_kind = Unknown, ix_bootloader_type = Grub, ix_vbio = None\<rparr>
        in case parse_pvd (read_iso_sector ctx) of
             None \<Rightarrow> None
           | Some (rlb, rsz) \<Rightarrow> Some (ctx\<lparr>ix_root_lba := rlb, ix_root_size := rsz\<rparr>))"

end
