(* ===== verification/EfiIsoFsCorrect.thy ===== *)
theory EfiIsoFsCorrect
  imports EfiIsoFs
begin

text \<open>
  The ISO file system of the UEFI loader against its specification: a file is a list of bytes and a position,
  a directory the list of the entries still to be read.
\<close>

section \<open>The sector source\<close>

lemma vblock_loop_length: "vblock_loop vb lba b n dst = Some (Success d) \<Longrightarrow> length d = length dst"
  by (induction n arbitrary: b dst) (auto simp: len_simps split: Option.bind_splits served.splits)

interpretation isofs: iso_source "read_iso_sector ctx" for ctx
proof unfold_locales
  fix s b
  assume "read_iso_sector ctx s = Some b"
  then show "length b = 2048"
    using vblock_loop_length [of _ _ 0 1 "replicate 2048 0" b]
    by (auto simp: read_iso_sector_def vblock_read_def split: option.splits read_status.splits)
qed

lemma vblock_loop_total:
  "vbio_ok vb \<Longrightarrow> (b + n) * 2048 \<le> length dst \<Longrightarrow> \<exists>r. vblock_loop vb lba b n dst = Some r"
proof (induction n arbitrary: b dst)
  case (Suc n)
  obtain r where r: "block_content vb (lba + word_of_nat b) = Some r" "\<And>s. r = Served s \<Longrightarrow> length s = 2048"
    using block_content_ok [OF Suc.prems(1)] by blast
  show ?case
  proof (cases r)
    case (Served sec)
    then obtain d where d: "blit dst (b * 2048) sec = Some d" "length d = length dst"
      using r(2) Suc.prems(2) by (simp add: bounds_simps)
    then show ?thesis using Served r(1) Suc.IH [of "b + 1" d] Suc.prems by simp
  qed (use r in simp)
qed simp

lemma vblock_read_total: "vbio_ok vb \<Longrightarrow> \<exists>r. vblock_read vb lba (replicate 2048 0) = Some r"
  using vblock_loop_total [of vb 0 1 "replicate 2048 0" lba] by (simp add: vblock_read_def)

section \<open>The content of an extent\<close>

fun extent_sectors :: "(u32 \<Rightarrow> bytes option) \<Rightarrow> u32 \<Rightarrow> nat \<Rightarrow> bytes list option" where
  "extent_sectors rd lba 0 = Some []"
| "extent_sectors rd lba (Suc n) = do { s \<leftarrow> rd lba; ss \<leftarrow> extent_sectors rd (lba + 1) n; Some (s # ss) }"

definition extent_content :: "(u32 \<Rightarrow> bytes option) \<Rightarrow> u32 \<Rightarrow> u32 \<Rightarrow> bytes option" where
  "extent_content rd lba size' =
     map_option (\<lambda>ss. take (unat size') (concat ss)) (extent_sectors rd lba (sectors_of size'))"

lemma extent_sectors_append:
  "extent_sectors rd lba (m + n) = do {
     ss \<leftarrow> extent_sectors rd lba m; ts \<leftarrow> extent_sectors rd (lba + word_of_nat m) n; Some (ss @ ts) }"
  by (induction m arbitrary: lba) (auto simp: ac_simps split: Option.bind_splits)

context iso_source
begin

lemma extent_sectors_length:
  "extent_sectors rd lba n = Some ss \<Longrightarrow> length ss = n \<and> (\<forall>s\<in>set ss. length s = 2048) \<and> length (concat ss) = n * 2048"
  by (induction n arbitrary: lba ss) (auto dest: rd_2048 split: Option.bind_splits)

lemma extent_loop_content:
  "extent_sectors rd cur n = Some ss \<Longrightarrow> off < 2048 \<Longrightarrow> off + rem \<le> n * 2048 \<Longrightarrow>
     extent_loop rd cur off rem = take rem (drop off (concat ss))"
proof (induction n arbitrary: cur ss off rem)
  case 0
  then show ?case by (simp add: extent_loop.simps)
next
  case (Suc n)
  then obtain s ts where s: "rd cur = Some s" "extent_sectors rd (cur + 1) n = Some ts" "ss = s # ts"
    by (auto split: Option.bind_splits)
  have l: "length s = 2048" by (rule rd_2048 [OF s(1)])
  show ?case
  proof (cases "rem \<le> 2048 - off")
    case True
    then show ?thesis using s l Suc.prems(2)
      by (subst extent_loop.simps) (simp add: Let_def min_def extent_loop.simps [of _ _ _ 0])
  next
    case False
    have "extent_loop rd (cur + 1) 0 (rem - (2048 - off)) = take (rem - (2048 - off)) (drop 0 (concat ts))"
      by (rule Suc.IH [OF s(2)]) (use False Suc.prems in auto)
    then show ?thesis using False s l Suc.prems(2)
      by (subst extent_loop.simps) (simp add: Let_def min_def)
  qed
qed

lemma read_extent_content:
  assumes c: "extent_content rd lba size' = Some c"
  shows "read_extent_data rd lba size' off n = take n (drop (unat off) c)" and "length c = unat size'"
proof -
  obtain ss where ss: "extent_sectors rd lba (sectors_of size') = Some ss" "c = take (unat size') (concat ss)"
    using c by (auto simp: extent_content_def)
  have len: "length (concat ss) = sectors_of size' * 2048" using extent_sectors_length [OF ss(1)] by blast
  have cover: "unat size' \<le> sectors_of size' * 2048" by (simp add: sectors_of_def)
  then show "length c = unat size'" using ss(2) len by simp
  show "read_extent_data rd lba size' off n = take n (drop (unat off) c)"
  proof (cases "off \<ge> ucast size'")
    case True
    have "unat size' \<le> unat off" using True by (simp add: word_le_nat_alt unsigned_ucast_eq take_bit_nat_eq_self less_trans [OF unsigned_less])
    then show ?thesis using True ss(2) by (simp add: read_extent_data_def)
  next
    case False
    have us: "unat (ucast size' :: u64) = unat size'"
      by (simp add: unsigned_ucast_eq take_bit_nat_eq_self less_trans [OF unsigned_less])
    have o: "unat off < unat size'" using False by (simp add: word_le_nat_alt us not_le)
    have u32: "unat size' < 2 ^ 32" using unsigned_less [of size', where ?'a = nat] by simp
    let ?k = "unat off div 2048" and ?r = "unat off mod 2048"
    let ?m = "min (unat size' - unat off) n"
    have k: "?k \<le> sectors_of size'" using o by (simp add: sectors_of_def div_le_mono)
    have st: "(ucast (off div 2048) :: u32) = word_of_nat ?k"
      by (rule unsigned_word_eqI [where ?'a = nat]) (simp add: unsigned_ucast_eq unsigned_of_nat unat_div)
    have mm: "unat (off mod 2048) = ?r" by (simp add: unat_mod)
    have dd: "unat (ucast size' - off) = unat size' - unat off"
      using o us by (subst unat_sub_no_wrap) simp_all
    obtain ts where ts: "extent_sectors rd (lba + word_of_nat ?k) (sectors_of size' - ?k) = Some ts"
      "concat ss = take (?k * 2048) (concat ss) @ concat ts"
    proof -
      have "extent_sectors rd lba (?k + (sectors_of size' - ?k)) = Some ss" using ss(1) k by simp
      then obtain a b where ab: "extent_sectors rd lba ?k = Some a"
        "extent_sectors rd (lba + word_of_nat ?k) (sectors_of size' - ?k) = Some b" "ss = a @ b"
        unfolding extent_sectors_append by (auto split: Option.bind_splits)
      have "length (concat a) = ?k * 2048" using extent_sectors_length [OF ab(1)] by blast
      with ab that [of b] show ?thesis by simp
    qed
    have rm: "unat off = ?k * 2048 + ?r" by simp
    have "unat size' - ?k * 2048 \<le> (sectors_of size' - ?k) * 2048" using cover by (simp add: diff_mult_distrib)
    moreover have "?r + ?m \<le> unat size' - ?k * 2048" using rm o by linarith
    ultimately have "?r + ?m \<le> (sectors_of size' - ?k) * 2048" by (rule order_trans [rotated])
    then have "extent_loop rd (lba + word_of_nat ?k) ?r ?m = take ?m (drop ?r (concat ts))"
      by (intro extent_loop_content [OF ts(1)]) simp_all
    also have "drop ?r (concat ts) = drop (unat off) (concat ss)"
    proof -
      have "length (take (?k * 2048) (concat ss)) = ?k * 2048" using len k by simp
      then have "drop (?k * 2048) (concat ss) = concat ts" using ts(2) by (metis append_eq_conv_conj)
      then show ?thesis using rm by (metis drop_drop add.commute)
    qed
    also have "take ?m (drop (unat off) (concat ss)) = take n (drop (unat off) c)"
      by (simp add: ss(2) drop_take min.commute)
    finally show ?thesis using False by (simp add: read_extent_data_def Let_def st mm dd)
  qed
qed

end

end
