(* ===== verification/EfiIsoFsFiles.thy ===== *)
theory EfiIsoFsFiles
  imports EfiIsoFsCorrect
begin

text \<open>
  File handles of the ISO file system: the handles a client can come by, the invariant they satisfy and the
  content they read. A sequence of reads delivers the content from the position on, in order and without gaps.
\<close>

section \<open>Content and invariant\<close>

definition file_content :: "iso_fs_ctx \<Rightarrow> virtual_file \<Rightarrow> bytes option" where
  "file_content ctx vf =
     (if vf_is_synthetic vf then map_option (take (vf_synthetic_size vf)) (vf_synthetic_buf vf)
      else extent_content (read_iso_sector ctx) (vf_extent_lba vf) (vf_extent_size vf))"

definition ctx_ok :: "iso_fs_ctx \<Rightarrow> bool" where
  "ctx_ok ctx \<longleftrightarrow> (\<forall>buf. ix_cpio_buf ctx = Some buf \<longrightarrow> ix_cpio_size ctx \<le> length buf) \<and> ix_cpio_size ctx < 2 ^ 64
     \<and> length (ix_target_name ctx) = 16"

definition handle_ok :: "virtual_file \<Rightarrow> bool" where
  "handle_ok vf \<longleftrightarrow> \<not> vf_patched vf
     \<and> (vf_is_synthetic vf \<longrightarrow> \<not> vf_is_dir vf \<and> vf_synthetic_size vf < 2 ^ 64
          \<and> (\<exists>buf. vf_synthetic_buf vf = Some buf \<and> vf_synthetic_size vf \<le> length buf))
     \<and> (\<not> vf_is_dir vf \<longrightarrow> vf_position vf \<le> file_size_of vf)"

inductive iso_handle :: "iso_fs_ctx \<Rightarrow> virtual_file \<Rightarrow> bool" for ctx where
  volume: "sfs_open_volume ctx pool = Inr vf \<Longrightarrow> iso_handle ctx vf"
| opened: "iso_handle ctx dir \<Longrightarrow> file_open ctx dir name pool = Inr vf \<Longrightarrow> iso_handle ctx vf"
| positioned: "iso_handle ctx vf \<Longrightarrow> file_set_position vf p = Inr vf' \<Longrightarrow> iso_handle ctx vf'"
| read: "iso_handle ctx vf \<Longrightarrow> file_read_file ctx vf n = Inr (out, vf') \<Longrightarrow> iso_handle ctx vf'"
| listed: "iso_handle ctx vf \<Longrightarrow> file_read_dir ctx vf n = (r, vf') \<Longrightarrow> iso_handle ctx vf'"

lemma unat_ucast64: "unat (ucast (x :: u32) :: u64) = unat x"
  by (simp add: unsigned_ucast_eq take_bit_nat_eq_self less_trans [OF unsigned_less])

lemma file_size_eq:
  "handle_ok vf \<Longrightarrow> unat (file_size_of vf) = (if vf_is_synthetic vf then vf_synthetic_size vf else unat (vf_extent_size vf))"
  by (auto simp: handle_ok_def file_size_of_def unat_ucast64 unsigned_of_nat take_bit_nat_eq_self)

text \<open>A read of a file is a slice of its content, whatever the length asked for.\<close>

lemma content_length:
  "handle_ok vf \<Longrightarrow> file_content ctx vf = Some c \<Longrightarrow> length c = unat (file_size_of vf)"
  using file_size_eq [of vf]
  by (auto simp: file_content_def handle_ok_def isofs.read_extent_content(2) split: if_splits)

lemma read_memory_slice:
  assumes "limit \<le> length buf"
  shows "read_memory buf limit vf n =
     (let out = take n (drop (unat (vf_position vf)) (take limit buf)) in (out, vf\<lparr>vf_position := vf_position vf + word_of_nat (length out)\<rparr>))"
proof -
  have whole: "read_memory c (length c) vf n =
      (let out = take n (drop (unat (vf_position vf)) c) in (out, vf\<lparr>vf_position := vf_position vf + word_of_nat (length out)\<rparr>))" for c
    by (auto simp: read_memory_def Let_def min_def)
  have "read_memory buf limit vf n = read_memory (take limit buf) limit vf n"
    by (auto simp: read_memory_def Let_def drop_take)
  then show ?thesis using whole [of "take limit buf"] assms by simp
qed

lemma read_file_slice:
  assumes "handle_ok vf" "\<not> vf_is_dir vf" "file_content ctx vf = Some c"
  shows "file_read_file ctx vf n =
     Inr (take n (drop (unat (vf_position vf)) c),
          vf\<lparr>vf_position := vf_position vf + word_of_nat (length (take n (drop (unat (vf_position vf)) c)))\<rparr>)"
proof (cases "vf_is_synthetic vf")
  case True
  then show ?thesis using assms
    by (auto simp: file_read_file_def file_content_def handle_ok_def read_memory_slice Let_def)
next
  case False
  then show ?thesis using assms
    by (auto simp: file_read_file_def file_content_def handle_ok_def isofs.read_extent_content(1) Let_def)
qed

lemma position_advance:
  assumes "p \<le> s" "k \<le> unat s - unat p"
  shows "unat (p + word_of_nat k) = unat p + k" and "p + word_of_nat k \<le> (s :: u64)"
proof -
  have "unat p + k < 2 ^ 64" using assms unsigned_less [of s, where ?'a = nat] by (simp add: word_le_nat_alt)
  then show e: "unat (p + word_of_nat k) = unat p + k"
    by (simp add: unat_word_ariths(1) unsigned_of_nat take_bit_eq_mod)
  show "p + word_of_nat k \<le> s" unfolding word_le_nat_alt e using assms by (simp add: word_le_nat_alt)
qed

lemma extent_loop_length: "length (extent_loop rd cur off n) \<le> n"
proof (induction rd cur off n rule: extent_loop.induct)
  case (1 rd cur off n)
  show ?case
  proof (cases "n = 0 \<or> rd cur = None")
    case False
    then obtain s where s: "rd cur = Some s" "n \<noteq> 0" by auto
    from "1.IH" [OF s(2,1) refl]
    have "length (extent_loop rd (cur + 1) 0 (n - min n (2048 - off))) \<le> n - min n (2048 - off)" .
    moreover have "min (length s - off) (min n (2048 - off)) \<le> min n (2048 - off)" "min n (2048 - off) \<le> n"
      by (rule min.cobounded2, rule min.cobounded1)
    ultimately have "min (length s - off) (min n (2048 - off)) + length (extent_loop rd (cur + 1) 0 (n - min n (2048 - off))) \<le> n"
      by linarith
    then show ?thesis using s by (subst extent_loop.simps) (simp add: Let_def)
  qed (auto simp: extent_loop.simps [of rd cur off n])
qed

lemma read_extent_length:
  "length (read_extent_data rd lba size' off n) \<le> min n (unat size' - unat off)"
proof (cases "off \<ge> ucast size'")
  case False
  then have "unat (ucast size' - off) = unat size' - unat off"
    by (subst unat_sub_no_wrap) (auto simp: unat_ucast64 not_le word_less_nat_alt dest: order_less_imp_le)
  then show ?thesis
    using extent_loop_length [of rd "lba + ucast (off div 2048)" "unat (off mod 2048)" "min (unat size' - unat off) n"]
    by (simp add: read_extent_data_def Let_def)
qed (simp add: read_extent_data_def)

lemma read_file_step:
  assumes "handle_ok vf" "file_read_file ctx vf n = Inr (out, vf')"
  shows "length out \<le> unat (file_size_of vf) - unat (vf_position vf)"
    and "vf' = vf\<lparr>vf_position := vf_position vf + word_of_nat (length out)\<rparr>"
proof -
  have d: "\<not> vf_is_dir vf" using assms(2) by (simp add: file_read_file_def split: if_splits)
  have "length out \<le> unat (file_size_of vf) - unat (vf_position vf) \<and> vf' = vf\<lparr>vf_position := vf_position vf + word_of_nat (length out)\<rparr>"
  proof (cases "vf_is_synthetic vf")
    case True
    then obtain c where c: "file_content ctx vf = Some c" using assms(1) by (auto simp: file_content_def handle_ok_def)
    show ?thesis using assms read_file_slice [OF assms(1) d c] content_length [OF assms(1) c] by auto
  next
    case False
    then show ?thesis
      using assms d read_extent_length [of "read_iso_sector ctx" "vf_extent_lba vf" "vf_extent_size vf" "vf_position vf" n]
        file_size_eq [OF assms(1)]
      by (auto simp: file_read_file_def handle_ok_def Let_def split: if_splits)
  qed
  then show "length out \<le> unat (file_size_of vf) - unat (vf_position vf)"
    and "vf' = vf\<lparr>vf_position := vf_position vf + word_of_nat (length out)\<rparr>" by auto
qed

lemma file_size_of_position [simp]: "file_size_of (vf\<lparr>vf_position := p\<rparr>) = file_size_of vf"
  by (simp add: file_size_of_def)

lemma read_file_ok:
  assumes "handle_ok vf" "file_read_file ctx vf n = Inr (out, vf')"
  shows "handle_ok vf'"
  using assms(1) position_advance(2) [OF _ read_file_step(1) [OF assms]] read_file_step(2) [OF assms]
  by (auto simp: handle_ok_def)

lemma set_position_ok: "handle_ok vf \<Longrightarrow> file_set_position vf p = Inr vf' \<Longrightarrow> handle_ok vf'"
  by (auto simp: file_set_position_def handle_ok_def split: if_splits)

lemma open_ok: "ctx_ok ctx \<Longrightarrow> file_open ctx dir name pool = Inr vf \<Longrightarrow> handle_ok vf"
  by (auto simp: file_open_def handle_ok_def ctx_ok_def new_virtual_file_def alloc_virtual_file_def file_size_of_def
      split: if_splits option.splits)

lemma read_dir_keeps: "file_read_dir ctx vf n = (r, vf') \<Longrightarrow> vf_is_dir vf \<or> vf' = vf"
  by (cases "vf_is_dir vf") (simp_all add: file_read_dir_def)

lemma read_dir_ok: "handle_ok vf \<Longrightarrow> file_read_dir ctx vf n = (r, vf') \<Longrightarrow> handle_ok vf'"
  by (auto simp: file_read_dir_def handle_ok_def read_dir_phase2_def Let_def
      split: if_splits option.splits sum.splits dir_run.splits)

lemma handle_ok: "iso_handle ctx vf \<Longrightarrow> ctx_ok ctx \<Longrightarrow> handle_ok vf"
proof (induction rule: iso_handle.induct)
  case (volume pool vf)
  then show ?case
    by (auto simp: sfs_open_volume_def new_virtual_file_def handle_ok_def split: if_splits)
qed (auto intro: open_ok set_position_ok read_file_ok read_dir_ok)

section \<open>Sequences of reads\<close>

text \<open>The reads of a client: the lengths it asks for, one after the other.\<close>

fun read_seq :: "iso_fs_ctx \<Rightarrow> virtual_file \<Rightarrow> nat list \<Rightarrow> efi_error + (bytes list \<times> virtual_file)" where
  "read_seq ctx vf [] = Inr ([], vf)"
| "read_seq ctx vf (n # ns) =
     (case file_read_file ctx vf n of
        Inl e \<Rightarrow> Inl e
      | Inr (out, vf1) \<Rightarrow> (case read_seq ctx vf1 ns of Inl e \<Rightarrow> Inl e | Inr (outs, vf2) \<Rightarrow> Inr (out # outs, vf2)))"

lemma file_content_position [simp]: "file_content ctx (vf\<lparr>vf_position := p\<rparr>) = file_content ctx vf"
  by (simp add: file_content_def)

lemma read_seq_content:
  "handle_ok vf \<Longrightarrow> \<not> vf_is_dir vf \<Longrightarrow> file_content ctx vf = Some c \<Longrightarrow>
   \<exists>outs vf'. read_seq ctx vf ns = Inr (outs, vf') \<and> concat outs = take (sum_list ns) (drop (unat (vf_position vf)) c)
      \<and> unat (vf_position vf') = min (length c) (unat (vf_position vf) + sum_list ns)"
proof (induction ns arbitrary: vf)
  case Nil
  then show ?case using content_length [OF Nil(1,3)] by (simp add: handle_ok_def word_le_nat_alt min_def)
next
  case (Cons n ns)
  let ?out = "take n (drop (unat (vf_position vf)) c)"
  let ?vf1 = "vf\<lparr>vf_position := vf_position vf + word_of_nat (length ?out)\<rparr>"
  have r: "file_read_file ctx vf n = Inr (?out, ?vf1)" by (rule read_file_slice [OF Cons.prems])
  have ok: "handle_ok ?vf1" by (rule read_file_ok [OF Cons.prems(1) r])
  have le: "vf_position vf \<le> file_size_of vf" using Cons.prems(1,2) by (simp add: handle_ok_def)
  have p: "unat (vf_position ?vf1) = unat (vf_position vf) + length ?out"
    using position_advance(1) [OF le read_file_step(1) [OF Cons.prems(1) r]] by simp
  have cl: "unat (vf_position vf) \<le> length c"
    using le content_length [OF Cons.prems(1,3)] by (simp add: word_le_nat_alt)
  obtain outs vf' where ih: "read_seq ctx ?vf1 ns = Inr (outs, vf')"
    "concat outs = take (sum_list ns) (drop (unat (vf_position ?vf1)) c)"
    "unat (vf_position vf') = min (length c) (unat (vf_position ?vf1) + sum_list ns)"
    using Cons.IH [OF ok] Cons.prems by auto
  have "?out @ concat outs = take (n + sum_list ns) (drop (unat (vf_position vf)) c)"
    unfolding ih(2) p by (cases "n \<le> length c - unat (vf_position vf)") (simp_all add: take_add ac_simps)
  moreover have "unat (vf_position vf') = min (length c) (unat (vf_position vf) + (n + sum_list ns))"
    unfolding ih(3) p using cl by (auto simp: min_def)
  ultimately show ?case using ih(1) r by simp
qed

end
