(* ===== verification/EfiIsoFsDir.thy ===== *)
theory EfiIsoFsDir
  imports EfiIsoFsFiles
begin

text \<open>
  Directory listings of the ISO file system: the entries a directory holds, the calls of \<open>file_read_dir\<close> as a
  machine that delivers them, and names looked up in the same records.
\<close>

section \<open>The entries of a directory\<close>

record iso_entry =
  ie_name :: bytes
  ie_extent :: u32
  ie_size :: u32
  ie_is_dir :: bool

definition record_entry :: "bytes \<Rightarrow> nat \<Rightarrow> iso_entry" where
  "record_entry scratch off =
     (let iso_name = take (unat (scratch ! (off + 32))) (drop (off + 33) scratch)
      in \<lparr>ie_name = take (iso_name_effective_len iso_name) iso_name,
          ie_extent = from_le (take 4 (drop (off + 2) scratch)),
          ie_size = from_le (take 4 (drop (off + 10) scratch)),
          ie_is_dir = (scratch ! (off + 25) AND 0x02 \<noteq> 0)\<rparr>)"

text \<open>A record lies within its sector and its name within the record.\<close>

definition record_fits :: "bytes \<Rightarrow> nat \<Rightarrow> bool" where
  "record_fits scratch off \<longleftrightarrow>
     34 \<le> unat (scratch ! off) \<and> off + unat (scratch ! off) \<le> 2048 \<and> 33 + unat (scratch ! (off + 32)) \<le> unat (scratch ! off)"

text \<open>The entries from a place on: a malformed record or an empty sector ends the directory, a device error is \<open>None\<close>.\<close>

function dir_walk :: "(u32 \<Rightarrow> bytes option) \<Rightarrow> u32 \<Rightarrow> nat \<Rightarrow> nat \<Rightarrow> nat \<Rightarrow> bytes \<Rightarrow> iso_entry list option" where
  "dir_walk rd lba total_sectors sector byte scratch =
     (if byte + 34 > 2048 \<or> scratch ! byte = 0 then
        (if sector + 1 \<ge> total_sectors then Some []
         else case rd (lba + word_of_nat (sector + 1)) of
           None \<Rightarrow> None
         | Some s \<Rightarrow> if byte > 0 \<and> s ! 0 = 0 then Some [] else dir_walk rd lba total_sectors (sector + 1) 0 s)
      else if \<not> record_fits scratch byte then Some []
      else map_option ((#) (record_entry scratch byte))
             (dir_walk rd lba total_sectors sector (byte + unat (scratch ! byte)) scratch))"
  by pat_completeness auto

termination
  by (relation "measures [\<lambda>(rd, lba, total, sector, byte, s). total - sector, \<lambda>(rd, lba, total, sector, byte, s). 2048 - byte]")
     (auto simp: record_fits_def)

declare dir_walk.simps [simp del]

definition entry_info :: "iso_entry \<Rightarrow> bytes" where
  "entry_info e = dir_info (ie_name e) (ucast (ie_size e)) (if ie_is_dir e then 1 else 0)"

text \<open>The loop of a call delivers the entries of the walk as long as they fit and leaves the rest to the cursor.\<close>

definition run_delivers :: "(u32 \<Rightarrow> bytes option) \<Rightarrow> u32 \<Rightarrow> nat \<Rightarrow> nat \<Rightarrow> bytes \<Rightarrow> iso_entry list \<Rightarrow> dir_run \<Rightarrow> bool" where
  "run_delivers rd lba total_sectors buf_sz out es r \<longleftrightarrow>
     (case r of
        Dir_finished out' \<Rightarrow> out' = out @ concat (map entry_info es)
      | Dir_cursor s b out' \<Rightarrow>
          s < total_sectors \<and> b \<le> 2048 \<and>
          (\<exists>k\<le>length es. out' = out @ concat (map entry_info (take k es)) \<and>
             (k = 0 \<longrightarrow> out = [] \<longrightarrow> buf_sz < 82) \<and>
             (\<exists>scratch. rd (lba + word_of_nat s) = Some scratch \<and> dir_walk rd lba total_sectors s b scratch = Some (drop k es)))
      | Dir_error _ \<Rightarrow> False
      | Dir_small n \<Rightarrow> out = [] \<and> es \<noteq> [] \<and> n = length (entry_info (hd es)) \<and> n > buf_sz)"

lemma info_bytes_length [len_simps]: "length (info_bytes a b c) = 80"
  by (simp add: info_bytes_def)

lemma dir_info_length [len_simps]: "length (dir_info name a b) = info_size (length name)"
proof -
  have "80 + (length name + 1) * 2 \<le> info_size (length name)" unfolding info_size_def by linarith
  moreover have "length (concat (map (\<lambda>c. [c, 0 :: u8]) name)) = 2 * length name" by (induction name) auto
  ultimately show ?thesis by (simp add: dir_info_def info_bytes_length)
qed

lemma record_entry_name: "ie_name (record_entry scratch off) =
   take (iso_name_effective_len (take (unat (scratch ! (off + 32))) (drop (off + 33) scratch)))
        (take (unat (scratch ! (off + 32))) (drop (off + 33) scratch))"
  by (simp add: record_entry_def Let_def)

lemma delivers_stop:
  "rd (lba + word_of_nat sector) = Some scratch \<Longrightarrow> dir_walk rd lba total_sectors sector byte scratch = Some es \<Longrightarrow>
   sector < total_sectors \<Longrightarrow> byte \<le> 2048 \<Longrightarrow> out = [] \<longrightarrow> buf_sz < 82 \<Longrightarrow>
   run_delivers rd lba total_sectors buf_sz out es (Dir_cursor sector byte out)"
  unfolding run_delivers_def by (auto intro!: exI [of _ 0])

lemma delivers_cons:
  assumes "run_delivers rd lba total_sectors buf_sz (out @ entry_info e) es r"
  shows "run_delivers rd lba total_sectors buf_sz out (e # es) r"
proof (cases r)
  case (Dir_cursor s b out')
  then obtain k where "k \<le> length es" "out' = (out @ entry_info e) @ concat (map entry_info (take k es))"
    "\<exists>scratch. rd (lba + word_of_nat s) = Some scratch \<and> dir_walk rd lba total_sectors s b scratch = Some (drop k es)"
    "s < total_sectors" "b \<le> 2048"
    using assms by (auto simp: run_delivers_def)
  then show ?thesis using Dir_cursor by (auto simp: run_delivers_def intro!: exI [of _ "Suc k"])
next
  case (Dir_small n)
  then have "entry_info e = []" using assms by (simp add: run_delivers_def)
  then have "length (entry_info e) = 0" by simp
  then show ?thesis by (simp add: entry_info_def len_simps info_size_def)
qed (use assms in \<open>auto simp: run_delivers_def\<close>)

text \<open>The loop, one branch at a time.\<close>

lemma loop_full:
  "buf_sz < length out + 82 \<Longrightarrow> read_dir_loop rd lba total_sectors buf_sz sector byte scratch out = Dir_cursor sector byte out"
  by (subst read_dir_loop.simps) simp

lemma loop_advance:
  assumes "length out + 82 \<le> buf_sz" "byte + 34 > 2048 \<or> scratch ! byte = 0"
  shows "read_dir_loop rd lba total_sectors buf_sz sector byte scratch out =
    (if sector + 1 \<ge> total_sectors then Dir_finished out
     else case rd (lba + word_of_nat (sector + 1)) of
       None \<Rightarrow> Dir_error (sector + 1)
     | Some s \<Rightarrow> if byte > 0 \<and> s ! 0 = 0 then Dir_finished out
         else read_dir_loop rd lba total_sectors buf_sz (sector + 1) 0 s out)"
proof (cases "byte + 34 > 2048 \<or> byte > 0 \<and> scratch ! byte = 0")
  case True
  then have "byte > 0" by auto
  with True assms(1) show ?thesis by (subst read_dir_loop.simps) (simp split: option.split)
next
  case False
  with assms show ?thesis by (subst read_dir_loop.simps) (simp split: option.split)
qed

lemma loop_malformed:
  assumes "length out + 82 \<le> buf_sz" "\<not> (byte + 34 > 2048 \<or> scratch ! byte = 0)" "\<not> record_fits scratch byte"
  shows "read_dir_loop rd lba total_sectors buf_sz sector byte scratch out = Dir_finished out"
proof -
  have c: "\<not> buf_sz < length out + 80 + 2" "\<not> (2048 < byte + 34 \<or> 0 < byte \<and> scratch ! byte = 0)"
      "unat (scratch ! byte) \<noteq> 0"
      "\<not> (unat (scratch ! byte) < 34 \<or> 2048 < byte + unat (scratch ! byte)) \<Longrightarrow>
        unat (scratch ! byte) < 33 + unat (scratch ! (byte + 32)) \<or> 2048 < byte + 33 + unat (scratch ! (byte + 32))"
    using assms by (auto simp: record_fits_def unat_gt_0)
  then show ?thesis
    by (cases "unat (scratch ! byte) < 34 \<or> 2048 < byte + unat (scratch ! byte)")
       (subst read_dir_loop.simps, simp only: c if_False if_True Let_def)+
qed

lemma loop_entry:
  assumes "length out + 82 \<le> buf_sz" "\<not> (byte + 34 > 2048 \<or> scratch ! byte = 0)" "record_fits scratch byte"
  shows "read_dir_loop rd lba total_sectors buf_sz sector byte scratch out =
    (let info = entry_info (record_entry scratch byte)
     in if length out + length info > buf_sz then (if out = [] then Dir_small (length info) else Dir_cursor sector byte out)
        else read_dir_loop rd lba total_sectors buf_sz sector (byte + unat (scratch ! byte)) scratch (out @ info))"
proof -
  have c: "\<not> buf_sz < length out + 80 + 2" "\<not> (2048 < byte + 34 \<or> 0 < byte \<and> scratch ! byte = 0)"
      "unat (scratch ! byte) \<noteq> 0"
      "\<not> (unat (scratch ! byte) < 34 \<or> 2048 < byte + unat (scratch ! byte))"
      "\<not> (unat (scratch ! byte) < 33 + unat (scratch ! (byte + 32)) \<or> 2048 < byte + 33 + unat (scratch ! (byte + 32)))"
    using assms by (auto simp: record_fits_def)
  show ?thesis
    by (subst read_dir_loop.simps)
       (simp only: c if_False Let_def entry_info_def dir_info_length record_entry_def iso_entry.select_convs)
qed

lemma walk_advance:
  "byte + 34 > 2048 \<or> scratch ! byte = 0 \<Longrightarrow> dir_walk rd lba total_sectors sector byte scratch =
     (if sector + 1 \<ge> total_sectors then Some []
      else case rd (lba + word_of_nat (sector + 1)) of
        None \<Rightarrow> None
      | Some s \<Rightarrow> if byte > 0 \<and> s ! 0 = 0 then Some [] else dir_walk rd lba total_sectors (sector + 1) 0 s)"
  by (subst dir_walk.simps) simp

lemma walk_malformed:
  "\<not> (byte + 34 > 2048 \<or> scratch ! byte = 0) \<Longrightarrow> \<not> record_fits scratch byte \<Longrightarrow>
     dir_walk rd lba total_sectors sector byte scratch = Some []"
  by (subst dir_walk.simps) simp

lemma walk_entry:
  "\<not> (byte + 34 > 2048 \<or> scratch ! byte = 0) \<Longrightarrow> record_fits scratch byte \<Longrightarrow>
     dir_walk rd lba total_sectors sector byte scratch =
       map_option ((#) (record_entry scratch byte)) (dir_walk rd lba total_sectors sector (byte + unat (scratch ! byte)) scratch)"
  by (subst dir_walk.simps) simp

lemma delivers_finished: "run_delivers rd lba total_sectors buf_sz out [] (Dir_finished out)"
  by (simp add: run_delivers_def)

lemma read_dir_loop_delivers:
  "dir_walk rd lba total_sectors sector byte scratch = Some es \<Longrightarrow> rd (lba + word_of_nat sector) = Some scratch \<Longrightarrow>
   sector < total_sectors \<Longrightarrow> byte \<le> 2048 \<Longrightarrow>
   run_delivers rd lba total_sectors buf_sz out es (read_dir_loop rd lba total_sectors buf_sz sector byte scratch out)"
proof (induction rd lba total_sectors sector byte scratch arbitrary: es out rule: dir_walk.induct)
  case (1 rd lba total_sectors sector byte scratch)
  note walk = "1.prems"(1)
  show ?case
  proof (cases "length out + 82 \<le> buf_sz")
    case False
    then have "out = [] \<longrightarrow> buf_sz < 82" by auto
    with False show ?thesis using delivers_stop [OF "1.prems"(2,1,3,4)] by (simp add: loop_full)
  next
    case room: True
    consider (advance) "byte + 34 > 2048 \<or> scratch ! byte = 0"
      | (bad) "\<not> (byte + 34 > 2048 \<or> scratch ! byte = 0)" "\<not> record_fits scratch byte"
      | (entry) "\<not> (byte + 34 > 2048 \<or> scratch ! byte = 0)" "record_fits scratch byte" by blast
    then show ?thesis
    proof cases
      case advance
      then show ?thesis
        using walk "1.IH"(1) [OF advance] unfolding loop_advance [OF room advance] walk_advance [OF advance]
        by (auto simp: delivers_finished split: option.splits if_splits)
    next
      case bad
      then show ?thesis using walk room by (simp add: walk_malformed loop_malformed delivers_finished)
    next
      case entry
      let ?e = "record_entry scratch byte"
      obtain es' where es': "dir_walk rd lba total_sectors sector (byte + unat (scratch ! byte)) scratch = Some es'" "es = ?e # es'"
        using walk unfolding walk_entry [OF entry] by auto
      have b: "byte + unat (scratch ! byte) \<le> 2048" using entry(2) by (simp add: record_fits_def)
      have rest: "run_delivers rd lba total_sectors buf_sz (out @ entry_info ?e) es'
         (read_dir_loop rd lba total_sectors buf_sz sector (byte + unat (scratch ! byte)) scratch (out @ entry_info ?e))"
        using "1.IH"(2) [OF entry(1) _ es'(1) "1.prems"(2,3) b] entry(2) by simp
      have small: "out = [] \<Longrightarrow> buf_sz < length (entry_info ?e) \<Longrightarrow>
          run_delivers rd lba total_sectors buf_sz out es (Dir_small (length (entry_info ?e)))"
        unfolding es'(2) by (simp add: run_delivers_def)
      show ?thesis
        using delivers_cons [OF rest] small delivers_stop [OF "1.prems"(2,1,3,4), of out buf_sz]
        unfolding loop_entry [OF room entry] Let_def es'(2) by simp
    qed
  qed
qed

section \<open>The cursor\<close>

lemma le_or_nat: "(m :: nat) \<le> m OR n"
  using or_greater_eq [of "int n" "int m"] by (simp add: or_nat_def nat_le_iff le_nat_iff)

lemma cursor_sector:
  assumes "s < 2 ^ 32" "unat (drop_bit 16 low) < 2 ^ 32"
  shows "unat (ucast (drop_bit 16 (dir_position s low)) :: u32) = s OR unat (drop_bit 16 low)"
proof -
  have "drop_bit 16 (dir_position s low) = take_bit 48 (word_of_nat s) OR drop_bit 16 low"
    unfolding dir_position_def by (rule bit_eqI) (auto simp: bit_simps)
  then show ?thesis using assms
    by (simp add: unsigned_ucast_eq unsigned_or_eq unsigned_take_bit_eq unsigned_of_nat take_bit_nat_eq_self)
qed

lemma cursor_byte:
  assumes "b < 2 ^ 16"
  shows "unat (dir_position s (word_of_nat b) AND 0xFFFF) = b"
proof -
  have m: "x AND 0xFFFF = take_bit 16 x" for x :: u64
    by (simp add: take_bit_eq_mask mask_eq_exp_minus_1)
  have "take_bit 16 (dir_position s (word_of_nat b)) = take_bit 16 (word_of_nat b)"
    unfolding dir_position_def by (rule bit_eqI) (auto simp: bit_simps)
  then show ?thesis using assms by (simp add: m unsigned_take_bit_eq unsigned_of_nat take_bit_nat_eq_self)
qed

lemma walk_names_short:
  "dir_walk rd lba total_sectors sector byte scratch = Some es \<Longrightarrow> e \<in> set es \<Longrightarrow> length (ie_name e) \<le> 222"
proof (induction rd lba total_sectors sector byte scratch arbitrary: es rule: dir_walk.induct)
  case (1 rd lba total_sectors sector byte scratch)
  have small: "length (ie_name (record_entry scratch byte)) \<le> 222" if "record_fits scratch byte"
  proof -
    have "unat (scratch ! byte) < 256" using unsigned_less [of "scratch ! byte", where ?'a = nat] by simp
    then show ?thesis using that by (simp add: record_entry_def record_fits_def Let_def min_le_iff_disj)
  qed
  show ?case
    using "1.prems" "1.IH"
    by (subst (asm) dir_walk.simps) (auto simp: small split: if_splits option.splits)
qed

lemma walk_entries_small:
  "dir_walk rd lba total_sectors sector byte scratch = Some es \<Longrightarrow> e \<in> set es \<Longrightarrow> length (entry_info e) \<le> 528"
  using walk_names_short [of rd lba total_sectors sector byte scratch es e] by (simp add: entry_info_def len_simps info_size_def)

section \<open>Names found among the entries\<close>

definition same_name :: "bytes \<Rightarrow> bytes \<Rightarrow> bool" where
  "same_name a b \<longleftrightarrow> map to_ascii_uppercase a = map to_ascii_uppercase b"

lemma match_same_name:
  "match_iso_name (take (unat (scratch ! (off + 32))) (drop (off + 33) scratch)) name \<longleftrightarrow>
     same_name (ie_name (record_entry scratch off)) (ucs2_name name)"
  by (simp add: match_iso_name_def record_entry_def same_name_def Let_def)

lemma lookup_records_none: "off + 34 > 2048 \<or> scratch ! off = 0 \<Longrightarrow> lookup_records name scratch off = None"
  by (subst lookup_records.simps) auto

lemma lookup_records_entry:
  assumes "\<not> (off + 34 > 2048 \<or> scratch ! off = 0)" "record_fits scratch off"
  shows "lookup_records name scratch off =
    (let e = record_entry scratch off
     in if same_name (ie_name e) (ucs2_name name) then Some (ie_extent e, ie_size e, ie_is_dir e)
        else lookup_records name scratch (off + unat (scratch ! off)))"
proof -
  have c: "off + 34 \<le> 2048" "unat (scratch ! off) \<noteq> 0"
      "\<not> (unat (scratch ! off) < 34 \<or> 2048 < off + unat (scratch ! off))"
      "\<not> (unat (scratch ! off) < 33 + unat (scratch ! (off + 32)) \<or> 2048 < off + 33 + unat (scratch ! (off + 32)))"
    using assms by (auto simp: record_fits_def)
  show ?thesis
    by (subst lookup_records.simps) (simp only: c if_True if_False Let_def match_same_name, simp add: record_entry_def Let_def)
qed

lemma lookup_finds:
  "dir_walk rd lba total_sectors sector byte scratch = Some es \<Longrightarrow>
   find (\<lambda>e. same_name (ie_name e) (ucs2_name name)) es = Some e \<Longrightarrow>
   (case lookup_records name scratch byte of
      Some r \<Rightarrow> Some r
    | None \<Rightarrow> lookup_sectors rd name lba (sector + 1) (total_sectors - (sector + 1))) = Some (ie_extent e, ie_size e, ie_is_dir e)"
proof (induction rd lba total_sectors sector byte scratch arbitrary: es rule: dir_walk.induct)
  case (1 rd lba total_sectors sector byte scratch)
  note walk = "1.prems"(1)
  consider (advance) "byte + 34 > 2048 \<or> scratch ! byte = 0"
    | (bad) "\<not> (byte + 34 > 2048 \<or> scratch ! byte = 0)" "\<not> record_fits scratch byte"
    | (entry) "\<not> (byte + 34 > 2048 \<or> scratch ! byte = 0)" "record_fits scratch byte" by blast
  then show ?case
  proof cases
    case advance
    obtain s where s: "sector + 1 < total_sectors" "rd (lba + word_of_nat (sector + 1)) = Some s"
      "dir_walk rd lba total_sectors (sector + 1) 0 s = Some es" "\<not> (0 < byte \<and> s ! 0 = 0)"
      using walk "1.prems"(2) unfolding walk_advance [OF advance] by (auto split: if_splits option.splits)
    obtain n where n: "total_sectors - (sector + 1) = Suc n" "total_sectors - (sector + 1 + 1) = n"
      using s(1) by (metis Suc_diff_Suc Suc_eq_plus1)
    have "(case lookup_records name s 0 of Some r \<Rightarrow> Some r
      | None \<Rightarrow> lookup_sectors rd name lba (sector + 1 + 1) (total_sectors - (sector + 1 + 1))) = Some (ie_extent e, ie_size e, ie_is_dir e)"
      using "1.IH"(1) [OF advance _ s(2,4,3) "1.prems"(2)] s(1) by simp
    then show ?thesis unfolding lookup_records_none [OF advance] n lookup_sectors.simps s(2) option.simps by simp
  next
    case bad
    then show ?thesis using walk "1.prems"(2) by (simp add: walk_malformed)
  next
    case entry
    obtain es' where es': "dir_walk rd lba total_sectors sector (byte + unat (scratch ! byte)) scratch = Some es'"
      "es = record_entry scratch byte # es'"
      using walk unfolding walk_entry [OF entry] by auto
    show ?thesis
      using "1.IH"(2) [OF entry(1) _ es'(1)] "1.prems"(2) entry(2)
      unfolding lookup_records_entry [OF entry] es'(2) by (auto simp: Let_def split: if_splits)
  qed
qed

lemma lookup_in_dir_finds:
  assumes "0 < sectors_of size'" "rd lba = Some scratch" "dir_walk rd lba (sectors_of size') 0 0 scratch = Some es"
    "find (\<lambda>e. same_name (ie_name e) (ucs2_name name)) es = Some e"
  shows "lookup_in_dir rd lba size' name = Some (ie_extent e, ie_size e, ie_is_dir e)"
proof -
  obtain n where n: "sectors_of size' = Suc n" using assms(1) gr0_conv_Suc by blast
  have e: "Suc n - (0 + 1) = n" by simp
  show ?thesis using lookup_finds [OF assms(3,4)] assms(2) unfolding lookup_in_dir_def n e by simp
qed

section \<open>Opening what a listing shows\<close>

lemma find_distinct:
  "distinct (map f es) \<Longrightarrow> e \<in> set es \<Longrightarrow> find (\<lambda>x. f x = f e) es = Some e"
  by (induction es) (auto simp: image_iff)

lemma from_last_paren_plain: "92 \<notin> set us \<Longrightarrow> from_last_paren us = None"
  by (induction us rule: from_last_paren.induct) auto

lemma ucs2_name_plain:
  assumes "length name \<le> 255" "\<forall>c\<in>set name. c \<noteq> 0 \<and> c < 0x80"
  shows "ucs2_name (map ucast name) = name"
proof -
  have c: "(ucast c :: u16) \<noteq> 0 \<and> (ucast c :: u16) < 0x80 \<and> ucast (ucast c :: u16) = c" if "c \<in> set name" for c :: u8
  proof -
    have u: "unat (ucast c :: u16) = unat c"
      by (simp add: unsigned_ucast_eq take_bit_nat_eq_self less_trans [OF unsigned_less])
    moreover have "unat c < 2 ^ 8" using unsigned_less [of c, where ?'a = nat] by simp
    then have "(ucast (ucast c :: u16) :: u8) = c"
      by (intro unsigned_word_eqI [where ?'a = nat]) (simp add: unsigned_ucast_eq [of "ucast c :: u16"] u take_bit_nat_eq_self)
    moreover have "c \<noteq> 0" "c < 0x80" using assms(2) that by auto
    ultimately show ?thesis by (auto simp: word_less_nat_alt unat_eq_0 [symmetric] simp del: unat_eq_0)
  qed
  have tw: "takeWhile (\<lambda>c. c \<noteq> 0) (map ucast name) = (map ucast name :: u16 list)"
    using c by (auto simp: takeWhile_eq_all_conv)
  have "map ((\<lambda>cp :: u16. if cp < 0x80 then ucast cp else 63) \<circ> ucast) name = name"
    using c by (auto intro!: map_idI)
  then show ?thesis using assms(1) unfolding ucs2_name_def tw map_map by simp
qed

lemma ucast_backslash: "(92 :: u16) = ucast (c :: u8) \<longleftrightarrow> c = 92"
proof -
  have "unat (ucast c :: u16) = unat c"
    by (simp add: unsigned_ucast_eq take_bit_nat_eq_self less_trans [OF unsigned_less])
  moreover have "unat (92 :: u16) = unat (92 :: u8)" by simp
  ultimately show ?thesis by (metis unsigned_word_eqI)
qed

lemma resolve_plain:
  assumes "us \<noteq> []" "92 \<notin> set us" "lookup_in_dir rd lba size' us = Some r"
  shows "resolve_path rd lba size' us = Some r"
proof -
  have t: "takeWhile (\<lambda>c. c \<noteq> 92) us = us" "dropWhile (\<lambda>c. c \<noteq> 92) us = []"
    using assms(2) by (auto simp: takeWhile_eq_all_conv dropWhile_eq_Nil_conv)
  have "hd us \<noteq> 92" using assms(1,2) hd_in_set by metis
  then have d: "dropWhile (\<lambda>c. c = 92) us = us" using assms(1) by (cases us) auto
  have "us \<noteq> [92]" using assms(2) by auto
  moreover obtain l s' dir where r: "r = (l, s', dir)" by (cases r)
  have "resolve_loop rd lba size' us = Some r"
    using assms(3) by (subst resolve_loop.simps) (simp add: t r)
  ultimately show ?thesis
    using assms(1) by (simp add: resolve_path_def from_last_paren_plain [OF assms(2)] d Let_def)
qed

end
