(* ===== verification/EfiIsoFsList.thy ===== *)
theory EfiIsoFsList
  imports EfiIsoFsDir
begin

text \<open>
  Listing a directory of the ISO file system call by call: an abstract machine with the entries still to come,
  and the handle's cursor as its representation.
\<close>

datatype listing = Entries "iso_entry list" | Premount | Listed

text \<open>The information the synthetic premount file is listed with; empty when there is no archive.\<close>

definition premount_info :: "iso_fs_ctx \<Rightarrow> bytes" where
  "premount_info ctx =
     (if ix_cpio_size ctx > 0 \<and> ix_cpio_buf ctx \<noteq> None then
        dir_info (if ix_target_len ctx > 0 then take (ix_target_len ctx) (ix_target_name ctx) else bstr ''PREMOUNT.CPIO'')
          (word_of_nat (ix_cpio_size ctx)) 0
      else [])"

definition after_entries :: "iso_fs_ctx \<Rightarrow> listing" where
  "after_entries ctx = (if premount_info ctx = [] then Listed else Premount)"

inductive list_step :: "iso_fs_ctx \<Rightarrow> listing \<Rightarrow> bytes \<Rightarrow> listing \<Rightarrow> bool" for ctx where
  some: "0 < k \<Longrightarrow> k \<le> length es \<Longrightarrow>
     list_step ctx (Entries es) (concat (map entry_info (take k es))) (Entries (drop k es))"
| rest: "list_step ctx (Entries es) (concat (map entry_info es)) (after_entries ctx)"
| premount: "list_step ctx Premount (premount_info ctx) Listed"
| listed: "list_step ctx Listed [] Listed"

text \<open>What the cursor of a handle stands for.\<close>

definition cursor_sector_of :: "virtual_file \<Rightarrow> nat" where
  "cursor_sector_of vf = unat (ucast (drop_bit 16 (vf_position vf)) :: u32)"

definition cursor_byte_of :: "virtual_file \<Rightarrow> nat" where
  "cursor_byte_of vf = unat (vf_position vf AND 0xFFFF)"

definition handle_listing :: "iso_fs_ctx \<Rightarrow> virtual_file \<Rightarrow> listing option" where
  "handle_listing ctx vf =
     (if cursor_sector_of vf < sectors_of (vf_extent_size vf) then
        (case read_iso_sector ctx (vf_extent_lba vf + word_of_nat (cursor_sector_of vf)) of
           None \<Rightarrow> None
         | Some scratch \<Rightarrow>
             map_option Entries (dir_walk (read_iso_sector ctx) (vf_extent_lba vf) (sectors_of (vf_extent_size vf))
               (cursor_sector_of vf) (cursor_byte_of vf) scratch))
      else if vf_position vf AND 0x10000 \<noteq> 0 \<and> \<not> vf_synthetic_injected vf then Some (after_entries ctx)
      else Some Listed)"

text \<open>A directory handle whose cursor is within a sector, and which has not offered the premount file before the entries are through.\<close>

definition dir_handle_ok :: "virtual_file \<Rightarrow> bool" where
  "dir_handle_ok vf \<longleftrightarrow> vf_is_dir vf \<and> cursor_byte_of vf \<le> 2048
     \<and> (vf_synthetic_injected vf \<longrightarrow> cursor_sector_of vf < sectors_of (vf_extent_size vf) \<longrightarrow> vf_position vf = 0)"

section \<open>One call is one step\<close>

lemma info_nonempty: "dir_info name a b \<noteq> []"
proof -
  have "0 < length (dir_info name a b)" by (simp add: dir_info_length info_size_def)
  then show ?thesis by simp
qed

lemma sectors_small: "sectors_of size' < 2 ^ 32"
  using unsigned_less [of size', where ?'a = nat] by (simp add: sectors_of_def)

lemma cursor_position [simp]:
  "s < 2 ^ 32 \<Longrightarrow> b \<le> 2048 \<Longrightarrow> cursor_sector_of (vf\<lparr>vf_position := dir_position s (word_of_nat b)\<rparr>) = s"
  "b \<le> 2048 \<Longrightarrow> cursor_byte_of (vf\<lparr>vf_position := dir_position s (word_of_nat b)\<rparr>) = b"
proof -
  assume b: "b \<le> 2048"
  have "drop_bit 16 (word_of_nat b :: u64) = 0"
    by (rule unsigned_word_eqI [where ?'a = nat])
       (use b in \<open>simp add: unsigned_drop_bit_eq unsigned_of_nat take_bit_nat_eq_self unat_div unat_drop_bit_eq drop_bit_eq_div\<close>)
  then show "s < 2 ^ 32 \<Longrightarrow> cursor_sector_of (vf\<lparr>vf_position := dir_position s (word_of_nat b)\<rparr>) = s"
    using cursor_sector [of s "word_of_nat b"] by (simp add: cursor_sector_of_def)
  show "cursor_byte_of (vf\<lparr>vf_position := dir_position s (word_of_nat b)\<rparr>) = b"
    using cursor_byte [of b s] b by (simp add: cursor_byte_of_def)
qed

lemma cursor_end:
  assumes "s < 2 ^ 32" and low: "low = 0x10000 \<or> low = 0x20000"
  shows "s \<le> cursor_sector_of (vf\<lparr>vf_position := dir_position s low\<rparr>)"
    and "cursor_byte_of (vf\<lparr>vf_position := dir_position s low\<rparr>) = 0"
    and "low = 0x10000 \<Longrightarrow> dir_position s low AND 0x10000 \<noteq> 0"
proof -
  show "s \<le> cursor_sector_of (vf\<lparr>vf_position := dir_position s low\<rparr>)"
    using assms cursor_sector [of s low] le_or_nat [of s 1] le_or_nat [of s 2] by (auto simp: cursor_sector_of_def)
  have "dir_position s low AND 0xFFFF = 0"
    unfolding dir_position_def using assms(2) cursor_byte [of 0 s]
    by (auto simp: dir_position_def bit.conj_disj_distrib2 unat_eq_0)
  then show "cursor_byte_of (vf\<lparr>vf_position := dir_position s low\<rparr>) = 0" by (simp add: cursor_byte_of_def)
  have "bit (dir_position s 0x10000) 16" by (simp add: dir_position_def bit_simps)
  then have "bit (dir_position s 0x10000 AND 0x10000) 16" by (simp add: bit_simps)
  then show "low = 0x10000 \<Longrightarrow> dir_position s low AND 0x10000 \<noteq> 0" by auto
qed

lemma info_size_small: "n \<le> 222 \<Longrightarrow> info_size n \<le> 528"
  by (simp add: info_size_def)

lemma premount_small: "ctx_ok ctx \<Longrightarrow> length (premount_info ctx) \<le> 528"
  by (auto simp: premount_info_def dir_info_length ctx_ok_def bstr_def min_le_iff_disj intro!: info_size_small)

lemma cursor_injected [simp]:
  "cursor_sector_of (vf\<lparr>vf_synthetic_injected := x\<rparr>) = cursor_sector_of vf"
  "cursor_byte_of (vf\<lparr>vf_synthetic_injected := x\<rparr>) = cursor_byte_of vf"
  by (simp_all add: cursor_sector_of_def cursor_byte_of_def)

text \<open>The handle at the start of a call: a rewound one forgets that it has offered the premount file.\<close>

definition started :: "virtual_file \<Rightarrow> virtual_file" where
  "started vf = (if vf_position vf = 0 then vf\<lparr>vf_synthetic_injected := False\<rparr> else vf)"

lemma started_simps [simp]:
  "vf_is_dir (started vf) = vf_is_dir vf" "vf_extent_lba (started vf) = vf_extent_lba vf"
  "vf_extent_size (started vf) = vf_extent_size vf" "vf_position (started vf) = vf_position vf"
  "cursor_sector_of (started vf) = cursor_sector_of vf" "cursor_byte_of (started vf) = cursor_byte_of vf"
  by (simp_all add: started_def)

lemma listing_finished:
  assumes "\<not> vf_synthetic_injected v" "vf_is_dir v"
  shows "handle_listing ctx (v\<lparr>vf_position := dir_position (sectors_of (vf_extent_size v)) 0x10000\<rparr>) = Some (after_entries ctx)"
    and "dir_handle_ok (v\<lparr>vf_position := dir_position (sectors_of (vf_extent_size v)) 0x10000\<rparr>)"
  using assms cursor_end(1,2) [where low = "0x10000" and vf = v, OF sectors_small [of "vf_extent_size v"]]
    cursor_end(3) [OF sectors_small [of "vf_extent_size v"]]
  by (simp_all add: handle_listing_def dir_handle_ok_def)

lemma listing_cursor:
  assumes "\<not> vf_synthetic_injected v" "vf_is_dir v" "s < sectors_of (vf_extent_size v)" "b \<le> 2048"
    "read_iso_sector ctx (vf_extent_lba v + word_of_nat s) = Some scratch"
    "dir_walk (read_iso_sector ctx) (vf_extent_lba v) (sectors_of (vf_extent_size v)) s b scratch = Some es"
  shows "handle_listing ctx (v\<lparr>vf_position := dir_position s (word_of_nat b)\<rparr>) = Some (Entries es)"
    and "dir_handle_ok (v\<lparr>vf_position := dir_position s (word_of_nat b)\<rparr>)"
proof -
  have "s < 2 ^ 32" using assms(3) sectors_small [of "vf_extent_size v"] by simp
  then show "handle_listing ctx (v\<lparr>vf_position := dir_position s (word_of_nat b)\<rparr>) = Some (Entries es)"
    and "dir_handle_ok (v\<lparr>vf_position := dir_position s (word_of_nat b)\<rparr>)"
    using assms by (simp_all add: handle_listing_def dir_handle_ok_def)
qed

lemma read_dir_call:
  assumes "vf_is_dir vf" "cursor_sector_of vf < sectors_of (vf_extent_size vf)"
    "read_iso_sector ctx (vf_extent_lba vf + word_of_nat (cursor_sector_of vf)) = Some scratch"
  shows "file_read_dir ctx vf n =
     (case read_dir_loop (read_iso_sector ctx) (vf_extent_lba vf) (sectors_of (vf_extent_size vf)) n
             (cursor_sector_of vf) (cursor_byte_of vf) scratch [] of
        Dir_error s \<Rightarrow> (Inl Efi_device_error, (started vf)\<lparr>vf_position := dir_position s 0\<rparr>)
      | Dir_small n \<Rightarrow> (Inl (Buffer_too_small n), started vf)
      | Dir_finished out \<Rightarrow> (Inr out, (started vf)\<lparr>vf_position := dir_position (sectors_of (vf_extent_size vf)) 0x10000\<rparr>)
      | Dir_cursor s b out \<Rightarrow> (Inr out, (started vf)\<lparr>vf_position := dir_position s (word_of_nat b)\<rparr>))"
  using assms unfolding file_read_dir_def Let_def started_def [symmetric]
  by (simp add: cursor_sector_of_def cursor_byte_of_def)

lemma read_dir_entries:
  assumes v: "dir_handle_ok vf" and h: "handle_listing ctx vf = Some l" and n: "528 \<le> n"
    and s: "cursor_sector_of vf < sectors_of (vf_extent_size vf)"
  shows "\<exists>out vf' l'. file_read_dir ctx vf n = (Inr out, vf') \<and> dir_handle_ok vf' \<and> handle_listing ctx vf' = Some l'
    \<and> list_step ctx l out l'"
proof -
  let ?rd = "read_iso_sector ctx" and ?t = "sectors_of (vf_extent_size vf)"
  obtain scratch es where scratch: "?rd (vf_extent_lba vf + word_of_nat (cursor_sector_of vf)) = Some scratch"
    and es: "dir_walk ?rd (vf_extent_lba vf) ?t (cursor_sector_of vf) (cursor_byte_of vf) scratch = Some es" "l = Entries es"
    using h s by (auto simp: handle_listing_def split: option.splits)
  have dir: "vf_is_dir (started vf)" "cursor_byte_of vf \<le> 2048" "vf_is_dir vf" using v by (simp_all add: dir_handle_ok_def)
  have inj: "\<not> vf_synthetic_injected (started vf)" using v s by (auto simp: dir_handle_ok_def started_def)
  let ?run = "read_dir_loop ?rd (vf_extent_lba vf) ?t n (cursor_sector_of vf) (cursor_byte_of vf) scratch []"
  have runs: "run_delivers ?rd (vf_extent_lba vf) ?t n [] es ?run"
    by (rule read_dir_loop_delivers [where rd = ?rd, OF es(1) scratch s dir(2)])
  note call = read_dir_call [OF dir(3) s scratch, of n]
  show ?thesis
  proof (cases ?run)
    case (Dir_finished out)
    then have out: "out = concat (map entry_info es)" using runs by (simp add: run_delivers_def)
    show ?thesis
      using call Dir_finished list_step.rest [of ctx es] listing_finished [OF inj dir(1)] unfolding es(2) out by auto
  next
    case (Dir_cursor s b out)
    then obtain k scratch' where k: "s < ?t" "b \<le> 2048" "k \<le> length es" "0 < k" "out = concat (map entry_info (take k es))"
      and c: "?rd (vf_extent_lba vf + word_of_nat s) = Some scratch'"
      "dir_walk ?rd (vf_extent_lba vf) ?t s b scratch' = Some (drop k es)"
      using runs n by (auto simp: run_delivers_def)
    then show ?thesis
      using call Dir_cursor list_step.some [OF k(4,3)] listing_cursor [OF inj dir(1)]
      unfolding es(2) k(5) by auto
  next
    case (Dir_error s)
    then show ?thesis using runs by (simp add: run_delivers_def)
  next
    case (Dir_small m)
    then have "es \<noteq> []" "n < length (entry_info (hd es))" using runs by (simp_all add: run_delivers_def)
    then show ?thesis using walk_entries_small [OF es(1), of "hd es"] n by simp
  qed
qed

text \<open>The second phase, and a finished listing.\<close>

definition offered :: "virtual_file \<Rightarrow> bool \<Rightarrow> virtual_file" where
  "offered vf injected =
     vf\<lparr>vf_synthetic_injected := injected, vf_position := dir_position (sectors_of (vf_extent_size vf)) 0x20000\<rparr>"

lemma phase2_step:
  assumes "ctx_ok ctx" "528 \<le> n"
  shows "read_dir_phase2 ctx vf (sectors_of (vf_extent_size vf)) n = Inr (premount_info ctx,
           offered vf (premount_info ctx \<noteq> [] \<or> vf_synthetic_injected vf))"
  using premount_small [OF assms(1)] assms(2)
  by (auto simp: read_dir_phase2_def premount_info_def dir_info_length info_nonempty offered_def)

lemma listing_offered:
  assumes "vf_is_dir vf" "cursor_sector_of vf \<ge> sectors_of (vf_extent_size vf)" "vf_synthetic_injected vf \<longrightarrow> b"
    "b \<or> premount_info ctx = []"
  shows "handle_listing ctx (offered vf b) = Some Listed" and "dir_handle_ok (offered vf b)"
  using assms cursor_end(1,2) [where low = "0x20000" and vf = "vf\<lparr>vf_synthetic_injected := b\<rparr>", OF sectors_small [of "vf_extent_size vf"]]
  by (auto simp: handle_listing_def dir_handle_ok_def offered_def after_entries_def not_less)

lemma read_dir_rest:
  assumes c: "ctx_ok ctx" and v: "dir_handle_ok vf" and h: "handle_listing ctx vf = Some l" and n: "528 \<le> n"
    and s: "\<not> cursor_sector_of vf < sectors_of (vf_extent_size vf)"
  shows "\<exists>out vf' l'. file_read_dir ctx vf n = (Inr out, vf') \<and> dir_handle_ok vf' \<and> handle_listing ctx vf' = Some l'
    \<and> list_step ctx l out l'"
proof (cases "vf_position vf AND 0x10000 \<noteq> 0 \<and> \<not> vf_synthetic_injected vf")
  case True
  have d: "vf_is_dir vf" using v by (simp add: dir_handle_ok_def)
  have st: "started vf = vf" using True by (auto simp: started_def)
  have "file_read_dir ctx vf n = (Inr (premount_info ctx), offered vf (premount_info ctx \<noteq> []))"
    using d s True phase2_step [OF c n, of vf]
    unfolding file_read_dir_def Let_def started_def [symmetric] st cursor_sector_of_def [symmetric] by simp
  moreover have "l = after_entries ctx" using h s True by (simp add: handle_listing_def)
  moreover have "list_step ctx (after_entries ctx) (premount_info ctx) Listed"
    using list_step.premount [of ctx] list_step.listed [of ctx] by (auto simp: after_entries_def)
  ultimately show ?thesis using listing_offered [OF d, of "premount_info ctx \<noteq> []" ctx] s True by (auto simp: not_less)
next
  case False
  have d: "vf_is_dir vf" using v by (simp add: dir_handle_ok_def)
  have "\<not> (vf_position vf AND 0x10000 \<noteq> 0 \<and> \<not> vf_synthetic_injected (started vf))" using False by (auto simp: started_def)
  then have "file_read_dir ctx vf n = (Inr [], started vf)"
    using d s unfolding file_read_dir_def Let_def started_def [symmetric] started_simps cursor_sector_of_def [symmetric]
    by auto
  moreover have "l = Listed" using h s False by (simp add: handle_listing_def)
  moreover have "handle_listing ctx (started vf) = Some Listed" "dir_handle_ok (started vf)"
    using False s v by (auto simp: handle_listing_def dir_handle_ok_def started_def)
  ultimately show ?thesis using list_step.listed by blast
qed

lemma read_dir_step:
  assumes "ctx_ok ctx" "dir_handle_ok vf" "handle_listing ctx vf = Some l" "528 \<le> n"
  shows "\<exists>out vf' l'. file_read_dir ctx vf n = (Inr out, vf') \<and> dir_handle_ok vf' \<and> handle_listing ctx vf' = Some l'
    \<and> list_step ctx l out l'"
  using read_dir_entries [OF assms(2,3,4)] read_dir_rest [OF assms] by blast

section \<open>A whole listing\<close>

fun read_dirs :: "iso_fs_ctx \<Rightarrow> virtual_file \<Rightarrow> nat list \<Rightarrow> efi_error + (bytes list \<times> virtual_file)" where
  "read_dirs ctx vf [] = Inr ([], vf)"
| "read_dirs ctx vf (n # ns) =
     (case file_read_dir ctx vf n of
        (Inl e, _) \<Rightarrow> Inl e
      | (Inr out, vf1) \<Rightarrow> (case read_dirs ctx vf1 ns of Inl e \<Rightarrow> Inl e | Inr (outs, vf2) \<Rightarrow> Inr (out # outs, vf2)))"

fun to_come :: "iso_fs_ctx \<Rightarrow> listing \<Rightarrow> bytes" where
  "to_come ctx (Entries es) = concat (map entry_info es) @ premount_info ctx"
| "to_come ctx Premount = premount_info ctx"
| "to_come ctx Listed = []"

fun calls_needed :: "listing \<Rightarrow> nat" where
  "calls_needed (Entries es) = length es + 2"
| "calls_needed Premount = 1"
| "calls_needed Listed = 0"

lemma list_step_to_come: "list_step ctx l out l' \<Longrightarrow> out @ to_come ctx l' = to_come ctx l"
proof (induction rule: list_step.induct)
  case (some k es)
  have "concat (map entry_info (take k es)) @ concat (map entry_info (drop k es)) = concat (map entry_info es)"
    by (metis append_take_drop_id concat_append map_append)
  then show ?case by (simp add: append_assoc [symmetric] del: append_assoc)
qed (auto simp: after_entries_def)

lemma list_step_calls: "list_step ctx l out l' \<Longrightarrow> calls_needed l' \<le> calls_needed l - 1"
  by (induction rule: list_step.induct) (auto simp: after_entries_def)

lemma calls_needed_0: "calls_needed l = 0 \<Longrightarrow> l = Listed"
  by (cases l) auto

lemma read_dirs_complete:
  "ctx_ok ctx \<Longrightarrow> dir_handle_ok vf \<Longrightarrow> handle_listing ctx vf = Some l \<Longrightarrow> \<forall>n\<in>set ns. 528 \<le> n \<Longrightarrow>
   \<exists>outs vf' l'. read_dirs ctx vf ns = Inr (outs, vf') \<and> concat outs @ to_come ctx l' = to_come ctx l
     \<and> calls_needed l' \<le> calls_needed l - length ns"
proof (induction ns arbitrary: vf l)
  case (Cons n ns)
  obtain out vf1 l1 where 1: "file_read_dir ctx vf n = (Inr out, vf1)" "dir_handle_ok vf1" "handle_listing ctx vf1 = Some l1"
    "list_step ctx l out l1"
    using read_dir_step [OF Cons.prems(1-3), of n] Cons.prems(4) by auto
  obtain outs vf' l' where 2: "read_dirs ctx vf1 ns = Inr (outs, vf')" "concat outs @ to_come ctx l' = to_come ctx l1"
    "calls_needed l' \<le> calls_needed l1 - length ns"
    using Cons.IH [OF Cons.prems(1) 1(2,3)] Cons.prems(4) by auto
  show ?case
    using 1(1) 2 list_step_to_come [OF 1(4)] list_step_calls [OF 1(4)] by (auto intro!: exI [of _ l'])
qed auto

lemma fresh_listing:
  assumes "vf_is_dir vf" "vf_position vf = 0"
  shows "dir_handle_ok vf"
    and "handle_listing ctx vf = (if sectors_of (vf_extent_size vf) = 0 then Some Listed else
       (case read_iso_sector ctx (vf_extent_lba vf) of None \<Rightarrow> None
        | Some scratch \<Rightarrow> map_option Entries (dir_walk (read_iso_sector ctx) (vf_extent_lba vf) (sectors_of (vf_extent_size vf)) 0 0 scratch)))"
  using assms by (auto simp: dir_handle_ok_def handle_listing_def cursor_sector_of_def cursor_byte_of_def split: option.split)

end
