(* ===== verification/EfiIso.thy ===== *)
theory EfiIso
  imports EfiIsoFsList EfiPremount EfiFs
begin

text \<open>
  The ISO 9660 walk of the UEFI loader (\<open>efi/src/iso.rs\<close>): reading sectors of the real disc, finding files by
  name, the slot for the premount archive, the boot program and the distribution family. A sector reader
  \<open>rd\<close> is a parameter of the walks; a read of the same sector gives the same data, so the re-reads and the saved
  copies of the scratch buffer do not appear. The ignore patterns are generated by \<open>build.rs\<close>, hence a parameter.
\<close>

section \<open>Sectors\<close>

text \<open>One sector of 2048 bytes from four of 512; \<open>io\<close> is the firmware's \<open>read_blocks\<close>.\<close>

definition read_iso_sector_io :: "(u64 \<Rightarrow> nat \<Rightarrow> bytes option) \<Rightarrow> u64 \<Rightarrow> u32 \<Rightarrow> bytes option" where
  "read_iso_sector_io io iso_lba sector =
     (let disk_lba = iso_lba + ucast sector * 4
      in do {
        s0 \<leftarrow> read_sector io disk_lba;
        s1 \<leftarrow> read_sector io (disk_lba + 1);
        s2 \<leftarrow> read_sector io (disk_lba + 2);
        s3 \<leftarrow> read_sector io (disk_lba + 3);
        Some (s0 @ s1 @ s2 @ s3) })"

interpretation isoio: iso_source "read_iso_sector_io io iso_lba" for io iso_lba
proof unfold_locales
  fix s b
  assume "read_iso_sector_io io iso_lba s = Some b"
  then obtain s0 s1 s2 s3 where "b = s0 @ s1 @ s2 @ s3" "length s0 = 512" "length s1 = 512" "length s2 = 512" "length s3 = 512"
    unfolding read_iso_sector_io_def Let_def using bio.rd_length [of io] by (auto split: Option.bind_splits)
  then show "length b = 2048" by simp
qed

text \<open>A whole extent in a pool buffer, and the length the caller may use.\<close>

definition read_extent :: "(u64 \<Rightarrow> nat \<Rightarrow> bytes option) \<Rightarrow> bool \<Rightarrow> u64 \<Rightarrow> u32 \<Rightarrow> u32 \<Rightarrow> (bytes \<times> u32) option" where
  "read_extent io pool iso_lba lba byte_len =
     (if \<not> pool then None
      else let buf_len = sectors_of byte_len * 2048
           in case io (iso_lba + ucast lba * 4) buf_len of
                None \<Rightarrow> None
              | Some buf \<Rightarrow> Some (buf, min byte_len (word_of_nat buf_len)))"

definition get_root_dir :: "(u32 \<Rightarrow> bytes option) \<Rightarrow> (u32 \<times> u32) option" where
  "get_root_dir rd = (case rd 16 of None \<Rightarrow> None | Some pvd \<Rightarrow> pvd_root pvd)"

section \<open>Names\<close>

definition iso_effective_name_len :: "bytes \<Rightarrow> nat" where
  "iso_effective_name_len record_name =
     (let n = length record_name; m = (if n \<ge> 2 \<and> record_name ! (n - 2) = 59 then n - 2 else n)
      in length (dropWhile (\<lambda>c. c = 46) (rev (take m record_name))))"

text \<open>
  The loops over a directory's records share their guards: the offsets they visit in a sector of which the first
  \<open>limit\<close> bytes belong to the directory.
\<close>

function record_offsets :: "nat \<Rightarrow> bytes \<Rightarrow> nat \<Rightarrow> nat list" where
  "record_offsets limit scratch off =
     (if off + 34 \<le> 2048 \<and> off < limit then
        let record_len = unat (scratch ! off)
        in if record_len = 0 then []
           else if off + record_len > 2048 then []
           else if off + 33 + unat (scratch ! (off + 32)) > 2048 then []
           else off # record_offsets limit scratch (off + record_len)
      else [])"
  by pat_completeness auto

termination by (relation "measure (\<lambda>(limit, scratch, off). 2048 - off)") auto

declare record_offsets.simps [simp del]

definition record_name :: "bytes \<Rightarrow> nat \<Rightarrow> bytes" where
  "record_name scratch off = take (unat (scratch ! (off + 32))) (drop (off + 33) scratch)"

definition record_extent :: "bytes \<Rightarrow> nat \<Rightarrow> u32" where
  "record_extent scratch off = from_le (take 4 (drop (off + 2) scratch))"

definition record_size :: "bytes \<Rightarrow> nat \<Rightarrow> u32" where
  "record_size scratch off = from_le (take 4 (drop (off + 10) scratch))"

definition record_is_dir :: "bytes \<Rightarrow> nat \<Rightarrow> bool" where
  "record_is_dir scratch off \<longleftrightarrow> scratch ! (off + 25) AND 0x02 \<noteq> 0"

definition record_is_dot :: "bytes \<Rightarrow> nat \<Rightarrow> bool" where
  "record_is_dot scratch off \<longleftrightarrow> (let nm = record_name scratch off in length nm = 1 \<and> (nm ! 0 = 0 \<or> nm ! 0 = 1))"

definition dir_limit :: "u32 \<Rightarrow> nat \<Rightarrow> nat" where
  "dir_limit dir_size s = unat dir_size - s * 2048"

section \<open>Finding a name\<close>

definition record_matches :: "bytes \<Rightarrow> bytes \<Rightarrow> nat \<Rightarrow> bool" where
  "record_matches name scratch off \<longleftrightarrow>
     (let nm = record_name scratch off; n = iso_effective_name_len nm
      in n = length name \<and> map to_ascii_uppercase (take n nm) = map to_ascii_uppercase name)"

fun find_sectors :: "(u32 \<Rightarrow> bytes option) \<Rightarrow> u32 \<Rightarrow> u32 \<Rightarrow> bytes \<Rightarrow> nat \<Rightarrow> nat \<Rightarrow> (u32 \<times> u32 \<times> u32 \<times> u32) option" where
  "find_sectors rd dir_lba dir_size name s 0 = None"
| "find_sectors rd dir_lba dir_size name s (Suc n) =
     (case rd (dir_lba + word_of_nat s) of
        None \<Rightarrow> None
      | Some scratch \<Rightarrow>
          case find (record_matches name scratch) (record_offsets (dir_limit dir_size s) scratch 0) of
            Some off \<Rightarrow> Some (record_extent scratch off, record_size scratch off, dir_lba + word_of_nat s, word_of_nat off)
          | None \<Rightarrow> find_sectors rd dir_lba dir_size name (s + 1) n)"

definition find_in_dir_with_loc :: "(u32 \<Rightarrow> bytes option) \<Rightarrow> u32 \<Rightarrow> u32 \<Rightarrow> bytes \<Rightarrow> (u32 \<times> u32 \<times> u32 \<times> u32) option" where
  "find_in_dir_with_loc rd dir_lba dir_size name = find_sectors rd dir_lba dir_size name 0 (sectors_of dir_size)"

definition find_in_dir :: "(u32 \<Rightarrow> bytes option) \<Rightarrow> u32 \<Rightarrow> u32 \<Rightarrow> bytes \<Rightarrow> (u32 \<times> u32) option" where
  "find_in_dir rd dir_lba dir_size name =
     map_option (\<lambda>(extent, size', _, _). (extent, size')) (find_in_dir_with_loc rd dir_lba dir_size name)"

section \<open>A file that may be overwritten\<close>

text \<open>The name in upper case in a buffer of 16 bytes; the code keeps names of at most 15.\<close>

definition upper_name :: "bytes \<Rightarrow> bytes" where
  "upper_name nm = map to_ascii_uppercase nm @ replicate (16 - length nm) 0"

definition is_boot_catalog :: "bytes \<Rightarrow> bool" where
  "is_boot_catalog nm \<longleftrightarrow> take (length nm) (upper_name nm) \<in> set [bstr ''BOOT.CATALOG'', bstr ''BOOT.CAT'']"

definition has_cfg_ext :: "bytes \<Rightarrow> bool" where
  "has_cfg_ext nm \<longleftrightarrow> length nm \<ge> 4 \<and> map to_ascii_uppercase (drop (length nm - 4) nm) = bstr ''.CFG''"

text \<open>The file names of boot programs; the extension is compared with bit 5 set on its letters only.\<close>

definition is_efi_boot :: "bytes \<Rightarrow> bool" where
  "is_efi_boot nm \<longleftrightarrow>
     (length nm \<ge> 4 \<and> (let ext = drop (length nm - 4) nm
        in ext ! 0 = 46 \<and> ext ! 1 OR 0x20 = 101 \<and> ext ! 2 OR 0x20 = 102 \<and> ext ! 3 OR 0x20 = 105))
     \<or> take (length nm) (upper_name nm) \<in> set (map bstr [''BOOTX64.EFI'', ''GRUBX64.EFI'', ''SHIMX64.EFI'',
          ''SYSTEMD-BOOTX64.EFI'', ''SHELLX64.EFI'', ''SHELLIA32.EFI'', ''MMX64.EFI'', ''BOOTMGFW.EFI''])"

definition kernel_compare_len :: "bytes \<Rightarrow> nat" where
  "kernel_compare_len nm = (if length nm > 0 \<and> upper_name nm ! (length nm - 1) = 46 then length nm - 1 else length nm)"

definition is_kernel_like :: "bytes \<Rightarrow> bool" where
  "is_kernel_like nm \<longleftrightarrow>
     (let k = kernel_compare_len nm; u = upper_name nm
      in k \<ge> 1 \<and> (take k u = bstr ''MACH_KERNEL'' \<or> take k u = bstr ''VMLINUZ'' \<or> take k u = bstr ''VMLINUX'' \<or>
           (k \<ge> 6 \<and> take 6 u = bstr ''VMLINU'' \<and> (u ! 6 = 90 \<or> u ! 6 = 88 \<or> (48 \<le> u ! 6 \<and> u ! 6 \<le> 57)))))"

definition is_initrd_like :: "bytes \<Rightarrow> bool" where
  "is_initrd_like nm \<longleftrightarrow>
     (let k = kernel_compare_len nm; u = upper_name nm
      in k \<ge> 4 \<and> (take k u = bstr ''INITRD'' \<or> take k u = bstr ''INITRD.IMG'' \<or> take k u = bstr ''INITRAMFS.IMG'' \<or>
           (k \<ge> 6 \<and> take 6 u = bstr ''INITRD'' \<and> (u ! 6 = 46 \<or> u ! 6 = 45))))"

text \<open>A pattern: its name in upper case and whether it is a prefix.\<close>

definition is_ignored :: "(bytes \<times> bool) list \<Rightarrow> bytes \<Rightarrow> bool" where
  "is_ignored pats nm \<longleftrightarrow> list_ex (\<lambda>(p, is_prefix).
     (if is_prefix then length nm \<ge> length p \<and> take (length p) (upper_name nm) = p
      else length nm = length p \<and> take (length nm) (upper_name nm) = p)) pats"

definition known_dirs :: "bytes list" where
  "known_dirs = map bstr [''CASPER'', ''LIVE'', ''LIVEOS'', ''ARCH'', ''APKS'', ''DISTROS'', ''POP-OS'', ''SYSTEM'', ''SOURCES'',
     ''BOOT'', ''EFI'', ''GRUB'', ''GRUB2'', ''FEDORA'', ''ISOLINUX'', ''SYSLINUX'', ''BOOT'']"

definition is_known_dir :: "bytes \<Rightarrow> bool" where
  "is_known_dir nm \<longleftrightarrow>
     (let u = take (length nm) (upper_name nm)
      in u \<in> set known_dirs \<or> (length nm \<ge> 2 \<and> u ! (length nm - 1) = 46 \<and> take (length nm - 1) u \<in> set known_dirs))"

definition may_overwrite :: "(bytes \<times> bool) list \<Rightarrow> bytes \<Rightarrow> nat \<Rightarrow> bool" where
  "may_overwrite pats scratch off \<longleftrightarrow>
     (let nm = take (iso_effective_name_len (record_name scratch off)) (record_name scratch off)
      in \<not> record_is_dot scratch off \<and> \<not> record_is_dir scratch off \<and> length nm \<le> 15 \<and> \<not> is_boot_catalog nm \<and> \<not> has_cfg_ext nm
         \<and> unat (scratch ! off) \<ge> 46 \<and> \<not> is_efi_boot nm \<and> \<not> is_kernel_like nm \<and> \<not> is_initrd_like nm \<and> \<not> is_ignored pats nm
         \<and> \<not> is_known_dir nm)"

fun first_file_sectors :: "(bytes \<times> bool) list \<Rightarrow> (u32 \<Rightarrow> bytes option) \<Rightarrow> u32 \<Rightarrow> u32 \<Rightarrow> nat \<Rightarrow> nat \<Rightarrow> (u32 \<times> u32 \<times> bytes \<times> nat) option" where
  "first_file_sectors pats rd dir_lba dir_size s 0 = None"
| "first_file_sectors pats rd dir_lba dir_size s (Suc n) =
     (case rd (dir_lba + word_of_nat s) of
        None \<Rightarrow> None
      | Some scratch \<Rightarrow>
          case find (may_overwrite pats scratch) (record_offsets (dir_limit dir_size s) scratch 0) of
            Some off \<Rightarrow>
              let n = iso_effective_name_len (record_name scratch off)
              in Some (dir_lba + word_of_nat s, word_of_nat off, upper_name (take n (record_name scratch off)), n)
          | None \<Rightarrow> first_file_sectors pats rd dir_lba dir_size (s + 1) n)"

definition find_first_file_in_dir :: "(bytes \<times> bool) list \<Rightarrow> (u32 \<Rightarrow> bytes option) \<Rightarrow> u32 \<Rightarrow> u32 \<Rightarrow> (u32 \<times> u32 \<times> bytes \<times> nat) option" where
  "find_first_file_in_dir pats rd dir_lba dir_size = first_file_sectors pats rd dir_lba dir_size 0 (sectors_of dir_size)"

section \<open>The end of a directory\<close>

text \<open>The offset in the sector and the count of bytes where the walk of a sector stops.\<close>

function eod_walk :: "u32 \<Rightarrow> bytes \<Rightarrow> nat \<Rightarrow> u32 \<Rightarrow> nat \<times> u32" where
  "eod_walk dir_size scratch off walked =
     (if off < 2048 \<and> walked < dir_size then
        let record_len = unat (scratch ! off)
        in if record_len = 0 \<or> record_len < 34 \<or> off + record_len > 2048 then (off, walked)
           else eod_walk dir_size scratch (off + record_len) (walked + word_of_nat record_len)
      else (off, walked))"
  by pat_completeness auto

termination by (relation "measure (\<lambda>(d, s, off, w). 2048 - off)") auto

declare eod_walk.simps [simp del]

text \<open>The sector and offset of the end and the size of the directory up to it. The last sector must have room for 47 bytes.\<close>

fun eod_sectors :: "(u32 \<Rightarrow> bytes option) \<Rightarrow> u32 \<Rightarrow> u32 \<Rightarrow> nat \<Rightarrow> nat \<Rightarrow> (u32 \<times> u32 \<times> u32) option" where
  "eod_sectors rd dir_lba dir_size s 0 = None"
| "eod_sectors rd dir_lba dir_size s (Suc n) =
     (case rd (dir_lba + word_of_nat s) of
        None \<Rightarrow> None
      | Some scratch \<Rightarrow>
          if n = 0 then
            let (off, walked) = eod_walk dir_size scratch 0 (word_of_nat s * 2048)
            in if off + 47 \<le> 2048 then Some (dir_lba + word_of_nat s, word_of_nat off, walked) else None
          else eod_sectors rd dir_lba dir_size (s + 1) n)"

definition find_eod_in_dir :: "(u32 \<Rightarrow> bytes option) \<Rightarrow> u32 \<Rightarrow> u32 \<Rightarrow> (u32 \<times> u32 \<times> u32) option" where
  "find_eod_in_dir rd dir_lba dir_size = eod_sectors rd dir_lba dir_size 0 (sectors_of dir_size)"

section \<open>The premount archive as a file of the disc\<close>

definition build_premount_cpio_entry :: "bytes \<Rightarrow> u32 \<Rightarrow> u32 \<Rightarrow> bytes \<times> u32" where
  "build_premount_cpio_entry blob extent_lba file_size =
     (let name = bstr ''PREMOUNT.CPIO'';
          entry = [46, 0] @ to_le 4 extent_lba @ to_be 4 extent_lba @ to_le 4 file_size @ to_be 4 file_size
            @ replicate 7 0 @ [0, 0, 0] @ to_le 2 (1 :: u16) @ to_be 2 (1 :: u16) @ [word_of_nat (length name)] @ name
      in (paste blob 0 (entry @ [0]), 46 + 1))"

definition saturating_add64 :: "u64 \<Rightarrow> u64 \<Rightarrow> u64" where
  "saturating_add64 a b = (if unat a + unat b < 2 ^ 64 then a + b else - 1)"

definition saturating_add32 :: "u32 \<Rightarrow> u32 \<Rightarrow> u32" where
  "saturating_add32 a b = (if unat a + unat b < 2 ^ 32 then a + b else - 1)"

text \<open>What the file system context learns: the archive and the name it is offered under.\<close>

definition offer_premount :: "bytes \<Rightarrow> nat \<Rightarrow> iso_fs_ctx \<Rightarrow> iso_fs_ctx" where
  "offer_premount cpio cpio_size ctx =
     ctx\<lparr>ix_cpio_buf := Some cpio, ix_cpio_size := cpio_size, ix_target_name := bstr ''PREMOUNT.CPIO___'', ix_target_len := 13\<rparr>"

text \<open>
  \<open>prepare_premount_iso_file\<close>: whether the archive became a file of the disc, with the virtual disc and the
  file system instance, if there is one, after the call.
\<close>

definition zero_padded :: "premount_bundle \<Rightarrow> bytes" where
  "zero_padded bundle =
     take (pb_cpio_size bundle) (pb_cpio bundle) @ replicate (pb_alloc_size bundle - pb_cpio_size bundle) 0
     @ drop (pb_alloc_size bundle) (pb_cpio bundle)"

definition with_premount_file :: "virtual_block_io \<Rightarrow> bytes \<Rightarrow> nat \<Rightarrow> virtual_block_io" where
  "with_premount_file vb cpio alloc_size =
     (let file_sectors = word_of_nat ((alloc_size + 2047) div 2048) :: u32
      in vb\<lparr>vb_premount_file := \<lparr>mf_sector = ucast (saturating_add64 (vb_last_block vb) 1), mf_sectors = file_sectors, mf_buf = Some cpio\<rparr>,
            vb_last_block := saturating_add64 (vb_last_block vb) (ucast file_sectors)\<rparr>)"

definition inject_entry :: "virtual_block_io \<Rightarrow> u32 \<Rightarrow> u32 \<Rightarrow> u32 \<Rightarrow> u32 \<Rightarrow> virtual_block_io" where
  "inject_entry vb entry_sector entry_offset dir_size cpio_size =
     (let (blob, blob_size) = build_premount_cpio_entry (replicate 128 0) (mf_sector (vb_premount_file vb)) cpio_size
      in vb\<lparr>vb_premount_entry_sector := entry_sector, vb_premount_entry_offset := entry_offset,
            vb_premount_entry_injected_blob := blob, vb_premount_entry_injected_size := blob_size,
            vb_premount_entry_injected := True, vb_premount_new_root_size := saturating_add32 dir_size blob_size\<rparr>)"

definition replace_entry :: "virtual_block_io \<Rightarrow> u32 \<Rightarrow> u32 \<Rightarrow> u32 \<Rightarrow> virtual_block_io" where
  "replace_entry vb entry_sector entry_offset cpio_size =
     vb\<lparr>vb_premount_entry_sector := entry_sector, vb_premount_entry_offset := entry_offset,
        vb_premount_entry_new_extent := mf_sector (vb_premount_file vb), vb_premount_entry_new_size := cpio_size,
        vb_premount_entry_patched := True, vb_premount_entry_rename := True\<rparr>"

definition prepare_premount_iso_file ::
  "(bytes \<times> bool) list \<Rightarrow> (u32 \<Rightarrow> bytes option) \<Rightarrow> virtual_block_io \<Rightarrow> iso_fs_ctx option \<Rightarrow> premount_bundle
     \<Rightarrow> bool \<times> virtual_block_io \<times> iso_fs_ctx option" where
  "prepare_premount_iso_file pats rd vb sfs bundle =
     (if pb_alloc_size bundle = 0 \<or> pb_cpio_size bundle > pb_alloc_size bundle then (False, vb, sfs)
      else case get_root_dir rd of
        None \<Rightarrow> (False, vb, sfs)
      | Some (root_lba, root_size) \<Rightarrow>
          let cpio = zero_padded bundle; cpio_size = word_of_nat (pb_cpio_size bundle) :: u32;
              vb1 = with_premount_file vb cpio (pb_alloc_size bundle);
              sfs1 = map_option (offer_premount cpio (pb_cpio_size bundle)) sfs
          in case find_eod_in_dir rd root_lba root_size of
               Some (entry_sector, entry_offset, dir_size) \<Rightarrow>
                 (True, inject_entry vb1 entry_sector entry_offset dir_size cpio_size, sfs1)
             | None \<Rightarrow>
                 (case find_first_file_in_dir pats rd root_lba root_size of
                    Some (entry_sector, entry_offset, _, _) \<Rightarrow> (True, replace_entry vb1 entry_sector entry_offset cpio_size, sfs1)
                  | None \<Rightarrow> (False, vb1, sfs)))"

section \<open>The boot program\<close>

definition efi_boot_names :: "boot_kind \<Rightarrow> bytes list" where
  "efi_boot_names k =
     (if k = ArchIso then map bstr [''BOOTX64.EFI'', ''SYSTEMD-BOOTX64.EFI'', ''GRUBX64.EFI'', ''SHIMX64.EFI'']
      else map bstr [''GRUBX64.EFI'', ''SHIMX64.EFI'', ''BOOTX64.EFI'', ''SYSTEMD-BOOTX64.EFI''])"

fun first_found :: "(bytes \<Rightarrow> (u32 \<times> u32) option) \<Rightarrow> bytes list \<Rightarrow> (u32 \<times> u32 \<times> bytes) option" where
  "first_found f [] = None"
| "first_found f (name # names) =
     (case f name of Some (extent, size') \<Rightarrow> Some (extent, size', name) | None \<Rightarrow> first_found f names)"

definition find_efi_boot :: "(u32 \<Rightarrow> bytes option) \<Rightarrow> boot_kind \<Rightarrow> (u32 \<times> u32 \<times> bytes) option" where
  "find_efi_boot rd k = do {
     (root_lba, root_size) \<leftarrow> get_root_dir rd;
     (efi_lba, efi_size) \<leftarrow> find_in_dir rd root_lba root_size (bstr ''EFI'');
     (boot_lba, boot_size) \<leftarrow> find_in_dir rd efi_lba efi_size (bstr ''BOOT'');
     first_found (find_in_dir rd boot_lba boot_size) (efi_boot_names k) }"

section \<open>The distribution family\<close>

definition dir_kind :: "bytes \<Rightarrow> boot_kind option" where
  "dir_kind name =
     (let is = (\<lambda>p. name_matches name (bstr p)); starts = (\<lambda>p. name_starts_with name (bstr p))
      in if is ''CASPER'' \<or> starts ''CASPER_'' \<or> starts ''CASPER-'' then Some Casper
         else if is ''POP-OS'' \<or> starts ''POP-OS_'' \<or> starts ''POP-OS-'' then Some Casper
         else if is ''LIVE'' then Some DebianLive
         else if is ''LIVEOS'' then Some FedoraLive
         else if is ''ARCH'' then Some ArchIso
         else if is ''APKS'' then Some AlpinePremount
         else None)"

definition file_kind :: "bytes \<Rightarrow> boot_kind option" where
  "file_kind name =
     (if name_matches name (bstr ''.ALPINE-RELEASE'') \<or> name_matches name (bstr ''.ALPINE_RELEASE'') then Some AlpinePremount
      else if name_matches name (bstr ''BOOT.WIM'') then Some WindowsPE
      else None)"

text \<open>The family a record of the root directory shows.\<close>

definition record_kind :: "(u32 \<Rightarrow> bytes option) \<Rightarrow> bytes \<Rightarrow> nat \<Rightarrow> boot_kind option" where
  "record_kind rd scratch off =
     (let nm = record_name scratch off; name = take (iso_effective_name_len nm) nm
      in if record_is_dir scratch off then
           (case dir_kind name of
              Some k \<Rightarrow> Some k
            | None \<Rightarrow>
                if name_matches name (bstr ''SOURCES'')
                   \<and> find_in_dir rd (record_extent scratch off) (record_size scratch off) (bstr ''BOOT.WIM'') \<noteq> None
                then Some WindowsPE else None)
         else file_kind name)"

fun kind_of_records :: "(u32 \<Rightarrow> bytes option) \<Rightarrow> bytes \<Rightarrow> nat list \<Rightarrow> boot_kind \<Rightarrow> boot_kind" where
  "kind_of_records rd scratch [] k = k"
| "kind_of_records rd scratch (off # offs) k =
     kind_of_records rd scratch offs
       (if k = Unknown then (case record_kind rd scratch off of Some k' \<Rightarrow> k' | None \<Rightarrow> k) else k)"

fun kind_of_sectors :: "(u32 \<Rightarrow> bytes option) \<Rightarrow> u32 \<Rightarrow> u32 \<Rightarrow> nat \<Rightarrow> nat \<Rightarrow> boot_kind \<Rightarrow> boot_kind" where
  "kind_of_sectors rd root_lba root_size s 0 k = k"
| "kind_of_sectors rd root_lba root_size s (Suc n) k =
     (case rd (root_lba + word_of_nat s) of
        None \<Rightarrow> k
      | Some scratch \<Rightarrow>
          kind_of_sectors rd root_lba root_size (s + 1) n
            (kind_of_records rd scratch (record_offsets (dir_limit root_size s) scratch 0) k))"

fun path_exists :: "(u32 \<Rightarrow> bytes option) \<Rightarrow> u32 \<Rightarrow> u32 \<Rightarrow> bytes list \<Rightarrow> bool" where
  "path_exists rd lba size' [] = True"
| "path_exists rd lba size' (name # names) =
     (case find_in_dir rd lba size' name of None \<Rightarrow> False | Some (l, s) \<Rightarrow> path_exists rd l s names)"

definition grub_paths :: "bytes list list" where
  "grub_paths = map (map bstr) [[''BOOT'', ''GRUB'', ''GRUB.CFG''], [''BOOT'', ''GRUB2'', ''GRUB.CFG''], [''EFI'', ''BOOT'', ''GRUB.CFG'']]"

definition scan_iso_structure :: "(u32 \<Rightarrow> bytes option) \<Rightarrow> boot_descriptor option" where
  "scan_iso_structure rd =
     (case get_root_dir rd of
        None \<Rightarrow> None
      | Some (root_lba, root_size) \<Rightarrow>
          Some \<lparr>bd_boot_kind = kind_of_sectors rd root_lba root_size 0 (sectors_of root_size) Unknown,
                bd_bootloader = (if list_ex (path_exists rd root_lba root_size) grub_paths then Grub else NoLoader)\<rparr>)"

end
