(* ===== verification/EfiIsoMount.thy ===== *)
theory EfiIsoMount
  imports EfiIso
begin

text \<open>
  The virtual CD-ROM as its readers see it: what a client that mounts the disc finds after the premount archive
  has been made a file of it.
\<close>

section \<open>One virtual sector\<close>

text \<open>A device with sectors of 512 bytes that reads four at once as it reads them one by one.\<close>

definition whole_sectors :: "backing \<Rightarrow> bool" where
  "whole_sectors bk \<longleftrightarrow> backing_ok bk \<and> backing_block_size bk = 512 \<and>
     (\<forall>lba. bk_read bk lba 2048 = do {
        s0 \<leftarrow> bk_read bk lba 512; s1 \<leftarrow> bk_read bk (lba + 1) 512; s2 \<leftarrow> bk_read bk (lba + 2) 512; s3 \<leftarrow> bk_read bk (lba + 3) 512;
        Some (s0 @ s1 @ s2 @ s3) })"

definition real_sector :: "virtual_block_io \<Rightarrow> u32 \<Rightarrow> bytes option" where
  "real_sector vb = read_iso_sector_io (bk_read (vb_backing vb)) (vb_iso_lba vb)"

lemma read_sector_ok: "backing_ok bk \<Longrightarrow> read_sector (bk_read bk) lba = bk_read bk lba 512"
  by (auto simp: read_sector_def backing_ok_def split: option.split)

lemma real_sector_vbio: "whole_sectors (vb_backing vb) \<Longrightarrow> read_real_iso_sector vb (ucast s) = real_sector vb s"
  by (simp add: whole_sectors_def read_real_iso_sector_def real_sector_def read_iso_sector_io_def read_sector_ok Let_def)

definition virtual_sector :: "virtual_block_io \<Rightarrow> u32 \<Rightarrow> bytes option" where
  "virtual_sector vb s = (case block_content vb (ucast s) of Some (Served sec) \<Rightarrow> Some sec | _ \<Rightarrow> None)"

lemma virtual_sector_read:
  assumes "vbio_ok vb" "ix_vbio ctx = Some vb"
  shows "read_iso_sector ctx s = virtual_sector vb s"
proof -
  obtain r where r: "block_content vb (ucast s) = Some r" "\<And>sec. r = Served sec \<Longrightarrow> length sec = 2048"
    using block_content_ok [OF assms(1)] by blast
  then show ?thesis
    using assms(2) by (cases r) (auto simp: read_iso_sector_def virtual_sector_def vblock_read_def blit_def)
qed

lemma ucast_u64_inj: "(ucast (a :: u32) :: u64) = ucast (b :: u32) \<longleftrightarrow> a = b"
  using unat_ucast64 [of a] unat_ucast64 [of b] by (metis unsigned_word_eqI)

lemma virtual_sector_real:
  assumes "whole_sectors (vb_backing vb)" "s \<noteq> 16" "\<not> needs_premount_injected vb (ucast s)"
    "\<not> needs_grub_patch vb (ucast s)" "\<not> needs_premount_patch vb (ucast s)"
    "serve_memory_sector (vb_premount_file vb) (ucast s) = Some None"
    "serve_memory_sector (vb_patched_file vb) (ucast s) = Some None"
  shows "virtual_sector vb s = real_sector vb s"
proof -
  have "(ucast s :: u64) \<noteq> 16" using assms(2) ucast_u64_inj [of s 16] by auto
  then show ?thesis
    using assms(3-) by (auto simp: virtual_sector_def block_content_def real_then_def real_sector_vbio [OF assms(1)] split: option.split)
qed

section \<open>Sectors that agree up to a record\<close>

function records_fit :: "bytes \<Rightarrow> nat \<Rightarrow> nat \<Rightarrow> bool" where
  "records_fit scratch o1 off =
     (if o1 = off then True
      else if o1 < off \<and> scratch ! o1 \<noteq> 0 then record_fits scratch o1 \<and> records_fit scratch (o1 + unat (scratch ! o1)) off
      else False)"
  by pat_completeness auto

termination by (relation "measure (\<lambda>(s, o1, off). off - o1)") (auto simp: unat_gt_0 intro!: diff_less_mono2)

declare records_fit.simps [simp del]

lemma records_fit_le: "records_fit scratch o1 off \<Longrightarrow> o1 \<le> off"
  by (subst (asm) records_fit.simps) (auto split: if_splits)

lemma record_entry_agree:
  assumes "take off v = take off scratch" "record_fits scratch o1" "o1 + unat (scratch ! o1) \<le> off" "off \<le> length v" "length v = length scratch"
  shows "v ! o1 = scratch ! o1" "record_fits v o1" "record_entry v o1 = record_entry scratch o1"
proof -
  have n: "v ! i = scratch ! i" if "i < off" for i
    using that assms(1) by (metis nth_take)
  have s: "take k (drop i v) = take k (drop i scratch)" if "i + k \<le> off" for i k
  proof -
    have "take k (drop i (take off v)) = take k (drop i (take off scratch))" using assms(1) by simp
    moreover have "k \<le> off - i" using that by simp
    ultimately show ?thesis by (simp add: drop_take min_absorb1)
  qed
  have b: "34 \<le> unat (scratch ! o1)" "33 + unat (scratch ! (o1 + 32)) \<le> unat (scratch ! o1)" "o1 + unat (scratch ! o1) \<le> 2048"
    using assms(2) by (simp_all add: record_fits_def)
  show "v ! o1 = scratch ! o1" "record_fits v o1" "record_entry v o1 = record_entry scratch o1"
    using b assms(3) by (simp_all add: n s record_fits_def record_entry_def)
qed

lemma lookup_agree:
  "records_fit scratch o1 off \<Longrightarrow> take off v = take off scratch \<Longrightarrow> off + 34 \<le> length v \<Longrightarrow> length v = length scratch \<Longrightarrow> length v = 2048 \<Longrightarrow>
   lookup_records name scratch o1 = None \<Longrightarrow> lookup_records name v o1 = lookup_records name v off"
proof (induction scratch o1 off rule: records_fit.induct)
  case (1 scratch o1 off)
  show ?case
  proof (cases "o1 = off")
    case False
    then have c: "o1 < off" "scratch ! o1 \<noteq> 0" "record_fits scratch o1" "records_fit scratch (o1 + unat (scratch ! o1)) off"
      using "1.prems"(1) by (subst (asm) records_fit.simps; simp split: if_splits)+
    note le = records_fit_le [OF c(4)]
    note a = record_entry_agree [OF "1.prems"(2) c(3) le _ "1.prems"(4)]
    have g: "\<not> (o1 + 34 > 2048 \<or> scratch ! o1 = 0)" "\<not> (o1 + 34 > 2048 \<or> v ! o1 = 0)"
      using c le a(1) "1.prems"(3,5) by (auto simp: record_fits_def)
    have n: "\<not> same_name (ie_name (record_entry scratch o1)) (ucs2_name name)"
      "lookup_records name scratch (o1 + unat (scratch ! o1)) = None"
      using "1.prems"(6) unfolding lookup_records_entry [OF g(1) c(3)] by (auto simp: Let_def split: if_splits)
    have "lookup_records name v o1 = lookup_records name v (o1 + unat (scratch ! o1))"
      using n(1) "1.prems"(3) by (simp add: lookup_records_entry [OF g(2) a(2)] a(1,3) Let_def)
    then show ?thesis using "1.IH" [OF False] c n(2) "1.prems"(2-5) by simp
  qed simp
qed

lemma lookup_same:
  "records_fit scratch o1 off \<Longrightarrow> take off v = take off scratch \<Longrightarrow> off + 34 \<le> length v \<Longrightarrow> length v = length scratch \<Longrightarrow> length v = 2048 \<Longrightarrow>
   lookup_records name v off = lookup_records name scratch off \<Longrightarrow> lookup_records name v o1 = lookup_records name scratch o1"
proof (induction scratch o1 off rule: records_fit.induct)
  case (1 scratch o1 off)
  show ?case
  proof (cases "o1 = off")
    case False
    then have c: "o1 < off" "scratch ! o1 \<noteq> 0" "record_fits scratch o1" "records_fit scratch (o1 + unat (scratch ! o1)) off"
      using "1.prems"(1) by (subst (asm) records_fit.simps; simp split: if_splits)+
    note le = records_fit_le [OF c(4)]
    note a = record_entry_agree [OF "1.prems"(2) c(3) le _ "1.prems"(4)]
    have g: "\<not> (o1 + 34 > 2048 \<or> scratch ! o1 = 0)" "\<not> (o1 + 34 > 2048 \<or> v ! o1 = 0)"
      using c le a(1) "1.prems"(3,5) by (auto simp: record_fits_def)
    have "lookup_records name v (o1 + unat (scratch ! o1)) = lookup_records name scratch (o1 + unat (scratch ! o1))"
      using "1.IH" [OF False] c "1.prems"(2-6) by simp
    then show ?thesis
      using "1.prems"(3) unfolding lookup_records_entry [OF g(1) c(3)]
      by (simp add: lookup_records_entry [OF g(2) a(2)] a(1,3) Let_def)
  qed (use "1.prems"(6) in simp)
qed

lemma lookup_sectors_same:
  "\<forall>j<n. \<exists>b b'. rd (lba + word_of_nat (s + j)) = Some b \<and> rd' (lba + word_of_nat (s + j)) = Some b' \<and>
      lookup_records name b' 0 = lookup_records name b 0 \<Longrightarrow>
   lookup_sectors rd' name lba s n = lookup_sectors rd name lba s n"
proof (induction n arbitrary: s)
  case (Suc n)
  obtain b b' where b: "rd (lba + word_of_nat s) = Some b" "rd' (lba + word_of_nat s) = Some b'" "lookup_records name b' 0 = lookup_records name b 0"
    using Suc.prems [rule_format, of 0] by auto
  have "lookup_sectors rd' name lba (s + 1) n = lookup_sectors rd name lba (s + 1) n"
    using Suc.prems [rule_format, of "Suc _"] by (intro Suc.IH) simp
  then show ?case by (simp only: lookup_sectors.simps b option.case)
qed simp

lemma extent_sectors_same:
  "\<forall>i<k. rd' (lba + word_of_nat i) = rd (lba + word_of_nat i) \<Longrightarrow> extent_sectors rd' lba k = extent_sectors rd lba k"
proof (induction k)
  case (Suc k)
  then show ?case using extent_sectors_append [of rd' lba k 1] extent_sectors_append [of rd lba k 1] by simp
qed simp

lemma lookup_sectors_at:
  assumes "k < n" "\<forall>j<k. \<exists>b. rd (lba + word_of_nat (s + j)) = Some b \<and> lookup_records name b 0 = None"
    "rd (lba + word_of_nat (s + k)) = Some v" "lookup_records name v 0 = Some r"
  shows "lookup_sectors rd name lba s n = Some r"
  using assms
proof (induction n arbitrary: k s)
  case (Suc n)
  show ?case
  proof (cases k)
    case 0
    then show ?thesis using Suc.prems by simp
  next
    case (Suc k')
    obtain b where b: "rd (lba + word_of_nat s) = Some b" "lookup_records name b 0 = None"
      using Suc.prems(2) \<open>k = Suc k'\<close> by force
    have "lookup_sectors rd name lba (s + 1) n = Some r"
    proof (rule Suc.IH [of k'])
      show "\<forall>j<k'. \<exists>b. rd (lba + word_of_nat (s + 1 + j)) = Some b \<and> lookup_records name b 0 = None"
      proof (intro allI impI)
        fix j assume "j < k'"
        then show "\<exists>b. rd (lba + word_of_nat (s + 1 + j)) = Some b \<and> lookup_records name b 0 = None"
          using Suc.prems(2) [rule_format, of "Suc j"] \<open>k = Suc k'\<close> by simp
      qed
    qed (use Suc.prems \<open>k = Suc k'\<close> in simp_all)
    then show ?thesis using b by simp
  qed
qed simp

lemma lookup_sectors_none:
  "lookup_sectors rd name lba s n = None \<Longrightarrow> \<forall>j<n. rd (lba + word_of_nat (s + j)) \<noteq> None \<Longrightarrow> j < n \<Longrightarrow>
     \<exists>b. rd (lba + word_of_nat (s + j)) = Some b \<and> lookup_records name b 0 = None"
proof (induction n arbitrary: s j)
  case (Suc n)
  obtain b where b: "rd (lba + word_of_nat s) = Some b" using Suc.prems(2) by force
  then have n: "lookup_records name b 0 = None" "lookup_sectors rd name lba (s + 1) n = None"
    using Suc.prems(1) by (auto split: option.splits)
  show ?case
  proof (cases j)
    case 0
    then show ?thesis using b n by simp
  next
    case (Suc j')
    have "\<forall>j<n. rd (lba + word_of_nat (s + 1 + j)) \<noteq> None"
      using Suc.prems(2) [rule_format, of "Suc _"] by simp
    then show ?thesis using Suc.IH [OF n(2), of j'] Suc.prems(3) \<open>j = Suc j'\<close> by (simp add: ac_simps)
  qed
qed simp

section \<open>The free slot\<close>

lemma eod_walk_count: "eod_walk dir_size scratch o1 walked = (off, w) \<Longrightarrow> o1 \<le> off \<and> w = walked + word_of_nat (off - o1)"
proof (induction dir_size scratch o1 walked rule: eod_walk.induct)
  case (1 dir_size scratch o1 walked)
  show ?case
  proof (cases "o1 < 2048 \<and> walked < dir_size \<and> \<not> (unat (scratch ! o1) = 0 \<or> unat (scratch ! o1) < 34 \<or> o1 + unat (scratch ! o1) > 2048)")
    case True
    then have "eod_walk dir_size scratch (o1 + unat (scratch ! o1)) (walked + word_of_nat (unat (scratch ! o1))) = (off, w)"
      using "1.prems" by (subst (asm) eod_walk.simps) (simp add: Let_def)
    then have i: "o1 + unat (scratch ! o1) \<le> off \<and> w = walked + word_of_nat (unat (scratch ! o1)) + word_of_nat (off - (o1 + unat (scratch ! o1)))"
      using "1.IH" True by simp
    have "word_of_nat (unat (scratch ! o1)) + word_of_nat (off - (o1 + unat (scratch ! o1))) = (word_of_nat (off - o1) :: u32)"
      using i unfolding of_nat_add [symmetric] by simp
    with i show ?thesis by (simp add: add.assoc)
  next
    case False
    then show ?thesis using "1.prems" by (subst (asm) eod_walk.simps) (auto simp: Let_def split: if_splits)
  qed
qed

lemma find_eod_found:
  assumes "find_eod_in_dir rd dir_lba dir_size = Some (es, eo, w)"
  obtains off where "0 < sectors_of dir_size" "es = dir_lba + word_of_nat (sectors_of dir_size - 1)" "eo = word_of_nat off"
    "off + 47 \<le> 2048" "w = word_of_nat ((sectors_of dir_size - 1) * 2048 + off)" "\<forall>j < sectors_of dir_size. rd (dir_lba + word_of_nat j) \<noteq> None"
proof -
  have gen: "\<exists>off. 0 < n \<and> es = dir_lba + word_of_nat (s + n - 1) \<and> eo = word_of_nat off \<and> off + 47 \<le> 2048
      \<and> w = word_of_nat ((s + n - 1) * 2048 + off) \<and> (\<forall>j<n. rd (dir_lba + word_of_nat (s + j)) \<noteq> None)"
    if "eod_sectors rd dir_lba dir_size s n = Some (es, eo, w)" for s n
    using that
  proof (induction n arbitrary: s)
    case (Suc n)
    then obtain scratch where sc: "rd (dir_lba + word_of_nat s) = Some scratch" by (auto split: option.splits)
    show ?case
    proof (cases n)
      case 0
      obtain off w1 where e: "eod_walk dir_size scratch 0 (word_of_nat s * 2048) = (off, w1)" by fastforce
      have "w1 = word_of_nat (s * 2048 + off)" using eod_walk_count [OF e] by simp
      then show ?thesis using Suc.prems sc 0 e by (auto intro!: exI [of _ off] split: if_splits)
    next
      case (Suc m)
      then have "eod_sectors rd dir_lba dir_size (s + 1) n = Some (es, eo, w)" using Suc.prems sc by simp
      then obtain off where o: "es = dir_lba + word_of_nat (s + 1 + n - 1)" "eo = word_of_nat off" "off + 47 \<le> 2048"
        "w = word_of_nat ((s + 1 + n - 1) * 2048 + off)" "\<forall>j<n. rd (dir_lba + word_of_nat (s + 1 + j)) \<noteq> None"
        using Suc.IH [of "s + 1"] by blast
      have "\<forall>j<Suc n. rd (dir_lba + word_of_nat (s + j)) \<noteq> None"
      proof (intro allI impI)
        fix j assume "j < Suc n"
        then show "rd (dir_lba + word_of_nat (s + j)) \<noteq> None" using sc o(5) by (cases j) (simp_all add: ac_simps)
      qed
      with o show ?thesis by (intro exI [of _ off]) simp
    qed
  qed simp
  show ?thesis using gen [of 0 "sectors_of dir_size"] assms that unfolding find_eod_in_dir_def by auto
qed

section \<open>The injected record\<close>

definition premount_record :: "u32 \<Rightarrow> u32 \<Rightarrow> bytes" where
  "premount_record extent size' =
     [46, 0] @ to_le 4 extent @ to_be 4 extent @ to_le 4 size' @ to_be 4 size' @ replicate 10 0 @ [1, 0, 0, 1, 13]
     @ bstr ''PREMOUNT.CPIO'' @ [0]"

lemma premount_record_length: "length (premount_record extent size') = 47"
  by (simp add: premount_record_def)

lemma premount_blob:
  "build_premount_cpio_entry (replicate 128 0) extent size' = (premount_record extent size' @ replicate 81 0, 47)"
proof -
  have t: "to_le 2 (1 :: u16) = [1, 0]" "to_be 2 (1 :: u16) = [0, 1]" by code_simp+
  have r: "replicate 10 0 = replicate 7 0 @ [0, 0, 0 :: u8]" by (simp add: numeral_eq_Suc)
  have w: "(word_of_nat (length (bstr ''PREMOUNT.CPIO'')) :: u8) = 13" by simp
  show ?thesis
    unfolding build_premount_cpio_entry_def premount_record_def Let_def w t r paste_def by simp
qed

lemma premount_record_entry:
  assumes "length pre = off"
  shows "(pre @ premount_record extent size' @ post) ! off = 46" "off + 46 \<le> 2048 \<Longrightarrow> record_fits (pre @ premount_record extent size' @ post) off"
    "record_entry (pre @ premount_record extent size' @ post) off =
       \<lparr>ie_name = bstr ''PREMOUNT.CPIO'', ie_extent = extent, ie_size = size', ie_is_dir = False\<rparr>"
proof -
  have n: "(pre @ premount_record extent size' @ post) ! (off + i) = (premount_record extent size' @ post) ! i" for i
    using assms by (simp add: nth_append)
  have d: "drop (off + i) (pre @ premount_record extent size' @ post) = drop i (premount_record extent size' @ post)" for i
    using assms by simp
  show 1: "(pre @ premount_record extent size' @ post) ! off = 46"
    using n [of 0] by (simp add: premount_record_def)
  have "(premount_record extent size' @ post) ! 32 = 13" "(premount_record extent size' @ post) ! 25 = 0"
    by (simp_all add: premount_record_def nth_append bstr_def)
  then have 2: "(pre @ premount_record extent size' @ post) ! (off + 32) = 13" "(pre @ premount_record extent size' @ post) ! (off + 25) = 0"
    by (simp_all add: n)
  show "off + 46 \<le> 2048 \<Longrightarrow> record_fits (pre @ premount_record extent size' @ post) off"
    by (simp add: record_fits_def 1 2)
  have t: "take 13 (drop 33 (premount_record extent size' @ post)) = bstr ''PREMOUNT.CPIO''"
    "take 4 (drop 2 (premount_record extent size' @ post)) = to_le 4 extent"
    "take 4 (drop 10 (premount_record extent size' @ post)) = to_le 4 size'"
    by (simp_all add: premount_record_def)
  have l: "take (iso_name_effective_len (bstr ''PREMOUNT.CPIO'')) (bstr ''PREMOUNT.CPIO'') = bstr ''PREMOUNT.CPIO''"
    by code_simp
  have u: "unat (13 :: u8) = 13" by simp
  show "record_entry (pre @ premount_record extent size' @ post) off =
       \<lparr>ie_name = bstr ''PREMOUNT.CPIO'', ie_extent = extent, ie_size = size', ie_is_dir = False\<rparr>"
    unfolding record_entry_def Let_def d 2 u t l by simp
qed

definition premount_ucs2 :: ucs2 where
  "premount_ucs2 = map ucast (bstr ''PREMOUNT.CPIO'')"

lemma premount_name: "ucs2_name premount_ucs2 = bstr ''PREMOUNT.CPIO''"
  unfolding premount_ucs2_def by (rule ucs2_name_plain) (auto simp: bstr_def)

lemma lookup_injected:
  assumes "length pre = off" "off + 47 \<le> 2048"
  shows "lookup_records premount_ucs2 (pre @ premount_record extent size' @ post) off = Some (extent, size', False)"
proof -
  have "\<not> (2048 < off + 34 \<or> (pre @ premount_record extent size' @ post) ! off = 0)"
    using assms by (simp add: premount_record_entry(1))
  from lookup_records_entry [OF this premount_record_entry(2) [OF assms(1)]] assms(2)
  show ?thesis by (simp add: premount_record_entry(3) [OF assms(1)] premount_name same_name_def Let_def)
qed

lemma lookup_not_injected:
  assumes "length pre = off" "off + 47 \<le> 2048" "\<not> same_name (bstr ''PREMOUNT.CPIO'') (ucs2_name name)"
  shows "lookup_records name (pre @ premount_record extent size' @ post) off = None"
proof -
  let ?v = "pre @ premount_record extent size' @ post"
  have "\<not> (2048 < off + 34 \<or> ?v ! off = 0)" using assms by (simp add: premount_record_entry(1))
  from lookup_records_entry [OF this premount_record_entry(2) [OF assms(1)]] assms(2,3)
  have "lookup_records name ?v off = lookup_records name ?v (off + 46)"
    by (simp add: premount_record_entry(1,3) [OF assms(1)] Let_def)
  moreover have "?v ! (off + 46) = 0"
    using assms(1) by (simp add: nth_append premount_record_length) (simp add: premount_record_def nth_append bstr_def)
  then have "lookup_records name ?v (off + 46) = None" by (subst lookup_records.simps) simp
  ultimately show ?thesis by simp
qed

section \<open>The disc with the archive\<close>

definition fresh_vbio :: "virtual_block_io \<Rightarrow> bool" where
  "fresh_vbio vb \<longleftrightarrow> \<not> vb_dir_entry_patched vb \<and> \<not> vb_premount_entry_patched vb \<and> mf_buf (vb_patched_file vb) = None"

definition with_archive :: "virtual_block_io \<Rightarrow> bytes \<Rightarrow> u32 \<Rightarrow> nat \<Rightarrow> u32 \<Rightarrow> u32 \<Rightarrow> virtual_block_io" where
  "with_archive vb cpio es off w cs = inject_entry (with_premount_file vb cpio (length cpio)) es (word_of_nat off) w cs"

text \<open>An archive of whole sectors that fits behind the last block.\<close>

definition room_for :: "virtual_block_io \<Rightarrow> bytes \<Rightarrow> bool" where
  "room_for vb cpio \<longleftrightarrow> length cpio mod 2048 = 0 \<and> unat (vb_last_block vb) + 1 + length cpio div 2048 < 2 ^ 32"

definition first_block :: "virtual_block_io \<Rightarrow> u32" where
  "first_block vb = word_of_nat (unat (vb_last_block vb) + 1)"

lemma room_unat:
  assumes "room_for vb cpio"
  shows "unat (first_block vb) = unat (vb_last_block vb) + 1"
    "ucast (saturating_add64 (vb_last_block vb) 1) = first_block vb"
    "(length cpio + 2047) div 2048 = length cpio div 2048"
    "unat (word_of_nat (length cpio div 2048) :: u32) = length cpio div 2048"
proof -
  have l: "unat (vb_last_block vb) + 1 + length cpio div 2048 < 4294967296" using assms by (simp add: room_for_def)
  then show "unat (first_block vb) = unat (vb_last_block vb) + 1"
    unfolding first_block_def unsigned_of_nat by (simp add: take_bit_nat_eq_self)
  show "unat (word_of_nat (length cpio div 2048) :: u32) = length cpio div 2048"
    using l by (simp add: unsigned_of_nat take_bit_nat_eq_self)
  have u: "unat (vb_last_block vb + 1) = unat (vb_last_block vb) + 1"
    using l by (subst unat_add_lem [THEN iffD1]) simp_all
  have "(ucast (vb_last_block vb + 1) :: u32) = first_block vb"
    unfolding first_block_def u [symmetric] by (rule of_nat_unat [symmetric])
  then show "ucast (saturating_add64 (vb_last_block vb) 1) = first_block vb"
    using l by (simp add: saturating_add64_def)
  have "length cpio = length cpio div 2048 * 2048"
    using assms div_mult_mod_eq [of "length cpio" 2048] by (simp add: room_for_def)
  then obtain q where "length cpio = q * 2048" by blast
  then show "(length cpio + 2047) div 2048 = length cpio div 2048" by simp
qed

lemma with_archive_fields:
  assumes "room_for vb cpio"
  shows "vb_backing (with_archive vb cpio es off w cs) = vb_backing vb" "vb_iso_lba (with_archive vb cpio es off w cs) = vb_iso_lba vb"
    "vb_dir_entry_patched (with_archive vb cpio es off w cs) = vb_dir_entry_patched vb"
    "vb_premount_entry_patched (with_archive vb cpio es off w cs) = vb_premount_entry_patched vb"
    "vb_patched_file (with_archive vb cpio es off w cs) = vb_patched_file vb"
    "vb_premount_file (with_archive vb cpio es off w cs) =
       \<lparr>mf_sector = first_block vb, mf_sectors = word_of_nat (length cpio div 2048), mf_buf = Some cpio\<rparr>"
    "vb_premount_entry_injected (with_archive vb cpio es off w cs)" "vb_premount_entry_sector (with_archive vb cpio es off w cs) = es"
    "vb_premount_entry_offset (with_archive vb cpio es off w cs) = word_of_nat off"
    "vb_premount_entry_injected_blob (with_archive vb cpio es off w cs) = premount_record (first_block vb) cs @ replicate 81 0"
    "vb_premount_entry_injected_size (with_archive vb cpio es off w cs) = 47"
    "vb_premount_new_root_size (with_archive vb cpio es off w cs) = saturating_add32 w 47"
  using room_unat(2,3) [OF assms]
  by (simp_all add: with_archive_def inject_entry_def with_premount_file_def premount_blob Let_def)

lemma with_archive_ok:
  assumes "room_for vb cpio" "fresh_vbio vb" "backing_ok (vb_backing vb)"
  shows "vbio_ok (with_archive vb cpio es off w cs)"
  using assms(2,3) room_unat(4) [OF assms(1)]
  by (simp add: vbio_ok_def with_archive_fields [OF assms(1)] mem_file_ok_def fresh_vbio_def premount_record_length)

lemma archive_not_below:
  assumes "room_for vb cpio" "unat (s :: u32) \<le> unat (vb_last_block vb)"
  shows "serve_memory_sector (vb_premount_file (with_archive vb cpio es off w cs)) (ucast s) = Some None"
proof -
  have "(ucast s :: u64) < ucast (first_block vb)"
    using assms(2) by (simp add: word_less_nat_alt unat_ucast64 room_unat(1) [OF assms(1)])
  then show ?thesis by (simp add: serve_memory_sector_def with_archive_fields [OF assms(1)])
qed

lemma serve_none: "mf_buf mf = None \<Longrightarrow> serve_memory_sector mf lba = Some None"
  by (simp add: serve_memory_sector_def)

lemma archive_real_sector:
  assumes "room_for vb cpio" "fresh_vbio vb" "whole_sectors (vb_backing vb)" "unat s \<le> unat (vb_last_block vb)" "s \<noteq> 16" "s \<noteq> es"
  shows "virtual_sector (with_archive vb cpio es off w cs) s = real_sector vb s"
proof -
  let ?vb = "with_archive vb cpio es off w cs"
  note f = with_archive_fields [OF assms(1), of es off w cs]
  have "virtual_sector ?vb s = real_sector ?vb s"
    using assms(2,3,5,6) archive_not_below [OF assms(1,4), of es off w cs]
    by (intro virtual_sector_real) (simp_all add: f fresh_vbio_def needs_premount_injected_def needs_grub_patch_def needs_premount_patch_def
        serve_none ucast_u64_inj)
  then show ?thesis by (simp add: real_sector_def f)
qed

lemma archive_entry_sector:
  assumes "room_for vb cpio" "fresh_vbio vb" "whole_sectors (vb_backing vb)" "real_sector vb es = Some sec" "off + 47 \<le> 2048"
  shows "virtual_sector (with_archive vb cpio es off w cs) es =
    Some (take off sec @ premount_record (first_block vb) cs @ drop (off + 47) sec)"
proof -
  let ?vb = "with_archive vb cpio es off w cs"
  note f = with_archive_fields [OF assms(1), of es off w cs]
  have r: "read_real_iso_sector ?vb (ucast es) = Some sec"
    using assms(3,4) real_sector_vbio [of ?vb es] by (simp add: f real_sector_def)
  have l: "length sec = 2048" using isoio.rd_2048 assms(4) unfolding real_sector_def by blast
  have "inject_patch ?vb sec = Some (take off sec @ premount_record (first_block vb) cs @ drop (off + 47) sec)"
    using assms(5) l by (simp add: inject_patch_def f Let_def unsigned_of_nat take_bit_nat_eq_self slice_def blit_def premount_record_length)
  then show ?thesis
    using assms(2) by (simp add: virtual_sector_def block_content_def needs_premount_injected_def needs_grub_patch_def real_then_def f fresh_vbio_def r)
qed

lemma archive_file_sector:
  assumes "room_for vb cpio" "fresh_vbio vb" "i < length cpio div 2048" "unat es \<le> unat (vb_last_block vb)"
  shows "virtual_sector (with_archive vb cpio es off w cs) (first_block vb + word_of_nat i) = Some (take 2048 (drop (i * 2048) cpio))"
proof -
  let ?vb = "with_archive vb cpio es off w cs" and ?s = "first_block vb + word_of_nat i"
  note f = with_archive_fields [OF assms(1), of es off w cs] and r = room_unat [OF assms(1)]
  have l: "unat (vb_last_block vb) + 1 + length cpio div 2048 < 4294967296" using assms(1) by (simp add: room_for_def)
  have ui: "unat (word_of_nat i :: u32) = i" using assms(3) l by (simp add: unsigned_of_nat take_bit_nat_eq_self)
  have us: "unat ?s = unat (vb_last_block vb) + 1 + i"
    using l assms(3) r(1) ui by (subst unat_add_lem [THEN iffD1]) simp_all
  have ne: "?s \<noteq> es" using us assms(4) by auto
  have ge: "ucast (first_block vb) \<le> (ucast ?s :: u64)" by (simp add: word_le_nat_alt unat_ucast64 us r(1))
  have d: "unat (ucast ?s - ucast (first_block vb) :: u64) = i"
    using ge by (subst unat_sub_no_wrap) (simp_all add: unat_ucast64 us r(1))
  have "unat (ucast (first_block vb) + ucast (word_of_nat (length cpio div 2048) :: u32) :: u64) = unat (vb_last_block vb) + 1 + length cpio div 2048"
    using l by (subst unat_add_lem [THEN iffD1]) (simp_all add: unat_ucast64 r(1,4))
  then have hi: "\<not> ucast (first_block vb) + ucast (word_of_nat (length cpio div 2048) :: u32) \<le> (ucast ?s :: u64)"
    using assms(3) by (simp add: word_le_nat_alt unat_ucast64 us)
  have nz: "(word_of_nat (length cpio div 2048) :: u32) \<noteq> 0" using r(4) assms(3) by auto
  have "Suc i \<le> length cpio div 2048" using assms(3) by simp
  then have len: "i * 2048 + 2048 \<le> length cpio" by (simp add: less_eq_div_iff_mult_less_eq)
  have "serve_memory_sector (vb_premount_file ?vb) (ucast ?s) = Some (Some (take 2048 (drop (i * 2048) cpio)))"
    using ge hi nz len by (simp add: serve_memory_sector_def f Let_def d slice_Some not_less)
  then show ?thesis
    using ne assms(2) by (simp add: virtual_sector_def block_content_def needs_premount_injected_def needs_grub_patch_def
        needs_premount_patch_def f fresh_vbio_def ucast_u64_inj)
qed

lemma paste_before:
  "i + k \<le> off \<Longrightarrow> off + length src \<le> length dst \<Longrightarrow> take k (drop i (paste dst off src)) = take k (drop i dst)"
  by (rule paste_slice_before [of i k off]) simp_all

lemma saturating_pos: "0 < saturating_add32 w 47"
proof (cases "unat w + unat (47 :: u32) < 2 ^ 32")
  case True
  then have "unat (w + 47) = unat w + 47" by (subst unat_add_lem [THEN iffD1]) simp_all
  then show ?thesis using True by (simp add: saturating_add32_def word_less_nat_alt)
qed (simp add: saturating_add32_def word_gt_0)

lemma archive_pvd:
  assumes "room_for vb cpio" "fresh_vbio vb" "whole_sectors (vb_backing vb)" "real_sector vb 16 = Some pvd" "es \<noteq> 16"
    "16 \<le> unat (vb_last_block vb)" "pvd_root pvd = Some (root_lba, root_size)"
  shows "\<exists>s. virtual_sector (with_archive vb cpio es off w cs) 16 = Some s \<and> pvd_root s = Some (root_lba, saturating_add32 w 47)"
proof -
  let ?vb = "with_archive vb cpio es off w cs"
  note f = with_archive_fields [OF assms(1), of es off w cs]
  have r: "read_real_iso_sector ?vb 16 = Some pvd"
    using assms(3,4) real_sector_vbio [of ?vb 16] by (simp add: f real_sector_def)
  have l: "length pvd = 2048" using isoio.rd_2048 assms(4) unfolding real_sector_def by blast
  have u: "ucast (16 :: u32) = (16 :: u64)" "(16 :: u64) \<noteq> ucast es" using assms(5) ucast_u64_inj [of 16 es] by auto
  have b: "block_content ?vb 16 = Some (Served (pvd_patch ?vb pvd))"
    using assms(2) u archive_not_below [OF assms(1), of 16 es off w cs, unfolded f] assms(6)
    by (simp add: block_content_def needs_premount_injected_def needs_grub_patch_def needs_premount_patch_def real_then_def f r
        fresh_vbio_def serve_none)
  define s1 where "s1 = paste (paste pvd 80 (to_le 4 (ucast (vb_last_block ?vb + 1) :: u32))) 84 (to_be 4 (ucast (vb_last_block ?vb + 1) :: u32))"
  define s2 where "s2 = paste (paste s1 166 (to_le 4 (saturating_add32 w 47))) 170 (to_be 4 (saturating_add32 w 47))"
  have p: "pvd_patch ?vb pvd = paste s2 40 (bstr ''CHOOSABLE'' @ replicate 23 0x20)"
    by (simp add: pvd_patch_def f saturating_pos Let_def s1_def s2_def)
  have l1: "length s1 = 2048" and l2: "length s2 = 2048" using l by (simp_all add: s1_def s2_def len_simps)
  have "take 4 (drop 158 (pvd_patch ?vb pvd)) = take 4 (drop 158 pvd)"
    using l l1 l2 by (simp add: p s2_def s1_def paste_slice_after paste_before len_simps)
  moreover have "take 4 (drop 166 (pvd_patch ?vb pvd)) = to_le 4 (saturating_add32 w 47)"
    using l1 paste_slice_same [of 166 s1 "to_le 4 (saturating_add32 w 47)"] by (simp add: p s2_def paste_slice_after paste_before len_simps)
  moreover have "pvd_patch ?vb pvd ! 0 = pvd ! 0" "take 5 (drop 1 (pvd_patch ?vb pvd)) = take 5 (drop 1 pvd)"
    using l l1 l2 by (simp_all add: p s2_def s1_def paste_nth paste_before len_simps)
  ultimately have "pvd_root (pvd_patch ?vb pvd) = Some (root_lba, saturating_add32 w 47)"
    using assms(7) by (auto simp: pvd_root_def split: if_splits)
  then show ?thesis using b u(1) by (simp add: virtual_sector_def)
qed

lemma sectors_of_max: "sectors_of size' \<le> 2 ^ 21"
  using unsigned_less [of size', where ?'a = nat] by (simp add: sectors_of_def)

lemma saturating_sectors:
  assumes "m < 2 ^ 21" "off + 47 \<le> 2048"
  shows "sectors_of (saturating_add32 (word_of_nat (m * 2048 + off)) 47) = m + 1"
proof -
  define x :: u32 where "x = word_of_nat (m * 2048 + off)"
  have b: "m * 2048 + off < 4294967296" using assms by simp
  then have u: "unat x = m * 2048 + off"
    unfolding x_def unsigned_of_nat by (simp add: take_bit_nat_eq_self)
  have "sectors_of (saturating_add32 x 47) = m + 1"
  proof (cases "m * 2048 + off + 47 < 4294967296")
    case True
    then have "unat (x + 47) = m * 2048 + off + 47"
      by (subst unat_add_lem [THEN iffD1]) (simp_all add: u)
    moreover have "(m * 2048 + off + 47 + 2047) div 2048 = m + 1" using assms(2) by (simp add: div_nat_eqI)
    ultimately show ?thesis using True by (simp add: saturating_add32_def sectors_of_def u)
  next
    case False
    then have "m = 2 ^ 21 - 1" using assms by simp
    moreover have "sectors_of (- 1) = 2 ^ 21"
      by (simp add: sectors_of_def unsigned_minus_1_eq_mask mask_eq_exp_minus_1)
    ultimately show ?thesis using False by (simp add: saturating_add32_def u)
  qed
  then show ?thesis by (simp only: x_def)
qed

lemma extent_sectors_all:
  "\<forall>i<k. rd (lba + word_of_nat i) = Some (f i) \<Longrightarrow> extent_sectors rd lba k = Some (map f [0..<k])"
proof (induction k)
  case (Suc k)
  then have "extent_sectors rd lba (k + 1) = Some (map f [0..<k] @ [f k])"
    unfolding extent_sectors_append by simp
  then show ?case by simp
qed simp

lemma concat_chunks: "concat (map (\<lambda>i. take m (drop (i * m) xs)) [0..<k]) = take (k * m) xs"
proof (induction k)
  case (Suc k)
  have "take (Suc k * m) xs = take (k * m + m) xs" by (simp add: add.commute)
  then show ?case using Suc by (simp only: take_add) simp
qed simp

lemma archive_content:
  assumes "room_for vb cpio" "fresh_vbio vb" "unat es \<le> unat (vb_last_block vb)" "unat cs \<le> length cpio"
  shows "extent_content (virtual_sector (with_archive vb cpio es off w cs)) (first_block vb) cs = Some (take (unat cs) cpio)"
proof -
  have k: "sectors_of cs \<le> length cpio div 2048"
    unfolding sectors_of_def using assms(4) room_unat(3) [OF assms(1)] by (metis add_le_cancel_right div_le_mono)
  have "extent_sectors (virtual_sector (with_archive vb cpio es off w cs)) (first_block vb) (sectors_of cs) =
      Some (map (\<lambda>i. take 2048 (drop (i * 2048) cpio)) [0..<sectors_of cs])"
    by (rule extent_sectors_all) (use k archive_file_sector [OF assms(1,2) _ assms(3)] in auto)
  moreover have "unat cs \<le> sectors_of cs * 2048" by (simp add: sectors_of_def)
  ultimately show ?thesis by (simp add: extent_content_def concat_chunks min_absorb1)
qed

section \<open>Mounting the disc\<close>

lemma zero_padded_length:
  "length (pb_cpio bundle) = pb_alloc_size bundle \<Longrightarrow> pb_cpio_size bundle \<le> pb_alloc_size bundle \<Longrightarrow>
     length (zero_padded bundle) = pb_alloc_size bundle \<and>
     take (pb_cpio_size bundle) (zero_padded bundle) = take (pb_cpio_size bundle) (pb_cpio bundle)"
  by (simp add: zero_padded_def)

text \<open>The root directory lies behind the volume descriptor and within the disc.\<close>

definition root_inside :: "virtual_block_io \<Rightarrow> u32 \<Rightarrow> u32 \<Rightarrow> bool" where
  "root_inside vb root_lba root_size \<longleftrightarrow>
     16 < unat root_lba \<and> unat root_lba + sectors_of root_size \<le> unat (vb_last_block vb) + 1"

lemma root_sector:
  assumes "root_inside vb root_lba root_size" "room_for vb cpio" "j < sectors_of root_size"
  shows "unat (root_lba + word_of_nat j) = unat root_lba + j"
proof -
  have l: "unat root_lba + j < 4294967296" using assms by (simp add: root_inside_def room_for_def)
  then have "unat (word_of_nat j :: u32) = j" unfolding unsigned_of_nat by (simp add: take_bit_nat_eq_self)
  then show ?thesis using l by (subst unat_add_lem [THEN iffD1]) simp_all
qed

lemma root_sector_real:
  assumes inside: "root_inside vb root_lba root_size" and room: "room_for vb cpio" and "fresh_vbio vb" "whole_sectors (vb_backing vb)"
    and j: "j < sectors_of root_size - 1"
  shows "virtual_sector (with_archive vb cpio (root_lba + word_of_nat (sectors_of root_size - 1)) off w cs) (root_lba + word_of_nat j)
      = real_sector vb (root_lba + word_of_nat j)"
proof -
  let ?s = "root_lba + word_of_nat j" and ?es = "root_lba + word_of_nat (sectors_of root_size - 1) :: u32"
  have us: "unat ?s = unat root_lba + j" "unat ?es = unat root_lba + (sectors_of root_size - 1)"
    using j by (intro root_sector [OF inside room], linarith)+
  have "16 < unat root_lba" "unat root_lba + sectors_of root_size \<le> unat (vb_last_block vb) + 1"
    using inside by (simp_all add: root_inside_def)
  then have "unat ?s \<noteq> 16" "unat ?s \<noteq> unat ?es" "unat ?s \<le> unat (vb_last_block vb)"
    unfolding us using j by linarith+
  moreover have "unat (16 :: u32) = 16" by simp
  ultimately show ?thesis by (intro archive_real_sector [OF room assms(3,4)]) fastforce+
qed

text \<open>Where the archive's record is, and the root directory a client that mounts the disc finds.\<close>

lemma mount_root:
  assumes room: "room_for vb cpio" and fresh: "fresh_vbio vb" and ws: "whole_sectors (vb_backing vb)"
    and root: "get_root_dir (real_sector vb) = Some (root_lba, root_size)"
    and inside: "root_inside vb root_lba root_size"
    and eod: "find_eod_in_dir (real_sector vb) root_lba root_size = Some (es, eo, w)"
  obtains n where "sectors_of root_size = Suc n" "es = root_lba + word_of_nat n" "unat eo + 47 \<le> 2048" "unat es = unat root_lba + n"
    "unat es \<le> unat (vb_last_block vb)" "\<And>j. j < Suc n \<Longrightarrow> real_sector vb (root_lba + word_of_nat j) \<noteq> None"
    "sectors_of (saturating_add32 w 47) = Suc n"
    "parse_pvd (virtual_sector (with_archive vb cpio es (unat eo) w cs)) = Some (root_lba, saturating_add32 w 47)"
proof -
  let ?t = "sectors_of root_size"
  obtain off where e: "0 < ?t" "es = root_lba + word_of_nat (?t - 1)" "eo = word_of_nat off" "off + 47 \<le> 2048"
    "w = word_of_nat ((?t - 1) * 2048 + off)" "\<forall>j < ?t. real_sector vb (root_lba + word_of_nat j) \<noteq> None"
    by (rule find_eod_found [OF eod])
  have off: "unat eo = off" using e(3,4) unfolding e(3) unsigned_of_nat by (simp add: take_bit_nat_eq_self)
  have ues: "unat es = unat root_lba + (?t - 1)" using root_sector [OF inside room, of "?t - 1"] e(1,2) by simp
  have below: "unat es \<le> unat (vb_last_block vb)" using ues inside e(1) unfolding root_inside_def by linarith
  obtain pvd where pvd: "real_sector vb 16 = Some pvd" "pvd_root pvd = Some (root_lba, root_size)"
    using root by (auto simp: get_root_dir_def split: option.splits)
  have "16 < unat es" "16 \<le> unat (vb_last_block vb)"
    using ues below inside e(1) unfolding root_inside_def by linarith+
  then obtain s where s: "virtual_sector (with_archive vb cpio es (unat eo) w cs) 16 = Some s" "pvd_root s = Some (root_lba, saturating_add32 w 47)"
    using archive_pvd [OF room fresh ws pvd(1) _ _ pvd(2), of es "unat eo" w cs] by fastforce
  have m: "?t - 1 < 2 ^ 21" using sectors_of_max [of root_size] e(1) by simp
  have t: "sectors_of (saturating_add32 w 47) = ?t" using saturating_sectors [OF m e(4)] e(1) unfolding e(5) by simp
  show thesis by (rule that [of "?t - 1"]) (use e off ues below s t in \<open>auto simp: parse_pvd_def\<close>)
qed

lemma mount_finds_archive:
  assumes room: "room_for vb cpio" and fresh: "fresh_vbio vb" and ws: "whole_sectors (vb_backing vb)"
    and root: "get_root_dir (real_sector vb) = Some (root_lba, root_size)"
    and inside: "root_inside vb root_lba root_size"
    and eod: "find_eod_in_dir (real_sector vb) root_lba root_size = Some (es, eo, w)"
    and absent: "lookup_in_dir (real_sector vb) root_lba root_size premount_ucs2 = None"
    and scratch: "real_sector vb es = Some scratch" "records_fit scratch 0 (unat eo)"
    and vb': "vb' = with_archive vb cpio es (unat eo) w cs"
  shows "lookup_in_dir (virtual_sector vb') root_lba (saturating_add32 w 47) premount_ucs2 = Some (first_block vb, cs, False)"
proof -
  obtain n where n: "sectors_of root_size = Suc n" "es = root_lba + word_of_nat n" "unat eo + 47 \<le> 2048"
    "\<And>j. j < Suc n \<Longrightarrow> real_sector vb (root_lba + word_of_nat j) \<noteq> None" "sectors_of (saturating_add32 w 47) = Suc n"
    by (rule mount_root [OF room fresh ws root inside eod, where cs = cs], rule that)
  have none: "\<exists>b. real_sector vb (root_lba + word_of_nat j) = Some b \<and> lookup_records premount_ucs2 b 0 = None" if "j < Suc n" for j
    using lookup_sectors_none [OF absent [unfolded lookup_in_dir_def n(1)], of j] n(4) that by simp
  have "lookup_sectors (virtual_sector vb') premount_ucs2 root_lba 0 (Suc n) = Some (first_block vb, cs, False)"
  proof (rule lookup_sectors_at [where k = n])
    show "\<forall>j<n. \<exists>b. virtual_sector vb' (root_lba + word_of_nat (0 + j)) = Some b \<and> lookup_records premount_ucs2 b 0 = None"
    proof (intro allI impI)
      fix j assume j: "j < n"
      then have "virtual_sector vb' (root_lba + word_of_nat j) = real_sector vb (root_lba + word_of_nat j)"
        using root_sector_real [OF inside room fresh ws, of j] by (simp add: vb' n(1,2))
      then show "\<exists>b. virtual_sector vb' (root_lba + word_of_nat (0 + j)) = Some b \<and> lookup_records premount_ucs2 b 0 = None"
        using none [of j] j by simp
    qed
    have len: "length scratch = 2048" using isoio.rd_2048 scratch(1) unfolding real_sector_def by blast
    let ?v = "take (unat eo) scratch @ premount_record (first_block vb) cs @ drop (unat eo + 47) scratch"
    show "virtual_sector vb' (root_lba + word_of_nat (0 + n)) = Some ?v"
      using archive_entry_sector [OF room fresh ws scratch(1) n(3)] unfolding vb' by (simp add: n(2))
    have "lookup_records premount_ucs2 scratch 0 = None" using none [of n] n(2) scratch(1) by simp
    then have "lookup_records premount_ucs2 ?v 0 = lookup_records premount_ucs2 ?v (unat eo)"
      using scratch(2) len n(3) by (intro lookup_agree) (simp_all add: premount_record_length)
    also have "\<dots> = Some (first_block vb, cs, False)" using n(3) len by (intro lookup_injected) simp_all
    finally show "lookup_records premount_ucs2 ?v 0 = Some (first_block vb, cs, False)" .
  qed simp
  then show ?thesis by (simp add: lookup_in_dir_def n(5))
qed

text \<open>Every other name of the root directory is looked up as on the ISO.\<close>

lemma mount_keeps_names:
  assumes room: "room_for vb cpio" and fresh: "fresh_vbio vb" and ws: "whole_sectors (vb_backing vb)"
    and root: "get_root_dir (real_sector vb) = Some (root_lba, root_size)"
    and inside: "root_inside vb root_lba root_size"
    and eod: "find_eod_in_dir (real_sector vb) root_lba root_size = Some (es, eo, w)"
    and scratch: "real_sector vb es = Some scratch" "records_fit scratch 0 (unat eo)" "scratch ! unat eo = 0"
    and name: "\<not> same_name (bstr ''PREMOUNT.CPIO'') (ucs2_name name)"
    and vb': "vb' = with_archive vb cpio es (unat eo) w cs"
  shows "lookup_in_dir (virtual_sector vb') root_lba (saturating_add32 w 47) name = lookup_in_dir (real_sector vb) root_lba root_size name"
proof -
  obtain n where n: "sectors_of root_size = Suc n" "es = root_lba + word_of_nat n" "unat eo + 47 \<le> 2048"
    "\<And>j. j < Suc n \<Longrightarrow> real_sector vb (root_lba + word_of_nat j) \<noteq> None" "sectors_of (saturating_add32 w 47) = Suc n"
    by (rule mount_root [OF room fresh ws root inside eod, where cs = cs], rule that)
  have len: "length scratch = 2048" using isoio.rd_2048 scratch(1) unfolding real_sector_def by blast
  let ?v = "take (unat eo) scratch @ premount_record (first_block vb) cs @ drop (unat eo + 47) scratch"
  have "lookup_records name scratch (unat eo) = None" using scratch(3) by (subst lookup_records.simps) simp
  moreover have "lookup_records name ?v (unat eo) = None" using n(3) len by (intro lookup_not_injected [OF _ _ name]) simp_all
  ultimately have v: "lookup_records name ?v 0 = lookup_records name scratch 0"
    using len n(3) by - (rule lookup_same [OF scratch(2)]; simp add: premount_record_length)
  have s: "virtual_sector vb' es = Some ?v"
    using archive_entry_sector [OF room fresh ws scratch(1) n(3)] unfolding vb' .
  have "lookup_sectors (virtual_sector vb') name root_lba 0 (Suc n) = lookup_sectors (real_sector vb) name root_lba 0 (Suc n)"
  proof (rule lookup_sectors_same, intro allI impI)
    fix j assume j: "j < Suc n"
    show "\<exists>b b'. real_sector vb (root_lba + word_of_nat (0 + j)) = Some b \<and> virtual_sector vb' (root_lba + word_of_nat (0 + j)) = Some b' \<and>
      lookup_records name b' 0 = lookup_records name b 0"
    proof (cases "j = n")
      case True
      then show ?thesis using v s scratch(1) by (simp add: n(2))
    next
      case False
      then have "virtual_sector vb' (root_lba + word_of_nat j) = real_sector vb (root_lba + word_of_nat j)"
        using j root_sector_real [OF inside room fresh ws, of j] by (simp add: vb' n(1,2))
      then show ?thesis using n(4) [OF j] by auto
    qed
  qed
  then show ?thesis by (simp add: lookup_in_dir_def n(1,5))
qed

text \<open>A file whose sectors avoid the volume descriptor and the end of the root directory has its content as on the ISO.\<close>

lemma archive_keeps_content:
  assumes "room_for vb cpio" "fresh_vbio vb" "whole_sectors (vb_backing vb)"
    and "\<forall>i < sectors_of sz. unat (lba + word_of_nat i :: u32) \<le> unat (vb_last_block vb) \<and> lba + word_of_nat i \<noteq> 16 \<and> lba + word_of_nat i \<noteq> es"
  shows "extent_content (virtual_sector (with_archive vb cpio es off w cs)) lba sz = extent_content (real_sector vb) lba sz"
proof -
  have "extent_sectors (virtual_sector (with_archive vb cpio es off w cs)) lba (sectors_of sz) = extent_sectors (real_sector vb) lba (sectors_of sz)"
    using assms(4) archive_real_sector [OF assms(1-3)] by (intro extent_sectors_same) simp
  then show ?thesis by (simp add: extent_content_def)
qed

end
