(* ===== verification/EfiIsoCfg.thy ===== *)
theory EfiIsoCfg
  imports EfiIso EfiGrub
begin

text \<open>
  Which configuration file of an ISO is patched, and how the patched file becomes part of the virtual disc
  (\<open>efi/src/iso.rs\<close>). The outer \<open>None\<close> of the fallible functions is a panic of the patching engine.
\<close>

section \<open>Files with an extension\<close>

text \<open>Extent, size, and the sector and offset of the record.\<close>

type_synonym found_file = "u32 \<times> u32 \<times> u32 \<times> u32"

definition has_ext_ci :: "bytes \<Rightarrow> bytes \<Rightarrow> bool" where
  "has_ext_ci ext nm \<longleftrightarrow> length nm \<ge> length ext + 1 \<and>
     (let e = drop (length nm - (length ext + 1)) nm
      in e ! 0 = 46 \<and> map (\<lambda>a. a OR 0x20) (tl e) = map (\<lambda>b. b OR 0x20) ext)"

definition add_found :: "found_file list \<Rightarrow> found_file \<Rightarrow> found_file list" where
  "add_found entries f = (if fst f \<in> fst ` set entries then entries else entries @ [f])"

text \<open>
  The recursion: \<open>levels\<close> is 17 less the depth. The list of the entries found has room for 32.
\<close>

fun ext_records :: "bytes \<Rightarrow> (u32 \<Rightarrow> u32 \<Rightarrow> found_file list \<Rightarrow> found_file list) \<Rightarrow> u32 \<Rightarrow> u32 \<Rightarrow> bytes \<Rightarrow> nat list
    \<Rightarrow> found_file list \<Rightarrow> found_file list" where
  "ext_records ext sub dir_lba sector scratch [] entries = entries"
| "ext_records ext sub dir_lba sector scratch (off # offs) entries =
     (let nm = record_name scratch off; name = take (iso_effective_name_len nm) nm;
          is_dir = record_is_dir scratch off; extent = record_extent scratch off; size' = record_size scratch off
      in if record_is_dot scratch off then ext_records ext sub dir_lba sector scratch offs entries
         else
           let entries1 = (if has_ext_ci ext name \<and> \<not> is_dir \<and> length entries < 32
                 then add_found entries (extent, size', sector, word_of_nat off) else entries);
               entries2 = (if is_dir \<and> extent \<noteq> dir_lba \<and> length entries1 < 32 then sub extent size' entries1 else entries1)
           in ext_records ext sub dir_lba sector scratch offs entries2)"

fun ext_sectors :: "(u32 \<Rightarrow> bytes option) \<Rightarrow> bytes \<Rightarrow> (u32 \<Rightarrow> u32 \<Rightarrow> found_file list \<Rightarrow> found_file list) \<Rightarrow> u32 \<Rightarrow> u32 \<Rightarrow> nat \<Rightarrow> nat
    \<Rightarrow> found_file list \<Rightarrow> found_file list" where
  "ext_sectors rd ext sub dir_lba dir_size s 0 entries = entries"
| "ext_sectors rd ext sub dir_lba dir_size s (Suc n) entries =
     (case rd (dir_lba + word_of_nat s) of
        None \<Rightarrow> entries
      | Some scratch \<Rightarrow>
          ext_sectors rd ext sub dir_lba dir_size (s + 1) n
            (ext_records ext sub dir_lba (dir_lba + word_of_nat s) scratch (record_offsets (dir_limit dir_size s) scratch 0) entries))"

primrec find_files_with_ext :: "nat \<Rightarrow> (u32 \<Rightarrow> bytes option) \<Rightarrow> bytes \<Rightarrow> u32 \<Rightarrow> u32 \<Rightarrow> found_file list \<Rightarrow> found_file list" where
  "find_files_with_ext 0 rd ext dir_lba dir_size entries = entries"
| "find_files_with_ext (Suc levels) rd ext dir_lba dir_size entries =
     (if length entries \<ge> 32 then entries
      else ext_sectors rd ext (find_files_with_ext levels rd ext) dir_lba dir_size 0 (sectors_of dir_size) entries)"

definition recursive_find_files_with_ext :: "(u32 \<Rightarrow> bytes option) \<Rightarrow> bytes \<Rightarrow> u32 \<Rightarrow> u32 \<Rightarrow> found_file list" where
  "recursive_find_files_with_ext rd ext dir_lba dir_size = find_files_with_ext 17 rd ext dir_lba dir_size []"

section \<open>Candidates\<close>

record cfg_entry =
  ce_ext_lba :: u32
  ce_ext_size :: u32
  ce_dir_sector :: u32
  ce_dir_offset :: u32
  ce_path :: bytes

definition add_cfg_entry :: "cfg_entry list \<Rightarrow> found_file \<Rightarrow> bytes \<Rightarrow> cfg_entry list" where
  "add_cfg_entry entries f path =
     (let (ext_lba, ext_size, dir_sector, dir_offset) = f
      in if length entries \<ge> 8 then entries
         else if ext_lba \<in> ce_ext_lba ` set entries then entries
         else entries @ [\<lparr>ce_ext_lba = ext_lba, ce_ext_size = ext_size, ce_dir_sector = dir_sector,
                          ce_dir_offset = dir_offset, ce_path = take 63 path\<rparr>])"

fun add_found_cfgs :: "cfg_entry list \<Rightarrow> found_file list \<Rightarrow> bytes \<Rightarrow> cfg_entry list" where
  "add_found_cfgs entries [] path = entries"
| "add_found_cfgs entries (f # fs) path =
     add_found_cfgs (if fst (snd f) = 0 then entries else add_cfg_entry entries f path) fs path"

definition known_paths :: "(bytes \<times> bytes \<times> bytes \<times> bytes) list" where
  "known_paths = map (\<lambda>(a, b, c, d). (bstr a, bstr b, bstr c, bstr d))
     [(''BOOT'', ''GRUB'', ''GRUB.CFG'', ''/boot/grub/grub.cfg''),
      (''BOOT'', ''GRUB'', ''LOOPBACK.CFG'', ''/boot/grub/loopback.cfg''),
      (''BOOT'', ''GRUB2'', ''GRUB.CFG'', ''/boot/grub2/grub.cfg''),
      (''BOOT'', ''GRUB2'', ''LOOPBACK.CFG'', ''/boot/grub2/loopback.cfg''),
      (''EFI'', ''BOOT'', ''GRUB.CFG'', ''/EFI/BOOT/grub.cfg''),
      (''EFI'', ''FEDORA'', ''GRUB.CFG'', ''/EFI/fedora/grub.cfg''),
      (''EFI'', ''FEDORA'', ''GRUB.CFG'', ''/EFI/Fedora/grub.cfg''),
      (''EFI'', ''fedora'', ''GRUB.CFG'', ''/EFI/fedora/grub.cfg''),
      (''EFI'', ''LINUX'', ''GRUB.CFG'', ''/EFI/linux/grub.cfg''),
      (''EFI'', ''LINUX'', ''LOOPBACK.CFG'', ''/EFI/linux/loopback.cfg''),
      ('''', '''', ''GRUB.CFG'', ''/grub.cfg''),
      (''GRUB2'', '''', ''GRUB.CFG'', ''/grub2/grub.cfg''),
      (''FEDORA'', '''', ''GRUB.CFG'', ''/Fedora/grub.cfg''),
      ('''', '''', ''LOOPBACK.CFG'', ''/loopback.cfg''),
      (''GRUB'', '''', ''GRUB.CFG'', ''/grub/grub.cfg''),
      (''EFI'', ''BOOT'', ''GRUB.CFG'', ''/EFI/BOOT/grubx64/grub.cfg''),
      (''EFI'', ''BOOT'', ''GRUB.CFG'', ''/EFI/BOOT/x86_64-efi/grub.cfg''),
      ('''', '''', ''SYSLINUX.CFG'', ''/syslinux/syslinux.cfg''),
      ('''', '''', ''ISOLINUX.CFG'', ''/isolinux/isolinux.cfg'')]"

definition find_known :: "(u32 \<Rightarrow> bytes option) \<Rightarrow> u32 \<Rightarrow> u32 \<Rightarrow> bytes \<Rightarrow> bytes \<Rightarrow> bytes \<Rightarrow> found_file option" where
  "find_known rd root_lba root_size dir1 dir2 filename =
     (if dir1 = [] then find_in_dir_with_loc rd root_lba root_size filename
      else do {
        (l1, s1) \<leftarrow> find_in_dir rd root_lba root_size dir1;
        (l2, s2) \<leftarrow> find_in_dir rd l1 s1 dir2;
        find_in_dir_with_loc rd l2 s2 filename })"

fun add_known :: "(u32 \<Rightarrow> bytes option) \<Rightarrow> u32 \<Rightarrow> u32 \<Rightarrow> cfg_entry list \<Rightarrow> (bytes \<times> bytes \<times> bytes \<times> bytes) list \<Rightarrow> cfg_entry list" where
  "add_known rd root_lba root_size entries [] = entries"
| "add_known rd root_lba root_size entries ((dir1, dir2, filename, path) # ks) =
     add_known rd root_lba root_size
       (case find_known rd root_lba root_size dir1 dir2 filename of
          None \<Rightarrow> entries
        | Some f \<Rightarrow> add_cfg_entry entries f path) ks"

fun descend :: "(u32 \<Rightarrow> bytes option) \<Rightarrow> u32 \<times> u32 \<Rightarrow> bytes list \<Rightarrow> (u32 \<times> u32) option" where
  "descend rd (lba, size') [] = Some (lba, size')"
| "descend rd (lba, size') (name # names) =
     (case find_in_dir rd lba size' name of None \<Rightarrow> None | Some d \<Rightarrow> descend rd d names)"

definition or_else :: "'a option \<Rightarrow> 'a option \<Rightarrow> 'a option" where
  "or_else a b = (case a of None \<Rightarrow> b | Some _ \<Rightarrow> a)"

definition add_confs :: "(u32 \<Rightarrow> bytes option) \<Rightarrow> cfg_entry list \<Rightarrow> (u32 \<times> u32) option \<Rightarrow> cfg_entry list" where
  "add_confs rd entries conf_dir =
     (case conf_dir of
        None \<Rightarrow> entries
      | Some (dir_lba, dir_size) \<Rightarrow>
          add_found_cfgs entries (recursive_find_files_with_ext rd (bstr ''conf'') dir_lba dir_size) (bstr ''/<entries>.conf''))"

definition cfg_candidates :: "(u32 \<Rightarrow> bytes option) \<Rightarrow> boot_kind \<Rightarrow> u32 \<Rightarrow> u32 \<Rightarrow> cfg_entry list" where
  "cfg_candidates rd k root_lba root_size =
     (let root = (root_lba, root_size);
          entries0 = (if k = ArchIso then add_confs rd [] (descend rd root (map bstr [''LOADER'', ''ENTRIES''])) else []);
          entries1 = add_known rd root_lba root_size entries0 known_paths;
          entries2 = (if entries1 = [] then
              add_found_cfgs entries1 (recursive_find_files_with_ext rd (bstr ''cfg'') root_lba root_size) (bstr ''/<recursive>.cfg'')
            else entries1)
      in if k = ArchIso \<or> k = FedoraLive \<or> entries2 = [] then
           add_confs rd entries2
             (or_else (descend rd root (map bstr [''LOADER'', ''ENTRIES'']))
               (or_else (descend rd root (map bstr [''BOOT'', ''LOADER'', ''ENTRIES'']))
                 (descend rd root (map bstr [''BOOT'', ''X86_64'', ''LOADER'', ''ENTRIES'']))))
         else entries2)"

section \<open>Patching a candidate\<close>

definition has_any :: "bytes \<Rightarrow> bytes list \<Rightarrow> bool" where
  "has_any orig pats \<longleftrightarrow> list_ex (contains orig) pats"

record cfg_features =
  cf_linux :: bool
  cf_menuentry :: bool
  cf_blscfg :: bool
  cf_options :: bool
  cf_configfile :: bool

definition cfg_features_of :: "bytes \<Rightarrow> cfg_features" where
  "cfg_features_of orig =
     \<lparr>cf_linux = has_any orig [bstr ''linux '', bstr ''linux'' @ [9], bstr ''linuxefi '', bstr ''linuxefi'' @ [9]],
      cf_menuentry = has_any orig [bstr ''menuentry'', bstr ''MenuEntry''],
      cf_blscfg = has_any orig [bstr ''blscfg'', bstr ''BLSCFG'', [10] @ bstr ''blscfg'', [10] @ bstr ''BLSCFG''],
      cf_options = has_any orig [bstr ''options '', bstr ''options'' @ [9]],
      cf_configfile = has_any orig [bstr ''configfile '', bstr ''configfile'' @ [9]]\<rparr>"

definition configfile_stub :: "cfg_features \<Rightarrow> bool" where
  "configfile_stub f \<longleftrightarrow> cf_configfile f \<and> \<not> cf_linux f \<and> \<not> cf_menuentry f \<and> \<not> cf_blscfg f \<and> \<not> cf_options f"

definition relevant :: "cfg_features \<Rightarrow> bool" where
  "relevant f \<longleftrightarrow> cf_linux f \<or> cf_menuentry f \<or> cf_blscfg f \<or> cf_options f \<or> configfile_stub f"

text \<open>The patched text becomes a file behind the last block, and the directory entry points to it.\<close>

definition redirect_entry :: "virtual_block_io \<Rightarrow> bytes \<Rightarrow> u32 \<Rightarrow> u32 \<Rightarrow> virtual_block_io" where
  "redirect_entry vb new_text dir_sector dir_offset =
     (let new_size = length new_text; sector_aligned_patch = (new_size + 2047) div 2048 * 2048;
          orig_end_sector = vb_last_block vb + 1; sectors = word_of_nat (sector_aligned_patch div 2048) :: u32
      in vb\<lparr>vb_patched_file := \<lparr>mf_sector = ucast orig_end_sector, mf_sectors = sectors,
                mf_buf = Some (new_text @ replicate (sector_aligned_patch - new_size) 0)\<rparr>,
            vb_dir_entry_sector := dir_sector, vb_dir_entry_offset := dir_offset,
            vb_dir_entry_new_extent := ucast orig_end_sector, vb_dir_entry_new_size := word_of_nat new_size,
            vb_dir_entry_patched := True, vb_last_block := orig_end_sector + ucast sectors - 1\<rparr>)"

text \<open>\<open>pool n\<close> tells whether the firmware grants \<open>n\<close> bytes; the result is the virtual disc after a patch.\<close>

definition try_patch_candidate ::
  "(u64 \<Rightarrow> nat \<Rightarrow> bytes option) \<Rightarrow> (nat \<Rightarrow> bool) \<Rightarrow> u64 \<Rightarrow> virtual_block_io \<Rightarrow> bytes option \<Rightarrow> bytes \<Rightarrow> iso_location option \<Rightarrow> boot_kind \<Rightarrow> bytes
     \<Rightarrow> cfg_entry \<Rightarrow> virtual_block_io option option" where
  "try_patch_candidate io pool iso_lba vb target iso_name iso_loc k prefix_set_line e =
     (case read_extent io (pool (sectors_of (ce_ext_size e) * 2048)) iso_lba (ce_ext_lba e) (ce_ext_size e) of
        None \<Rightarrow> Some None
      | Some (buf, n) \<Rightarrow>
          let orig = take (unat n) buf; f = cfg_features_of orig
          in if k = FedoraLive \<and> configfile_stub f then Some None
             else if \<not> relevant f then Some None
             else
               let prefix = (if configfile_stub f then (if prefix_set_line = [] then bstr ''set root=(cd0)'' @ [10] else prefix_set_line) else [])
               in do {
                 name \<leftarrow> target;
                 r \<leftarrow> patch_grub_cfg pool orig k iso_name iso_loc name prefix;
                 case r of
                   None \<Rightarrow> Some None
                 | Some new_text \<Rightarrow>
                     if new_text = orig then Some None
                     else if \<not> pool ((length new_text + 2047) div 2048 * 2048) then Some None
                     else Some (Some (redirect_entry vb new_text (ce_dir_sector e) (ce_dir_offset e))) })"

fun patch_first ::
  "(cfg_entry \<Rightarrow> virtual_block_io option option) \<Rightarrow> virtual_block_io \<Rightarrow> cfg_entry list \<Rightarrow> virtual_block_io option" where
  "patch_first try vb [] = Some vb"
| "patch_first try vb (e # es) = do {
     r \<leftarrow> try e;
     case r of Some vb1 \<Rightarrow> Some vb1 | None \<Rightarrow> patch_first try vb es }"

text \<open>The target name of the file system instance; a length above 16 is out of the range of the array.\<close>

definition premount_target :: "iso_fs_ctx option \<Rightarrow> bytes option" where
  "premount_target sfs =
     (case sfs of
        None \<Rightarrow> Some []
      | Some ctx \<Rightarrow> if ix_target_len ctx > 16 then None else Some (take (ix_target_len ctx) (ix_target_name ctx)))"

definition patch_grub_cfg_blockio ::
  "(u64 \<Rightarrow> nat \<Rightarrow> bytes option) \<Rightarrow> (nat \<Rightarrow> bool) \<Rightarrow> u64 \<Rightarrow> virtual_block_io \<Rightarrow> iso_fs_ctx option \<Rightarrow> bytes \<Rightarrow> iso_location option
     \<Rightarrow> boot_kind \<Rightarrow> virtual_block_io option" where
  "patch_grub_cfg_blockio io pool iso_lba vb sfs iso_name iso_loc k =
     (case get_root_dir (read_iso_sector_io io iso_lba) of
        None \<Rightarrow> Some vb
      | Some (root_lba, root_size) \<Rightarrow>
          let prefix_set_line = (if k = FedoraLive then bstr ''set root=(cd0)'' @ [10] @ bstr ''set prefix=(cd0)'' @ [10] else [])
          in patch_first (try_patch_candidate io pool iso_lba vb (premount_target sfs) iso_name iso_loc k prefix_set_line) vb
               (cfg_candidates (read_iso_sector_io io iso_lba) k root_lba root_size))"

end
