(* ===== verification/EfiIsoPatch.thy ===== *)
theory EfiIsoPatch
  imports EfiIsoMount EfiIsoCfg
begin

text \<open>
  The candidates for a patch are records of the disc, and the redirected record leads a reader of the virtual disc to
  the patched text.
\<close>

section \<open>Records found on the disc\<close>

definition at_record :: "(u32 \<Rightarrow> bytes option) \<Rightarrow> found_file \<Rightarrow> bool" where
  "at_record rd f \<longleftrightarrow> (case f of (extent, size', sector, offset) \<Rightarrow>
     \<exists>scratch off. rd sector = Some scratch \<and> offset = word_of_nat off \<and> off + 34 \<le> 2048
        \<and> extent = record_extent scratch off \<and> size' = record_size scratch off)"

lemma record_offsets_bound: "off \<in> set (record_offsets limit scratch o1) \<Longrightarrow> off + 34 \<le> 2048"
proof (induction limit scratch o1 rule: record_offsets.induct)
  case (1 limit scratch o1)
  have "off \<in> set (if o1 + 34 \<le> 2048 \<and> o1 < limit then
        if unat (scratch ! o1) = 0 \<or> o1 + unat (scratch ! o1) > 2048 \<or> o1 + 33 + unat (scratch ! (o1 + 32)) > 2048 then []
        else o1 # record_offsets limit scratch (o1 + unat (scratch ! o1)) else [])"
    using "1.prems" by (subst (asm) record_offsets.simps) (auto simp: Let_def split: if_splits)
  then show ?case using "1.IH" by (auto split: if_splits)
qed

lemma find_in_set: "find P xs = Some x \<Longrightarrow> x \<in> set xs"
  by (auto simp: find_Some_iff)

lemma find_sectors_record: "find_sectors rd dir_lba dir_size name s n = Some f \<Longrightarrow> at_record rd f"
proof (induction n arbitrary: s)
  case (Suc n)
  obtain scratch where sc: "rd (dir_lba + word_of_nat s) = Some scratch" using Suc.prems by (auto split: option.splits)
  show ?case
  proof (cases "find (record_matches name scratch) (record_offsets (dir_limit dir_size s) scratch 0)")
    case (Some off)
    then have "off + 34 \<le> 2048" by (intro record_offsets_bound find_in_set)
    then show ?thesis using Suc.prems sc Some by (auto simp: at_record_def)
  qed (use Suc sc in simp)
qed simp

lemma find_with_loc_record: "find_in_dir_with_loc rd dir_lba dir_size name = Some f \<Longrightarrow> at_record rd f"
  unfolding find_in_dir_with_loc_def by (rule find_sectors_record)

definition found_ok :: "(u32 \<Rightarrow> bytes option) \<Rightarrow> found_file list \<Rightarrow> bool" where
  "found_ok rd fs \<longleftrightarrow> (\<forall>f\<in>set fs. at_record rd f) \<and> distinct (map fst fs) \<and> length fs \<le> 32"

lemma add_found_ok: "found_ok rd fs \<Longrightarrow> at_record rd f \<Longrightarrow> length fs < 32 \<Longrightarrow> found_ok rd (add_found fs f)"
  by (auto simp: found_ok_def add_found_def)

lemma ext_records_ok:
  "found_ok rd fs \<Longrightarrow> rd sector = Some scratch \<Longrightarrow> \<forall>off\<in>set offs. off + 34 \<le> 2048 \<Longrightarrow>
   (\<And>l s fs. found_ok rd fs \<Longrightarrow> found_ok rd (sub l s fs)) \<Longrightarrow> found_ok rd (ext_records ext sub dir_lba sector scratch offs fs)"
proof (induction offs arbitrary: fs)
  case (Cons off offs)
  have a: "at_record rd (record_extent scratch off, record_size scratch off, sector, word_of_nat off)"
    using Cons.prems(2,3) by (auto simp: at_record_def)
  have o: "\<forall>off\<in>set offs. off + 34 \<le> 2048" using Cons.prems(3) by simp
  have ok1: "found_ok rd (if c then add_found fs (record_extent scratch off, record_size scratch off, sector, word_of_nat off) else fs)"
    if "c \<longrightarrow> length fs < 32" for c
    using that add_found_ok [OF Cons.prems(1) a] Cons.prems(1) by simp
  have ok2: "found_ok rd (if c then sub l s fs1 else fs1)" if "found_ok rd fs1" for c l s fs1
    using that Cons.prems(4) by simp
  show ?case
    unfolding ext_records.simps Let_def
    by (cases "record_is_dot scratch off"; simp only: if_True if_False)
       (intro Cons.IH [OF _ Cons.prems(2) o Cons.prems(4)] ok1 ok2 Cons.prems(1); simp)+
qed simp

lemma ext_sectors_ok:
  "found_ok rd fs \<Longrightarrow> (\<And>l s fs. found_ok rd fs \<Longrightarrow> found_ok rd (sub l s fs)) \<Longrightarrow>
   found_ok rd (ext_sectors rd ext sub dir_lba dir_size s n fs)"
proof (induction n arbitrary: s fs)
  case (Suc n)
  show ?case
  proof (cases "rd (dir_lba + word_of_nat s)")
    case (Some scratch)
    have "found_ok rd (ext_records ext sub dir_lba (dir_lba + word_of_nat s) scratch (record_offsets (dir_limit dir_size s) scratch 0) fs)"
      by (rule ext_records_ok [OF Suc.prems(1) Some _ Suc.prems(2)]) (auto dest: record_offsets_bound)
    then show ?thesis using Some Suc by simp
  qed (use Suc in simp)
qed simp

lemma find_files_ok: "found_ok rd fs \<Longrightarrow> found_ok rd (find_files_with_ext levels rd ext dir_lba dir_size fs)"
proof (induction levels arbitrary: dir_lba dir_size fs)
  case (Suc levels)
  then show ?case by (auto intro!: ext_sectors_ok)
qed simp

lemma recursive_find_ok: "found_ok rd (recursive_find_files_with_ext rd ext dir_lba dir_size)"
  unfolding recursive_find_files_with_ext_def by (rule find_files_ok) (simp add: found_ok_def)

definition cfgs_ok :: "(u32 \<Rightarrow> bytes option) \<Rightarrow> cfg_entry list \<Rightarrow> bool" where
  "cfgs_ok rd es \<longleftrightarrow>
     (\<forall>e\<in>set es. at_record rd (ce_ext_lba e, ce_ext_size e, ce_dir_sector e, ce_dir_offset e) \<and> length (ce_path e) \<le> 63)
     \<and> distinct (map ce_ext_lba es) \<and> length es \<le> 8"

lemma add_cfg_ok: "cfgs_ok rd es \<Longrightarrow> at_record rd f \<Longrightarrow> cfgs_ok rd (add_cfg_entry es f path)"
  by (auto simp: cfgs_ok_def add_cfg_entry_def split: prod.splits)

lemma add_found_cfgs_ok: "cfgs_ok rd es \<Longrightarrow> \<forall>f\<in>set fs. at_record rd f \<Longrightarrow> cfgs_ok rd (add_found_cfgs es fs path)"
  by (induction fs arbitrary: es) (auto intro: add_cfg_ok)

lemma find_known_record: "find_known rd l s d1 d2 f = Some r \<Longrightarrow> at_record rd r"
  by (auto simp: find_known_def dest: find_with_loc_record split: if_splits Option.bind_splits)

lemma add_known_ok: "cfgs_ok rd es \<Longrightarrow> cfgs_ok rd (add_known rd l s es ks)"
proof (induction rd l s es ks rule: add_known.induct)
  case (2 rd l s es dir1 dir2 filename path ks)
  then show ?case
    by (cases "find_known rd l s dir1 dir2 filename") (auto intro: add_cfg_ok dest: find_known_record)
qed simp

lemma add_confs_ok: "cfgs_ok rd es \<Longrightarrow> cfgs_ok rd (add_confs rd es d)"
  using recursive_find_ok [of rd] by (auto simp: add_confs_def found_ok_def intro!: add_found_cfgs_ok split: option.split)

lemma cfg_candidates_ok: "cfgs_ok rd (cfg_candidates rd k root_lba root_size)"
proof -
  have 0: "cfgs_ok rd []" by (simp add: cfgs_ok_def)
  have f: "\<forall>f\<in>set (recursive_find_files_with_ext rd x l s). at_record rd f" for x l s
    using recursive_find_ok [of rd x l s] by (simp add: found_ok_def)
  show ?thesis
    unfolding cfg_candidates_def Let_def by (auto intro!: add_confs_ok add_known_ok add_found_cfgs_ok 0 f)
qed

lemma candidate_record:
  assumes "e \<in> set (cfg_candidates rd k root_lba root_size)"
  shows "\<exists>sec. rd (ce_dir_sector e) = Some sec \<and> unat (ce_dir_offset e) + 34 \<le> 2048 \<and>
    record_extent sec (unat (ce_dir_offset e)) = ce_ext_lba e \<and> record_size sec (unat (ce_dir_offset e)) = ce_ext_size e"
proof -
  have "at_record rd (ce_ext_lba e, ce_ext_size e, ce_dir_sector e, ce_dir_offset e)"
    using cfg_candidates_ok [of rd k root_lba root_size] assms by (simp add: cfgs_ok_def)
  then obtain sec off where o: "rd (ce_dir_sector e) = Some sec" "ce_dir_offset e = word_of_nat off" "off + 34 \<le> 2048"
    "ce_ext_lba e = record_extent sec off" "ce_ext_size e = record_size sec off"
    by (auto simp: at_record_def)
  have "unat (ce_dir_offset e) = off" unfolding o(2) unsigned_of_nat using o(3) by (simp add: take_bit_nat_eq_self)
  then show ?thesis using o by auto
qed

section \<open>The patched file on the virtual disc\<close>

text \<open>What the premount step leaves: no redirected entry yet, and its file within the medium.\<close>

definition patchable :: "virtual_block_io \<Rightarrow> bool" where
  "patchable vb \<longleftrightarrow> vbio_ok vb \<and> \<not> vb_dir_entry_patched vb \<and> \<not> vb_premount_entry_patched vb \<and> mf_buf (vb_patched_file vb) = None
     \<and> (vb_premount_entry_injected vb \<longrightarrow> unat (vb_premount_entry_sector vb) \<le> unat (vb_last_block vb))
     \<and> (mf_buf (vb_premount_file vb) \<noteq> None \<longrightarrow>
          unat (mf_sector (vb_premount_file vb)) + unat (mf_sectors (vb_premount_file vb)) \<le> unat (vb_last_block vb) + 1)"

definition text_sectors :: "bytes \<Rightarrow> nat" where
  "text_sectors t = (length t + 2047) div 2048"

definition room_for_text :: "virtual_block_io \<Rightarrow> bytes \<Rightarrow> bool" where
  "room_for_text vb t \<longleftrightarrow> unat (vb_last_block vb) + 1 + text_sectors t < 2 ^ 32 \<and> length t < 2 ^ 32"

definition padded_text :: "bytes \<Rightarrow> bytes" where
  "padded_text t = t @ replicate (text_sectors t * 2048 - length t) 0"

lemma padded_text_length: "length (padded_text t) = text_sectors t * 2048"
proof -
  have "length t \<le> text_sectors t * 2048" by (simp add: text_sectors_def)
  then show ?thesis by (simp add: padded_text_def)
qed

lemma next_block:
  assumes "unat (vb_last_block vb) + 1 + k < 2 ^ 32"
  shows "ucast (vb_last_block vb + 1) = first_block vb" "unat (first_block vb) = unat (vb_last_block vb) + 1"
proof -
  have u: "unat (vb_last_block vb + 1) = unat (vb_last_block vb) + 1"
    using assms by (subst unat_add_lem [THEN iffD1]) simp_all
  show "ucast (vb_last_block vb + 1) = first_block vb"
    unfolding first_block_def u [symmetric] by (rule of_nat_unat [symmetric])
  show "unat (first_block vb) = unat (vb_last_block vb) + 1"
    using assms unfolding first_block_def unsigned_of_nat by (simp add: take_bit_nat_eq_self)
qed

lemma redirect_fields:
  assumes "room_for_text vb t"
  shows "vb_backing (redirect_entry vb t s off) = vb_backing vb" "vb_iso_lba (redirect_entry vb t s off) = vb_iso_lba vb"
    "vb_patched_file (redirect_entry vb t s off) =
       \<lparr>mf_sector = first_block vb, mf_sectors = word_of_nat (text_sectors t), mf_buf = Some (padded_text t)\<rparr>"
    "vb_dir_entry_patched (redirect_entry vb t s off)" "vb_dir_entry_sector (redirect_entry vb t s off) = s"
    "vb_dir_entry_offset (redirect_entry vb t s off) = off" "vb_dir_entry_new_extent (redirect_entry vb t s off) = first_block vb"
    "vb_dir_entry_new_size (redirect_entry vb t s off) = word_of_nat (length t)"
    "vb_premount_file (redirect_entry vb t s off) = vb_premount_file vb"
    "vb_premount_entry_patched (redirect_entry vb t s off) = vb_premount_entry_patched vb"
    "vb_premount_entry_injected (redirect_entry vb t s off) = vb_premount_entry_injected vb"
    "vb_premount_entry_sector (redirect_entry vb t s off) = vb_premount_entry_sector vb"
    "vb_premount_entry_offset (redirect_entry vb t s off) = vb_premount_entry_offset vb"
    "vb_premount_entry_injected_size (redirect_entry vb t s off) = vb_premount_entry_injected_size vb"
    "vb_premount_entry_injected_blob (redirect_entry vb t s off) = vb_premount_entry_injected_blob vb"
  using next_block(1) [of vb "text_sectors t"] assms
  by (simp_all add: redirect_entry_def Let_def room_for_text_def padded_text_def text_sectors_def)

lemma text_sectors_unat:
  "room_for_text vb t \<Longrightarrow> unat (word_of_nat (text_sectors t) :: u32) = text_sectors t"
  unfolding unsigned_of_nat by (simp add: room_for_text_def take_bit_nat_eq_self)

lemma redirect_ok: "patchable vb \<Longrightarrow> room_for_text vb t \<Longrightarrow> vbio_ok (redirect_entry vb t s off)"
  using text_sectors_unat [of vb t]
  by (simp add: patchable_def vbio_ok_def redirect_fields mem_file_ok_def padded_text_length)

lemma redirect_reads:
  assumes "room_for_text vb t"
  shows "read_real_iso_sector (redirect_entry vb t s off) = read_real_iso_sector vb"
    "inject_patch (redirect_entry vb t s off) = inject_patch vb"
proof -
  note f = redirect_fields [OF assms, of s off]
  show "read_real_iso_sector (redirect_entry vb t s off) = read_real_iso_sector vb" unfolding read_real_iso_sector_def f ..
  show "inject_patch (redirect_entry vb t s off) = inject_patch vb" unfolding inject_patch_def f ..
qed

text \<open>The sector of the record is the one before with the record changed.\<close>

lemma redirect_entry_sector:
  assumes "patchable vb" "room_for_text vb t" "unat s \<le> unat (vb_last_block vb)" "s \<noteq> 16"
    and "serve_memory_sector (vb_premount_file vb) (ucast s) = Some None" "virtual_sector vb s = Some b"
  shows "virtual_sector (redirect_entry vb t s off) s = Some (patch_dir_entry b (unat off) (first_block vb) (word_of_nat (length t)))"
proof -
  note f = redirect_fields [OF assms(2)] and r = redirect_reads [OF assms(2)]
  have u: "(ucast s :: u64) \<noteq> 16" using assms(4) ucast_u64_inj [of s 16] by auto
  have p: "\<not> vb_dir_entry_patched vb" "\<not> vb_premount_entry_patched vb" "mf_buf (vb_patched_file vb) = None"
    using assms(1) by (simp_all add: patchable_def)
  show ?thesis
    using assms(5,6) u p
    by (auto simp: virtual_sector_def block_content_def needs_premount_injected_def needs_grub_patch_def needs_premount_patch_def
        real_then_def f r grub_patch_def serve_none ucast_u64_inj split: if_splits option.splits served.splits Option.bind_splits)
qed

lemma serve_file:
  assumes "unat (mf_sector mf) + unat (mf_sectors mf) < 2 ^ 32" "mf_buf mf = Some buf" "unat (mf_sectors mf) * 2048 \<le> length buf"
    "i < unat (mf_sectors mf)"
  shows "serve_memory_sector mf (ucast (mf_sector mf + word_of_nat i :: u32)) = Some (Some (take 2048 (drop (i * 2048) buf)))"
    and "unat (mf_sector mf + word_of_nat i) = unat (mf_sector mf) + i"
proof -
  let ?s = "mf_sector mf + word_of_nat i"
  have ui: "unat (word_of_nat i :: u32) = i" using assms(1,4) unfolding unsigned_of_nat by (simp add: take_bit_nat_eq_self)
  show us: "unat ?s = unat (mf_sector mf) + i"
    using assms(1,4) by (subst unat_add_lem [THEN iffD1]) (simp_all add: ui)
  have ge: "ucast (mf_sector mf) \<le> (ucast ?s :: u64)" by (simp add: word_le_nat_alt unat_ucast64 us)
  have d: "unat (ucast ?s - ucast (mf_sector mf) :: u64) = i"
    using ge by (subst unat_sub_no_wrap) (simp_all add: unat_ucast64 us)
  have "unat (ucast (mf_sector mf) + ucast (mf_sectors mf) :: u64) = unat (mf_sector mf) + unat (mf_sectors mf)"
    using assms(1) by (subst unat_add_lem [THEN iffD1]) (simp_all add: unat_ucast64)
  then have hi: "\<not> ucast (mf_sector mf) + ucast (mf_sectors mf) \<le> (ucast ?s :: u64)"
    using assms(4) by (simp add: word_le_nat_alt unat_ucast64 us)
  have nz: "mf_sectors mf \<noteq> 0" using assms(4) by auto
  have "Suc i * 2048 \<le> unat (mf_sectors mf) * 2048" using assms(4) by (intro mult_le_mono1) simp
  then have len: "i * 2048 + 2048 \<le> length buf" using assms(3) by simp
  show "serve_memory_sector mf (ucast ?s) = Some (Some (take 2048 (drop (i * 2048) buf)))"
    using ge hi nz len assms(2) by (simp add: serve_memory_sector_def Let_def d slice_Some not_less)
qed

lemma serve_above:
  assumes "mf_buf mf \<noteq> None \<longrightarrow> unat (mf_sector mf) + unat (mf_sectors mf) \<le> unat (s :: u32)"
  shows "serve_memory_sector mf (ucast s) = Some None"
proof (cases "mf_buf mf")
  case (Some buf)
  have "unat (ucast (mf_sector mf) + ucast (mf_sectors mf) :: u64) = unat (mf_sector mf) + unat (mf_sectors mf)"
    using assms Some unsigned_less [of s, where ?'a = nat]
    by (subst unat_add_lem [THEN iffD1]) (simp_all add: unat_ucast64)
  then have "ucast (mf_sector mf) + ucast (mf_sectors mf) \<le> (ucast s :: u64)"
    using assms Some by (simp add: word_le_nat_alt unat_ucast64)
  then show ?thesis using Some by (simp add: serve_memory_sector_def)
qed (simp add: serve_none)

lemma redirect_file_sector:
  assumes "patchable vb" "room_for_text vb t" "unat s \<le> unat (vb_last_block vb)" "i < text_sectors t"
  shows "virtual_sector (redirect_entry vb t s off) (first_block vb + word_of_nat i) = Some (take 2048 (drop (i * 2048) (padded_text t)))"
proof -
  let ?vb = "redirect_entry vb t s off"
  note f = redirect_fields [OF assms(2), of s off]
  have fb: "unat (first_block vb) = unat (vb_last_block vb) + 1"
    using next_block(2) [of vb "text_sectors t"] assms(2) by (simp add: room_for_text_def)
  have sf: "serve_memory_sector (vb_patched_file ?vb) (ucast (first_block vb + word_of_nat i :: u32)) = Some (Some (take 2048 (drop (i * 2048) (padded_text t))))"
    and us: "unat (first_block vb + word_of_nat i) = unat (vb_last_block vb) + 1 + i"
    using serve_file [of "vb_patched_file ?vb" "padded_text t" i] assms(2,4)
    by (simp_all add: f fb text_sectors_unat [OF assms(2)] padded_text_length room_for_text_def)
  have "serve_memory_sector (vb_premount_file vb) (ucast (first_block vb + word_of_nat i :: u32)) = Some None"
    using assms(1) by (intro serve_above) (auto simp: patchable_def us)
  moreover have "first_block vb + word_of_nat i \<noteq> s" "vb_premount_entry_injected vb \<longrightarrow> first_block vb + word_of_nat i \<noteq> vb_premount_entry_sector vb"
    using us assms(1,3) by (auto simp: patchable_def)
  ultimately show ?thesis
    using sf assms(1) by (auto simp: virtual_sector_def block_content_def needs_premount_injected_def needs_grub_patch_def
        needs_premount_patch_def f ucast_u64_inj patchable_def)
qed

lemma redirect_content:
  assumes "patchable vb" "room_for_text vb t" "unat s \<le> unat (vb_last_block vb)"
  shows "extent_content (virtual_sector (redirect_entry vb t s off)) (first_block vb) (word_of_nat (length t)) = Some t"
proof -
  have u: "unat (word_of_nat (length t) :: u32) = length t"
    using assms(2) unfolding unsigned_of_nat room_for_text_def by (simp add: take_bit_nat_eq_self)
  then have n: "sectors_of (word_of_nat (length t)) = text_sectors t" by (simp add: sectors_of_def text_sectors_def)
  have "extent_sectors (virtual_sector (redirect_entry vb t s off)) (first_block vb) (text_sectors t) =
      Some (map (\<lambda>i. take 2048 (drop (i * 2048) (padded_text t))) [0..<text_sectors t])"
    by (rule extent_sectors_all) (use redirect_file_sector [OF assms] in auto)
  then show ?thesis
    by (simp add: extent_content_def n u concat_chunks) (simp add: padded_text_def text_sectors_def)
qed

lemma virtual_sector_exists:
  assumes "patchable vb" "read_real_iso_sector vb (ucast s) = Some sec" "s \<noteq> 16"
    "serve_memory_sector (vb_premount_file vb) (ucast s) = Some None"
  shows "\<exists>b. virtual_sector vb s = Some b \<and> length b = 2048 \<and> (vb_premount_entry_injected vb \<and> vb_premount_entry_sector vb = s \<or> b = sec)"
proof -
  have v: "vbio_ok vb" "\<not> vb_dir_entry_patched vb" "\<not> vb_premount_entry_patched vb" "mf_buf (vb_patched_file vb) = None"
    using assms(1) by (simp_all add: patchable_def)
  have u: "(ucast s :: u64) \<noteq> 16" using assms(3) ucast_u64_inj [of s 16] by auto
  have l: "length sec = 2048" by (rule real_sector_length [OF v(1) assms(2)])
  obtain s1 where s1: "inject_patch vb sec = Some s1" "length s1 = 2048"
    using inject_patch_length [of vb sec] v(1) l by (auto simp: vbio_ok_def)
  then show ?thesis
    using v assms(2,4) u l
    by (auto simp: virtual_sector_def block_content_def needs_premount_injected_def needs_grub_patch_def needs_premount_patch_def
        real_then_def serve_none ucast_u64_inj)
qed

text \<open>What a successful patch is.\<close>

lemma try_patch_result:
  assumes "try_patch_candidate io pool iso_lba vb target iso_name iso_loc k prefix e = Some (Some vb')"
  shows "\<exists>buf n new_text name pre. read_extent io (pool (sectors_of (ce_ext_size e) * 2048)) iso_lba (ce_ext_lba e) (ce_ext_size e) = Some (buf, n)
     \<and> relevant (cfg_features_of (take (unat n) buf)) \<and> target = Some name
     \<and> patch_grub_cfg pool (take (unat n) buf) k iso_name iso_loc name pre = Some (Some new_text)
     \<and> vb' = redirect_entry vb new_text (ce_dir_sector e) (ce_dir_offset e)"
  using assms unfolding try_patch_candidate_def Let_def
  by (auto split: option.splits if_splits Option.bind_splits) blast+

lemma patch_first_result:
  "patch_first try vb es = Some vb' \<Longrightarrow> vb' = vb \<or> (\<exists>e\<in>set es. try e = Some (Some vb'))"
  by (induction es) (auto split: option.splits Option.bind_splits)

lemma redirect_serves:
  assumes "patchable vb" "room_for_text vb t" "unat s \<le> unat (vb_last_block vb)" "s \<noteq> 16"
    and "serve_memory_sector (vb_premount_file vb) (ucast s) = Some None"
    and "read_real_iso_sector vb (ucast s) = Some sec" "off + 34 \<le> 2048" "unat off' = off"
  obtains b b' where "virtual_sector vb s = Some b" "virtual_sector (redirect_entry vb t s off') s = Some b'"
    "vb_premount_entry_injected vb \<and> vb_premount_entry_sector vb = s \<or> b = sec"
    "both_endian b' (off + 2) (first_block vb)" "both_endian b' (off + 10) (word_of_nat (length t))"
    "take (off + 2) b' = take (off + 2) b" "drop (off + 18) b' = drop (off + 18) b"
proof -
  obtain b where b: "virtual_sector vb s = Some b" "length b = 2048" "vb_premount_entry_injected vb \<and> vb_premount_entry_sector vb = s \<or> b = sec"
    using virtual_sector_exists [OF assms(1,6,4,5)] by blast
  have "off + 18 \<le> length b" using assms(7) b(2) by simp
  note e = patch_dir_entry_effect [OF this, of "first_block vb" "word_of_nat (length t)"]
  note r = redirect_entry_sector [OF assms(1-5) b(1), of off', unfolded assms(8)]
  show thesis by (rule that [OF b(1) r b(3)]) (use e in simp_all)
qed

end
