(* ===== verification/EfiIsoFsTheorems.thy ===== *)
theory EfiIsoFsTheorems
  imports EfiIsoFsList
begin

text \<open>
  The properties of the ISO file system that the UEFI loader publishes, and a small volume they are applied to.
\<close>

section \<open>An example volume\<close>

text \<open>A root directory with the file A;1 and the directory EFI in sector 20.\<close>

definition example_records :: bytes where
  "example_records =
     [36, 0, 30, 0, 0, 0, 0, 0, 0, 0, 0xB8, 0x0B, 0, 0, 0, 0, 0, 0, 0, 0, 0, 0, 0, 0, 0, 0, 0, 0, 0, 0, 0, 0, 3, 65, 59, 49,
      36, 0, 21, 0, 0, 0, 0, 0, 0, 0, 0, 8, 0, 0, 0, 0, 0, 0, 0, 0, 0, 0, 0, 0, 0, 2, 0, 0, 0, 0, 0, 0, 3, 69, 70, 73]"

definition example_ctx :: iso_fs_ctx where
  "example_ctx =
     \<lparr>ix_backing = \<lparr>bk_block_size = None, bk_read = (\<lambda>lba n. if lba = 80 then Some example_records else Some (replicate n (ucast lba)))\<rparr>,
      ix_iso_lba = 0, ix_iso_size = 0, ix_root_lba = 20, ix_root_size = 2048, ix_iso_name = [], ix_live_media_uuid = [], ix_cpio_buf = Some [1, 2, 3],
      ix_cpio_size = 3, ix_target_name = replicate 16 0, ix_target_len = 0, ix_boot_kind = Unknown, ix_bootloader_type = Grub, ix_vbio = None\<rparr>"

definition example_root :: virtual_file where
  "example_root = new_virtual_file True 20 2048"

lemma example_dir: "read_iso_sector example_ctx 20 = Some (example_records @ replicate 1976 0)"
  by (simp add: read_iso_sector_def example_ctx_def example_records_def)

definition example_entries :: "iso_entry list" where
  "example_entries = [\<lparr>ie_name = bstr ''A'', ie_extent = 30, ie_size = 3000, ie_is_dir = False\<rparr>,
     \<lparr>ie_name = bstr ''EFI'', ie_extent = 21, ie_size = 2048, ie_is_dir = True\<rparr>]"

lemma example_sectors: "sectors_of 2048 = 1"
  by (simp add: sectors_of_def)

lemma example_walk:
  "dir_walk (read_iso_sector example_ctx) 20 (sectors_of 2048) 0 0 (example_records @ replicate 1976 0) = Some example_entries"
  by (simp add: example_sectors dir_walk.simps record_fits_def record_entry_def example_records_def example_entries_def Let_def
      iso_name_effective_len_def bstr_def from_le_def nth_append)

lemma example_ctx_ok: "ctx_ok example_ctx"
  by (simp add: ctx_ok_def example_ctx_def)

lemma example_root_simps [simp]:
  "vf_is_dir example_root" "vf_position example_root = 0" "vf_extent_lba example_root = 20" "vf_extent_size example_root = 2048"
  by (simp_all add: example_root_def new_virtual_file_def)

section \<open>Properties\<close>

text \<open>C38: On every file handle a client can come by (opened, positioned and read in any order), any sequence of reads
  delivers the file's content from the position on, in order and without gaps, and stops at its end; the size the
  handle reports is the content's length.
\<close>

theorem iso_reads_deliver_content:
  assumes "ctx_ok ctx" "iso_handle ctx vf" "\<not> vf_is_dir vf" "file_content ctx vf = Some c"
  shows "\<exists>outs vf'. read_seq ctx vf ns = Inr (outs, vf') \<and> concat outs = take (sum_list ns) (drop (unat (vf_position vf)) c)
      \<and> unat (vf_position vf') = min (length c) (unat (vf_position vf) + sum_list ns)
      \<and> unat (file_size_of vf) = length c"
  using read_seq_content [OF handle_ok [OF assms(2,1)] assms(3,4)] content_length [OF handle_ok [OF assms(2,1)] assms(4)]
  by auto

definition example_premount :: virtual_file where
  "example_premount = (new_virtual_file False 0 3)\<lparr>vf_is_synthetic := True, vf_synthetic_buf := Some [1, 2, 3], vf_synthetic_size := 3\<rparr>"

lemma example_premount_simps [simp]:
  "\<not> vf_is_dir example_premount" "vf_position example_premount = 0" "file_content ctx example_premount = Some [1, 2, 3]"
  by (simp_all add: example_premount_def new_virtual_file_def file_content_def)

lemma example_match: "path_component_matches (map of_char ''premount.cpio;1'') (bstr ''PREMOUNT.CPIO'')"
  by code_simp

lemma example_open: "file_open example_ctx example_root (map of_char ''premount.cpio;1'') True = Inr example_premount"
  using example_match
  by (simp add: file_open_def example_root_def new_virtual_file_def example_ctx_def example_premount_def)

lemma example_root_handle: "iso_handle example_ctx example_root"
  by (rule iso_handle.volume [where pool = True]) (simp add: sfs_open_volume_def example_root_def example_ctx_def)

theorem iso_reads_deliver_content_witness:
  "\<exists>outs vf'. read_seq example_ctx example_premount [2, 7] = Inr (outs, vf') \<and> concat outs = [1, 2, 3]
     \<and> unat (vf_position vf') = 3 \<and> unat (file_size_of example_premount) = 3"
  using iso_reads_deliver_content [OF example_ctx_ok iso_handle.opened [OF example_root_handle example_open], of "[1, 2, 3]" "[2, 7]"]
  by (simp add: numeral_3_eq_3 del: read_seq.simps)

lemma premount_opens:
  assumes "ctx_ok ctx" "vf_is_dir vf" "ix_cpio_buf ctx = Some buf" "0 < ix_cpio_size ctx" "length name \<le> 256"
    "path_component_matches name (bstr ''PREMOUNT.CPIO'')"
  shows "\<exists>h. file_open ctx vf name True = Inr h \<and>
     (\<forall>ns. \<exists>outs h'. read_seq ctx h ns = Inr (outs, h') \<and> concat outs = take (sum_list ns) (take (ix_cpio_size ctx) buf))"
proof -
  let ?h = "(new_virtual_file False 0 (word_of_nat (ix_cpio_size ctx)))
     \<lparr>vf_is_synthetic := True, vf_synthetic_buf := Some buf, vf_synthetic_size := ix_cpio_size ctx\<rparr>"
  have h: "file_open ctx vf name True = Inr ?h" using assms by (auto simp: file_open_def ctx_ok_def)
  have "handle_ok ?h" by (rule open_ok [OF assms(1) h])
  then have "\<exists>outs h'. read_seq ctx ?h ns = Inr (outs, h') \<and> concat outs = take (sum_list ns) (take (ix_cpio_size ctx) buf)" for ns
    using read_seq_content [of ?h ctx "take (ix_cpio_size ctx) buf" ns] by (auto simp: file_content_def new_virtual_file_def)
  with h show ?thesis by blast
qed

text \<open>The premount archive is a file of every directory: opened under its name with any path before it, in any case and with
  or without a version, it reads as the bytes of the archive.
\<close>

theorem premount_file_opens:
  assumes "ctx_ok ctx" "vf_is_dir vf" "ix_cpio_buf ctx = Some buf" "0 < ix_cpio_size ctx" "length name \<le> 256"
    "path_component_matches name (bstr ''PREMOUNT.CPIO'')"
  shows "\<exists>h. file_open ctx vf name True = Inr h \<and>
     (\<forall>ns. \<exists>outs h'. read_seq ctx h ns = Inr (outs, h') \<and> concat outs = take (sum_list ns) (take (ix_cpio_size ctx) buf))"
  by (rule premount_opens [OF assms])

theorem premount_file_opens_witness:
  "\<exists>h. file_open example_ctx example_root (map of_char ''premount.cpio;1'') True = Inr h \<and>
     (\<exists>outs h'. read_seq example_ctx h [2, 7] = Inr (outs, h') \<and> concat outs = [1, 2, 3])"
proof -
  have "take (sum_list [2, 7]) [1, 2, 3] = ([1, 2, 3] :: bytes)" by simp
  then show ?thesis
    using premount_file_opens [OF example_ctx_ok _ _ _ _ example_match, of example_root "[1, 2, 3]"]
    by (fastforce simp: example_ctx_def)
qed

text \<open>C36: Reading a fresh directory handle call by call, each with a buffer of at least 528 bytes, delivers every entry of the
  directory exactly once and in order, whatever the sizes of the buffers, and then the premount file; as many calls as
  entries and two more are enough.
\<close>

theorem directory_listing_complete:
  assumes "ctx_ok ctx" "vf_is_dir vf" "vf_position vf = 0" "0 < vf_extent_size vf"
    "read_iso_sector ctx (vf_extent_lba vf) = Some scratch"
    "dir_walk (read_iso_sector ctx) (vf_extent_lba vf) (sectors_of (vf_extent_size vf)) 0 0 scratch = Some es"
    "\<forall>n\<in>set ns. 528 \<le> n" "length es + 2 \<le> length ns"
  shows "\<exists>outs vf'. read_dirs ctx vf ns = Inr (outs, vf') \<and> concat outs = concat (map entry_info es) @ premount_info ctx"
proof -
  have "0 < unat (vf_extent_size vf)" using assms(4) by (simp add: word_less_nat_alt)
  then have "sectors_of (vf_extent_size vf) \<noteq> 0" by (simp add: sectors_of_def div_eq_0_iff)
  then have l: "handle_listing ctx vf = Some (Entries es)" using fresh_listing(2) [OF assms(2,3), of ctx] assms(5,6) by simp
  obtain outs vf' l' where r: "read_dirs ctx vf ns = Inr (outs, vf')" "concat outs @ to_come ctx l' = to_come ctx (Entries es)"
    "calls_needed l' \<le> calls_needed (Entries es) - length ns"
    using read_dirs_complete [OF assms(1) fresh_listing(1) [OF assms(2,3)] l assms(7)] by blast
  have "l' = Listed" using r(3) assms(8) calls_needed_0 [of l'] by simp
  with r show ?thesis by simp
qed

theorem directory_listing_complete_witness:
  "\<exists>outs vf'. read_dirs example_ctx example_root [528, 1000, 528, 600] = Inr (outs, vf') \<and>
     concat outs = concat (map entry_info example_entries) @ premount_info example_ctx"
  by (rule directory_listing_complete [OF example_ctx_ok, of example_root "example_records @ replicate 1976 0" example_entries])
     (simp_all add: example_dir example_walk, simp add: example_entries_def)

text \<open>The handle of the archive, and the plain names that are its name.\<close>

definition archive_handle :: "iso_fs_ctx \<Rightarrow> virtual_file" where
  "archive_handle ctx = (new_virtual_file False 0 (word_of_nat (ix_cpio_size ctx)))
     \<lparr>vf_is_synthetic := True, vf_synthetic_buf := ix_cpio_buf ctx, vf_synthetic_size := ix_cpio_size ctx\<rparr>"

lemma ucast_inj_16: "(ucast (a :: u8) :: u16) = ucast b \<longleftrightarrow> a = b"
proof -
  have "unat (ucast x :: u16) = unat x" for x :: u8
    by (simp add: unsigned_ucast_eq take_bit_nat_eq_self less_trans [OF unsigned_less])
  then show ?thesis by (metis unsigned_word_eqI)
qed

lemma capital_or: "65 \<le> c \<Longrightarrow> c \<le> 90 \<Longrightarrow> c OR 0x20 = c + (0x20 :: u8)"
proof -
  assume "65 \<le> c" "c \<le> 90"
  then have "unat c \<in> set [65..<91]" by (simp add: word_le_nat_alt del: upt_rec_numeral)
  moreover have "list_all (\<lambda>n. (word_of_nat n :: u8) OR 0x20 = word_of_nat n + 0x20) [65..<91]" by code_simp
  ultimately have "(word_of_nat (unat c) :: u8) OR 0x20 = word_of_nat (unat c) + 0x20" by (simp only: list_all_iff)
  then show ?thesis by simp
qed

lemma lower16_capital: "lower16 (ucast c) = ucast (if 65 \<le> c \<and> c \<le> 90 then c + 0x20 else (c :: u8))"
proof -
  have u: "unat (ucast c :: u16) = unat c" by (simp add: unsigned_ucast_eq take_bit_nat_eq_self less_trans [OF unsigned_less])
  then have "65 \<le> (ucast c :: u16) \<longleftrightarrow> 65 \<le> c" "(ucast c :: u16) \<le> 90 \<longleftrightarrow> c \<le> 90" by (simp_all add: word_le_nat_alt)
  moreover have "(ucast c OR 0x20 :: u16) = ucast (c OR 0x20)" by (simp add: unsigned_or_eq)
  ultimately show ?thesis using capital_or [of c] by (simp add: lower16_def)
qed

lemma lower_is_upper:
  assumes "65 \<le> t" "t \<le> (90 :: u8)"
  shows "(if 65 \<le> c \<and> c \<le> 90 then c + 0x20 else c) = t + 0x20 \<longleftrightarrow> to_ascii_uppercase c = t"
proof -
  have "unat (t + 0x20) = unat t + 0x20" using assms by (subst unat_add_lem [THEN iffD1]) (simp_all add: word_le_nat_alt)
  then have "97 \<le> t + 0x20" "t + 0x20 \<le> 122" using assms by (simp_all add: word_le_nat_alt)
  then show ?thesis using assms by (auto simp: to_ascii_uppercase_def diff_eq_eq word_le_nat_alt)
qed

lemma archive_letter:
  assumes "t \<in> set (bstr ''PREMOUNT.CPIO'')"
  shows "lower16 (ucast c) = ucast (t OR 0x20) \<longleftrightarrow> to_ascii_uppercase c = t"
proof (cases "t = 46")
  case True
  have "c + 32 \<noteq> 46" if "65 \<le> c" using that by (auto simp flip: eq_diff_eq)
  moreover have "c - 32 \<noteq> 46" if "97 \<le> c" using that by (auto simp: diff_eq_eq)
  moreover have "(46 :: u8) OR 0x20 = 46" by simp
  ultimately show ?thesis unfolding True lower16_capital ucast_inj_16 by (auto simp: to_ascii_uppercase_def)
next
  case False
  then have t: "65 \<le> t" "t \<le> 90" using assms by (auto simp: bstr_def)
  show ?thesis unfolding lower16_capital ucast_inj_16 capital_or [OF t] by (rule lower_is_upper [OF t])
qed

lemma last_component_plain: "92 \<notin> set us \<Longrightarrow> 47 \<notin> set us \<Longrightarrow> last_component us = us"
  by (cases us) auto

lemma archive_named:
  assumes "nm \<noteq> []" "\<forall>c\<in>set nm. c < 0x80 \<and> c \<noteq> 92 \<and> c \<noteq> 47 \<and> c \<noteq> 59"
  shows "path_component_matches (map ucast nm) (bstr ''PREMOUNT.CPIO'') \<longleftrightarrow> map to_ascii_uppercase nm = bstr ''PREMOUNT.CPIO''"
proof -
  let ?t = "bstr ''PREMOUNT.CPIO''"
  have u: "(ucast c :: u16) = 92 \<longleftrightarrow> c = 92" "(ucast c :: u16) = 47 \<longleftrightarrow> c = 47" "(ucast c :: u16) = 59 \<longleftrightarrow> c = 59" for c :: u8
    using ucast_inj_16 [of c 92] ucast_inj_16 [of c 47] ucast_inj_16 [of c 59] by simp_all
  have l: "last_component (map ucast nm) = map ucast nm" using assms(2) by (intro last_component_plain) (auto simp: u dest: sym [of 92] sym [of 47])
  have v: "(map ucast nm :: ucs2) ! (length nm - 2) \<noteq> 59" if "2 \<le> length nm"
    using that assms(2) by (simp add: u)
  have "(\<forall>i<length ?t. lower16 (map ucast nm ! i) = ucast (?t ! i OR 0x20)) \<longleftrightarrow> map to_ascii_uppercase nm = ?t" if "length nm = length ?t"
    using that assms(2) archive_letter [OF nth_mem] by (auto simp: list_eq_iff_nth_eq)
  moreover have "length nm = length ?t" if "map to_ascii_uppercase nm = ?t" using arg_cong [OF that, of length] by simp
  ultimately show ?thesis using v assms(1) unfolding path_component_matches_def l Let_def by (auto split: if_splits)
qed

text \<open>C37: What a listing shows can be opened, on volumes with the premount archive and without: when the names of a directory
  differ without regard to case, opening the name an entry is listed with gives the handle of exactly that entry; the
  one exception is an entry called PREMOUNT.CPIO on a volume that has the archive, which hides it, and the name the
  archive is listed with opens the archive. Names are ASCII without a backslash, and on a volume with the archive
  without a slash or a semicolon.
\<close>

theorem listed_entries_open:
  assumes "vf_is_dir vf" "0 < vf_extent_size vf" "read_iso_sector ctx (vf_extent_lba vf) = Some scratch"
    "dir_walk (read_iso_sector ctx) (vf_extent_lba vf) (sectors_of (vf_extent_size vf)) 0 0 scratch = Some es"
    "distinct (map (\<lambda>e. map to_ascii_uppercase (ie_name e)) es)" "e \<in> set es"
    "ie_name e \<noteq> []" "\<forall>c\<in>set (ie_name e). c \<noteq> 0 \<and> c < 0x80 \<and> c \<noteq> 92"
    "premount_info ctx \<noteq> [] \<longrightarrow> take (ix_target_len ctx) (ix_target_name ctx) = bstr ''PREMOUNT.CPIO'' \<and> 47 \<notin> set (ie_name e) \<and> 59 \<notin> set (ie_name e)"
  shows "file_open ctx vf (map ucast (ie_name e)) True =
     Inr (if premount_info ctx \<noteq> [] \<and> map to_ascii_uppercase (ie_name e) = bstr ''PREMOUNT.CPIO'' then archive_handle ctx
          else alloc_virtual_file (ie_extent e) (ie_size e) (ie_is_dir e) (\<not> ie_is_dir e \<and> is_cfg_name (map ucast (ie_name e)))) \<and>
     (premount_info ctx \<noteq> [] \<longrightarrow> file_open ctx vf (map ucast (bstr ''PREMOUNT.CPIO'')) True = Inr (archive_handle ctx))"
proof -
  have "0 < unat (vf_extent_size vf)" using assms(2) by (simp add: word_less_nat_alt)
  then have t: "0 < sectors_of (vf_extent_size vf)" by (simp add: sectors_of_def div_greater_zero_iff)
  have len: "length (ie_name e) \<le> 222" by (rule walk_names_short [OF assms(4,6)])
  then have u: "ucs2_name (map ucast (ie_name e)) = ie_name e" using assms(8) by (intro ucs2_name_plain) auto
  have "find (\<lambda>x. same_name (ie_name x) (ucs2_name (map ucast (ie_name e)))) es = Some e"
    using find_distinct [OF assms(5,6)] by (simp add: u same_name_def)
  note look = lookup_in_dir_finds [OF t assms(3,4) this]
  have "92 \<notin> set (map ucast (ie_name e) :: ucs2)"
    using assms(8) by (auto simp: ucast_backslash)
  then have r: "resolve_path (read_iso_sector ctx) (vf_extent_lba vf) (vf_extent_size vf) (map ucast (ie_name e))
      = Some (ie_extent e, ie_size e, ie_is_dir e)"
    using assms(7) by (intro resolve_plain look) auto
  have a: "premount_info ctx \<noteq> [] \<longleftrightarrow> ix_cpio_size ctx > 0 \<and> ix_cpio_buf ctx \<noteq> None"
    by (simp add: premount_info_def info_nonempty)
  have m: "path_component_matches (map ucast (ie_name e)) (bstr ''PREMOUNT.CPIO'') \<longleftrightarrow> map to_ascii_uppercase (ie_name e) = bstr ''PREMOUNT.CPIO''"
    if "premount_info ctx \<noteq> []"
    using assms(7-9) that by (intro archive_named) auto
  have p: "path_component_matches (map ucast (bstr ''PREMOUNT.CPIO'')) (bstr ''PREMOUNT.CPIO'')" by code_simp
  show ?thesis
  proof (cases "premount_info ctx = []")
    case True
    then show ?thesis using assms(1) len r a by (auto simp: file_open_def)
  next
    case False
    then show ?thesis using assms(1,9) len r a m p by (auto simp: file_open_def archive_handle_def)
  qed
qed

theorem listed_entries_open_witness:
  "file_open (example_ctx\<lparr>ix_target_name := bstr ''PREMOUNT.CPIO___'', ix_target_len := 13\<rparr>) example_root (map ucast (bstr ''EFI'')) True
     = Inr (alloc_virtual_file 21 2048 True False) \<and>
   premount_info (example_ctx\<lparr>ix_target_name := bstr ''PREMOUNT.CPIO___'', ix_target_len := 13\<rparr>) \<noteq> []"
proof -
  let ?c = "example_ctx\<lparr>ix_target_name := bstr ''PREMOUNT.CPIO___'', ix_target_len := 13\<rparr>"
  have rd: "read_iso_sector ?c = read_iso_sector example_ctx"
    by (simp add: fun_eq_iff read_iso_sector_def example_ctx_def)
  have p: "premount_info ?c \<noteq> []" by (simp add: premount_info_def example_ctx_def info_nonempty)
  have t: "take (ix_target_len ?c) (ix_target_name ?c) = bstr ''PREMOUNT.CPIO''" by (simp add: bstr_def)
  show ?thesis
    using listed_entries_open [of example_root ?c "example_records @ replicate 1976 0" example_entries
        "\<lparr>ie_name = bstr ''EFI'', ie_extent = 21, ie_size = 2048, ie_is_dir = True\<rparr>"] p t
    by (simp add: rd example_dir example_walk) (simp add: example_entries_def bstr_def to_ascii_uppercase_def)
qed

lemma last_component_sep: "last_component (92 # us) = last_component us"
  by (cases us) auto

lemma from_last_paren_sep: "from_last_paren (92 # us) = from_last_paren us"
  by (cases us) (simp_all split: option.split)

lemma resolve_path_sep: "resolve_path rd lba size' (92 # us) = resolve_path rd lba size' us"
proof (cases "us = [] \<or> us = [92]")
  case True
  then show ?thesis by (auto simp: resolve_path_def Let_def)
next
  case False
  then show ?thesis
    unfolding resolve_path_def from_last_paren_sep by (cases "from_last_paren us") simp_all
qed

lemma is_cfg_name_sep: "is_cfg_name (92 # us) = is_cfg_name us"
proof (cases "length us = 3")
  case True
  then obtain a b c where "us = [a, b, c]" by (auto simp: numeral_3_eq_3 length_Suc_conv)
  moreover have "(92 :: u8) OR 32 \<noteq> of_char CHR ''.''" by code_simp
  ultimately show ?thesis by (simp add: is_cfg_name_def bstr_def)
next
  case False
  then show ?thesis
    by (cases "length us < 4") (auto simp: is_cfg_name_def drop_Cons' le_Suc_eq)
qed

text \<open>A leading backslash does not select the root of the volume: an absolute path opened from a directory is looked up from
  that directory like a relative one.
\<close>

theorem absolute_path_is_relative: "length us < 256 \<Longrightarrow> file_open ctx vf (92 # us) pool = file_open ctx vf us pool"
proof -
  have m: "path_component_matches (92 # us) t = path_component_matches us t" for t
    unfolding path_component_matches_def last_component_sep ..
  assume "length us < 256"
  then have l: "(256 < length (92 # us)) = (256 < length us)" by simp
  show ?thesis unfolding file_open_def resolve_path_sep is_cfg_name_sep l m ..
qed

theorem absolute_path_is_relative_witness:
  "file_open example_ctx example_root (92 # map of_char ''EFI'') True = file_open example_ctx example_root (map of_char ''EFI'') True"
  by (rule absolute_path_is_relative) simp

end
