(* ===== verification/EfiIsoTheorems.thy ===== *)
theory EfiIsoTheorems
  imports EfiIsoPatch EfiIsoFsTheorems
begin

text \<open>
  Properties of the ISO walk of the UEFI loader and of the virtual disc it prepares, with an example disc.
\<close>

section \<open>An example disc\<close>

text \<open>A volume descriptor in sector 16 and a root directory in sector 20 that holds its own record only.\<close>

definition dot_record :: bytes where
  "dot_record = [34, 0, 20, 0, 0, 0, 0, 0, 0, 20, 0, 8, 0, 0, 0, 0, 8, 0, 0, 0, 0, 0, 0, 0, 0, 2, 0, 0, 1, 0, 0, 1, 1, 0]"

definition pvd_start :: bytes where
  "pvd_start = [1, 67, 68, 48, 48, 49] @ replicate 152 0 @ [20, 0, 0, 0, 0, 0, 0, 20, 0, 8, 0, 0, 0, 0, 8, 0]"

definition small_disc :: "u64 \<Rightarrow> bytes" where
  "small_disc lba =
     (if lba = 64 then pvd_start @ replicate 338 0 else if lba = 80 then dot_record @ replicate 478 0 else replicate 512 0)"

definition disc_backing :: "(u64 \<Rightarrow> bytes) \<Rightarrow> backing" where
  "disc_backing f =
     \<lparr>bk_block_size = Some 512,
      bk_read = (\<lambda>lba n. if n = 512 then Some (f lba)
        else if n = 2048 then Some (f lba @ f (lba + 1) @ f (lba + 2) @ f (lba + 3)) else None)\<rparr>"

lemma disc_whole: "(\<And>l. length (f l) = 512) \<Longrightarrow> whole_sectors (disc_backing f)"
  by (auto simp: whole_sectors_def disc_backing_def backing_ok_def backing_block_size_def split: if_splits)

lemma small_disc_length: "length (small_disc l) = 512"
  by (simp add: small_disc_def pvd_start_def dot_record_def)

definition example_vbio :: virtual_block_io where
  "example_vbio =
    \<lparr>vb_last_block = 99, vb_iso_lba = 0, vb_backing = disc_backing small_disc,
     vb_patched_file = \<lparr>mf_sector = 0, mf_sectors = 0, mf_buf = None\<rparr>,
     vb_dir_entry_sector = 0, vb_dir_entry_offset = 0, vb_dir_entry_new_extent = 0, vb_dir_entry_new_size = 0,
     vb_dir_entry_patched = False, vb_premount_file = \<lparr>mf_sector = 0, mf_sectors = 0, mf_buf = None\<rparr>,
     vb_premount_entry_sector = 0, vb_premount_entry_offset = 0, vb_premount_entry_new_extent = 0,
     vb_premount_entry_new_size = 0, vb_premount_entry_patched = False, vb_premount_entry_rename = False,
     vb_premount_entry_injected = False, vb_premount_entry_injected_blob = replicate 128 0,
     vb_premount_entry_injected_size = 0, vb_premount_new_root_size = 0\<rparr>"

lemma example_sector:
  "real_sector example_vbio s = Some (small_disc (ucast s * 4) @ small_disc (ucast s * 4 + 1) @ small_disc (ucast s * 4 + 2) @ small_disc (ucast s * 4 + 3))"
  by (simp add: real_sector_def read_iso_sector_io_def read_sector_def example_vbio_def disc_backing_def small_disc_length Let_def)

lemma example_pvd: "get_root_dir (real_sector example_vbio) = Some (20, 2048)"
  unfolding get_root_dir_def example_sector
  by (simp add: small_disc_def pvd_start_def pvd_root_def bstr_def from_le_def)

lemma example_root_sector: "real_sector example_vbio 20 = Some (dot_record @ replicate 2014 0)"
  unfolding example_sector by (simp add: small_disc_def replicate_add [symmetric])

lemma example_eod: "find_eod_in_dir (real_sector example_vbio) 20 2048 = Some (20, 34, 34)"
  by (simp add: find_eod_in_dir_def sectors_of_def example_root_sector eod_walk.simps dot_record_def nth_append)

lemma example_fit: "records_fit (dot_record @ replicate 2014 0) 0 34"
  by (simp add: records_fit.simps record_fits_def dot_record_def nth_append)

lemma example_absent: "lookup_in_dir (real_sector example_vbio) 20 2048 premount_ucs2 = None"
  by (simp add: lookup_in_dir_def sectors_of_def example_root_sector lookup_records.simps dot_record_def nth_append
      match_iso_name_def premount_name iso_name_effective_len_def bstr_def)

section \<open>The premount archive\<close>

text \<open>C7: The loader makes the premount archive a file of the virtual disc and leaves the rest of the disc alone: when the root
  directory has room for a record, a client that mounts the disc afterwards reads a volume descriptor with the same root
  directory, finds PREMOUNT.CPIO in it, behind all entries of the original disc, with the exact size of the archive, and
  reads the archive's bytes from it; every other sector of the original disc but the volume descriptor is served as it
  is, the last sector of the root directory too outside the 47 bytes of the new record; so every file whose sectors
  avoid those two has its content, and, when the records of the root directory end at a zero byte, every other name is
  looked up there with the result it has on the original disc.
\<close>

theorem premount_file_on_virtual_disc:
  assumes "whole_sectors (vb_backing vb)" "fresh_vbio vb" "room_for vb (pb_cpio bundle)"
    and "prepare_premount_iso_file pats (real_sector vb) vb sfs bundle = (True, vb', sfs')"
    and "get_root_dir (real_sector vb) = Some (root_lba, root_size)" "root_inside vb root_lba root_size"
    and "find_eod_in_dir (real_sector vb) root_lba root_size = Some (es, eo, w)"
    and "real_sector vb es = Some scratch" "records_fit scratch 0 (unat eo)"
    and "lookup_in_dir (real_sector vb) root_lba root_size premount_ucs2 = None"
    and "length (pb_cpio bundle) = pb_alloc_size bundle" "pb_cpio_size bundle < 2 ^ 32" "ix_vbio ctx = Some vb'"
  shows "\<exists>new_size extent. parse_pvd (read_iso_sector ctx) = Some (root_lba, new_size) \<and>
     lookup_in_dir (read_iso_sector ctx) root_lba new_size premount_ucs2 = Some (extent, word_of_nat (pb_cpio_size bundle), False) \<and>
     extent_content (read_iso_sector ctx) extent (word_of_nat (pb_cpio_size bundle)) = Some (take (pb_cpio_size bundle) (pb_cpio bundle)) \<and>
     (\<forall>s. unat s \<le> unat (vb_last_block vb) \<and> s \<noteq> 16 \<and> s \<noteq> es \<longrightarrow> read_iso_sector ctx s = real_sector vb s) \<and>
     (\<exists>r. length r = 47 \<and> read_iso_sector ctx es = Some (take (unat eo) scratch @ r @ drop (unat eo + 47) scratch)) \<and>
     (\<forall>lba sz. (\<forall>i < sectors_of sz. unat (lba + word_of_nat i) \<le> unat (vb_last_block vb) \<and> lba + word_of_nat i \<noteq> 16 \<and> lba + word_of_nat i \<noteq> es)
        \<longrightarrow> extent_content (read_iso_sector ctx) lba sz = extent_content (real_sector vb) lba sz) \<and>
     (scratch ! unat eo = 0 \<longrightarrow> (\<forall>name. \<not> same_name (bstr ''PREMOUNT.CPIO'') (ucs2_name name) \<longrightarrow>
        lookup_in_dir (read_iso_sector ctx) root_lba new_size name = lookup_in_dir (real_sector vb) root_lba root_size name))"
proof -
  let ?cpio = "zero_padded bundle" and ?cs = "word_of_nat (pb_cpio_size bundle) :: u32"
  have le: "pb_cpio_size bundle \<le> pb_alloc_size bundle" using assms(4) by (auto simp: prepare_premount_iso_file_def split: if_splits)
  note z = zero_padded_length [OF assms(11) le]
  have room: "room_for vb ?cpio" using assms(3,11) z by (simp add: room_for_def)
  have "unat (word_of_nat (unat eo) :: u32) = unat eo" by simp
  then have vb': "vb' = with_archive vb ?cpio es (unat eo) w ?cs"
    using assms(4,5,7) z by (auto simp: prepare_premount_iso_file_def with_archive_def Let_def split: if_splits)
  have ucs: "unat ?cs = pb_cpio_size bundle" unfolding unsigned_of_nat using assms(12) by (simp add: take_bit_nat_eq_self)
  have ok: "vbio_ok vb'" unfolding vb' using assms(1) by (intro with_archive_ok room assms(2)) (simp add: whole_sectors_def)
  have rd: "read_iso_sector ctx = virtual_sector vb'" using virtual_sector_read [OF ok assms(13)] by blast
  obtain n where n: "unat eo + 47 \<le> 2048" "unat es \<le> unat (vb_last_block vb)"
    "parse_pvd (virtual_sector vb') = Some (root_lba, saturating_add32 w 47)"
    by (rule mount_root [OF room assms(2,1,5,6,7), where cs = ?cs]) (rule that, simp_all add: vb')
  have "extent_content (virtual_sector vb') (first_block vb) ?cs = Some (take (unat ?cs) ?cpio)"
    unfolding vb' using z le ucs by (intro archive_content room assms(2) n(2)) simp
  then have c: "extent_content (virtual_sector vb') (first_block vb) ?cs = Some (take (pb_cpio_size bundle) (pb_cpio bundle))"
    using z unfolding ucs by simp
  show ?thesis
    unfolding rd
  proof (intro exI conjI allI impI)
    show "lookup_in_dir (virtual_sector vb') root_lba (saturating_add32 w 47) premount_ucs2 = Some (first_block vb, ?cs, False)"
      by (rule mount_finds_archive [OF room assms(2,1,5,6,7,10,8,9) vb'])
    show "virtual_sector vb' s = real_sector vb s" if "unat s \<le> unat (vb_last_block vb) \<and> s \<noteq> 16 \<and> s \<noteq> es" for s
      unfolding vb' using that by (intro archive_real_sector room assms(1,2)) simp_all
    show "virtual_sector vb' es = Some (take (unat eo) scratch @ premount_record (first_block vb) ?cs @ drop (unat eo + 47) scratch)"
      unfolding vb' by (rule archive_entry_sector [OF room assms(2,1,8) n(1)])
    show "extent_content (virtual_sector vb') lba sz = extent_content (real_sector vb) lba sz"
      if "\<forall>i < sectors_of sz. unat (lba + word_of_nat i) \<le> unat (vb_last_block vb) \<and> lba + word_of_nat i \<noteq> 16 \<and> lba + word_of_nat i \<noteq> es" for lba sz
      unfolding vb' by (rule archive_keeps_content [OF room assms(2,1) that])
    show "lookup_in_dir (virtual_sector vb') root_lba (saturating_add32 w 47) name = lookup_in_dir (real_sector vb) root_lba root_size name"
      if "scratch ! unat eo = 0" "\<not> same_name (bstr ''PREMOUNT.CPIO'') (ucs2_name name)" for name
      by (rule mount_keeps_names [OF room assms(2,1,5,6,7,8,9) that vb'])
  qed (use n(3) c premount_record_length in simp_all)
qed

definition example_bundle :: premount_bundle where
  "example_bundle = \<lparr>pb_cpio = [1, 2, 3] @ replicate 2045 0, pb_cpio_size = 3, pb_alloc_size = 2048, pb_iso_offset_bytes = 0\<rparr>"

definition example_prepared :: virtual_block_io where
  "example_prepared = fst (snd (prepare_premount_iso_file [] (real_sector example_vbio) example_vbio None example_bundle))"

lemma example_prepare:
  "prepare_premount_iso_file [] (real_sector example_vbio) example_vbio None example_bundle = (True, example_prepared, None)"
  by (simp add: example_prepared_def prepare_premount_iso_file_def example_pvd example_eod example_bundle_def Let_def)

theorem premount_file_on_virtual_disc_witness:
  "\<exists>new_size extent. parse_pvd (read_iso_sector (example_ctx\<lparr>ix_vbio := Some example_prepared\<rparr>)) = Some (20, new_size) \<and>
     lookup_in_dir (read_iso_sector (example_ctx\<lparr>ix_vbio := Some example_prepared\<rparr>)) 20 new_size premount_ucs2 = Some (extent, 3, False) \<and>
     extent_content (read_iso_sector (example_ctx\<lparr>ix_vbio := Some example_prepared\<rparr>)) extent 3 = Some [1, 2, 3] \<and>
     read_iso_sector (example_ctx\<lparr>ix_vbio := Some example_prepared\<rparr>) 50 = real_sector example_vbio 50 \<and>
     lookup_in_dir (read_iso_sector (example_ctx\<lparr>ix_vbio := Some example_prepared\<rparr>)) 20 new_size (map of_char ''EFI'') =
       lookup_in_dir (real_sector example_vbio) 20 2048 (map of_char ''EFI'')"
proof -
  have n: "\<not> same_name (bstr ''PREMOUNT.CPIO'') (ucs2_name (map of_char ''EFI''))" by code_simp
  have z: "(dot_record @ replicate 2014 0) ! unat (34 :: u32) = 0" by (simp add: dot_record_def nth_append)
  have p: "whole_sectors (vb_backing example_vbio)" "fresh_vbio example_vbio" "room_for example_vbio (pb_cpio example_bundle)"
    "root_inside example_vbio 20 2048" "records_fit (dot_record @ replicate 2014 0) 0 (unat (34 :: u32))"
    "length (pb_cpio example_bundle) = pb_alloc_size example_bundle" "pb_cpio_size example_bundle < 2 ^ 32"
    "ix_vbio (example_ctx\<lparr>ix_vbio := Some example_prepared\<rparr>) = Some example_prepared"
    using disc_whole [of small_disc] small_disc_length example_fit
    by (simp_all add: example_bundle_def example_vbio_def fresh_vbio_def room_for_def root_inside_def sectors_of_def)
  have b: "(word_of_nat (pb_cpio_size example_bundle) :: u32) = 3" "take (pb_cpio_size example_bundle) (pb_cpio example_bundle) = [1, 2, 3]"
    "unat (50 :: u32) \<le> unat (vb_last_block example_vbio) \<and> (50 :: u32) \<noteq> 16 \<and> (50 :: u32) \<noteq> 20"
    by (simp_all add: example_bundle_def example_vbio_def)
  from premount_file_on_virtual_disc [OF p(1-3) example_prepare example_pvd p(4) example_eod example_root_sector p(5) example_absent p(6-8),
      unfolded b(1,2)] b(3) n z
  show ?thesis by blast
qed

section \<open>The patched configuration\<close>

text \<open>C6: Patching leaves the virtual disc as it is or redirects one directory record of the disc: the record of a candidate
  file, at the place where the real disc has a record with the candidate's extent and size. When the new text has room
  behind the last block, the record, at that very place, gives the extent and the size of the text the patching engine
  made of the file's content, in both byte orders, and a reader finds that text there; every other byte of the
  directory sector is served as before, which is as on the real disc unless the record of the archive was put into
  the same sector.
\<close>

theorem patched_config_served:
  assumes "patchable vb" "whole_sectors (vb_backing vb)"
    and "patch_grub_cfg_blockio (bk_read (vb_backing vb)) pool (vb_iso_lba vb) vb sfs iso_name iso_loc k = Some vb'"
    and "get_root_dir (real_sector vb) = Some (root_lba, root_size)" "vb' \<noteq> vb"
  shows "\<exists>e sec off buf n t name pre. e \<in> set (cfg_candidates (real_sector vb) k root_lba root_size) \<and>
     off = unat (ce_dir_offset e) \<and> off + 34 \<le> 2048 \<and> real_sector vb (ce_dir_sector e) = Some sec \<and>
     record_extent sec off = ce_ext_lba e \<and> record_size sec off = ce_ext_size e \<and>
     read_extent (bk_read (vb_backing vb)) (pool (sectors_of (ce_ext_size e) * 2048)) (vb_iso_lba vb) (ce_ext_lba e) (ce_ext_size e) = Some (buf, n) \<and>
     patch_grub_cfg pool (take (unat n) buf) k iso_name iso_loc name pre = Some (Some t) \<and>
     vb' = redirect_entry vb t (ce_dir_sector e) (ce_dir_offset e) \<and>
     (room_for_text vb t \<and> unat (ce_dir_sector e) \<le> unat (vb_last_block vb) \<and> ce_dir_sector e \<noteq> 16 \<and>
      serve_memory_sector (vb_premount_file vb) (ucast (ce_dir_sector e)) = Some None \<longrightarrow>
      (\<exists>b b'. virtual_sector vb (ce_dir_sector e) = Some b \<and> virtual_sector vb' (ce_dir_sector e) = Some b' \<and>
         (vb_premount_entry_injected vb \<and> vb_premount_entry_sector vb = ce_dir_sector e \<or> b = sec) \<and>
         both_endian b' (off + 2) (first_block vb) \<and> both_endian b' (off + 10) (word_of_nat (length t)) \<and>
         take (off + 2) b' = take (off + 2) b \<and> drop (off + 18) b' = drop (off + 18) b \<and>
         extent_content (virtual_sector vb') (first_block vb) (word_of_nat (length t)) = Some t))"
proof -
  let ?es = "cfg_candidates (real_sector vb) k root_lba root_size"
  obtain prefix e where e: "e \<in> set ?es"
    "try_patch_candidate (bk_read (vb_backing vb)) pool (vb_iso_lba vb) vb (premount_target sfs) iso_name iso_loc k prefix e = Some (Some vb')"
    using assms(3-5) unfolding patch_grub_cfg_blockio_def real_sector_def [symmetric] by (auto simp: Let_def dest!: patch_first_result)
  obtain buf n t name pre where t: "read_extent (bk_read (vb_backing vb)) (pool (sectors_of (ce_ext_size e) * 2048)) (vb_iso_lba vb) (ce_ext_lba e) (ce_ext_size e) = Some (buf, n)"
    "patch_grub_cfg pool (take (unat n) buf) k iso_name iso_loc name pre = Some (Some t)"
    "vb' = redirect_entry vb t (ce_dir_sector e) (ce_dir_offset e)"
    using try_patch_result [OF e(2)] by blast
  let ?off = "unat (ce_dir_offset e)"
  obtain sec where sec: "real_sector vb (ce_dir_sector e) = Some sec" "?off + 34 \<le> 2048"
    "record_extent sec ?off = ce_ext_lba e" "record_size sec ?off = ce_ext_size e"
    using candidate_record [OF e(1)] by blast
  have r: "read_real_iso_sector vb (ucast (ce_dir_sector e)) = Some sec" using real_sector_vbio [OF assms(2)] sec(1) by simp
  have serves: "\<exists>b b'. virtual_sector vb (ce_dir_sector e) = Some b \<and> virtual_sector vb' (ce_dir_sector e) = Some b' \<and>
         (vb_premount_entry_injected vb \<and> vb_premount_entry_sector vb = ce_dir_sector e \<or> b = sec) \<and>
         both_endian b' (?off + 2) (first_block vb) \<and> both_endian b' (?off + 10) (word_of_nat (length t)) \<and>
         take (?off + 2) b' = take (?off + 2) b \<and> drop (?off + 18) b' = drop (?off + 18) b \<and>
         extent_content (virtual_sector vb') (first_block vb) (word_of_nat (length t)) = Some t"
    if "room_for_text vb t" "unat (ce_dir_sector e) \<le> unat (vb_last_block vb)" "ce_dir_sector e \<noteq> 16"
      "serve_memory_sector (vb_premount_file vb) (ucast (ce_dir_sector e)) = Some None"
    unfolding t(3) using redirect_content [OF assms(1) that(1,2)]
    by - (rule redirect_serves [where off' = "ce_dir_offset e", OF assms(1) that(1-4) r sec(2) refl], blast)
  show ?thesis
    by (rule exI [of _ e], rule exI [of _ sec], rule exI [of _ ?off], rule exI [of _ buf], rule exI [of _ n], rule exI [of _ t],
        rule exI [of _ name], rule exI [of _ pre]) (intro conjI impI e(1) t sec serves refl; blast)
qed

text \<open>The same disc with the file GRUB.CFG in its root directory.\<close>

definition cfg_record :: bytes where
  "cfg_record = [42, 0, 30, 0, 0, 0, 0, 0, 0, 30, 25, 0, 0, 0, 0, 0, 0, 25, 0, 0, 0, 0, 0, 0, 0, 0, 0, 0, 1, 0, 0, 1, 8,
     71, 82, 85, 66, 46, 67, 70, 71, 0]"

definition cfg_text :: bytes where
  "cfg_text = bstr ''menuentry'' @ [10] @ bstr ''initrd /initrd'' @ [10]"

definition cfg_disc :: "u64 \<Rightarrow> bytes" where
  "cfg_disc lba =
     (if lba = 80 then dot_record @ cfg_record @ replicate 436 0 else if lba = 120 then cfg_text @ replicate 487 0 else small_disc lba)"

definition cfg_vbio :: virtual_block_io where
  "cfg_vbio = example_vbio\<lparr>vb_backing := disc_backing cfg_disc\<rparr>"

lemma cfg_disc_length: "length (cfg_disc l) = 512"
  by (simp add: cfg_disc_def dot_record_def cfg_record_def cfg_text_def small_disc_length)

lemma cfg_sector:
  "real_sector cfg_vbio s = Some (cfg_disc (ucast s * 4) @ cfg_disc (ucast s * 4 + 1) @ cfg_disc (ucast s * 4 + 2) @ cfg_disc (ucast s * 4 + 3))"
  by (simp add: real_sector_def read_iso_sector_io_def read_sector_def cfg_vbio_def example_vbio_def disc_backing_def cfg_disc_length Let_def)

lemma cfg_pvd: "get_root_dir (real_sector cfg_vbio) = Some (20, 2048)"
  unfolding get_root_dir_def cfg_sector
  by (simp add: cfg_disc_def small_disc_def pvd_start_def pvd_root_def bstr_def from_le_def)

lemma cfg_root_sector: "real_sector cfg_vbio 20 = Some (dot_record @ cfg_record @ replicate 1972 0)"
  unfolding cfg_sector by (simp add: cfg_disc_def small_disc_def replicate_add [symmetric])

lemma cfg_offsets: "record_offsets 2048 (dot_record @ cfg_record @ replicate 1972 0) 0 = [0, 34]"
  by (simp add: record_offsets.simps dot_record_def cfg_record_def nth_append)

lemma cfg_names:
  "record_name (dot_record @ cfg_record @ replicate 1972 0) 0 = [0]"
  "record_name (dot_record @ cfg_record @ replicate 1972 0) 34 = bstr ''GRUB.CFG''"
  by (simp_all add: record_name_def dot_record_def cfg_record_def nth_append bstr_def)

lemma cfg_fields:
  "record_extent (dot_record @ cfg_record @ replicate 1972 0) 34 = 30" "record_size (dot_record @ cfg_record @ replicate 1972 0) 34 = 25"
  by (simp_all add: record_extent_def record_size_def dot_record_def cfg_record_def from_le_def)

lemma cfg_matches:
  "record_matches name (dot_record @ cfg_record @ replicate 1972 0) 0 \<longleftrightarrow> map to_ascii_uppercase name = [0]"
  "record_matches name (dot_record @ cfg_record @ replicate 1972 0) 34 \<longleftrightarrow> map to_ascii_uppercase name = bstr ''GRUB.CFG''"
proof -
  have e: "iso_effective_name_len [0] = 1" "iso_effective_name_len (bstr ''GRUB.CFG'') = 8"
    "map to_ascii_uppercase (take 1 [0]) = [0]" "map to_ascii_uppercase (take 8 (bstr ''GRUB.CFG'')) = bstr ''GRUB.CFG''"
    by code_simp+
  have l: "map to_ascii_uppercase name = bs \<Longrightarrow> length name = length bs" for bs
    by (metis length_map)
  have n: "length [0 :: u8] = 1" "length (bstr ''GRUB.CFG'') = 8" by simp_all
  show "record_matches name (dot_record @ cfg_record @ replicate 1972 0) 0 \<longleftrightarrow> map to_ascii_uppercase name = [0]"
    unfolding record_matches_def cfg_names Let_def e by (metis l n(1))
  show "record_matches name (dot_record @ cfg_record @ replicate 1972 0) 34 \<longleftrightarrow> map to_ascii_uppercase name = bstr ''GRUB.CFG''"
    unfolding record_matches_def cfg_names Let_def e by (metis l n(2))
qed

lemma cfg_find:
  "map to_ascii_uppercase name \<noteq> [0] \<Longrightarrow> find_in_dir_with_loc (real_sector cfg_vbio) 20 2048 name =
     (if map to_ascii_uppercase name = bstr ''GRUB.CFG'' then Some (30, 25, 20, 34) else None)"
  by (simp add: find_in_dir_with_loc_def example_sectors cfg_root_sector dir_limit_def cfg_offsets cfg_matches cfg_fields)

lemma cfg_known:
  assumes "map to_ascii_uppercase d1 \<noteq> [0]" "map to_ascii_uppercase d1 \<noteq> bstr ''GRUB.CFG''" "map to_ascii_uppercase f \<noteq> [0]"
  shows "find_known (real_sector cfg_vbio) 20 2048 d1 d2 f =
     (if d1 = [] \<and> map to_ascii_uppercase f = bstr ''GRUB.CFG'' then Some (30, 25, 20, 34) else None)"
  using cfg_find [OF assms(1)] cfg_find [OF assms(3)] assms(2) by (simp add: find_known_def find_in_dir_def)

definition cfg_found :: cfg_entry where
  "cfg_found = \<lparr>ce_ext_lba = 30, ce_ext_size = 25, ce_dir_sector = 20, ce_dir_offset = 34, ce_path = bstr ''/grub.cfg''\<rparr>"

lemma cfg_candidates_found: "cfg_candidates (real_sector cfg_vbio) WindowsPE 20 2048 = [cfg_found]"
proof -
  have "add_known (real_sector cfg_vbio) 20 2048 [] known_paths = [cfg_found]"
    by (simp add: known_paths_def cfg_known bstr_def to_ascii_uppercase_def add_cfg_entry_def cfg_found_def)
  then show ?thesis by (simp add: cfg_candidates_def Let_def)
qed

definition cfg_new_text :: bytes where
  "cfg_new_text = bstr ''menuentry'' @ [10] @ bstr ''initrd /initrd /PREMOUNT.CPIO'' @ [10]"

definition cfg_patched :: virtual_block_io where
  "cfg_patched = redirect_entry cfg_vbio cfg_new_text 20 34"

lemma cfg_read: "read_extent (bk_read (vb_backing cfg_vbio)) True (vb_iso_lba cfg_vbio) 30 25 = Some (cfg_text @ replicate 2023 0, 25)"
  by (simp add: read_extent_def sectors_of_def cfg_vbio_def example_vbio_def disc_backing_def cfg_disc_def small_disc_def replicate_add [symmetric]
      cfg_text_def min_def)

lemma cfg_engine: "patch_grub_cfg (\<lambda>_. True) cfg_text WindowsPE [] None [] [] = Some (Some cfg_new_text)"
  by code_simp

lemma cfg_relevant: "relevant (cfg_features_of cfg_text)" "\<not> configfile_stub (cfg_features_of cfg_text)" "cfg_new_text \<noteq> cfg_text"
  by code_simp+

lemma cfg_run:
  "patch_grub_cfg_blockio (bk_read (vb_backing cfg_vbio)) (\<lambda>_. True) (vb_iso_lba cfg_vbio) cfg_vbio None [] None WindowsPE = Some cfg_patched"
proof -
  have t: "length cfg_text = 25" "take 25 cfg_text = cfg_text" by (simp_all add: cfg_text_def)
  have "try_patch_candidate (bk_read (vb_backing cfg_vbio)) (\<lambda>_. True) (vb_iso_lba cfg_vbio) cfg_vbio (Some []) [] None WindowsPE [] cfg_found
      = Some (Some cfg_patched)"
    by (simp add: try_patch_candidate_def cfg_found_def cfg_read t cfg_relevant cfg_engine cfg_patched_def Let_def)
  then show ?thesis
    by (simp add: patch_grub_cfg_blockio_def real_sector_def [symmetric] cfg_pvd cfg_candidates_found premount_target_def)
qed

lemma text_unique:
  assumes "redirect_entry vb t s o1 = redirect_entry vb u s' o2" "length u \<le> 2048"
  shows "t = u"
proof -
  have p: "padded_text t = padded_text u" "(word_of_nat (length t) :: u32) = word_of_nat (length u)"
    using arg_cong [OF assms(1), of "\<lambda>v. mf_buf (vb_patched_file v)"] arg_cong [OF assms(1), of vb_dir_entry_new_size]
    by (simp_all add: redirect_entry_def Let_def padded_text_def text_sectors_def)
  have "text_sectors t \<le> 1"
    using arg_cong [OF p(1), of length] assms(2) by (simp add: padded_text_length text_sectors_def)
  then have "length t \<le> 2048" by (simp add: text_sectors_def)
  then have "length t = length u"
    using arg_cong [OF p(2), of unat] assms(2) unfolding unsigned_of_nat by (simp add: take_bit_nat_eq_self)
  then show ?thesis using arg_cong [OF p(1), of "take (length t)"] by (simp add: padded_text_def)
qed

theorem patched_config_served_witness:
  "\<exists>b'. virtual_sector cfg_vbio 20 = Some (dot_record @ cfg_record @ replicate 1972 0) \<and> virtual_sector cfg_patched 20 = Some b' \<and>
     both_endian b' 36 (first_block cfg_vbio) \<and> both_endian b' 44 40 \<and>
     take 36 b' = dot_record @ [42, 0] \<and> drop 52 b' = drop 18 cfg_record @ replicate 1972 0 \<and>
     extent_content (virtual_sector cfg_patched) (first_block cfg_vbio) 40 = Some cfg_new_text"
proof -
  have l: "length cfg_new_text = 40" by (simp add: cfg_new_text_def bstr_def)
  have d: "cfg_patched \<noteq> cfg_vbio" by (auto simp: cfg_patched_def redirect_entry_def cfg_vbio_def example_vbio_def Let_def dest!: arg_cong [where f = vb_dir_entry_patched])
  have p: "patchable cfg_vbio" "whole_sectors (vb_backing cfg_vbio)"
    using disc_whole [of cfg_disc] cfg_disc_length
    by (simp_all add: patchable_def cfg_vbio_def example_vbio_def vbio_ok_def mem_file_ok_def whole_sectors_def)
  have q: "room_for_text cfg_vbio cfg_new_text" "unat (20 :: u32) \<le> unat (vb_last_block cfg_vbio)"
    "serve_memory_sector (vb_premount_file cfg_vbio) (ucast (20 :: u32)) = Some None" "\<not> vb_premount_entry_injected cfg_vbio"
    by (simp_all add: room_for_text_def text_sectors_def l cfg_vbio_def example_vbio_def serve_memory_sector_def)
  obtain e sec off t where e: "e \<in> set [cfg_found]" "off = unat (ce_dir_offset e)" "real_sector cfg_vbio (ce_dir_sector e) = Some sec"
    "cfg_patched = redirect_entry cfg_vbio t (ce_dir_sector e) (ce_dir_offset e)"
    and s: "room_for_text cfg_vbio t \<and> unat (ce_dir_sector e) \<le> unat (vb_last_block cfg_vbio) \<and> ce_dir_sector e \<noteq> 16 \<and>
      serve_memory_sector (vb_premount_file cfg_vbio) (ucast (ce_dir_sector e)) = Some None \<longrightarrow>
      (\<exists>b b'. virtual_sector cfg_vbio (ce_dir_sector e) = Some b \<and> virtual_sector cfg_patched (ce_dir_sector e) = Some b' \<and>
         (vb_premount_entry_injected cfg_vbio \<and> vb_premount_entry_sector cfg_vbio = ce_dir_sector e \<or> b = sec) \<and>
         both_endian b' (off + 2) (first_block cfg_vbio) \<and> both_endian b' (off + 10) (word_of_nat (length t)) \<and>
         take (off + 2) b' = take (off + 2) b \<and> drop (off + 18) b' = drop (off + 18) b \<and>
         extent_content (virtual_sector cfg_patched) (first_block cfg_vbio) (word_of_nat (length t)) = Some t)"
    using patched_config_served [OF p cfg_run cfg_pvd d] unfolding cfg_candidates_found by (elim exE conjE) (rule that; assumption)
  have "t = cfg_new_text"
    using text_unique [of cfg_vbio t _ _ cfg_new_text 20 34] e(4) l by (simp add: cfg_patched_def)
  moreover have c: "e = cfg_found" using e(1) by simp
  then have "sec = dot_record @ cfg_record @ replicate 1972 0" using e(3) cfg_root_sector by (simp add: cfg_found_def)
  moreover have "take 36 (dot_record @ cfg_record @ replicate 1972 0) = dot_record @ [42, 0]"
    "drop 52 (dot_record @ cfg_record @ replicate 1972 0) = drop 18 cfg_record @ replicate 1972 0"
    by (simp_all add: dot_record_def cfg_record_def)
  ultimately show ?thesis using s q l e(2) c by (auto simp: cfg_found_def)
qed

end
