(* ===== verification/EfiMenu.thy ===== *)
theory EfiMenu
  imports EfiFsTheorems KMenu
begin

text \<open>
  The payload menu of the UEFI loader (\<open>show_payload_menu\<close> in \<open>efi/src/iso.rs\<close>) and the console helpers it
  prints with (\<open>efi/src/output.rs\<close>). The keyboard is the list of what the firmware's \<open>read_key_stroke\<close>
  returns, poll by poll; the menu that has used them all is still polling. What has been printed since the screen was
  cleared is the text of the page.
\<close>

section \<open>Printing\<close>

text \<open>What the firmware shows of a string: at most 255 characters, up to the first NUL.\<close>

definition prints :: "bytes \<Rightarrow> bytes" where
  "prints s = takeWhile (\<lambda>c. c \<noteq> 0) (take 255 s)"

text \<open>The buffer and the number of digits. The kernel's menu has the same loop (\<open>format_digits\<close>).\<close>

definition format_u64_buf :: "u64 \<Rightarrow> bytes \<times> nat" where
  "format_u64_buf v =
     (if v = 0 then ([48] @ replicate 19 0, 1)
      else let ds = format_digits 20 v [] in (replicate (20 - length ds) 0 @ ds, length ds))"

definition print_dec :: "u64 \<Rightarrow> bytes" where
  "print_dec v = (let (buf, len) = format_u64_buf v in prints (drop (20 - len) buf))"

section \<open>The keyboard\<close>

datatype key_poll = Pressed u16 | NotReady | KeyError

fun poll_keys :: "key_poll list \<Rightarrow> (u16 option \<times> key_poll list) option" where
  "poll_keys [] = None"
| "poll_keys (Pressed uc # ps) = Some (Some uc, ps)"
| "poll_keys (NotReady # ps) = poll_keys ps"
| "poll_keys (KeyError # ps) = Some (None, ps)"

text \<open>The key and the polls left, or \<open>None\<close> while there is no key; without a keyboard there is never one.\<close>

definition read_menu_key :: "bool \<Rightarrow> key_poll list \<Rightarrow> (u16 option \<times> key_poll list) option" where
  "read_menu_key con_in polls = (if con_in then poll_keys polls else Some (None, polls))"

lemma poll_keys_shorter: "poll_keys ps = Some (Some k, rest) \<Longrightarrow> length rest < length ps"
  by (induction ps rule: poll_keys.induct) auto

lemma read_menu_key_shorter: "read_menu_key con_in ps = Some (Some k, rest) \<Longrightarrow> length rest < length ps"
  by (auto simp: read_menu_key_def dest: poll_keys_shorter split: if_splits)

definition menu_char :: "u16 \<Rightarrow> u8" where
  "menu_char uc =
     (if uc \<ge> 0x20 \<and> uc < 0x7F then ucast uc
      else if uc = 0x0D \<or> uc = 0x0A then 10
      else if uc = 0x08 then 8
      else 0)"

section \<open>The page\<close>

definition EFI_PAGE_SIZE :: nat where "EFI_PAGE_SIZE = 12"

definition type_text :: "payload_type \<Rightarrow> bytes \<times> bool" where
  "type_text t =
     (case t of
        Iso \<Rightarrow> (bstr '' ISO '', True)
      | Wim \<Rightarrow> (bstr '' WIM  [unsupported]'', False)
      | Vhd \<Rightarrow> (bstr '' VHD  [unsupported]'', False)
      | Vhdx \<Rightarrow> (bstr '' VHDX [unsupported]'', False)
      | Img \<Rightarrow> (bstr '' IMG  [unsupported]'', False)
      | Efi \<Rightarrow> (bstr '' EFI '', True))"

definition payload_line :: "payload_entry list \<Rightarrow> nat \<Rightarrow> bytes option" where
  "payload_line payloads i = do {
     p \<leftarrow> idx payloads i;
     c \<leftarrow> idx (pe_name p) 0;
     nm \<leftarrow> (if pe_name_len p > 0 \<and> c \<noteq> 0 then slice (pe_name p) 0 (min (pe_name_len p) 120) else Some []);
     let (type_str, is_supported) = type_text (pe_type p);
     Some (bstr '' '' @ print_dec (word_of_nat (i + 1)) @ bstr ''. '' @ prints nm @ prints type_str
       @ (if is_supported then prints (bstr '' ('') @ print_dec (pe_size p div (1024 * 1024)) @ prints (bstr '' MiB)'') else [])
       @ [13, 10]) }"

fun payload_lines :: "payload_entry list \<Rightarrow> nat list \<Rightarrow> bytes option" where
  "payload_lines payloads [] = Some []"
| "payload_lines payloads (i # is) = do {
     l \<leftarrow> payload_line payloads i;
     ls \<leftarrow> payload_lines payloads is;
     Some (l @ ls) }"

record efi_menu =
  em_payloads :: "payload_entry list"
  em_page :: nat
  em_digits :: bytes
  em_len :: nat

definition payload_page :: "efi_menu \<Rightarrow> bytes option" where
  "payload_page st = do {
     let page_end = min (em_page st + EFI_PAGE_SIZE) (length (em_payloads st));
     ls \<leftarrow> payload_lines (em_payloads st) [em_page st..<page_end];
     ds \<leftarrow> (if em_len st > 0 then slice (em_digits st) 0 (em_len st) else Some []);
     Some (bstr ''=== Choosable UEFI Boot Menu ==='' @ [13, 10] @ ls @ [13, 10]
       @ bstr ''Enter number (n/p page, r scan): '' @ prints ds) }"

section \<open>The keys\<close>

text \<open>The loop over the digits is that of the kernel's menu (\<open>parse_digits\<close>).\<close>

definition parse_menu_number :: "bytes \<Rightarrow> nat \<Rightarrow> nat option" where
  "parse_menu_number digits count =
     (if digits = [] \<or> length digits > 3 then None
      else case parse_digits digits 0 of
             None \<Rightarrow> None
           | Some value \<Rightarrow> if value > 0 \<and> value \<le> count then Some (value - 1) else None)"

text \<open>\<open>scan\<close> is \<open>scan_payloads\<close> into the emptied table. A message stands for the halt that follows it.\<close>

datatype efi_act = Keep efi_menu | Select "payload_entry list" nat | Stop string

definition efi_menu_key :: "payload_entry list outcome \<Rightarrow> u8 \<Rightarrow> efi_menu \<Rightarrow> efi_act outcome" where
  "efi_menu_key scan ch st =
     (if ch = 114 \<or> ch = 82 then
        obind scan (\<lambda>ps.
          if length ps = 0 then Done (Stop ''No bootable payloads found.'')
          else Done (Keep (st\<lparr>em_payloads := ps, em_page := 0, em_len := 0\<rparr>)))
      else if ch = 110 \<or> ch = 78 then
        Done (Keep (if em_page st + EFI_PAGE_SIZE < length (em_payloads st)
          then st\<lparr>em_page := em_page st + EFI_PAGE_SIZE, em_len := 0\<rparr> else st\<lparr>em_len := 0\<rparr>))
      else if ch = 112 \<or> ch = 80 then Done (Keep (st\<lparr>em_page := em_page st - EFI_PAGE_SIZE, em_len := 0\<rparr>))
      else if ch = 8 then Done (Keep (st\<lparr>em_len := em_len st - 1\<rparr>))
      else if 48 \<le> ch \<and> ch \<le> 57 \<and> em_len st < length (em_digits st) then
        obind (of_opt (put (em_digits st) (em_len st) ch)) (\<lambda>ds. Done (Keep (st\<lparr>em_digits := ds, em_len := em_len st + 1\<rparr>)))
      else if ch = 10 then
        obind (of_opt (slice (em_digits st) 0 (em_len st))) (\<lambda>ds.
          case parse_menu_number ds (length (em_payloads st)) of
            None \<Rightarrow> Done (Keep (st\<lparr>em_len := 0\<rparr>))
          | Some i \<Rightarrow>
              obind (of_opt (idx (em_payloads st) i)) (\<lambda>p.
                if pe_type p \<noteq> Iso \<and> pe_type p \<noteq> Efi then Done (Keep (st\<lparr>em_len := 0\<rparr>))
                else Done (Select (em_payloads st) i)))
      else Done (Keep st))"

section \<open>The loop\<close>

text \<open>Still polling with the page shown, halted after a message or for want of a keyboard, or a payload chosen.\<close>

datatype efi_menu_end = Polling efi_menu bytes | MenuHalted string | Chosen "payload_entry list" nat

function efi_menu_loop ::
  "payload_entry list outcome \<Rightarrow> bool \<Rightarrow> key_poll list \<Rightarrow> efi_menu \<Rightarrow> efi_menu_end outcome" where
  "efi_menu_loop scan con_in polls st =
     obind (of_opt (payload_page st)) (\<lambda>page.
       case read_menu_key con_in polls of
         None \<Rightarrow> Done (Polling st page)
       | Some (None, rest) \<Rightarrow> Done (MenuHalted '''')
       | Some (Some uc, rest) \<Rightarrow>
           obind (efi_menu_key scan (menu_char uc) st) (\<lambda>a.
             case a of
               Keep st' \<Rightarrow> efi_menu_loop scan con_in rest st'
             | Select ps i \<Rightarrow> Done (Chosen ps i)
             | Stop msg \<Rightarrow> Done (MenuHalted msg)))"
  by pat_completeness auto

termination by (relation "measure (\<lambda>(scan, con_in, polls, st). length polls)") (auto dest: read_menu_key_shorter)

declare efi_menu_loop.simps [simp del]

definition show_payload_menu ::
  "payload_entry list outcome \<Rightarrow> bool \<Rightarrow> key_poll list \<Rightarrow> payload_entry list \<Rightarrow> efi_menu_end outcome" where
  "show_payload_menu scan con_in polls payloads =
     (if length payloads = 0 then Done (MenuHalted ''No bootable payloads found on partition 1.'')
      else efi_menu_loop scan con_in polls
        \<lparr>em_payloads = take 64 payloads, em_page = 0, em_digits = [0, 0, 0], em_len = 0\<rparr>)"

end
