(* ===== verification/EfiMenuCorrect.thy ===== *)
theory EfiMenuCorrect
  imports EfiMenu
begin

text \<open>
  The payload menu of the UEFI loader is correct: an invariant of its states that every key keeps, runs without panic on
  every sequence of polls, and the selection of a payload by the number its line shows. The directory scan behind the
  refresh key is an interface: all the menu asks of it is a table of well-formed payloads.
\<close>

section \<open>The rescan as an interface\<close>

definition table_ok :: "payload_entry list \<Rightarrow> bool" where
  "table_ok ps \<longleftrightarrow> (\<forall>p\<in>set ps. payload_ok p) \<and> length ps \<le> 64"

locale payload_scan =
  fixes scan :: "payload_entry list outcome"
  assumes scan_table: "safe table_ok scan"

interpretation fsscan: payload_scan "scan_payloads (read_sector io) n d ctx []" for io n d ctx
proof
  have "table_ok ps" if "grown [] ps" for ps using that by (auto simp: grown_def table_ok_def)
  then show "safe table_ok (scan_payloads (read_sector io) n d ctx [])" by (rule safe_mono [OF scan_payloads_grown])
qed

section \<open>The invariant\<close>

definition efi_menu_ok :: "efi_menu \<Rightarrow> bool" where
  "efi_menu_ok st \<longleftrightarrow> em_payloads st \<noteq> [] \<and> table_ok (em_payloads st) \<and> 12 dvd em_page st \<and>
     em_page st < length (em_payloads st) \<and> length (em_digits st) = 3 \<and> em_len st \<le> 3 \<and>
     list_all is_digit (take (em_len st) (em_digits st))"

definition supported :: "payload_entry \<Rightarrow> bool" where
  "supported p \<longleftrightarrow> pe_type p = Iso \<or> pe_type p = Efi"

fun act_ok :: "efi_act \<Rightarrow> bool" where
  "act_ok (Keep st) = efi_menu_ok st"
| "act_ok (Select ps i) = (table_ok ps \<and> i < length ps \<and> supported (ps ! i))"
| "act_ok (Stop msg) = True"

fun menu_end_ok :: "efi_menu_end \<Rightarrow> bool" where
  "menu_end_ok (Polling st page) = (efi_menu_ok st \<and> payload_page st = Some page)"
| "menu_end_ok (MenuHalted msg) = True"
| "menu_end_ok (Chosen ps i) = (table_ok ps \<and> i < length ps \<and> supported (ps ! i))"

lemma parse_menu_number_range: "parse_menu_number ds count = Some i \<Longrightarrow> i < count"
  by (auto simp: parse_menu_number_def split: if_splits option.splits)

lemma digits_take_less: "list_all is_digit (take n ds) \<Longrightarrow> list_all is_digit (take (n - 1) ds)"
  by (rule list_all_take_le [OF diff_le_self])

lemma efi_digit_key:
  assumes "is_digit c" "em_len st < length (em_digits st)"
  shows "efi_menu_key scan c st = Done (Keep (st\<lparr>em_digits := (em_digits st)[em_len st := c], em_len := em_len st + 1\<rparr>))"
proof -
  have "48 \<le> c" "c \<le> 57" using assms(1) by (auto simp: is_digit_def)
  then have "c \<noteq> 114" "c \<noteq> 82" "c \<noteq> 110" "c \<noteq> 78" "c \<noteq> 112" "c \<noteq> 80" "c \<noteq> 8" by auto
  then show ?thesis using assms \<open>48 \<le> c\<close> \<open>c \<le> 57\<close> by (simp add: efi_menu_key_def bounds_simps)
qed

lemma digit_keeps:
  assumes "efi_menu_ok st" "is_digit c" "em_len st < 3"
  shows "efi_menu_ok (st\<lparr>em_digits := (em_digits st)[em_len st := c], em_len := em_len st + 1\<rparr>)"
  using assms by (auto simp: efi_menu_ok_def take_Suc_conv_app_nth)

lemma enter_key:
  assumes "efi_menu_ok st"
  shows "efi_menu_key scan 10 st =
    (case parse_menu_number (take (em_len st) (em_digits st)) (length (em_payloads st)) of
       None \<Rightarrow> Done (Keep (st\<lparr>em_len := 0\<rparr>))
     | Some i \<Rightarrow> Done (if supported (em_payloads st ! i) then Select (em_payloads st) i else Keep (st\<lparr>em_len := 0\<rparr>)))"
proof -
  have "slice (em_digits st) 0 (em_len st) = Some (take (em_len st) (em_digits st))"
    using assms by (simp add: efi_menu_ok_def bounds_simps)
  then show ?thesis
    by (auto simp: efi_menu_key_def supported_def bounds_simps split: option.split dest: parse_menu_number_range)
qed

context payload_scan
begin

lemma efi_key_ok:
  assumes "efi_menu_ok st"
  shows "safe act_ok (efi_menu_key scan c st)"
proof -
  have reset: "efi_menu_ok (st\<lparr>em_len := 0\<rparr>)" using assms by (simp add: efi_menu_ok_def)
  consider (refresh) "c = 114 \<or> c = 82" | (forward) "c = 110 \<or> c = 78" | (backward) "c = 112 \<or> c = 80" | (erase) "c = 8"
    | (digit) "is_digit c" "em_len st < 3" | (enter) "c = 10"
    | (other) "\<not> (c = 114 \<or> c = 82)" "\<not> (c = 110 \<or> c = 78)" "\<not> (c = 112 \<or> c = 80)" "c \<noteq> 8"
      "\<not> (is_digit c \<and> em_len st < 3)" "c \<noteq> 10" by blast
  then show ?thesis
  proof cases
    case refresh
    have "safe act_ok (obind scan (\<lambda>ps. if length ps = 0 then Done (Stop msg) else Done (Keep (st\<lparr>em_payloads := ps, em_page := 0, em_len := 0\<rparr>))))" for msg
      by (rule safe_bind [OF scan_table]) (use assms in \<open>auto simp: safe_def efi_menu_ok_def\<close>)
    then show ?thesis using refresh unfolding efi_menu_key_def by simp
  next
    case forward
    then show ?thesis using assms by (auto simp: efi_menu_key_def safe_def efi_menu_ok_def EFI_PAGE_SIZE_def)
  next
    case backward
    have "12 dvd em_page st - 12" using assms by (simp add: efi_menu_ok_def)
    then show ?thesis using backward assms by (auto simp: efi_menu_key_def safe_def efi_menu_ok_def EFI_PAGE_SIZE_def)
  next
    case erase
    have "list_all is_digit (take (em_len st - 1) (em_digits st))" using assms by (intro digits_take_less) (simp add: efi_menu_ok_def)
    then show ?thesis using erase assms by (auto simp: efi_menu_key_def safe_def efi_menu_ok_def)
  next
    case digit
    then show ?thesis using efi_digit_key [of c st scan] digit_keeps [OF assms digit] assms
      by (simp add: safe_def efi_menu_ok_def)
  next
    case enter
    have "table_ok (em_payloads st)" using assms by (simp add: efi_menu_ok_def)
    then show ?thesis using enter_key [OF assms, of scan] reset enter
      by (auto simp: safe_def split: option.split dest: parse_menu_number_range)
  next
    case other
    have "efi_menu_key scan c st = Done (Keep st)" using other assms
      by (auto simp: efi_menu_key_def efi_menu_ok_def is_digit_def)
    then show ?thesis using assms by (simp add: safe_def)
  qed
qed

end

section \<open>Every page can be drawn\<close>

lemma payload_line_total: "table_ok ps \<Longrightarrow> i < length ps \<Longrightarrow> \<exists>l. payload_line ps i = Some l"
proof -
  assume a: "table_ok ps" "i < length ps"
  then have "payload_ok (ps ! i)" by (simp add: table_ok_def)
  then show ?thesis using a(2) by (auto simp: payload_line_def payload_ok_def bounds_simps split: prod.splits)
qed

lemma payload_lines_total: "table_ok ps \<Longrightarrow> \<forall>i\<in>set is. i < length ps \<Longrightarrow> \<exists>l. payload_lines ps is = Some l"
proof (induction "is")
  case (Cons i "is")
  then show ?case using payload_line_total [of ps i] by fastforce
qed simp

lemma payload_page_total:
  assumes "efi_menu_ok st"
  shows "\<exists>p. payload_page st = Some p"
proof -
  have "table_ok (em_payloads st)" and l: "em_len st \<le> length (em_digits st)" using assms by (simp_all add: efi_menu_ok_def)
  from payload_lines_total [OF this(1), of "[em_page st..<min (em_page st + EFI_PAGE_SIZE) (length (em_payloads st))]"]
  obtain ls where "payload_lines (em_payloads st) [em_page st..<min (em_page st + EFI_PAGE_SIZE) (length (em_payloads st))] = Some ls"
    by auto
  then show ?thesis using l by (simp add: payload_page_def Let_def bounds_simps)
qed

context payload_scan
begin

lemma efi_menu_loop_ok: "efi_menu_ok st \<Longrightarrow> safe menu_end_ok (efi_menu_loop scan con_in polls st)"
proof (induction "length polls" arbitrary: polls st rule: less_induct)
  case less
  obtain page where page: "payload_page st = Some page" using payload_page_total [OF less.prems] by blast
  show ?case
  proof (cases "read_menu_key con_in polls")
    case None
    then show ?thesis using page less.prems by (subst efi_menu_loop.simps) (simp add: safe_def)
  next
    case (Some r)
    obtain k rest where r: "r = (k, rest)" by (cases r)
    show ?thesis
    proof (cases k)
      case None
      then show ?thesis using page Some r by (subst efi_menu_loop.simps) (simp add: safe_def)
    next
      case (Some uc)
      have rest: "length rest < length polls" using \<open>read_menu_key con_in polls = Some r\<close> r Some
        by (auto dest: read_menu_key_shorter)
      have "safe menu_end_ok (obind (efi_menu_key scan (menu_char uc) st) (\<lambda>a. case a of
          Keep st' \<Rightarrow> efi_menu_loop scan con_in rest st' | Select ps i \<Rightarrow> Done (Chosen ps i) | Stop msg \<Rightarrow> Done (MenuHalted msg)))"
        by (rule safe_bind [OF efi_key_ok [OF less.prems]]) (use less.hyps [OF rest] in \<open>auto simp: safe_def split: efi_act.splits\<close>)
      then show ?thesis using page \<open>read_menu_key con_in polls = Some r\<close> r Some by (subst efi_menu_loop.simps) simp
    qed
  qed
qed

lemma show_payload_menu_ok:
  assumes "table_ok ps"
  shows "safe menu_end_ok (show_payload_menu scan con_in polls ps)"
proof (cases "ps = []")
  case False
  then have "efi_menu_ok \<lparr>em_payloads = take 64 ps, em_page = 0, em_digits = [0, 0, 0], em_len = 0\<rparr>"
    using assms by (auto simp: efi_menu_ok_def table_ok_def)
  then show ?thesis using False efi_menu_loop_ok by (simp add: show_payload_menu_def)
qed (simp add: show_payload_menu_def safe_def)

end

section \<open>Choosing by number\<close>

text \<open>Polls without a key change nothing.\<close>

lemma loop_ignores_idle:
  "efi_menu_loop scan con_in polls st = efi_menu_loop scan con_in (filter (\<lambda>p. p \<noteq> NotReady) polls) st"
proof (induction polls arbitrary: st)
  case (Cons p ps)
  show ?case
  proof (cases p)
    case (Pressed uc)
    have e: "efi_menu_loop scan con_in (filter (\<lambda>p. p \<noteq> NotReady) ps) = efi_menu_loop scan con_in ps"
      using Cons.IH by (simp add: fun_eq_iff)
    show ?thesis
    proof (cases con_in)
      case True
      then have "efi_menu_loop scan True (filter (\<lambda>p. p \<noteq> NotReady) ps) = efi_menu_loop scan True ps" using e by simp
      then show ?thesis using Pressed True by (subst (1 2) efi_menu_loop.simps) (simp add: read_menu_key_def)
    next
      case False
      then show ?thesis using Pressed by (subst (1 2) efi_menu_loop.simps) (simp add: read_menu_key_def)
    qed
  next
    case NotReady
    have "efi_menu_loop scan con_in (NotReady # ps) st = efi_menu_loop scan con_in ps st"
      by (subst (1 2) efi_menu_loop.simps) (simp add: read_menu_key_def)
    then show ?thesis using NotReady Cons.IH by simp
  next
    case KeyError
    then show ?thesis by (subst (1 2) efi_menu_loop.simps) (simp add: read_menu_key_def)
  qed
qed simp

lemma efi_loop_key:
  assumes "efi_menu_ok st" "efi_menu_key scan (menu_char uc) st = Done (Keep st')"
  shows "efi_menu_loop scan True (Pressed uc # polls) st = efi_menu_loop scan True polls st'"
proof -
  obtain page where "payload_page st = Some page" using payload_page_total [OF assms(1)] by blast
  then show ?thesis using assms(2) by (subst efi_menu_loop.simps) (simp add: read_menu_key_def)
qed

lemma menu_char_digit: "is_digit d \<Longrightarrow> menu_char (ucast d) = d"
  using digit_cases [of d] by (auto simp: menu_char_def)

definition typed :: "bytes \<Rightarrow> key_poll list" where
  "typed ds = map (\<lambda>d. Pressed (ucast d)) ds"

lemma type_efi_digits:
  "efi_menu_ok st \<Longrightarrow> list_all is_digit ds \<Longrightarrow> em_len st + length ds \<le> 3 \<Longrightarrow>
     \<exists>st'. efi_menu_loop scan True (typed ds @ polls) st = efi_menu_loop scan True polls st' \<and> efi_menu_ok st' \<and>
       em_payloads st' = em_payloads st \<and> em_page st' = em_page st \<and> em_len st' = em_len st + length ds \<and>
       take (em_len st') (em_digits st') = take (em_len st) (em_digits st) @ ds"
proof (induction ds arbitrary: st)
  case (Cons d ds)
  have d: "is_digit d" and l: "em_len st < 3" "em_len st < length (em_digits st)" using Cons.prems by (auto simp: efi_menu_ok_def)
  let ?st = "st\<lparr>em_digits := (em_digits st)[em_len st := d], em_len := em_len st + 1\<rparr>"
  have ok: "efi_menu_ok ?st" by (rule digit_keeps [OF Cons.prems(1) d l(1)])
  have key: "efi_menu_loop scan True (typed (d # ds) @ polls) st = efi_menu_loop scan True (typed ds @ polls) ?st"
    using efi_loop_key [OF Cons.prems(1)] efi_digit_key [OF d l(2)] by (simp add: typed_def menu_char_digit [OF d])
  have "take (em_len ?st) (em_digits ?st) = take (em_len st) (em_digits st) @ [d]"
    using l(2) by (simp add: take_Suc_conv_app_nth)
  with Cons.IH [OF ok] Cons.prems key show ?case by fastforce
qed (auto simp: typed_def)

lemma is_digit_nonzero: "is_digit c \<Longrightarrow> c \<noteq> 0"
  by (auto simp: is_digit_def)

lemma prints_digits: "list_all is_digit ds \<Longrightarrow> length ds \<le> 255 \<Longrightarrow> prints ds = ds"
  by (auto simp: prints_def list_all_iff is_digit_nonzero)

lemma print_dec_digits: "print_dec v = (if v = 0 then [] else format_u64 v)"
proof (cases "v = 0")
  case True
  have "print_dec 0 = []" by code_simp
  then show ?thesis using True by simp
next
  case False
  have f: "list_all is_digit (format_u64 v)" "length (format_u64 v) \<le> 20" using format_u64_value [of v] by auto
  then show ?thesis using False prints_digits [OF f(1)]
    by (simp add: print_dec_def format_u64_buf_def format_u64_def Let_def)
qed

text \<open>A line starts with its number, and the number with the line's index.\<close>

definition line_number :: "bytes \<Rightarrow> bytes" where
  "line_number l = takeWhile is_digit (tl l)"

lemma line_number_shown:
  assumes "payload_line ps i = Some l" "length ps \<le> 64"
  shows "line_number l = format_u64 (word_of_nat (i + 1))" "length (line_number l) \<le> 3"
    "parse_menu_number (line_number l) (length ps) = Some i"
proof -
  let ?ds = "format_u64 (word_of_nat (i + 1))"
  have i: "i < length ps" using assms(1) by (auto simp: payload_line_def idx_def split: Option.bind_splits if_splits)
  have u: "unat (word_of_nat (i + 1) :: u64) = i + 1" using i assms(2) by (intro unat_of_nat_small) simp
  then have nz: "(word_of_nat (i + 1) :: u64) \<noteq> 0" by (metis unat_0 add_is_0 one_neq_zero)
  then have nz': "1 + word_of_nat i \<noteq> (0 :: u64)" by (simp add: add.commute)
  have f: "list_all is_digit ?ds" "dec_value ?ds 0 = i + 1" "?ds \<noteq> []" "length ?ds \<le> 3"
    using format_u64_value [of "word_of_nat (i + 1)"] u i assms(2) by auto
  have nd: "\<not> is_digit 46" by (simp add: is_digit_def)
  obtain tail where "l = 32 # ?ds @ 46 # tail"
    using assms(1) by (auto simp: payload_line_def print_dec_digits nz nz' bstr_def split: Option.bind_splits prod.splits)
  then show n: "line_number l = ?ds" using f(1) nd by (simp add: line_number_def list_all_iff takeWhile_append2)
  then show "length (line_number l) \<le> 3" using f(4) by simp
  have "i + 1 \<le> USIZE_MAX" using i assms(2) by (simp add: USIZE_MAX_def)
  then show "parse_menu_number (line_number l) (length ps) = Some i"
    using parse_digits_value [OF f(1), of 0] f i unfolding n by (simp add: parse_menu_number_def)
qed

lemma enter_chooses:
  assumes "efi_menu_ok st" "parse_menu_number (take (em_len st) (em_digits st)) (length (em_payloads st)) = Some i"
  shows "efi_menu_loop scan True (Pressed 13 # polls) st =
    (if supported (em_payloads st ! i) then Done (Chosen (em_payloads st) i)
     else efi_menu_loop scan True polls (st\<lparr>em_len := 0\<rparr>))"
proof -
  obtain page where page: "payload_page st = Some page" using payload_page_total [OF assms(1)] by blast
  have c: "menu_char 13 = 10" by code_simp
  show ?thesis using enter_key [OF assms(1), of scan] assms(2) page
    by (subst efi_menu_loop.simps) (simp add: read_menu_key_def c)
qed

section \<open>Properties\<close>

text \<open>C19: The payload menu never panics: on the result of any scan, with any keyboard and any disk behind the refresh
  key, every state it passes through has 1 to 64 well-formed payloads, a page inside the table and at most three digits typed, every page
  can be drawn, and a payload it leaves with exists and is of a type the loader boots.\<close>

theorem payload_menu_safe:
  "table_ok ps \<Longrightarrow> safe menu_end_ok (show_payload_menu (scan_payloads (read_sector io) n d ctx []) con_in polls ps)"
  by (rule fsscan.show_payload_menu_ok)

definition menu_payload :: payload_entry where
  "menu_payload = \<lparr>pe_name = name_buf (bstr ''/A.ISO''), pe_name_len = 6, pe_start_lba = 4096, pe_size = 2048, pe_type = Iso\<rparr>"

lemma menu_payload_ok: "table_ok [menu_payload]"
  by (simp add: table_ok_def payload_ok_def menu_payload_def name_buf_def path_ok_def bstr_def)

theorem payload_menu_safe_witness:
  "safe menu_end_ok (show_payload_menu (scan_payloads (read_sector (\<lambda>_ _. None)) 1 1 fat32_ctx []) True
     [NotReady, Pressed 114, Pressed 49, Pressed 13] [menu_payload])"
  by (rule payload_menu_safe [OF menu_payload_ok])

text \<open>Every payload can be chosen by the number its line shows: typing the digits of the line of a payload and Enter,
  with any idle polls between the keys, leaves the menu with exactly that payload when the loader can boot its type, and
  keeps the menu, with nothing typed, when it cannot.\<close>

theorem shown_number_chooses:
  assumes "efi_menu_ok st" "em_len st = 0" "payload_line (em_payloads st) i = Some l"
    and "filter (\<lambda>p. p \<noteq> NotReady) polls = typed (line_number l) @ Pressed 13 # rest"
  shows "\<exists>st'. efi_menu_loop scan True polls st =
      (if supported (em_payloads st ! i) then Done (Chosen (em_payloads st) i) else efi_menu_loop scan True rest st')
     \<and> efi_menu_ok st' \<and> em_payloads st' = em_payloads st \<and> em_page st' = em_page st \<and> em_len st' = 0"
proof -
  have t: "length (em_payloads st) \<le> 64" using assms(1) by (simp add: efi_menu_ok_def table_ok_def)
  note n = line_number_shown [OF assms(3) t]
  have "list_all is_digit (line_number l)" by (simp add: line_number_def list_all_iff) (meson set_takeWhileD)
  then obtain st' where st': "efi_menu_loop scan True (typed (line_number l) @ Pressed 13 # rest) st = efi_menu_loop scan True (Pressed 13 # rest) st'"
    "efi_menu_ok st'" "em_payloads st' = em_payloads st" "em_page st' = em_page st" "take (em_len st') (em_digits st') = line_number l"
    using type_efi_digits [OF assms(1), of "line_number l" scan "Pressed 13 # rest"] n(2) assms(2) by auto
  have "efi_menu_ok (st'\<lparr>em_len := 0\<rparr>)" using st'(2) by (simp add: efi_menu_ok_def)
  then show ?thesis
    using enter_chooses [OF st'(2), of i scan rest] n(3) st' loop_ignores_idle [of scan True polls st] assms(4)
    by (intro exI [of _ "st'\<lparr>em_len := 0\<rparr>"]) simp
qed

theorem shown_number_chooses_witness:
  "efi_menu_loop (Done []) True [NotReady, Pressed 49, NotReady, Pressed 13] \<lparr>em_payloads = [menu_payload], em_page = 0,
     em_digits = [0, 0, 0], em_len = 0\<rparr> = Done (Chosen [menu_payload] 0)"
proof -
  let ?st = "\<lparr>em_payloads = [menu_payload], em_page = 0, em_digits = [0, 0, 0], em_len = 0\<rparr>"
  have ok: "efi_menu_ok ?st" using menu_payload_ok by (simp add: efi_menu_ok_def)
  obtain l where l: "payload_line [menu_payload] 0 = Some l" using payload_line_total [OF menu_payload_ok, of 0] by auto
  have "format_u64 1 = [49]" by code_simp
  then have "line_number l = [49]" using line_number_shown(1) [OF l] by simp
  then show ?thesis using shown_number_chooses [OF ok _ _, of 0 l "[NotReady, Pressed 49, NotReady, Pressed 13]" "[]" "Done []"] l
    by (simp add: typed_def supported_def menu_payload_def)
qed

end
