(* ===== verification/EfiStages.thy ===== *)
theory EfiStages
  imports EfiMenuCorrect KMain EfiBootKind
begin

text \<open>
  The boot state of the UEFI loader (\<open>efi/src/boot_context.rs\<close>), the stages that fill it in
  (\<open>efi/src/boot_stage.rs\<close>) and the pipeline that \<open>efi_main\<close> runs (\<open>efi/src/main.rs\<close>). The firmware
  is a record of what it answers: the handles with Block I/O, the protocol and the media identifier of a handle, and
  the keyboard. A pointer to the protocol is the function that reads blocks through it.
\<close>

section \<open>The firmware and the boot state\<close>

type_synonym block_io = "u64 \<Rightarrow> nat \<Rightarrow> bytes option"

record firmware =
  fw_handles :: "bio_handle list option"
  fw_block_io :: "nat \<Rightarrow> block_io option"
  fw_media_id :: "nat \<Rightarrow> u32 option"
  fw_con_in :: bool
  fw_polls :: "key_poll list"

text \<open>The payload table holds the first \<open>payload_count\<close> entries.\<close>

record boot_context =
  bc_disk_handle :: "nat option"
  bc_block_io :: "block_io option"
  bc_media_id :: u32
  bc_part_lba :: u64
  bc_part_guid :: guid
  bc_part_number :: u32
  bc_is_mbr :: bool
  bc_fs_type :: "fs_type option"
  bc_fs_ctx :: "efi_fs_ctx option"
  bc_payloads :: "payload_entry list"
  bc_selected :: "nat option"
  bc_iso_location :: "iso_location option"

definition new_context :: boot_context where
  "new_context = \<lparr>bc_disk_handle = None, bc_block_io = None, bc_media_id = 0, bc_part_lba = 0,
     bc_part_guid = \<lparr>g_d1 = 0, g_d2 = 0, g_d3 = 0, g_d4 = replicate 8 0\<rparr>, bc_part_number = 0, bc_is_mbr = False,
     bc_fs_type = None, bc_fs_ctx = None, bc_payloads = [], bc_selected = None, bc_iso_location = None\<rparr>"

definition selected_payload :: "boot_context \<Rightarrow> payload_entry option" where
  "selected_payload ctx =
     (case bc_selected ctx of
        None \<Rightarrow> None
      | Some i \<Rightarrow> if i < length (bc_payloads ctx) then Some (bc_payloads ctx ! i) else None)"

text \<open>
  What a stage ends with: \<open>Continue\<close> and \<open>Halt\<close> are the code's results, a stage that never returns has died
  with a message, is in the menu, or has started the payload of an index.
\<close>

datatype stage_result = Continue boot_context | Halt boot_context | Died string | InMenu efi_menu_end | Boot_payload boot_context nat

section \<open>Stage 1: the disk\<close>

definition discover_disk :: "firmware \<Rightarrow> boot_context \<Rightarrow> stage_result outcome" where
  "discover_disk fw ctx =
     (case find_disk_handle (fw_handles fw) of
        None \<Rightarrow> Done (Died ''ERROR: No disk device found.'')
      | Some h \<Rightarrow>
          (case fw_block_io fw h of
             None \<Rightarrow> Done (Died ''ERROR: No Block I/O on disk.'')
           | Some io \<Rightarrow>
               let mid = (case fw_media_id fw h of Some m \<Rightarrow> m | None \<Rightarrow> 0)
               in Done (Continue (ctx\<lparr>bc_disk_handle := Some h, bc_block_io := Some io, bc_media_id := mid\<rparr>))))"

section \<open>Stage 2: the partition\<close>

text \<open>The loop over the four entries: whether a protective entry was seen, and the start of the first other entry in use.\<close>

fun first_entry :: "bytes \<Rightarrow> nat list \<Rightarrow> bool \<Rightarrow> (bool \<times> u64) option" where
  "first_entry mbr [] is_gpt = Some (is_gpt, 0)"
| "first_entry mbr (i # is) is_gpt = do {
     let off = 446 + i * 16;
     fs_type \<leftarrow> idx mbr (off + 4);
     lba \<leftarrow> u32_at mbr (off + 8);
     sec \<leftarrow> u32_at mbr (off + 12);
     let is_gpt' = (is_gpt \<or> (fs_type = 0xEE \<and> sec > 0));
     if sec = 0 \<or> fs_type = 0xEE then first_entry mbr is is_gpt' else Some (is_gpt', ucast lba) }"

text \<open>The start, GUID and number of the partition; the values so far stay where no entry matches.\<close>

definition locate_gpt :: "(u64 \<Rightarrow> bytes option) \<Rightarrow> u64 \<Rightarrow> guid \<Rightarrow> u32 \<Rightarrow> (u64 \<times> guid \<times> u32) option" where
  "locate_gpt rd lba g n = do {
     hit \<leftarrow> (if lba > 0 then find_partition_by_lba rd lba else Some None);
     case hit of
       Some (g', n') \<Rightarrow> Some (lba, g', n')
     | None \<Rightarrow> do {
         r \<leftarrow> find_gpt_data_partition rd;
         Some (case r of Some (lba', g', n') \<Rightarrow> (lba', g', n') | None \<Rightarrow> (lba, g, n)) } }"

definition discover_partition :: "boot_context \<Rightarrow> stage_result outcome" where
  "discover_partition ctx =
     obind (of_opt (bc_block_io ctx)) (\<lambda>io.
     case read_sector io 0 of
       None \<Rightarrow> Done (Died ''ERROR: Cannot read MBR.'')
     | Some mbr \<Rightarrow>
         obind (of_opt (first_entry mbr [0, 1, 2, 3] False)) (\<lambda>(is_gpt, lba0).
         obind (of_opt (if is_gpt \<or> lba0 = 0
             then map_option (\<lambda>r. (r, bc_is_mbr ctx)) (locate_gpt (read_sector io) lba0 (bc_part_guid ctx) (bc_part_number ctx))
             else map_option (\<lambda>g. ((lba0, g, 1), True)) (read_mbr_guid mbr))) (\<lambda>((lba, g, n), is_mbr).
           let ctx1 = ctx\<lparr>bc_part_guid := g, bc_part_number := n, bc_is_mbr := is_mbr\<rparr>
           in if lba = 0 then Done (Died ''ERROR: No partition 1 found.'')
              else case read_sector io lba of
                None \<Rightarrow> Done (Died ''ERROR: Cannot read partition 1.'')
              | Some vbr \<Rightarrow>
                  obind (of_opt (detect_fs vbr)) (\<lambda>fs.
                    case fs of
                      None \<Rightarrow> Done (Died ''Unknown filesystem on partition 1.'')
                    | Some fs \<Rightarrow> Done (Continue (ctx1\<lparr>bc_part_lba := lba, bc_fs_type := Some fs\<rparr>))))))"

section \<open>Stage 3: the file system\<close>

definition blank_fs_ctx :: "fs_type \<Rightarrow> u64 \<Rightarrow> efi_fs_ctx" where
  "blank_fs_ctx fs lba = \<lparr>ex_fs = fs, ex_part1_lba = lba, ex_spc = 0, ex_fat_start = 0, ex_fat_len = 0, ex_heap_start = 0,
     ex_root_cluster = 0, ex_mft_start_lba = 0, ex_sectors_per_cluster = 0, ex_bytes_per_cluster = 0, ex_mft_record_size = 0\<rparr>"

definition mount_exfat :: "bytes \<Rightarrow> u64 \<Rightarrow> (string + efi_fs_ctx) option" where
  "mount_exfat vbr lba = do {
     sh \<leftarrow> idx vbr 109;
     if unat sh > 16 then Some (Inl ''ERROR: Invalid SectorsPerClusterShift.'')
     else do {
       let cluster_bytes = (push_bit (unat sh) 1 :: u32) * 512;
       fat_off \<leftarrow> u32_at vbr 80;
       fat_len \<leftarrow> u32_at vbr 84;
       heap_off \<leftarrow> u32_at vbr 88;
       root_cluster \<leftarrow> u32_at vbr 96;
       Some (Inr ((blank_fs_ctx Exfat lba)\<lparr>ex_spc := cluster_bytes div 512, ex_fat_start := lba + ucast fat_off,
         ex_fat_len := ucast fat_len, ex_heap_start := lba + ucast heap_off, ex_root_cluster := root_cluster\<rparr>)) } }"

definition mount_fat32 :: "bytes \<Rightarrow> u64 \<Rightarrow> (string + efi_fs_ctx) option" where
  "mount_fat32 vbr lba = do {
     spc \<leftarrow> idx vbr 13;
     if spc = 0 then Some (Inl ''ERROR: Invalid sectors per cluster.'')
     else do {
       reserved \<leftarrow> u16_at vbr 14;
       num_fats \<leftarrow> idx vbr 16;
       fat_sectors \<leftarrow> u32_at vbr 36;
       root_cluster \<leftarrow> u32_at vbr 44;
       let fat_start = lba + ucast reserved;
       let data_start = fat_start + ucast num_fats * ucast fat_sectors;
       Some (Inr ((blank_fs_ctx Fat32 lba)\<lparr>ex_spc := ucast spc, ex_fat_start := fat_start, ex_fat_len := ucast fat_sectors,
         ex_heap_start := data_start, ex_root_cluster := root_cluster\<rparr>)) } }"

definition mount_ntfs :: "bytes \<Rightarrow> u64 \<Rightarrow> (string + efi_fs_ctx) option" where
  "mount_ntfs vbr lba = do {
     spc \<leftarrow> idx vbr 13;
     if spc = 0 then Some (Inl ''ERROR: Invalid sectors per cluster.'')
     else do {
       let cluster_bytes = (ucast spc :: u64) * 512;
       mft_lcn \<leftarrow> u64_at vbr 0x30;
       let mft_start_lba = lba + mft_lcn * ucast spc;
       cpmr_raw \<leftarrow> idx vbr 0x40;
       let mft_record_size = (if sint cpmr_raw > 0 then word_of_int (sint cpmr_raw) * cluster_bytes
           else if sint cpmr_raw \<ge> -12 then push_bit (nat (- sint cpmr_raw)) 1 else 0);
       Some (if mft_record_size = 0 \<or> mft_record_size > 4096 then Inl ''ERROR: Invalid MFT record size.''
         else Inr ((blank_fs_ctx Ntfs lba)\<lparr>ex_spc := ucast spc, ex_sectors_per_cluster := ucast spc, ex_bytes_per_cluster := cluster_bytes,
           ex_mft_start_lba := mft_start_lba, ex_mft_record_size := mft_record_size, ex_heap_start := lba\<rparr>)) } }"

definition mount_bpb :: "fs_type \<Rightarrow> bytes \<Rightarrow> u64 \<Rightarrow> (string + efi_fs_ctx) option" where
  "mount_bpb fs vbr lba = (case fs of Exfat \<Rightarrow> mount_exfat vbr lba | Fat32 \<Rightarrow> mount_fat32 vbr lba | Ntfs \<Rightarrow> mount_ntfs vbr lba)"

definition mount_filesystem :: "boot_context \<Rightarrow> stage_result outcome" where
  "mount_filesystem ctx =
     obind (of_opt (bc_block_io ctx)) (\<lambda>io.
     obind (of_opt (bc_fs_type ctx)) (\<lambda>fs.
     case read_sector io (bc_part_lba ctx) of
       None \<Rightarrow> Done (Died ''ERROR: Cannot re-read partition 1 VBR.'')
     | Some vbr \<Rightarrow>
         obind (of_opt (mount_bpb fs vbr (bc_part_lba ctx))) (\<lambda>r.
           case r of
             Inl msg \<Rightarrow> Done (Died msg)
           | Inr fs_ctx \<Rightarrow> Done (Continue (ctx\<lparr>bc_fs_ctx := Some fs_ctx\<rparr>)))))"

section \<open>Stages 4 to 6: payloads\<close>

text \<open>The fuel of the scan: clusters of a chain and depth of the directories.\<close>

definition discover_payload :: "nat \<Rightarrow> nat \<Rightarrow> boot_context \<Rightarrow> stage_result outcome" where
  "discover_payload n d ctx =
     obind (of_opt (bc_block_io ctx)) (\<lambda>io.
     obind (of_opt (bc_fs_ctx ctx)) (\<lambda>fs_ctx.
     obind (scan_payloads (read_sector io) n d fs_ctx (bc_payloads ctx)) (\<lambda>ps.
       if length ps = 0 then Done (Died ''No bootable payloads found on partition 1.'')
       else Done (Continue (ctx\<lparr>bc_payloads := ps\<rparr>)))))"

definition select_payload :: "firmware \<Rightarrow> nat \<Rightarrow> nat \<Rightarrow> boot_context \<Rightarrow> stage_result outcome" where
  "select_payload fw n d ctx =
     obind (of_opt (bc_disk_handle ctx)) (\<lambda>h.
     obind (of_opt (bc_block_io ctx)) (\<lambda>io.
     obind (of_opt (bc_fs_ctx ctx)) (\<lambda>fs_ctx.
     obind (show_payload_menu (scan_payloads (read_sector io) n d fs_ctx []) (fw_con_in fw) (fw_polls fw) (bc_payloads ctx)) (\<lambda>e.
       Done (InMenu e)))))"

text \<open>The unattended alternative to the menu.\<close>

definition execute_boot :: "nat \<Rightarrow> boot_context \<Rightarrow> stage_result outcome" where
  "execute_boot selected ctx =
     (if length (bc_payloads ctx) = 0 \<or> selected \<ge> length (bc_payloads ctx) \<or> selected \<ge> 64
      then Done (Died ''ERROR: Invalid payload selection index.'')
      else
        let ctx1 = ctx\<lparr>bc_selected := Some selected\<rparr>
        in obind (of_opt (bc_disk_handle ctx1)) (\<lambda>h.
           obind (of_opt (bc_block_io ctx1)) (\<lambda>io. Done (Boot_payload ctx1 selected))))"

definition network_payload_locator :: "boot_context \<Rightarrow> stage_result outcome" where
  "network_payload_locator ctx =
     (if length (bc_payloads ctx) = 0 then Done (Died ''[NetworkPayloadLocator] No network payload loaded.'')
      else Done (Continue ctx))"

section \<open>The pipeline\<close>

text \<open>\<open>BootPipeline::run\<close>: after the last stage and after \<open>Halt\<close> the call returns.\<close>

fun run_stages :: "(boot_context \<Rightarrow> stage_result outcome) list \<Rightarrow> boot_context \<Rightarrow> stage_result outcome" where
  "run_stages [] ctx = Done (Continue ctx)"
| "run_stages (s # ss) ctx =
     obind (s ctx) (\<lambda>r. case r of Continue ctx1 \<Rightarrow> run_stages ss ctx1 | _ \<Rightarrow> Done r)"

definition efi_main :: "firmware \<Rightarrow> nat \<Rightarrow> nat \<Rightarrow> stage_result outcome" where
  "efi_main fw n d =
     run_stages [discover_disk fw, discover_partition, mount_filesystem, discover_payload n d, select_payload fw n d] new_context"

end
