(* ===== verification/EfiStagesCorrect.thy ===== *)
theory EfiStagesCorrect
  imports EfiStages
begin

text \<open>
  The pipeline of the UEFI loader: what each stage leaves in the boot state for the next one, the file system context
  against the one of the BIOS kernel, and the run on a disk that the installer has written.
\<close>

section \<open>What the stages leave\<close>

text \<open>What the boot state holds after the first \<open>k\<close> stages.\<close>

definition ready :: "nat \<Rightarrow> boot_context \<Rightarrow> bool" where
  "ready k ctx \<longleftrightarrow>
     (k \<ge> 1 \<longrightarrow> bc_disk_handle ctx \<noteq> None \<and> bc_block_io ctx \<noteq> None) \<and>
     (k \<ge> 2 \<longrightarrow> bc_part_lba ctx \<noteq> 0 \<and> bc_fs_type ctx \<noteq> None) \<and>
     (k \<ge> 3 \<longrightarrow> bc_fs_ctx ctx \<noteq> None) \<and>
     (if k \<ge> 4 then bc_payloads ctx \<noteq> [] \<and> table_ok (bc_payloads ctx) else bc_payloads ctx = [])"

fun leaves :: "nat \<Rightarrow> stage_result \<Rightarrow> bool" where
  "leaves k (Continue ctx) = ready k ctx"
| "leaves k (Died msg) = True"
| "leaves k (InMenu e) = False"
| "leaves k (Halt ctx) = False"
| "leaves k (Boot_payload ctx i) = False"

fun in_menu_or_dead :: "stage_result \<Rightarrow> bool" where
  "in_menu_or_dead (Died msg) = True"
| "in_menu_or_dead (InMenu e) = menu_end_ok e"
| "in_menu_or_dead r = False"

lemma discover_disk_leaves: "ready 0 ctx \<Longrightarrow> safe (leaves 1) (discover_disk fw ctx)"
  by (auto simp: discover_disk_def ready_def safe_def Let_def split: option.split)

lemma first_entry_total: "length mbr = 512 \<Longrightarrow> set is \<subseteq> {0, 1, 2, 3} \<Longrightarrow> \<exists>r. first_entry mbr is g = Some r"
proof (induction "is" arbitrary: g)
  case (Cons i "is")
  then show ?case by (auto simp: bounds_simps Let_def)
qed simp

context sector_source
begin

lemma read_gpt_entries_total:
  assumes "\<And>i boff s. length s = 512 \<Longrightarrow> boff + 40 \<le> 512 \<Longrightarrow> f i boff s = Some (g i boff s)"
  shows "\<exists>r. read_gpt_entries_with_index rd f = Some r"
proof (cases "rd 1")
  case None
  then show ?thesis by (simp add: read_gpt_entries_with_index_def)
next
  case (Some h)
  have "length h = 512" by (rule rd_length [OF Some])
  then show ?thesis using Some entry_loop_search [of f g None, OF assms]
    by (simp add: read_gpt_entries_with_index_def bounds_simps)
qed

lemma find_gpt_data_total: "\<exists>r. find_gpt_data_partition rd = Some r"
  unfolding find_gpt_data_partition_def
  by (rule read_gpt_entries_total [where g = "\<lambda>i boff s. if take 16 (drop boff s) = basic_data_guid
      then Some (from_le (take 8 (drop (boff + 32) s)), guid_of (take 16 (drop (boff + 16) s)), word_of_nat (i + 1)) else None"])
     (auto simp: bounds_simps read_partition_guid_at)

lemma find_by_lba_total: "\<exists>r. find_partition_by_lba rd target = Some r"
  unfolding find_partition_by_lba_def
  by (rule read_gpt_entries_total [where g = "\<lambda>i boff s. if from_le (take 8 (drop (boff + 32) s)) = target
      then Some (guid_of (take 16 (drop (boff + 16) s)), word_of_nat (i + 1)) else None"])
     (auto simp: bounds_simps read_partition_guid_at)

lemma locate_gpt_total: "\<exists>r. locate_gpt rd lba g n = Some r"
proof -
  obtain a where "find_partition_by_lba rd lba = Some a" using find_by_lba_total by blast
  moreover obtain b where "find_gpt_data_partition rd = Some b" using find_gpt_data_total by blast
  ultimately show ?thesis by (auto simp: locate_gpt_def split: option.splits prod.splits)
qed

end

lemma discover_partition_leaves:
  assumes "ready 1 ctx"
  shows "safe (leaves 2) (discover_partition ctx)"
proof -
  obtain io where io: "bc_block_io ctx = Some io" using assms by (auto simp: ready_def)
  show ?thesis
  proof (cases "read_sector io 0")
    case None
    then show ?thesis by (simp add: discover_partition_def io safe_def)
  next
    case (Some mbr)
    have l: "length mbr = 512" by (rule bio.rd_length [OF Some])
    obtain g0 lba0 where m: "first_entry mbr [0, 1, 2, 3] False = Some (g0, lba0)" using first_entry_total [OF l, of "[0, 1, 2, 3]" False] by (auto simp del: first_entry.simps)
    have "\<exists>r. (if g0 \<or> lba0 = 0
             then map_option (\<lambda>r. (r, bc_is_mbr ctx)) (locate_gpt (read_sector io) lba0 (bc_part_guid ctx) (bc_part_number ctx))
             else map_option (\<lambda>g. ((lba0, g, 1), True)) (read_mbr_guid mbr)) = Some r"
      using bio.locate_gpt_total [of io lba0 "bc_part_guid ctx" "bc_part_number ctx"] l
      by (auto simp: read_mbr_guid_def bounds_simps)
    then obtain lba g n b where r: "(if g0 \<or> lba0 = 0
             then map_option (\<lambda>r. (r, bc_is_mbr ctx)) (locate_gpt (read_sector io) lba0 (bc_part_guid ctx) (bc_part_number ctx))
             else map_option (\<lambda>g. ((lba0, g, 1), True)) (read_mbr_guid mbr)) = Some ((lba, g, n), b)" by auto
    show ?thesis
    proof (cases "read_sector io lba")
      case None
      then show ?thesis using Some m r by (simp add: discover_partition_def io safe_def Let_def del: first_entry.simps)
    next
      case (Some vbr)
      obtain fs where "detect_fs vbr = Some fs" using detect_fs_total [OF bio.rd_length [OF Some]] by blast
      then show ?thesis using \<open>read_sector io 0 = Some mbr\<close> m r Some assms
        by (cases fs) (simp_all add: discover_partition_def io safe_def Let_def ready_def del: first_entry.simps)
    qed
  qed
qed

lemma mount_bpb_total:
  assumes "length vbr = 512"
  shows "\<exists>r. mount_bpb fs vbr lba = Some r"
proof (cases fs)
  case Exfat
  then show ?thesis using assms by (simp add: mount_bpb_def mount_exfat_def bounds_simps Let_def)
next
  case Fat32
  then show ?thesis using assms by (simp add: mount_bpb_def mount_fat32_def bounds_simps Let_def)
next
  case Ntfs
  then show ?thesis using assms by (simp add: mount_bpb_def mount_ntfs_def bounds_simps Let_def)
qed

lemma mount_filesystem_leaves:
  assumes "ready 2 ctx"
  shows "safe (leaves 3) (mount_filesystem ctx)"
proof -
  obtain io fs where c: "bc_block_io ctx = Some io" "bc_fs_type ctx = Some fs" using assms by (auto simp: ready_def)
  show ?thesis
  proof (cases "read_sector io (bc_part_lba ctx)")
    case None
    then show ?thesis by (simp add: mount_filesystem_def c safe_def)
  next
    case (Some vbr)
    obtain r where "mount_bpb fs vbr (bc_part_lba ctx) = Some r" using mount_bpb_total [OF bio.rd_length [OF Some]] by blast
    then show ?thesis using Some assms by (cases r) (simp_all add: mount_filesystem_def c safe_def ready_def)
  qed
qed

lemma discover_payload_leaves:
  assumes "ready 3 ctx"
  shows "safe (leaves 4) (discover_payload n d ctx)"
proof -
  obtain io fs where c: "bc_block_io ctx = Some io" "bc_fs_ctx ctx = Some fs" and p: "bc_payloads ctx = []" using assms by (auto simp: ready_def)
  have "safe (leaves 4) (obind (scan_payloads (read_sector io) n d fs []) (\<lambda>ps.
      if length ps = 0 then Done (Died msg) else Done (Continue (ctx\<lparr>bc_payloads := ps\<rparr>))))" for msg
    by (rule safe_bind [OF fsscan.scan_table]) (use assms in \<open>auto simp: safe_def ready_def\<close>)
  then show ?thesis by (simp add: discover_payload_def c p)
qed

lemma select_payload_ends:
  assumes "ready 4 ctx"
  shows "safe in_menu_or_dead (select_payload fw n d ctx)"
proof -
  obtain h io fs where c: "bc_disk_handle ctx = Some h" "bc_block_io ctx = Some io" "bc_fs_ctx ctx = Some fs"
    and t: "table_ok (bc_payloads ctx)" using assms by (auto simp: ready_def)
  have "safe in_menu_or_dead (obind (show_payload_menu (scan_payloads (read_sector io) n d fs []) (fw_con_in fw) (fw_polls fw) (bc_payloads ctx))
      (\<lambda>e. Done (InMenu e)))"
    by (rule safe_bind [OF fsscan.show_payload_menu_ok [OF t]]) (simp add: safe_def)
  then show ?thesis by (simp add: select_payload_def c)
qed

text \<open>A stage that leaves what the rest of the pipeline needs.\<close>

lemma run_stage:
  assumes "safe (leaves k) (s ctx)" "\<And>ctx1. ready k ctx1 \<Longrightarrow> safe in_menu_or_dead (run_stages ss ctx1)"
  shows "safe in_menu_or_dead (run_stages (s # ss) ctx)"
proof -
  have c: "safe in_menu_or_dead (case r of Continue ctx1 \<Rightarrow> run_stages ss ctx1 | _ \<Rightarrow> Done r)" if "leaves k r" for r
    using that assms(2) by (cases r) (auto simp: safe_def)
  show ?thesis unfolding run_stages.simps(2) by (rule safe_bind [OF assms(1) c])
qed

lemma run_last:
  assumes "safe in_menu_or_dead (s ctx)"
  shows "safe in_menu_or_dead (run_stages [s] ctx)"
proof -
  have c: "safe in_menu_or_dead (case r of Continue ctx1 \<Rightarrow> run_stages [] ctx1 | _ \<Rightarrow> Done r)" if "in_menu_or_dead r" for r
    using that by (cases r) (auto simp: safe_def)
  show ?thesis unfolding run_stages.simps(2) by (rule safe_bind [OF assms c])
qed

lemma efi_main_ends: "safe in_menu_or_dead (efi_main fw n d)"
  unfolding efi_main_def
proof (rule run_stage [of 1])
  have "ready 0 new_context" by (simp add: ready_def new_context_def)
  then show "safe (leaves 1) (discover_disk fw new_context)" by (rule discover_disk_leaves)
  fix c1 assume "ready 1 c1"
  then show "safe in_menu_or_dead (run_stages [discover_partition, mount_filesystem, discover_payload n d, select_payload fw n d] c1)"
  proof (rule run_stage [OF discover_partition_leaves])
    fix c2 assume "ready 2 c2"
    then show "safe in_menu_or_dead (run_stages [mount_filesystem, discover_payload n d, select_payload fw n d] c2)"
    proof (rule run_stage [OF mount_filesystem_leaves])
      fix c3 assume "ready 3 c3"
      then show "safe in_menu_or_dead (run_stages [discover_payload n d, select_payload fw n d] c3)"
        by (rule run_stage [OF discover_payload_leaves]) (rule run_last [OF select_payload_ends])
    qed
  qed
qed

section \<open>One file system context for both loaders\<close>

text \<open>The context of the kernel as the UEFI loader has it; only the UEFI loader keeps the bytes of an NTFS cluster.\<close>

definition efi_view :: "fs_ctx \<Rightarrow> efi_fs_ctx" where
  "efi_view c = \<lparr>ex_fs = cx_fs c, ex_part1_lba = ucast (cx_part1_lba c), ex_spc = cx_spc c, ex_fat_start = cx_fat_start c,
     ex_fat_len = cx_fat_len c, ex_heap_start = cx_heap_start c, ex_root_cluster = cx_root_cluster c,
     ex_mft_start_lba = cx_mft_start_lba c, ex_sectors_per_cluster = cx_sectors_per_cluster c,
     ex_bytes_per_cluster = ucast (cx_sectors_per_cluster c) * 512, ex_mft_record_size = cx_mft_record_size c\<rparr>"

lemma mount_as_kernel:
  "mount_bpb fs vbr (ucast lba) = map_option (map_sum (\<lambda>msg. ''ERROR: '' @ msg) efi_view) (parse_bpb fs vbr lba)"
proof (cases fs)
  case Exfat
  then show ?thesis
    by (auto simp: mount_bpb_def parse_bpb_def mount_exfat_def exfat_bpb_def Let_def efi_view_def blank_fs_ctx_def empty_ctx_def
        split: Option.bind_splits)
next
  case Fat32
  then show ?thesis
    by (auto simp: mount_bpb_def parse_bpb_def mount_fat32_def fat32_bpb_def Let_def efi_view_def blank_fs_ctx_def empty_ctx_def
        split: Option.bind_splits)
next
  case Ntfs
  have u: "(ucast (ucast (spc :: u8) :: u32) :: u64) = ucast spc" for spc
    by (rule bit_word_eqI) (auto simp: bit_simps dest: bit_imp_le_length)
  show ?thesis unfolding Ntfs
    by (auto simp: mount_bpb_def parse_bpb_def mount_ntfs_def ntfs_bpb_def Let_def efi_view_def blank_fs_ctx_def empty_ctx_def
        mft_record_bytes_def u split: Option.bind_splits)
qed

end
