(* ===== verification/EfiStagesTheorems.thy ===== *)
theory EfiStagesTheorems
  imports EfiStagesCorrect
begin

text \<open>
  The boot pipeline on a disk that the installer has written, and the properties of the pipeline.
\<close>

section \<open>The partition table as the loader walks it\<close>

fun first_used :: "partition_table_entry list \<Rightarrow> bool \<Rightarrow> bool \<times> u64" where
  "first_used [] g = (g, 0)"
| "first_used (e # es) g =
     (let g' = (g \<or> (pte_fs_flag e = 0xEE \<and> pte_sector_count e > 0))
      in if pte_sector_count e = 0 \<or> pte_fs_flag e = 0xEE then first_used es g' else (g', ucast (pte_start_lba e)))"

definition nth_entry :: "bytes \<Rightarrow> nat \<Rightarrow> partition_table_entry" where
  "nth_entry mbr i = pte_of_bytes (take 16 (drop (446 + i * 16) mbr))"

lemma first_entry_used:
  "length mbr = 512 \<Longrightarrow> set is \<subseteq> {0, 1, 2, 3} \<Longrightarrow> first_entry mbr is g = Some (first_used (map (nth_entry mbr) is) g)"
proof (induction "is" arbitrary: g)
  case (Cons i "is")
  have i: "446 + i * 16 + 16 \<le> 512" using Cons.prems(2) by auto
  have e: "pte_fs_flag (nth_entry mbr i) = mbr ! (446 + i * 16 + 4)"
    "pte_start_lba (nth_entry mbr i) = from_le (take 4 (drop (446 + i * 16 + 8) mbr))"
    "pte_sector_count (nth_entry mbr i) = from_le (take 4 (drop (446 + i * 16 + 12) mbr))"
    using i Cons.prems(1) by (simp_all add: nth_entry_def pte_of_bytes_def drop_take add.commute add.left_commute)
  show ?case using Cons i unfolding first_entry.simps Let_def list.map first_used.simps e
    by (simp add: bounds_simps)
qed simp

lemma chunks_4: "chunks w 4 bs = [take w bs, take w (drop w bs), take w (drop (w + w) bs), take w (drop (w + (w + w)) bs)]"
  by (simp add: numeral_eq_Suc)

lemma table_entries: "partitions (mbr_of_bytes mbr) = map (nth_entry mbr) [0, 1, 2, 3]"
  by (simp add: mbr_of_bytes_def chunks_4 nth_entry_def)

lemma first_entry_table:
  "length mbr = 512 \<Longrightarrow> first_entry mbr [0, 1, 2, 3] False = Some (first_used (partitions (mbr_of_bytes mbr)) False)"
  unfolding table_entries by (rule first_entry_used) auto

section \<open>Sector 0 after an installation\<close>

lemma mbr_signature_bytes:
  assumes "length guid = 16"
  shows "take 4 (drop 440 (mbr_install_sector boot guid p2)) = take 4 (drop 12 guid)"
proof -
  let ?b = "paste (paste (replicate 512 0) 0 (boot_code_of boot)) 384 guid"
  define t where "t = concat (map pte_bytes (mbr_install_entries p2))"
  have lt: "length t = 64" using pte.array_length [of "mbr_install_entries p2"] by (simp add: t_def mbr_install_entries_def Let_def)
  have lb: "length ?b = 512" using assms boot_code_of_length [of boot] by (simp add: paste_length)
  have s: "mbr_install_sector boot guid p2 = paste (with_signature (paste ?b 440 (take 4 (drop 12 guid)))) 446 t"
    by (simp add: mbr_install_sector_def Let_def t_def)
  have "paste (with_signature (paste ?b 440 (take 4 (drop 12 guid)))) 446 t ! (440 + k) = guid ! (12 + k)" if "k < 4" for k
    using that lb lt assms by (simp add: paste_nth paste_length)
  then show ?thesis unfolding s using lb lt assms by (intro nth_equalityI) (simp_all add: paste_length)
qed

text \<open>What the loader makes of sector 0: the start and whether there is a GPT, and the identifier of an MBR disk.\<close>

definition disk_identifier :: "bytes \<Rightarrow> guid" where
  "disk_identifier g = \<lparr>g_d1 = 0, g_d2 = 0, g_d3 = 0, g_d4 = replicate 4 0 @ take 4 (drop 12 g)\<rparr>"

lemma mbr_first_used: "2048 \<le> unat p2 \<Longrightarrow> p2 < 2 ^ 32 \<Longrightarrow> first_used (mbr_install_entries p2) False = (False, 2048)"
proof -
  assume p: "2048 \<le> unat p2" "p2 < 2 ^ 32"
  have n: "(7 :: u8) \<noteq> 0xEE" "PART_TYPE_EFI_SYSTEM \<noteq> 0xEE" "(ucast efi_sectors :: u32) = 65536"
    by (simp_all add: PART_TYPE_EFI_SYSTEM_def efi_sectors_val)
  have s: "(ucast (ucast CHOOSABLE_PART1_START_SECTOR :: u32) :: u64) = 2048" by (simp add: CHOOSABLE_PART1_START_SECTOR_def)
  show ?thesis
  proof (cases "(ucast (p2 - CHOOSABLE_PART1_START_SECTOR) :: u32) = 0")
    case False
    then show ?thesis using n s by (simp add: mbr_install_entries_def Let_def)
  next
    case True
    have le: "2048 \<le> p2" using p(1) by (simp add: word_le_nat_alt)
    then have "p2 - 2048 < 2 ^ 32" using p(2) by (meson le_less_trans word_sub_le)
    then have "p2 - 2048 = ucast (ucast (p2 - 2048) :: u32)" by (rule ucast_u32_u64 [symmetric])
    then have "p2 = 2048" using True by (simp add: CHOOSABLE_PART1_START_SECTOR_def)
    then show ?thesis using n by (simp add: mbr_install_entries_def Let_def CHOOSABLE_PART1_START_SECTOR_def)
  qed
qed

lemma mbr_sector_installed:
  assumes run: "install_choosable env tools False sb r force yes d = Inr (d', Some p)"
    and "length (env_guid env) = 16" and r: "r < 2 ^ 52"
  shows "\<exists>s. disk_read d' 0 512 = Inr s \<and> length s = 512 \<and> first_entry s [0, 1, 2, 3] False = Some (False, 2048) \<and>
    read_mbr_guid s = Some (disk_identifier (env_guid env))"
proof -
  from install_choosable_written [OF run] obtain sz d0 where g: "size_guards False sz r = Inr ()"
    and w: "write_mbr_f (env_boot_img env) (env_stage2 env) (env_guid env) d0 sz r = Inr (d', p)" by auto
  let ?p = "mbr_part2_start sz r"
  let ?s = "mbr_install_sector (env_boot_img env) (env_guid env) ?p"
  from w obtain d1 where w1: "disk_write d0 0 ?s = Inr d1"
    and w2: "disk_write d1 512 (take (min (length (env_stage2 env)) (2047 * 512)) (env_stage2 env)) = Inr d'"
    by (auto simp: write_mbr_f_def Let_def rbind_Inr_iff unat_SECTOR_SIZE)
  have len: "length ?s = 512" by (rule mbr_install_sector_length [OF assms(2)])
  have rd: "disk_read d' 0 512 = Inr ?s"
    using disk.read_same [OF w1] disk.read_before [OF w2, of 0 512] len by simp
  note l = mbr_layout_facts [OF g r]
  have "first_entry ?s [0, 1, 2, 3] False = Some (False, 2048)"
    using first_entry_table [OF len] mbr_install_sector_read(3) [OF assms(2)] mbr_first_used [OF l(1,5)] by simp
  moreover have "read_mbr_guid ?s = Some (disk_identifier (env_guid env))"
    using len mbr_signature_bytes [OF assms(2)] by (simp add: read_mbr_guid_def bounds_simps disk_identifier_def)
  ultimately show ?thesis using rd len by blast
qed

lemma gpt_sector_installed:
  assumes run: "install_choosable env tools True sb r force yes d = Inr (d', Some p)"
    and guids: "length (env_guid env) = 16" "length (env_guid1 env) = 16" "length (env_guid2 env) = 16" and r: "r < 2 ^ 52"
  shows "\<exists>s. disk_read d' 0 512 = Inr s \<and> length s = 512 \<and> first_entry s [0, 1, 2, 3] False = Some (True, 0)"
proof -
  from install_choosable_written [OF run] obtain sz d0 where g: "size_guards True sz r = Inr ()"
    and w: "write_gpt_f (env_crc env) (env_boot_img env) (env_stage2 env) (env_guid env) (env_guid1 env)
      (env_guid2 env) d0 sz r = Some (Inr (d', p))" by auto
  let ?i = "gpt_install_info sz r (env_guid env) (env_guid1 env) (env_guid2 env)"
  have "67 * 512 \<le> sz" using size_guards_total(1) [OF g r] by (simp add: word_le_nat_alt)
  note pl0 = gpt_install_placed [OF guids this, of r]
  from w obtain g1 d1 d2 s where fin: "finalize_gpt_crcs (env_crc env) ?i = Some g1"
    and w2: "gpt_write_to_disk (env_crc env) g1 d1 = Inr d2" and rs: "disk_read d2 0 512 = Inr s"
    and w3: "disk_write d2 0 (gpt_boot_sector (env_boot_img env) (env_guid env) s) = Inr d'"
    by (auto simp: write_gpt_f_def Let_def rbind_Inr_iff)
  note fp = finalize_placed [OF fin pl0]
  have s: "s = mbr_bytes (protective_mbr ?i)" using rs gpt_write_regions(1) [OF fp(1) w2] fp(3) by simp
  have wfm: "mbr_wf (protective_mbr ?i)" using pl0 by (simp add: gpt_placed_def gpt_wf_def)
  have ls: "length s = 512" using s mbr_bytes_length [OF wfm] by simp
  let ?b = "gpt_boot_sector (env_boot_img env) (env_guid env) s"
  note bs = gpt_boot_sector_read [OF ls guids(1), of "env_boot_img env"]
  have "partitions (mbr_of_bytes ?b) = partitions (protective_mbr ?i)" using bs(4) s mbr_decode_encode [OF wfm] by simp
  moreover have "replicate 4 x = [x, x, x, x]" for x :: partition_table_entry by (simp add: numeral_eq_Suc)
  ultimately have "first_used (partitions (mbr_of_bytes ?b)) False = (True, 0)"
    by (simp add: gpt_install_info_def gpt_new_choosable_def Let_def PART_TYPE_GPT_PROTECTIVE_def pte_empty_def)
  then show ?thesis using first_entry_table [OF bs(1)] disk.read_same [OF w3] bs(1) by auto
qed

section \<open>The partition the loader boots from\<close>

text \<open>Formatting the partitions leaves the sectors before partition 1 alone.\<close>

definition boot_area_kept :: "vdisk \<Rightarrow> vdisk \<Rightarrow> bool" where
  "boot_area_kept d d' \<longleftrightarrow> (\<forall>off n. off + n \<le> 2048 * 512 \<longrightarrow> disk_read d' off n = disk_read d off n)"

lemma table_kept: "boot_area_kept d d' \<Longrightarrow> installed_table d g guid \<Longrightarrow> installed_table d' g guid"
  by (simp add: boot_area_kept_def installed_table_def on_disk_def)

lemma sector0_kept: "boot_area_kept d d' \<Longrightarrow> disk_read d 0 512 = Inr s \<Longrightarrow> sector_of d' 0 = Some s"
  by (simp add: boot_area_kept_def sector_of_def)

text \<open>The state after stage 2 on an installed disk with a file system at sector 2048.\<close>

definition on_partition_1 :: "install_env \<Rightarrow> bool \<Rightarrow> fs_type \<Rightarrow> boot_context \<Rightarrow> boot_context" where
  "on_partition_1 env use_gpt fs ctx = ctx\<lparr>bc_part_guid := (if use_gpt then guid_of (env_guid1 env) else disk_identifier (env_guid env)),
     bc_part_number := 1, bc_is_mbr := (if use_gpt then bc_is_mbr ctx else True), bc_part_lba := 2048, bc_fs_type := Some fs\<rparr>"

lemma installed_partition_found:
  assumes "install_choosable env tools use_gpt sb r force yes d = Inr (d1, Some p)"
    and "length (env_guid env) = 16" "length (env_guid1 env) = 16" "length (env_guid2 env) = 16" and "r < 2 ^ 52"
    and "boot_area_kept d1 d2" "sector_of d2 2048 = Some vbr" "detect_fs vbr = Some (Some fs)"
    and "bc_block_io ctx = Some io" "read_sector io = sector_of d2"
  shows "discover_partition ctx = Done (Continue (on_partition_1 env use_gpt fs ctx))"
proof (cases use_gpt)
  case True
  with assms(1) have run: "install_choosable env tools True sb r force yes d = Inr (d1, Some p)" by simp
  from gpt_sector_installed [OF run assms(2-5)] obtain s where s: "disk_read d1 0 512 = Inr s"
    "first_entry s [0, 1, 2, 3] False = Some (True, 0)" by blast
  from install_leaves_table [OF run assms(2-5)] obtain g where "installed_table d1 g (env_guid1 env)" by blast
  note find = table_is_found(1) [OF table_kept [OF assms(6) this]]
  show ?thesis using assms(7-10) sector0_kept [OF assms(6) s(1)] s(2) find True
    by (simp add: discover_partition_def locate_gpt_def on_partition_1_def CHOOSABLE_PART1_START_SECTOR_def del: first_entry.simps)
next
  case False
  with assms(1) have run: "install_choosable env tools False sb r force yes d = Inr (d1, Some p)" by simp
  from mbr_sector_installed [OF run assms(2,5)] obtain s where s: "disk_read d1 0 512 = Inr s"
    "first_entry s [0, 1, 2, 3] False = Some (False, 2048)" "read_mbr_guid s = Some (disk_identifier (env_guid env))" by blast
  show ?thesis using assms(7-10) sector0_kept [OF assms(6) s(1)] s(2,3) False
    by (simp add: discover_partition_def on_partition_1_def del: first_entry.simps)
qed

text \<open>An exFAT boot sector, and the disk as Block I/O.\<close>

definition sample_vbr :: bytes where
  "sample_vbr = [0xEB, 0x76, 0x90] @ bstr ''EXFAT   '' @ replicate 501 0"

definition disk_io :: "vdisk \<Rightarrow> block_io" where
  "disk_io d lba n = (case disk_read d (unat lba * 512) n of Inr s \<Rightarrow> Some s | Inl _ \<Rightarrow> None)"

lemma read_sector_disk: "read_sector (disk_io d) = sector_of d"
  by (auto simp: fun_eq_iff read_sector_def disk_io_def sector_of_def disk_read_def split: sum.splits)

lemma formatted_disk:
  assumes "disk_write d (2048 * 512) sample_vbr = Inr d'"
  shows "boot_area_kept d d'" "sector_of d' 2048 = Some sample_vbr"
proof -
  show "boot_area_kept d d'" using disk.read_before [OF assms] by (simp add: boot_area_kept_def)
  have "length sample_vbr = 512" by (simp add: sample_vbr_def)
  then show "sector_of d' 2048 = Some sample_vbr" using disk.read_same [OF assms] by (simp add: sector_of_def)
qed

lemma write_size: "disk_write d off bs = Inr d' \<Longrightarrow> dsize d' = dsize d"
  by (auto simp: disk_write_def split: if_splits)

lemma install_keeps_size:
  assumes "install_choosable env tools True sb r force yes d = Inr (d', Some p)"
  shows "dsize d' = dsize d"
  using assms
  by (auto simp: install_choosable_def write_gpt_f_def gpt_write_to_disk_def mbr_write_def hdr_write_def rbind_Inr_iff Let_def dest!: write_size split: if_splits option.splits)

lemma run_stages_append:
  "run_stages (ss @ ts) ctx = obind (run_stages ss ctx) (\<lambda>r. case r of Continue c \<Rightarrow> run_stages ts c | _ \<Rightarrow> Done r)"
proof (induction ss arbitrary: ctx)
  case (Cons s ss)
  have "obind (case r of Continue c \<Rightarrow> run_stages ss c | _ \<Rightarrow> Done r) (\<lambda>r. case r of Continue c \<Rightarrow> run_stages ts c | _ \<Rightarrow> Done r)
      = (case r of Continue c \<Rightarrow> run_stages (ss @ ts) c | _ \<Rightarrow> Done r)" for r
    using Cons.IH by (cases r) simp_all
  then show ?case by (cases "s ctx") simp_all
qed simp

text \<open>What the last two stages do with a mounted file system.\<close>

definition scan_and_menu :: "firmware \<Rightarrow> nat \<Rightarrow> nat \<Rightarrow> (u64 \<Rightarrow> bytes option) \<Rightarrow> efi_fs_ctx \<Rightarrow> stage_result outcome" where
  "scan_and_menu fw n d rd c =
     obind (scan_payloads rd n d c []) (\<lambda>ps.
       if ps = [] then Done (Died ''No bootable payloads found on partition 1.'')
       else obind (show_payload_menu (scan_payloads rd n d c []) (fw_con_in fw) (fw_polls fw) ps) (\<lambda>e. Done (InMenu e)))"

lemma last_stages:
  assumes "ready 3 ctx" "bc_block_io ctx = Some io" "bc_fs_ctx ctx = Some c"
  shows "run_stages [discover_payload n d, select_payload fw n d] ctx = scan_and_menu fw n d (read_sector io) c"
proof -
  obtain h where h: "bc_disk_handle ctx = Some h" "bc_payloads ctx = []" using assms(1) by (auto simp: ready_def)
  show ?thesis
  proof (cases "scan_payloads (read_sector io) n d c []")
    case (Done ps)
    then show ?thesis using assms(2,3) h
      by (cases "show_payload_menu (Done ps) (fw_con_in fw) (fw_polls fw) ps")
         (simp_all add: scan_and_menu_def discover_payload_def select_payload_def)
  qed (use assms(2,3) h in \<open>simp_all add: scan_and_menu_def discover_payload_def\<close>)
qed

text \<open>C1: A disk that the installer has written boots: with a completed installation, MBR or GPT, and a file system the loader can
  mount on partition 1, the first three stages end with the start of that partition, number 1, the GUID the installer drew for it
  or the MBR disk's identifier, the partition style and the mounted file system, and the pipeline shows the menu of the payloads
  found there, or says that there are none.\<close>

theorem installed_disk_boots:
  assumes "install_choosable env tools use_gpt sb r force yes d = Inr (d1, Some p)"
    and "length (env_guid env) = 16" "length (env_guid1 env) = 16" "length (env_guid2 env) = 16" and "r < 2 ^ 52"
    and "boot_area_kept d1 d2" "sector_of d2 2048 = Some vbr" "detect_fs vbr = Some (Some fs)" "mount_bpb fs vbr 2048 = Some (Inr c)"
    and "find_disk_handle (fw_handles fw) = Some h" "fw_block_io fw h = Some io" "read_sector io = sector_of d2"
  shows "(\<exists>ctx. run_stages [discover_disk fw, discover_partition, mount_filesystem] new_context = Done (Continue ctx) \<and>
      bc_part_lba ctx = 2048 \<and> bc_part_number ctx = 1 \<and> bc_is_mbr ctx = (\<not> use_gpt) \<and>
      bc_part_guid ctx = (if use_gpt then guid_of (env_guid1 env) else disk_identifier (env_guid env)) \<and>
      bc_fs_type ctx = Some fs \<and> bc_fs_ctx ctx = Some c) \<and>
    efi_main fw n k = scan_and_menu fw n k (sector_of d2) c"
proof (rule conjI)
  define ctx1 where "ctx1 = new_context\<lparr>bc_disk_handle := Some h, bc_block_io := Some io,
    bc_media_id := (case fw_media_id fw h of Some m \<Rightarrow> m | None \<Rightarrow> 0)\<rparr>"
  define ctx where "ctx = on_partition_1 env use_gpt fs ctx1\<lparr>bc_fs_ctx := Some c\<rparr>"
  have io: "bc_block_io ctx1 = Some io" by (simp add: ctx1_def)
  have s1: "discover_disk fw new_context = Done (Continue ctx1)" using assms(10,11) by (simp add: discover_disk_def ctx1_def)
  note s2 = installed_partition_found [OF assms(1-8) io assms(12)]
  have s3: "mount_filesystem (on_partition_1 env use_gpt fs ctx1) = Done (Continue ctx)"
    using assms(7,9,12) by (simp add: mount_filesystem_def on_partition_1_def io ctx_def)
  have run: "run_stages [discover_disk fw, discover_partition, mount_filesystem] new_context = Done (Continue ctx)"
    by (simp add: s1 s2 s3)
  have f: "bc_part_lba ctx = 2048" "bc_part_number ctx = 1" "bc_is_mbr ctx = (\<not> use_gpt)" "bc_fs_type ctx = Some fs"
    "bc_part_guid ctx = (if use_gpt then guid_of (env_guid1 env) else disk_identifier (env_guid env))"
    "bc_fs_ctx ctx = Some c" "bc_block_io ctx = Some io" "ready 3 ctx"
    by (simp_all add: ctx_def on_partition_1_def ctx1_def new_context_def ready_def)
  then show "\<exists>ctx. run_stages [discover_disk fw, discover_partition, mount_filesystem] new_context = Done (Continue ctx) \<and>
      bc_part_lba ctx = 2048 \<and> bc_part_number ctx = 1 \<and> bc_is_mbr ctx = (\<not> use_gpt) \<and>
      bc_part_guid ctx = (if use_gpt then guid_of (env_guid1 env) else disk_identifier (env_guid env)) \<and>
      bc_fs_type ctx = Some fs \<and> bc_fs_ctx ctx = Some c"
    using run by blast
  show "efi_main fw n k = scan_and_menu fw n k (sector_of d2) c"
    using run_stages_append [of "[discover_disk fw, discover_partition, mount_filesystem]" "[discover_payload n k, select_payload fw n k]" new_context]
      last_stages [OF f(8,7,6), of n k fw] by (simp add: efi_main_def run assms(12) del: run_stages.simps)
qed

definition sample_firmware :: "block_io \<Rightarrow> firmware" where
  "sample_firmware io = \<lparr>fw_handles = Some [None, Some (Some 0)], fw_block_io = (\<lambda>h. if h = 1 then Some io else None),
     fw_media_id = (\<lambda>_. Some 7), fw_con_in = True, fw_polls = [NotReady]\<rparr>"

theorem installed_disk_boots_witness:
  "\<exists>d2 c. (\<exists>ctx. run_stages [discover_disk (sample_firmware (disk_io d2)), discover_partition, mount_filesystem] new_context
        = Done (Continue ctx) \<and> bc_part_lba ctx = 2048 \<and> \<not> bc_is_mbr ctx \<and> bc_part_guid ctx = guid_of (replicate 16 1)) \<and>
     efi_main (sample_firmware (disk_io d2)) 1 1 = scan_and_menu (sample_firmware (disk_io d2)) 1 1 (sector_of d2) c"
proof -
  obtain d1 p where run: "install_choosable sample_env (\<lambda>_. Inr ()) True False 0 True True blank_disk = Inr (d1, Some p)"
    using sample_run by blast
  have "dsize d1 \<ge> 2048 * 512 + 512" using install_keeps_size [OF run] by (simp add: blank_disk_def)
  then obtain d2 where w: "disk_write d1 (2048 * 512) sample_vbr = Inr d2"
    using disk_write_ok [of "2048 * 512" sample_vbr d1] by (auto simp: sample_vbr_def)
  have v: "detect_fs sample_vbr = Some (Some Exfat)" by code_simp
  obtain c where c: "mount_bpb Exfat sample_vbr 2048 = Some (Inr c)"
    by (simp add: mount_bpb_def mount_exfat_def sample_vbr_def bounds_simps Let_def bstr_def)
  have fw: "find_disk_handle (fw_handles (sample_firmware (disk_io d2))) = Some 1"
    "fw_block_io (sample_firmware (disk_io d2)) 1 = Some (disk_io d2)"
    by (simp_all add: sample_firmware_def find_disk_handle_def)
  have g: "length (env_guid sample_env) = 16" "env_guid1 sample_env = replicate 16 1" "length (env_guid2 sample_env) = 16"
    by (simp_all add: sample_env_def)
  show ?thesis
    using installed_disk_boots [OF run g(1) _ g(3) _ formatted_disk [OF w] v c fw read_sector_disk, of 1 1] g(2) by (auto simp del: run_stages.simps)
qed

section \<open>How the pipeline ends\<close>

lemma obind_Spin_iff: "obind m f = Spin \<longleftrightarrow> m = Spin \<or> (\<exists>x. m = Done x \<and> f x = Spin)"
  by (cases m) simp_all

lemma menu_key_not_Spin: "scan \<noteq> Spin \<Longrightarrow> efi_menu_key scan ch st \<noteq> Spin"
  by (auto simp: efi_menu_key_def obind_Spin_iff split: option.splits if_splits)

lemma menu_loop_not_Spin: "scan \<noteq> Spin \<Longrightarrow> efi_menu_loop scan con_in polls st \<noteq> Spin"
proof (induction "length polls" arbitrary: polls st rule: less_induct)
  case less
  have l: "efi_menu_loop scan con_in rest st' \<noteq> Spin" if "read_menu_key con_in polls = Some (Some uc, rest)" for uc rest st'
    by (rule less.hyps) (use that less.prems in \<open>auto dest: read_menu_key_shorter\<close>)
  show ?case
  proof (cases "read_menu_key con_in polls")
    case None
    then show ?thesis by (subst efi_menu_loop.simps) (simp add: obind_Spin_iff)
  next
    case (Some r)
    obtain k rest where r: "r = (k, rest)" by (cases r)
    have key: "obind (efi_menu_key scan ch st) (\<lambda>a. case a of Keep st' \<Rightarrow> efi_menu_loop scan con_in rest st'
        | Select ps i \<Rightarrow> Done (Chosen ps i) | Stop msg \<Rightarrow> Done (MenuHalted msg)) \<noteq> Spin" if "k = Some uc" for uc ch
      using l [of uc rest] Some that menu_key_not_Spin [OF less.prems, of ch st]
      by (auto simp: obind_Spin_iff r split: efi_act.splits)
    show ?thesis using Some key
      by (subst efi_menu_loop.simps) (cases k; simp add: obind_Spin_iff [of "of_opt _"] r)
  qed
qed

lemma show_menu_not_Spin: "scan \<noteq> Spin \<Longrightarrow> show_payload_menu scan con_in polls ps \<noteq> Spin"
  by (simp add: show_payload_menu_def menu_loop_not_Spin)

text \<open>The first three stages read a few sectors and end, with a message or a mounted file system.\<close>

lemma first_stages_not_Spin: "discover_disk fw ctx \<noteq> Spin" "discover_partition ctx \<noteq> Spin" "mount_filesystem ctx \<noteq> Spin"
  by (auto simp: discover_disk_def discover_partition_def mount_filesystem_def Let_def obind_Spin_iff
      split: option.splits prod.splits sum.splits if_splits)

lemma mounted_or_dead:
  "(\<exists>msg. run_stages [discover_disk fw, discover_partition, mount_filesystem] new_context = Done (Died msg)) \<or>
   (\<exists>ctx. run_stages [discover_disk fw, discover_partition, mount_filesystem] new_context = Done (Continue ctx) \<and> ready 3 ctx)"
proof -
  have st: "(\<exists>msg. x = Done (Died msg)) \<or> (\<exists>ctx. x = Done (Continue ctx) \<and> ready k ctx)" if "safe (leaves k) x" "x \<noteq> Spin" for x k
    using that by (cases x) (auto simp: safe_def elim!: leaves.elims)
  have "ready 0 new_context" by (simp add: ready_def new_context_def)
  note a = st [OF discover_disk_leaves [OF this] first_stages_not_Spin(1)]
  note b = st [OF discover_partition_leaves first_stages_not_Spin(2)] and c = st [OF mount_filesystem_leaves first_stages_not_Spin(3)]
  from a [of fw] show ?thesis
  proof (elim disjE exE conjE)
    fix c1 assume c1: "discover_disk fw new_context = Done (Continue c1)" "ready 1 c1"
    from b [OF c1(2)] show ?thesis
    proof (elim disjE exE conjE)
      fix c2 assume c2: "discover_partition c1 = Done (Continue c2)" "ready 2 c2"
      from c [OF c2(2)] c1(1) c2(1) show ?thesis by auto
    qed (use c1(1) in auto)
  qed auto
qed

text \<open>C4: The pipeline never panics and ends: with any firmware, disk and keyboard, no field a stage expects is missing and no
  index is out of range, and the run ends with a message before a reboot or in the menu, whose invariant holds; it never
  returns to \<open>efi_main\<close>. The one thing that can keep it from ending is the scan of the mounted file system: when the
  run is not done with the given fuel, the scan of that file system is not done with it either.\<close>

theorem pipeline_never_panics:
  "(\<exists>r. efi_main fw n d = Done r \<and> in_menu_or_dead r) \<or>
   (\<exists>ctx io c. run_stages [discover_disk fw, discover_partition, mount_filesystem] new_context = Done (Continue ctx) \<and>
      bc_block_io ctx = Some io \<and> bc_fs_ctx ctx = Some c \<and>
      scan_payloads (read_sector io) n d c [] = Spin \<and> efi_main fw n d = Spin)"
proof -
  note run = run_stages_append [of "[discover_disk fw, discover_partition, mount_filesystem]" "[discover_payload n d, select_payload fw n d]" new_context]
  from mounted_or_dead [of fw] show ?thesis
  proof (elim disjE exE conjE)
    fix msg assume "run_stages [discover_disk fw, discover_partition, mount_filesystem] new_context = Done (Died msg)"
    then have "efi_main fw n d = Done (Died msg)" using run by (simp add: efi_main_def del: run_stages.simps)
    then show ?thesis by simp
  next
    fix ctx assume c: "run_stages [discover_disk fw, discover_partition, mount_filesystem] new_context = Done (Continue ctx)" "ready 3 ctx"
    obtain io fs where f: "bc_block_io ctx = Some io" "bc_fs_ctx ctx = Some fs" using c(2) by (auto simp: ready_def)
    have e: "efi_main fw n d = scan_and_menu fw n d (read_sector io) fs"
      using run c(1) last_stages [OF c(2) f, of n d fw] by (simp add: efi_main_def del: run_stages.simps)
    show ?thesis
    proof (cases "scan_payloads (read_sector io) n d fs [] = Spin")
      case True
      then have "efi_main fw n d = Spin" by (simp add: e scan_and_menu_def)
      then show ?thesis using c(1) f True by blast
    next
      case False
      then have "efi_main fw n d \<noteq> Spin" unfolding e scan_and_menu_def by (auto simp: obind_Spin_iff show_menu_not_Spin)
      then show ?thesis using efi_main_ends [of fw n d] by (cases "efi_main fw n d") (auto simp: safe_def)
    qed
  qed
qed

text \<open>C39: Both loaders mount alike: for every boot sector and every partition the BIOS kernel can address, the context the UEFI
  loader builds is the kernel's, and it refuses a boot sector with the same message.\<close>

theorem loaders_mount_alike:
  "mount_bpb fs vbr (ucast lba) = map_option (map_sum (\<lambda>msg. ''ERROR: '' @ msg) efi_view) (parse_bpb fs vbr lba)"
  by (rule mount_as_kernel)

end
