(* ===== verification/EfiBoot.thy ===== *)
theory EfiBoot
  imports EfiStages EfiIsoTheorems EfiPremount
begin

text \<open>
  Starting a payload (\<open>efi/src/iso.rs\<close>): the device paths, the virtual CD-ROM and its protocols
  (\<open>create_virtual_cdrom\<close> in \<open>efi/src/virtual_blockio.rs\<close>), the chain load of an ISO and of an EFI program, and
  the dispatch on the type of the payload, out of the table of 64 slots. The firmware is a record of what it answers. A pointer to the virtual
  disc is its value: the volume is given the disc again after every step that changes it.
\<close>

section \<open>The firmware\<close>

text \<open>
  What \<open>allocate_pool\<close> returns for a number of bytes, the sizes of the two structures, the installation of the
  Block I/O protocol, whether the file system protocol is found on the new handle, the status of \<open>LoadImage\<close> for a
  device path and a source buffer, whether the n-th question for the Loaded Image protocol succeeds, and the status
  of the n-th \<open>StartImage\<close>.
\<close>

record boot_firmware =
  bf_pool :: "nat \<Rightarrow> bytes option"
  bf_vbio_size :: nat
  bf_volume_size :: nat
  bf_install :: bool
  bf_volume_found :: bool
  bf_load :: "bytes option \<Rightarrow> bytes option \<Rightarrow> u64"
  bf_loaded :: "nat \<Rightarrow> bool"
  bf_start :: "nat \<Rightarrow> u64"

definition granted :: "boot_firmware \<Rightarrow> nat \<Rightarrow> bool" where
  "granted fw n \<longleftrightarrow> bf_pool fw n \<noteq> None"

definition EFI_INVALID_PARAMETER :: u64 where "EFI_INVALID_PARAMETER = 0x8000000000000002"
definition EFI_UNSUPPORTED :: u64 where "EFI_UNSUPPORTED = 0x8000000000000003"
definition EFI_SECURITY_VIOLATION :: u64 where "EFI_SECURITY_VIOLATION = 0x800000000000001A"

section \<open>Device paths\<close>

definition iso_sectors_of :: "u64 \<Rightarrow> u64" where
  "iso_sectors_of iso_size = saturating_add64 iso_size 2047 div 2048"

definition END_NODE :: bytes where "END_NODE = [0x7F, 0xFF, 0x04, 0x00]"

definition cdrom_node :: "u64 \<Rightarrow> bytes" where
  "cdrom_node iso_sectors = [0x04, 0x02] @ to_le 2 (24 :: u16) @ replicate 12 0 @ to_le 8 iso_sectors"

definition boot_file_name :: "bytes \<Rightarrow> u16 list" where
  "boot_file_name efi_filename =
     (let dir = [92] @ bstr ''EFI'' @ [92] @ bstr ''BOOT'' @ [92]
      in map ucast (dir @ take (min (length efi_filename) (32 - length dir - 1)) efi_filename) @ [0])"

definition build_iso_device_path :: "(nat \<Rightarrow> bool) \<Rightarrow> u64 \<Rightarrow> bytes \<Rightarrow> bytes option" where
  "build_iso_device_path pool iso_size efi_filename =
     (let iso_sectors = iso_sectors_of iso_size
      in if iso_sectors = 0 then None
         else
           let file_name = boot_file_name efi_filename; file_body_bytes = length file_name * 2
           in if \<not> pool (24 + 4 + file_body_bytes + 4) then None
              else Some (cdrom_node iso_sectors @ [0x04, 0x04] @ to_le 2 (word_of_nat (4 + file_body_bytes) :: u16)
                @ concat (map (to_le 2) file_name) @ END_NODE))"

definition build_cdrom_only_device_path :: "(nat \<Rightarrow> bool) \<Rightarrow> u64 \<Rightarrow> bytes option" where
  "build_cdrom_only_device_path pool iso_size =
     (let iso_sectors = iso_sectors_of iso_size
      in if iso_sectors = 0 then None
         else if \<not> pool (24 + 4) then None
         else Some (cdrom_node iso_sectors @ END_NODE))"

section \<open>The virtual CD-ROM\<close>

definition new_vbio :: "backing \<Rightarrow> u64 \<Rightarrow> u64 \<Rightarrow> virtual_block_io" where
  "new_vbio bk iso_lba iso_sectors =
     \<lparr>vb_last_block = iso_sectors - 1, vb_iso_lba = iso_lba, vb_backing = bk,
      vb_patched_file = \<lparr>mf_sector = 0, mf_sectors = 0, mf_buf = None\<rparr>,
      vb_dir_entry_sector = 0, vb_dir_entry_offset = 0, vb_dir_entry_new_extent = 0, vb_dir_entry_new_size = 0,
      vb_dir_entry_patched = False,
      vb_premount_file = \<lparr>mf_sector = 0, mf_sectors = 0, mf_buf = None\<rparr>,
      vb_premount_entry_sector = 0, vb_premount_entry_offset = 0, vb_premount_entry_new_extent = 0,
      vb_premount_entry_new_size = 0, vb_premount_entry_patched = False, vb_premount_entry_rename = False,
      vb_premount_entry_injected = False, vb_premount_entry_injected_blob = replicate 128 0,
      vb_premount_entry_injected_size = 0, vb_premount_new_root_size = 0\<rparr>"

text \<open>The device path of the handle, the disc, and the volume when its protocol is on the handle.\<close>

definition create_virtual_cdrom ::
  "boot_firmware \<Rightarrow> u64 \<Rightarrow> backing \<Rightarrow> u64 \<Rightarrow> bytes \<Rightarrow> bytes \<Rightarrow> (bytes \<times> virtual_block_io \<times> iso_fs_ctx option) option" where
  "create_virtual_cdrom fw iso_lba bk iso_size iso_name live_media_uuid =
     (let iso_sectors = iso_sectors_of iso_size
      in if iso_sectors = 0 then None
         else if \<not> granted fw (24 + 4) then None
         else if \<not> granted fw (bf_vbio_size fw) then None
         else if \<not> bf_install fw then None
         else
           let volume = create_iso_fs bk iso_lba iso_size iso_name live_media_uuid None 0 (granted fw (bf_volume_size fw))
           in Some (cdrom_node iso_sectors @ END_NODE, new_vbio bk iso_lba iso_sectors,
                    if volume \<noteq> None \<and> bf_volume_found fw then volume else None))"

section \<open>Preparing the disc\<close>

definition from_payload_entry :: "payload_entry \<Rightarrow> guid \<Rightarrow> u32 \<Rightarrow> u64 \<Rightarrow> bool \<Rightarrow> iso_location option" where
  "from_payload_entry p part_guid part_num part1_lba mbr = do {
     let name_len = min (pe_name_len p) 256;
     nm \<leftarrow> slice (pe_name p) 0 name_len;
     path \<leftarrow> blit (replicate 256 0) 0 nm;
     Some \<lparr>partition_guid = part_guid, partition_number = part_num, is_mbr = mbr, file_path = path,
           file_path_len = name_len, il_file_size = pe_size p, il_part1_lba = part1_lba, il_iso_lba = pe_start_lba p\<rparr> }"

text \<open>Reads of the volume go through the disc from now on, and the root directory is read again.\<close>

definition route_volume :: "virtual_block_io \<Rightarrow> iso_fs_ctx \<Rightarrow> iso_fs_ctx" where
  "route_volume vb ctx =
     (let ctx1 = ctx\<lparr>ix_vbio := Some vb\<rparr>
      in case parse_pvd (read_iso_sector ctx1) of
           None \<Rightarrow> ctx1
         | Some (rlb, rsz) \<Rightarrow> ctx1\<lparr>ix_root_lba := rlb, ix_root_size := rsz\<rparr>)"

definition detected_kind :: "boot_descriptor option \<Rightarrow> boot_kind" where
  "detected_kind desc = (case desc of None \<Rightarrow> Unknown | Some d \<Rightarrow> bd_boot_kind d)"

definition note_kind :: "boot_descriptor option \<Rightarrow> iso_fs_ctx \<Rightarrow> iso_fs_ctx" where
  "note_kind desc ctx = (case desc of None \<Rightarrow> ctx | Some d \<Rightarrow> ctx\<lparr>ix_boot_kind := bd_boot_kind d\<rparr>)"

text \<open>Every family but one gets the same archive.\<close>

definition premount_bundle_for :: "boot_firmware \<Rightarrow> bytes \<Rightarrow> boot_kind \<Rightarrow> u64 \<Rightarrow> premount_bundle option option" where
  "premount_bundle_for fw init_bin k rel =
     (if fixup_of k = FixWindowsPE then Some None else build_premount_cpio init_bin (bf_pool fw) rel)"

definition expose_premount ::
  "(bytes \<times> bool) list \<Rightarrow> (u32 \<Rightarrow> bytes option) \<Rightarrow> premount_bundle option \<Rightarrow> virtual_block_io \<Rightarrow> iso_fs_ctx option
     \<Rightarrow> virtual_block_io \<times> iso_fs_ctx option" where
  "expose_premount pats rd bundle vb volume =
     (case bundle of None \<Rightarrow> (vb, volume) | Some b \<Rightarrow> snd (prepare_premount_iso_file pats rd vb volume b))"

definition virtual_size :: "virtual_block_io \<Rightarrow> u64" where
  "virtual_size vb =
     (let n = saturating_add64 (vb_last_block vb) 1 in if unat n * 2048 < 2 ^ 64 then n * 2048 else - 1)"

section \<open>Loading and starting an image\<close>

definition is_soft_load_error :: "u64 \<Rightarrow> bool" where
  "is_soft_load_error status \<longleftrightarrow> status = EFI_INVALID_PARAMETER \<or> status = EFI_UNSUPPORTED \<or> status = EFI_SECURITY_VIOLATION"

text \<open>A call of \<open>LoadImage\<close>: the device path, the buffer and the status.\<close>

type_synonym load_call = "bytes option \<times> bytes option \<times> u64"

definition load_with_retries :: "boot_firmware \<Rightarrow> bytes option \<Rightarrow> u64 \<Rightarrow> bytes \<Rightarrow> load_call list \<times> u64" where
  "load_with_retries fw device_path virtual_iso_size buf =
     (let call = (\<lambda>dp src. (dp, src, bf_load fw dp src));
          c1 = call device_path (Some buf);
          calls1 = [c1]; s1 = snd (snd c1);
          (calls2, s2) = (if is_soft_load_error s1 then let c = call None (Some buf) in (calls1 @ [c], snd (snd c)) else (calls1, s1));
          (calls3, s3) = (if is_soft_load_error s2 then
              (case build_cdrom_only_device_path (granted fw) virtual_iso_size of
                 None \<Rightarrow> (calls2, s2)
               | Some dp \<Rightarrow> let c = call (Some dp) (Some buf) in (calls2 @ [c], snd (snd c)))
            else (calls2, s2));
          (calls4, s4) = (if is_soft_load_error s3 then let c = call None None in (calls3 @ [c], snd (snd c)) else (calls3, s3))
      in (calls4, s4))"

datatype image_device = Firmware_choice | Loader_image | Virtual_cdrom | No_device

text \<open>The calls of \<open>StartImage\<close>: the device the image sees and the status.\<close>

definition start_iso_image :: "boot_firmware \<Rightarrow> (image_device \<times> u64) list" where
  "start_iso_image fw =
     (let lip_patched = bf_loaded fw 0; device = (if lip_patched then Virtual_cdrom else Firmware_choice); status = bf_start fw 0
      in if status = EFI_UNSUPPORTED \<and> lip_patched
         then [(device, status), (if bf_loaded fw 1 then No_device else device, bf_start fw 1)]
         else [(device, status)])"

section \<open>Chain loading\<close>

text \<open>
  The file path of a started image: the path the loader wrote into the image's \<open>LoadedImage\<close> protocol (null when memory
  for it ran out), or the one the firmware put there when the protocol of the new image could not be opened.
\<close>

datatype image_path = Loader_path "bytes option" | Firmware_path

text \<open>
  What a started image finds: the buffer it was loaded from (none when the firmware found the file itself), the file
  path, and the disc with its volume and device path. The devices it sees are in the list of the starts; its parent
  handle is the loader's own, which \<open>LoadImage\<close> sets and the loader writes once more.
\<close>

record launch =
  la_image :: "bytes option"
  la_file_path :: image_path
  la_disc :: virtual_block_io
  la_volume :: "iso_fs_ctx option"
  la_handle_path :: bytes
  la_loads :: "load_call list"
  la_starts :: "(image_device \<times> u64) list"

text \<open>
  How a payload ends: with a message and a reboot, with an image that \<open>LoadImage\<close> refused in the calls made, or with
  an image that was started; the loader reboots after it unless its last status is success.
\<close>

datatype boot_outcome = Stopped string | Refused "load_call list" | Launched launch | Launched_file bytes "(image_device \<times> u64) list"

text \<open>The disc is ready: its size goes into the device path of the handle, and the boot program is loaded and started.\<close>

definition start_boot_program ::
  "boot_firmware \<Rightarrow> backing \<Rightarrow> u64 \<Rightarrow> boot_kind \<Rightarrow> bytes \<Rightarrow> virtual_block_io \<Rightarrow> iso_fs_ctx option \<Rightarrow> boot_outcome" where
  "start_boot_program fw bk iso_lba k cdrom_dp vb volume =
     (let virtual_iso_size = virtual_size vb;
          handle_path = paste cdrom_dp 16 (to_le 8 (virtual_iso_size div 2048))
      in case find_efi_boot (read_iso_sector_io (bk_read bk) iso_lba) k of
           None \<Rightarrow> Stopped ''ERROR: /EFI/BOOT/BOOTX64.EFI not found in ISO.''
         | Some (efi_lba, efi_size, efi_filename) \<Rightarrow>
             (case read_extent (bk_read bk) (granted fw (sectors_of efi_size * 2048)) iso_lba efi_lba efi_size of
                None \<Rightarrow> Stopped ''ERROR: Failed to read EFI executable.''
              | Some (buf, buf_len) \<Rightarrow>
                  let image = take (unat buf_len) buf;
                      device_path = build_iso_device_path (granted fw) virtual_iso_size efi_filename;
                      (loads, status) = load_with_retries fw device_path virtual_iso_size image
                  in if status \<noteq> 0 then Refused loads
                     else Launched \<lparr>la_image = fst (snd (last loads)),
                       la_file_path = (if bf_loaded fw 0 then Loader_path device_path else Firmware_path), la_disc = vb,
                       la_volume = map_option (\<lambda>ctx. ctx\<lparr>ix_vbio := Some vb\<rparr>) volume, la_handle_path = handle_path,
                       la_loads = loads, la_starts = start_iso_image fw\<rparr>))"

definition uefi_chainload_iso ::
  "bytes \<Rightarrow> (bytes \<times> bool) list \<Rightarrow> boot_firmware \<Rightarrow> backing \<Rightarrow> u64 \<Rightarrow> payload_entry \<Rightarrow> guid \<Rightarrow> u32 \<Rightarrow> bool \<Rightarrow> boot_outcome option" where
  "uefi_chainload_iso init_bin pats fw bk part1_lba p part_guid part_num mbr = do {
     let iso_lba = pe_start_lba p;
     iso_name \<leftarrow> slice (pe_name p) 0 (min (pe_name_len p) (length (pe_name p)));
     case create_virtual_cdrom fw iso_lba bk (pe_size p) iso_name (replicate 10 0) of
       None \<Rightarrow> Some (Stopped ''ERROR: Failed to create virtual CD-ROM.'')
     | Some (cdrom_dp, vb0, volume0) \<Rightarrow> do {
         let volume1 = map_option (route_volume vb0) volume0;
         let rd = read_iso_sector_io (bk_read bk) iso_lba;
         let desc = scan_iso_structure rd;
         let volume2 = map_option (note_kind desc) volume1;
         let k = detected_kind desc;
         bundle \<leftarrow> premount_bundle_for fw init_bin k (iso_lba - part1_lba);
         let (vb1, volume3) = expose_premount pats rd bundle vb0 volume2;
         iso_loc \<leftarrow> from_payload_entry p part_guid part_num part1_lba mbr;
         vb2 \<leftarrow> patch_grub_cfg_blockio (bk_read bk) (granted fw) iso_lba vb1 volume3 iso_name (Some iso_loc) k;
         Some (start_boot_program fw bk iso_lba k cdrom_dp vb2 volume3) } }"

definition boot_efi_payload :: "boot_firmware \<Rightarrow> backing \<Rightarrow> payload_entry \<Rightarrow> boot_outcome option" where
  "boot_efi_payload fw bk p =
     (let bs = ucast (backing_block_size bk) :: u64
      in if bs = 0 then None
         else
           let buf_size = unat ((pe_size p + bs - 1) div bs * bs)
           in if \<not> granted fw buf_size then Some (Stopped ''ERROR: Out of memory for EFI payload.'')
              else case bk_read bk (pe_start_lba p) buf_size of
                None \<Rightarrow> Some (Stopped ''ERROR: Failed to read EFI payload.'')
              | Some buf \<Rightarrow>
                  let image = take (unat (pe_size p)) buf; status = bf_load fw None (Some image)
                  in Some (if status \<noteq> 0 then Refused [(None, Some image, status)]
                     else Launched_file image [(if bf_loaded fw 0 then Loader_image else Firmware_choice, bf_start fw 0)]))"

definition boot_payload_by_type ::
  "bytes \<Rightarrow> (bytes \<times> bool) list \<Rightarrow> boot_firmware \<Rightarrow> backing \<Rightarrow> u64 \<Rightarrow> payload_entry list \<Rightarrow> nat \<Rightarrow> guid \<Rightarrow> u32 \<Rightarrow> bool \<Rightarrow> boot_outcome option" where
  "boot_payload_by_type init_bin pats fw bk part1_lba payloads i part_guid part_num mbr =
     (if i \<ge> 64 then Some (Stopped ''ERROR: payload index out of range.'')
      else do {
        p \<leftarrow> idx payloads i;
        case pe_type p of
          Iso \<Rightarrow> uefi_chainload_iso init_bin pats fw bk part1_lba p part_guid part_num mbr
        | Wim \<Rightarrow> Some (Stopped ''WIM boot: not yet implemented.'')
        | Vhd \<Rightarrow> Some (Stopped ''VHD/VHDX boot: not yet implemented.'')
        | Vhdx \<Rightarrow> Some (Stopped ''VHD/VHDX boot: not yet implemented.'')
        | Img \<Rightarrow> Some (Stopped ''IMG boot: not yet implemented.'')
        | Efi \<Rightarrow> boot_efi_payload fw bk p })"

end
