(* ===== verification/EfiBootPaths.thy ===== *)
theory EfiBootPaths
  imports EfiBoot
begin

text \<open>
  The device paths the UEFI loader makes, read back by the grammar of the UEFI specification, and the retries of
  \<open>LoadImage\<close> as a search of the list of arguments the code tries.
\<close>

section \<open>Reading a device path\<close>

text \<open>
  A node: type, subtype, length with the header in little-endian order, body; type 127 and subtype 255 end the path.
  The fuel is a number of nodes.
\<close>

fun path_nodes :: "nat \<Rightarrow> bytes \<Rightarrow> (u8 \<times> u8 \<times> bytes) list option" where
  "path_nodes 0 bs = None"
| "path_nodes (Suc fuel) bs =
     (if length bs < 4 then None
      else let n = unat (from_le (take 2 (drop 2 bs)) :: u16)
           in if n < 4 \<or> length bs < n then None
              else if bs ! 0 = 0x7F \<and> bs ! 1 = 0xFF then (if n = length bs then Some [] else None)
              else map_option (Cons (bs ! 0, bs ! 1, take (n - 4) (drop 4 bs))) (path_nodes fuel (drop n bs)))"

definition node :: "u8 \<Rightarrow> u8 \<Rightarrow> bytes \<Rightarrow> bytes" where
  "node ty sub body = [ty, sub] @ to_le 2 (word_of_nat (4 + length body) :: u16) @ body"

lemma path_nodes_node:
  assumes "4 + length body < 2 ^ 16" "ty \<noteq> 0x7F"
  shows "path_nodes (Suc fuel) (node ty sub body @ rest) = map_option (Cons (ty, sub, body)) (path_nodes fuel rest)"
proof -
  have n: "unat (word_of_nat (4 + length body) :: u16) = 4 + length body"
    using assms(1) unfolding unsigned_of_nat by (simp add: take_bit_nat_eq_self)
  have t: "take 2 (to_le 2 (word_of_nat (4 + length body) :: u16) @ body @ rest) = to_le 2 (word_of_nat (4 + length body) :: u16)"
    by simp
  have d: "drop (4 + length body) (node ty sub body @ rest) = rest"
  proof -
    have "length (node ty sub body) = 4 + length body" by (simp add: node_def)
    then show ?thesis by (metis append_eq_conv_conj)
  qed
  have "path_nodes (Suc fuel) (node ty sub body @ rest)
      = map_option (Cons (ty, sub, body)) (path_nodes fuel (drop (4 + length body) (node ty sub body @ rest)))"
    using assms(2) n t by (simp add: node_def Let_def)
  then show ?thesis unfolding d .
qed

lemma path_nodes_end: "path_nodes (Suc fuel) END_NODE = Some []"
  by (simp add: END_NODE_def from_le_def)

text \<open>The body of a CD-ROM node: boot entry, first and number of sectors.\<close>

definition cdrom_fields :: "bytes \<Rightarrow> nat \<times> u64 \<times> u64" where
  "cdrom_fields body = (unat (from_le (take 4 body) :: u32), from_le (take 8 (drop 4 body)), from_le (take 8 (drop 12 body)))"

definition cdrom_body :: "u64 \<Rightarrow> bytes" where
  "cdrom_body n = replicate 12 0 @ to_le 8 n"

lemma cdrom_node_body: "cdrom_node n = node 4 2 (cdrom_body n)"
  by (simp add: cdrom_node_def node_def cdrom_body_def)

lemma cdrom_body_fields: "cdrom_fields (cdrom_body n) = (0, 0, n)"
proof -
  have "le_nat (replicate 4 0) = 0" "le_nat (replicate 8 0) = 0" by (simp_all add: numeral_eq_Suc)
  then show ?thesis by (simp add: cdrom_fields_def cdrom_body_def from_le_def [of "replicate _ _"])
qed

text \<open>The sectors of a disc that is not empty, up to the largest size.\<close>

lemma iso_sectors_value:
  assumes "unat iso_size + 2047 < 2 ^ 64"
  shows "unat (iso_sectors_of iso_size) = (unat iso_size + 2047) div 2048"
proof -
  have "unat (iso_size + 2047) = unat iso_size + 2047" using assms by (subst unat_add_lem [THEN iffD1]) simp_all
  then show ?thesis using assms by (simp add: iso_sectors_of_def saturating_add64_def unat_div)
qed

lemma iso_sectors_nonzero: "0 < iso_size \<Longrightarrow> iso_sectors_of iso_size \<noteq> 0"
proof (cases "unat iso_size + 2047 < 2 ^ 64")
  case True
  assume "0 < iso_size"
  then have "unat (iso_sectors_of iso_size) \<noteq> 0" using iso_sectors_value [OF True] by (simp add: word_less_nat_alt div_eq_0_iff)
  then show ?thesis by auto
qed (simp add: iso_sectors_of_def saturating_add64_def)

text \<open>The path in a file path node: two bytes for each character, with a NUL at the end.\<close>

definition ucs2_bytes :: "bytes \<Rightarrow> bytes" where
  "ucs2_bytes s = concat (map (\<lambda>c. to_le 2 (ucast c :: u16)) s)"

lemma ucs2_bytes_length: "length (ucs2_bytes s) = 2 * length s"
  by (induction s) (simp_all add: ucs2_bytes_def)

definition boot_path :: "bytes \<Rightarrow> bytes" where
  "boot_path name = [92] @ bstr ''EFI'' @ [92] @ bstr ''BOOT'' @ [92] @ name"

lemma boot_file_name_bytes:
  assumes "length name \<le> 21"
  shows "concat (map (to_le 2) (boot_file_name name)) = ucs2_bytes (boot_path name @ [0])"
  using assms by (simp add: boot_file_name_def boot_path_def ucs2_bytes_def Let_def min_def map_concat comp_def)

lemma boot_file_name_length: "length name \<le> 21 \<Longrightarrow> length (boot_file_name name) = length name + 11"
  by (simp add: boot_file_name_def Let_def min_def)

lemma boot_names_short: "name \<in> set (efi_boot_names k) \<Longrightarrow> length name \<le> 21"
  by (auto simp: efi_boot_names_def split: if_splits)

lemma iso_path_nodes:
  assumes "length name \<le> 21" "0 < iso_size"
  shows "build_iso_device_path pool iso_size name =
    (let dp = node 4 2 (cdrom_body (iso_sectors_of iso_size)) @ node 4 4 (ucs2_bytes (boot_path name @ [0])) @ END_NODE
     in if pool (length dp) then Some dp else None)"
proof -
  have l: "length (ucs2_bytes (boot_path name @ [0])) = 2 * (length name + 11)"
    by (simp only: ucs2_bytes_length) (simp add: boot_path_def)
  have w: "(word_of_nat (4 + length (boot_file_name name) * 2) :: u16) = word_of_nat (4 + length (ucs2_bytes (boot_path name @ [0])))"
    unfolding l boot_file_name_length [OF assms(1)] by (simp add: mult.commute)
  have n: "node 4 4 (ucs2_bytes (boot_path name @ [0])) =
      [4, 4] @ to_le 2 (word_of_nat (4 + length (boot_file_name name) * 2) :: u16) @ concat (map (to_le 2) (boot_file_name name))"
    unfolding node_def w boot_file_name_bytes [OF assms(1)] ..
  have t: "length (node 4 2 (cdrom_body (iso_sectors_of iso_size)) @ node 4 4 (ucs2_bytes (boot_path name @ [0])) @ END_NODE)
      = 24 + 4 + length (boot_file_name name) * 2 + 4"
    using l boot_file_name_length [OF assms(1)] by (simp add: node_def cdrom_body_def END_NODE_def)
  show ?thesis
    unfolding build_iso_device_path_def Let_def t
    using iso_sectors_nonzero [OF assms(2)] by (simp add: n cdrom_node_body)
qed

section \<open>Retries\<close>

text \<open>The arguments in the order of the attempts, and the attempts up to the first status that is not a soft error.\<close>

definition load_sources :: "boot_firmware \<Rightarrow> bytes option \<Rightarrow> u64 \<Rightarrow> bytes \<Rightarrow> (bytes option \<times> bytes option) list" where
  "load_sources fw device_path virtual_iso_size buf =
     [(device_path, Some buf), (None, Some buf)]
     @ (case build_cdrom_only_device_path (granted fw) virtual_iso_size of None \<Rightarrow> [] | Some dp \<Rightarrow> [(Some dp, Some buf)])
     @ [(None, None)]"

fun attempts :: "boot_firmware \<Rightarrow> (bytes option \<times> bytes option) list \<Rightarrow> load_call list" where
  "attempts fw [] = []"
| "attempts fw ((dp, src) # ss) =
     (dp, src, bf_load fw dp src) # (if is_soft_load_error (bf_load fw dp src) then attempts fw ss else [])"

lemma load_with_retries_attempts:
  "load_with_retries fw dp vsize buf =
     (attempts fw (load_sources fw dp vsize buf), snd (snd (last (attempts fw (load_sources fw dp vsize buf)))))"
  by (simp add: load_with_retries_def load_sources_def Let_def split: option.split)

lemma attempts_prefix: "\<exists>k. map (\<lambda>(dp, src, _). (dp, src)) (attempts fw ss) = take k ss"
proof (induction ss)
  case (Cons a ss)
  then obtain k where k: "map (\<lambda>(dp, src, _). (dp, src)) (attempts fw ss) = take k ss" by blast
  show ?case
  proof (cases a)
    case (Pair dp src)
    show ?thesis
    proof (cases "is_soft_load_error (bf_load fw dp src)")
      case True
      then show ?thesis using k Pair by (intro exI [of _ "Suc k"]) simp
    next
      case False
      then show ?thesis using Pair by (intro exI [of _ 1]) simp
    qed
  qed
qed simp

lemma soft_not_success: "\<not> is_soft_load_error 0"
  by (simp add: is_soft_load_error_def EFI_INVALID_PARAMETER_def EFI_UNSUPPORTED_def EFI_SECURITY_VIOLATION_def)

text \<open>The last attempt succeeds exactly when the first of the arguments not refused softly is accepted.\<close>

definition hard :: "boot_firmware \<Rightarrow> bytes option \<times> bytes option \<Rightarrow> bool" where
  "hard fw a \<longleftrightarrow> \<not> is_soft_load_error (bf_load fw (fst a) (snd a))"

lemma attempts_succeed:
  assumes "ss \<noteq> []"
  shows "snd (snd (last (attempts fw ss))) = 0 \<longleftrightarrow>
    (\<exists>dp src. find (hard fw) ss = Some (dp, src) \<and> bf_load fw dp src = 0)"
  using assms
proof (induction ss)
  case (Cons a ss)
  obtain dp src where a: "a = (dp, src)" by (cases a)
  show ?case
  proof (cases "is_soft_load_error (bf_load fw dp src)")
    case True
    then have "bf_load fw dp src \<noteq> 0" using soft_not_success by auto
    then show ?thesis using True Cons.IH by (cases ss) (auto simp: a hard_def)
  qed (simp add: a hard_def)
qed simp

lemma attempts_last: "find (hard fw) ss = Some a \<Longrightarrow> last (attempts fw ss) = (fst a, snd a, bf_load fw (fst a) (snd a))"
proof (induction ss)
  case (Cons x ss)
  show ?case
  proof (cases "hard fw x")
    case False
    then have f: "find (hard fw) ss = Some a" using Cons.prems by simp
    moreover from this have "attempts fw ss \<noteq> []" by (cases ss) auto
    ultimately show ?thesis using Cons.IH [OF f] False by (cases x) (simp add: hard_def)
  qed (use Cons.prems in \<open>cases x; cases a; auto simp: hard_def\<close>)
qed simp

end
