(* ===== verification/EfiBootCorrect.thy ===== *)
theory EfiBootCorrect
  imports EfiBootPaths
begin

text \<open>
  What a chain load does: with memory and room for the kernel parameters it never panics, and the volume it leaves
  serves the premount archive. The invariants of the disc and of the volume hold after every step.
\<close>

section \<open>The location of the image\<close>

lemma slice_prefix: "n \<le> length xs \<Longrightarrow> slice xs 0 n = Some (take n xs)"
  by (simp add: slice_Some)

lemma payload_location:
  assumes "payload_ok p"
  obtains loc where "from_payload_entry p g n part1 mbr = Some loc" "file_path_len loc = pe_name_len p" "length (file_path loc) = 256"
    "location_path loc = Some (take (pe_name_len p) (pe_name p))" "il_iso_lba loc = pe_start_lba p" "il_file_size loc = pe_size p"
    "partition_guid loc = g" "partition_number loc = n" "is_mbr loc = mbr"
proof -
  let ?n = "pe_name_len p"
  have l: "?n \<le> 256" "length (pe_name p) = 256" using assms by (simp_all add: payload_ok_def)
  have b: "blit (replicate 256 0) 0 (take ?n (pe_name p)) = Some (take ?n (pe_name p) @ replicate (256 - ?n) 0)"
    using l by (simp add: blit_def)
  have "from_payload_entry p g n part1 mbr = Some \<lparr>partition_guid = g, partition_number = n, is_mbr = mbr,
      file_path = take ?n (pe_name p) @ replicate (256 - ?n) 0, file_path_len = ?n, il_file_size = pe_size p,
      il_part1_lba = part1, il_iso_lba = pe_start_lba p\<rparr>"
    using l b by (simp add: from_payload_entry_def slice_prefix min_absorb1 Let_def)
  then show ?thesis by (rule that) (use l in \<open>simp_all add: location_path_def slice_prefix\<close>)
qed

lemma kind_text_short: "length (kind_text k (Some loc)) \<le> 140"
  by (cases k) (simp_all add: kind_text_def kind_chunk_def partuuid_text_length)

lemma extra_text_fits:
  assumes "location_path loc = Some path" "length path \<le> 128"
  shows "length (extra_text k (Some loc)) + 19 \<le> 512"
proof -
  obtain q where q: "path_without_leading_slash loc = Some q" "length q \<le> 128"
    using assms by (cases path) (auto simp: path_without_leading_slash_def bounds_simps)
  have "length (format_u64 v) \<le> 20" for v using format_u64_value [of v] by simp
  note this [of "offset_bytes loc"] this [of "il_file_size loc"] part_num_digits [of "partition_number loc"]
  then have "length (params_text loc q) \<le> 36 + 10 + 20 + 20 + 128 + 103"
    using q(2) by (auto simp: params_text_def partuuid_text_length)
  then show ?thesis using kind_text_short [of k loc] q(1) by (simp add: extra_text_def)
qed

lemma extra_text_nonempty: "extra_text k (Some loc) \<noteq> []"
  by (simp add: extra_text_def params_text_def bstr_def)

section \<open>The configuration patch\<close>

lemma patch_candidate_total:
  assumes "target = Some name" "iso_loc = Some loc" "file_path_len loc \<le> length (file_path loc)"
    and "length (extra_text k iso_loc) + 19 \<le> 512" "prefix = [] \<or> last prefix = 10" "length prefix \<le> 256"
  shows "\<exists>r. try_patch_candidate io pool lba vb target iso_name iso_loc k prefix e = Some r"
proof (cases "read_extent io (pool (sectors_of (ce_ext_size e) * 2048)) lba (ce_ext_lba e) (ce_ext_size e)")
  case (Some r)
  obtain buf n where r: "r = (buf, n)" by (cases r)
  define orig where "orig = take (unat n) buf"
  define pre where "pre = (if configfile_stub (cfg_features_of orig) then (if prefix = [] then bstr ''set root=(cd0)'' @ [10] else prefix) else [])"
  have "pre = [] \<or> last pre = 10" "length pre \<le> 256" using assms(5,6) by (auto simp: pre_def)
  then obtain x where "patch_grub_cfg pool orig k iso_name iso_loc name pre = Some x"
    using patch_grub_run [OF _ assms(4) _ _ _ refl] assms(2,3) extra_text_nonempty by fastforce
  then show ?thesis unfolding try_patch_candidate_def Some r option.case prod.case Let_def orig_def [symmetric] pre_def [symmetric] assms(1)
    by (cases x) simp_all
qed (simp add: try_patch_candidate_def)

lemma patch_first_total: "(\<And>e. \<exists>r. try e = Some r) \<Longrightarrow> \<exists>r. patch_first try vb es = Some r"
proof (induction es)
  case (Cons e es)
  then obtain r where "try e = Some r" by blast
  then show ?case using Cons by (cases r) auto
qed simp

lemma patch_blockio_total:
  assumes "premount_target sfs = Some name" "location_path loc = Some path" "length path \<le> 128" "file_path_len loc \<le> length (file_path loc)"
  shows "\<exists>vb'. patch_grub_cfg_blockio io pool lba vb sfs iso_name (Some loc) k = Some vb'"
proof -
  have p: "last (bstr ''set root=(cd0)'' @ [10] @ bstr ''set prefix=(cd0)'' @ [10]) = 10" by simp
  note t = patch_candidate_total [OF assms(1) refl assms(4) extra_text_fits [OF assms(2,3)]]
  show ?thesis unfolding patch_grub_cfg_blockio_def Let_def
    by (auto split: option.split prod.split intro!: patch_first_total t)
qed

section \<open>Invariants of the disc and of the volume\<close>

definition volume_ok :: "iso_fs_ctx \<Rightarrow> bool" where
  "volume_ok ctx \<longleftrightarrow> ctx_ok ctx \<and> ix_target_len ctx \<le> 16"

lemma volume_target: "volume_ok ctx \<Longrightarrow> \<exists>name. premount_target (Some ctx) = Some name"
  by (simp add: volume_ok_def premount_target_def)

lemma create_volume_ok:
  "create_iso_fs bk lba n nm uuid None 0 pool = Some ctx \<Longrightarrow> volume_ok ctx"
  by (auto simp: create_iso_fs_def volume_ok_def ctx_ok_def Let_def split: if_splits option.splits)

lemma volume_ok_simps [simp]:
  "volume_ok (ctx\<lparr>ix_vbio := v\<rparr>) = volume_ok ctx" "volume_ok (ctx\<lparr>ix_root_lba := a, ix_root_size := b\<rparr>) = volume_ok ctx"
  "volume_ok (ctx\<lparr>ix_boot_kind := k\<rparr>) = volume_ok ctx"
  by (simp_all add: volume_ok_def ctx_ok_def)

lemma route_volume_ok: "volume_ok ctx \<Longrightarrow> volume_ok (route_volume vb ctx)"
  by (simp add: route_volume_def Let_def split: option.split)

lemma note_kind_ok: "volume_ok ctx \<Longrightarrow> volume_ok (note_kind desc ctx)"
  by (simp add: note_kind_def split: option.split)

definition bundle_ok :: "premount_bundle \<Rightarrow> bool" where
  "bundle_ok b \<longleftrightarrow> length (pb_cpio b) = pb_alloc_size b \<and> pb_cpio_size b \<le> pb_alloc_size b \<and> pb_alloc_size b < 2 ^ 63
     \<and> pb_alloc_size b mod 2048 = 0"

lemma bundle_alloc:
  assumes "build_premount_cpio init_bin pool rel = Some (Some b)" "length init_bin < 2 ^ 31"
  shows "pb_alloc_size b < 2 ^ 63 \<and> pb_alloc_size b mod 2048 = 0"
proof -
  obtain n where n: "pb_alloc_size b = (n + 2047) div 2048 * 2048" "n = cpio_entry_size (length (bstr ''init.choosable'')) (length init_bin) + 8 + cpio_entry_size 10 0 + 8"
    using assms(1) by (auto simp: build_premount_cpio_def Let_def simp del: length_map split: option.splits Option.bind_splits if_splits)
  have "n < 2 ^ 32" using assms(2) n(2) by (simp add: cpio_entry_size_def align4_def Let_def)
  then have "(n + 2047) div 2048 * 2048 < 2 ^ 63" by simp
  then show ?thesis using n(1) by simp
qed

text \<open>With memory, the archive is built.\<close>

definition memory_ok :: "boot_firmware \<Rightarrow> bool" where
  "memory_ok fw \<longleftrightarrow> (\<forall>n b. bf_pool fw n = Some b \<longrightarrow> length b = n)"

lemma bundle_built:
  assumes "memory_ok fw" "length init_bin < 2 ^ 31"
  shows "\<exists>r. premount_bundle_for fw init_bin k rel = Some r \<and>
    (r = None \<longrightarrow> k = WindowsPE \<or> (\<exists>n. \<not> granted fw n)) \<and>
    (\<forall>b. r = Some b \<longrightarrow> bundle_ok b \<and> newc_list 2 (take (pb_cpio_size b) (pb_cpio b)) = Some [(bstr ''init.choosable'', 0x81ED, init_bin)])"
proof (cases "k = WindowsPE")
  case False
  then have k: "premount_bundle_for fw init_bin k rel = build_premount_cpio init_bin (bf_pool fw) rel"
    by (cases k) (simp_all add: premount_bundle_for_def)
  obtain r where r: "build_premount_cpio init_bin (bf_pool fw) rel = Some r"
    "case r of None \<Rightarrow> \<exists>n. bf_pool fw n = None
     | Some b \<Rightarrow> length (pb_cpio b) = pb_alloc_size b \<and> pb_cpio_size b \<le> pb_alloc_size b \<and> 4 dvd pb_cpio_size b \<and>
         newc_list 2 (take (pb_cpio_size b) (pb_cpio b)) = Some [(bstr ''init.choosable'', 0x81ED, init_bin)]"
    using premount_build [OF assms(2), of "bf_pool fw" rel] assms(1) unfolding memory_ok_def by blast
  then show ?thesis unfolding k
    by (cases r) (use bundle_alloc [OF _ assms(2)] in \<open>auto simp: granted_def bundle_ok_def\<close>)
qed (simp add: premount_bundle_for_def)

lemma word_of_nat_le: "unat (word_of_nat n :: 'a::len word) \<le> n"
  by (simp add: unsigned_of_nat)

lemma new_vbio_ok: "backing_ok bk \<Longrightarrow> vbio_ok (new_vbio bk lba n)"
  by (simp add: vbio_ok_def new_vbio_def mem_file_ok_def)

lemma premount_file_ok:
  assumes "vbio_ok vb" "length cpio = n" "n mod 2048 = 0"
  shows "vbio_ok (with_premount_file vb cpio n)"
proof -
  have "(n + 2047) div 2048 * 2048 = n" using assms(3) by (auto elim!: dvdE simp: mod_0_imp_dvd dvd_def mod_eq_0_iff_dvd)
  moreover have "unat (word_of_nat ((n + 2047) div 2048) :: u32) * 2048 \<le> (n + 2047) div 2048 * 2048"
    by (intro mult_le_mono1 word_of_nat_le)
  ultimately show ?thesis using assms(1,2) by (simp add: vbio_ok_def with_premount_file_def mem_file_ok_def Let_def)
qed

lemma inject_ok: "vbio_ok vb \<Longrightarrow> vbio_ok (inject_entry vb es eo w cs)"
  by (simp add: vbio_ok_def inject_entry_def premount_blob premount_record_length)

lemma replace_ok: "vbio_ok vb \<Longrightarrow> vbio_ok (replace_entry vb es eo cs)"
  by (simp add: vbio_ok_def replace_entry_def)

lemma redirect_vbio_ok:
  assumes "vbio_ok vb" shows "vbio_ok (redirect_entry vb t s off)"
proof -
  have "unat (word_of_nat ((length t + 2047) div 2048 * 2048 div 2048) :: u32) * 2048 \<le> (length t + 2047) div 2048 * 2048"
    using word_of_nat_le [of "(length t + 2047) div 2048", where ?'a = 32] by simp
  moreover have "length t \<le> (length t + 2047) div 2048 * 2048" by simp
  ultimately show ?thesis using assms by (simp add: vbio_ok_def redirect_entry_def mem_file_ok_def Let_def)
qed

lemma offered_ok:
  assumes "volume_ok ctx" "bundle_ok b"
  shows "volume_ok (offer_premount (zero_padded b) (pb_cpio_size b) ctx)"
  using assms zero_padded_length [of b] by (auto simp: volume_ok_def ctx_ok_def bundle_ok_def offer_premount_def bstr_def)

lemma expose_ok:
  assumes "vbio_ok vb" "\<And>ctx. volume = Some ctx \<Longrightarrow> volume_ok ctx" "\<And>b. bundle = Some b \<Longrightarrow> bundle_ok b"
    and "expose_premount pats rd bundle vb volume = (vb', volume')"
  shows "vbio_ok vb'" "\<And>ctx. volume' = Some ctx \<Longrightarrow> volume_ok ctx"
proof -
  have "vbio_ok vb' \<and> (\<forall>ctx. volume' = Some ctx \<longrightarrow> volume_ok ctx)"
  proof (cases "bundle")
    case None
    then show ?thesis using assms by (simp add: expose_premount_def)
  next
    case (Some b)
    have b: "bundle_ok b" by (rule assms(3) [OF Some])
    then have z: "length (zero_padded b) = pb_alloc_size b" "pb_alloc_size b mod 2048 = 0"
      using zero_padded_length [of b] by (auto simp: bundle_ok_def)
    note v = premount_file_ok [OF assms(1) z]
    show ?thesis using assms(2,4) v offered_ok [OF _ b] Some assms(1)
      by (auto simp: expose_premount_def prepare_premount_iso_file_def Let_def intro!: inject_ok replace_ok split: if_splits option.splits)
  qed
  then show "vbio_ok vb'" "\<And>ctx. volume' = Some ctx \<Longrightarrow> volume_ok ctx" by simp_all
qed

lemma patched_ok:
  assumes "patch_grub_cfg_blockio io pool lba vb sfs iso_name iso_loc k = Some vb'" "vbio_ok vb"
  shows "vbio_ok vb'"
proof (cases "get_root_dir (read_iso_sector_io io lba)")
  case (Some r)
  obtain root_lba root_size where "r = (root_lba, root_size)" by (cases r)
  with Some have "vb' = vb \<or> (\<exists>t s off. vb' = redirect_entry vb t s off)"
    using assms(1) unfolding patch_grub_cfg_blockio_def by (auto simp: Let_def dest!: patch_first_result try_patch_result)
  then show ?thesis using assms(2) redirect_vbio_ok by auto
qed (use assms in \<open>simp add: patch_grub_cfg_blockio_def\<close>)

end
