(* ===== verification/EfiBootExample.thy ===== *)
theory EfiBootExample
  imports EfiBootCorrect
begin

text \<open>
  A small ISO with the boot program EFI/BOOT/GRUBX64.EFI, the payload entry for it and a firmware that takes an image
  only without a device path.
\<close>

section \<open>Directory records\<close>

definition iso_record :: "u32 \<Rightarrow> u32 \<Rightarrow> u8 \<Rightarrow> bytes \<Rightarrow> bytes" where
  "iso_record extent size' flags nm =
     [word_of_nat (33 + length nm), 0] @ to_le 4 extent @ to_be 4 extent @ to_le 4 size' @ to_be 4 size' @ replicate 7 0
     @ [flags, 0, 0, 1, 0, 0, 1, word_of_nat (length nm)] @ nm"

lemma iso_record_length: "length (iso_record e s f nm) = 33 + length nm"
  by (simp add: iso_record_def)

lemma iso_record_fields:
  assumes "length pre = off" "length nm \<le> 200"
  shows "record_extent (pre @ iso_record e s f nm @ post) off = e" "record_size (pre @ iso_record e s f nm @ post) off = s"
    "record_name (pre @ iso_record e s f nm @ post) off = nm" "record_is_dir (pre @ iso_record e s f nm @ post) off = (f AND 2 \<noteq> 0)"
    "unat ((pre @ iso_record e s f nm @ post) ! off) = 33 + length nm"
    "unat ((pre @ iso_record e s f nm @ post) ! (off + 32)) = length nm"
proof -
  let ?r = "iso_record e s f nm @ post"
  have d: "drop (off + i) (pre @ ?r) = drop i ?r" and n: "(pre @ ?r) ! (off + i) = ?r ! i" for i
    using assms(1) by (simp_all add: nth_append)
  have l: "unat (word_of_nat (length nm) :: u8) = length nm" "unat (word_of_nat (33 + length nm) :: u8) = 33 + length nm"
    using assms(2) unfolding unsigned_of_nat by (simp_all add: take_bit_nat_eq_self)
  have "drop 2 ?r = to_le 4 e @ to_be 4 e @ to_le 4 s @ to_be 4 s @ replicate 7 0
      @ [f, 0, 0, 1, 0, 0, 1, word_of_nat (length nm)] @ nm @ post" by (simp add: iso_record_def)
  then show "record_extent (pre @ ?r) off = e" by (simp only: record_extent_def d) simp
  have "drop 10 ?r = to_le 4 s @ to_be 4 s @ replicate 7 0 @ [f, 0, 0, 1, 0, 0, 1, word_of_nat (length nm)] @ nm @ post"
    by (simp add: iso_record_def)
  then show "record_size (pre @ ?r) off = s" by (simp only: record_size_def d) simp
  have p: "iso_record e s f nm = (([word_of_nat (33 + length nm), 0] @ to_le 4 e @ to_be 4 e @ to_le 4 s @ to_be 4 s @ replicate 7 0)
      @ [f, 0, 0, 1, 0, 0, 1, word_of_nat (length nm)]) @ nm" by (simp add: iso_record_def)
  have k: "?r ! 32 = word_of_nat (length nm)" "?r ! 25 = f" "?r ! 0 = word_of_nat (33 + length nm)" "drop 33 ?r = nm @ post"
    unfolding p by (simp_all add: nth_append)
  show "unat ((pre @ ?r) ! (off + 32)) = length nm" by (simp only: n k l)
  show "record_name (pre @ ?r) off = nm" by (simp only: record_name_def n d k l) simp
  show "record_is_dir (pre @ ?r) off = (f AND 2 \<noteq> 0)" by (simp only: record_is_dir_def n k)
  show "unat ((pre @ ?r) ! off) = 33 + length nm" using n [of 0] k(3) l(2) by simp
qed

text \<open>A directory of one sector with its own record and another one.\<close>

definition one_entry :: "u32 \<Rightarrow> u8 \<Rightarrow> bytes \<Rightarrow> bytes" where
  "one_entry extent flags nm = dot_record @ iso_record extent 2048 flags nm @ replicate (2048 - 67 - length nm) 0"

lemma dot_record_fields:
  "record_name (dot_record @ x) 0 = [0]" "record_is_dir (dot_record @ x) 0" "unat ((dot_record @ x) ! 0) = 34"
  "unat ((dot_record @ x) ! 32) = 1"
  by (simp_all add: record_name_def record_is_dir_def dot_record_def)

lemma one_entry_offsets:
  assumes "length nm \<le> 200"
  shows "record_offsets 2048 (one_entry e f nm) 0 = [0, 34]"
proof -
  let ?s = "one_entry e f nm"
  have dl: "length dot_record = 34" by (simp add: dot_record_def)
  note r = iso_record_fields [OF dl assms, of e 2048 f "replicate (2048 - 67 - length nm) 0"]
  have z: "unat (?s ! (67 + length nm)) = 0"
    using assms dl by (simp add: one_entry_def nth_append iso_record_length)
  have u: "unat (?s ! 0) = 34" "unat (?s ! 32) = 1" "unat (?s ! 34) = 33 + length nm" "unat (?s ! (34 + 32)) = length nm"
    using r(5,6) dot_record_fields(3,4) by (simp_all add: one_entry_def)
  have 2: "record_offsets 2048 ?s (34 + (33 + length nm)) = []"
    using z by (subst record_offsets.simps) (simp add: Let_def)
  have "record_offsets 2048 ?s 34 = [34]"
    by (subst record_offsets.simps) (use u 2 assms in \<open>simp add: Let_def\<close>)
  then show ?thesis
    by (subst record_offsets.simps) (use u in \<open>simp add: Let_def\<close>)
qed

lemma one_entry_find:
  assumes "length nm \<le> 200" "rd lba = Some (one_entry e f nm)" "map to_ascii_uppercase name \<noteq> [0]"
  shows "find_in_dir rd lba 2048 name =
    (if iso_effective_name_len nm = length name \<and> map to_ascii_uppercase (take (iso_effective_name_len nm) nm) = map to_ascii_uppercase name
     then Some (e, 2048) else None)"
proof -
  have dl: "length dot_record = 34" by (simp add: dot_record_def)
  note r = iso_record_fields [OF dl assms(1), of e 2048 f "replicate (2048 - 67 - length nm) 0"]
  have n: "record_name (one_entry e f nm) 34 = nm" "record_extent (one_entry e f nm) 34 = e" "record_size (one_entry e f nm) 34 = 2048"
    "record_name (one_entry e f nm) 0 = [0]"
    using r(1-3) dot_record_fields(1) by (simp_all add: one_entry_def)
  have "iso_effective_name_len [0] = 1" "map to_ascii_uppercase [0] = [0]" by code_simp+
  then have d: "\<not> record_matches name (one_entry e f nm) 0" using assms(3) by (auto simp: record_matches_def n Let_def)
  have t: "sectors_of 2048 = 1" by (simp add: sectors_of_def)
  show ?thesis
    using assms(2) d by (auto simp: find_in_dir_def find_in_dir_with_loc_def t dir_limit_def one_entry_offsets [OF assms(1)] n
        record_matches_def [of name _ 34] Let_def)
qed

section \<open>The disc\<close>

definition efi_entry :: bytes where "efi_entry = iso_record 21 2048 2 (bstr ''EFI'')"
definition boot_entry :: bytes where "boot_entry = iso_record 22 2048 2 (bstr ''BOOT'')"
definition program_entry :: bytes where "program_entry = iso_record 23 2048 0 (bstr ''GRUBX64.EFI'')"

definition in_sector :: "bytes \<Rightarrow> bytes" where
  "in_sector bs = bs @ replicate (512 - length bs) 0"

definition boot_disc :: "u64 \<Rightarrow> bytes" where
  "boot_disc lba =
     (if lba = 80 then in_sector (dot_record @ efi_entry)
      else if lba = 84 then in_sector (dot_record @ boot_entry)
      else if lba = 88 then in_sector (dot_record @ program_entry)
      else if lba = 92 then in_sector (bstr ''MZ'')
      else small_disc lba)"

lemma boot_disc_length: "length (boot_disc l) = 512"
  by (simp add: boot_disc_def small_disc_length in_sector_def dot_record_def efi_entry_def boot_entry_def program_entry_def iso_record_length)

definition boot_backing :: backing where
  "boot_backing = disc_backing boot_disc"

lemma boot_sector:
  "read_iso_sector_io (bk_read boot_backing) 0 s
     = Some (boot_disc (ucast s * 4) @ boot_disc (ucast s * 4 + 1) @ boot_disc (ucast s * 4 + 2) @ boot_disc (ucast s * 4 + 3))"
  by (simp add: read_iso_sector_io_def read_sector_def boot_backing_def disc_backing_def boot_disc_length Let_def)

lemma one_entry_sectors:
  "length nm \<le> 200 \<Longrightarrow> in_sector (dot_record @ iso_record e 2048 f nm) @ replicate 1536 0 = one_entry e f nm"
proof -
  assume "length nm \<le> 200"
  then have "512 - (67 + length nm) + 1536 = 2048 - 67 - length nm" by simp
  then show ?thesis
    by (simp add: in_sector_def one_entry_def iso_record_length dot_record_def replicate_add [symmetric] add.commute)
qed

lemma boot_sectors:
  "read_iso_sector_io (bk_read boot_backing) 0 20 = Some (one_entry 21 2 (bstr ''EFI''))"
  "read_iso_sector_io (bk_read boot_backing) 0 21 = Some (one_entry 22 2 (bstr ''BOOT''))"
  "read_iso_sector_io (bk_read boot_backing) 0 22 = Some (one_entry 23 0 (bstr ''GRUBX64.EFI''))"
  unfolding boot_sector
  by (simp_all add: one_entry_sectors [symmetric] boot_disc_def small_disc_def efi_entry_def boot_entry_def program_entry_def
      replicate_add [symmetric])

lemma boot_pvd_sector:
  "read_iso_sector_io (bk_read boot_backing) 0 16 = Some (pvd_start @ replicate 1874 0)"
  unfolding boot_sector by (simp add: boot_disc_def small_disc_def replicate_add [symmetric])

lemma pvd_start_root: "pvd_root (pvd_start @ x) = Some (20, 2048)"
  by (simp add: pvd_start_def pvd_root_def bstr_def from_le_def)

lemma boot_root: "get_root_dir (read_iso_sector_io (bk_read boot_backing) 0) = Some (20, 2048)"
  by (simp add: get_root_dir_def boot_pvd_sector pvd_start_root)

lemma boot_program: "find_efi_boot (read_iso_sector_io (bk_read boot_backing) 0) Unknown = Some (23, 2048, bstr ''GRUBX64.EFI'')"
proof -
  have c: "iso_effective_name_len (bstr ''EFI'') = 3" "iso_effective_name_len (bstr ''BOOT'') = 4" "iso_effective_name_len (bstr ''GRUBX64.EFI'') = 11"
    "map to_ascii_uppercase (bstr ''EFI'') = bstr ''EFI''" "map to_ascii_uppercase (bstr ''BOOT'') = bstr ''BOOT''"
    "map to_ascii_uppercase (bstr ''GRUBX64.EFI'') = bstr ''GRUBX64.EFI''" by code_simp+
  have n: "bstr ''EFI'' \<noteq> [0]" "bstr ''BOOT'' \<noteq> [0]" "bstr ''GRUBX64.EFI'' \<noteq> [0]" by (simp_all add: bstr_def)
  have f1: "find_in_dir (read_iso_sector_io (bk_read boot_backing) 0) 20 2048 (bstr ''EFI'') = Some (21, 2048)"
    by (subst one_entry_find [where rd = "read_iso_sector_io (bk_read boot_backing) 0", OF _ boot_sectors(1)]) (simp_all add: c n)
  have f2: "find_in_dir (read_iso_sector_io (bk_read boot_backing) 0) 21 2048 (bstr ''BOOT'') = Some (22, 2048)"
    by (subst one_entry_find [where rd = "read_iso_sector_io (bk_read boot_backing) 0", OF _ boot_sectors(2)]) (simp_all add: c n)
  have f3: "find_in_dir (read_iso_sector_io (bk_read boot_backing) 0) 22 2048 (bstr ''GRUBX64.EFI'') = Some (23, 2048)"
    by (subst one_entry_find [where rd = "read_iso_sector_io (bk_read boot_backing) 0", OF _ boot_sectors(3)]) (simp_all add: c n)
  show ?thesis by (simp add: find_efi_boot_def boot_root f1 f2 f3 efi_boot_names_def del: One_nat_def)
qed

lemma one_entry_bytes:
  assumes "length nm \<le> 200"
  shows "unat (one_entry e f nm ! 0) = 34" "unat (one_entry e f nm ! 34) = 33 + length nm" "unat (one_entry e f nm ! (67 + length nm)) = 0"
proof -
  have dl: "length dot_record = 34" by (simp add: dot_record_def)
  note r = iso_record_fields [OF dl assms, of e 2048 f "replicate (2048 - 67 - length nm) 0"]
  show "unat (one_entry e f nm ! 0) = 34" "unat (one_entry e f nm ! 34) = 33 + length nm"
    using r(5) dot_record_fields(3) by (simp_all add: one_entry_def)
  show "unat (one_entry e f nm ! (67 + length nm)) = 0"
    using assms dl by (simp add: one_entry_def nth_append iso_record_length)
qed

lemma boot_eod: "find_eod_in_dir (read_iso_sector_io (bk_read boot_backing) 0) 20 2048 = Some (20, 70, 70)"
proof -
  let ?s = "one_entry 21 2 (bstr ''EFI'')"
  have u: "unat (?s ! 0) = 34" "unat (?s ! 34) = 36" "unat (?s ! 70) = 0" using one_entry_bytes [of "bstr ''EFI''" 21 2] by simp_all
  have "eod_walk 2048 ?s 70 70 = (70, 70)" by (subst eod_walk.simps) (simp add: u Let_def)
  then have "eod_walk 2048 ?s 34 34 = (70, 70)" by (subst eod_walk.simps) (simp add: u Let_def)
  then have "eod_walk 2048 ?s 0 0 = (70, 70)" by (subst eod_walk.simps) (simp add: u Let_def)
  then show ?thesis by (simp add: find_eod_in_dir_def sectors_of_def boot_sectors)
qed

lemma boot_kind: "detected_kind (scan_iso_structure (read_iso_sector_io (bk_read boot_backing) 0)) = Unknown"
proof -
  let ?s = "one_entry 21 2 (bstr ''EFI'')"
  have dl: "length dot_record = 34" by (simp add: dot_record_def)
  have n: "record_name ?s 34 = bstr ''EFI''" "record_is_dir ?s 34" "record_name ?s 0 = [0]" "record_is_dir ?s 0"
    using iso_record_fields(3,4) [OF dl, of "bstr ''EFI''" 21 2048 2] dot_record_fields(1,2) by (simp_all add: one_entry_def)
  have k: "iso_effective_name_len [0] = 1" "iso_effective_name_len (bstr ''EFI'') = 3" "dir_kind [0] = None" "dir_kind (bstr ''EFI'') = None"
    "name_matches [0] (bstr ''SOURCES'') = False" "name_matches (bstr ''EFI'') (bstr ''SOURCES'') = False" by code_simp+
  have r: "record_kind rd ?s 0 = None" "record_kind rd ?s 34 = None" for rd
    by (simp_all add: record_kind_def n k Let_def)
  have t: "sectors_of 2048 = 1" "dir_limit 2048 0 = 2048" by (simp_all add: sectors_of_def dir_limit_def)
  show ?thesis
    by (simp add: scan_iso_structure_def boot_root detected_kind_def t boot_sectors one_entry_offsets r)
qed

section \<open>The payload and the firmware\<close>

definition boot_payload :: payload_entry where
  "boot_payload = \<lparr>pe_name = name_buf (bstr ''/A.ISO''), pe_name_len = 6, pe_start_lba = 0, pe_size = 204800, pe_type = Iso\<rparr>"

lemma boot_payload_ok: "payload_ok boot_payload"
  by (simp add: payload_ok_def boot_payload_def name_buf_def path_ok_def bstr_def)

definition strict_firmware :: boot_firmware where
  "strict_firmware = \<lparr>bf_pool = (\<lambda>n. Some (replicate n 0)), bf_vbio_size = 600, bf_volume_size = 800, bf_install = True,
     bf_volume_found = True, bf_load = (\<lambda>dp src. if dp = None \<and> src \<noteq> None then 0 else EFI_INVALID_PARAMETER),
     bf_loaded = (\<lambda>_. True), bf_start = (\<lambda>_. 0)\<rparr>"

lemma strict_firmware_grants: "granted strict_firmware n" "memory_ok strict_firmware"
  by (simp_all add: granted_def strict_firmware_def memory_ok_def)

lemma boot_backing_ok: "backing_ok boot_backing"
  using disc_whole [of boot_disc] boot_disc_length by (simp add: boot_backing_def whole_sectors_def)

definition boot_image :: bytes where
  "boot_image = in_sector (bstr ''MZ'') @ replicate 1536 0"

lemma boot_image_read: "bk_read boot_backing (0 + ucast (23 :: u32) * 4) (sectors_of 2048 * 2048) = Some boot_image"
  by (simp add: boot_backing_def disc_backing_def sectors_of_def boot_disc_def small_disc_def boot_image_def replicate_add [symmetric])

lemma strict_loads:
  "bf_load strict_firmware None (Some img) = 0"
  "bf_load strict_firmware (Some dp) (Some img) = 0 \<or> is_soft_load_error (bf_load strict_firmware (Some dp) (Some img))"
  by (simp_all add: strict_firmware_def is_soft_load_error_def)

lemma boot_volume:
  "\<exists>ctx. create_iso_fs boot_backing 0 n nm uuid None 0 True = Some ctx"
proof -
  have "bk_read boot_backing 64 2048 = Some (pvd_start @ replicate 1874 0)"
    by (simp add: boot_backing_def disc_backing_def boot_disc_def small_disc_def replicate_add [symmetric])
  moreover have "length pvd_start = 174" by (simp add: pvd_start_def)
  ultimately show ?thesis by (simp add: create_iso_fs_def parse_pvd_def read_iso_sector_def pvd_start_root Let_def)
qed

end
