(* ===== verification/EfiBootTheorems.thy ===== *)
theory EfiBootTheorems
  imports EfiBootExample EfiStagesTheorems
begin

text \<open>
  The properties of the start of a payload: the chain load of an ISO does not panic, starts the boot program of the
  ISO when the firmware takes it, and leaves a disc and a volume that serve the premount archive.
\<close>

section \<open>The run of a chain load\<close>

text \<open>What a payload and a machine must be like for the chain load not to panic.\<close>

definition chain_ok :: "bytes \<Rightarrow> boot_firmware \<Rightarrow> backing \<Rightarrow> payload_entry \<Rightarrow> bool" where
  "chain_ok init_bin fw bk p \<longleftrightarrow>
     length init_bin < 2 ^ 31 \<and> memory_ok fw \<and> backing_ok bk \<and> payload_ok p \<and> pe_name_len p \<le> 128"

abbreviation iso_sector_of :: "backing \<Rightarrow> payload_entry \<Rightarrow> u32 \<Rightarrow> bytes option" where
  "iso_sector_of bk p \<equiv> read_iso_sector_io (bk_read bk) (pe_start_lba p)"

abbreviation iso_kind :: "backing \<Rightarrow> payload_entry \<Rightarrow> boot_kind" where
  "iso_kind bk p \<equiv> detected_kind (scan_iso_structure (iso_sector_of bk p))"

lemma cdrom_volume_ok:
  "create_virtual_cdrom fw lba bk n nm uuid = Some (dp, vb, volume) \<Longrightarrow> volume = Some ctx \<Longrightarrow> volume_ok ctx"
  by (auto simp: create_virtual_cdrom_def Let_def dest!: create_volume_ok split: if_splits)

lemma cdrom_disc:
  "create_virtual_cdrom fw lba bk n nm uuid = Some (dp, vb, volume) \<Longrightarrow>
     vb = new_vbio bk lba (iso_sectors_of n) \<and> dp = cdrom_node (iso_sectors_of n) @ END_NODE"
  by (auto simp: create_virtual_cdrom_def Let_def split: if_splits)

lemma chainload_run:
  assumes "chain_ok init_bin fw bk p"
    and "create_virtual_cdrom fw (pe_start_lba p) bk (pe_size p) (take (pe_name_len p) (pe_name p)) (replicate 10 0) = Some (dp, vb0, volume0)"
  obtains b vb1 volume loc vb2 where
    "premount_bundle_for fw init_bin (iso_kind bk p) (pe_start_lba p - part1) = Some b"
    "expose_premount pats (iso_sector_of bk p) b vb0
       (map_option (note_kind (scan_iso_structure (iso_sector_of bk p))) (map_option (route_volume vb0) volume0)) = (vb1, volume)"
    "from_payload_entry p g n part1 mbr = Some loc"
    "patch_grub_cfg_blockio (bk_read bk) (granted fw) (pe_start_lba p) vb1 volume (take (pe_name_len p) (pe_name p)) (Some loc) (iso_kind bk p)
       = Some vb2"
    "uefi_chainload_iso init_bin pats fw bk part1 p g n mbr = Some (start_boot_program fw bk (pe_start_lba p) (iso_kind bk p) dp vb2 volume)"
    "vbio_ok vb1" "vbio_ok vb2" "\<And>ctx. volume = Some ctx \<Longrightarrow> volume_ok ctx"
proof -
  let ?rd = "iso_sector_of bk p" and ?k = "iso_kind bk p" and ?nm = "take (pe_name_len p) (pe_name p)"
  let ?v2 = "map_option (note_kind (scan_iso_structure ?rd)) (map_option (route_volume vb0) volume0)"
  have c: "length init_bin < 2 ^ 31" "memory_ok fw" "backing_ok bk" "payload_ok p" "pe_name_len p \<le> 128"
    using assms(1) by (simp_all add: chain_ok_def)
  obtain b where b: "premount_bundle_for fw init_bin ?k (pe_start_lba p - part1) = Some b" "\<And>x. b = Some x \<Longrightarrow> bundle_ok x"
    using bundle_built [OF c(2,1)] by blast
  obtain vb1 volume where e: "expose_premount pats ?rd b vb0 ?v2 = (vb1, volume)" by (cases "expose_premount pats ?rd b vb0 ?v2")
  have v2: "volume_ok ctx" if "?v2 = Some ctx" for ctx
    using that cdrom_volume_ok [OF assms(2)] by (auto intro: note_kind_ok route_volume_ok)
  have ok0: "vbio_ok vb0" using cdrom_disc [OF assms(2)] new_vbio_ok [OF c(3)] by simp
  note ok1 = expose_ok [OF ok0 v2 b(2) e]
  obtain loc where loc: "from_payload_entry p g n part1 mbr = Some loc" "file_path_len loc = pe_name_len p" "length (file_path loc) = 256"
    "location_path loc = Some ?nm"
    by (rule payload_location [OF c(4)])
  obtain name where t: "premount_target volume = Some name"
    using ok1(2) volume_target by (cases volume) (auto simp: premount_target_def [of None])
  obtain vb2 where vb2: "patch_grub_cfg_blockio (bk_read bk) (granted fw) (pe_start_lba p) vb1 volume ?nm (Some loc) ?k = Some vb2"
    using patch_blockio_total [OF t loc(4)] loc(2,3) c(5) by fastforce
  have nm: "slice (pe_name p) 0 (min (pe_name_len p) (length (pe_name p))) = Some ?nm"
    using c(4) by (simp add: payload_ok_def slice_prefix min_absorb1)
  have "uefi_chainload_iso init_bin pats fw bk part1 p g n mbr = Some (start_boot_program fw bk (pe_start_lba p) ?k dp vb2 volume)"
    unfolding uefi_chainload_iso_def Let_def nm by (simp add: assms(2) b(1) e loc(1) vb2)
  then show ?thesis by (rule that [OF b(1) e loc(1) vb2 _ ok1(1) patched_ok [OF vb2 ok1(1)] ok1(2)])
qed

section \<open>Starting the boot program\<close>

lemma virtual_size_pos: "0 < virtual_size vb"
proof -
  define n where "n = saturating_add64 (vb_last_block vb) 1"
  have "0 < unat n"
  proof (cases "unat (vb_last_block vb) + 1 < 2 ^ 64")
    case True
    then have "unat (vb_last_block vb + 1) = unat (vb_last_block vb) + 1" by (subst unat_add_lem [THEN iffD1]) simp_all
    then show ?thesis using True by (simp add: n_def saturating_add64_def)
  qed (simp add: n_def saturating_add64_def unsigned_minus_1_eq_mask mask_eq_exp_minus_1)
  moreover have "unat (n * 2048) = unat n * 2048" if "unat n * 2048 < 2 ^ 64"
    using that by (subst unat_mult_lem [THEN iffD1]) simp_all
  ultimately show ?thesis
    unfolding virtual_size_def n_def [symmetric] Let_def by (auto simp: word_less_nat_alt unsigned_minus_1_eq_mask mask_eq_exp_minus_1)
qed

lemma first_found_name: "first_found f names = Some (a, b, name) \<Longrightarrow> name \<in> set names"
  by (induction names) (auto split: option.splits)

lemma boot_program_name: "find_efi_boot rd k = Some (a, b, name) \<Longrightarrow> length name \<le> 21"
  using boot_names_short by (auto simp: find_efi_boot_def dest!: first_found_name split: Option.bind_splits)

lemma handle_path_size: "paste (cdrom_node n @ END_NODE) 16 (to_le 8 m) = cdrom_node m @ END_NODE"
proof -
  have "replicate 12 0 = replicate 12 (0 :: u8)" ..
  have l: "cdrom_node n = ([0x04, 0x02] @ to_le 2 (24 :: u16) @ replicate 12 0) @ to_le 8 n" by (simp add: cdrom_node_def)
  have k: "length ([0x04, 0x02] @ to_le 2 (24 :: u16) @ replicate 12 (0 :: u8)) = 16" by simp
  show ?thesis unfolding l cdrom_node_def [of m] paste_def using k by simp
qed

lemma boot_image_loaded:
  assumes "bf_load fw None (Some img) = 0" "\<And>dp. bf_load fw (Some dp) (Some img) = 0 \<or> is_soft_load_error (bf_load fw (Some dp) (Some img))"
  obtains dp' where "snd (load_with_retries fw (Some dp) n img) = 0" "last (fst (load_with_retries fw (Some dp) n img)) = (dp', Some img, 0)"
proof -
  obtain dp' where f: "find (hard fw) (load_sources fw (Some dp) n img) = Some (dp', Some img)" and z: "bf_load fw dp' (Some img) = 0"
    using assms(1) assms(2) [of dp] soft_not_success by (auto simp: load_sources_def hard_def)
  have "load_sources fw (Some dp) n img \<noteq> []" by (simp add: load_sources_def)
  then have "snd (load_with_retries fw (Some dp) n img) = 0"
    unfolding load_with_retries_attempts using f z by (simp add: attempts_succeed)
  moreover have "last (fst (load_with_retries fw (Some dp) n img)) = (dp', Some img, 0)"
    unfolding load_with_retries_attempts using attempts_last [OF f] z by simp
  ultimately show thesis by (rule that)
qed

lemma boot_program_started:
  assumes "\<And>n. granted fw n" "find_efi_boot (read_iso_sector_io (bk_read bk) lba) k = Some (efi_lba, efi_size, name)"
    and "unat efi_size \<le> 2 ^ 32 - 2048" "bk_read bk (lba + ucast efi_lba * 4) (sectors_of efi_size * 2048) = Some buf"
    and "img = take (unat efi_size) buf" "bf_load fw None (Some img) = 0"
    and "\<And>dp. bf_load fw (Some dp) (Some img) = 0 \<or> is_soft_load_error (bf_load fw (Some dp) (Some img))"
  shows "\<exists>l dp. start_boot_program fw bk lba k (cdrom_node n @ END_NODE) vb volume = Launched l \<and> la_image l = Some img \<and>
      la_disc l = vb \<and> la_volume l = map_option (\<lambda>ctx. ctx\<lparr>ix_vbio := Some vb\<rparr>) volume \<and>
      la_handle_path l = cdrom_node (virtual_size vb div 2048) @ END_NODE \<and>
      la_file_path l = (if bf_loaded fw 0 then Loader_path (Some dp) else Firmware_path) \<and>
      fst (hd (la_starts l)) = (if bf_loaded fw 0 then Virtual_cdrom else Firmware_choice) \<and>
      path_nodes 3 dp = Some [(4, 2, cdrom_body (iso_sectors_of (virtual_size vb))), (4, 4, ucs2_bytes (boot_path name @ [0]))]"
proof -
  have s: "unat (word_of_nat (sectors_of efi_size * 2048) :: u32) = sectors_of efi_size * 2048"
    using assms(3) unfolding unsigned_of_nat by (simp add: take_bit_nat_eq_self sectors_of_def less_mult_imp_div_less)
  have "efi_size \<le> word_of_nat (sectors_of efi_size * 2048)"
    unfolding word_le_nat_alt s by (simp add: sectors_of_def)
  then have r: "read_extent (bk_read bk) (granted fw (sectors_of efi_size * 2048)) lba efi_lba efi_size = Some (buf, efi_size)"
    using assms(1,4) by (simp add: read_extent_def min_absorb1)
  note nm = boot_program_name [OF assms(2)]
  define dp where "dp = node 4 2 (cdrom_body (iso_sectors_of (virtual_size vb))) @ node 4 4 (ucs2_bytes (boot_path name @ [0])) @ END_NODE"
  have d: "build_iso_device_path (granted fw) (virtual_size vb) name = Some dp"
    using iso_path_nodes [OF nm virtual_size_pos] assms(1) by (simp add: dp_def Let_def)
  obtain dp' where l: "snd (load_with_retries fw (Some dp) (virtual_size vb) img) = 0"
    "last (fst (load_with_retries fw (Some dp) (virtual_size vb) img)) = (dp', Some img, 0)"
    by (rule boot_image_loaded [OF assms(6,7)])
  have st: "fst (hd (start_iso_image fw)) = (if bf_loaded fw 0 then Virtual_cdrom else Firmware_choice)"
    by (simp add: start_iso_image_def Let_def)
  have "4 + length (cdrom_body x) < 2 ^ 16" "4 + length (ucs2_bytes (boot_path name @ [0])) < 2 ^ 16" for x
    using nm by (simp_all add: cdrom_body_def ucs2_bytes_length boot_path_def)
  then have "path_nodes 3 dp = Some [(4, 2, cdrom_body (iso_sectors_of (virtual_size vb))), (4, 4, ucs2_bytes (boot_path name @ [0]))]"
    using path_nodes_node path_nodes_end by (simp add: dp_def numeral_3_eq_3 del: path_nodes.simps)
  then show ?thesis
    using l st by (auto simp: start_boot_program_def Let_def assms(2) r d assms(5) [symmetric] handle_path_size split: prod.splits)
qed

section \<open>The chain load\<close>

lemma boot_chain_ok: "chain_ok [] strict_firmware boot_backing boot_payload"
  using boot_payload_ok strict_firmware_grants(2) boot_backing_ok by (simp add: chain_ok_def boot_payload_def)

lemma boot_image_length: "take (unat (2048 :: u32)) boot_image = boot_image"
  by (simp add: boot_image_def in_sector_def)


text \<open>C5: Starting an ISO never panics: for a payload of the scan whose path has at most 128 bytes, whatever the disc holds and
  the firmware answers, the chain load ends with a message, a refusal or a started program, and the disc and volume it
  leaves are well formed, so every block a program reads of the disc is answered.\<close>

theorem chainload_never_panics:
  assumes "chain_ok init_bin fw bk p"
  shows "\<exists>r. uefi_chainload_iso init_bin pats fw bk part1 p g n mbr = Some r \<and>
    (\<forall>l. r = Launched l \<longrightarrow> vbio_ok (la_disc l) \<and> (\<forall>lba. \<exists>a. vblock_read (la_disc l) lba (replicate 2048 0) = Some a) \<and>
       (\<forall>ctx. la_volume l = Some ctx \<longrightarrow> volume_ok ctx \<and> ix_vbio ctx = Some (la_disc l)))"
proof (cases "create_virtual_cdrom fw (pe_start_lba p) bk (pe_size p) (take (pe_name_len p) (pe_name p)) (replicate 10 0)")
  case None
  have "slice (pe_name p) 0 (min (pe_name_len p) (length (pe_name p))) = Some (take (pe_name_len p) (pe_name p))"
    using assms by (simp add: chain_ok_def payload_ok_def slice_prefix min_absorb1)
  then show ?thesis using None by (simp add: uefi_chainload_iso_def Let_def)
next
  case (Some t)
  obtain dp vb0 volume0 where t: "t = (dp, vb0, volume0)" by (cases t)
  obtain vb2 volume where r: "uefi_chainload_iso init_bin pats fw bk part1 p g n mbr
      = Some (start_boot_program fw bk (pe_start_lba p) (iso_kind bk p) dp vb2 volume)"
    "vbio_ok vb2" "\<And>ctx. volume = Some ctx \<Longrightarrow> volume_ok ctx"
    using chainload_run [OF assms Some [unfolded t]] by metis
  show ?thesis unfolding r(1) using r(2,3) vblock_read_total [OF r(2)]
    by (auto simp: start_boot_program_def Let_def split: option.splits prod.splits if_splits)
qed

theorem chainload_never_panics_witness:
  "\<exists>r. uefi_chainload_iso [] [] strict_firmware boot_backing 0 boot_payload (guid_of (replicate 16 1)) 1 False = Some r"
  using chainload_never_panics [OF boot_chain_ok] by blast

lemma expose_keeps_volume: "expose_premount pats rd b vb volume = (vb', volume') \<Longrightarrow> volume' = None \<longleftrightarrow> volume = None"
  by (auto simp: expose_premount_def prepare_premount_iso_file_def Let_def split: option.splits if_splits)

lemma chainload_started:
  assumes "chain_ok init_bin fw bk p" "\<And>n. granted fw n" "bf_install fw" "0 < pe_size p"
    and "find_efi_boot (iso_sector_of bk p) (iso_kind bk p) = Some (efi_lba, efi_size, name)" "unat efi_size \<le> 2 ^ 32 - 2048"
    and "bk_read bk (pe_start_lba p + ucast efi_lba * 4) (sectors_of efi_size * 2048) = Some buf" "img = take (unat efi_size) buf"
    and "bf_load fw None (Some img) = 0" "\<And>dp. bf_load fw (Some dp) (Some img) = 0 \<or> is_soft_load_error (bf_load fw (Some dp) (Some img))"
  shows "\<exists>l dp. uefi_chainload_iso init_bin pats fw bk part1 p g n mbr = Some (Launched l) \<and> la_image l = Some img \<and>
      la_handle_path l = cdrom_node (virtual_size (la_disc l) div 2048) @ END_NODE \<and>
      la_file_path l = (if bf_loaded fw 0 then Loader_path (Some dp) else Firmware_path) \<and>
      fst (hd (la_starts l)) = (if bf_loaded fw 0 then Virtual_cdrom else Firmware_choice) \<and>
      path_nodes 3 dp = Some [(4, 2, cdrom_body (iso_sectors_of (virtual_size (la_disc l)))), (4, 4, ucs2_bytes (boot_path name @ [0]))] \<and>
      (bf_volume_found fw \<longrightarrow> create_iso_fs bk (pe_start_lba p) (pe_size p) (take (pe_name_len p) (pe_name p)) (replicate 10 0) None 0 True \<noteq> None
        \<longrightarrow> la_volume l \<noteq> None)"
proof -
  have "iso_sectors_of (pe_size p) \<noteq> 0" by (rule iso_sectors_nonzero [OF assms(4)])
  then obtain dp vb0 volume0 where t:
    "create_virtual_cdrom fw (pe_start_lba p) bk (pe_size p) (take (pe_name_len p) (pe_name p)) (replicate 10 0) = Some (dp, vb0, volume0)"
    "bf_volume_found fw \<longrightarrow> create_iso_fs bk (pe_start_lba p) (pe_size p) (take (pe_name_len p) (pe_name p)) (replicate 10 0) None 0 True \<noteq> None
      \<longrightarrow> volume0 \<noteq> None"
    using assms(2,3) by (simp add: create_virtual_cdrom_def Let_def)
  obtain b vb1 vb2 volume where e: "expose_premount pats (iso_sector_of bk p) b vb0
       (map_option (note_kind (scan_iso_structure (iso_sector_of bk p))) (map_option (route_volume vb0) volume0)) = (vb1, volume)"
    and r: "uefi_chainload_iso init_bin pats fw bk part1 p g n mbr
      = Some (start_boot_program fw bk (pe_start_lba p) (iso_kind bk p) dp vb2 volume)"
    using chainload_run [OF assms(1) t(1)] by metis
  show ?thesis unfolding r cdrom_disc [OF t(1), THEN conjunct2]
    using boot_program_started [OF assms(2,5-10), of "iso_sectors_of (pe_size p)" vb2 volume] t(2) expose_keeps_volume [OF e] by auto
qed

text \<open>C3: An ISO is started: when memory lasts, the ISO has a boot program that can be read and the firmware takes it, with the
  device path or after refusing every path softly, the image that is started was loaded from the bytes of that program.
  When the firmware then opens the LoadedImage protocol of the image, its first start sees the virtual disc as its
  device and a file path that reads back as the disc, with its size, and the name of the file; when the firmware does
  not, device and path stay as the firmware set them. The device path of the virtual disc has the size of the disc.\<close>

theorem chainload_starts_program:
  assumes "chain_ok init_bin fw bk p" "\<And>n. granted fw n" "bf_install fw" "0 < pe_size p"
    and "find_efi_boot (iso_sector_of bk p) (iso_kind bk p) = Some (efi_lba, efi_size, name)" "unat efi_size \<le> 2 ^ 32 - 2048"
    and "bk_read bk (pe_start_lba p + ucast efi_lba * 4) (sectors_of efi_size * 2048) = Some buf" "img = take (unat efi_size) buf"
    and "bf_load fw None (Some img) = 0" "\<And>dp. bf_load fw (Some dp) (Some img) = 0 \<or> is_soft_load_error (bf_load fw (Some dp) (Some img))"
  shows "\<exists>l dp. uefi_chainload_iso init_bin pats fw bk part1 p g n mbr = Some (Launched l) \<and> la_image l = Some img \<and>
      la_handle_path l = cdrom_node (virtual_size (la_disc l) div 2048) @ END_NODE \<and>
      la_file_path l = (if bf_loaded fw 0 then Loader_path (Some dp) else Firmware_path) \<and>
      fst (hd (la_starts l)) = (if bf_loaded fw 0 then Virtual_cdrom else Firmware_choice) \<and>
      path_nodes 3 dp = Some [(4, 2, cdrom_body (iso_sectors_of (virtual_size (la_disc l)))), (4, 4, ucs2_bytes (boot_path name @ [0]))]"
  using chainload_started [OF assms] by blast

theorem chainload_starts_program_witness:
  "\<exists>l dp. uefi_chainload_iso [] [] strict_firmware boot_backing 0 boot_payload (guid_of (replicate 16 1)) 1 False = Some (Launched l) \<and>
      la_image l = Some boot_image \<and> la_file_path l = Loader_path (Some dp) \<and>
      path_nodes 3 dp = Some [(4, 2, cdrom_body (iso_sectors_of (virtual_size (la_disc l)))), (4, 4, ucs2_bytes (boot_path (bstr ''GRUBX64.EFI'') @ [0]))]"
  using chainload_starts_program [OF boot_chain_ok strict_firmware_grants(1) _ _ _ _ _ _ strict_loads,
      of 23 2048 "bstr ''GRUBX64.EFI''" boot_image boot_image "[]" 0 "guid_of (replicate 16 1)" 1 False]
    boot_image_read boot_kind boot_program boot_image_length
  by (auto simp: boot_payload_def strict_firmware_def)

section \<open>The premount archive in the volume\<close>

lemma expose_offers:
  assumes "bundle_ok b" "0 < pb_alloc_size b" "get_root_dir rd = Some (root_lba, root_size)" "find_eod_in_dir rd root_lba root_size \<noteq> None"
  shows "snd (expose_premount pats rd (Some b) vb volume) = map_option (offer_premount (zero_padded b) (pb_cpio_size b)) volume"
  using assms by (auto simp: expose_premount_def prepare_premount_iso_file_def bundle_ok_def Let_def split: option.split)

text \<open>C2: The archive reaches the program: when an image was started from an ISO, the archive was built for it (memory
  was there and the ISO is not Windows PE) and the root directory of the ISO has room for one more record, then the
  volume the image finds opens PREMOUNT.CPIO, in any case and with any path before it, and what is read of it is a CPIO
  archive with the loader's /init.choosable in it. The code does not look at the directory, so every directory of the
  volume opens it, while the comment of the code speaks of the root directory.\<close>

theorem launched_volume_serves_init:
  assumes "chain_ok init_bin fw bk p" "premount_bundle_for fw init_bin (iso_kind bk p) (pe_start_lba p - part1) = Some (Some b)"
    and "get_root_dir (iso_sector_of bk p) = Some (root_lba, root_size)" "find_eod_in_dir (iso_sector_of bk p) root_lba root_size \<noteq> None"
    and "uefi_chainload_iso init_bin pats fw bk part1 p g n mbr = Some (Launched l)" "la_volume l = Some ctx"
    and "vf_is_dir dir" "length path \<le> 256" "path_component_matches path (bstr ''PREMOUNT.CPIO'')" "ix_cpio_size ctx \<le> sum_list ns"
  shows "\<exists>h outs h'. file_open ctx dir path True = Inr h \<and> read_seq ctx h ns = Inr (outs, h') \<and>
     newc_list 2 (concat outs) = Some [(bstr ''init.choosable'', 0x81ED, init_bin)]"
proof -
  let ?rd = "iso_sector_of bk p" and ?k = "iso_kind bk p" and ?nm = "take (pe_name_len p) (pe_name p)"
  have nm: "slice (pe_name p) 0 (min (pe_name_len p) (length (pe_name p))) = Some ?nm"
    using assms(1) by (simp add: chain_ok_def payload_ok_def slice_prefix min_absorb1)
  obtain dp vb0 volume0 where t: "create_virtual_cdrom fw (pe_start_lba p) bk (pe_size p) ?nm (replicate 10 0) = Some (dp, vb0, volume0)"
    using assms(5) by (auto simp: uefi_chainload_iso_def Let_def nm split: option.splits)
  let ?v2 = "map_option (note_kind (scan_iso_structure ?rd)) (map_option (route_volume vb0) volume0)"
  obtain r vb1 volume vb2 where run: "premount_bundle_for fw init_bin ?k (pe_start_lba p - part1) = Some r"
    "expose_premount pats ?rd r vb0 ?v2 = (vb1, volume)"
    "uefi_chainload_iso init_bin pats fw bk part1 p g n mbr = Some (start_boot_program fw bk (pe_start_lba p) ?k dp vb2 volume)"
    "\<And>ctx. volume = Some ctx \<Longrightarrow> volume_ok ctx"
    by (rule chainload_run [where ?part1.0 = part1 and pats = pats and g = g and n = n and mbr = mbr, OF assms(1) t]) (rule that)
  have b: "r = Some b" "bundle_ok b" "newc_list 2 (take (pb_cpio_size b) (pb_cpio b)) = Some [(bstr ''init.choosable'', 0x81ED, init_bin)]"
    using bundle_built [of fw init_bin ?k "pe_start_lba p - part1"] assms(1,2) run(1) by (auto simp: chain_ok_def)
  have pos: "0 < pb_cpio_size b" using b(3) by (cases "pb_cpio_size b") (simp_all add: numeral_2_eq_2 newc_entry_def bstr_def)
  then have v: "volume = map_option (offer_premount (zero_padded b) (pb_cpio_size b)) ?v2"
    using expose_offers [OF b(2) _ assms(3,4), of pats vb0 ?v2] run(2) b(1,2) by (simp add: bundle_ok_def)
  have la: "la_volume l = map_option (\<lambda>ctx. ctx\<lparr>ix_vbio := Some vb2\<rparr>) volume"
    using assms(5) run(3) by (auto simp: start_boot_program_def Let_def split: option.splits prod.splits if_splits)
  then obtain c where c: "ctx = (offer_premount (zero_padded b) (pb_cpio_size b) c)\<lparr>ix_vbio := Some vb2\<rparr>"
    "volume_ok (offer_premount (zero_padded b) (pb_cpio_size b) c)"
  proof -
    obtain c1 where c1: "volume = Some c1" "ctx = c1\<lparr>ix_vbio := Some vb2\<rparr>"
      using la assms(6) by (cases volume) auto
    then obtain c where "c1 = offer_premount (zero_padded b) (pb_cpio_size b) c" using v by (metis map_option_eq_Some)
    then show ?thesis using that c1 run(4) by blast
  qed
  have ok: "ctx_ok ctx" using c by (simp add: volume_ok_def ctx_ok_def)
  have f: "ix_cpio_buf ctx = Some (zero_padded b)" "ix_cpio_size ctx = pb_cpio_size b" by (simp_all add: c(1) offer_premount_def)
  obtain h outs h' where h: "file_open ctx dir path True = Inr h" "read_seq ctx h ns = Inr (outs, h')"
    "concat outs = take (sum_list ns) (take (ix_cpio_size ctx) (zero_padded b))"
    using premount_opens [OF ok assms(7) f(1) _ assms(8,9)] f(2) pos by metis
  have "concat outs = take (pb_cpio_size b) (pb_cpio b)"
    using h(3) assms(10) f(2) zero_padded_length [of b] b(2) by (simp add: bundle_ok_def min_absorb2)
  then show ?thesis using h b(3) by auto
qed

theorem launched_volume_serves_init_witness:
  "\<exists>l ctx h outs h'. uefi_chainload_iso [] [] strict_firmware boot_backing 0 boot_payload (guid_of (replicate 16 1)) 1 False = Some (Launched l) \<and>
     la_volume l = Some ctx \<and> file_open ctx example_root (map of_char ''premount.cpio;1'') True = Inr h \<and>
     read_seq ctx h [3, ix_cpio_size ctx] = Inr (outs, h') \<and> newc_list 2 (concat outs) = Some [(bstr ''init.choosable'', 0x81ED, [])]"
proof -
  obtain l where l: "uefi_chainload_iso [] [] strict_firmware boot_backing 0 boot_payload (guid_of (replicate 16 1)) 1 False = Some (Launched l)"
    "la_volume l \<noteq> None"
    using chainload_started [OF boot_chain_ok strict_firmware_grants(1) _ _ _ _ _ _ strict_loads,
        of 23 2048 "bstr ''GRUBX64.EFI''" boot_image boot_image "[]" 0 "guid_of (replicate 16 1)" 1 False]
      boot_image_read boot_kind boot_program boot_image_length boot_volume
    by (auto simp: boot_payload_def strict_firmware_def)
  then obtain ctx where ctx: "la_volume l = Some ctx" by blast
  have "vf_is_dir example_root" "length (map of_char ''premount.cpio;1'' :: ucs2) \<le> 256"
    by (simp_all add: example_root_def new_virtual_file_def)
  moreover obtain b where b: "premount_bundle_for strict_firmware [] (iso_kind boot_backing boot_payload) (pe_start_lba boot_payload - 0) = Some (Some b)"
    using bundle_built [OF strict_firmware_grants(2), of "[]" "iso_kind boot_backing boot_payload" "pe_start_lba boot_payload - 0"]
      strict_firmware_grants(1) boot_kind by (auto simp: boot_payload_def)
  ultimately show ?thesis
    using launched_volume_serves_init [OF boot_chain_ok b _ _ l(1) ctx _ _ example_match, of 20 2048 example_root
        "[3, ix_cpio_size ctx]"] boot_kind boot_root boot_eod l(1) ctx
    by (auto simp: boot_payload_def)
qed

end
