(* ===== verification/PremountMount.thy ===== *)
theory PremountMount
  imports PremountInit
begin

text \<open>
  The rest of \<open>/init.choosable\<close> (\<open>premount-init/src/main.rs\<close>): finding the partition, binding a loop device to
  the ISO in it, mounting it and preparing the tree for the distribution's own init. Linux is a record of what it
  answers; the loop devices, the mount at \<open>/cdrom\<close> and the system calls made are the state.
\<close>

section \<open>Text\<close>

definition is_space :: "u8 \<Rightarrow> bool" where
  "is_space c \<longleftrightarrow> c = 32 \<or> (9 \<le> c \<and> c \<le> 13)"

function split_ws :: "bytes \<Rightarrow> bytes list" where
  "split_ws buf =
     (let rest = dropWhile is_space buf
      in if rest = [] then []
         else takeWhile (\<lambda>c. \<not> is_space c) rest # split_ws (dropWhile (\<lambda>c. \<not> is_space c) rest))"
  by pat_completeness auto

termination
proof (relation "measure length")
  fix buf :: bytes and rest
  assume r: "rest = dropWhile is_space buf" "rest \<noteq> []"
  then obtain c cs where c: "rest = c # cs" "\<not> is_space c" by (metis hd_dropWhile list.exhaust_sel)
  have "length (dropWhile (\<lambda>c. \<not> is_space c) rest) \<le> length cs" using c by (simp add: length_dropWhile_le)
  also have "\<dots> < length rest" using c by simp
  also have "\<dots> \<le> length buf" using r(1) by (simp add: length_dropWhile_le)
  finally show "(dropWhile (\<lambda>c. \<not> is_space c) rest, buf) \<in> measure length" by simp
qed simp

declare split_ws.simps [simp del]

text \<open>\<open>str::lines\<close>: without the line end and a carriage return before it.\<close>

fun raw_lines :: "bytes \<Rightarrow> bytes \<Rightarrow> bytes list" where
  "raw_lines line [] = (if line = [] then [] else [line])"
| "raw_lines line (c # cs) =
     (if c = 10 then (if line \<noteq> [] \<and> last line = 13 then butlast line else line) # raw_lines [] cs
      else raw_lines (line @ [c]) cs)"

definition text_lines :: "bytes \<Rightarrow> bytes list" where
  "text_lines text = raw_lines [] text"

definition starts :: "bytes \<Rightarrow> string \<Rightarrow> bool" where
  "starts s p \<longleftrightarrow> take (length p) s = bstr p"

definition trim :: "bytes \<Rightarrow> bytes" where
  "trim s = rev (dropWhile is_space (rev (dropWhile is_space s)))"

fun split_once :: "bytes \<Rightarrow> bytes \<Rightarrow> (bytes \<times> bytes) option" where
  "split_once p [] = None"
| "split_once p (c # cs) =
     (if take (length p) (c # cs) = p then Some ([], drop (length p) (c # cs))
      else map_option (\<lambda>(a, b). (c # a, b)) (split_once p cs))"

section \<open>Linux\<close>

text \<open>A link of \<open>/dev/disk/by-partuuid\<close>: not there or dangling, not a link, or the path it holds.\<close>

datatype part_link = Absent | Not_link | Target bytes

record sys_part =
  sp_name :: bytes
  sp_uuid :: "bytes option"

record blk_dev =
  bk_name :: bytes
  bk_parts :: "sys_part list option"
  bk_removable :: "bytes option"

text \<open>The devices at one moment: the links, \<open>/sys/block\<close> and the nodes in \<open>/dev\<close>.\<close>

record devices =
  dv_link :: "bytes \<Rightarrow> part_link"
  dv_blocks :: "blk_dev list option"
  dv_exists :: "bytes \<Rightarrow> bool"

text \<open>What an ISO shows at \<open>/cdrom\<close>: its directories, the paths that exist and the names in the root.\<close>

record iso_tree =
  it_dir :: "bytes \<Rightarrow> bool"
  it_exists :: "bytes \<Rightarrow> bool"
  it_names :: "bytes list option"

text \<open>
  The answers of the kernel: \<open>lx_at n\<close> are the devices at the n-th attempt, \<open>lx_iso dev offset size\<close> is the file
  system that mounts from a loop device with these parameters, \<open>lx_mountinfo i\<close> the text of
  \<open>/proc/self/mountinfo\<close> while loop device i is mounted.
\<close>

record linux =
  lx_cmdline :: "bytes option"
  lx_at :: "nat \<Rightarrow> devices"
  lx_partitions :: "bytes option"
  lx_opens :: "bytes \<Rightarrow> bool"
  lx_loop_opens :: "nat \<Rightarrow> bool"
  lx_status :: "nat \<Rightarrow> bool"
  lx_iso :: "bytes \<Rightarrow> u64 \<Rightarrow> u64 \<Rightarrow> iso_tree option"
  lx_mountinfo :: "nat \<Rightarrow> bytes option"

datatype syscall =
    Mkdir bytes
  | Mknod bytes nat nat
  | Mount bytes bytes bytes nat
  | Umount bytes
  | Unlink bytes
  | Link bytes bytes
  | Sleep nat

text \<open>The eight loop devices: the device, offset and size limit each is bound to; the mounted one with its tree.\<close>

record init_state =
  in_loops :: "(bytes \<times> u64 \<times> u64) option list"
  in_cdrom :: "(nat \<times> iso_tree) option"
  in_calls :: "syscall list"

definition call :: "syscall \<Rightarrow> init_state \<Rightarrow> init_state" where
  "call c st = st\<lparr>in_calls := in_calls st @ [c]\<rparr>"

definition calls :: "syscall list \<Rightarrow> init_state \<Rightarrow> init_state" where
  "calls cs st = fold call cs st"

definition MS_RDONLY :: nat where "MS_RDONLY = 1"
definition MS_BIND :: nat where "MS_BIND = 0x1000"

definition loop_name :: "nat \<Rightarrow> bytes" where
  "loop_name i = bstr ''/dev/loop'' @ format_u64 (word_of_nat i)"

section \<open>Finding the partition\<close>

definition by_partuuid :: "devices \<Rightarrow> bytes \<Rightarrow> bytes option" where
  "by_partuuid dv guid =
     (let by_partuuid = bstr ''/dev/disk/by-partuuid/'' @ guid
      in case dv_link dv by_partuuid of
           Target target \<Rightarrow> Some (if starts target ''/'' then target else bstr ''/dev/disk/by-partuuid/'' @ target)
         | Not_link \<Rightarrow> Some by_partuuid
         | Absent \<Rightarrow>
             let guid_upper = map to_ascii_uppercase guid
             in case dv_blocks dv of
                  None \<Rightarrow> None
                | Some blocks \<Rightarrow>
                    (case find (\<lambda>p. case sp_uuid p of None \<Rightarrow> False | Some u \<Rightarrow> map to_ascii_uppercase (trim u) = guid_upper)
                        (concat (map (\<lambda>b. case bk_parts b of None \<Rightarrow> [] | Some ps \<Rightarrow> ps) blocks)) of
                       None \<Rightarrow> None
                     | Some p \<Rightarrow> Some (bstr ''/dev/'' @ sp_name p)))"

definition skipped :: "bytes \<Rightarrow> bool" where
  "skipped name \<longleftrightarrow> starts name ''loop'' \<or> starts name ''ram'' \<or> starts name ''dm'' \<or> starts name ''sr''"

definition partition_path :: "bytes \<Rightarrow> u32 \<Rightarrow> bytes" where
  "partition_path disk n =
     bstr ''/dev/'' @ disk @ (if disk \<noteq> [] \<and> is_digit (last disk) then bstr ''p'' else []) @ format_u64 (ucast n)"

definition is_removable :: "blk_dev \<Rightarrow> bool" where
  "is_removable b \<longleftrightarrow> (case bk_removable b of None \<Rightarrow> False | Some s \<Rightarrow> trim s = bstr ''1'')"

fun partnum_loop :: "devices \<Rightarrow> u32 \<Rightarrow> blk_dev list \<Rightarrow> bytes option \<Rightarrow> bytes option" where
  "partnum_loop dv n [] fallback = fallback"
| "partnum_loop dv n (b # bs) fallback =
     (let dev_path = partition_path (bk_name b) n
      in if skipped (bk_name b) then partnum_loop dv n bs fallback
         else if \<not> dv_exists dv dev_path then partnum_loop dv n bs fallback
         else if is_removable b then Some dev_path
         else partnum_loop dv n bs (case fallback of None \<Rightarrow> Some dev_path | Some f \<Rightarrow> Some f))"

definition by_partnum :: "devices \<Rightarrow> u32 \<Rightarrow> bytes option" where
  "by_partnum dv n = (case dv_blocks dv of None \<Rightarrow> None | Some blocks \<Rightarrow> partnum_loop dv n blocks None)"

definition find_target :: "devices \<Rightarrow> cmdline_params \<Rightarrow> bytes option" where
  "find_target dv p =
     (case Option.bind (cp_part_guid p) (by_partuuid dv) of
        Some dev \<Rightarrow> Some dev
      | None \<Rightarrow> Option.bind (cp_part_num p) (by_partnum dv))"

text \<open>Three attempts; \<open>n\<close> is the one made next.\<close>

function wait_target :: "linux \<Rightarrow> cmdline_params \<Rightarrow> nat \<Rightarrow> init_state \<Rightarrow> bytes option \<times> init_state" where
  "wait_target lx p n st =
     (if n \<ge> 3 then (None, st)
      else case find_target (lx_at lx n) p of
             Some dev \<Rightarrow> (Some dev, st)
           | None \<Rightarrow> wait_target lx p (n + 1) (call (Sleep (if n = 0 then 3 else 2)) st))"
  by pat_completeness auto

termination by (relation "measure (\<lambda>(lx, p, n, st). 3 - n)") auto

declare wait_target.simps [simp del]

section \<open>Binding and mounting\<close>

text \<open>The first loop device that opens and is not bound.\<close>

definition free_loop :: "linux \<Rightarrow> init_state \<Rightarrow> nat option" where
  "free_loop lx st = find (\<lambda>i. lx_loop_opens lx i \<and> in_loops st ! i = None) [0..<8]"

definition bind_loop :: "nat \<Rightarrow> (bytes \<times> u64 \<times> u64) option \<Rightarrow> init_state \<Rightarrow> init_state" where
  "bind_loop i b st = st\<lparr>in_loops := (in_loops st)[i := b]\<rparr>"

definition try_mount_iso :: "linux \<Rightarrow> bytes \<Rightarrow> u64 \<Rightarrow> u64 \<Rightarrow> init_state \<Rightarrow> nat option \<times> init_state" where
  "try_mount_iso lx dev_path offset sizelimit st =
     (if \<not> lx_opens lx dev_path then (None, st)
      else case free_loop lx st of
        None \<Rightarrow> (None, st)
      | Some i \<Rightarrow>
          let st1 = bind_loop i (Some (dev_path, 0, 0)) st
          in if (offset > 0 \<or> sizelimit > 0) \<and> \<not> lx_status lx i then (None, bind_loop i None st1)
             else
               let st2 = (if offset > 0 \<or> sizelimit > 0 then bind_loop i (Some (dev_path, offset, sizelimit)) st1 else st1);
                   st3 = call (Mount (loop_name i) (bstr ''/cdrom'') (bstr ''iso9660'') MS_RDONLY) st2
               in case lx_iso lx dev_path offset sizelimit of
                    None \<Rightarrow> (None, bind_loop i None st3)
                  | Some tree \<Rightarrow> (Some i, st3\<lparr>in_cdrom := Some (i, tree)\<rparr>))"

definition release :: "linux \<Rightarrow> nat \<Rightarrow> init_state \<Rightarrow> init_state" where
  "release lx i st =
     (let st1 = (call (Umount (bstr ''/cdrom'')) st)\<lparr>in_cdrom := None\<rparr>
      in if lx_loop_opens lx i then bind_loop i None st1 else st1)"

section \<open>The distribution\<close>

definition mountinfo_source :: "bytes \<Rightarrow> bytes option" where
  "mountinfo_source line =
     (case split_once (bstr '' - '') line of
        None \<Rightarrow> None
      | Some (mount_fields, fs_fields) \<Rightarrow>
          let fields = split_ws mount_fields; fs_parts = split_ws fs_fields
          in if length fields \<le> 4 \<or> fields ! 4 \<noteq> bstr ''/cdrom'' then None
             else if length fs_parts \<le> 1 then None
             else if starts (fs_parts ! 1) ''/dev/loop'' then Some (fs_parts ! 1) else None)"

fun first_source :: "bytes list \<Rightarrow> bytes option" where
  "first_source [] = None"
| "first_source (l # ls) = (case mountinfo_source l of Some s \<Rightarrow> Some s | None \<Rightarrow> first_source ls)"

definition mounted_loop_device :: "linux \<Rightarrow> init_state \<Rightarrow> bytes option" where
  "mounted_loop_device lx st =
     do { (i, _) \<leftarrow> in_cdrom st; mounts \<leftarrow> lx_mountinfo lx i; first_source (text_lines mounts) }"

definition has_casper_tree :: "iso_tree \<Rightarrow> bool" where
  "has_casper_tree t \<longleftrightarrow> it_dir t (bstr ''casper'') \<or>
     (case it_names t of None \<Rightarrow> False | Some ns \<Rightarrow> list_ex (\<lambda>n. starts (map to_ascii_lowercase n) ''casper'') ns)"

definition bind_calls :: "iso_tree \<Rightarrow> syscall list" where
  "bind_calls t =
     (let cdrom = bstr ''/cdrom''; bind = (\<lambda>tgt. Mount cdrom (bstr tgt) [] MS_BIND)
      in if has_casper_tree t then [Mkdir (bstr ''/isodevice''), bind ''/isodevice'']
         else if it_dir t (bstr ''live'') then [Mkdir (bstr ''/isodevice''), bind ''/isodevice'']
         else if it_dir t (bstr ''LiveOS'') then []
         else if it_dir t (bstr ''arch'') then
           [Mkdir (bstr ''/run/archiso''), Mkdir (bstr ''/run/archiso/bootmnt''), bind ''/run/archiso/bootmnt'']
         else if it_exists t (bstr ''.alpine-release'') \<or> it_dir t (bstr ''apks'') then
           [Mkdir (bstr ''/media''), Mkdir (bstr ''/media/cdrom''), bind ''/media/cdrom'']
         else [])"

definition link_calls :: "bytes option \<Rightarrow> syscall list" where
  "link_calls source =
     (case source of None \<Rightarrow> []
      | Some loop_path \<Rightarrow> [Unlink (bstr ''/dev/choosable-live''), Link loop_path (bstr ''/dev/choosable-live'')])"

definition check_distro :: "linux \<Rightarrow> init_state \<Rightarrow> bool \<times> init_state" where
  "check_distro lx st =
     (let st1 = calls (link_calls (mounted_loop_device lx st)) st
      in case in_cdrom st of
           None \<Rightarrow> (True, st1)
         | Some (_, tree) \<Rightarrow> (True, calls (bind_calls tree) st1))"

section \<open>All partitions\<close>

text \<open>The loop over the lines; whether init was started, which ends the program.\<close>

fun scan_lines_of :: "linux \<Rightarrow> u64 \<Rightarrow> u64 \<Rightarrow> bytes list \<Rightarrow> init_state \<Rightarrow> bool \<times> init_state" where
  "scan_lines_of lx offset sizelimit [] st = (False, st)"
| "scan_lines_of lx offset sizelimit (line # lines) st =
     (let cols = split_ws line
      in if length cols < 4 then scan_lines_of lx offset sizelimit lines st
         else if skipped (cols ! 3) then scan_lines_of lx offset sizelimit lines st
         else case try_mount_iso lx (bstr ''/dev/'' @ cols ! 3) offset sizelimit st of
           (None, st1) \<Rightarrow> scan_lines_of lx offset sizelimit lines st1
         | (Some i, st1) \<Rightarrow>
             (case check_distro lx st1 of
                (True, st2) \<Rightarrow> (True, st2)
              | (False, st2) \<Rightarrow> scan_lines_of lx offset sizelimit lines (release lx i st2)))"

definition scan_all :: "linux \<Rightarrow> u64 \<Rightarrow> u64 \<Rightarrow> init_state \<Rightarrow> bool \<times> init_state" where
  "scan_all lx offset sizelimit st =
     (case lx_partitions lx of
        None \<Rightarrow> (False, st)
      | Some text \<Rightarrow> scan_lines_of lx offset sizelimit (drop 2 (text_lines text)) st)"

section \<open>The program\<close>

definition setup_calls :: "syscall list" where
  "setup_calls =
     (let mk = (\<lambda>p. Mkdir (bstr p)); mt = (\<lambda>s t. Mount (bstr s) (bstr t) (bstr s) 0)
      in [mk ''/proc'', mt ''proc'' ''/proc'', mk ''/sys'', mt ''sysfs'' ''/sys'', mk ''/dev'', mt ''devtmpfs'' ''/dev'',
          mk ''/tmp'', mk ''/cdrom'', mk ''/run'', mt ''tmpfs'' ''/run'']
         @ map (\<lambda>i. Mknod (loop_name i) 7 i) [0..<8])"

text \<open>Every way through \<open>main\<close> ends with the start of \<open>/init\<close>; the result is the state it starts in.\<close>

definition init_main :: "linux \<Rightarrow> init_state \<Rightarrow> init_state" where
  "init_main lx st0 =
     (let st1 = calls setup_calls st0;
          params = parse_cmdline (lx_cmdline lx);
          offset = (case cp_iso_offset params of None \<Rightarrow> 0 | Some v \<Rightarrow> v);
          sizelimit = (case cp_iso_size params of None \<Rightarrow> 0 | Some v \<Rightarrow> v)
      in case wait_target lx params 0 st1 of
           (None, st2) \<Rightarrow> snd (scan_all lx offset sizelimit st2)
         | (Some dev, st2) \<Rightarrow>
             (case try_mount_iso lx dev offset sizelimit st2 of
                (None, st3) \<Rightarrow> snd (scan_all lx offset sizelimit st3)
              | (Some i, st3) \<Rightarrow>
                  (case check_distro lx st3 of
                     (True, st4) \<Rightarrow> st4
                   | (False, st4) \<Rightarrow> snd (scan_all lx offset sizelimit (release lx i st4)))))"

end
