(* ===== verification/PremountTheorems.thy ===== *)
theory PremountTheorems
  imports PremountMount
begin

text \<open>
  What \<open>/init.choosable\<close> leaves behind: the calls it makes, the loop devices it keeps, and that the location the
  loader wrote on the command line is the ISO that is mounted when \<open>/init\<close> starts.
\<close>

section \<open>Calls\<close>

lemma call_fields [simp]:
  "in_loops (call c st) = in_loops st" "in_cdrom (call c st) = in_cdrom st" "in_calls (call c st) = in_calls st @ [c]"
  by (simp_all add: call_def)

lemma calls_fields [simp]:
  "in_loops (calls cs st) = in_loops st" "in_cdrom (calls cs st) = in_cdrom st" "in_calls (calls cs st) = in_calls st @ cs"
  unfolding calls_def by (induction cs arbitrary: st) simp_all

lemma bind_loop_fields [simp]:
  "in_loops (bind_loop i b st) = (in_loops st)[i := b]" "in_cdrom (bind_loop i b st) = in_cdrom st"
  "in_calls (bind_loop i b st) = in_calls st"
  by (simp_all add: bind_loop_def)

lemma free_loop_calls [simp]: "free_loop lx (call c st) = free_loop lx st" "free_loop lx (calls cs st) = free_loop lx st"
  by (simp_all add: free_loop_def)

lemma free_loop_Some: "free_loop lx st = Some i \<Longrightarrow> i < 8 \<and> lx_loop_opens lx i \<and> in_loops st ! i = None"
  by (auto simp: free_loop_def find_Some_iff)

section \<open>Mounting\<close>

text \<open>What a failed attempt leaves, and what a successful one adds.\<close>

definition untouched :: "init_state \<Rightarrow> init_state \<Rightarrow> bool" where
  "untouched st st' \<longleftrightarrow> in_cdrom st' = in_cdrom st \<and> in_loops st' = in_loops st"

definition mounted_from :: "linux \<Rightarrow> u64 \<Rightarrow> u64 \<Rightarrow> init_state \<Rightarrow> bytes \<Rightarrow> nat \<Rightarrow> iso_tree \<Rightarrow> init_state \<Rightarrow> bool" where
  "mounted_from lx offset sizelimit st dev i tree st' \<longleftrightarrow>
     i < 8 \<and> lx_opens lx dev \<and> lx_loop_opens lx i \<and> in_loops st ! i = None \<and> lx_iso lx dev offset sizelimit = Some tree
     \<and> in_cdrom st' = Some (i, tree) \<and> in_loops st' = (in_loops st)[i := Some (dev, offset, sizelimit)]"

lemma untouched_trans: "untouched a b \<Longrightarrow> untouched b c \<Longrightarrow> untouched a c" by (simp add: untouched_def)

lemma untouched_mounted:
  "untouched a b \<Longrightarrow> mounted_from lx off sz b dev i tree c \<Longrightarrow> mounted_from lx off sz a dev i tree c"
  by (simp add: untouched_def mounted_from_def)

lemma try_mount_outcome:
  "case try_mount_iso lx dev off sz st of
     (None, st') \<Rightarrow> untouched st st'
   | (Some i, st') \<Rightarrow> \<exists>tree. mounted_from lx off sz st dev i tree st'"
proof (cases "lx_opens lx dev")
  case False
  then show ?thesis by (simp add: try_mount_iso_def untouched_def)
next
  case opens: True
  show ?thesis
  proof (cases "free_loop lx st")
    case None
    with opens show ?thesis by (simp add: try_mount_iso_def untouched_def)
  next
    case (Some i)
    have u: "(in_loops st)[i := None] = in_loops st" using free_loop_Some [OF Some] by (metis list_update_id)
    show ?thesis using opens Some free_loop_Some [OF Some] u
      by (cases "lx_iso lx dev off sz")
        (auto simp: try_mount_iso_def Let_def untouched_def mounted_from_def word_gt_0 split: if_splits)
  qed
qed

lemma try_mount_opens:
  assumes "lx_opens lx dev" and "free_loop lx st = Some i" and "off = 0 \<and> sz = 0 \<or> lx_status lx i"
    and "lx_iso lx dev off sz = Some tree"
  shows "\<exists>st'. try_mount_iso lx dev off sz st = (Some i, st') \<and> mounted_from lx off sz st dev i tree st'
    \<and> in_calls st' = in_calls st @ [Mount (loop_name i) (bstr ''/cdrom'') (bstr ''iso9660'') MS_RDONLY]"
  using assms free_loop_Some [OF assms(2)]
  by (auto simp: try_mount_iso_def Let_def mounted_from_def word_gt_0)

lemma check_distro_keeps:
  "fst (check_distro lx st)" "in_loops (snd (check_distro lx st)) = in_loops st"
  "in_cdrom (snd (check_distro lx st)) = in_cdrom st"
  by (auto simp: check_distro_def Let_def split: option.splits)

text \<open>The state in which \<open>/init\<close> may start.\<close>

definition init_left :: "linux \<Rightarrow> u64 \<Rightarrow> u64 \<Rightarrow> init_state \<Rightarrow> init_state \<Rightarrow> bool" where
  "init_left lx offset sizelimit st st' \<longleftrightarrow>
     untouched st st' \<or> (\<exists>dev i tree. mounted_from lx offset sizelimit st dev i tree st')"

lemma init_left_after: "untouched a b \<Longrightarrow> init_left lx off sz b c \<Longrightarrow> init_left lx off sz a c"
  unfolding init_left_def by (meson untouched_trans untouched_mounted)

lemma mounted_check: "mounted_from lx off sz a dev i tree b \<Longrightarrow> mounted_from lx off sz a dev i tree (snd (check_distro lx b))"
  by (simp add: mounted_from_def check_distro_keeps)

lemma scan_lines_left: "init_left lx off sz st (snd (scan_lines_of lx off sz lines st))"
proof (induction lines arbitrary: st)
  case Nil
  then show ?case by (simp add: init_left_def untouched_def)
next
  case (Cons line lines)
  define dev where "dev = bstr ''/dev/'' @ split_ws line ! 3"
  obtain r st1 where t: "try_mount_iso lx dev off sz st = (r, st1)" by fastforce
  note o = try_mount_outcome [where lx = lx and dev = dev and off = off and sz = sz and st = st, unfolded t]
  show ?case
  proof (cases "length (split_ws line) < 4 \<or> skipped (split_ws line ! 3)")
    case True
    then show ?thesis using Cons.IH by (auto simp: Let_def)
  next
    case False
    show ?thesis
    proof (cases r)
      case None
      then show ?thesis using False t o init_left_after [OF _ Cons.IH, of st st1]
        by (simp add: Let_def dev_def split del: if_split)
    next
      case (Some i)
      obtain st2 where c: "check_distro lx st1 = (True, st2)" using check_distro_keeps(1) [of lx st1]
        by (cases "check_distro lx st1") auto
      have "\<exists>tree. mounted_from lx off sz st dev i tree st2"
        using o Some mounted_check [where b = st1] c by fastforce
      then show ?thesis using False t Some c by (auto simp: Let_def dev_def init_left_def)
    qed
  qed
qed

lemma scan_all_left: "init_left lx off sz st (snd (scan_all lx off sz st))"
  by (auto simp: scan_all_def scan_lines_left split: option.splits) (simp add: init_left_def untouched_def)

lemma wait_target_keeps: "untouched st (snd (wait_target lx p n st))"
proof (induction lx p n st rule: wait_target.induct)
  case (1 lx p n st)
  show ?case
  proof (cases "n \<ge> 3 \<or> find_target (lx_at lx n) p \<noteq> None")
    case True
    then show ?thesis by (subst wait_target.simps) (auto simp: untouched_def)
  next
    case False
    then show ?thesis using 1 by (subst wait_target.simps) (auto simp: untouched_def)
  qed
qed

definition offset_of :: "cmdline_params \<Rightarrow> u64" where
  "offset_of p = (case cp_iso_offset p of None \<Rightarrow> 0 | Some v \<Rightarrow> v)"

definition size_of :: "cmdline_params \<Rightarrow> u64" where
  "size_of p = (case cp_iso_size p of None \<Rightarrow> 0 | Some v \<Rightarrow> v)"

lemma init_main_left:
  "init_left lx (offset_of (parse_cmdline (lx_cmdline lx))) (size_of (parse_cmdline (lx_cmdline lx))) st (init_main lx st)"
proof -
  define p where "p = parse_cmdline (lx_cmdline lx)"
  obtain r st2 where w: "wait_target lx p 0 (calls setup_calls st) = (r, st2)" by fastforce
  have u: "untouched st st2" using wait_target_keeps [of "calls setup_calls st" lx p 0] by (simp add: w untouched_def)
  have "init_left lx (offset_of p) (size_of p) st2 (init_main lx st)"
  proof (cases r)
    case None
    then show ?thesis using w scan_all_left by (simp add: init_main_def Let_def p_def offset_of_def size_of_def)
  next
    case (Some dev)
    obtain l st3 where t: "try_mount_iso lx dev (offset_of p) (size_of p) st2 = (l, st3)" by fastforce
    note o = try_mount_outcome [where lx = lx and dev = dev and off = "offset_of p" and sz = "size_of p" and st = st2, unfolded t]
    show ?thesis
    proof (cases l)
      case None
      then show ?thesis using w t o Some init_left_after [OF _ scan_all_left]
        by (simp add: init_main_def Let_def p_def offset_of_def size_of_def)
    next
      case (Some i)
      obtain st4 where c: "check_distro lx st3 = (True, st4)" using check_distro_keeps(1) [of lx st3]
        by (cases "check_distro lx st3") auto
      have "init_main lx st = st4" using w t c Some \<open>r = Some dev\<close>
        by (simp add: init_main_def Let_def p_def offset_of_def size_of_def)
      moreover have "\<exists>tree. mounted_from lx (offset_of p) (size_of p) st2 dev i tree st4"
        using o Some mounted_check [where b = st3] c by fastforce
      ultimately show ?thesis by (auto simp: init_left_def)
    qed
  qed
  then show ?thesis using init_left_after [OF u] by (simp add: p_def)
qed


section \<open>The payload is mounted\<close>

text \<open>The first removable disk that has the partition, or the first disk that has it.\<close>

definition has_partition :: "devices \<Rightarrow> u32 \<Rightarrow> blk_dev \<Rightarrow> bool" where
  "has_partition dv n b \<longleftrightarrow> \<not> skipped (bk_name b) \<and> dv_exists dv (partition_path (bk_name b) n)"

lemma partnum_loop_spec:
  "partnum_loop dv n bs fb =
     (case find (\<lambda>b. has_partition dv n b \<and> is_removable b) bs of
        Some b \<Rightarrow> Some (partition_path (bk_name b) n)
      | None \<Rightarrow> (case fb of Some f \<Rightarrow> Some f
                 | None \<Rightarrow> map_option (\<lambda>b. partition_path (bk_name b) n) (find (has_partition dv n) bs)))"
  by (induction bs arbitrary: fb) (auto simp: has_partition_def Let_def split: option.splits)

lemma wait_target_found:
  assumes "n < 3" and "m \<le> n" and "\<forall>j<n. find_target (lx_at lx j) p = None" and "find_target (lx_at lx n) p = Some dev"
  shows "wait_target lx p m st = (Some dev, calls (map Sleep (drop m (take n [3, 2, 2]))) st)"
  using assms(2)
proof (induction "n - m" arbitrary: m st)
  case 0
  then have "m = n" by simp
  then show ?case using assms(1,4) by (subst wait_target.simps) (simp add: calls_def)
next
  case (Suc d)
  then have m: "m < n" "m < 3" using assms(1) by simp_all
  have e: "wait_target lx p m st = wait_target lx p (m + 1) (call (Sleep (if m = 0 then 3 else 2)) st)"
    using m assms(3) by (subst wait_target.simps) simp
  have d: "drop m (take n [3, 2, 2 :: nat]) = (if m = 0 then 3 else 2) # drop (m + 1) (take n [3, 2, 2])"
  proof -
    have "(n = 1 \<or> n = 2) \<and> (m = 0 \<or> m = 1)" using m assms(1) by arith
    then show ?thesis using m by auto
  qed
  have "wait_target lx p (m + 1) (call (Sleep (if m = 0 then 3 else 2)) st) =
    (Some dev, calls (map Sleep (drop (m + 1) (take n [3, 2, 2]))) (call (Sleep (if m = 0 then 3 else 2)) st))"
    by (rule Suc.hyps(1)) (use Suc.hyps(2) m in auto)
  then show ?case unfolding e d by (simp add: calls_def)
qed

definition sleeps :: "nat \<Rightarrow> syscall list" where
  "sleeps n = map Sleep (take n [3, 2, 2])"

lemma init_main_found:
  assumes p: "p = parse_cmdline (lx_cmdline lx)" and w: "wait_target lx p 0 (calls setup_calls st) = (Some dev, calls cs (calls setup_calls st))"
    and "lx_opens lx dev" and "free_loop lx st = Some i" and "lx_status lx i" and "lx_iso lx dev (offset_of p) (size_of p) = Some tree"
  shows "in_cdrom (init_main lx st) = Some (i, tree)
    \<and> in_loops (init_main lx st) = (in_loops st)[i := Some (dev, offset_of p, size_of p)]
    \<and> in_calls (init_main lx st) = in_calls st @ setup_calls @ cs
        @ [Mount (loop_name i) (bstr ''/cdrom'') (bstr ''iso9660'') MS_RDONLY]
        @ link_calls (Option.bind (lx_mountinfo lx i) (\<lambda>t. first_source (text_lines t))) @ bind_calls tree"
proof -
  define st2 where "st2 = calls cs (calls setup_calls st)"
  have f: "free_loop lx st2 = Some i" using assms(4) by (simp add: st2_def)
  obtain st3 where t: "try_mount_iso lx dev (offset_of p) (size_of p) st2 = (Some i, st3)"
      "mounted_from lx (offset_of p) (size_of p) st2 dev i tree st3"
      "in_calls st3 = in_calls st2 @ [Mount (loop_name i) (bstr ''/cdrom'') (bstr ''iso9660'') MS_RDONLY]"
    using try_mount_opens [OF assms(3) f _ assms(6)] assms(5) by blast
  obtain st4 where c: "check_distro lx st3 = (True, st4)" using check_distro_keeps(1) [of lx st3]
    by (cases "check_distro lx st3") auto
  have m: "init_main lx st = st4" using w t(1) c
    by (simp add: init_main_def Let_def p [symmetric] offset_of_def [symmetric] size_of_def [symmetric] st2_def)
  have x: "in_cdrom st3 = Some (i, tree)" "in_loops st3 = (in_loops st)[i := Some (dev, offset_of p, size_of p)]"
    using t(2) by (simp_all add: mounted_from_def st2_def)
  have l: "mounted_loop_device lx st3 = Option.bind (lx_mountinfo lx i) (\<lambda>t. first_source (text_lines t))"
    by (simp add: mounted_loop_device_def x(1))
  have "st4 = calls (bind_calls tree) (calls (link_calls (mounted_loop_device lx st3)) st3)"
    using c x(1) by (simp add: check_distro_def Let_def)
  then show ?thesis using m x t(3) l by (simp add: st2_def)
qed

lemma location_numbers:
  assumes "unat (offset_bytes loc) \<le> MAX_OFFSET"
  shows "offset_of (location_params loc path) = offset_bytes loc" "size_of (location_params loc path) = il_file_size loc"
  using assms by (auto simp: offset_of_def size_of_def location_params_def word_gt_0)

text \<open>
  The device a symbolic link leads to: an absolute target is a path, a relative one is a path from the directory of
  the link, which is what stands before the last slash of its name. The kernel resolves what comes of it.
\<close>

definition dir_part :: "bytes \<Rightarrow> bytes" where
  "dir_part p = rev (dropWhile (\<lambda>c. c \<noteq> 0x2F) (rev p))"

definition link_leads :: "bytes \<Rightarrow> bytes \<Rightarrow> bytes" where
  "link_leads link target = (if target \<noteq> [] \<and> hd target = 0x2F then target else dir_part link @ target)"

lemma dir_part_name: "0x2F \<notin> set nm \<Longrightarrow> dir_part (dir @ 0x2F # nm) = dir @ [0x2F]"
  by (auto simp: dir_part_def dropWhile_append)

lemma uuid_link_dir: "dir_part (bstr ''/dev/disk/by-partuuid/'' @ partuuid_text loc) = bstr ''/dev/disk/by-partuuid/''"
proof -
  have "0x2F \<notin> set (partuuid_text loc)" using partuuid_chars [of loc] by (auto simp: list_all_iff uuid_char_def)
  from dir_part_name [OF this, of "bstr ''/dev/disk/by-partuuid''"] show ?thesis by (simp add: bstr_def)
qed

lemma location_target:
  assumes "dv_link dv (bstr ''/dev/disk/by-partuuid/'' @ partuuid_text loc) = Target target"
  shows "find_target dv (location_params loc path) = Some (link_leads (bstr ''/dev/disk/by-partuuid/'' @ partuuid_text loc) target)"
proof -
  have "starts target ''/'' \<longleftrightarrow> target \<noteq> [] \<and> hd target = 0x2F" by (cases target) (simp_all add: starts_def bstr_def)
  then show ?thesis using assms by (simp add: find_target_def location_params_def by_partuuid_def Let_def link_leads_def uuid_link_dir)
qed

text \<open>C20: \<open>/init.choosable\<close> never loses a loop device. Whatever Linux answers and however many partitions it tries,
  when \<open>/init\<close> starts either nothing is mounted at \<open>/cdrom\<close> and the loop devices are bound as they were, or
  exactly one device that was free is bound, at the offset and size of the command line, and its ISO is the
  one at \<open>/cdrom\<close>.\<close>

theorem init_leaves_one_loop:
  "in_cdrom (init_main lx st) = in_cdrom st \<and> in_loops (init_main lx st) = in_loops st \<or>
    (\<exists>dev i tree. i < 8 \<and> in_loops st ! i = None \<and> lx_opens lx dev
       \<and> lx_iso lx dev (offset_of (parse_cmdline (lx_cmdline lx))) (size_of (parse_cmdline (lx_cmdline lx))) = Some tree
       \<and> in_loops (init_main lx st) =
           (in_loops st)[i := Some (dev, offset_of (parse_cmdline (lx_cmdline lx)), size_of (parse_cmdline (lx_cmdline lx)))]
       \<and> in_cdrom (init_main lx st) = Some (i, tree))"
  using init_main_left [of lx st] by (auto simp: init_left_def untouched_def mounted_from_def)

text \<open>C8: the location the loader writes on the command line is the ISO that is mounted when \<open>/init\<close> starts: if
  the link of the partition's UUID appears at one of the three attempts, relative as udev writes it or absolute, the
  device it leads to opens, a loop device is free and the bytes at that offset and of that length mount, then they are
  mounted at \<open>/cdrom\<close> through the first free loop device, bound to exactly that range of the partition. The system
  calls are the set-up, the waits before the attempt, that one mount, the link to the loop device and the family's bind
  mount. The path of the ISO must be valid UTF-8 and free of blanks, and the other words of the command line must
  not be parameters of this program.\<close>

theorem init_mounts_payload:
  assumes "linux_extra k popos (Some loc) buf = Some (Some s)" and "file_path_len loc \<le> length (file_path loc)"
    and "path_without_leading_slash loc = Some path" and "list_all (\<lambda>c. \<not> is_ws c) path" and "utf8_valid path"
    and "list_all foreign (tokens pre)" and "list_all foreign (tokens post)" and "ends post"
    and "lx_cmdline lx = Some (pre @ s @ post)" and "unat (offset_bytes loc) \<le> MAX_OFFSET"
    and "n < 3" and "\<forall>j<n. find_target (lx_at lx j) (location_params loc path) = None"
    and "dv_link (lx_at lx n) (bstr ''/dev/disk/by-partuuid/'' @ partuuid_text loc) = Target target"
    and "dev = link_leads (bstr ''/dev/disk/by-partuuid/'' @ partuuid_text loc) target"
    and "lx_opens lx dev" and "free_loop lx st = Some i" and "lx_status lx i"
    and "lx_iso lx dev (offset_bytes loc) (il_file_size loc) = Some tree"
  shows "in_cdrom (init_main lx st) = Some (i, tree)
    \<and> in_loops (init_main lx st) = (in_loops st)[i := Some (dev, offset_bytes loc, il_file_size loc)]
    \<and> in_calls (init_main lx st) = in_calls st @ setup_calls @ sleeps n
        @ [Mount (loop_name i) (bstr ''/cdrom'') (bstr ''iso9660'') MS_RDONLY]
        @ link_calls (Option.bind (lx_mountinfo lx i) (\<lambda>t. first_source (text_lines t))) @ bind_calls tree"
proof -
  have p: "parse_cmdline (lx_cmdline lx) = location_params loc path" using cmdline_read [OF assms(1-8)] assms(9) by simp
  have w: "wait_target lx (location_params loc path) 0 (calls setup_calls st) = (Some dev, calls (sleeps n) (calls setup_calls st))"
    using wait_target_found [OF assms(11) le0 assms(12) location_target [OF assms(13), folded assms(14)]] by (simp add: sleeps_def)
  show ?thesis
    using init_main_found [OF p [symmetric] w assms(15-17)] assms(18) by (simp add: location_numbers [OF assms(10)])
qed

definition sample_linux :: linux where
  "sample_linux = \<lparr>lx_cmdline = Some (bstr ''BOOT_IMAGE=/casper/vmlinuz quiet'' @ extra_text Casper (Some sample_loc) @ bstr '' ---''),
     lx_at = (\<lambda>n. \<lparr>dv_link = (\<lambda>f. if n = 0 then Absent else Target (bstr ''../../sdb2'')), dv_blocks = None, dv_exists = (\<lambda>f. False)\<rparr>),
     lx_partitions = None, lx_opens = (\<lambda>d. d = bstr ''/dev/disk/by-partuuid/../../sdb2''), lx_loop_opens = (\<lambda>i. True), lx_status = (\<lambda>i. True),
     lx_iso = (\<lambda>d off sz. if off = 50151424 \<and> sz = 2000000000
        then Some \<lparr>it_dir = (\<lambda>p. p = bstr ''casper''), it_exists = (\<lambda>p. False), it_names = None\<rparr> else None),
     lx_mountinfo = (\<lambda>i. Some (bstr ''35 1 7:1 / /cdrom ro,relatime - iso9660 /dev/loop1 ro''))\<rparr>"

definition sample_start :: init_state where
  "sample_start = \<lparr>in_loops = Some (bstr ''/dev/sda1'', 0, 0) # replicate 7 None, in_cdrom = None, in_calls = []\<rparr>"

lemma init_mounts_payload_witness:
  "in_loops (init_main sample_linux sample_start) =
     [Some (bstr ''/dev/sda1'', 0, 0), Some (bstr ''/dev/disk/by-partuuid/../../sdb2'', 50151424, 2000000000), None, None, None, None, None, None]
   \<and> drop 18 (in_calls (init_main sample_linux sample_start)) =
     [Sleep 3, Mount (bstr ''/dev/loop1'') (bstr ''/cdrom'') (bstr ''iso9660'') 1, Unlink (bstr ''/dev/choosable-live''),
      Link (bstr ''/dev/loop1'') (bstr ''/dev/choosable-live''), Mkdir (bstr ''/isodevice''),
      Mount (bstr ''/cdrom'') (bstr ''/isodevice'') [] 0x1000]"
proof -
  have "length (extra_text Casper (Some sample_loc)) + 19 \<le> length (replicate 512 (0 :: u8))" by code_simp
  then have x: "linux_extra Casper False (Some sample_loc) (replicate 512 0) = Some (Some (extra_text Casper (Some sample_loc)))"
    using linux_extra_run [of "Some sample_loc" Casper False "replicate 512 0"] by (auto simp: sample_loc_def)
  have h: "path_without_leading_slash sample_loc = Some (bstr ''ubuntu.iso'')" "list_all (\<lambda>c. \<not> is_ws c) (bstr ''ubuntu.iso'')"
    "utf8_valid (bstr ''ubuntu.iso'')" "list_all foreign (tokens (bstr ''BOOT_IMAGE=/casper/vmlinuz quiet''))"
    "list_all foreign (tokens (bstr '' ---''))" "ends (bstr '' ---'')"
    "bstr ''/dev/disk/by-partuuid/../../sdb2'' = link_leads (bstr ''/dev/disk/by-partuuid/'' @ partuuid_text sample_loc) (bstr ''../../sdb2'')"
    "free_loop sample_linux sample_start = Some 1" by code_simp+
  have l: "file_path_len sample_loc \<le> length (file_path sample_loc)" by (simp add: sample_loc_def)
  have o: "offset_bytes sample_loc = 50151424" "il_file_size sample_loc = 2000000000"
    by (simp_all add: sample_loc_def offset_bytes_def)
  have m: "unat (offset_bytes sample_loc) \<le> MAX_OFFSET" by (simp add: o MAX_OFFSET_def)
  have f: "\<forall>j<1. find_target (lx_at sample_linux j) (location_params sample_loc (bstr ''ubuntu.iso'')) = None"
    by (simp add: sample_linux_def find_target_def by_partuuid_def by_partnum_def location_params_def Let_def split: if_split)
  have r: "lx_cmdline sample_linux = Some (bstr ''BOOT_IMAGE=/casper/vmlinuz quiet'' @ extra_text Casper (Some sample_loc) @ bstr '' ---'')"
    "dv_link (lx_at sample_linux 1) (bstr ''/dev/disk/by-partuuid/'' @ partuuid_text sample_loc) = Target (bstr ''../../sdb2'')"
    "lx_opens sample_linux (bstr ''/dev/disk/by-partuuid/../../sdb2'')" "lx_status sample_linux 1"
    "lx_iso sample_linux (bstr ''/dev/disk/by-partuuid/../../sdb2'') (offset_bytes sample_loc) (il_file_size sample_loc) =
       Some \<lparr>it_dir = (\<lambda>p. p = bstr ''casper''), it_exists = (\<lambda>p. False), it_names = None\<rparr>"
    by (simp_all add: sample_linux_def o)
  have e: "first_source (text_lines (bstr ''35 1 7:1 / /cdrom ro,relatime - iso9660 /dev/loop1 ro'')) = Some (bstr ''/dev/loop1'')"
    "length setup_calls = 18" "loop_name 1 = bstr ''/dev/loop1''" "sleeps 1 = [Sleep 3]"
    "bind_calls \<lparr>it_dir = (\<lambda>p. p = bstr ''casper''), it_exists = (\<lambda>p. False), it_names = None\<rparr> =
      [Mkdir (bstr ''/isodevice''), Mount (bstr ''/cdrom'') (bstr ''/isodevice'') [] 0x1000]" by code_simp+
  have q: "in_calls sample_start = []" "Option.bind (lx_mountinfo sample_linux 1) (\<lambda>t. first_source (text_lines t)) = Some (bstr ''/dev/loop1'')"
    "(in_loops sample_start)[1 := Some (bstr ''/dev/disk/by-partuuid/../../sdb2'', 50151424, 2000000000)] =
      [Some (bstr ''/dev/sda1'', 0, 0), Some (bstr ''/dev/disk/by-partuuid/../../sdb2'', 50151424, 2000000000), None, None, None, None, None, None]"
    by (simp add: sample_start_def, simp add: sample_linux_def e, simp add: sample_start_def numeral_eq_Suc)
  note i = init_mounts_payload [where n = 1, OF x l h(1-6) r(1) m _ f r(2) h(7) r(3) h(8) r(4,5), unfolded e(3-5) o q]
  show ?thesis using i by (simp add: e(2) link_calls_def MS_RDONLY_def)
qed

end
