(* ===== verification/InstallerTools.thy ===== *)
theory InstallerTools
  imports Installer DiskIo
begin

text \<open>
  The tools behind the handlers of \<open>src/installer.rs\<close>: the external programs they run, with retries and unmounting,
  and the files they put on the EFI partition through the \<open>fatfs\<close> crate. What a program does is a function of the
  programs that ran before it; the crate is a record of its operations. \<open>run_tool\<close> is what the parameter
  \<open>tools\<close> of the handlers stands for.
\<close>

section \<open>Programs\<close>

text \<open>Not found, not startable for another reason, or ended with success or failure.\<close>

datatype cmd_result = Not_found | Not_started | Exited bool

type_synonym command = "string list"

text \<open>\<open>'v\<close> is the content of partition 2. The history of commands stands for time.\<close>

record 'v machine =
  ma_disk :: string
  ma_run :: "command list \<Rightarrow> command \<Rightarrow> 'v \<Rightarrow> cmd_result \<times> 'v"
  ma_mounts :: "command list \<Rightarrow> string list option"
  ma_part_sectors :: "string \<Rightarrow> choosable_error + u64"
  ma_opens :: "string \<Rightarrow> bool"

record 'v tool_state =
  ts_log :: "command list"
  ts_vol :: 'v

definition execute :: "'v machine \<Rightarrow> command \<Rightarrow> 'v tool_state \<Rightarrow> cmd_result \<times> 'v tool_state" where
  "execute m cmd st =
     (let (r, v) = ma_run m (ts_log st) cmd (ts_vol st) in (r, \<lparr>ts_log = ts_log st @ [cmd], ts_vol = v\<rparr>))"

fun dec_digits :: "nat \<Rightarrow> string" where
  "dec_digits n = (if n < 10 then [char_of (48 + n)] else dec_digits (n div 10) @ [char_of (48 + n mod 10)])"

declare dec_digits.simps [simp del]

definition run_cmd :: "'v machine \<Rightarrow> command \<Rightarrow> 'v tool_state \<Rightarrow> (choosable_error + unit) \<times> 'v tool_state" where
  "run_cmd m cmd st =
     (case execute m cmd st of
        (Exited True, st') \<Rightarrow> (Inr (), st')
      | (Exited False, st') \<Rightarrow> (Inl (Generic (hd cmd @ '' failed'')), st')
      | (_, st') \<Rightarrow> (Inl (ToolNotFound (hd cmd)), st'))"

text \<open>Every mount of the partition (and of those whose name it begins) is a call of \<open>umount\<close>; failures are ignored.\<close>

fun umount_lines :: "'v machine \<Rightarrow> string \<Rightarrow> string list \<Rightarrow> 'v tool_state \<Rightarrow> 'v tool_state" where
  "umount_lines m part [] st = st"
| "umount_lines m part (line # lines) st =
     umount_lines m part lines
       (if starts_with line part then snd (execute m [''umount'', part] st) else st)"

definition check_umount :: "'v machine \<Rightarrow> string \<Rightarrow> 'v tool_state \<Rightarrow> 'v tool_state" where
  "check_umount m part st =
     (case ma_mounts m (ts_log st) of None \<Rightarrow> st | Some lines \<Rightarrow> umount_lines m part lines st)"

section \<open>Formatting\<close>

definition mkfs_efi :: "string \<Rightarrow> command" where
  "mkfs_efi part = [''mkfs.vfat'', ''-F'', ''16'', ''-n'', ''CZBLEFI'', ''-s'', ''1'', part]"

fun format_attempts :: "nat \<Rightarrow> 'v machine \<Rightarrow> string \<Rightarrow> 'v tool_state \<Rightarrow> (choosable_error + unit) \<times> 'v tool_state" where
  "format_attempts 0 m part st = (Inl FormatFailed, st)"
| "format_attempts (Suc n) m part st =
     (case execute m (mkfs_efi part) (check_umount m part st) of
        (Exited True, st') \<Rightarrow> (Inr (), st')
      | (Not_found, st') \<Rightarrow> (Inl (ToolNotFound ''mkfs.vfat''), st')
      | (_, st') \<Rightarrow> format_attempts n m part st')"

definition format_efi_partition :: "'v machine \<Rightarrow> string \<Rightarrow> 'v tool_state \<Rightarrow> (choosable_error + unit) \<times> 'v tool_state" where
  "format_efi_partition m part_num st = format_attempts 10 m (get_partition_name (ma_disk m) part_num) st"

fun mkexfat_loop :: "'v machine \<Rightarrow> string \<Rightarrow> string \<Rightarrow> string \<Rightarrow> string list \<Rightarrow> 'v tool_state \<Rightarrow>
    (choosable_error + unit) \<times> 'v tool_state" where
  "mkexfat_loop m label cluster_sectors part [] st = (Inl FormatFailed, st)"
| "mkexfat_loop m label cluster_sectors part (cmd # cmds) st =
     (let args = (if cmd = ''mkexfatfs'' then [''-n'', label, ''-s'', cluster_sectors, part] else [''-l'', label, part])
      in case execute m (cmd # args) st of
           (Exited True, st') \<Rightarrow> (Inr (), st')
         | (_, st') \<Rightarrow> mkexfat_loop m label cluster_sectors part cmds st')"

definition format_with :: "'v machine \<Rightarrow> command \<Rightarrow> 'v tool_state \<Rightarrow> (choosable_error + unit) \<times> 'v tool_state" where
  "format_with m cmd st =
     (case execute m cmd st of
        (Exited True, st') \<Rightarrow> (Inr (), st')
      | (Exited False, st') \<Rightarrow> (Inl FormatFailed, st')
      | (_, st') \<Rightarrow> (Inl (ToolNotFound (hd cmd)), st'))"

definition format_partition ::
  "'v machine \<Rightarrow> string \<Rightarrow> string \<Rightarrow> filesystem_type \<Rightarrow> 'v tool_state \<Rightarrow> (choosable_error + unit) \<times> 'v tool_state" where
  "format_partition m part label fs st =
     (case fs of
        ExFat \<Rightarrow>
          (case ma_part_sectors m part of
             Inl e \<Rightarrow> (Inl e, st)
           | Inr part_sectors \<Rightarrow>
               let part_size_gb = part_sectors * SECTOR_SIZE div SIZE_1GB;
                   cluster_sectors = (if part_size_gb > 32 then ''256'' else ''64'')
               in mkexfat_loop m label cluster_sectors part [''mkexfatfs'', ''mkfs.exfat'', ''/usr/sbin/mkfs.exfat''] st)
      | Fat32 \<Rightarrow> format_with m [''mkfs.vfat'', ''-n'', label, ''-F'', ''32'', part] st
      | Ntfs \<Rightarrow> format_with m [''mkfs.ntfs'', ''-f'', ''-L'', label, part] st)"

section \<open>The EFI partition\<close>

text \<open>
  The operations of \<open>fatfs\<close> the code uses. A directory is the list of names that lead to it; a result is a success
  flag and the volume afterwards, and an unreadable entry of a listing is \<open>None\<close>.
\<close>

record 'v fat =
  ff_new :: "'v \<Rightarrow> bool"
  ff_open_dir :: "'v \<Rightarrow> string list \<Rightarrow> string \<Rightarrow> bool"
  ff_create_dir :: "'v \<Rightarrow> string list \<Rightarrow> string \<Rightarrow> bool \<times> 'v"
  ff_create_file :: "'v \<Rightarrow> string list \<Rightarrow> string \<Rightarrow> bool \<times> 'v"
  ff_write_all :: "'v \<Rightarrow> string list \<Rightarrow> bytes \<Rightarrow> bool \<times> 'v"
  ff_flush :: "'v \<Rightarrow> string list \<Rightarrow> bool \<times> 'v"
  ff_names :: "'v \<Rightarrow> string list \<Rightarrow> string option list"
  ff_rename :: "'v \<Rightarrow> string list \<Rightarrow> string \<Rightarrow> string \<Rightarrow> bool \<times> 'v"
  ff_remove :: "'v \<Rightarrow> string list \<Rightarrow> string \<Rightarrow> bool \<times> 'v"

definition open_or_create :: "'v fat \<Rightarrow> 'v \<Rightarrow> string list \<Rightarrow> string \<Rightarrow> bool \<times> 'v" where
  "open_or_create ff v dir name = (if ff_open_dir ff v dir name then (True, v) else ff_create_dir ff v dir name)"

definition then_ok :: "bool \<times> 'v \<Rightarrow> string \<Rightarrow> ('v \<Rightarrow> (choosable_error + unit) \<times> 'v) \<Rightarrow> (choosable_error + unit) \<times> 'v" where
  "then_ok r msg f = (if fst r then f (snd r) else (Inl (Generic msg), snd r))"

definition write_boot_file :: "'v fat \<Rightarrow> bytes \<Rightarrow> 'v \<Rightarrow> (choosable_error + unit) \<times> 'v" where
  "write_boot_file ff efi_bin v =
     then_ok (open_or_create ff v [] ''EFI'') ''Failed to create EFI dir'' (\<lambda>v1.
     then_ok (open_or_create ff v1 [''EFI''] ''BOOT'') ''Failed to create BOOT dir'' (\<lambda>v2.
     then_ok (ff_create_file ff v2 [''EFI'', ''BOOT''] ''BOOTX64.EFI'') ''Failed to create BOOTX64.EFI'' (\<lambda>v3.
     then_ok (ff_write_all ff v3 [''EFI'', ''BOOT'', ''BOOTX64.EFI''] efi_bin) ''Failed to write EFI binary'' (\<lambda>v4.
     then_ok (ff_flush ff v4 [''EFI'', ''BOOT'', ''BOOTX64.EFI'']) ''Failed to flush EFI file'' (\<lambda>v5. (Inr (), v5))))))"

text \<open>Opening the partition and the file system on it, common to the two writers.\<close>

definition on_volume ::
  "'v machine \<Rightarrow> 'v fat \<Rightarrow> string \<Rightarrow> ('v \<Rightarrow> (choosable_error + unit) \<times> 'v) \<Rightarrow> 'v tool_state \<Rightarrow> (choosable_error + unit) \<times> 'v tool_state" where
  "on_volume m ff part_num f st =
     (let part2 = get_partition_name (ma_disk m) part_num; st1 = check_umount m part2 st
      in if \<not> ma_opens m part2 then (Inl (Generic ''Cannot open partition''), st1)
         else if \<not> ff_new ff (ts_vol st1) then (Inl (Generic ''Failed to open EFI FAT''), st1)
         else (case f (ts_vol st1) of (r, v) \<Rightarrow> (r, st1\<lparr>ts_vol := v\<rparr>)))"

definition write_efi_bootloader :: "'v machine \<Rightarrow> 'v fat \<Rightarrow> bytes \<Rightarrow> 'v tool_state \<Rightarrow> (choosable_error + unit) \<times> 'v tool_state" where
  "write_efi_bootloader m ff efi_bin st = on_volume m ff ''2'' (write_boot_file ff efi_bin) st"

definition has_secure_boot :: "'v fat \<Rightarrow> 'v \<Rightarrow> bool" where
  "has_secure_boot ff v \<longleftrightarrow> ff_open_dir ff v [] ''EFI'' \<and> ff_open_dir ff v [''EFI''] ''BOOT''
     \<and> Some ''grubx64_real.efi'' \<in> set (ff_names ff v [''EFI'', ''BOOT''])"

definition disable_secure_boot :: "'v fat \<Rightarrow> 'v \<Rightarrow> 'v" where
  "disable_secure_boot ff v =
     (let boot = [''EFI'', ''BOOT''];
          ren = (\<lambda>a b v. snd (ff_rename ff v boot a b));
          del = (\<lambda>n v. snd (ff_remove ff v boot n));
          v1 = (if ff_open_dir ff v [] ''EFI'' \<and> ff_open_dir ff v [''EFI''] ''BOOT''
                then (del ''mmia32.efi'' (del ''grubia32.efi'' (del ''mmx64.efi'' (del ''MokManager.efi'' (del ''grubx64.efi''
                       (ren ''grubia32_real.efi'' ''BOOTIA32.EFI'' (ren ''grubx64_real.efi'' ''BOOTX64.EFI'' v)))))))
                else v)
      in snd (ff_remove ff v1 [] ''ENROLL_THIS_KEY_IN_MOKMANAGER.cer''))"

definition process_secure_boot_esp ::
  "'v machine \<Rightarrow> 'v fat \<Rightarrow> bool \<Rightarrow> 'v tool_state \<Rightarrow> (choosable_error + unit) \<times> 'v tool_state" where
  "process_secure_boot_esp m ff enable_secure_boot st =
     (if enable_secure_boot then (Inr (), st)
      else on_volume m ff ''2'' (\<lambda>v. (Inr (), if has_secure_boot ff v then disable_secure_boot ff v else v)) st)"

section \<open>The calls of the handlers\<close>

record tool_args =
  ta_label :: string
  ta_fs :: filesystem_type
  ta_efi_bin :: bytes

definition run_tool ::
  "'v machine \<Rightarrow> 'v fat \<Rightarrow> tool_args \<Rightarrow> tool_call \<Rightarrow> 'v tool_state \<Rightarrow> (choosable_error + unit) \<times> 'v tool_state" where
  "run_tool m ff a c st =
     (let part1 = get_partition_name (ma_disk m) ''1'' in
      case c of
        NtfsFix \<Rightarrow> run_cmd m [''ntfsfix'', ''-b'', ''-d'', part1] st
      | NtfsResize mb \<Rightarrow> run_cmd m [''ntfsresize'', ''-f'', ''--size'', dec_digits (unat mb) @ ''M'', part1] st
      | E2fsck \<Rightarrow> run_cmd m [''e2fsck'', ''-f'', part1] st
      | Resize2fs mb \<Rightarrow> run_cmd m [''resize2fs'', part1, dec_digits (unat mb) @ ''M''] st
      | FormatPartition n \<Rightarrow> format_partition m (get_partition_name (ma_disk m) (dec_digits n)) (ta_label a) (ta_fs a) st
      | FormatEfi n \<Rightarrow> format_efi_partition m (dec_digits n) st
      | WriteEfiBootloader n \<Rightarrow> write_efi_bootloader m ff (ta_efi_bin a) st
      | SecureBootEsp n \<Rightarrow> process_secure_boot_esp m ff False st)"

text \<open>A sequence of calls up to the first failure, and the results of the calls of a sequence.\<close>

fun run_all ::
  "'v machine \<Rightarrow> 'v fat \<Rightarrow> tool_args \<Rightarrow> tool_call list \<Rightarrow> 'v tool_state \<Rightarrow> (choosable_error + unit) \<times> 'v tool_state" where
  "run_all m ff a [] st = (Inr (), st)"
| "run_all m ff a (c # cs) st =
     (case run_tool m ff a c st of (Inl e, st') \<Rightarrow> (Inl e, st') | (Inr _, st') \<Rightarrow> run_all m ff a cs st')"

fun tool_results ::
  "'v machine \<Rightarrow> 'v fat \<Rightarrow> tool_args \<Rightarrow> tool_call list \<Rightarrow> 'v tool_state \<Rightarrow> tool_call \<Rightarrow> choosable_error + unit" where
  "tool_results m ff a [] st c = Inr ()"
| "tool_results m ff a (d # ds) st c =
     (case run_tool m ff a d st of (r, st') \<Rightarrow> if c = d then r else tool_results m ff a ds st' c)"

end
