(* ===== verification/InstallerToolsTheorems.thy ===== *)
theory InstallerToolsTheorems
  imports InstallerTools InstallerTheorems
begin

text \<open>
  What an installation and an update leave on the EFI partition: the UEFI loader as EFI/BOOT/BOOTX64.EFI. The behaviour
  of \<open>fatfs\<close> and of the programs is stated over the tree of a volume, a map from paths in upper case.
\<close>

section \<open>The handlers and the tools\<close>

lemma run_tools_cong: "(\<And>c. c \<in> set cs \<Longrightarrow> f c = g c) \<Longrightarrow> run_tools f cs = run_tools g cs"
proof (induction cs)
  case (Cons c cs)
  then show ?case by (cases "g c") auto
qed simp

lemma run_tools_results: "distinct cs \<Longrightarrow> run_tools (tool_results m ff a cs st) cs = fst (run_all m ff a cs st)"
proof (induction cs arbitrary: st)
  case Nil
  then show ?case by simp
next
  case (Cons c cs)
  obtain r st' where r: "run_tool m ff a c st = (r, st')" by fastforce
  have "run_tools (tool_results m ff a (c # cs) st) cs = run_tools (tool_results m ff a cs st') cs"
    by (rule run_tools_cong) (use Cons.prems r in auto)
  also have "\<dots> = fst (run_all m ff a cs st')" using Cons by simp
  finally have f: "run_tools (tool_results m ff a (c # cs) st) cs = fst (run_all m ff a cs st')" .
  have "tool_results m ff a (c # cs) st c = r" using r by simp
  then show ?case using r f by (cases r) (simp_all del: tool_results.simps)
qed

lemma run_tools_done:
  "distinct cs \<Longrightarrow> run_tools (tool_results m ff a cs st) cs = Inr u \<Longrightarrow> run_all m ff a cs st = (Inr (), snd (run_all m ff a cs st))"
  using run_tools_results [of cs m ff a st] by (metis old.unit.exhaust prod.collapse)

section \<open>The tree of a volume\<close>

datatype fat_node = Dir | File bytes

definition upper :: "char \<Rightarrow> char" where
  "upper c = (let n = of_char c :: nat in if 97 \<le> n \<and> n \<le> 122 then char_of (n - 32) else c)"

definition fat_key :: "string list \<Rightarrow> string list" where
  "fat_key p = map (map upper) p"

definition file_bytes :: "fat_node option \<Rightarrow> bytes" where
  "file_bytes n = (case n of Some (File c) \<Rightarrow> c | _ \<Rightarrow> [])"

text \<open>
  The documented behaviour of \<open>fatfs\<close> 0.3: \<open>create_file\<close> opens a file that exists without truncating it, writing
  starts at its beginning, \<open>rename\<close> fails when the new name exists, and nothing else changes.
\<close>

definition fat_creates :: "'v fat \<Rightarrow> ('v \<Rightarrow> string list \<Rightarrow> fat_node option) \<Rightarrow> bool" where
  "fat_creates ff tree \<longleftrightarrow>
     (\<forall>v d n v'. ff_create_dir ff v d n = (True, v') \<longrightarrow> tree v' = (tree v)(fat_key (d @ [n]) \<mapsto> Dir))
     \<and> (\<forall>v d n v'. ff_create_file ff v d n = (True, v') \<longrightarrow>
          tree v' = (tree v)(fat_key (d @ [n]) \<mapsto> File (file_bytes (tree v (fat_key (d @ [n]))))))"

definition fat_writes :: "'v fat \<Rightarrow> ('v \<Rightarrow> string list \<Rightarrow> fat_node option) \<Rightarrow> bool" where
  "fat_writes ff tree \<longleftrightarrow>
     (\<forall>v p data v' c. ff_write_all ff v p data = (True, v') \<and> tree v (fat_key p) = Some (File c) \<longrightarrow>
        tree v' = (tree v)(fat_key p \<mapsto> File (data @ drop (length data) c)))
     \<and> (\<forall>v p v'. ff_flush ff v p = (True, v') \<longrightarrow> tree v' = tree v)"

definition fat_lists :: "'v fat \<Rightarrow> ('v \<Rightarrow> string list \<Rightarrow> fat_node option) \<Rightarrow> bool" where
  "fat_lists ff tree \<longleftrightarrow>
     (\<forall>v d n. Some n \<in> set (ff_names ff v d) \<and> n \<noteq> ''.'' \<and> n \<noteq> ''..'' \<longrightarrow> tree v (fat_key (d @ [n])) \<noteq> None)"

definition fat_renames :: "'v fat \<Rightarrow> ('v \<Rightarrow> string list \<Rightarrow> fat_node option) \<Rightarrow> bool" where
  "fat_renames ff tree \<longleftrightarrow>
     (\<forall>v d a b. tree v (fat_key (d @ [b])) \<noteq> None \<longrightarrow> tree (snd (ff_rename ff v d a b)) = tree v)
     \<and> (\<forall>v d a b k. take (length d + 1) k \<noteq> fat_key (d @ [a]) \<and> take (length d + 1) k \<noteq> fat_key (d @ [b]) \<longrightarrow>
          tree (snd (ff_rename ff v d a b)) k = tree v k)
     \<and> (\<forall>v d n k. k \<noteq> fat_key (d @ [n]) \<longrightarrow> tree (snd (ff_remove ff v d n)) k = tree v k)"

definition fat_laws :: "'v fat \<Rightarrow> ('v \<Rightarrow> string list \<Rightarrow> fat_node option) \<Rightarrow> bool" where
  "fat_laws ff tree \<longleftrightarrow> fat_creates ff tree \<and> fat_writes ff tree \<and> fat_lists ff tree \<and> fat_renames ff tree"

text \<open>Programs that do not name partition 2 last, and \<open>umount\<close>, leave it alone; \<open>mkfs.vfat\<close> empties it.\<close>

definition machine_laws :: "'v machine \<Rightarrow> ('v \<Rightarrow> string list \<Rightarrow> fat_node option) \<Rightarrow> bool" where
  "machine_laws m tree \<longleftrightarrow>
     (\<forall>log cmd v. last cmd \<noteq> get_partition_name (ma_disk m) ''2'' \<or> hd cmd = ''umount'' \<longrightarrow> snd (ma_run m log cmd v) = v)
     \<and> (\<forall>log v v'. ma_run m log (mkfs_efi (get_partition_name (ma_disk m) ''2'')) v = (Exited True, v') \<longrightarrow> tree v' = Map.empty)"

definition LOADER :: "string list" where
  "LOADER = [''EFI'', ''BOOT'', ''BOOTX64.EFI'']"

lemma fat_key_simps: "fat_key LOADER = LOADER" "fat_key [''EFI''] = [''EFI'']" "fat_key [''EFI'', ''BOOT''] = [''EFI'', ''BOOT'']"
  "fat_key [''EFI'', ''BOOT'', ''BOOTX64.EFI''] = LOADER"
  by code_simp+

section \<open>Writing the loader\<close>

lemma umount_vol: "machine_laws m tree \<Longrightarrow> ts_vol (check_umount m part st) = ts_vol st"
proof -
  assume l: "machine_laws m tree"
  have "ts_vol (umount_lines m part lines st) = ts_vol st" for lines
  proof (induction lines arbitrary: st)
    case (Cons line lines)
    have "ts_vol (snd (execute m [''umount'', part] st)) = ts_vol st"
      using l by (auto simp: machine_laws_def execute_def split: prod.split) (metis list.sel(1) snd_conv)
    then show ?case using Cons by simp
  qed simp
  then show ?thesis by (simp add: check_umount_def split: option.split)
qed

lemma open_or_create_tree:
  assumes "fat_laws ff tree" and "open_or_create ff v d n = (True, v')"
  shows "tree v' = tree v \<or> tree v' = (tree v)(fat_key (d @ [n]) \<mapsto> Dir)"
  using assms by (auto simp: open_or_create_def fat_laws_def fat_creates_def split: if_splits)

lemma then_ok_Inr: "then_ok r msg f = (Inr (), v) \<longleftrightarrow> (\<exists>v'. r = (True, v') \<and> f v' = (Inr (), v))"
  by (cases r) (auto simp: then_ok_def)

lemma write_boot_file_tree:
  assumes l: "fat_laws ff tree" and w: "write_boot_file ff bin v = (Inr (), v')"
  shows "tree v' LOADER = Some (File (bin @ drop (length bin) (file_bytes (tree v LOADER))))
    \<and> (\<forall>k. k \<noteq> LOADER \<and> k \<noteq> [''EFI''] \<and> k \<noteq> [''EFI'', ''BOOT''] \<longrightarrow> tree v' k = tree v k)"
proof -
  obtain v1 v2 v3 v4 where s: "open_or_create ff v [] ''EFI'' = (True, v1)" "open_or_create ff v1 [''EFI''] ''BOOT'' = (True, v2)"
    "ff_create_file ff v2 [''EFI'', ''BOOT''] ''BOOTX64.EFI'' = (True, v3)"
    "ff_write_all ff v3 [''EFI'', ''BOOT'', ''BOOTX64.EFI''] bin = (True, v4)"
    "ff_flush ff v4 [''EFI'', ''BOOT'', ''BOOTX64.EFI''] = (True, v')"
    using w unfolding write_boot_file_def then_ok_Inr by auto
  note o1 = open_or_create_tree [OF l s(1), simplified, unfolded fat_key_simps]
  note o2 = open_or_create_tree [OF l s(2), simplified, unfolded fat_key_simps]
  have t3: "tree v3 = (tree v2)(LOADER \<mapsto> File (file_bytes (tree v2 LOADER)))"
    using l s(3) fat_key_simps(4) unfolding fat_laws_def fat_creates_def by (metis append_Cons append_Nil)
  then have t4: "tree v4 = (tree v3)(LOADER \<mapsto> File (bin @ drop (length bin) (file_bytes (tree v2 LOADER))))"
    using l s(4) fat_key_simps(4) unfolding fat_laws_def fat_writes_def by (metis fun_upd_same)
  have t5: "tree v' = tree v4" using l s(5) unfolding fat_laws_def fat_writes_def by blast
  have n: "LOADER \<noteq> [''EFI'']" "LOADER \<noteq> [''EFI'', ''BOOT'']" by (simp_all add: LOADER_def)
  have "tree v2 LOADER = tree v LOADER" using o1 o2 n by auto
  then show ?thesis using o1 o2 n t3 t4 t5 by auto
qed

lemma rename_exists:
  "fat_laws ff tree \<Longrightarrow> tree v (fat_key (d @ [b])) = Some n \<Longrightarrow> tree (snd (ff_rename ff v d a b)) = tree v"
  by (simp add: fat_laws_def fat_renames_def)

lemma rename_frame:
  "fat_laws ff tree \<Longrightarrow> take (length d + 1) k \<noteq> fat_key (d @ [a]) \<Longrightarrow> take (length d + 1) k \<noteq> fat_key (d @ [b]) \<Longrightarrow>
    tree (snd (ff_rename ff v d a b)) k = tree v k"
  by (simp add: fat_laws_def fat_renames_def)

lemma remove_frame: "fat_laws ff tree \<Longrightarrow> k \<noteq> fat_key (d @ [n]) \<Longrightarrow> tree (snd (ff_remove ff v d n)) k = tree v k"
  by (simp add: fat_laws_def fat_renames_def)

lemma disable_keeps_loader:
  assumes l: "fat_laws ff tree" and x: "tree v LOADER = Some n"
  shows "tree (disable_secure_boot ff v) LOADER = Some n"
proof -
  have f: "fat_key ([''EFI'', ''BOOT''] @ [s]) \<noteq> LOADER" if "map upper s \<noteq> ''BOOTX64.EFI''" for s
    using that by (simp add: LOADER_def fat_key_def)
  have d: "tree (snd (ff_remove ff w [''EFI'', ''BOOT''] s)) LOADER = tree w LOADER" if "map upper s \<noteq> ''BOOTX64.EFI''" for w s
    using remove_frame [OF l, of LOADER] f [OF that] by metis
  have r1: "tree (snd (ff_rename ff v [''EFI'', ''BOOT''] a ''BOOTX64.EFI'')) = tree v" for a
    by (rule rename_exists [OF l]) (simp add: fat_key_simps x)
  have r2: "tree (snd (ff_rename ff w [''EFI'', ''BOOT''] ''grubia32_real.efi'' ''BOOTIA32.EFI'')) LOADER = tree w LOADER" for w
  proof -
    have "take (length [''EFI'', ''BOOT''] + 1) LOADER \<noteq> fat_key ([''EFI'', ''BOOT''] @ [''grubia32_real.efi''])"
      "take (length [''EFI'', ''BOOT''] + 1) LOADER \<noteq> fat_key ([''EFI'', ''BOOT''] @ [''BOOTIA32.EFI''])" by code_simp+
    then show ?thesis by (rule rename_frame [OF l])
  qed
  have c: "LOADER \<noteq> fat_key ([] @ [''ENROLL_THIS_KEY_IN_MOKMANAGER.cer''])" by (simp add: LOADER_def fat_key_def)
  have e: "tree (snd (ff_remove ff w [] ''ENROLL_THIS_KEY_IN_MOKMANAGER.cer'')) LOADER = tree w LOADER" for w
    by (rule remove_frame [OF l c])
  have u: "map upper ''mmia32.efi'' \<noteq> ''BOOTX64.EFI''" "map upper ''grubia32.efi'' \<noteq> ''BOOTX64.EFI''"
    "map upper ''mmx64.efi'' \<noteq> ''BOOTX64.EFI''" "map upper ''MokManager.efi'' \<noteq> ''BOOTX64.EFI''"
    "map upper ''grubx64.efi'' \<noteq> ''BOOTX64.EFI''" by code_simp+
  show ?thesis unfolding disable_secure_boot_def Let_def by (simp add: e d [OF u(1)] d [OF u(2)] d [OF u(3)] d [OF u(4)] d [OF u(5)] r1 r2 x)
qed

lemma on_volume_done:
  assumes "machine_laws m tree" and "on_volume m ff part f st = (Inr (), st')"
  shows "f (ts_vol st) = (Inr (), ts_vol st')"
  using assms(2) umount_vol [OF assms(1)] by (auto simp: on_volume_def Let_def split: if_splits prod.splits)

section \<open>An installation and an update\<close>

lemma format_attempts_fresh:
  assumes "machine_laws m tree" and "format_attempts n m (get_partition_name (ma_disk m) ''2'') st = (Inr (), st')"
  shows "tree (ts_vol st') = Map.empty"
  using assms(2)
proof (induction n arbitrary: st)
  case (Suc n)
  obtain r st1 where e: "execute m (mkfs_efi (get_partition_name (ma_disk m) ''2'')) (check_umount m (get_partition_name (ma_disk m) ''2'') st) = (r, st1)"
    by fastforce
  show ?case
  proof (cases "r = Exited True")
    case True
    then have "st1 = st'" using Suc.prems e by simp
    then show ?thesis using e True assms(1) by (auto simp: execute_def machine_laws_def split: prod.splits)
  next
    case False
    then show ?thesis using Suc e by (auto split: cmd_result.splits bool.splits)
  qed
qed simp

lemma secure_boot_keeps:
  assumes "fat_laws ff tree" and "machine_laws m tree" and "process_secure_boot_esp m ff False st = (Inr (), st')"
    and "tree (ts_vol st) LOADER = Some x"
  shows "tree (ts_vol st') LOADER = Some x"
proof -
  have "(Inr () :: choosable_error + unit, if has_secure_boot ff (ts_vol st) then disable_secure_boot ff (ts_vol st) else ts_vol st)
      = (Inr (), ts_vol st')"
    by (rule on_volume_done [OF assms(2)]) (use assms(3) in \<open>simp add: process_secure_boot_esp_def\<close>)
  then show ?thesis using disable_keeps_loader [OF assms(1,4)] assms(4) by (auto split: if_splits)
qed

lemma run_all_cons: "run_all m ff a (c # cs) st = (Inr (), st') \<longleftrightarrow>
    (\<exists>st1. run_tool m ff a c st = (Inr (), st1) \<and> run_all m ff a cs st1 = (Inr (), st'))"
  by (auto split: prod.splits sum.splits)

definition loader_calls :: "bool \<Rightarrow> tool_call list" where
  "loader_calls secure_boot = WriteEfiBootloader 2 # (if secure_boot then [] else [SecureBootEsp 2])"

lemma loader_calls_tree:
  assumes l: "fat_laws ff tree" "machine_laws m tree" and r: "run_all m ff a (loader_calls sb) st = (Inr (), st')"
  shows "tree (ts_vol st') LOADER =
    Some (File (ta_efi_bin a @ drop (length (ta_efi_bin a)) (file_bytes (tree (ts_vol st) LOADER))))"
proof -
  obtain st1 where s: "write_efi_bootloader m ff (ta_efi_bin a) st = (Inr (), st1)"
      "run_all m ff a (if sb then [] else [SecureBootEsp 2]) st1 = (Inr (), st')"
    using r by (auto simp: loader_calls_def run_all_cons run_tool_def Let_def simp del: run_all.simps)
  note w = write_boot_file_tree [OF l(1) on_volume_done [OF l(2) s(1) [unfolded write_efi_bootloader_def]]]
  show ?thesis
  proof (cases sb)
    case True
    then show ?thesis using s(2) w by simp
  next
    case False
    then have "process_secure_boot_esp m ff False st1 = (Inr (), st')"
      using s(2) by (auto simp: run_all_cons run_tool_def Let_def simp del: run_all.simps(2))
    from secure_boot_keeps [OF l this] w show ?thesis by blast
  qed
qed

lemma install_ran_tools:
  assumes "install_choosable env tools use_gpt secure_boot reserve force yes d = Inr (d', Some p)"
  shows "run_tools tools ([FormatPartition 1, FormatEfi 2] @ loader_calls secure_boot) = Inr ()"
proof (rule ccontr)
  assume "\<not> ?thesis"
  then obtain e where "run_tools tools ([FormatPartition 1, FormatEfi 2] @ loader_calls secure_boot) = Inl e"
    by (metis old.unit.exhaust sum.exhaust)
  then have "run_tools tools ([FormatPartition 1, FormatEfi 2, WriteEfiBootloader 2] @ (if secure_boot then [] else [SecureBootEsp 2])) = Inl e"
    by (simp add: loader_calls_def)
  with assms show False
    by (auto simp: install_choosable_def rbind_Inr_iff simp del: run_tools.simps split: if_splits prod.splits)
qed

text \<open>Whether an update keeps Secure Boot: as the caller says, else as it is on the disk it finds.\<close>

definition keeps_secure_boot :: "install_env \<Rightarrow> vdisk \<Rightarrow> bool option \<Rightarrow> bool" where
  "keeps_secure_boot env d sb =
     (case sb of Some b \<Rightarrow> b
      | None \<Rightarrow> (case detect_choosable (env_version env) d of Inr (_, _, Some p2, _) \<Rightarrow> env_has_secure_boot env | _ \<Rightarrow> True))"

lemma update_ran_tools:
  assumes "update_choosable env tools sb yes d = Some (Inr (d', True))"
  shows "run_tools tools (loader_calls (keeps_secure_boot env d sb)) = Inr ()"
  using assms unfolding update_choosable_def
  by (auto simp: rbind_Inr_iff Let_def loader_calls_def keeps_secure_boot_def simp del: run_tools.simps
      split: if_splits sum.splits prod.splits option.splits)

text \<open>C11: an installation that reports success has put the UEFI loader on partition 2. Running the programs and the
  \<open>fatfs\<close> operations it asks for, with whatever failures and retries on the way, ends without an error, and
  EFI/BOOT/BOOTX64.EFI then holds the embedded loader byte for byte, whether Secure Boot is kept or not.\<close>

theorem install_leaves_loader:
  assumes "fat_laws ff tree" and "machine_laws m tree"
    and "install_choosable env (tool_results m ff a ([FormatPartition 1, FormatEfi 2] @ loader_calls secure_boot) st)
           use_gpt secure_boot reserve force yes d = Inr (d', Some p)"
  shows "\<exists>st'. run_all m ff a ([FormatPartition 1, FormatEfi 2] @ loader_calls secure_boot) st = (Inr (), st')
    \<and> tree (ts_vol st') LOADER = Some (File (ta_efi_bin a))"
proof -
  define cs where "cs = [FormatPartition 1, FormatEfi 2] @ loader_calls secure_boot"
  have "distinct cs" by (simp add: cs_def loader_calls_def)
  then obtain st' where r: "run_all m ff a cs st = (Inr (), st')"
    using run_tools_done install_ran_tools [OF assms(3)] unfolding cs_def by blast
  then obtain st1 st2 where s: "run_tool m ff a (FormatEfi 2) st1 = (Inr (), st2)" "run_all m ff a (loader_calls secure_boot) st2 = (Inr (), st')"
    by (auto simp: cs_def run_all_cons simp del: run_all.simps(2))
  have "dec_digits 2 = ''2''" by code_simp
  then have "tree (ts_vol st2) = Map.empty"
    using format_attempts_fresh [OF assms(2)] s(1) by (simp add: run_tool_def Let_def format_efi_partition_def)
  then show ?thesis using r loader_calls_tree [OF assms(1,2) s(2)] by (simp add: cs_def file_bytes_def)
qed

text \<open>C40: an update that reports success has written the embedded loader over EFI/BOOT/BOOTX64.EFI, with or without a
  choice of Secure Boot; without one, Secure Boot is kept when it is found on partition 2. The rename that
  takes Secure Boot away does not replace the loader again, because the name exists by then; but the file is not
  truncated, so the bytes of a longer old loader behind the new one stay.\<close>

theorem update_leaves_loader:
  assumes "fat_laws ff tree" and "machine_laws m tree"
    and "update_choosable env (tool_results m ff a (loader_calls (keeps_secure_boot env d sb)) st) sb yes d = Some (Inr (d', True))"
  shows "\<exists>st'. run_all m ff a (loader_calls (keeps_secure_boot env d sb)) st = (Inr (), st')
    \<and> tree (ts_vol st') LOADER =
        Some (File (ta_efi_bin a @ drop (length (ta_efi_bin a)) (file_bytes (tree (ts_vol st) LOADER))))"
proof -
  have "distinct (loader_calls (keeps_secure_boot env d sb))" by (simp add: loader_calls_def)
  from run_tools_done [OF this update_ran_tools [OF assms(3)]] loader_calls_tree [OF assms(1,2)] show ?thesis by blast
qed

section \<open>An example\<close>

text \<open>A volume is its tree; the operations always succeed, except a rename over a file that exists.\<close>

type_synonym volume = "string list \<Rightarrow> fat_node option"

definition sample_fat :: "volume fat" where
  "sample_fat = \<lparr>ff_new = (\<lambda>v. True), ff_open_dir = (\<lambda>v d n. v (fat_key (d @ [n])) = Some Dir),
     ff_create_dir = (\<lambda>v d n. (True, v(fat_key (d @ [n]) \<mapsto> Dir))),
     ff_create_file = (\<lambda>v d n. (True, v(fat_key (d @ [n]) \<mapsto> File (file_bytes (v (fat_key (d @ [n]))))))),
     ff_write_all = (\<lambda>v p data. (True, v(fat_key p \<mapsto> File (data @ drop (length data) (file_bytes (v (fat_key p))))))),
     ff_flush = (\<lambda>v p. (True, v)),
     ff_names = (\<lambda>v d. if v (fat_key (d @ [''grubx64_real.efi''])) = None then [] else [Some ''grubx64_real.efi'']),
     ff_rename = (\<lambda>v d a b. if v (fat_key (d @ [b])) \<noteq> None then (False, v)
        else (True, v(fat_key (d @ [a]) := None, fat_key (d @ [b]) := v (fat_key (d @ [a]))))),
     ff_remove = (\<lambda>v d n. (True, v(fat_key (d @ [n]) := None)))\<rparr>"

definition sample_machine :: "volume machine" where
  "sample_machine = \<lparr>ma_disk = ''/dev/sdb'',
     ma_run = (\<lambda>log cmd v. (Exited True, if cmd = mkfs_efi (get_partition_name ''/dev/sdb'' ''2'') then Map.empty else v)),
     ma_mounts = (\<lambda>log. None), ma_part_sectors = (\<lambda>p. Inr 63488), ma_opens = (\<lambda>p. True)\<rparr>"

definition sample_args :: tool_args where
  "sample_args = \<lparr>ta_label = ''CHOOSABLE'', ta_fs = ExFat, ta_efi_bin = [0x4D, 0x5A]\<rparr>"

lemma sample_fat_laws: "fat_laws sample_fat (\<lambda>v. v)"
proof -
  have k: "take (Suc (length d)) (fat_key (d @ [x])) = fat_key (d @ [x])" for d x by (simp add: fat_key_def)
  have "fat_creates sample_fat (\<lambda>v. v)" "fat_writes sample_fat (\<lambda>v. v)" "fat_lists sample_fat (\<lambda>v. v)"
    by (auto simp: sample_fat_def fat_creates_def fat_writes_def fat_lists_def file_bytes_def split: if_splits)
  moreover have "fat_renames sample_fat (\<lambda>v. v)" using k by (auto simp: sample_fat_def fat_renames_def)
  ultimately show ?thesis by (simp add: fat_laws_def)
qed

lemma sample_machine_laws: "machine_laws sample_machine (\<lambda>v. v)"
  by (simp add: machine_laws_def sample_machine_def mkfs_efi_def)

lemma sample_tool: "fst (run_tool sample_machine sample_fat sample_args c st) = Inr ()"
  by (cases c)
    (simp_all add: run_tool_def Let_def run_cmd_def execute_def sample_machine_def sample_args_def format_partition_def
      format_efi_partition_def write_efi_bootloader_def process_secure_boot_esp_def on_volume_def check_umount_def
      write_boot_file_def then_ok_def open_or_create_def sample_fat_def eval_nat_numeral split: prod.split)

lemma sample_results: "tool_results sample_machine sample_fat sample_args cs st c = Inr ()"
proof (induction cs arbitrary: st)
  case (Cons d ds)
  then show ?case using sample_tool [of d st] by (auto split: prod.split)
qed simp

lemma install_leaves_loader_witness:
  "\<exists>d' p. install_choosable sample_env (tool_results sample_machine sample_fat sample_args
        ([FormatPartition 1, FormatEfi 2] @ loader_calls False) \<lparr>ts_log = [], ts_vol = (\<lambda>p. Some (File [7, 7, 7]))\<rparr>)
        True False 0 True True blank_disk = Inr (d', Some p)
    \<and> (\<exists>st'. run_all sample_machine sample_fat sample_args ([FormatPartition 1, FormatEfi 2] @ loader_calls False)
          \<lparr>ts_log = [], ts_vol = (\<lambda>p. Some (File [7, 7, 7]))\<rparr> = (Inr (), st')
        \<and> ts_vol st' LOADER = Some (File [0x4D, 0x5A]))"
proof -
  obtain d' p where "install_choosable sample_env (tool_results sample_machine sample_fat sample_args
        ([FormatPartition 1, FormatEfi 2] @ loader_calls False) \<lparr>ts_log = [], ts_vol = (\<lambda>p. Some (File [7, 7, 7]))\<rparr>)
        True False 0 True True blank_disk = Inr (d', Some p)"
    using install_runs [OF sample_env_clean sample_results sample_guards(1) _ _ blank_detect] by (fastforce simp: blank_disk_def)
  from this install_leaves_loader [OF sample_fat_laws sample_machine_laws this] show ?thesis
    by (simp add: sample_args_def)
qed

lemma update_raw_mbr_ok:
  assumes "\<not> is_gpt_protective m" and s: "2048 * 512 \<le> dsize d"
  shows "\<exists>d'. update_raw crc boot_img stage2 d m = Some (Inr d')"
proof -
  have w: "\<exists>d'. disk_write e off bs = Inr d' \<and> dsize d' = dsize e" if "off + length bs \<le> 2048 * 512" "dsize e = dsize d" for e off bs
    by (rule disk_write_ok) (use that s in simp)
  obtain d1 where d1: "(if part1_active m = 0x00 \<and> part2_active m = 0x80
        then rbind (disk_write d 446 [PART_ACTIVE]) (\<lambda>d1. disk_write d1 462 [PART_INACTIVE]) else Inr d) = Inr d1" "dsize d1 = dsize d"
  proof (cases "part1_active m = 0x00 \<and> part2_active m = 0x80")
    case True
    obtain e where e: "disk_write d 446 [PART_ACTIVE] = Inr e" "dsize e = dsize d" using w [of 446 "[PART_ACTIVE]" d] by auto
    obtain f where "disk_write e 462 [PART_INACTIVE] = Inr f" "dsize f = dsize d" using w [of 462 "[PART_INACTIVE]" e] e by auto
    then show ?thesis using that [of f] True e by simp
  qed (use that in auto)
  obtain d2 where d2: "disk_write d1 512 (take (min (length stage2) (2047 * 512)) stage2) = Inr d2" "dsize d2 = dsize d"
    using w [of 512 "take (min (length stage2) (2047 * 512)) stage2" d1] d1(2) by auto
  obtain u r where ur: "disk_read d2 384 16 = Inr u" "length u = 16" "disk_read d2 (2040 * 512) (8 * 512) = Inr r" "length r = 8 * 512"
    using s d2(2) by (simp add: disk_read_def del: upt_rec_numeral)
  obtain d3 where d3: "disk_write d2 0 (boot_code_of boot_img) = Inr d3" "dsize d3 = dsize d"
  proof -
    have "length (boot_code_of boot_img) \<le> 440" by (simp add: boot_code_of_def)
    then show ?thesis using that w [of 0 "boot_code_of boot_img" d2] d2(2) by auto
  qed
  obtain d4 where d4: "disk_write d3 384 u = Inr d4" "dsize d4 = dsize d" using w [of 384 u d3] d3(2) ur(2) by auto
  obtain d5 where d5: "disk_write d4 (2040 * 512) r = Inr d5" using w [of "2040 * 512" r d4] d4(2) ur(4) by auto
  show ?thesis using assms(1) d1(1) d2(1) ur(1,3) d3(1) d4(1) d5
    by (simp add: update_raw_def update_stage2_def update_boot_code_def)
qed

lemma sample_installed:
  "\<exists>d' p m. dsize d' = 67108864 \<and> \<not> is_gpt_protective m
    \<and> detect_choosable (env_version sample_env) d' = Inr (True, None, Some p, None, m)"
proof -
  obtain d' p where run: "install_choosable sample_env (\<lambda>_. Inr ()) False False 0 True True blank_disk = Inr (d', Some p)"
    using sample_run by blast
  have g: "length (env_guid sample_env) = 16" "length (env_guid1 sample_env) = 16" "length (env_guid2 sample_env) = 16"
    by (simp_all add: sample_env_def)
  have z: "dsize d' = 67108864" using run
    by (auto simp: install_choosable_def rbind_Inr_iff write_mbr_f_def Let_def blank_disk_def simp del: run_tools.simps
        split: if_splits prod.splits dest!: disk_write_size)
  obtain m where d: "detect_choosable (env_version sample_env) d' = Inr (True, None, Some p, None, m)"
    using install_detected [OF run g, of "env_version sample_env"] by (auto simp: sample_env_def)
  then have "\<not> is_gpt_protective m"
    by (auto simp: detect_choosable_def rbind_Inr_iff Let_def mbr_new_empty_def split: sum.splits choosable_error.splits if_splits)
  with z d show ?thesis by blast
qed

lemma update_leaves_loader_witness:
  "\<exists>d d' st'. update_choosable sample_env (tool_results sample_machine sample_fat sample_args (loader_calls False)
        \<lparr>ts_log = [], ts_vol = (\<lambda>p. Some (File [7, 7, 7]))\<rparr>) None True d = Some (Inr (d', True))
    \<and> run_all sample_machine sample_fat sample_args (loader_calls False)
        \<lparr>ts_log = [], ts_vol = (\<lambda>p. Some (File [7, 7, 7]))\<rparr> = (Inr (), st')
    \<and> ts_vol st' LOADER = Some (File [0x4D, 0x5A, 7])"
proof -
  obtain d p m where d: "dsize d = 67108864" "\<not> is_gpt_protective m"
      "detect_choosable (env_version sample_env) d = Inr (True, None, Some p, None, m)" using sample_installed by blast
  obtain d' where r: "update_raw (env_crc sample_env) (env_boot_img sample_env) (env_stage2 sample_env) d m = Some (Inr d')"
    using update_raw_mbr_ok [OF d(2)] d(1) by force
  have k: "keeps_secure_boot sample_env d None = False" using d(3) by (simp add: keeps_secure_boot_def) (simp add: sample_env_def)
  have u: "update_choosable sample_env (tool_results sample_machine sample_fat sample_args (loader_calls (keeps_secure_boot sample_env d None))
      \<lparr>ts_log = [], ts_vol = (\<lambda>p. Some (File [7, 7, 7]))\<rparr>) None True d = Some (Inr (d', True))"
    using d(3) r sample_env_clean by (simp add: update_choosable_def env_clean_def run_tools_ok [OF sample_results])
  from u update_leaves_loader [OF sample_fat_laws sample_machine_laws u] show ?thesis
    unfolding k by (auto simp: sample_args_def file_bytes_def)
qed

end
