(* ===== verification/Sysfs.thy ===== *)
theory Sysfs
  imports DiskIo InstallerTools
begin

text \<open>
  What \<open>src/disk.rs\<close> reads of a block device from sysfs, as functions of the files there, and the version string
  it looks for on the EFI partition. \<open>block_of\<close> is the record of a device that the listing of drives starts from.
\<close>

section \<open>Text\<close>

definition white :: "char \<Rightarrow> bool" where
  "white c \<longleftrightarrow> (let n = of_char c :: nat in n = 32 \<or> (9 \<le> n \<and> n \<le> 13))"

definition trim_matches :: "(char \<Rightarrow> bool) \<Rightarrow> string \<Rightarrow> string" where
  "trim_matches p s = rev (dropWhile p (rev (dropWhile p s)))"

definition digit :: "char \<Rightarrow> bool" where
  "digit c \<longleftrightarrow> (let n = of_char c :: nat in 48 \<le> n \<and> n \<le> 57)"

definition parsed :: "string \<Rightarrow> nat" where
  "parsed s = foldl (\<lambda>v c. v * 10 + (of_char c - 48)) 0 s"

text \<open>\<open>str::parse\<close> of an unsigned type: a plus sign is allowed, and overflow is an error.\<close>

definition parse_unsigned :: "nat \<Rightarrow> string \<Rightarrow> nat option" where
  "parse_unsigned limit s =
     (let ds = (case s of c # cs \<Rightarrow> if c = CHR ''+'' then cs else s | [] \<Rightarrow> [])
      in if ds = [] \<or> \<not> list_all digit ds \<or> parsed ds \<ge> limit then None else Some (parsed ds))"

section \<open>The files of a device\<close>

text \<open>The files of sysfs by path, the names in \<open>/dev\<close>, and what a link resolves to.\<close>

record sysfs =
  sy_read :: "string \<Rightarrow> string option"
  sy_exists :: "string \<Rightarrow> bool"
  sy_canonical :: "string \<Rightarrow> string option"

definition class_file :: "string \<Rightarrow> string \<Rightarrow> string" where
  "class_file path file = ''/sys/class/block/'' @ trim_dev path @ ''/'' @ file"

definition is_whole_disk :: "sysfs \<Rightarrow> string \<Rightarrow> bool" where
  "is_whole_disk sy path =
     (let name = (if starts_with path ''/dev/'' then drop 5 path else path)
      in \<not> sy_exists sy (''/sys/class/block/'' @ name @ ''/start''))"

definition read_u64 :: "sysfs \<Rightarrow> string \<Rightarrow> choosable_error \<Rightarrow> choosable_error \<Rightarrow> choosable_error + u64" where
  "read_u64 sy file unreadable invalid =
     (case sy_read sy file of
        None \<Rightarrow> Inl unreadable
      | Some s \<Rightarrow> (case parse_unsigned (2 ^ 64) (trim_matches white s) of
                   None \<Rightarrow> Inl invalid
                 | Some n \<Rightarrow> Inr (word_of_nat n)))"

definition get_disk_size :: "sysfs \<Rightarrow> string \<Rightarrow> choosable_error + u64" where
  "get_disk_size sy path =
     rbind (read_u64 sy (class_file path ''size'') (DiskNotFound path) (Generic ''Invalid size for disk''))
       (\<lambda>sectors. Inr (sectors * SECTOR_SIZE))"

definition get_disk_model :: "sysfs \<Rightarrow> string \<Rightarrow> string" where
  "get_disk_model sy path =
     (case sy_read sy (class_file path ''device/model'') of None \<Rightarrow> ''Unknown'' | Some s \<Rightarrow> trim_matches white s)"

fun has_part :: "string \<Rightarrow> string \<Rightarrow> bool" where
  "has_part p [] \<longleftrightarrow> p = []"
| "has_part p (c # cs) \<longleftrightarrow> starts_with (c # cs) p \<or> has_part p cs"

definition is_usb_disk :: "sysfs \<Rightarrow> string \<Rightarrow> bool" where
  "is_usb_disk sy path \<longleftrightarrow>
     (case sy_canonical sy (''/sys/class/block/'' @ trim_dev path) of None \<Rightarrow> False | Some c \<Rightarrow> has_part ''/usb'' c)"

definition is_removable_disk :: "sysfs \<Rightarrow> string \<Rightarrow> bool" where
  "is_removable_disk sy path \<longleftrightarrow>
     (case sy_read sy (class_file path ''removable'') of None \<Rightarrow> False | Some s \<Rightarrow> trim_matches white s = ''1'')"

definition sector_size_in :: "sysfs \<Rightarrow> string \<Rightarrow> u32" where
  "sector_size_in sy file =
     (case sy_read sy file of
        None \<Rightarrow> 512
      | Some s \<Rightarrow> (case parse_unsigned (2 ^ 32) (trim_matches white s) of None \<Rightarrow> 512 | Some n \<Rightarrow> word_of_nat n))"

definition get_sector_size_logical :: "sysfs \<Rightarrow> string \<Rightarrow> u32" where
  "get_sector_size_logical sy path = sector_size_in sy (class_file path ''queue/logical_block_size'')"

definition get_sector_size_physical :: "sysfs \<Rightarrow> string \<Rightarrow> u32" where
  "get_sector_size_physical sy path = sector_size_in sy (class_file path ''queue/physical_block_size'')"

definition get_partition_start_sector :: "sysfs \<Rightarrow> string \<Rightarrow> choosable_error + u64" where
  "get_partition_start_sector sy part_path =
     read_u64 sy (class_file part_path ''start'') (Generic ''Cannot read start sector'') (Generic ''Invalid start sector'')"

definition get_partition_size_sectors :: "sysfs \<Rightarrow> string \<Rightarrow> choosable_error + u64" where
  "get_partition_size_sectors sy part_path =
     read_u64 sy (class_file part_path ''size'') (Generic ''Cannot read size'') (Generic ''Invalid size'')"

definition block_of :: "sysfs \<Rightarrow> string \<Rightarrow> sys_block" where
  "block_of sy name =
     (let disk_path = ''/dev/'' @ name
      in \<lparr>sb_name = name, sb_dev_exists = sy_exists sy disk_path, sb_whole = is_whole_disk sy disk_path,
          sb_size = get_disk_size sy disk_path, sb_model = get_disk_model sy disk_path,
          sb_removable = is_removable_disk sy disk_path, sb_usb = is_usb_disk sy disk_path,
          sb_logical = get_sector_size_logical sy disk_path, sb_physical = get_sector_size_physical sy disk_path\<rparr>)"

section \<open>The version string\<close>

fun find_after :: "string \<Rightarrow> string \<Rightarrow> string option" where
  "find_after p [] = (if p = [] then Some [] else None)"
| "find_after p (c # cs) = (if starts_with (c # cs) p then Some (drop (length p) (c # cs)) else find_after p cs)"

definition quote_or_white :: "char \<Rightarrow> bool" where
  "quote_or_white c \<longleftrightarrow> of_char c = (34 :: nat) \<or> of_char c = (39 :: nat) \<or> white c"

fun version_in :: "string list \<Rightarrow> string option" where
  "version_in [] = None"
| "version_in (line # lines) =
     (case find_after ''CHOOSABLE_VERSION='' line of
        None \<Rightarrow> version_in lines
      | Some after \<Rightarrow>
          let version = trim_matches quote_or_white after
          in if version \<noteq> [] then Some version else version_in lines)"

text \<open>
  \<open>open_file\<close> gives the lines of a file on the volume: those read before an error, when reading fails. The volume
  is what a \<open>PartitionSlice\<close> shows of the disk; \<open>Inl\<close> is an error of the disk itself.
\<close>

definition read_choosable_version ::
  "'v fat \<Rightarrow> ('v \<Rightarrow> string list \<Rightarrow> string \<Rightarrow> string list option) \<Rightarrow> choosable_error + 'v \<Rightarrow> choosable_error + string option" where
  "read_choosable_version ff open_file volume =
     rbind volume (\<lambda>v.
       Inr (if \<not> ff_new ff v \<or> \<not> ff_open_dir ff v [] ''grub'' then None
            else case open_file v [''grub''] ''grub.cfg'' of
                   None \<Rightarrow> None
                 | Some content \<Rightarrow> version_in content))"

section \<open>Numbers in sysfs\<close>

lemma parsed_append: "parsed (s @ [c]) = parsed s * 10 + (of_char c - 48)"
  by (simp add: parsed_def)

lemma dec_digits_value: "list_all digit (dec_digits n) \<and> dec_digits n \<noteq> [] \<and> parsed (dec_digits n) = n"
proof (induction n rule: dec_digits.induct)
  case (1 n)
  have c: "of_char (char_of (48 + k) :: char) = (48 + k :: nat)" if "k < 10" for k using that by (simp add: of_char_of)
  then have d: "digit (char_of (48 + k))" if "k < 10" for k :: nat using c [OF that] that by (simp add: digit_def Let_def)
  show ?case
  proof (cases "n < 10")
    case True
    then show ?thesis using c [of n] d [of n] by (subst (1 2 3) dec_digits.simps) (simp add: parsed_def)
  next
    case False
    then show ?thesis using 1 c [of "n mod 10"] d [of "n mod 10"]
      by (subst (1 2 3) dec_digits.simps) (simp add: parsed_append)
  qed
qed

lemma digit_facts: "digit c \<Longrightarrow> \<not> white c \<and> c \<noteq> CHR ''+''"
  by (auto simp: digit_def white_def Let_def)

lemma trim_digits: "list_all digit ds \<Longrightarrow> trim_matches white (ds @ [CHR 0x0A]) = ds"
proof -
  assume d: "list_all digit ds"
  have w: "dropWhile white ds = ds" if "list_all digit ds" for ds using that digit_facts by (cases ds) auto
  have n: "white (CHR 0x0A)" by code_simp
  show ?thesis
  proof (cases "ds = []")
    case False
    have "dropWhile white (ds @ [CHR 0x0A]) = ds @ [CHR 0x0A]" using d False digit_facts by (cases ds) auto
    moreover have "dropWhile white (rev ds) = rev ds" using w [of "rev ds"] d by (simp add: list_all_iff)
    ultimately show ?thesis using n by (simp add: trim_matches_def)
  qed (simp add: trim_matches_def n)
qed

lemma parse_dec_digits: "n < limit \<Longrightarrow> parse_unsigned limit (dec_digits n) = Some n"
proof -
  assume l: "n < limit"
  obtain c cs where d: "dec_digits n = c # cs" using dec_digits_value [of n] by (cases "dec_digits n") auto
  moreover have "c \<noteq> CHR ''+''" using dec_digits_value [of n] d digit_facts by auto
  ultimately show ?thesis using dec_digits_value [of n] l by (simp add: parse_unsigned_def)
qed

text \<open>The size of a disk is the number Linux writes in its size file, in bytes.\<close>

lemma disk_size_read:
  assumes "sy_read sy (class_file path ''size'') = Some (dec_digits n @ [CHR 0x0A])" and "n < 2 ^ 55"
  shows "get_disk_size sy path = Inr (word_of_nat (n * 512))"
proof -
  have "n < 2 ^ 64" using assms(2) by simp
  then show ?thesis using assms(1) dec_digits_value [of n]
    by (simp add: get_disk_size_def read_u64_def trim_digits parse_dec_digits SECTOR_SIZE_def)
qed

end
