(* ===== verification/BootImage.thy ===== *)
theory BootImage
  imports Prelude
begin

text \<open>
  The boot images that \<open>bootloader/build.rs\<close> assembles: the instruction encoder \<open>CodeBuf\<close>, the boot code of
  the MBR, the second stage with its descriptor table and the way from 16 to 64 bits, and the flat image of the
  kernel's ELF file. Compiling the kernel and the UEFI loader with cargo is not modelled; their files are arguments.
\<close>

section \<open>The instruction encoder\<close>

text \<open>A buffer is the bytes written so far; a method appends.\<close>

definition STAGE2_KERNEL_OFFSET :: nat where "STAGE2_KERNEL_OFFSET = 0x2000"
definition STAGE2_GDT_PTR_OFF :: nat where "STAGE2_GDT_PTR_OFF = 0x120"
definition STAGE2_GDT_ENTS_OFF :: nat where "STAGE2_GDT_ENTS_OFF = 0x126"

definition emit :: "u8 \<Rightarrow> bytes \<Rightarrow> bytes" where
  "emit b c = c @ [b]"

definition emit16 :: "u16 \<Rightarrow> bytes \<Rightarrow> bytes" where
  "emit16 w c = c @ [ucast w, ucast (drop_bit 8 w)]"

definition emit32 :: "u32 \<Rightarrow> bytes \<Rightarrow> bytes" where
  "emit32 d c = c @ [ucast d, ucast (drop_bit 8 d), ucast (drop_bit 16 d), ucast (drop_bit 24 d)]"

text \<open>Calls chained on a buffer.\<close>

definition code :: "(bytes \<Rightarrow> bytes) list \<Rightarrow> bytes \<Rightarrow> bytes" where
  "code fs c = fold (\<lambda>f. f) fs c"

definition emits :: "bytes \<Rightarrow> bytes \<Rightarrow> bytes" where
  "emits bs c = code (map emit bs) c"

definition cli :: "bytes \<Rightarrow> bytes" where "cli = emit 0xFA"
definition sti :: "bytes \<Rightarrow> bytes" where "sti = emit 0xFB"
definition cld :: "bytes \<Rightarrow> bytes" where "cld = emit 0xFC"
definition nop :: "bytes \<Rightarrow> bytes" where "nop = emit 0x90"
definition ret :: "bytes \<Rightarrow> bytes" where "ret = emit 0xC3"
definition xor_ax_ax :: "bytes \<Rightarrow> bytes" where "xor_ax_ax = emits [0x31, 0xC0]"
definition xor_bx_bx :: "bytes \<Rightarrow> bytes" where "xor_bx_bx = emits [0x31, 0xDB]"
definition mov_ss_ax :: "bytes \<Rightarrow> bytes" where "mov_ss_ax = emits [0x8E, 0xD0]"
definition mov_ds_ax :: "bytes \<Rightarrow> bytes" where "mov_ds_ax = emits [0x8E, 0xD8]"
definition mov_es_ax :: "bytes \<Rightarrow> bytes" where "mov_es_ax = emits [0x8E, 0xC0]"
definition mov_sp :: "u16 \<Rightarrow> bytes \<Rightarrow> bytes" where "mov_sp v = code [emit 0xBC, emit16 v]"
definition mov_si :: "u16 \<Rightarrow> bytes \<Rightarrow> bytes" where "mov_si v = code [emit 0xBE, emit16 v]"
definition mov_di :: "u16 \<Rightarrow> bytes \<Rightarrow> bytes" where "mov_di v = code [emit 0xBF, emit16 v]"
definition mov_cx :: "u16 \<Rightarrow> bytes \<Rightarrow> bytes" where "mov_cx v = code [emit 0xB9, emit16 v]"
definition mov_bx :: "u16 \<Rightarrow> bytes \<Rightarrow> bytes" where "mov_bx v = code [emit 0xBB, emit16 v]"
definition mov_ah :: "u8 \<Rightarrow> bytes \<Rightarrow> bytes" where "mov_ah v = code [emit 0xB4, emit v]"
definition mov_al :: "u8 \<Rightarrow> bytes \<Rightarrow> bytes" where "mov_al v = code [emit 0xB0, emit v]"
definition mov_mem8_dl :: "u16 \<Rightarrow> bytes \<Rightarrow> bytes" where "mov_mem8_dl addr = code [emit 0x88, emit 0x16, emit16 addr]"
definition mov_dl_mem16 :: "u16 \<Rightarrow> bytes \<Rightarrow> bytes" where "mov_dl_mem16 addr = code [emit 0x8A, emit 0x16, emit16 addr]"
definition mov_mem8_imm8 :: "u16 \<Rightarrow> u8 \<Rightarrow> bytes \<Rightarrow> bytes" where
  "mov_mem8_imm8 addr v = code [emit 0xC6, emit 0x06, emit16 addr, emit v]"
definition mov_mem16_imm16 :: "u16 \<Rightarrow> u16 \<Rightarrow> bytes \<Rightarrow> bytes" where
  "mov_mem16_imm16 addr v = code [emit 0xC7, emit 0x06, emit16 addr, emit16 v]"
definition mov_mem32_imm32 :: "u16 \<Rightarrow> u32 \<Rightarrow> bytes \<Rightarrow> bytes" where
  "mov_mem32_imm32 addr v = code [emit 0x66, emit 0xC7, emit 0x06, emit16 addr, emit32 v]"
definition cmp_mem8_imm8 :: "u16 \<Rightarrow> u8 \<Rightarrow> bytes \<Rightarrow> bytes" where
  "cmp_mem8_imm8 addr v = code [emit 0x80, emit 0x3E, emit16 addr, emit v]"
definition cmp_bx :: "u16 \<Rightarrow> bytes \<Rightarrow> bytes" where "cmp_bx v = code [emit 0x81, emit 0xFB, emit16 v]"
definition test_cl :: "u8 \<Rightarrow> bytes \<Rightarrow> bytes" where "test_cl v = code [emit 0xF6, emit 0xC1, emit v]"
definition shr_mem16_1 :: "u16 \<Rightarrow> bytes \<Rightarrow> bytes" where "shr_mem16_1 addr = code [emit 0xD1, emit 0x2E, emit16 addr]"
definition rep_movsw :: "bytes \<Rightarrow> bytes" where "rep_movsw = emits [0xF3, 0xA5]"
definition lodsb :: "bytes \<Rightarrow> bytes" where "lodsb = emit 0xAC"
definition test_al_al :: "bytes \<Rightarrow> bytes" where "test_al_al = emits [0x08, 0xC0]"
definition interrupt :: "u8 \<Rightarrow> bytes \<Rightarrow> bytes" where "interrupt n = code [emit 0xCD, emit n]"
definition jmp_short :: "u8 \<Rightarrow> bytes \<Rightarrow> bytes" where "jmp_short rel = code [emit 0xEB, emit rel]"
definition jmp_far :: "u16 \<Rightarrow> u16 \<Rightarrow> bytes \<Rightarrow> bytes" where "jmp_far seg off = code [emit 0xEA, emit16 off, emit16 seg]"
definition pusha :: "bytes \<Rightarrow> bytes" where "pusha = emit 0x60"
definition popa :: "bytes \<Rightarrow> bytes" where "popa = emit 0x61"
definition lgdt_mem16 :: "u16 \<Rightarrow> bytes \<Rightarrow> bytes" where "lgdt_mem16 addr = code [emits [0x0F, 0x01, 0x16], emit16 addr]"
definition mov_eax_cr0 :: "bytes \<Rightarrow> bytes" where "mov_eax_cr0 = emits [0x0F, 0x20, 0xC0]"
definition mov_cr0_eax :: "bytes \<Rightarrow> bytes" where "mov_cr0_eax = emits [0x0F, 0x22, 0xC0]"
definition or_eax_imm32 :: "u32 \<Rightarrow> bytes \<Rightarrow> bytes" where "or_eax_imm32 v = code [emits [0x66, 0x0D], emit32 v]"
definition jmp_far32 :: "u16 \<Rightarrow> u32 \<Rightarrow> bytes \<Rightarrow> bytes" where
  "jmp_far32 sel off = code [emits [0x66, 0xEA], emit32 off, emit16 sel]"

text \<open>Jumps whose target is filled in later: the position of the jump, and the patch.\<close>

definition jump_ph :: "u8 \<Rightarrow> bytes \<Rightarrow> bytes" where "jump_ph opcode c = c @ [opcode, 0]"
definition jc_ph :: "bytes \<Rightarrow> bytes" where "jc_ph = jump_ph 0x72"
definition jnc_ph :: "bytes \<Rightarrow> bytes" where "jnc_ph = jump_ph 0x73"
definition jne_ph :: "bytes \<Rightarrow> bytes" where "jne_ph = jump_ph 0x75"
definition jz_ph :: "bytes \<Rightarrow> bytes" where "jz_ph = jump_ph 0x74"

definition patch_rel8_here :: "nat \<Rightarrow> bytes \<Rightarrow> bytes" where
  "patch_rel8_here pos c = c[pos + 1 := word_of_nat (length c) - word_of_nat pos - 2]"

definition pad_to :: "nat \<Rightarrow> u8 \<Rightarrow> bytes \<Rightarrow> bytes" where
  "pad_to n b c = c @ replicate (n - length c) b"

section \<open>The boot code of the MBR\<close>

definition build_mbr_boot_sector :: bytes where
  "build_mbr_boot_sector =
     (let dn = 0x07B0; ul = 0x07B1; dsc = 0x07C2; dll = 0x07C8; da = 0x07C0; cookie_addr = 0x7B00;
          c = code [cli, xor_ax_ax, mov_ss_ax, mov_sp 0x7C00, mov_ds_ax, mov_es_ax, cld,
                mov_si 0x7C00, mov_di 0x0600, mov_cx 0x0100, rep_movsw, jmp_far 0x0000 0x061E,
                pad_to 0x001E 0x90, sti, mov_mem8_dl dn,
                emit 0x66, emit 0xA1, emit16 cookie_addr, emit 0x66, emit 0x3D, emit32 0x544F4F42] [];
          jne_normal = length c;
          c = code [jne_ph, emit 0x66, emit 0xC7, emit 0x06, emit16 cookie_addr, emit32 0,
                mov_dl_mem16 dn, jmp_far 0x0000 0x7C00, patch_rel8_here jne_normal,
                mov_ah 0x41, mov_bx 0x55AA, interrupt 0x13] c;
          j1 = length c;
          c = code [jc_ph, cmp_bx 0xAA55] c;
          j2 = length c;
          c = code [jne_ph, test_cl 0x01] c;
          j3 = length c;
          c = code [jz_ph, mov_mem8_imm8 ul 1, patch_rel8_here j1, patch_rel8_here j2, patch_rel8_here j3,
                mov_mem32_imm32 dll 1, mov_mem32_imm32 (dll + 4) 0, mov_mem16_imm16 dsc 127,
                mov_mem16_imm16 0x07C0 0x0010, mov_mem16_imm16 0x07C4 0x7E00, mov_mem16_imm16 0x07C6 0x0000,
                cmp_mem8_imm8 ul 1] c;
          j4 = length c;
          c = code [jne_ph, mov_ah 0x42, mov_dl_mem16 dn, mov_si da, interrupt 0x13] c;
          j5 = length c;
          c = code [jnc_ph, shr_mem16_1 dsc] c;
          j6 = length c;
          c = code [jne_ph, patch_rel8_here j4, mov_si 0x07B2, emit 0xE8, emit16 0] c;
          crp = length c;
          c = code [jmp_short (- 2), patch_rel8_here j6, patch_rel8_here j5, mov_dl_mem16 dn, jmp_far 0x0000 0x7E00] c;
          pl = length c;
          c = c[crp - 2 := word_of_nat (pl - crp), crp - 1 := word_of_nat ((pl - crp) div 256)];
          c = code [pusha, mov_ah 0x0E, xor_bx_bx, lodsb, test_al_al] c;
          pz = length c;
          c = code [jz_ph, interrupt 0x10, jmp_short (- 9), popa, ret, patch_rel8_here pz] c
      in pad_to 440 0 c)"

section \<open>The second stage\<close>

definition stage2_real :: "bytes" where
  "stage2_real =
     code [cli, xor_ax_ax, mov_ss_ax, mov_sp 0x7E00, mov_mem8_dl 0x7DFE,
       mov_al 0xD1, emit 0xE6, emit 0x64, mov_al 0xDF, emit 0xE6, emit 0x60, mov_cx 0xFFFF, emit 0xE2, emit 0xFE,
       mov_ah 0x24, mov_al 0x01, interrupt 0x15, mov_al 0x02, emit 0xE6, emit 0x92,
       pad_to STAGE2_GDT_PTR_OFF 0x90, emit16 (5 * 8 - 1), emit32 (0x7E00 + word_of_nat STAGE2_GDT_ENTS_OFF),
       pad_to STAGE2_GDT_ENTS_OFF 0, emit32 0, emit32 0,
       emit16 0xFFFF, emit16 0x0000, emit 0x00, emit 0x9A, emit 0xCF, emit 0x00,
       emit16 0xFFFF, emit16 0x0000, emit 0x00, emit 0x92, emit 0xCF, emit 0x00,
       emit16 0x0000, emit16 0x0000, emit 0x00, emit 0x9A, emit 0x20, emit 0x00,
       emit16 0x0000, emit16 0x0000, emit 0x00, emit 0x92, emit 0x00, emit 0x00] []"

text \<open>The trampoline starts at offset \<open>preamble_len\<close> of the buffer it is written to.\<close>

definition clear_table :: "u32 \<Rightarrow> bytes \<Rightarrow> bytes" where
  "clear_table phys = code [emit 0xBF, emit32 phys, emit 0xB9, emit32 1024, emits [0x31, 0xC0, 0xF3, 0xAB]]"

definition stage2_trampoline :: "nat \<Rightarrow> bytes \<Rightarrow> bytes" where
  "stage2_trampoline kernel_len c =
     (let pml4_phys = 0x90000; pdpt_phys = 0x91000; pd_phys = 0x92000;
          c = code [emit 0xB8, emit32 0x10, emits [0x8E, 0xD8, 0x8E, 0xC0, 0x8E, 0xE0, 0x8E, 0xE8, 0x8E, 0xD0],
                emit 0xBC, emit32 0x00080000,
                emit 0xBE, emit32 0x9E00, emit 0xBF, emit32 0x100000,
                emit 0xB9, emit32 (word_of_nat ((kernel_len + 3) div 4)), emits [0xFC, 0xF3, 0xA5],
                clear_table pml4_phys, clear_table pdpt_phys,
                emits [0xC7, 0x05], emit32 pml4_phys, emit32 (pdpt_phys OR 3),
                emits [0xC7, 0x05], emit32 pdpt_phys, emit32 (pd_phys OR 3),
                emit 0xBF, emit32 pd_phys, emit 0xB9, emit32 512, emits [0x31, 0xF6]] c;
          fl = length c;
          c = code [emits [0x89, 0xF0, 0xC1, 0xE0, 21], emit 0x0D, emit32 0x83, emits [0xAB, 0x31, 0xC0, 0xAB, 0x46, 0x49]] c;
          fj = length c;
          c = code [emits [0x75, 0x00]] c;
          c = c[fj + 1 := word_of_nat fl - word_of_nat fj - 2]
      in code [emits [0x0F, 0x20, 0xE0, 0x83, 0xC8, 0x20, 0x0F, 0x22, 0xE0], emit 0xB8, emit32 pml4_phys, emits [0x0F, 0x22, 0xD8],
           emit 0xB9, emit32 0xC0000080, emits [0x0F, 0x32, 0x0D], emit32 0x100, emits [0x0F, 0x30],
           mov_eax_cr0, emit 0x0D, emit32 0x80000000, mov_cr0_eax, emit 0xEA, emit32 0x100000, emit16 0x18] c)"

definition build_stage2_binary :: "bytes \<Rightarrow> bytes" where
  "build_stage2_binary kernel_bin =
     (let preamble_len = length stage2_real;
          trampoline = drop preamble_len (stage2_trampoline (length kernel_bin) stage2_real);
          c = code [lgdt_mem16 (0x7E00 + word_of_nat STAGE2_GDT_PTR_OFF), mov_eax_cr0, or_eax_imm32 1, mov_cr0_eax] stage2_real;
          c = jmp_far32 0x08 (0x7E00 + word_of_nat (length c) + 8) c;
          c = c @ trampoline
      in pad_to STAGE2_KERNEL_OFFSET 0 c @ kernel_bin)"

section \<open>The kernel's flat image\<close>

text \<open>A loadable segment: address, offset and size in the file. The offset of a header that wraps is out of range.\<close>

record elf_segment =
  seg_va :: nat
  seg_off :: nat
  seg_size :: nat

definition elf_header_at :: "bytes \<Rightarrow> nat \<Rightarrow> elf_segment option" where
  "elf_header_at elf off =
     (if off + 56 > length elf then None
      else if (from_le (take 4 (drop off elf)) :: u32) \<noteq> 1 then None
      else Some \<lparr>seg_va = le_nat (take 8 (drop (off + 16) elf)), seg_off = le_nat (take 8 (drop (off + 8) elf)),
                 seg_size = le_nat (take 8 (drop (off + 32) elf))\<rparr>)"

definition lo_segments :: "bytes \<Rightarrow> elf_segment list" where
  "lo_segments elf =
     (let e_phoff = le_nat (take 8 (drop 32 elf)); e_phnum = le_nat (take 2 (drop 56 elf))
      in filter (\<lambda>s. seg_va s \<ge> 0x1000 \<or> seg_size s \<ge> 0x1000)
           (List.map_filter (\<lambda>i. elf_header_at elf ((e_phoff + i * 56) mod 2 ^ 64)) [0..<e_phnum]))"

text \<open>Copying one segment; \<open>None\<close> is a slice out of range.\<close>

definition copy_segment :: "bytes \<Rightarrow> nat \<Rightarrow> elf_segment \<Rightarrow> bytes \<Rightarrow> bytes option" where
  "copy_segment elf min_vaddr s flat =
     (let dest_off = seg_va s - min_vaddr
      in if seg_off s < length elf then
           let src_len = min (seg_size s) (length elf - seg_off s)
           in if dest_off > length flat then None
              else blit flat dest_off (take (min src_len (length flat - dest_off)) (drop (seg_off s) elf))
         else Some flat)"

fun copy_segments :: "bytes \<Rightarrow> nat \<Rightarrow> elf_segment list \<Rightarrow> bytes \<Rightarrow> bytes option" where
  "copy_segments elf min_vaddr [] flat = Some flat"
| "copy_segments elf min_vaddr (s # ss) flat = do { f \<leftarrow> copy_segment elf min_vaddr s flat; copy_segments elf min_vaddr ss f }"

definition extract_flat_from_elf :: "bytes \<Rightarrow> bytes option" where
  "extract_flat_from_elf elf =
     (if length elf < 64 then Some (replicate 512 0)
      else
        let segs = sort_key seg_va (lo_segments elf)
        in if segs = [] then Some (replicate 512 0)
           else
             let min_vaddr = seg_va (hd segs);
                 max_end = Max (set (map (\<lambda>s. seg_va s - min_vaddr + seg_size s) segs))
             in copy_segments elf min_vaddr segs (replicate (max max_end 512) 0))"

end
