(* ===== verification/X86Real.thy ===== *)
theory X86Real
  imports Prelude
begin

text \<open>
  A processor in real mode, for exactly the instructions of the boot code that \<open>bootloader/build.rs\<close> assembles and
  those its second stage runs into. An instruction outside this set is \<open>None\<close>. The services of the BIOS are a
  function of the interrupt number and the state behind the interrupt instruction; port output has no effect here.
\<close>

section \<open>State\<close>

type_synonym ram = "nat \<Rightarrow> u8"

text \<open>EAX is split in its bytes and its upper half; the other registers are as wide as the code uses them.\<close>

record mach =
  al :: u8
  ah :: u8
  eax_high :: u16
  bx :: u16
  cx :: u16
  dl :: u8
  dh :: u8
  si :: u16
  di :: u16
  bp :: u16
  sp :: u16
  cs :: u16
  ds :: u16
  es :: u16
  ss :: u16
  ip :: nat
  cf :: bool
  zf :: bool
  af :: bool
  df :: bool
  intr :: bool
  ram :: ram

definition linear :: "u16 \<Rightarrow> u16 \<Rightarrow> nat" where
  "linear seg off = 16 * unat seg + unat off"

definition load16 :: "ram \<Rightarrow> nat \<Rightarrow> u16" where
  "load16 m a = word_of_nat (unat (m a) + 256 * unat (m (a + 1)))"

definition store16 :: "nat \<Rightarrow> u16 \<Rightarrow> ram \<Rightarrow> ram" where
  "store16 a v m = m(a := ucast v, a + 1 := ucast (drop_bit 8 v))"

definition store32 :: "nat \<Rightarrow> u16 \<Rightarrow> u16 \<Rightarrow> ram \<Rightarrow> ram" where
  "store32 a lo hi m = store16 (a + 2) hi (store16 a lo m)"

definition byte_at :: "mach \<Rightarrow> nat \<Rightarrow> u8" where
  "byte_at s k = ram s (16 * unat (cs s) + ip s + k)"

definition imm16 :: "mach \<Rightarrow> nat \<Rightarrow> u16" where
  "imm16 s k = load16 (ram s) (16 * unat (cs s) + ip s + k)"

definition skip :: "nat \<Rightarrow> mach \<Rightarrow> mach" where
  "skip n s = s\<lparr>ip := (ip s + n) mod 65536\<rparr>"

definition short_target :: "mach \<Rightarrow> nat" where
  "short_target s = nat ((int (ip s) + 2 + sint (byte_at s 1)) mod 65536)"

definition push16 :: "u16 \<Rightarrow> mach \<Rightarrow> mach" where
  "push16 v s = s\<lparr>sp := sp s - 2, ram := store16 (linear (ss s) (sp s - 2)) v (ram s)\<rparr>"

definition top16 :: "mach \<Rightarrow> nat \<Rightarrow> u16" where
  "top16 s k = load16 (ram s) (linear (ss s) (sp s + word_of_nat k))"

definition ax :: "mach \<Rightarrow> u16" where
  "ax s = word_of_nat (unat (al s) + 256 * unat (ah s))"

definition set_ax :: "u16 \<Rightarrow> mach \<Rightarrow> mach" where
  "set_ax v s = s\<lparr>al := ucast v, ah := ucast (drop_bit 8 v)\<rparr>"

section \<open>Instructions\<close>

definition exec_mov :: "u8 \<Rightarrow> mach \<Rightarrow> mach option" where
  "exec_mov op s =
     (if op = 0xB0 then Some (skip 2 (s\<lparr>al := byte_at s 1\<rparr>))
      else if op = 0xB4 then Some (skip 2 (s\<lparr>ah := byte_at s 1\<rparr>))
      else if op = 0xB9 then Some (skip 3 (s\<lparr>cx := imm16 s 1\<rparr>))
      else if op = 0xBB then Some (skip 3 (s\<lparr>bx := imm16 s 1\<rparr>))
      else if op = 0xBC then Some (skip 3 (s\<lparr>sp := imm16 s 1\<rparr>))
      else if op = 0xBE then Some (skip 3 (s\<lparr>si := imm16 s 1\<rparr>))
      else if op = 0xBF then Some (skip 3 (s\<lparr>di := imm16 s 1\<rparr>))
      else if op = 0x88 \<and> byte_at s 1 = 0x16 then
        Some (skip 4 (s\<lparr>ram := (ram s)(linear (ds s) (imm16 s 2) := dl s)\<rparr>))
      else if op = 0x8A \<and> byte_at s 1 = 0x16 then Some (skip 4 (s\<lparr>dl := ram s (linear (ds s) (imm16 s 2))\<rparr>))
      else if op = 0x8E \<and> byte_at s 1 = 0xD0 then Some (skip 2 (s\<lparr>ss := ax s\<rparr>))
      else if op = 0x8E \<and> byte_at s 1 = 0xD8 then Some (skip 2 (s\<lparr>ds := ax s\<rparr>))
      else if op = 0x8E \<and> byte_at s 1 = 0xC0 then Some (skip 2 (s\<lparr>es := ax s\<rparr>))
      else if op = 0xC6 \<and> byte_at s 1 = 0x06 then
        Some (skip 5 (s\<lparr>ram := (ram s)(linear (ds s) (imm16 s 2) := byte_at s 4)\<rparr>))
      else if op = 0xC7 \<and> byte_at s 1 = 0x06 then
        Some (skip 6 (s\<lparr>ram := store16 (linear (ds s) (imm16 s 2)) (imm16 s 4) (ram s)\<rparr>))
      else None)"

text \<open>The operand-size prefix 66: a load, a comparison and a store of 32 bits.\<close>

definition exec_66 :: "mach \<Rightarrow> mach option" where
  "exec_66 s =
     (if byte_at s 1 = 0xA1 then
        let a = linear (ds s) (imm16 s 2)
        in Some (skip 4 (s\<lparr>al := ram s a, ah := ram s (a + 1), eax_high := load16 (ram s) (a + 2)\<rparr>))
      else if byte_at s 1 = 0x3D then
        Some (skip 6 (s\<lparr>zf := (ax s = imm16 s 2 \<and> eax_high s = imm16 s 4),
          cf := (eax_high s < imm16 s 4 \<or> eax_high s = imm16 s 4 \<and> ax s < imm16 s 2)\<rparr>))
      else if byte_at s 1 = 0xC7 \<and> byte_at s 2 = 0x06 then
        Some (skip 9 (s\<lparr>ram := store32 (linear (ds s) (imm16 s 3)) (imm16 s 5) (imm16 s 7) (ram s)\<rparr>))
      else None)"

definition bh_of :: "u16 \<Rightarrow> u8" where "bh_of v = ucast (drop_bit 8 v)"

definition exec_alu :: "u8 \<Rightarrow> mach \<Rightarrow> mach option" where
  "exec_alu op s =
     (if op = 0x31 \<and> byte_at s 1 = 0xC0 then Some (skip 2 (s\<lparr>al := 0, ah := 0, zf := True, cf := False\<rparr>))
      else if op = 0x31 \<and> byte_at s 1 = 0xDB then Some (skip 2 (s\<lparr>bx := 0, zf := True, cf := False\<rparr>))
      else if op = 0x08 \<and> byte_at s 1 = 0xC0 then Some (skip 2 (s\<lparr>zf := (al s = 0), cf := False\<rparr>))
      else if op = 0x80 \<and> byte_at s 1 = 0x3E then
        let v = ram s (linear (ds s) (imm16 s 2))
        in Some (skip 5 (s\<lparr>zf := (v = byte_at s 4), cf := (v < byte_at s 4)\<rparr>))
      else if op = 0x81 \<and> byte_at s 1 = 0xFB then
        Some (skip 4 (s\<lparr>zf := (bx s = imm16 s 2), cf := (bx s < imm16 s 2)\<rparr>))
      else if op = 0xF6 \<and> byte_at s 1 = 0xC1 then
        Some (skip 3 (s\<lparr>zf := (ucast (cx s) AND byte_at s 2 = 0), cf := False\<rparr>))
      else if op = 0xD1 \<and> byte_at s 1 = 0x2E then
        let a = linear (ds s) (imm16 s 2); v = load16 (ram s) a
        in Some (skip 4 (s\<lparr>ram := store16 a (drop_bit 1 v) (ram s), zf := (drop_bit 1 v = 0), cf := bit v 0\<rparr>))
      else if op = 0x27 then
        let low = al s AND 0xF > 9 \<or> af s; high = al s > 0x99 \<or> cf s;
            v = al s + (if low then 6 else 0) + (if high then 0x60 else 0)
        in Some (skip 1 (s\<lparr>al := v, af := low, cf := high, zf := (v = 0)\<rparr>))
      else if op = 0x00 \<and> byte_at s 1 = 0x26 then
        let a = linear (ds s) (imm16 s 2); v = ram s a + ah s
        in Some (skip 4 (s\<lparr>ram := (ram s)(a := v), zf := (v = 0), cf := (v < ah s)\<rparr>))
      else if op = 0x00 \<and> byte_at s 1 = 0x00 then
        let a = linear (ds s) (bx s + si s); v = ram s a + al s
        in Some (skip 2 (s\<lparr>ram := (ram s)(a := v), zf := (v = 0), cf := (v < al s)\<rparr>))
      else if op = 0x00 \<and> byte_at s 1 = 0xFF then
        let b = bh_of (bx s); v = b + b
        in Some (skip 2 (s\<lparr>bx := ucast v * 256 + (bx s AND 0xFF), zf := (v = 0), cf := (v < b)\<rparr>))
      else if op = 0xFF \<and> byte_at s 1 = 0x00 then
        let a = linear (ds s) (bx s + si s); v = load16 (ram s) a + 1
        in Some (skip 2 (s\<lparr>ram := store16 a v (ram s), zf := (v = 0)\<rparr>))
      else None)"

definition exec_jump :: "u8 \<Rightarrow> mach \<Rightarrow> mach option" where
  "exec_jump op s =
     (if op \<in> {0x72, 0x73, 0x74, 0x75} then
        (if (if op = 0x72 then cf s else if op = 0x73 then \<not> cf s else if op = 0x74 then zf s else \<not> zf s)
         then Some (s\<lparr>ip := short_target s\<rparr>) else Some (skip 2 s))
      else if op = 0xEB then Some (s\<lparr>ip := short_target s\<rparr>)
      else if op = 0xE2 then
        (if cx s - 1 \<noteq> 0 then Some (s\<lparr>cx := cx s - 1, ip := short_target s\<rparr>) else Some (skip 2 (s\<lparr>cx := cx s - 1\<rparr>)))
      else if op = 0xEA then Some (s\<lparr>ip := unat (imm16 s 1), cs := imm16 s 3\<rparr>)
      else if op = 0x9A then
        Some ((push16 (word_of_nat (ip s + 5)) (push16 (cs s) s))\<lparr>ip := unat (imm16 s 1), cs := imm16 s 3\<rparr>)
      else if op = 0xE8 then
        Some ((push16 (word_of_nat (ip s + 3)) s)\<lparr>ip := (ip s + 3 + unat (imm16 s 1)) mod 65536\<rparr>)
      else if op = 0xC3 then Some (s\<lparr>ip := unat (top16 s 0), sp := sp s + 2\<rparr>)
      else None)"

definition movsw :: "mach \<Rightarrow> mach" where
  "movsw s =
     (let a = linear (ds s) (si s); b = linear (es s) (di s)
      in s\<lparr>ram := (ram s)(b := ram s a, b + 1 := ram s (a + 1)), si := si s + 2, di := di s + 2, cx := cx s - 1\<rparr>)"

definition pusha16 :: "mach \<Rightarrow> mach" where
  "pusha16 s =
     (let d = word_of_nat (unat (dl s) + 256 * unat (dh s))
      in push16 (di s) (push16 (si s) (push16 (bp s) (push16 (sp s) (push16 (bx s) (push16 d (push16 (cx s) (push16 (ax s) s))))))))"

definition popa16 :: "mach \<Rightarrow> mach" where
  "popa16 s =
     set_ax (top16 s 14) (s\<lparr>di := top16 s 0, si := top16 s 2, bp := top16 s 4, bx := top16 s 8,
       dl := ucast (top16 s 10), dh := ucast (drop_bit 8 (top16 s 10)), cx := top16 s 12, sp := sp s + 16\<rparr>)"

definition exec_misc :: "(u8 \<Rightarrow> mach \<Rightarrow> mach) \<Rightarrow> u8 \<Rightarrow> mach \<Rightarrow> mach option" where
  "exec_misc bios op s =
     (if op = 0xFA then Some (skip 1 (s\<lparr>intr := False\<rparr>))
      else if op = 0xFB then Some (skip 1 (s\<lparr>intr := True\<rparr>))
      else if op = 0xFC then Some (skip 1 (s\<lparr>df := False\<rparr>))
      else if op = 0x90 then Some (skip 1 s)
      else if op = 0xE6 then Some (skip 2 s)
      else if op = 0xF3 \<and> byte_at s 1 = 0xA5 \<and> \<not> df s then Some (skip 2 ((movsw ^^ unat (cx s)) s))
      else if op = 0xAC \<and> \<not> df s then Some (skip 1 (s\<lparr>al := ram s (linear (ds s) (si s)), si := si s + 1\<rparr>))
      else if op = 0x60 then Some (skip 1 (pusha16 s))
      else if op = 0x61 then Some (skip 1 (popa16 s))
      else if op = 0xCD then Some (bios (byte_at s 1) (skip 2 s))
      else None)"

definition step :: "(u8 \<Rightarrow> mach \<Rightarrow> mach) \<Rightarrow> mach \<Rightarrow> mach option" where
  "step bios s =
     (let op = byte_at s 0
      in if op \<in> {0xB0, 0xB4, 0xB9, 0xBB, 0xBC, 0xBE, 0xBF, 0x88, 0x8A, 0x8E, 0xC6, 0xC7} then exec_mov op s
         else if op = 0x66 then exec_66 s
         else if op \<in> {0x31, 0x08, 0x80, 0x81, 0xF6, 0xD1, 0x27, 0x00, 0xFF} then exec_alu op s
         else if op \<in> {0x72, 0x73, 0x74, 0x75, 0xEB, 0xE2, 0xEA, 0x9A, 0xE8, 0xC3} then exec_jump op s
         else exec_misc bios op s)"

section \<open>Runs\<close>

inductive reaches :: "(u8 \<Rightarrow> mach \<Rightarrow> mach) \<Rightarrow> mach \<Rightarrow> mach \<Rightarrow> bool" where
  stay: "reaches bios s s"
| go: "step bios s = Some t \<Longrightarrow> reaches bios t u \<Longrightarrow> reaches bios s u"

lemma reaches_trans: "reaches bios s t \<Longrightarrow> reaches bios t u \<Longrightarrow> reaches bios s u"
  by (induction rule: reaches.induct) (auto intro: reaches.intros)

lemma reaches_step: "step bios s = Some t \<Longrightarrow> reaches bios s t"
  by (blast intro: reaches.intros)

definition holds :: "ram \<Rightarrow> nat \<Rightarrow> bytes \<Rightarrow> bool" where
  "holds m a bs \<longleftrightarrow> (\<forall>i<length bs. m (a + i) = bs ! i)"

lemma holds_Nil [simp]: "holds m a []"
  by (simp add: holds_def)

lemma holds_Cons [simp]: "holds m a (b # bs) \<longleftrightarrow> m a = b \<and> holds m (Suc a) bs"
  by (auto simp: holds_def nth_Cons' less_Suc_eq_0_disj)

lemma holds_append: "holds m a (xs @ ys) \<longleftrightarrow> holds m a xs \<and> holds m (a + length xs) ys"
  by (induction xs arbitrary: a) auto

lemma holds_other: "b < a \<or> a + length bs \<le> b \<Longrightarrow> holds (m(b := v)) a bs \<longleftrightarrow> holds m a bs"
proof -
  assume b: "b < a \<or> a + length bs \<le> b"
  have "(m(b := v)) (a + i) = m (a + i)" if "i < length bs" for i
  proof -
    have "a + i \<noteq> b" using b that by linarith
    then show ?thesis by simp
  qed
  then show ?thesis by (simp add: holds_def)
qed

lemma holds_store16: "b + 1 < a \<or> a + length bs \<le> b \<Longrightarrow> holds (store16 b v m) a bs \<longleftrightarrow> holds m a bs"
proof -
  assume b: "b + 1 < a \<or> a + length bs \<le> b"
  then have "b < a \<or> a + length bs \<le> b" "b + 1 < a \<or> a + length bs \<le> b + 1" by linarith+
  then show ?thesis by (simp only: store16_def holds_other)
qed

lemma holds_store32: "b + 3 < a \<or> a + length bs \<le> b \<Longrightarrow> holds (store32 b lo hi m) a bs \<longleftrightarrow> holds m a bs"
proof -
  assume b: "b + 3 < a \<or> a + length bs \<le> b"
  then have "b + 1 < a \<or> a + length bs \<le> b" "b + 2 + 1 < a \<or> a + length bs \<le> b + 2" by linarith+
  then show ?thesis by (simp only: store32_def holds_store16)
qed

text \<open>Runs of no-operations, and a loop on itself.\<close>

lemma nops_run:
  assumes "holds (ram s) (16 * unat (cs s) + ip s) (replicate n 0x90)" and "ip s + n < 65536"
  shows "reaches bios s (s\<lparr>ip := ip s + n\<rparr>)"
  using assms
proof (induction n arbitrary: s)
  case (Suc n)
  have "step bios s = Some (s\<lparr>ip := ip s + 1\<rparr>)" using Suc.prems by (simp add: step_def byte_at_def exec_misc_def skip_def)
  moreover have "reaches bios (s\<lparr>ip := ip s + 1\<rparr>) (s\<lparr>ip := ip s + 1, ip := ip s + 1 + n\<rparr>)"
    using Suc.IH [of "s\<lparr>ip := ip s + 1\<rparr>"] Suc.prems by simp
  ultimately show ?case by (auto intro: reaches.go)
qed (simp add: reaches.stay)

lemma loop_run:
  assumes "holds (ram s) (16 * unat (cs s) + ip s) [0xE2, 0xFE]" and "ip s + 2 < 65536" and "cx s \<noteq> 0"
  shows "reaches bios s (s\<lparr>cx := 0, ip := ip s + 2\<rparr>)"
  using assms
proof (induction "unat (cx s)" arbitrary: s rule: less_induct)
  case less
  have t: "short_target s = ip s" using less.prems(1,2) by (simp add: short_target_def byte_at_def)
  show ?case
  proof (cases "cx s - 1 = 0")
    case True
    then have "step bios s = Some (s\<lparr>cx := 0, ip := ip s + 2\<rparr>)"
      using less.prems by (simp add: step_def byte_at_def exec_jump_def skip_def)
    then show ?thesis by (rule reaches_step)
  next
    case False
    have "step bios s = Some (s\<lparr>cx := cx s - 1, ip := ip s\<rparr>)"
      using less.prems False t by (simp add: step_def byte_at_def exec_jump_def skip_def)
    moreover have "reaches bios (s\<lparr>cx := cx s - 1\<rparr>) (s\<lparr>cx := cx s - 1, cx := 0, ip := ip s + 2\<rparr>)"
      using less.hyps [of "s\<lparr>cx := cx s - 1\<rparr>"] less.prems False by (simp add: measure_unat)
    ultimately show ?thesis by (auto intro: reaches.go)
  qed
qed

section \<open>Stepping through code\<close>

fun run :: "(u8 \<Rightarrow> mach \<Rightarrow> mach) \<Rightarrow> nat \<Rightarrow> mach \<Rightarrow> mach option" where
  "run bios 0 s = Some s"
| "run bios (Suc n) s = do { t \<leftarrow> step bios s; run bios n t }"

lemma run_reaches: "run bios n s = Some t \<Longrightarrow> reaches bios s t"
  by (induction n arbitrary: s) (auto intro: reaches.intros split: Option.bind_splits)

lemmas exec_defs = step_def exec_mov_def exec_66_def exec_alu_def exec_jump_def exec_misc_def byte_at_def imm16_def
  skip_def linear_def ax_def short_target_def

lemma load16_store16 [simp]: "load16 (store16 a v m) a = v"
proof -
  have v: "unat v < 65536" using unsigned_less [of v] by simp
  then have h: "unat v div 256 < 256" by (simp add: less_mult_imp_div_less)
  have "unat (ucast v :: u8) + 256 * unat (ucast (drop_bit 8 v) :: u8) = unat v mod 256 + 256 * (unat v div 256 mod 256)"
    by (simp add: unsigned_ucast_eq take_bit_eq_mod unat_drop_bit_eq drop_bit_eq_div unat_div)
  then have "unat (ucast v :: u8) + 256 * unat (ucast (drop_bit 8 v) :: u8) = unat v" using h by simp
  then show ?thesis by (simp add: load16_def store16_def)
qed

lemma load16_other: "b + 1 < a \<or> a + 1 < b \<Longrightarrow> load16 (store16 b v m) a = load16 m a"
  by (auto simp: load16_def store16_def)

lemma store16_other [simp]: "a \<noteq> b \<Longrightarrow> a \<noteq> b + 1 \<Longrightarrow> store16 b v m a = m a"
  by (simp add: store16_def)

lemma load16_upd: "a \<noteq> b \<Longrightarrow> a + 1 \<noteq> b \<Longrightarrow> load16 (m(b := v)) a = load16 m a"
  by (simp add: load16_def)

text \<open>Memory that is the same outside a set of addresses.\<close>

definition same_but :: "nat set \<Rightarrow> ram \<Rightarrow> ram \<Rightarrow> bool" where
  "same_but W m m' \<longleftrightarrow> (\<forall>a. a \<notin> W \<longrightarrow> m' a = m a)"

lemma same_but_refl: "same_but W m m"
  by (simp add: same_but_def)

lemma same_but_trans: "same_but W m m' \<Longrightarrow> same_but V m' m'' \<Longrightarrow> same_but (W \<union> V) m m''"
  by (simp add: same_but_def)

lemma same_but_mono: "same_but W m m' \<Longrightarrow> W \<subseteq> V \<Longrightarrow> same_but V m m'"
  by (auto simp: same_but_def)

lemma same_but_holds:
  assumes "same_but W m m'" and "W \<inter> {a..<a + length bs} = {}" and "holds m a bs"
  shows "holds m' a bs"
proof -
  have "a + i \<notin> W" if "i < length bs" for i using assms(2) that by auto
  then show ?thesis using assms(1,3) by (simp add: same_but_def holds_def)
qed

lemma holds_part: "holds m a bs \<Longrightarrow> i + n \<le> length bs \<Longrightarrow> holds m (a + i) (take n (drop i bs))"
  by (auto simp: holds_def add.assoc)

text \<open>The string copy in one piece, when source and target do not overlap.\<close>

definition copied :: "nat \<Rightarrow> nat \<Rightarrow> nat \<Rightarrow> ram \<Rightarrow> ram" where
  "copied d a n m = (\<lambda>i. if d \<le> i \<and> i < d + n then m (a + (i - d)) else m i)"

lemma copied_0: "copied d a 0 m = m"
  by (rule ext) (auto simp: copied_def)

lemma copied_word:
  assumes "d + 2 * n \<le> a"
  shows "(copied d a (2 * n) m)(d + 2 * n := copied d a (2 * n) m (a + 2 * n), d + 2 * n + 1 := copied d a (2 * n) m (a + 2 * n + 1))
    = copied d a (2 * Suc n) m"
proof
  fix i
  have q: "copied d a (2 * n) m (a + 2 * n) = m (a + 2 * n)" "copied d a (2 * n) m (a + 2 * n + 1) = m (a + 2 * n + 1)"
    using assms by (simp_all add: copied_def)
  consider "i = d + 2 * n" | "i = d + 2 * n + 1" | "i \<noteq> d + 2 * n" "i \<noteq> d + 2 * n + 1" by blast
  then show "((copied d a (2 * n) m)(d + 2 * n := copied d a (2 * n) m (a + 2 * n),
      d + 2 * n + 1 := copied d a (2 * n) m (a + 2 * n + 1))) i = copied d a (2 * Suc n) m i"
    unfolding q
  proof cases
    case 3
    then have "d \<le> i \<and> i < d + 2 * n \<longleftrightarrow> d \<le> i \<and> i < d + 2 * Suc n" by auto
    with 3 show "((copied d a (2 * n) m)(d + 2 * n := m (a + 2 * n), d + 2 * n + 1 := m (a + 2 * n + 1))) i = copied d a (2 * Suc n) m i"
      by (simp only: copied_def fun_upd_apply if_False)
  qed (simp_all add: copied_def)
qed

lemma movsw_power:
  assumes "ds s = 0" "es s = 0" and "unat (si s) + 2 * n < 65536" "unat (di s) + 2 * n < 65536"
    and "unat (di s) + 2 * n \<le> unat (si s)"
  shows "(movsw ^^ n) s = s\<lparr>ram := copied (unat (di s)) (unat (si s)) (2 * n) (ram s),
    si := si s + 2 * word_of_nat n, di := di s + 2 * word_of_nat n, cx := cx s - word_of_nat n\<rparr>"
  using assms
proof (induction n)
  case 0
  then show ?case by (simp add: copied_0)
next
  case (Suc n)
  have t: "(movsw ^^ n) s = s\<lparr>ram := copied (unat (di s)) (unat (si s)) (2 * n) (ram s),
    si := si s + 2 * word_of_nat n, di := di s + 2 * word_of_nat n, cx := cx s - word_of_nat n\<rparr>"
    by (rule Suc.IH) (use Suc.prems in auto)
  have "2 * word_of_nat n = (word_of_nat (2 * n) :: u16)" by simp
  then have u: "unat (2 * word_of_nat n :: u16) = 2 * n" using Suc.prems(3) by (simp only:) (simp add: unat_of_nat_small del: of_nat_mult)
  have si: "unat (si s + 2 * word_of_nat n) = unat (si s) + 2 * n" and di: "unat (di s + 2 * word_of_nat n) = unat (di s) + 2 * n"
    using Suc.prems(3,4) u by (simp_all add: unat_add_lem unat_word_ariths)
  have r: "unat (di s) + 2 * n \<le> unat (si s)" using Suc.prems(5) by simp
  have "(movsw ^^ Suc n) s = movsw ((movsw ^^ n) s)" by simp
  also have "\<dots> = s\<lparr>ram := copied (unat (di s)) (unat (si s)) (2 * Suc n) (ram s),
    si := si s + 2 * word_of_nat n + 2, di := di s + 2 * word_of_nat n + 2, cx := cx s - word_of_nat n - 1\<rparr>"
    unfolding t movsw_def Let_def copied_word [OF r, symmetric] using Suc.prems(1,2) by (simp add: linear_def si di)
  finally show ?case by (simp add: algebra_simps)
qed

end
