(* ===== verification/BootSector.thy ===== *)
theory BootSector
  imports BootImage X86Real
begin

text \<open>
  The boot code of the MBR run on the processor: it moves itself to 0x600, asks the BIOS for the extended read, fills in
  the packet and reads 127 sectors to 0x7C00 + 512. The code is cut where it calls the BIOS and where its jumps land.
\<close>

section \<open>The code in pieces\<close>

definition mbr_start :: bytes where
  "mbr_start = [0xFA, 0x31, 0xC0, 0x8E, 0xD0, 0xBC, 0x00, 0x7C, 0x8E, 0xD8, 0x8E, 0xC0, 0xFC, 0xBE, 0x00,
     0x7C, 0xBF, 0x00, 0x06, 0xB9, 0x00, 0x01, 0xF3, 0xA5, 0xEA, 0x1E, 0x06, 0x00, 0x00, 0x90]"

definition mbr_cookie :: bytes where
  "mbr_cookie = [0xFB, 0x88, 0x16, 0xB0, 0x07, 0x66, 0xA1, 0x00, 0x7B, 0x66, 0x3D, 0x42, 0x4F, 0x4F, 0x54,
     0x75, 0x12]"

definition mbr_cookie_set :: bytes where
  "mbr_cookie_set = [0x66, 0xC7, 0x06, 0x00, 0x7B, 0x00, 0x00, 0x00, 0x00, 0x8A, 0x16, 0xB0, 0x07, 0xEA, 0x00,
     0x7C, 0x00, 0x00]"

definition mbr_check :: bytes where
  "mbr_check = [0xB4, 0x41, 0xBB, 0xAA, 0x55, 0xCD, 0x13, 0x72, 0x10, 0x81, 0xFB, 0x55, 0xAA, 0x75, 0x0A,
     0xF6, 0xC1, 0x01, 0x74, 0x05, 0xC6, 0x06, 0xB1, 0x07, 0x01]"

definition mbr_load :: bytes where
  "mbr_load = [0x73, 0x0E, 0xD1, 0x2E, 0xC2, 0x07, 0x75, 0x08, 0xBE, 0xB2, 0x07, 0xE8, 0x0B, 0x00, 0xEB,
     0xFE]"

definition mbr_enter :: bytes where
  "mbr_enter = [0x8A, 0x16, 0xB0, 0x07, 0xEA, 0x00, 0x7E, 0x00, 0x00]"

definition mbr_print :: bytes where
  "mbr_print = [0x60, 0xB4, 0x0E, 0x31, 0xDB, 0xAC, 0x08, 0xC0, 0x74, 0x06, 0xCD, 0x10, 0xEB, 0xF7, 0x61,
     0xC3]"

definition mbr_packet :: "bytes \<Rightarrow> bytes" where
  "mbr_packet lba = [0x66, 0xC7, 0x06, 0xC8, 0x07] @ lba @
     [0x66, 0xC7, 0x06, 0xCC, 0x07, 0x00, 0x00, 0x00, 0x00, 0xC7, 0x06, 0xC2, 0x07, 0x7F, 0x00,
      0xC7, 0x06, 0xC0, 0x07, 0x10, 0x00, 0xC7, 0x06, 0xC4, 0x07, 0x00, 0x7E, 0xC7, 0x06, 0xC6,
      0x07, 0x00, 0x00, 0x80, 0x3E, 0xB1, 0x07, 0x01, 0x75, 0x13, 0xB4, 0x42, 0x8A, 0x16, 0xB0,
      0x07, 0xBE, 0xC0, 0x07, 0xCD, 0x13]"

definition mbr_code :: "bytes \<Rightarrow> bytes" where
  "mbr_code lba = mbr_start @ mbr_cookie @ mbr_cookie_set @ mbr_check @ mbr_packet lba @ mbr_load @ mbr_enter @ mbr_print"

lemmas mbr_defs = mbr_start_def mbr_cookie_def mbr_cookie_set_def mbr_check_def mbr_packet_def mbr_load_def mbr_enter_def mbr_print_def

lemma boot_image: "build_mbr_boot_sector = mbr_code (to_le 4 (1 :: u32)) @ replicate 249 0"
  by code_simp

lemma mbr_code_length: "length lba = 4 \<Longrightarrow> length (mbr_code lba) = 191"
  by (simp add: mbr_code_def mbr_defs)

text \<open>The pieces in memory at their addresses after the move.\<close>

lemma mbr_pieces:
  assumes "holds m 0x600 (mbr_code lba)" and "length lba = 4"
  shows "holds m 0x61E mbr_cookie" "holds m 0x62F mbr_cookie_set" "holds m 0x641 mbr_check" "holds m 0x65A (mbr_packet lba)"
    "holds m 0x696 mbr_load" "holds m 0x6A6 mbr_enter" "holds m 0x6AF mbr_print"
  using assms by (simp_all add: mbr_code_def holds_append mbr_start_def mbr_cookie_def mbr_cookie_set_def mbr_check_def mbr_packet_def
      mbr_load_def mbr_enter_def)

end
