(* ===== verification/BootRun.thy ===== *)
theory BootRun
  imports BootSector
begin

text \<open>
  The boot code of the MBR run on the processor, with the BIOS as its documentation describes the two services it uses.
\<close>

section \<open>The pieces\<close>

text \<open>The move to 0x600, from the address where the BIOS has put the sector.\<close>

lemma start_runs:
  assumes "holds (ram s) 0x7C00 mbr_start" and "cs s = 0" "ip s = 0x7C00"
  shows "\<exists>t. reaches bios s t \<and> cs t = 0 \<and> ip t = 0x61E \<and> ds t = 0 \<and> es t = 0 \<and> ss t = 0 \<and> sp t = 0x7C00
    \<and> dl t = dl s \<and> \<not> df t \<and> ram t = copied 0x600 0x7C00 512 (ram s)"
proof -
  have n: "(10 :: nat) = Suc (Suc (Suc (Suc (Suc (Suc (Suc (Suc (Suc (Suc 0)))))))))" by simp
  obtain u where u: "run bios 10 s = Some u" "cs u = 0" "ip u = 0x7C16" "ds u = 0" "es u = 0" "ss u = 0" "sp u = 0x7C00"
      "si u = 0x7C00" "di u = 0x600" "cx u = 0x100" "dl u = dl s" "\<not> df u" "ram u = ram s"
    using assms unfolding n by (simp add: mbr_start_def exec_defs load16_def Let_def)
  have f: "ram u 0x7C16 = 0xF3" "ram u 0x7C17 = 0xA5" "ram u 0x7C18 = 0xEA" "ram u 0x7C19 = 0x1E" "ram u 0x7C1A = 0x06"
    "ram u 0x7C1B = 0" "ram u 0x7C1C = 0" using assms(1) u(13) by (simp_all add: mbr_start_def)
  define v where "v = skip 2 ((movsw ^^ 256) u)"
  have v1: "step bios u = Some v" using u f by (simp add: step_def exec_misc_def byte_at_def v_def del: funpow.simps)
  have m: "(movsw ^^ 256) u = u\<lparr>ram := copied 0x600 0x7C00 512 (ram u), si := si u + 2 * word_of_nat 256,
      di := di u + 2 * word_of_nat 256, cx := cx u - word_of_nat 256\<rparr>"
    using movsw_power [of u 256] u by (simp del: funpow.simps)
  have w: "step bios v = Some (v\<lparr>ip := 0x61E, cs := 0\<rparr>)"
    using u f unfolding v_def m by (simp add: exec_defs load16_def copied_def)
  show ?thesis
    using reaches_trans [OF run_reaches [OF u(1)] reaches.go [OF v1 reaches_step [OF w]]] u unfolding v_def m
    by (intro exI [of _ "v\<lparr>ip := 0x61E, cs := 0\<rparr>"]) (simp add: v_def m skip_def)
qed

text \<open>
  The BIOS: below 0x500 and on the stack it may change memory; it keeps the registers the code relies on. \<open>disk\<close> is
  the content of the drive. The extended read takes its packet at DS:SI.
\<close>

definition bios_scratch :: "nat set" where
  "bios_scratch = {..<0x500} \<union> {0x7000..<0x7E00}"

definition kept :: "mach \<Rightarrow> mach \<Rightarrow> bool" where
  "kept s t \<longleftrightarrow> cs t = cs s \<and> ds t = ds s \<and> es t = es s \<and> ss t = ss s \<and> ip t = ip s \<and> sp t = sp s \<and> si t = si s
     \<and> di t = di s \<and> dl t = dl s \<and> df t = df s"

definition packet_lba :: "ram \<Rightarrow> nat \<Rightarrow> nat" where
  "packet_lba m a = unat (load16 m (a + 8)) + 2 ^ 16 * unat (load16 m (a + 10))
     + 2 ^ 32 * unat (load16 m (a + 12)) + 2 ^ 48 * unat (load16 m (a + 14))"

definition packet_count :: "ram \<Rightarrow> nat \<Rightarrow> nat" where
  "packet_count m a = unat (load16 m (a + 2))"

definition packet_buffer :: "ram \<Rightarrow> nat \<Rightarrow> nat" where
  "packet_buffer m a = linear (load16 m (a + 6)) (load16 m (a + 4))"

definition bios_extensions :: "(u8 \<Rightarrow> mach \<Rightarrow> mach) \<Rightarrow> u8 \<Rightarrow> bool" where
  "bios_extensions bios drive \<longleftrightarrow>
     (\<forall>s. ah s = 0x41 \<and> bx s = 0x55AA \<and> dl s = drive \<longrightarrow>
        kept s (bios 0x13 s) \<and> \<not> cf (bios 0x13 s) \<and> bx (bios 0x13 s) = 0xAA55 \<and> bit (cx (bios 0x13 s)) 0
        \<and> same_but bios_scratch (ram s) (ram (bios 0x13 s)))"

definition bios_reads :: "(u8 \<Rightarrow> mach \<Rightarrow> mach) \<Rightarrow> u8 \<Rightarrow> (nat \<Rightarrow> u8) \<Rightarrow> bool" where
  "bios_reads bios drive disk \<longleftrightarrow>
     (\<forall>s a b n. ah s = 0x42 \<and> dl s = drive \<and> a = linear (ds s) (si s) \<and> ram s a = 0x10
        \<and> b = packet_buffer (ram s) a \<and> n = 512 * packet_count (ram s) a \<and> n \<le> 127 * 512 \<longrightarrow>
        kept s (bios 0x13 s) \<and> \<not> cf (bios 0x13 s) \<and> bx (bios 0x13 s) = bx s
        \<and> same_but (bios_scratch \<union> {b..<b + n}) (ram s) (ram (bios 0x13 s))
        \<and> (\<forall>i<n. ram (bios 0x13 s) (b + i) = disk (512 * packet_lba (ram s) a + i)))"

lemma cookie_runs:
  assumes "holds (ram s) 0x61E mbr_cookie" and "cs s = 0" "ip s = 0x61E" "ds s = 0"
    and "load16 (ram s) 0x7B00 \<noteq> 0x4F42 \<or> load16 (ram s) 0x7B02 \<noteq> 0x544F"
  shows "\<exists>t. reaches bios s t \<and> cs t = 0 \<and> ip t = 0x641 \<and> ds t = 0 \<and> es t = es s \<and> ss t = ss s \<and> sp t = sp s
    \<and> dl t = dl s \<and> df t = df s \<and> ram t = (ram s)(0x7B0 := dl s)"
proof -
  have n: "(5 :: nat) = Suc (Suc (Suc (Suc (Suc 0))))" by simp
  have "\<exists>t. run bios 5 s = Some t \<and> cs t = 0 \<and> ip t = 0x641 \<and> ds t = 0 \<and> es t = es s \<and> ss t = ss s \<and> sp t = sp s
    \<and> dl t = dl s \<and> df t = df s \<and> ram t = (ram s)(0x7B0 := dl s)"
    using assms unfolding n by (simp add: mbr_cookie_def exec_defs load16_def Let_def)
  then show ?thesis using run_reaches by blast
qed

lemma check_runs:
  assumes h: "holds (ram s) 0x641 mbr_check" and s: "cs s = 0" "ip s = 0x641" "ds s = 0" "dl s = drive"
    and b: "bios_extensions bios drive"
  shows "\<exists>t. reaches bios s t \<and> cs t = 0 \<and> ip t = 0x65A \<and> ds t = 0 \<and> es t = es s \<and> ss t = ss s \<and> sp t = sp s
    \<and> dl t = drive \<and> df t = df s \<and> bx t = 0xAA55 \<and> ram t 0x7B1 = 1 \<and> same_but (bios_scratch \<union> {0x7B1}) (ram s) (ram t)"
proof -
  define u where "u = s\<lparr>ah := 0x41, bx := 0x55AA, ip := 0x648\<rparr>"
  have n: "(3 :: nat) = Suc (Suc (Suc 0))" by simp
  have r1: "run bios 3 s = Some (bios 0x13 u)"
    using h s(1-3) unfolding n by (simp add: mbr_check_def exec_defs load16_def u_def)
  define v where "v = bios 0x13 u"
  have v: "kept u v" "\<not> cf v" "bx v = 0xAA55" "bit (cx v) 0" "same_but bios_scratch (ram s) (ram v)"
    using b [unfolded bios_extensions_def, rule_format, of u] s(4) by (simp_all add: u_def v_def)
  have hv: "holds (ram v) 0x641 mbr_check"
    by (rule same_but_holds [OF v(5) _ h]) (auto simp: bios_scratch_def mbr_check_def)
  have c: "ucast (cx v) AND (1 :: u8) = 1"
    using v(4) by (intro bit_word_eqI) (auto simp: bit_and_iff bit_ucast_iff bit_1_iff)
  have k: "cs v = 0" "ds v = 0" "ip v = 0x648" using v(1) s by (simp_all add: kept_def u_def)
  have m: "(6 :: nat) = Suc (Suc (Suc (Suc (Suc (Suc 0)))))" by simp
  obtain t where t: "run bios 6 v = Some t" "cs t = 0" "ip t = 0x65A" "ds t = 0" "es t = es v" "ss t = ss v" "sp t = sp v"
      "dl t = dl v" "df t = df v" "ram t = (ram v)(0x7B1 := 1)" "bx t = bx v"
    using hv k v(2,3) c unfolding m by (simp add: mbr_check_def exec_defs load16_def)
  have "same_but (bios_scratch \<union> {0x7B1}) (ram s) (ram t)" using v(5) t(10) by (simp add: same_but_def)
  then show ?thesis
    using reaches_trans [OF run_reaches [OF r1 [folded v_def]] run_reaches [OF t(1)]] t v(1,3) s(4)
    by (intro exI [of _ t]) (simp add: kept_def u_def)
qed

lemma store32_other: "a < b \<or> b + 3 < a \<Longrightarrow> store32 b lo hi m a = m a"
  by (auto simp: store32_def)

lemma store16_outside: "a < b \<or> b + 1 < a \<Longrightarrow> store16 b v m a = m a"
  by (auto simp: store16_def)

lemma packet_runs:
  assumes h: "holds (ram s) 0x65A (mbr_packet lba)" and "length lba = 4" and s: "cs s = 0" "ip s = 0x65A" "ds s = 0"
    and "ram s 0x7B1 = 1" "ram s 0x7B0 = drive"
  shows "\<exists>t. reaches bios s (bios 0x13 t) \<and> cs t = 0 \<and> ip t = 0x696 \<and> ds t = 0 \<and> es t = es s \<and> ss t = ss s \<and> sp t = sp s
    \<and> dl t = drive \<and> df t = df s \<and> ah t = 0x42 \<and> si t = 0x7C0 \<and> bx t = bx s \<and> ram t 0x7C0 = 0x10 \<and> packet_count (ram t) 0x7C0 = 127
    \<and> packet_buffer (ram t) 0x7C0 = 0x7E00 \<and> packet_lba (ram t) 0x7C0 = le_nat lba
    \<and> same_but {0x7C0..<0x7D0} (ram s) (ram t)"
proof -
  obtain l0 l1 l2 l3 where l: "lba = [l0, l1, l2, l3]" using assms(2) by (auto simp: numeral_eq_Suc length_Suc_conv)
  define m where "m = store16 0x7C6 0 (store16 0x7C4 0x7E00 (store16 0x7C0 0x10 (store16 0x7C2 127
    (store32 0x7CC 0 0 (store32 0x7C8 (word_of_nat (unat l0 + 256 * unat l1)) (word_of_nat (unat l2 + 256 * unat l3)) (ram s))))))"
  define t where "t = s\<lparr>ram := m, zf := True, cf := False, ah := 0x42, dl := drive, si := 0x7C0, ip := 0x696\<rparr>"
  have n: "(12 :: nat) = Suc (Suc (Suc (Suc (Suc (Suc (Suc (Suc (Suc (Suc (Suc (Suc 0)))))))))))" by simp
  have k: "m 0x7B1 = 1" "m 0x7B0 = drive" using assms(6,7) by (simp_all add: m_def store32_def)
  have r: "run bios 12 s = Some (bios 0x13 t)"
    using h s assms(6,7) unfolding n
    by (simp add: mbr_packet_def l exec_defs load16_def store32_other) (simp add: t_def m_def)
  have b: "unat l0 + 256 * unat l1 < 65536" "unat l2 + 256 * unat l3 < 65536"
    using le_nat_bound [of "[l0, l1]"] le_nat_bound [of "[l2, l3]"] by simp_all
  have p: "packet_lba m 0x7C0 = le_nat lba"
    using b by (simp add: packet_lba_def m_def store32_def load16_other unat_of_nat_small l del: of_nat_add of_nat_mult)
  have q: "packet_count m 0x7C0 = 127" "packet_buffer m 0x7C0 = 0x7E00" "m 0x7C0 = 0x10"
    by (simp_all add: packet_count_def packet_buffer_def m_def linear_def load16_other) (simp add: store16_def)
  have "m a = ram s a" if "a < 0x7C0 \<or> 0x7D0 \<le> a" for a
    using that unfolding m_def by (elim disjE) (simp_all add: store16_outside store32_other)
  then have "same_but {0x7C0..<0x7D0} (ram s) m" by (auto simp: same_but_def not_le not_less)
  then show ?thesis using run_reaches [OF r] p q s by (intro exI [of _ t]) (simp add: t_def)
qed

lemma enter_runs:
  assumes "holds (ram s) 0x6A6 mbr_enter" and "cs s = 0" "ip s = 0x6A6" "ds s = 0"
  shows "reaches bios s (s\<lparr>dl := ram s 0x7B0, ip := 0x7E00, cs := 0\<rparr>)"
proof -
  have n: "(2 :: nat) = Suc (Suc 0)" by simp
  have "run bios 2 s = Some (s\<lparr>dl := ram s 0x7B0, ip := 0x7E00, cs := 0\<rparr>)"
    using assms unfolding n by (simp add: mbr_enter_def exec_defs load16_def)
  then show ?thesis by (rule run_reaches)
qed

text \<open>Behind the read: without an error the second stage is entered; with one the count is halved, and it is entered too.\<close>

lemma load_runs:
  assumes "holds (ram s) 0x696 mbr_load" and "cs s = 0" "ip s = 0x696" "ds s = 0"
  shows "\<not> cf s \<Longrightarrow> reaches bios s (s\<lparr>ip := 0x6A6\<rparr>)"
    and "cf s \<Longrightarrow> load16 (ram s) 0x7C2 = 127 \<Longrightarrow>
      reaches bios s (s\<lparr>ram := store16 0x7C2 63 (ram s), zf := False, cf := True, ip := 0x6A6\<rparr>)"
proof -
  assume "\<not> cf s"
  then have "step bios s = Some (s\<lparr>ip := 0x6A6\<rparr>)" using assms by (simp add: mbr_load_def exec_defs)
  then show "reaches bios s (s\<lparr>ip := 0x6A6\<rparr>)" by (rule reaches_step)
next
  assume c: "cf s" "load16 (ram s) 0x7C2 = 127"
  have n: "(3 :: nat) = Suc (Suc (Suc 0))" by simp
  have f: "load16 (ram s) 0x69A = 0x7C2" using assms(1) by (simp add: mbr_load_def load16_def)
  have d: "drop_bit 1 (127 :: u16) = 63" "bit (127 :: u16) 0" by (simp_all add: bit_0)
  have "run bios 3 s = Some (s\<lparr>ram := store16 0x7C2 63 (ram s), zf := False, cf := True, ip := 0x6A6\<rparr>)"
    using assms c f d unfolding n by (simp add: mbr_load_def exec_defs)
  then show "reaches bios s (s\<lparr>ram := store16 0x7C2 63 (ram s), zf := False, cf := True, ip := 0x6A6\<rparr>)" by (rule run_reaches)
qed

section \<open>The whole boot code\<close>

text \<open>The sector where the BIOS puts it, with the drive in DL, and no cookie of a restarted kernel.\<close>

definition boot_entry :: "mach \<Rightarrow> u8 \<Rightarrow> bytes \<Rightarrow> bool" where
  "boot_entry s drive lba \<longleftrightarrow> holds (ram s) 0x7C00 (mbr_code lba) \<and> length lba = 4 \<and> cs s = 0 \<and> ip s = 0x7C00
     \<and> dl s = drive \<and> (load16 (ram s) 0x7B00 \<noteq> 0x4F42 \<or> load16 (ram s) 0x7B02 \<noteq> 0x544F)"

lemma moved_code:
  assumes "holds (ram s) 0x7C00 (mbr_code lba)" and "length lba = 4" and "ram t = copied 0x600 0x7C00 512 (ram s)"
  shows "holds (ram t) 0x600 (mbr_code lba)"
  using assms mbr_code_length [OF assms(2)] by (simp add: holds_def copied_def)

lemma code_kept:
  assumes "same_but W m m'" and "W \<inter> {0x600..<0x6BF} = {}" and "holds m 0x600 (mbr_code lba)" and "length lba = 4"
  shows "holds m' 0x600 (mbr_code lba)"
  by (rule same_but_holds [OF assms(1) _ assms(3)]) (use assms(2) mbr_code_length [OF assms(4)] in simp)

text \<open>Up to the read: the packet asks for 127 sectors at 0x7E00 from the block in the code.\<close>

lemma boot_to_read:
  assumes e: "boot_entry s drive lba" and b: "bios_extensions bios drive"
  shows "\<exists>t. reaches bios s (bios 0x13 t) \<and> cs t = 0 \<and> ip t = 0x696 \<and> ds t = 0 \<and> es t = 0 \<and> ss t = 0 \<and> sp t = 0x7C00
    \<and> dl t = drive \<and> \<not> df t \<and> ah t = 0x42 \<and> si t = 0x7C0 \<and> bx t = 0xAA55 \<and> ram t 0x7C0 = 0x10 \<and> packet_count (ram t) 0x7C0 = 127
    \<and> packet_buffer (ram t) 0x7C0 = 0x7E00 \<and> packet_lba (ram t) 0x7C0 = le_nat lba \<and> ram t 0x7B0 = drive
    \<and> holds (ram t) 0x600 (mbr_code lba)
    \<and> same_but (bios_scratch \<union> {0x600..<0x800}) (ram s) (ram t)"
proof -
  note e = e [unfolded boot_entry_def]
  have l: "length lba = 4" using e by blast
  have h0: "holds (ram s) 0x7C00 mbr_start" using e by (simp add: mbr_code_def holds_append)
  obtain t1 where t1: "reaches bios s t1" "cs t1 = 0" "ip t1 = 0x61E" "ds t1 = 0" "es t1 = 0" "ss t1 = 0" "sp t1 = 0x7C00"
      "dl t1 = drive" "\<not> df t1" "ram t1 = copied 0x600 0x7C00 512 (ram s)" using start_runs [OF h0] e by blast
  have h1: "holds (ram t1) 0x600 (mbr_code lba)" using moved_code [OF _ l t1(10)] e by blast
  have c1: "load16 (ram t1) 0x7B00 = load16 (ram s) 0x7B00" "load16 (ram t1) 0x7B02 = load16 (ram s) 0x7B02"
    by (simp_all add: t1(10) load16_def copied_def)
  obtain t2 where t2: "reaches bios t1 t2" "cs t2 = 0" "ip t2 = 0x641" "ds t2 = 0" "es t2 = 0" "ss t2 = 0" "sp t2 = 0x7C00"
      "dl t2 = drive" "\<not> df t2" "ram t2 = (ram t1)(0x7B0 := drive)"
    using cookie_runs [OF mbr_pieces(1) [OF h1 l] t1(2-4)] c1 e t1 by metis
  have s2: "same_but {0x7B0} (ram t1) (ram t2)" by (simp add: same_but_def t2(10))
  have h2: "holds (ram t2) 0x600 (mbr_code lba)" by (rule code_kept [OF s2 _ h1 l]) simp
  obtain t3 where t3: "reaches bios t2 t3" "cs t3 = 0" "ip t3 = 0x65A" "ds t3 = 0" "es t3 = 0" "ss t3 = 0" "sp t3 = 0x7C00"
      "dl t3 = drive" "\<not> df t3" "ram t3 0x7B1 = 1" "same_but (bios_scratch \<union> {0x7B1}) (ram t2) (ram t3)" "bx t3 = 0xAA55"
    using check_runs [OF mbr_pieces(3) [OF h2 l] t2(2-4) t2(8) b] t2 by metis
  have h3: "holds (ram t3) 0x600 (mbr_code lba)" by (rule code_kept [OF t3(11) _ h2 l]) (auto simp: bios_scratch_def)
  have d3: "ram t3 0x7B0 = drive" using t3(11) t2(10) by (simp add: same_but_def bios_scratch_def)
  obtain t4 where t4: "reaches bios t3 (bios 0x13 t4)" "cs t4 = 0" "ip t4 = 0x696" "ds t4 = 0" "es t4 = 0" "ss t4 = 0" "sp t4 = 0x7C00"
      "dl t4 = drive" "\<not> df t4" "ah t4 = 0x42" "si t4 = 0x7C0" "ram t4 0x7C0 = 0x10" "packet_count (ram t4) 0x7C0 = 127"
      "packet_buffer (ram t4) 0x7C0 = 0x7E00" "packet_lba (ram t4) 0x7C0 = le_nat lba" "same_but {0x7C0..<0x7D0} (ram t3) (ram t4)" "bx t4 = 0xAA55"
    using packet_runs [OF mbr_pieces(4) [OF h3 l] l t3(2-4,10) d3] t3 by metis
  have h4: "holds (ram t4) 0x600 (mbr_code lba)" by (rule code_kept [OF t4(16) _ h3 l]) auto
  have d4: "ram t4 0x7B0 = drive" using t4(16) d3 by (simp add: same_but_def)
  have s1: "same_but {0x600..<0x800} (ram s) (ram t1)" by (auto simp: same_but_def t1(10) copied_def)
  have s4: "same_but (bios_scratch \<union> {0x600..<0x800}) (ram s) (ram t4)"
    by (rule same_but_mono [OF same_but_trans [OF same_but_trans [OF same_but_trans [OF s1 s2] t3(11)] t4(16)]]) auto
  have "reaches bios s (bios 0x13 t4)" using t1(1) t2(1) t3(1) t4(1) reaches_trans by blast
  then show ?thesis using t4 h4 d4 s4 by blast
qed

lemma boot_runs:
  assumes e: "boot_entry s drive lba" and b: "bios_extensions bios drive" "bios_reads bios drive disk"
  shows "\<exists>t. reaches bios s t \<and> cs t = 0 \<and> ip t = 0x7E00 \<and> ds t = 0 \<and> es t = 0 \<and> ss t = 0 \<and> sp t = 0x7C00
    \<and> dl t = drive \<and> \<not> df t \<and> si t = 0x7C0 \<and> bx t = 0xAA55 \<and> (\<forall>i<127 * 512. ram t (0x7E00 + i) = disk (512 * le_nat lba + i))"
proof -
  have l: "length lba = 4" using e by (simp add: boot_entry_def)
  obtain t where t: "reaches bios s (bios 0x13 t)" "cs t = 0" "ip t = 0x696" "ds t = 0" "es t = 0" "ss t = 0" "sp t = 0x7C00"
      "dl t = drive" "\<not> df t" "ah t = 0x42" "si t = 0x7C0" "ram t 0x7C0 = 0x10" "packet_count (ram t) 0x7C0 = 127"
      "packet_buffer (ram t) 0x7C0 = 0x7E00" "packet_lba (ram t) 0x7C0 = le_nat lba" "ram t 0x7B0 = drive"
      "holds (ram t) 0x600 (mbr_code lba)" "bx t = 0xAA55"
    using boot_to_read [OF e b(1)] by blast
  define u where "u = bios 0x13 t"
  have a: "linear (ds t) (si t) = 0x7C0" using t by (simp add: linear_def)
  have u: "kept t u" "\<not> cf u" "same_but (bios_scratch \<union> {0x7E00..<0x7E00 + 512 * 127}) (ram t) (ram u)"
    "\<forall>i<512 * 127. ram u (0x7E00 + i) = disk (512 * le_nat lba + i)" "bx u = 0xAA55"
    using b(2) [unfolded bios_reads_def, rule_format, of t "0x7C0" "0x7E00" "512 * 127"] t a by (simp_all add: u_def)
  have h: "holds (ram u) 0x600 (mbr_code lba)" by (rule code_kept [OF u(3) _ t(17) l]) (auto simp: bios_scratch_def)
  have d: "ram u 0x7B0 = drive" using u(3) t(16) by (simp add: same_but_def bios_scratch_def)
  have k: "cs u = 0" "ip u = 0x696" "ds u = 0" using u(1) t by (simp_all add: kept_def)
  define v where "v = u\<lparr>ip := 0x6A6\<rparr>"
  have r1: "reaches bios u v" using load_runs(1) [OF mbr_pieces(5) [OF h l] k u(2)] by (simp add: v_def)
  have r2: "reaches bios v (v\<lparr>dl := ram v 0x7B0, ip := 0x7E00, cs := 0\<rparr>)"
    by (rule enter_runs) (use mbr_pieces(6) [OF h l] k in \<open>simp_all add: v_def\<close>)
  have "reaches bios s (v\<lparr>dl := ram v 0x7B0, ip := 0x7E00, cs := 0\<rparr>)"
    using t(1) r1 r2 reaches_trans unfolding u_def by blast
  then show ?thesis using u(1,4,5) t d by (intro exI [of _ "v\<lparr>dl := ram v 0x7B0, ip := 0x7E00, cs := 0\<rparr>"]) (simp add: v_def kept_def)
qed

text \<open>With a read that fails: nothing was read, and the second stage is entered all the same.\<close>

definition bios_read_fails :: "(u8 \<Rightarrow> mach \<Rightarrow> mach) \<Rightarrow> u8 \<Rightarrow> bool" where
  "bios_read_fails bios drive \<longleftrightarrow>
     (\<forall>s. ah s = 0x42 \<and> dl s = drive \<longrightarrow>
        kept s (bios 0x13 s) \<and> cf (bios 0x13 s) \<and> same_but bios_scratch (ram s) (ram (bios 0x13 s)))"

lemma boot_read_failed:
  assumes e: "boot_entry s drive lba" and b: "bios_extensions bios drive" "bios_read_fails bios drive"
  shows "\<exists>t. reaches bios s t \<and> cs t = 0 \<and> ip t = 0x7E00 \<and> dl t = drive \<and> (\<forall>a\<ge>0x7E00. ram t a = ram s a)"
proof -
  have l: "length lba = 4" using e by (simp add: boot_entry_def)
  obtain t where t: "reaches bios s (bios 0x13 t)" "cs t = 0" "ip t = 0x696" "ds t = 0" "dl t = drive" "ah t = 0x42" "si t = 0x7C0"
      "packet_count (ram t) 0x7C0 = 127" "ram t 0x7B0 = drive" "holds (ram t) 0x600 (mbr_code lba)"
      "same_but (bios_scratch \<union> {0x600..<0x800}) (ram s) (ram t)"
    using boot_to_read [OF e b(1)] by blast
  define u where "u = bios 0x13 t"
  have u: "kept t u" "cf u" "same_but bios_scratch (ram t) (ram u)"
    using b(2) t by (simp_all add: bios_read_fails_def u_def)
  have h: "holds (ram u) 0x600 (mbr_code lba)" by (rule code_kept [OF u(3) _ t(10) l]) (auto simp: bios_scratch_def)
  have k: "cs u = 0" "ip u = 0x696" "ds u = 0" using u(1) t by (simp_all add: kept_def)
  have m: "ram u a = ram t a" if "0x500 \<le> a" "a < 0x7000 \<or> 0x7E00 \<le> a" for a using u(3) that by (auto simp: same_but_def bios_scratch_def)
  have "unat (load16 (ram t) 0x7C2) = 127" using t(8) by (simp add: packet_count_def)
  then have "word_of_nat (unat (load16 (ram t) 0x7C2)) = (127 :: u16)" by simp
  then have "load16 (ram t) 0x7C2 = 127" by simp
  then have c: "load16 (ram u) 0x7C2 = 127" by (simp add: load16_def m)
  define v where "v = u\<lparr>ram := store16 0x7C2 63 (ram u), zf := False, cf := True, ip := 0x6A6\<rparr>"
  have r1: "reaches bios u v" using load_runs(2) [OF mbr_pieces(5) [OF h l] k u(2) c] by (simp add: v_def)
  have hv: "holds (ram v) 0x6A6 mbr_enter"
    using mbr_pieces(6) [OF h l] by (simp add: v_def holds_store16 mbr_enter_def)
  have r2: "reaches bios v (v\<lparr>dl := ram v 0x7B0, ip := 0x7E00, cs := 0\<rparr>)"
    by (rule enter_runs [OF hv]) (use k in \<open>simp_all add: v_def\<close>)
  have "reaches bios s (v\<lparr>dl := ram v 0x7B0, ip := 0x7E00, cs := 0\<rparr>)" using t(1) r1 r2 reaches_trans unfolding u_def by blast
  moreover have "ram v a = ram s a" if "0x7E00 \<le> a" for a
    using that t(11) m by (simp add: v_def same_but_def bios_scratch_def)
  moreover have "ram v 0x7B0 = drive" using t(9) m by (simp add: v_def)
  ultimately show ?thesis by (intro exI [of _ "v\<lparr>dl := ram v 0x7B0, ip := 0x7E00, cs := 0\<rparr>"]) (simp add: v_def)
qed

section \<open>The second stage\<close>

definition stage2_start :: bytes where
  "stage2_start = [0xFA, 0x31, 0xC0, 0x8E, 0xD0, 0xBC, 0x00, 0x7E, 0x88, 0x16, 0xFE, 0x7D, 0xB0, 0xD1, 0xE6, 0x64, 0xB0, 0xDF,
     0xE6, 0x60, 0xB9, 0xFF, 0xFF]"

definition stage2_a20 :: bytes where "stage2_a20 = [0xB4, 0x24, 0xB0, 0x01, 0xCD, 0x15]"
definition stage2_port :: bytes where "stage2_port = [0xB0, 0x02, 0xE6, 0x92]"

definition stage2_table :: bytes where
  "stage2_table = [0x27, 0x00, 0x26, 0x7F, 0x00, 0x00, 0x00, 0x00, 0x00, 0x00, 0x00, 0x00, 0x00, 0x00,
     0xFF, 0xFF, 0x00, 0x00, 0x00, 0x9A, 0xCF, 0x00, 0xFF, 0xFF]"

definition stage2_head :: bytes where
  "stage2_head = stage2_start @ [0xE2, 0xFE] @ stage2_a20 @ stage2_port @ replicate 253 0x90 @ stage2_table"

lemma stage2_real_head: "take 312 stage2_real = stage2_head" "length stage2_real = 334"
  by code_simp+

lemma stage2_image: "take 312 (build_stage2_binary kernel_bin) = stage2_head"
proof -
  have "\<exists>rest. build_stage2_binary kernel_bin = stage2_real @ rest"
    by (simp add: build_stage2_binary_def Let_def code_def lgdt_mem16_def mov_eax_cr0_def or_eax_imm32_def mov_cr0_eax_def
        jmp_far32_def emits_def emit_def emit16_def emit32_def pad_to_def)
  then obtain rest where "build_stage2_binary kernel_bin = stage2_real @ rest" by blast
  then show ?thesis using stage2_real_head by simp
qed

text \<open>Enabling the A20 line through the BIOS keeps what the code relies on.\<close>

definition bios_a20 :: "(u8 \<Rightarrow> mach \<Rightarrow> mach) \<Rightarrow> bool" where
  "bios_a20 bios \<longleftrightarrow>
     (\<forall>s. ah s = 0x24 \<and> al s = 1 \<longrightarrow>
        kept s (bios 0x15 s) \<and> bx (bios 0x15 s) = bx s \<and> same_but bios_scratch (ram s) (ram (bios 0x15 s)))"

lemma stage2_pieces:
  assumes "holds m 0x7E00 stage2_head"
  shows "holds m 0x7E00 stage2_start" "holds m 0x7E17 [0xE2, 0xFE]" "holds m 0x7E19 stage2_a20" "holds m 0x7E1F stage2_port"
    "holds m 0x7E23 (replicate 253 0x90)" "holds m 0x7F20 stage2_table"
  using assms by (simp_all add: stage2_head_def holds_append stage2_start_def stage2_a20_def stage2_port_def del: replicate.simps)

lemma stage2_runs:
  assumes h: "holds (ram s) 0x7E00 stage2_head" and s: "cs s = 0" "ip s = 0x7E00" "ds s = 0" "bx s = 0xAA55" "si s = 0x7C0"
    and b: "bios_a20 bios"
  shows "\<exists>t. reaches bios s t \<and> cs t = 0xFFFF \<and> ip t = 0xCF"
proof -
  have len: "length stage2_head = 312" by code_simp
  have n: "(10 :: nat) = Suc (Suc (Suc (Suc (Suc (Suc (Suc (Suc (Suc (Suc 0)))))))))" by simp
  have k3: "(3 :: nat) = Suc (Suc (Suc 0))" and k2: "(2 :: nat) = Suc (Suc 0)" by simp_all
  obtain t1 where t1: "run bios 10 s = Some t1" "cs t1 = 0" "ip t1 = 0x7E17" "ds t1 = 0" "ss t1 = 0" "bx t1 = 0xAA55" "si t1 = 0x7C0"
      "cx t1 = 0xFFFF" "ram t1 = (ram s)(0x7DFE := dl s)"
    using stage2_pieces(1) [OF h] s unfolding n by (simp add: stage2_start_def exec_defs load16_def)
  have h1: "holds (ram t1) 0x7E00 stage2_head" using h len by (simp add: t1(9) holds_other)
  define t2 where "t2 = t1\<lparr>cx := 0, ip := 0x7E19\<rparr>"
  have r2: "reaches bios t1 t2" using loop_run [of t1 bios] stage2_pieces(2) [OF h1] t1 by (simp add: t2_def)
  define t3 where "t3 = t2\<lparr>ah := 0x24, al := 1, ip := 0x7E1F\<rparr>"
  have r3: "run bios 3 t2 = Some (bios 0x15 t3)"
    using stage2_pieces(3) [OF h1] t1 unfolding k3 by (simp add: stage2_a20_def exec_defs load16_def t2_def t3_def)
  define u where "u = bios 0x15 t3"
  have u: "kept t3 u" "bx u = 0xAA55" "same_but bios_scratch (ram t1) (ram u)"
    using b [unfolded bios_a20_def, rule_format, of t3] t1(6) by (simp_all add: u_def t3_def t2_def)
  have hu: "holds (ram u) 0x7E00 stage2_head"
    by (rule same_but_holds [OF u(3) _ h1]) (auto simp: bios_scratch_def len)
  have ku: "cs u = 0" "ip u = 0x7E1F" "ds u = 0" "ss u = 0" "si u = 0x7C0" using u(1) t1 by (simp_all add: kept_def t3_def t2_def)
  define v where "v = u\<lparr>al := 2, ip := 0x7E23\<rparr>"
  have r4: "run bios 2 u = Some v"
    using stage2_pieces(4) [OF hu] ku unfolding k2 by (simp add: stage2_port_def exec_defs v_def)
  have r5: "reaches bios v (v\<lparr>ip := 0x7F20\<rparr>)"
    using nops_run [of v 253 bios] stage2_pieces(5) [OF hu] ku by (simp add: v_def del: replicate.simps)
  define w where "w = v\<lparr>ip := 0x7F20\<rparr>"
  have kw: "cs w = 0" "ip w = 0x7F20" "ds w = 0" "ss w = 0" "si w = 0x7C0" "bx w = 0xAA55" "ram w = ram u"
    using ku u(2) by (simp_all add: w_def v_def)
  have "\<exists>t. run bios 10 w = Some t \<and> cs t = 0xFFFF \<and> ip t = 0xCF"
    using stage2_pieces(6) [OF hu] kw unfolding n
    by (simp add: stage2_table_def exec_defs load16_def Let_def bh_of_def store16_def push16_def)
  then obtain t where t: "run bios 10 w = Some t" "cs t = 0xFFFF" "ip t = 0xCF" by blast
  have "reaches bios s t"
    using run_reaches [OF t1(1)] r2 run_reaches [OF r3 [folded u_def]] run_reaches [OF r4] r5 [folded w_def] run_reaches [OF t(1)]
      reaches_trans by blast
  then show ?thesis using t by blast
qed

end
