(* ===== verification/BootTheorems.thy ===== *)
theory BootTheorems
  imports BootRun InstallerTheorems
begin

text \<open>
  From the installed disk to the second stage: the sector the installer writes holds the boot code that
  \<open>build.rs\<close> assembles, with the block of the second stage in it, and a BIOS machine that starts from the disk has
  the second stage in memory.
\<close>

section \<open>The sector the installer writes\<close>

lemma read_byte: "disk_read d off n = Inr bs \<Longrightarrow> i < n \<Longrightarrow> dbytes d (off + i) = bs ! i"
  by (auto simp: disk_read_def split: if_splits)

lemma boot_length: "length build_mbr_boot_sector = 440"
  by (simp add: boot_image mbr_code_length)

lemma boot_code_of_image: "boot_code_of build_mbr_boot_sector = build_mbr_boot_sector"
  by (simp add: boot_code_of_def boot_length)

lemma boot_prefix: "take 191 build_mbr_boot_sector = mbr_code (to_le 4 (1 :: u32))"
  by (simp add: boot_image mbr_code_length)

lemma take_paste_after: "n \<le> off \<Longrightarrow> n \<le> length bs \<Longrightarrow> take n (paste bs off xs) = take n bs"
  by (simp add: paste_def min_def)

lemma take_with_signature: "n \<le> 510 \<Longrightarrow> take n (with_signature bs) = take n bs"
  by (simp add: with_signature_def)

lemma mbr_sector_code:
  assumes "length guid = 16"
  shows "take 191 (mbr_install_sector build_mbr_boot_sector guid p) = mbr_code (to_le 4 (1 :: u32))"
proof -
  have l: "length (paste (replicate 512 0) 0 build_mbr_boot_sector) = 512" by (simp add: paste_length boot_length)
  have "take 191 (paste (replicate 512 0) 0 build_mbr_boot_sector) = take 191 build_mbr_boot_sector"
    by (simp add: paste_def boot_length)
  then show ?thesis
    using l assms boot_prefix
    by (simp add: mbr_install_sector_def Let_def boot_code_of_image take_paste_after take_with_signature paste_length with_signature_def)
qed

lemma patch_first:
  assumes "\<forall>i. j \<le> i \<and> i < j + k \<longrightarrow> take 4 (drop i bs) \<noteq> lba_needle" and "take 4 (drop (j + k) bs) = lba_needle" and "k < n"
  shows "patch_lba_from j n bs = paste bs (j + k + 4) (to_le 4 (34 :: u32))"
  using assms
proof (induction k arbitrary: j n)
  case 0
  then obtain n' where "n = Suc n'" by (cases n) auto
  then show ?case using 0 by simp
next
  case (Suc k)
  then obtain n' where n: "n = Suc n'" by (cases n) auto
  have "take 4 (drop j bs) \<noteq> lba_needle" using Suc.prems(1) by simp
  then show ?case using Suc.IH [of "Suc j" n'] Suc.prems n by simp
qed

text \<open>The image that the build makes has its mark before the disk GUID, so an update keeps the GUID.\<close>

lemma built_boot_marked: "marked_before_guid build_mbr_boot_sector"
proof -
  have "take 4 (drop 91 (mbr_code (to_le 4 (1 :: u32)))) = lba_needle" by code_simp
  then have "take 4 (drop 91 build_mbr_boot_sector) = lba_needle"
    by (simp add: boot_image mbr_code_length to_le_length)
  then show ?thesis unfolding marked_before_guid_def boot_code_of_image by (intro exI [of _ 91]) (simp add: boot_length)
qed

lemma gpt_sector_code:
  assumes "length guid = 16" and "length s = 512"
  shows "take 191 (gpt_boot_sector build_mbr_boot_sector guid s) = mbr_code (to_le 4 (34 :: u32))"
proof -
  define b where "b = with_signature (paste (paste (paste s 0 build_mbr_boot_sector) 384 guid) 440 (take 4 (drop 12 guid)))"
  have "take 191 (paste s 0 build_mbr_boot_sector) = take 191 build_mbr_boot_sector" by (simp add: paste_def boot_length)
  moreover have "length (paste s 0 build_mbr_boot_sector) = 512" using assms(2) by (simp add: paste_length boot_length)
  ultimately have t: "take 191 b = mbr_code (to_le 4 (1 :: u32))"
    using assms(1) boot_prefix by (simp add: b_def take_paste_after take_with_signature paste_length)
  have lb: "191 \<le> length b" using t mbr_code_length [of "to_le 4 (1 :: u32)"] by (metis length_take min.cobounded1 min_def to_le_length)
  have w: "take 4 (drop i b) = take 4 (drop i (mbr_code (to_le 4 (1 :: u32))))" if "i \<le> 91" for i
    using that by (simp flip: t add: drop_take min_def)
  have no: "list_all (\<lambda>i. take 4 (drop i (mbr_code (to_le 4 (1 :: u32)))) \<noteq> lba_needle) [0..<91]" by code_simp
  have yes: "take 4 (drop 91 (mbr_code (to_le 4 (1 :: u32)))) = lba_needle" by code_simp
  have "patch_lba_from 0 432 b = paste b (0 + 91 + 4) (to_le 4 (34 :: u32))"
    by (rule patch_first) (use no yes w in \<open>auto simp: list_all_iff\<close>)
  then have g: "gpt_boot_sector build_mbr_boot_sector guid s = paste b 95 (to_le 4 (34 :: u32))"
    by (simp add: gpt_boot_sector_def Let_def boot_code_of_image patch_lba_def boot_length b_def)
  have "take 191 (paste b 95 (to_le 4 (34 :: u32))) = paste (take 191 b) 95 (to_le 4 (34 :: u32))"
    using lb by (simp add: paste_def take_drop min_def)
  also have "\<dots> = mbr_code (to_le 4 (34 :: u32))" unfolding t by code_simp
  finally show ?thesis unfolding g .
qed

section \<open>The installed disk\<close>

text \<open>What a BIOS and the boot code find on a disk: the code, the block it names, and the second stage there.\<close>

definition bootable :: "vdisk \<Rightarrow> u32 \<Rightarrow> bytes \<Rightarrow> bool" where
  "bootable d lba stage2 \<longleftrightarrow>
     (\<forall>i<191. dbytes d i = mbr_code (to_le 4 lba) ! i) \<and> (\<forall>i<length stage2. dbytes d (512 * unat lba + i) = stage2 ! i)"

lemma mbr_bootable:
  assumes w: "write_mbr_f build_mbr_boot_sector stage2 guid d sz r = Inr (d', p)" and g: "length guid = 16"
  shows "bootable d' 1 (take (2047 * 512) stage2)"
proof -
  let ?s = "mbr_install_sector build_mbr_boot_sector guid (mbr_part2_start sz r)"
  let ?c = "take (min (length stage2) (2047 * 512)) stage2"
  from w obtain d1 where w1: "disk_write d 0 ?s = Inr d1" and w2: "disk_write d1 512 ?c = Inr d'"
    by (auto simp: write_mbr_f_def Let_def rbind_Inr_iff unat_SECTOR_SIZE)
  have l: "length ?s = 512" by (rule mbr_install_sector_length [OF g])
  have r1: "disk_read d' 0 512 = Inr ?s" using disk.read_same [OF w1] disk.read_before [OF w2, of 0 512] l by simp
  have r2: "disk_read d' 512 (length ?c) = Inr ?c" by (rule disk.read_same [OF w2])
  have "?s ! i = mbr_code (to_le 4 (1 :: u32)) ! i" if "i < 191" for i
    using mbr_sector_code [OF g, of "mbr_part2_start sz r"] that by (metis nth_take)
  then show ?thesis using read_byte [OF r1] read_byte [OF r2] by (simp add: bootable_def min_def)
qed

lemma gpt_bootable:
  assumes w: "write_gpt_f crc build_mbr_boot_sector stage2 dg g1 g2 d sz r = Some (Inr (d', p))"
    and g: "length dg = 16" "length g1 = 16" "length g2 = 16" and sz: "69632 \<le> unat sz div 512"
  shows "bootable d' 34 (take (2014 * 512) stage2)"
proof -
  let ?i = "gpt_install_info sz r dg g1 g2"
  let ?c = "take (min (length stage2) (2014 * 512)) stage2"
  from w obtain g d1 d2 s where fin: "finalize_gpt_crcs crc ?i = Some g" and w1: "disk_write d 17408 ?c = Inr d1"
    and w2: "gpt_write_to_disk crc g d1 = Inr d2" and rs: "disk_read d2 0 512 = Inr s"
    and w3: "disk_write d2 0 (gpt_boot_sector build_mbr_boot_sector dg s) = Inr d'"
    by (auto simp: write_gpt_f_def Let_def rbind_Inr_iff SECTOR_SIZE_def)
  have "67 * 512 \<le> sz" using sz by (simp add: word_le_nat_alt)
  note pl = gpt_install_placed [OF g this, of r]
  note fp = finalize_placed [OF fin pl]
  have "hdr_efi_backup_lba (header ?i) = sz div 512 - 1"
    by (simp add: gpt_install_info_def gpt_new_choosable_def hdr_new_def Let_def SECTOR_SIZE_def)
  then have "hdr_efi_backup_lba (header g) = sz div 512 - 1"
    using fin by (auto simp: finalize_gpt_crcs_def Let_def split: option.splits)
  moreover have "unat (sz div 512 - 1) = unat sz div 512 - 1" using sz by (subst unat_sub_no_wrap) (simp_all add: unat_div)
  ultimately have b: "69631 \<le> unat (hdr_efi_backup_lba (header g))" using sz by simp
  have ls: "length s = 512" using rs by (rule disk.read_len)
  have lg: "length (gpt_boot_sector build_mbr_boot_sector dg s) = 512" using gpt_boot_sector_read(1) [OF ls g(1)] .
  have r1: "disk_read d' 0 512 = Inr (gpt_boot_sector build_mbr_boot_sector dg s)" using disk.read_same [OF w3] lg by simp
  have "disk_read d2 17408 (length ?c) = disk_read d1 17408 (length ?c)"
    by (rule disk_read_frame [OF gpt_write_frame [OF fp(1) w2]]) (use b in auto)
  then have r2: "disk_read d' 17408 (length ?c) = Inr ?c"
    using disk.read_same [OF w1] disk.read_after [OF w3, of 17408] lg by simp
  have "gpt_boot_sector build_mbr_boot_sector dg s ! i = mbr_code (to_le 4 (34 :: u32)) ! i" if "i < 191" for i
    using gpt_sector_code [OF g(1) ls] that by (metis nth_take)
  then show ?thesis using read_byte [OF r1] read_byte [OF r2] by (simp add: bootable_def min_def)
qed

lemma installed_bootable:
  assumes "install_choosable env tools use_gpt sb r force yes d = Inr (d', Some p)" and "env_boot_img env = build_mbr_boot_sector"
    and g: "length (env_guid env) = 16" "length (env_guid1 env) = 16" "length (env_guid2 env) = 16" and "r < 2 ^ 52"
  shows "bootable d' (if use_gpt then 34 else 1) (take 65024 (env_stage2 env))"
proof -
  obtain sz d0 where w: "size_guards use_gpt sz r = Inr ()" "if use_gpt
     then write_gpt_f (env_crc env) build_mbr_boot_sector (env_stage2 env) (env_guid env) (env_guid1 env) (env_guid2 env) d0 sz r = Some (Inr (d', p))
     else write_mbr_f build_mbr_boot_sector (env_stage2 env) (env_guid env) d0 sz r = Inr (d', p)"
    using install_choosable_written [OF assms(1)] unfolding assms(2) by blast
  have t: "take 65024 (env_stage2 env) = take 65024 (take n (env_stage2 env))" if "65024 \<le> n" for n using that by (simp add: min_def)
  have m: "bootable d' l (take 65024 xs)" if "bootable d' l xs" for l xs using that by (simp add: bootable_def)
  show ?thesis
  proof (cases use_gpt)
    case True
    then show ?thesis using gpt_bootable [OF _ g size_guards_total(1) [OF w(1) assms(6)]] w(2) m t [of "2014 * 512"] by fastforce
  next
    case False
    then show ?thesis using mbr_bootable [OF _ g(1)] w(2) m t [of "2047 * 512"] by fastforce
  qed
qed

text \<open>A BIOS machine at the start of the boot code: the first sector of the drive is at 0x7C00.\<close>

definition powered_on :: "mach \<Rightarrow> u8 \<Rightarrow> (nat \<Rightarrow> u8) \<Rightarrow> bool" where
  "powered_on s drive disk \<longleftrightarrow> (\<forall>i<512. ram s (0x7C00 + i) = disk i) \<and> cs s = 0 \<and> ip s = 0x7C00 \<and> dl s = drive
     \<and> (load16 (ram s) 0x7B00 \<noteq> 0x4F42 \<or> load16 (ram s) 0x7B02 \<noteq> 0x544F)"

lemma powered_on_entry: "powered_on s drive (dbytes d) \<Longrightarrow> bootable d lba stage2 \<Longrightarrow> boot_entry s drive (to_le 4 lba)"
  using mbr_code_length [of "to_le 4 lba"] by (simp add: powered_on_def bootable_def boot_entry_def holds_def)

lemma le_nat_lba: "le_nat (to_le 4 (lba :: u32)) = unat lba"
  using unsigned_less [of lba, where ?'a = nat] by (simp add: to_le_def le_nat_nat_le)

lemma bootable_runs:
  assumes "bootable d lba (take 65024 stage2)" and "powered_on s drive (dbytes d)"
    and "bios_extensions bios drive" and "bios_reads bios drive (dbytes d)"
  shows "\<exists>t. reaches bios s t \<and> cs t = 0 \<and> ip t = 0x7E00 \<and> ds t = 0 \<and> es t = 0 \<and> ss t = 0 \<and> sp t = 0x7C00 \<and> dl t = drive
    \<and> si t = 0x7C0 \<and> bx t = 0xAA55 \<and> holds (ram t) 0x7E00 (take 65024 stage2)"
proof -
  obtain t where t: "reaches bios s t" "cs t = 0" "ip t = 0x7E00" "ds t = 0" "es t = 0" "ss t = 0" "sp t = 0x7C00" "dl t = drive"
      "si t = 0x7C0" "bx t = 0xAA55" "\<forall>i<127 * 512. ram t (0x7E00 + i) = dbytes d (512 * unat lba + i)"
    using boot_runs [OF powered_on_entry [OF assms(2,1)] assms(3,4)] unfolding le_nat_lba by blast
  have "holds (ram t) 0x7E00 (take 65024 stage2)" using t(11) assms(1) by (simp add: holds_def bootable_def)
  with t show ?thesis by blast
qed

text \<open>A BIOS machine: the services the boot code uses over the content of one drive, and memory with one sector loaded.\<close>

definition sample_bios :: "(nat \<Rightarrow> u8) \<Rightarrow> u8 \<Rightarrow> mach \<Rightarrow> mach" where
  "sample_bios disk n s =
     (if n = 0x13 \<and> ah s = 0x41 then s\<lparr>cf := False, bx := 0xAA55, cx := 1\<rparr>
      else if n = 0x13 \<and> ah s = 0x42 then
        (let a = linear (ds s) (si s); b = packet_buffer (ram s) a; l = 512 * packet_count (ram s) a
         in s\<lparr>cf := False, ram := (\<lambda>i. if b \<le> i \<and> i < b + l then disk (512 * packet_lba (ram s) a + (i - b)) else ram s i)\<rparr>)
      else s)"

definition sample_mach :: "nat \<Rightarrow> nat \<Rightarrow> (nat \<Rightarrow> u8) \<Rightarrow> mach" where
  "sample_mach at entry content =
     \<lparr>al = 0, ah = 0, eax_high = 0, bx = 0xAA55, cx = 0, dl = 0x80, dh = 0, si = 0x7C0, di = 0, bp = 0, sp = 0, cs = 0, ds = 0,
      es = 0, ss = 0, ip = entry, cf = False, zf = False, af = False, df = False, intr = True,
      ram = (\<lambda>a. if a < at then 0 else content (a - at))\<rparr>"

lemma sample_extensions: "bios_extensions (sample_bios disk) drive"
  by (simp add: bios_extensions_def sample_bios_def kept_def same_but_refl bit_0)

lemma sample_reads: "bios_reads (sample_bios disk) drive disk"
  by (auto simp: bios_reads_def sample_bios_def kept_def same_but_def Let_def)

lemma sample_a20: "bios_a20 (sample_bios disk)"
  by (simp add: bios_a20_def sample_bios_def kept_def same_but_refl)

lemma sample_powered_on: "powered_on (sample_mach 0x7C00 0x7C00 disk) 0x80 disk"
  by (simp add: powered_on_def sample_mach_def load16_def)

definition boot_env :: install_env where
  "boot_env = sample_env\<lparr>env_boot_img := build_mbr_boot_sector\<rparr>"

lemma boot_env_run: "\<exists>d' p. install_choosable boot_env (\<lambda>_. Inr ()) True False 0 True True blank_disk = Inr (d', Some p)"
proof -
  have "env_clean boot_env 67108864" using sample_env_clean by (simp add: boot_env_def env_clean_def)
  from install_runs [OF this _ sample_guards(1) _ _ blank_detect, of "\<lambda>_. Inr ()" True False]
  show ?thesis by (auto simp: blank_disk_def)
qed

text \<open>C12: a disk the installer has written, as MBR or as GPT, starts on a BIOS machine: the boot code that the build
  assembles, patched for GPT with the block behind the partition table, moves itself away, finds the extended
  read and jumps to 0000:7E00 with the first 127 sectors of the second stage there and the drive in DL.\<close>

theorem installed_disk_loads_stage2:
  assumes "install_choosable env tools use_gpt sb r force yes d = Inr (d', Some p)" and "env_boot_img env = build_mbr_boot_sector"
    and "length (env_guid env) = 16" "length (env_guid1 env) = 16" "length (env_guid2 env) = 16" and "r < 2 ^ 52"
    and "powered_on s drive (dbytes d')" and "bios_extensions bios drive" and "bios_reads bios drive (dbytes d')"
  shows "\<exists>t. reaches bios s t \<and> cs t = 0 \<and> ip t = 0x7E00 \<and> ds t = 0 \<and> es t = 0 \<and> ss t = 0 \<and> sp t = 0x7C00 \<and> dl t = drive
    \<and> si t = 0x7C0 \<and> bx t = 0xAA55 \<and> holds (ram t) 0x7E00 (take 65024 (env_stage2 env))"
  by (rule bootable_runs [OF installed_bootable [OF assms(1-6)] assms(7-9)])

theorem installed_disk_loads_stage2_witness:
  "\<exists>d' p t. install_choosable boot_env (\<lambda>_. Inr ()) True False 0 True True blank_disk = Inr (d', Some p) \<and>
     reaches (sample_bios (dbytes d')) (sample_mach 0x7C00 0x7C00 (dbytes d')) t \<and> ip t = 0x7E00 \<and> dl t = 0x80
     \<and> holds (ram t) 0x7E00 [0xF4]"
proof -
  obtain d' p where run: "install_choosable boot_env (\<lambda>_. Inr ()) True False 0 True True blank_disk = Inr (d', Some p)"
    using boot_env_run by blast
  have e: "env_boot_img boot_env = build_mbr_boot_sector" "length (env_guid boot_env) = 16" "length (env_guid1 boot_env) = 16"
    "length (env_guid2 boot_env) = 16" "env_stage2 boot_env = [0xF4]"
    by (simp_all add: boot_env_def sample_env_def)
  from installed_disk_loads_stage2 [OF run e(1-4) _ sample_powered_on sample_extensions sample_reads] run
  show ?thesis unfolding e(5) by auto
qed

text \<open>C21: the second stage that the build assembles has no jump over its descriptor table: entered at 0000:7E00 as the
  boot code enters it, the processor runs through the padding into the table, takes its bytes for
  instructions and makes a far call to FFFF:00CF, without having come to the switch to protected mode.\<close>

theorem stage2_runs_into_table:
  assumes "holds (ram s) 0x7E00 (take 65024 (build_stage2_binary kernel_bin))" and "cs s = 0" "ip s = 0x7E00" "ds s = 0"
    and "bx s = 0xAA55" "si s = 0x7C0" and "bios_a20 bios"
  shows "\<exists>t. reaches bios s t \<and> cs t = 0xFFFF \<and> ip t = 0xCF"
proof -
  have "holds (ram s) 0x7E00 (take 312 (take 65024 (build_stage2_binary kernel_bin)))"
    using assms(1) by (simp add: holds_def)
  then have "holds (ram s) 0x7E00 stage2_head" using stage2_image [of kernel_bin] by (simp add: min_def)
  from stage2_runs [OF this assms(2-7)] show ?thesis .
qed

theorem stage2_runs_into_table_witness:
  "\<exists>t. reaches (sample_bios (\<lambda>_. 0)) (sample_mach 0x7E00 0x7E00 ((!) (build_stage2_binary [0xF4]))) t \<and> cs t = 0xFFFF \<and> ip t = 0xCF"
proof -
  have "holds (ram (sample_mach 0x7E00 0x7E00 ((!) (build_stage2_binary [0xF4])))) 0x7E00 (take 65024 (build_stage2_binary [0xF4]))"
    by (simp add: holds_def sample_mach_def)
  from stage2_runs_into_table [OF this _ _ _ _ _ sample_a20] show ?thesis by (simp add: sample_mach_def)
qed

text \<open>When the extended read fails, the boot code halves the count in its packet and enters the second stage all
  the same, without reading again: no byte from 0x7E00 on has changed.\<close>

theorem failed_read_enters_stage2:
  assumes "bootable d lba stage2" and "powered_on s drive (dbytes d)" and "bios_extensions bios drive" and "bios_read_fails bios drive"
  shows "\<exists>t. reaches bios s t \<and> cs t = 0 \<and> ip t = 0x7E00 \<and> dl t = drive \<and> (\<forall>a\<ge>0x7E00. ram t a = ram s a)"
  by (rule boot_read_failed [OF powered_on_entry [OF assms(2,1)] assms(3,4)])

end
