(* ===== verification/Spec2Isabelle.thy ===== *)
theory Spec2Isabelle
  imports InstallerTheorems DiskIo KMain EfiBootKind EfiGrub EfiDisk EfiPremount EfiVbio EfiFsTheorems EfiIsoTheorems EfiStagesTheorems EfiBootTheorems PremountTheorems InstallerToolsTheorems Sysfs BootTheorems
begin

text \<open>
  Choosable makes a disk from which ISO files and EFI programs can be started. This library models its Rust code
  and proves what makes it correct.

  \<^bold>\<open>The program.\<close> An installer (\<open>src/\<close>) partitions a disk: partition 1 for the user's images, partition 2 for
  the UEFI loader, boot code and a second stage in the gap before partition 1. On a BIOS machine the boot code and
  the second stage (\<open>bootloader/build.rs\<close>) start a kernel (\<open>bootloader/kernel\<close>) that lists the ISO files of
  partition 1 and starts the El Torito image of the chosen one. On a UEFI machine the loader (\<open>bootloader/efi\<close>)
  finds partition 1, lists the payloads in it, offers them in a menu and starts the chosen one from a virtual CD-ROM,
  on which the GRUB configuration is changed and an archive with \<open>/init.choosable\<close> is added. That program
  (\<open>bootloader/premount-init\<close>) runs first when Linux starts, reads the place of the ISO from the kernel command line
  and mounts it for the distribution.

  \<^bold>\<open>Theories.\<close> Names of definitions are those of the source where they do not clash.
  \<^item> \<^theory_text>\<open>Prelude\<close>: words, slices with Rust's checks, byte order, outcomes, the interface of a sector source.
  \<^item> \<^theory_text>\<open>DiskLayout\<close> (\<open>src/disk_layout.rs\<close>, \<open>error.rs\<close>, \<open>constants.rs\<close>): MBR and GPT records, their
    bytes, the disk as a byte array of fixed size.
  \<^item> \<^theory_text>\<open>Installer\<close>, \<^theory_text>\<open>InstallerCorrect\<close>, \<^theory_text>\<open>InstallerProps\<close>, \<^theory_text>\<open>InstallerUpdate\<close>, \<^theory_text>\<open>InstallerTheorems\<close>
    (\<open>src/installer.rs\<close>, \<open>detect_choosable\<close>): the three handlers with their raw writes.
    \<^theory_text>\<open>InstallerTools\<close>, \<^theory_text>\<open>InstallerToolsTheorems\<close>: the programs and the files of the EFI partition behind them.
    \<^theory_text>\<open>DiskIo\<close>, \<^theory_text>\<open>Sysfs\<close> (\<open>src/disk.rs\<close>): drives, partition windows, sector I/O, sysfs.
  \<^item> \<^theory_text>\<open>BootImage\<close> (\<open>bootloader/build.rs\<close>): the boot code and the second stage as the bytes the generator
    emits, the kernel's flat image. \<^theory_text>\<open>X86Real\<close>: a processor in real mode for the instructions of that code;
    \<^theory_text>\<open>BootSector\<close>, \<^theory_text>\<open>BootRun\<close>, \<^theory_text>\<open>BootTheorems\<close>: the code in pieces, run on it, from the installed disk.
  \<^item> \<^theory_text>\<open>Ata\<close>, \<^theory_text>\<open>Console\<close>, \<^theory_text>\<open>KPart\<close>, \<^theory_text>\<open>KernelFs\<close>, \<^theory_text>\<open>KernelFsCorrect\<close>, \<^theory_text>\<open>KernelExfat\<close>,
    \<^theory_text>\<open>KernelFsTheorems\<close>, \<^theory_text>\<open>KernelNtfs\<close>, \<^theory_text>\<open>KScan\<close>, \<^theory_text>\<open>KIso\<close>, \<^theory_text>\<open>KMenu\<close>, \<^theory_text>\<open>Chainload\<close>, \<^theory_text>\<open>KMain\<close>
    (\<open>bootloader/kernel/src\<close>): the BIOS kernel, from its entry to the mode switch. The ATA device, the
    keyboard and the BIOS are parameters.
  \<^item> \<^theory_text>\<open>EfiDisk\<close> (\<open>disk.rs\<close>), \<^theory_text>\<open>EfiFs\<close>, \<^theory_text>\<open>EfiFsCorrect\<close>, \<^theory_text>\<open>EfiFsTree\<close>, \<^theory_text>\<open>EfiFsTheorems\<close>
    (\<open>fs.rs\<close>), \<^theory_text>\<open>EfiMenu\<close>, \<^theory_text>\<open>EfiMenuCorrect\<close> (the payload menu of \<open>iso.rs\<close>), \<^theory_text>\<open>EfiStages\<close>,
    \<^theory_text>\<open>EfiStagesCorrect\<close>, \<^theory_text>\<open>EfiStagesTheorems\<close> (\<open>boot_stage.rs\<close>, \<open>boot_context.rs\<close>, \<open>main.rs\<close>): the
    UEFI loader up to the choice of a payload.
  \<^item> \<^theory_text>\<open>EfiBootKind\<close> (\<open>boot_kind.rs\<close>, \<open>locator.rs\<close>), \<^theory_text>\<open>EfiGrub\<close> (\<open>strategy.rs\<close>), \<^theory_text>\<open>EfiPremount\<close>
    (\<open>premount.rs\<close>), \<^theory_text>\<open>EfiVbio\<close> (\<open>virtual_blockio.rs\<close>), \<^theory_text>\<open>EfiIso\<close>, \<^theory_text>\<open>EfiIsoCfg\<close>, \<^theory_text>\<open>EfiIsoMount\<close>,
    \<^theory_text>\<open>EfiIsoPatch\<close>, \<^theory_text>\<open>EfiIsoTheorems\<close> (\<open>iso.rs\<close>), \<^theory_text>\<open>EfiIsoFs\<close>, \<^theory_text>\<open>EfiIsoFsCorrect\<close>, \<^theory_text>\<open>EfiIsoFsFiles\<close>,
    \<^theory_text>\<open>EfiIsoFsDir\<close>, \<^theory_text>\<open>EfiIsoFsList\<close>, \<^theory_text>\<open>EfiIsoFsTheorems\<close> (\<open>iso_fs.rs\<close>), \<^theory_text>\<open>EfiBoot\<close>, \<^theory_text>\<open>EfiBootPaths\<close>,
    \<^theory_text>\<open>EfiBootCorrect\<close>, \<^theory_text>\<open>EfiBootExample\<close>, \<^theory_text>\<open>EfiBootTheorems\<close> (\<open>uefi_chainload_iso\<close> and the dispatcher): the
    virtual CD-ROM, the changes made on it, its file system, and the start of the payload. All under
    \<open>bootloader/efi/src\<close>.
  \<^item> \<^theory_text>\<open>PremountInit\<close>, \<^theory_text>\<open>PremountMount\<close>, \<^theory_text>\<open>PremountTheorems\<close> (\<open>bootloader/premount-init/src/main.rs\<close>).

  \<^bold>\<open>State.\<close> A disk of the installer is its size with a function from offsets to bytes; the loaders read sectors
  through a function that may fail. A menu is a record with the digits typed and the page; a handle of the ISO file
  system is a record with its extent and position; the virtual disc is a record with the fields of \<open>VirtualBlockIo\<close>.
  The firmware, Linux and the programs the installer runs are records of their answers. \<open>None\<close> is a Rust panic
  where a function can panic, \<open>Inl\<close> an error the code returns, and the outcome \<open>Spin\<close> a loop that has not ended
  within the given number of rounds.

  \<^bold>\<open>What is shown.\<close> For the installer: what it writes is what the loaders and its own detection read, layouts
  are aligned and inside the disk, updates leave the data and the partitions alone, and success means the loader is on
  partition 2. For the scanners of both loaders: no index out of range for any content of a disk, a bounded number of entries, and for
  FAT the exact list. For the menus: no sequence of keys panics, and the number a line shows chooses that line. For
  the pipeline and the chain load: no panic whatever the firmware answers, an end of the pipeline unless the scan of the
  file system has none, an installed disk boots, the chosen program is started with a device path that reads back,
  retried without one when the firmware refuses. For the virtual disc: what a reader finds after the changes, and
  everything else as on the ISO. For the parameters: what the loader writes is what
  \<open>/init.choosable\<close> reads, and that ISO is what it mounts. For the mode switch: the processor reaches the boot image,
  unless the image, whose length the kernel does not bound, was copied over the kernel (the end \<open>Overwritten\<close>). For
  the boot code of the build: from the disk the installer wrote it loads the second stage, which then leaves before the switch to
  protected mode.

  \<^bold>\<open>Locales.\<close> The interface of a sector source, of a directory scan, of the disk, of a listing and of a disc reader
  are locales, each interpreted on the model's own definitions in the theory that provides them.

  \<^bold>\<open>Bounds.\<close> Crates are built for release, so unsigned arithmetic wraps and the fixed widths are words. Recursion
  of the UEFI directory walk takes a depth; the loop over clusters of a chain takes fuel, and the theorems
  that claim an end either hold for every fuel or give a fuel that is enough, from the length of the chain. The
  pipeline takes the polls of the keyboard as a list. The walks over a directory of an ISO end by a measure of the
  bytes that are left.

  \<^bold>\<open>Not modelled.\<close> The command line parser and the window, which forward to the handlers; the checks of
  \<open>checks.rs\<close> and udev, whose results are fields of the installer's environment; cargo, which the build scripts run;
  the text on the screens apart from the menu pages and the messages that end a run; freeing firmware memory; waiting
  for a key after a message. The crates \<open>fatfs\<close> and \<open>crc32fast\<close>, the firmware, the BIOS, Linux and the programs of
  the host are parameters.
\<close>

end
